(* ===== verification/Prelude.thy ===== *)
theory Prelude
  imports Complex_Main "HOL-Library.Word" "HOL-Library.Sublist"
begin

unbundle bit_operations_syntax

text \<open>
  The vocabulary shared by every component.

  A Rust \<open>u8\<close>, \<open>u16\<close>, \<open>u32\<close>, \<open>u64\<close>, \<open>u128\<close> is a word of that width; a byte vector is a
  list of 8-bit words. A Rust string is the list of its UTF-8 bytes, each an Isabelle
  character, so that \<open>length\<close> is Rust's \<open>str::len\<close>. A \<open>Result\<close> is a sum whose left
  injection is the error.

  The second half states the three interfaces that several components share: a
  length-delimited framing of values on a byte stream (\<open>framing\<close>), an order-then-dedup
  presentation of a list of endpoints (\<open>ranked_view\<close>), and a step function with an
  invariant (\<open>step_system\<close>). Each is interpreted in the component that provides it.
\<close>

type_synonym u8 = "8 word"
type_synonym u16 = "16 word"
type_synonym u32 = "32 word"
type_synonym u64 = "64 word"
type_synonym u128 = "128 word"
type_synonym bytes = "u8 list"

named_theorems result_simps "the equations of the result combinators"
named_theorems string_simps "the equations of the string operations"

section \<open>Results\<close>

fun and_then :: "'e + 'a \<Rightarrow> ('a \<Rightarrow> 'e + 'b) \<Rightarrow> 'e + 'b" where
  "and_then (Inl e) f = Inl e"
| "and_then (Inr x) f = f x"

fun ok_or :: "'a option \<Rightarrow> 'e \<Rightarrow> 'e + 'a" where
  "ok_or None e = Inl e"
| "ok_or (Some x) e = Inr x"

fun is_ok :: "'e + 'a \<Rightarrow> bool" where
  "is_ok (Inl e) = False"
| "is_ok (Inr x) = True"

lemma and_then_Inr [result_simps]:
  "and_then m f = Inr y \<longleftrightarrow> (\<exists>x. m = Inr x \<and> f x = Inr y)"
  by (cases m) auto

lemma and_then_Inl [result_simps]:
  "and_then m f = Inl e \<longleftrightarrow> m = Inl e \<or> (\<exists>x. m = Inr x \<and> f x = Inl e)"
  by (cases m) auto

lemma ok_or_Inr [result_simps]: "ok_or m e = Inr x \<longleftrightarrow> m = Some x"
  by (cases m) auto

lemma ok_or_Inl [result_simps]: "ok_or m e = Inl e' \<longleftrightarrow> m = None \<and> e' = e"
  by (cases m) auto

section \<open>Characters and strings\<close>

definition code :: "char \<Rightarrow> nat" where
  "code c = of_char c"

lemma code_less [simp]: "code c < 256"
  by (simp add: code_def)

lemma code_eq_iff [simp]: "code c = code d \<longleftrightarrow> c = d"
  by (simp add: code_def)

definition is_lower :: "char \<Rightarrow> bool" where
  "is_lower c \<longleftrightarrow> 97 \<le> code c \<and> code c \<le> 122"

definition is_upper :: "char \<Rightarrow> bool" where
  "is_upper c \<longleftrightarrow> 65 \<le> code c \<and> code c \<le> 90"

definition is_digit :: "char \<Rightarrow> bool" where
  "is_digit c \<longleftrightarrow> 48 \<le> code c \<and> code c \<le> 57"

definition is_alnum :: "char \<Rightarrow> bool" where
  "is_alnum c \<longleftrightarrow> is_lower c \<or> is_upper c \<or> is_digit c"

definition is_hexdigit :: "char \<Rightarrow> bool" where
  "is_hexdigit c \<longleftrightarrow> is_digit c \<or> 97 \<le> code c \<and> code c \<le> 102 \<or> 65 \<le> code c \<and> code c \<le> 70"

definition is_graphic :: "char \<Rightarrow> bool" where
  "is_graphic c \<longleftrightarrow> 33 \<le> code c \<and> code c \<le> 126"

definition lower_char :: "char \<Rightarrow> char" where
  "lower_char c = (if is_upper c then char_of (code c + 32) else c)"

definition to_lower :: "string \<Rightarrow> string" where
  "to_lower s = map lower_char s"

lemma code_lower_char: "code (lower_char c) = (if is_upper c then code c + 32 else code c)"
  by (simp add: lower_char_def code_def is_upper_def)

lemma lower_char_not_upper [simp]: "\<not> is_upper (lower_char c)"
  unfolding is_upper_def by (simp add: code_lower_char) (simp add: is_upper_def)

lemma lower_char_id: "\<not> is_upper c \<Longrightarrow> lower_char c = c"
  by (simp add: lower_char_def)

lemma to_lower_idem [simp]: "to_lower (to_lower s) = to_lower s"
  by (simp add: to_lower_def lower_char_id)

lemma to_lower_id: "\<forall>c \<in> set s. \<not> is_upper c \<Longrightarrow> to_lower s = s"
  by (simp add: to_lower_def lower_char_id map_idI)

lemma length_to_lower [simp]: "length (to_lower s) = length s"
  by (simp add: to_lower_def)

lemma digit_not_upper: "is_digit c \<Longrightarrow> \<not> is_upper c"
  by (simp add: is_digit_def is_upper_def)

lemma lower_not_upper: "is_lower c \<Longrightarrow> \<not> is_upper c"
  by (simp add: is_lower_def is_upper_def)

lemma digit_graphic: "is_digit c \<Longrightarrow> is_graphic c"
  by (simp add: is_digit_def is_graphic_def)

lemma lower_graphic: "is_lower c \<Longrightarrow> is_graphic c"
  by (simp add: is_lower_def is_graphic_def)

lemma upper_graphic: "is_upper c \<Longrightarrow> is_graphic c"
  by (simp add: is_upper_def is_graphic_def)

lemmas char_class_defs = is_lower_def is_upper_def is_digit_def is_alnum_def is_hexdigit_def
  is_graphic_def

text \<open>
  \<open>str::trim\<close> removes leading and trailing characters with the Unicode White\_Space
  property. In UTF-8 these are the one-byte characters 9 to 13 and 32 and the multi-byte
  sequences listed here: \<open>ws_len\<close> is the length of the white-space character the string
  starts with (0 if it starts with none), \<open>ws_len_rev\<close> the same for the reversed string.
\<close>

fun ws_len :: "nat list \<Rightarrow> nat" where
  "ws_len (a # rest) =
     (if 9 \<le> a \<and> a \<le> 13 \<or> a = 32 then 1
      else case rest of
        [] \<Rightarrow> 0
      | b # rest' \<Rightarrow>
          if a = 194 \<and> (b = 133 \<or> b = 160) then 2
          else case rest' of
            [] \<Rightarrow> 0
          | c # _ \<Rightarrow>
              if a = 225 \<and> b = 154 \<and> c = 128 \<or>
                 a = 226 \<and> b = 128 \<and> (128 \<le> c \<and> c \<le> 138 \<or> c = 168 \<or> c = 169 \<or> c = 175) \<or>
                 a = 226 \<and> b = 129 \<and> c = 159 \<or>
                 a = 227 \<and> b = 128 \<and> c = 128 then 3 else 0)"
| "ws_len [] = 0"

fun ws_len_rev :: "nat list \<Rightarrow> nat" where
  "ws_len_rev (a # rest) =
     (if ws_len [a] = 1 then 1
      else case rest of
        [] \<Rightarrow> 0
      | b # rest' \<Rightarrow>
          if ws_len [b, a] = 2 then 2
          else case rest' of
            [] \<Rightarrow> 0
          | c # _ \<Rightarrow> if ws_len [c, b, a] = 3 then 3 else 0)"
| "ws_len_rev [] = 0"

lemma ws_len_less:
  "0 < ws_len (map code s) \<Longrightarrow> length s - ws_len (map code s) < length s"
  by (rule diff_less) (cases s; simp)+

lemma ws_len_rev_less:
  "0 < ws_len_rev (map code s) \<Longrightarrow> length s - ws_len_rev (map code s) < length s"
  by (rule diff_less) (cases s; simp)+

function trim_start :: "string \<Rightarrow> string" where
  "trim_start s = (let n = ws_len (map code s) in if n = 0 then s else trim_start (drop n s))"
  by pat_completeness auto
termination by (relation "measure length") (auto intro: ws_len_less)

function trim_start_rev :: "string \<Rightarrow> string" where
  "trim_start_rev s =
     (let n = ws_len_rev (map code s) in if n = 0 then s else trim_start_rev (drop n s))"
  by pat_completeness auto
termination by (relation "measure length") (auto intro: ws_len_rev_less)

declare trim_start.simps [simp del] trim_start_rev.simps [simp del]

definition trim_end :: "string \<Rightarrow> string" where
  "trim_end s = rev (trim_start_rev (rev s))"

definition trim :: "string \<Rightarrow> string" where
  "trim s = trim_end (trim_start s)"

lemma trim_start_graphic:
  "(case s of [] \<Rightarrow> True | c # _ \<Rightarrow> is_graphic c) \<Longrightarrow> trim_start s = s"
  by (subst trim_start.simps) (auto simp: is_graphic_def split: list.splits)

lemma trim_start_rev_graphic:
  "(case s of [] \<Rightarrow> True | c # _ \<Rightarrow> is_graphic c) \<Longrightarrow> trim_start_rev s = s"
  by (subst trim_start_rev.simps) (auto simp: is_graphic_def split: list.splits)

lemma trim_graphic: "\<forall>c \<in> set s. is_graphic c \<Longrightarrow> trim s = s"
proof -
  assume g: "\<forall>c \<in> set s. is_graphic c"
  have "trim_start s = s"
    by (rule trim_start_graphic) (use g in \<open>simp split: list.splits\<close>)
  moreover have "\<forall>c \<in> set (rev s). is_graphic c" using g by simp
  then have "trim_start_rev (rev s) = rev s"
    by (intro trim_start_rev_graphic) (simp split: list.splits)
  ultimately show ?thesis by (simp add: trim_def trim_end_def)
qed

lemma suffix_trim_start: "suffix (trim_start s) s"
proof (induction s rule: trim_start.induct)
  case (1 s)
  then show ?case
    by (subst trim_start.simps)
      (auto simp: Let_def intro: suffix_order.trans suffix_drop)
qed

lemma suffix_trim_start_rev: "suffix (trim_start_rev s) s"
proof (induction s rule: trim_start_rev.induct)
  case (1 s)
  then show ?case
    by (subst trim_start_rev.simps)
      (auto simp: Let_def intro: suffix_order.trans suffix_drop)
qed

lemma set_trim: "set (trim s) \<subseteq> set s"
  using suffix_trim_start [of s] suffix_trim_start_rev [of "rev (trim_start s)"]
  by (fastforce simp: trim_def trim_end_def dest!: set_mono_suffix)

text \<open>Splitting, prefixes, suffixes and substrings, as the methods of \<open>str\<close>.\<close>

fun split_on :: "('a \<Rightarrow> bool) \<Rightarrow> 'a list \<Rightarrow> 'a list list" where
  "split_on p [] = [[]]"
| "split_on p (x # xs) =
     (if p x then [] # split_on p xs
      else (x # hd (split_on p xs)) # tl (split_on p xs))"

lemma split_on_nonempty [simp]: "split_on p xs \<noteq> []"
  by (cases xs) auto

lemma split_on_no_sep: "x \<in> set ys \<Longrightarrow> ys \<in> set (split_on p xs) \<Longrightarrow> \<not> p x"
proof (induction xs arbitrary: ys)
  case Nil
  then show ?case by simp
next
  case (Cons a xs)
  have "hd (split_on p xs) \<in> set (split_on p xs)" by simp
  moreover have "set (tl (split_on p xs)) \<subseteq> set (split_on p xs)"
    by (cases "split_on p xs") auto
  ultimately show ?case using Cons by (fastforce split: if_splits)
qed

lemma set_split_on: "ys \<in> set (split_on p xs) \<Longrightarrow> set ys \<subseteq> set xs"
proof (induction xs arbitrary: ys)
  case Nil
  then show ?case by simp
next
  case (Cons a xs)
  have hd: "set (hd (split_on p xs)) \<subseteq> set xs"
    by (rule Cons.IH) simp
  have tl: "set (tl (split_on p xs)) \<subseteq> set (split_on p xs)"
    by (cases "split_on p xs") auto
  from Cons.prems consider "p a" "ys = []" | "\<not> p a" "ys = a # hd (split_on p xs)"
    | "ys \<in> set (split_on p xs)"
    using tl by (auto split: if_splits)
  then show ?case
    by cases (use hd Cons.IH in force)+
qed

lemma split_on_none: "\<forall>x \<in> set xs. \<not> p x \<Longrightarrow> split_on p xs = [xs]"
  by (induction xs) auto

lemma split_on_append_sep:
  "\<forall>x \<in> set xs. \<not> p x \<Longrightarrow> p y \<Longrightarrow> split_on p (xs @ y # ys) = xs # split_on p ys"
  by (induction xs) auto

definition starts_with :: "'a list \<Rightarrow> 'a list \<Rightarrow> bool" where
  "starts_with p s \<longleftrightarrow> take (length p) s = p"

definition ends_with :: "'a list \<Rightarrow> 'a list \<Rightarrow> bool" where
  "ends_with p s \<longleftrightarrow> length p \<le> length s \<and> drop (length s - length p) s = p"

definition strip_prefix :: "'a list \<Rightarrow> 'a list \<Rightarrow> 'a list option" where
  "strip_prefix p s = (if starts_with p s then Some (drop (length p) s) else None)"

definition strip_suffix :: "'a list \<Rightarrow> 'a list \<Rightarrow> 'a list option" where
  "strip_suffix p s = (if ends_with p s then Some (take (length s - length p) s) else None)"

fun contains_sub :: "'a list \<Rightarrow> 'a list \<Rightarrow> bool" where
  "contains_sub p [] = (p = [])"
| "contains_sub p (x # xs) = (starts_with p (x # xs) \<or> contains_sub p xs)"

definition split_once :: "'a \<Rightarrow> 'a list \<Rightarrow> ('a list \<times> 'a list) option" where
  "split_once c s =
     (if c \<in> set s then Some (takeWhile (\<lambda>x. x \<noteq> c) s, tl (dropWhile (\<lambda>x. x \<noteq> c) s)) else None)"

lemma strip_prefix_append [simp]: "strip_prefix p (p @ s) = Some s"
  by (simp add: strip_prefix_def starts_with_def)

lemma strip_prefix_Some: "strip_prefix p s = Some t \<longleftrightarrow> s = p @ t"
  by (auto simp: strip_prefix_def starts_with_def)
    (metis append_take_drop_id)

lemma strip_suffix_append [simp]: "strip_suffix p (s @ p) = Some s"
  by (simp add: strip_suffix_def ends_with_def)

lemma strip_suffix_Some: "strip_suffix p s = Some t \<longleftrightarrow> s = t @ p"
  by (auto simp: strip_suffix_def ends_with_def)
    (metis append_take_drop_id)

lemma contains_sub_iff: "contains_sub p s \<longleftrightarrow> (\<exists>a b. s = a @ p @ b)"
proof (induction s)
  case Nil
  then show ?case by auto
next
  case (Cons x xs)
  have "starts_with p (x # xs) \<longleftrightarrow> (\<exists>b. x # xs = p @ b)"
    unfolding starts_with_def by (metis append_eq_conv_conj append_take_drop_id)
  then show ?case
    using Cons by (auto simp: Cons_eq_append_conv)
qed

text \<open>Well-formed UTF-8, the condition of \<open>OsStr::to\_str\<close> and \<open>String::from\_utf8\<close>.\<close>

definition utf8_cont :: "nat \<Rightarrow> bool" where
  "utf8_cont b \<longleftrightarrow> 128 \<le> b \<and> b \<le> 191"

fun utf8_valid :: "nat list \<Rightarrow> bool" where
  "utf8_valid [] = True"
| "utf8_valid (a # s) =
     (if a \<le> 127 then utf8_valid s
      else case s of [] \<Rightarrow> False
      | b # s1 \<Rightarrow>
        if 194 \<le> a \<and> a \<le> 223 then utf8_cont b \<and> utf8_valid s1
        else case s1 of [] \<Rightarrow> False
        | c # s2 \<Rightarrow>
          if 224 \<le> a \<and> a \<le> 239 then
            utf8_cont b \<and> utf8_cont c \<and> (a = 224 \<longrightarrow> 160 \<le> b) \<and> (a = 237 \<longrightarrow> b \<le> 159) \<and>
            utf8_valid s2
          else case s2 of [] \<Rightarrow> False
          | d # s3 \<Rightarrow>
            240 \<le> a \<and> a \<le> 244 \<and> utf8_cont b \<and> utf8_cont c \<and> utf8_cont d \<and>
            (a = 240 \<longrightarrow> 144 \<le> b) \<and> (a = 244 \<longrightarrow> b \<le> 143) \<and> utf8_valid s3)"

lemma utf8_valid_ascii: "\<forall>b \<in> set bs. b \<le> 127 \<Longrightarrow> utf8_valid bs"
  by (induction bs) auto

section \<open>Numbers as digits and as bytes\<close>

definition digit_char :: "nat \<Rightarrow> char" where
  "digit_char d = char_of (48 + d)"

fun dec_str :: "nat \<Rightarrow> string" where
  "dec_str n = (if n < 10 then [digit_char n] else dec_str (n div 10) @ [digit_char (n mod 10)])"

declare dec_str.simps [simp del]

definition dec_val :: "string \<Rightarrow> nat" where
  "dec_val s = foldl (\<lambda>a c. a * 10 + (code c - 48)) 0 s"

lemma code_digit_char: "d < 10 \<Longrightarrow> code (digit_char d) = 48 + d"
  by (simp add: digit_char_def code_def)

lemma is_digit_digit_char: "d < 10 \<Longrightarrow> is_digit (digit_char d)"
  by (simp add: is_digit_def code_digit_char)

lemma dec_val_dec_str [simp]: "dec_val (dec_str n) = n"
proof (induction n rule: dec_str.induct)
  case (1 n)
  then show ?case
    by (subst dec_str.simps) (auto simp: dec_val_def code_digit_char)
qed

lemma dec_str_inject [simp]: "dec_str m = dec_str n \<longleftrightarrow> m = n"
  by (metis dec_val_dec_str)

lemma dec_str_digits: "\<forall>c \<in> set (dec_str n). is_digit c"
proof (induction n rule: dec_str.induct)
  case (1 n)
  then show ?case
    by (subst dec_str.simps) (auto simp: is_digit_digit_char)
qed

lemma dec_str_nonempty [simp]: "dec_str n \<noteq> []"
  by (subst dec_str.simps) simp

fun be_bytes :: "nat \<Rightarrow> nat \<Rightarrow> bytes" where
  "be_bytes 0 v = []"
| "be_bytes (Suc n) v = be_bytes n (v div 256) @ [of_nat v]"

definition of_be :: "bytes \<Rightarrow> nat" where
  "of_be bs = foldl (\<lambda>a b. a * 256 + unat b) 0 bs"

lemma length_be_bytes [simp]: "length (be_bytes n v) = n"
  by (induction n arbitrary: v) auto

lemma of_be_be_bytes: "of_be (be_bytes n v) = v mod 256 ^ n"
proof (induction n arbitrary: v)
  case 0
  then show ?case by (simp add: of_be_def)
next
  case (Suc n)
  have "of_be (be_bytes (Suc n) v) = v div 256 mod 256 ^ n * 256 + v mod 256"
    using Suc [of "v div 256"] by (simp add: of_be_def unat_of_nat)
  also have "\<dots> = v mod 256 ^ Suc n"
    by (simp add: mod_mult2_eq)
  finally show ?case .
qed

lemma of_be_be_bytes_small [simp]: "v < 256 ^ n \<Longrightarrow> of_be (be_bytes n v) = v"
  by (simp add: of_be_be_bytes)

lemma be_bytes_inject:
  "u < 256 ^ n \<Longrightarrow> v < 256 ^ n \<Longrightarrow> be_bytes n u = be_bytes n v \<longleftrightarrow> u = v"
  by (metis of_be_be_bytes_small)

definition str_bytes :: "string \<Rightarrow> bytes" where
  "str_bytes s = map (\<lambda>c. of_nat (code c)) s"

definition bytes_str :: "bytes \<Rightarrow> string" where
  "bytes_str bs = map (\<lambda>b. char_of (unat b)) bs"

lemma bytes_str_str_bytes [simp]: "bytes_str (str_bytes s) = s"
  by (simp add: bytes_str_def str_bytes_def code_def unat_of_nat map_idI)

lemma length_str_bytes [simp]: "length (str_bytes s) = length s"
  by (simp add: str_bytes_def)

lemma str_bytes_inject [simp]: "str_bytes s = str_bytes t \<longleftrightarrow> s = t"
  by (metis bytes_str_str_bytes)

definition hex_digit :: "nat \<Rightarrow> char" where
  "hex_digit d = (if d < 10 then char_of (48 + d) else char_of (87 + d))"

definition hex_byte :: "u8 \<Rightarrow> string" where
  "hex_byte b = [hex_digit (unat b div 16), hex_digit (unat b mod 16)]"

definition hex_str :: "bytes \<Rightarrow> string" where
  "hex_str bs = concat (map hex_byte bs)"

definition is_hex_lower :: "char \<Rightarrow> bool" where
  "is_hex_lower c \<longleftrightarrow> is_digit c \<or> 97 \<le> code c \<and> code c \<le> 102"

lemma unat_u8_less [simp]: "unat (b :: u8) < 256"
  using unsigned_less [of b, where ?'a = nat] by simp

lemma code_hex_digit: "d < 16 \<Longrightarrow> code (hex_digit d) = (if d < 10 then 48 + d else 87 + d)"
  by (simp add: hex_digit_def code_def)

lemma is_hex_lower_hex_digit: "d < 16 \<Longrightarrow> is_hex_lower (hex_digit d)"
  by (auto simp: is_hex_lower_def is_digit_def code_hex_digit)

lemma hex_digit_inject: "c < 16 \<Longrightarrow> d < 16 \<Longrightarrow> hex_digit c = hex_digit d \<longleftrightarrow> c = d"
proof
  assume "c < 16" "d < 16" "hex_digit c = hex_digit d"
  then have "code (hex_digit c) = code (hex_digit d)" by simp
  with \<open>c < 16\<close> \<open>d < 16\<close> show "c = d"
    by (simp add: code_hex_digit split: if_splits)
qed simp

lemma hex_str_chars: "\<forall>c \<in> set (hex_str bs). is_hex_lower c"
proof -
  have "unat b div 16 < 16" "unat b mod 16 < 16" for b :: u8
    using unat_u8_less [of b] by (auto simp: less_mult_imp_div_less)
  then show ?thesis
    by (auto simp: hex_str_def hex_byte_def is_hex_lower_hex_digit)
qed

lemma length_hex_str [simp]: "length (hex_str bs) = 2 * length bs"
  by (induction bs) (auto simp: hex_str_def hex_byte_def)

section \<open>Checked and saturating arithmetic\<close>

definition checked_add :: "'w::len word \<Rightarrow> 'w word \<Rightarrow> 'w word option" where
  "checked_add a b = (if unat a + unat b < 2 ^ LENGTH('w) then Some (a + b) else None)"

definition saturating_add :: "'w::len word \<Rightarrow> 'w word \<Rightarrow> 'w word" where
  "saturating_add a b = (if unat a + unat b < 2 ^ LENGTH('w) then a + b else - 1)"

lemma checked_add_Some:
  "checked_add a b = Some c \<Longrightarrow> unat c = unat a + unat b"
  by (auto simp: checked_add_def unat_word_ariths split: if_splits)

definition clamp :: "'a::linorder \<Rightarrow> 'a \<Rightarrow> 'a \<Rightarrow> 'a" where
  "clamp lo hi x = (if x < lo then lo else if hi < x then hi else x)"

lemma clamp_bounds: "lo \<le> hi \<Longrightarrow> lo \<le> clamp lo hi x \<and> clamp lo hi x \<le> hi"
  by (auto simp: clamp_def)

section \<open>Sorting by a key and removing adjacent duplicates\<close>

text \<open>
  \<open>sort\_by\_key\<close> of a slice is the library's stable \<open>sort_key\<close>, and \<open>dedup\<close> (equal
  neighbours collapse to the first) is \<open>remdups_adj\<close>. \<open>dedup_by\<close> keeps the first of
  each run of neighbours related by the test.
\<close>

fun dedup_by :: "('a \<Rightarrow> 'a \<Rightarrow> bool) \<Rightarrow> 'a list \<Rightarrow> 'a list" where
  "dedup_by same [] = []"
| "dedup_by same [x] = [x]"
| "dedup_by same (x # y # xs) =
     (if same y x then dedup_by same (x # xs) else x # dedup_by same (y # xs))"

lemma set_dedup_by: "set (dedup_by same xs) \<subseteq> set xs"
  by (induction same xs rule: dedup_by.induct) auto

lemma sorted_remdups_adj_map: "sorted (map f xs) \<Longrightarrow> sorted (map f (remdups_adj xs))"
  by (induction xs rule: remdups_adj.induct) auto

section \<open>Interfaces\<close>

fun get_many :: "(bytes \<Rightarrow> ('f \<times> bytes) option) \<Rightarrow> nat \<Rightarrow> bytes \<Rightarrow> ('f list \<times> bytes) option" where
  "get_many get 0 bs = Some ([], bs)"
| "get_many get (Suc n) bs =
     (case get bs of
        None \<Rightarrow> None
      | Some (f, rest) \<Rightarrow>
          (case get_many get n rest of None \<Rightarrow> None | Some (fs, r) \<Rightarrow> Some (f # fs, r)))"

text \<open>
  A framing writes a value as a delimited run of bytes: reading it back from the front of
  any stream returns the value and leaves the rest of the stream. \<open>ok\<close> says which values
  the writer can frame (their serialised form fits the length field and deserialises).
\<close>

locale framing =
  fixes put :: "'f \<Rightarrow> bytes"
    and get :: "bytes \<Rightarrow> ('f \<times> bytes) option"
    and ok :: "'f \<Rightarrow> bool"
  assumes get_put: "ok f \<Longrightarrow> get (put f @ rest) = Some (f, rest)"
    and put_nonempty: "ok f \<Longrightarrow> put f \<noteq> []"
begin

lemma put_prefix_free:
  assumes "ok f" "ok g" "put f @ r = put g @ r'"
  shows "f = g \<and> r = r'"
proof -
  have "Some (f, r) = Some (g, r')"
    unfolding get_put [OF assms(1), symmetric] get_put [OF assms(2), symmetric] assms(3) ..
  then show ?thesis by simp
qed

lemma get_many_concat:
  "\<forall>f \<in> set fs. ok f \<Longrightarrow> get_many get (length fs) (concat (map put fs) @ rest) = Some (fs, rest)"
  by (induction fs) (auto simp: get_put)

lemma concat_unambiguous:
  "\<forall>f \<in> set fs. ok f \<Longrightarrow> \<forall>g \<in> set gs. ok g \<Longrightarrow>
   concat (map put fs) = concat (map put gs) \<Longrightarrow> fs = gs"
proof (induction fs arbitrary: gs)
  case Nil
  then show ?case by (cases gs) (simp_all add: put_nonempty)
next
  case (Cons f fs)
  have "put f \<noteq> []" using Cons.prems(1) by (simp add: put_nonempty)
  with Cons.prems(3) have "gs \<noteq> []" by auto
  then obtain g gs' where gs: "gs = g # gs'"
    by (auto simp: neq_Nil_conv)
  with Cons.prems have eq: "f = g \<and> concat (map put fs) = concat (map put gs')"
    by (intro put_prefix_free) auto
  have "fs = gs'"
    by (rule Cons.IH) (use Cons.prems gs eq in simp_all)
  with eq gs show ?case by simp
qed

end

text \<open>
  A ranked view presents a list in ascending rank without losing or inventing an element.
\<close>

locale ranked_view =
  fixes view :: "'a list \<Rightarrow> 'a list"
    and rank :: "'a \<Rightarrow> nat"
  assumes set_view: "set (view xs) = set xs"
    and sorted_view: "sorted (map rank (view xs))"
begin

lemma view_empty_iff: "view xs = [] \<longleftrightarrow> xs = []"
  by (metis set_view set_empty)

lemma view_hd_least: "x \<in> set xs \<Longrightarrow> rank (hd (view xs)) \<le> rank x"
proof -
  assume "x \<in> set xs"
  then have "x \<in> set (view xs)" by (simp add: set_view)
  then obtain y ys where v: "view xs = y # ys" by (cases "view xs") auto
  with sorted_view [of xs] \<open>x \<in> set (view xs)\<close> show ?thesis by auto
qed

lemma hd_view_in: "xs \<noteq> [] \<Longrightarrow> hd (view xs) \<in> set xs"
  by (metis set_view hd_in_set view_empty_iff)

lemma view_ordered: "i \<le> j \<Longrightarrow> j < length (view xs) \<Longrightarrow> rank (view xs ! i) \<le> rank (view xs ! j)"
  using sorted_view [of xs] by (auto simp: sorted_iff_nth_mono)

end

text \<open>
  A view that also never lists the same element twice in a row.
\<close>

locale dedup_view = ranked_view +
  assumes view_distinct_adj: "distinct_adj (view xs)"
begin

lemma view_neighbours: "Suc i < length (view xs) \<Longrightarrow> view xs ! i \<noteq> view xs ! Suc i"
  using view_distinct_adj [of xs] by (simp add: distinct_adj_conv_nth)

end

text \<open>A step function that keeps an invariant keeps it over every run.\<close>

locale step_system =
  fixes step :: "'s \<Rightarrow> 'e \<Rightarrow> 's"
    and inv :: "'s \<Rightarrow> bool"
  assumes step_inv: "inv s \<Longrightarrow> inv (step s e)"
begin

lemma run_inv: "inv s \<Longrightarrow> inv (foldl step s es)"
  by (induction es arbitrary: s) (auto simp: step_inv)

end

definition sort_dedup :: "('a \<Rightarrow> nat) \<Rightarrow> 'a list \<Rightarrow> 'a list" where
  "sort_dedup key xs = remdups_adj (sort_key key xs)"

lemma set_sort_dedup [simp]: "set (sort_dedup key xs) = set xs"
  by (simp add: sort_dedup_def)

lemma sorted_sort_dedup: "sorted (map key (sort_dedup key xs))"
  by (simp add: sort_dedup_def sorted_remdups_adj_map)

lemma distinct_adj_sort_dedup: "distinct_adj (sort_dedup key xs)"
  by (simp add: sort_dedup_def)

end
