(* ===== verification/Net_Addr.thy ===== *)
theory Net_Addr
  imports Prelude
begin

text \<open>
  The part of Rust's \<open>std::net\<close> the program uses: \<open>IpAddr\<close> and \<open>SocketAddr\<close> as
  datatypes (an IPv4 address by its four octets, an IPv6 address by its 128 bits; the flow
  label of an IPv6 socket address is never set by this program and is left out), the address
  classes (\<open>is_loopback\<close>, \<open>is_private\<close>, ...), the recursive-descent parser behind
  \<open>str::parse\<close>, and \<open>Display\<close>. The lemmas show that printing an IPv4 socket address and
  parsing it back is the identity, and how the address classes exclude each other.
\<close>

datatype ip_addr = V4 u8 u8 u8 u8 | V6 u128

datatype socket_addr = Sock (sock_ip: ip_addr) (sock_port: u16) (sock_scope: u32)

definition sock_new :: "ip_addr \<Rightarrow> u16 \<Rightarrow> socket_addr" where
  "sock_new ip port = Sock ip port 0"

lemma sock_new_sel [simp]:
  "sock_ip (sock_new ip p) = ip" "sock_port (sock_new ip p) = p" "sock_scope (sock_new ip p) = 0"
  by (simp_all add: sock_new_def)

section \<open>Address classes\<close>

fun is_ipv4 :: "ip_addr \<Rightarrow> bool" where
  "is_ipv4 (V4 a b c d) = True"
| "is_ipv4 (V6 w) = False"

definition seg0 :: "u128 \<Rightarrow> u128" where
  "seg0 w = drop_bit 112 w"

fun is_unspecified :: "ip_addr \<Rightarrow> bool" where
  "is_unspecified (V4 a b c d) = (a = 0 \<and> b = 0 \<and> c = 0 \<and> d = 0)"
| "is_unspecified (V6 w) = (w = 0)"

fun is_loopback :: "ip_addr \<Rightarrow> bool" where
  "is_loopback (V4 a b c d) = (a = 127)"
| "is_loopback (V6 w) = (w = 1)"

fun is_private :: "ip_addr \<Rightarrow> bool" where
  "is_private (V4 a b c d) =
     (a = 10 \<or> a = 172 \<and> 16 \<le> b \<and> b \<le> 31 \<or> a = 192 \<and> b = 168)"
| "is_private (V6 w) = False"

fun is_unique_local :: "ip_addr \<Rightarrow> bool" where
  "is_unique_local (V4 a b c d) = False"
| "is_unique_local (V6 w) = (seg0 w AND 0xfe00 = 0xfc00)"

fun is_link_local :: "ip_addr \<Rightarrow> bool" where
  "is_link_local (V4 a b c d) = (a = 169 \<and> b = 254)"
| "is_link_local (V6 w) = False"

fun is_unicast_link_local :: "ip_addr \<Rightarrow> bool" where
  "is_unicast_link_local (V4 a b c d) = False"
| "is_unicast_link_local (V6 w) = (seg0 w AND 0xffc0 = 0xfe80)"

fun is_multicast :: "ip_addr \<Rightarrow> bool" where
  "is_multicast (V4 a b c d) = (224 \<le> a \<and> a \<le> 239)"
| "is_multicast (V6 w) = (seg0 w AND 0xff00 = 0xff00)"

fun is_broadcast :: "ip_addr \<Rightarrow> bool" where
  "is_broadcast (V4 a b c d) = (a = 255 \<and> b = 255 \<and> c = 255 \<and> d = 255)"
| "is_broadcast (V6 w) = False"

fun is_documentation :: "ip_addr \<Rightarrow> bool" where
  "is_documentation (V4 a b c d) =
     (a = 192 \<and> b = 0 \<and> c = 2 \<or> a = 198 \<and> b = 51 \<and> c = 100 \<or> a = 203 \<and> b = 0 \<and> c = 113)"
| "is_documentation (V6 w) = False"

text \<open>\<open>u32::from(Ipv4Addr)\<close> and the sixteen octets of an IPv6 address, big-endian.\<close>

definition v4_bits :: "u8 \<Rightarrow> u8 \<Rightarrow> u8 \<Rightarrow> u8 \<Rightarrow> u32" where
  "v4_bits a b c d = of_nat (of_be [a, b, c, d])"

definition v6_octets :: "u128 \<Rightarrow> bytes" where
  "v6_octets w = be_bytes 16 (unat w)"

lemma v6_octets_roundtrip [simp]: "of_nat (of_be (v6_octets w)) = w"
  using unsigned_less [of w, where ?'a = nat] by (simp add: v6_octets_def)

lemma private_not_loopback: "is_private ip \<Longrightarrow> \<not> is_loopback ip"
  by (cases ip) auto

lemma private_not_unspecified: "is_private ip \<Longrightarrow> \<not> is_unspecified ip"
  by (cases ip) auto

lemma unique_local_not_loopback: "is_unique_local ip \<Longrightarrow> \<not> is_loopback ip"
  by (cases ip) (auto simp: seg0_def)

section \<open>Parsing\<close>

fun digit_val :: "nat \<Rightarrow> char \<Rightarrow> nat option" where
  "digit_val radix c =
     (let v = (if is_digit c then Some (code c - 48)
               else if 97 \<le> code c \<and> code c \<le> 122 then Some (code c - 87)
               else if 65 \<le> code c \<and> code c \<le> 90 then Some (code c - 55) else None)
      in case v of None \<Rightarrow> None | Some d \<Rightarrow> if d < radix then Some d else None)"

declare digit_val.simps [simp del]

definition radix_val :: "nat \<Rightarrow> string \<Rightarrow> nat" where
  "radix_val radix s = foldl (\<lambda>a c. a * radix + the (digit_val radix c)) 0 s"

text \<open>
  \<open>Parser::read_number\<close>: the longest run of digits, at most \<open>max_digits\<close> of them, without
  a leading zero unless that is allowed, and with a value below \<open>limit\<close>.
\<close>

definition read_number ::
  "nat \<Rightarrow> nat option \<Rightarrow> bool \<Rightarrow> nat \<Rightarrow> string \<Rightarrow> (nat \<times> string) option" where
  "read_number radix max_digits allow_zero limit s =
     (let ds = takeWhile (\<lambda>c. digit_val radix c \<noteq> None) s;
          n = length ds; v = radix_val radix ds
      in if n = 0 then None
         else if (case max_digits of None \<Rightarrow> False | Some m \<Rightarrow> m < n) then None
         else if \<not> allow_zero \<and> hd ds = CHR ''0'' \<and> 1 < n then None
         else if limit \<le> v then None
         else Some (v, drop n s))"

fun read_given :: "char \<Rightarrow> string \<Rightarrow> string option" where
  "read_given c (x # xs) = (if x = c then Some xs else None)"
| "read_given c [] = None"

definition read_sep :: "char \<Rightarrow> nat \<Rightarrow> (string \<Rightarrow> ('a \<times> string) option) \<Rightarrow> string \<Rightarrow> ('a \<times> string) option" where
  "read_sep c i inner s =
     (if i = 0 then inner s
      else case read_given c s of None \<Rightarrow> None | Some s' \<Rightarrow> inner s')"

fun read_octets :: "nat \<Rightarrow> nat \<Rightarrow> string \<Rightarrow> (nat list \<times> string) option" where
  "read_octets i 0 s = Some ([], s)"
| "read_octets i (Suc k) s =
     (case read_sep (CHR ''.'') i (read_number 10 (Some 3) False 256) s of
        None \<Rightarrow> None
      | Some (n, s') \<Rightarrow>
          (case read_octets (Suc i) k s' of
             None \<Rightarrow> None | Some (ns, r) \<Rightarrow> Some (n # ns, r)))"

fun octets_v4 :: "nat list \<Rightarrow> ip_addr" where
  "octets_v4 [a, b, c, d] = V4 (of_nat a) (of_nat b) (of_nat c) (of_nat d)"
| "octets_v4 _ = V4 0 0 0 0"

fun read_groups :: "nat \<Rightarrow> nat \<Rightarrow> string \<Rightarrow> nat list \<times> bool \<times> string" where
  "read_groups i 0 s = ([], False, s)"
| "read_groups i (Suc k) s =
     (let group =
        (case read_sep (CHR '':'') i (read_number 16 (Some 4) True 65536) s of
           None \<Rightarrow> ([], False, s)
         | Some (g, s') \<Rightarrow>
             (case read_groups (Suc i) k s' of (gs, v4, r) \<Rightarrow> (g # gs, v4, r)))
      in if 1 \<le> k then
           (case read_sep (CHR '':'') i (read_octets 0 4) s of
              Some (os, s') \<Rightarrow>
                ([os ! 0 * 256 + os ! 1, os ! 2 * 256 + os ! 3], True, s')
            | None \<Rightarrow> group)
         else group)"

definition groups_v6 :: "nat list \<Rightarrow> ip_addr" where
  "groups_v6 gs = V6 (of_nat (foldl (\<lambda>a g. a * 65536 + g) 0 gs))"

definition read_v4 :: "string \<Rightarrow> (ip_addr \<times> string) option" where
  "read_v4 s = (case read_octets 0 4 s of None \<Rightarrow> None | Some (os, r) \<Rightarrow> Some (octets_v4 os, r))"

definition read_v6 :: "string \<Rightarrow> (ip_addr \<times> string) option" where
  "read_v6 s =
     (case read_groups 0 8 s of (front, v4, s1) \<Rightarrow>
        if length front = 8 then Some (groups_v6 front, s1)
        else if v4 then None
        else (case read_given (CHR '':'') s1 of
          None \<Rightarrow> None
        | Some s2 \<Rightarrow> (case read_given (CHR '':'') s2 of
            None \<Rightarrow> None
          | Some s3 \<Rightarrow>
              (case read_groups 0 (8 - (length front + 1)) s3 of (back, _, s4) \<Rightarrow>
                 Some (groups_v6 (front @ replicate (8 - length front - length back) 0 @ back), s4)))))"

definition read_port :: "string \<Rightarrow> (nat \<times> string) option" where
  "read_port s =
     (case read_given (CHR '':'') s of None \<Rightarrow> None
      | Some s' \<Rightarrow> read_number 10 None True 65536 s')"

definition read_scope :: "string \<Rightarrow> nat \<times> string" where
  "read_scope s =
     (case read_given (CHR ''%'') s of None \<Rightarrow> (0, s)
      | Some s' \<Rightarrow> (case read_number 10 None True (2 ^ 32) s' of None \<Rightarrow> (0, s) | Some r \<Rightarrow> r))"

definition read_sock_v4 :: "string \<Rightarrow> (socket_addr \<times> string) option" where
  "read_sock_v4 s =
     (case read_v4 s of None \<Rightarrow> None
      | Some (ip, s1) \<Rightarrow>
          (case read_port s1 of None \<Rightarrow> None | Some (p, s2) \<Rightarrow> Some (Sock ip (of_nat p) 0, s2)))"

definition read_sock_v6 :: "string \<Rightarrow> (socket_addr \<times> string) option" where
  "read_sock_v6 s =
     (case read_given (CHR ''['') s of None \<Rightarrow> None
      | Some s1 \<Rightarrow> (case read_v6 s1 of None \<Rightarrow> None
        | Some (ip, s2) \<Rightarrow> (case read_scope s2 of (scope, s3) \<Rightarrow>
            (case read_given (CHR '']'') s3 of None \<Rightarrow> None
             | Some s4 \<Rightarrow>
                 (case read_port s4 of None \<Rightarrow> None
                  | Some (p, s5) \<Rightarrow> Some (Sock ip (of_nat p) (of_nat scope), s5))))))"

definition or_else :: "'a option \<Rightarrow> 'a option \<Rightarrow> 'a option" where
  "or_else a b = (case a of Some x \<Rightarrow> Some x | None \<Rightarrow> b)"

definition at_eof :: "('a \<times> string) option \<Rightarrow> 'a option" where
  "at_eof r = (case r of Some (x, []) \<Rightarrow> Some x | _ \<Rightarrow> None)"

definition parse_ip :: "string \<Rightarrow> ip_addr option" where
  "parse_ip s = at_eof (or_else (read_v4 s) (read_v6 s))"

definition parse_sock :: "string \<Rightarrow> socket_addr option" where
  "parse_sock s = at_eof (or_else (read_sock_v4 s) (read_sock_v6 s))"

section \<open>Printing\<close>

fun v6_segments :: "u128 \<Rightarrow> nat list" where
  "v6_segments w = map (\<lambda>i. unat (drop_bit (112 - 16 * i) w AND 0xffff)) [0..<8]"

fun hex_num :: "nat \<Rightarrow> string" where
  "hex_num n = (if n < 16 then [hex_digit n] else hex_num (n div 16) @ [hex_digit (n mod 16)])"

declare hex_num.simps [simp del]

definition join_with :: "string \<Rightarrow> string list \<Rightarrow> string" where
  "join_with sep xs = (case xs of [] \<Rightarrow> [] | x # ys \<Rightarrow> x @ concat (map (\<lambda>y. sep @ y) ys))"

text \<open>The first longest run of zero segments, as (start, length).\<close>

fun zero_span :: "nat \<Rightarrow> nat list \<Rightarrow> nat \<times> nat \<Rightarrow> nat \<times> nat \<Rightarrow> nat \<times> nat" where
  "zero_span i [] current longest = longest"
| "zero_span i (s # ss) (cs, cl) longest =
     (if s = 0 then
        let current = (if cl = 0 then i else cs, Suc cl)
        in zero_span (Suc i) ss current (if snd longest < snd current then current else longest)
      else zero_span (Suc i) ss (0, 0) longest)"

fun ip_str :: "ip_addr \<Rightarrow> string" where
  "ip_str (V4 a b c d) =
     dec_str (unat a) @ ''.'' @ dec_str (unat b) @ ''.'' @ dec_str (unat c) @ ''.'' @ dec_str (unat d)"
| "ip_str (V6 w) =
     (let segs = v6_segments w in
      if take 5 segs = [0, 0, 0, 0, 0] \<and> segs ! 5 = 65535 then
        ''::ffff:'' @ join_with ''.'' (map (\<lambda>i. dec_str (unat (v6_octets w ! i))) [12, 13, 14, 15])
      else
        case zero_span 0 segs (0, 0) (0, 0) of (start, len) \<Rightarrow>
          if 1 < len then
            join_with '':'' (map hex_num (take start segs)) @ ''::'' @
            join_with '':'' (map hex_num (drop (start + len) segs))
          else join_with '':'' (map hex_num segs))"

fun sock_str :: "socket_addr \<Rightarrow> string" where
  "sock_str (Sock (V4 a b c d) port scope) = ip_str (V4 a b c d) @ '':'' @ dec_str (unat port)"
| "sock_str (Sock (V6 w) port scope) =
     ''['' @ ip_str (V6 w) @ (if scope = 0 then [] else ''%'' @ dec_str (unat scope)) @ '']:'' @
     dec_str (unat port)"

section \<open>Reading back what was printed\<close>

lemma digit_val_digit: "is_digit c \<Longrightarrow> digit_val 10 c = Some (code c - 48)"
  by (auto simp: digit_val.simps is_digit_def)

lemma digit_val_not_digit: "\<not> is_digit c \<Longrightarrow> digit_val 10 c = None"
  by (auto simp: digit_val.simps is_digit_def Let_def)

lemma takeWhile_digits:
  "\<forall>c \<in> set ds. is_digit c \<Longrightarrow> (case r of [] \<Rightarrow> True | c # _ \<Rightarrow> \<not> is_digit c) \<Longrightarrow>
   takeWhile (\<lambda>c. digit_val 10 c \<noteq> None) (ds @ r) = ds"
  by (induction ds)
    (auto simp: digit_val_digit digit_val_not_digit split: list.splits)

lemma radix_val_digits: "\<forall>c \<in> set ds. is_digit c \<Longrightarrow> radix_val 10 ds = dec_val ds"
  unfolding radix_val_def dec_val_def
  by (rule foldl_cong) (auto simp: digit_val_digit)

lemma hd_dec_str_zero: "hd (dec_str n) = CHR ''0'' \<Longrightarrow> n = 0"
proof (induction n rule: dec_str.induct)
  case (1 n)
  have zero: "digit_char d = CHR ''0'' \<Longrightarrow> d < 10 \<Longrightarrow> d = 0" for d
    using code_digit_char [of d] by (simp add: code_def)
  show ?case
  proof (cases "n < 10")
    case True
    with "1.prems" show ?thesis
      by (subst (asm) dec_str.simps) (auto dest: zero)
  next
    case False
    with "1.prems" have "hd (dec_str (n div 10)) = CHR ''0''"
      by (subst (asm) dec_str.simps) simp
    with "1.IH" False show ?thesis by auto
  qed
qed

lemma read_number_dec_str:
  assumes "n < limit" "case r of [] \<Rightarrow> True | c # _ \<Rightarrow> \<not> is_digit c"
    "case m of None \<Rightarrow> True | Some k \<Rightarrow> length (dec_str n) \<le> k"
  shows "read_number 10 m az limit (dec_str n @ r) = Some (n, r)"
proof -
  have tw: "takeWhile (\<lambda>c. digit_val 10 c \<noteq> None) (dec_str n @ r) = dec_str n"
    by (rule takeWhile_digits) (use assms dec_str_digits in auto)
  have "radix_val 10 (dec_str n) = n"
    by (simp add: radix_val_digits dec_str_digits)
  moreover have "length (dec_str 0) = 1" by (subst dec_str.simps) simp
  then have "\<not> (hd (dec_str n) = CHR ''0'' \<and> 1 < length (dec_str n))"
    by (auto dest: hd_dec_str_zero)
  ultimately show ?thesis
    unfolding read_number_def tw Let_def
    using assms by (auto split: option.splits)
qed

lemma length_dec_str_le3: "n < 1000 \<Longrightarrow> length (dec_str n) \<le> 3"
  by (subst dec_str.simps, simp, subst dec_str.simps, simp, subst dec_str.simps, simp)

lemma read_octet:
  "n < 256 \<Longrightarrow> (case r of [] \<Rightarrow> True | c # _ \<Rightarrow> \<not> is_digit c) \<Longrightarrow>
   read_number 10 (Some 3) False 256 (dec_str n @ r) = Some (n, r)"
  by (rule read_number_dec_str) (auto intro: length_dec_str_le3)

lemma parse_sock_v4_roundtrip_aux:
  "parse_sock (sock_str (Sock (V4 a b c d) port 0)) = Some (Sock (V4 a b c d) port 0)"
proof -
  have nd: "\<not> is_digit (CHR ''.'')" "\<not> is_digit (CHR '':'')"
    by (simp_all add: is_digit_def code_def)
  have dec4: "read_octets 0 4
      (dec_str (unat a) @ CHR ''.'' # dec_str (unat b) @ CHR ''.'' # dec_str (unat c) @
       CHR ''.'' # dec_str (unat d) @ CHR '':'' # r) =
     Some ([unat a, unat b, unat c, unat d], CHR '':'' # r)" for r
  proof -
    have four: "(4 :: nat) = Suc (Suc (Suc (Suc 0)))" by simp
    show ?thesis unfolding four by (simp add: read_sep_def read_octet nd)
  qed
  have "unat port < 65536"
    using unsigned_less [of port, where ?'a = nat] by simp
  then have port: "read_number 10 None True 65536 (dec_str (unat port)) = Some (unat port, [])"
    using read_number_dec_str [of "unat port" 65536 "[]" None True] by simp
  show ?thesis
    by (simp add: parse_sock_def read_sock_v4_def read_v4_def dec4 read_port_def port or_else_def
        at_eof_def)
qed

end
