(* ===== verification/Identity.thy ===== *)
theory Identity
  imports Net_Addr
begin

text \<open>
  \<open>peerline-core/src/identity.rs\<close>: names, codes and the lookup key derived from them, the
  direct port window, and the parsing of a direct endpoint. Random draws (the \<open>rand\<close>
  crate) are arguments: the index of the chosen word and the number drawn from the range.
  BLAKE3 and Argon2 are parameters. The entropy estimate computes over the reals where the
  code uses \<open>f64\<close>.
\<close>

definition default_direct_port :: u16 where
  "default_direct_port = 43117"

definition default_direct_port_window :: u16 where
  "default_direct_port_window = 5"

definition words :: "string list" where
  "words =
   [''amber'', ''anchor'', ''apple'', ''april'', ''ash'', ''atlas'', ''aurora'', ''autumn'',
    ''basil'', ''beacon'', ''berry'', ''birch'', ''bloom'', ''brave'', ''brook'', ''cable'',
    ''cactus'', ''canvas'', ''cedar'', ''charm'', ''cherry'', ''cinder'', ''civic'', ''cloud'',
    ''clover'', ''cobalt'', ''comet'', ''copper'', ''coral'', ''cosmic'', ''crane'', ''crisp'',
    ''delta'', ''dawn'', ''denim'', ''dove'', ''dream'', ''ember'', ''falcon'', ''fern'',
    ''field'', ''fig'', ''flame'', ''forest'', ''frost'', ''garden'', ''ginger'', ''glade'',
    ''glass'', ''gold'', ''grape'', ''harbor'', ''hazel'', ''honey'', ''iris'', ''ivory'',
    ''jade'', ''jasmine'', ''jolly'', ''juniper'', ''kiwi'', ''lagoon'', ''lantern'', ''leaf'',
    ''lemon'', ''lilac'', ''linen'', ''lotus'', ''lunar'', ''maple'', ''marble'', ''meadow'',
    ''mint'', ''moss'', ''nectar'', ''nova'', ''olive'', ''onyx'', ''opal'', ''orbit'',
    ''orchid'', ''peach'', ''pearl'', ''pepper'', ''pine'', ''plum'', ''polar'', ''poppy'',
    ''prairie'', ''quartz'', ''quiet'', ''rain'', ''raven'', ''river'', ''robin'', ''rose'',
    ''ruby'', ''saffron'', ''sage'', ''satin'', ''shell'', ''silver'', ''sky'', ''snow'',
    ''solar'', ''spruce'', ''stone'', ''summer'', ''sunny'', ''swift'', ''teal'', ''thistle'',
    ''tiger'', ''topaz'', ''tulip'', ''umber'', ''velvet'', ''violet'', ''walnut'', ''willow'',
    ''winter'', ''wool'', ''yellow'', ''zebra'', ''zenith'']"

datatype identity_error = Id_Empty | Id_TooLong | Id_InvalidCharacter | Id_BadHyphen

datatype human_name = HumanName (name_str: string)
datatype human_code = HumanCode (code_str: string)

record name_code =
  nc_name :: human_name
  nc_code :: human_code

datatype lookup_key = LookupKey (key_bytes: bytes)

definition token_char :: "char \<Rightarrow> bool" where
  "token_char c \<longleftrightarrow> is_lower c \<or> is_digit c \<or> c = CHR ''-''"

definition normalize_token :: "string \<Rightarrow> nat \<Rightarrow> identity_error + string" where
  "normalize_token value max_len =
     (let trimmed = to_lower (trim value) in
      if trimmed = [] then Inl Id_Empty
      else if max_len < length trimmed then Inl Id_TooLong
      else if starts_with ''-'' trimmed \<or> ends_with ''-'' trimmed \<or> contains_sub ''--'' trimmed
        then Inl Id_BadHyphen
      else if \<not> list_all token_char trimmed then Inl Id_InvalidCharacter
      else Inr trimmed)"

definition human_name_parse :: "string \<Rightarrow> identity_error + human_name" where
  "human_name_parse value = and_then (normalize_token value 64) (\<lambda>s. Inr (HumanName s))"

definition human_code_parse :: "string \<Rightarrow> identity_error + human_code" where
  "human_code_parse value = and_then (normalize_token value 96) (\<lambda>s. Inr (HumanCode s))"

definition random_word :: "nat \<Rightarrow> string" where
  "random_word i = words ! i"

definition human_name_generate :: "nat \<Rightarrow> nat \<Rightarrow> human_name" where
  "human_name_generate i number = HumanName (random_word i @ ''-'' @ dec_str number)"

definition human_code_generate :: "nat \<Rightarrow> nat \<Rightarrow> nat \<Rightarrow> nat \<Rightarrow> human_code" where
  "human_code_generate i j k number =
     HumanCode (random_word i @ ''-'' @ random_word j @ ''-'' @ random_word k @ ''-'' @
       dec_str number)"

definition code_entropy_bits :: "string \<Rightarrow> real" where
  "code_entropy_bits value =
     (let parts = filter (\<lambda>p. p \<noteq> []) (split_on (\<lambda>c. c = CHR ''-'') value);
          word_bits = real (length (filter (list_all is_lower) parts)) * log 2 (real (length words));
          digit_bits = sum_list (map (\<lambda>p. log 2 (10 ^ length p)) (filter (list_all is_digit) parts))
      in word_bits + digit_bits)"

definition is_low_entropy :: "human_code \<Rightarrow> bool" where
  "is_low_entropy c \<longleftrightarrow> code_entropy_bits (code_str c) < 40"

definition derive_lookup_key ::
  "(bytes \<Rightarrow> bytes) \<Rightarrow> (bytes \<Rightarrow> bytes \<Rightarrow> bytes) \<Rightarrow> human_name \<Rightarrow> human_code \<Rightarrow> lookup_key" where
  "derive_lookup_key blake3 argon name hcode =
     (let salt = take 16 (blake3 (str_bytes ''peerline:dht:salt:v1'' @ str_bytes (name_str name)));
          stretched = argon (str_bytes (code_str hcode)) salt
      in LookupKey (blake3 (str_bytes ''peerline:dht:v1'' @ str_bytes (name_str name) @ stretched)))"

definition nc_lookup_key ::
  "(bytes \<Rightarrow> bytes) \<Rightarrow> (bytes \<Rightarrow> bytes \<Rightarrow> bytes) \<Rightarrow> name_code \<Rightarrow> lookup_key" where
  "nc_lookup_key blake3 argon nc = derive_lookup_key blake3 argon (nc_name nc) (nc_code nc)"

definition lookup_key_hex :: "lookup_key \<Rightarrow> string" where
  "lookup_key_hex k = hex_str (key_bytes k)"

definition parse_ip_endpoint :: "string \<Rightarrow> socket_addr option" where
  "parse_ip_endpoint value =
     (case parse_sock value of
        Some addr \<Rightarrow> Some addr
      | None \<Rightarrow>
          (case parse_ip value of
             Some ip \<Rightarrow> Some (sock_new ip default_direct_port)
           | None \<Rightarrow> None))"

definition direct_port_candidates :: "u16 \<Rightarrow> u16 \<Rightarrow> u16 list" where
  "direct_port_candidates start window =
     List.map_filter (\<lambda>offset. checked_add start (of_nat offset)) [0..<unat window]"

section \<open>Tokens\<close>

definition token_ok :: "nat \<Rightarrow> string \<Rightarrow> bool" where
  "token_ok max_len s \<longleftrightarrow> s \<noteq> [] \<and> length s \<le> max_len \<and> list_all token_char s \<and>
     \<not> starts_with ''-'' s \<and> \<not> ends_with ''-'' s \<and> \<not> contains_sub ''--'' s"

lemma token_char_graphic: "token_char c \<Longrightarrow> is_graphic c"
  by (auto simp: token_char_def is_graphic_def is_lower_def is_digit_def code_def)

lemma token_char_not_upper: "token_char c \<Longrightarrow> \<not> is_upper c"
  by (auto simp: token_char_def is_upper_def is_lower_def is_digit_def code_def)

lemma normalize_token_Inr: "normalize_token v m = Inr s \<longleftrightarrow> to_lower (trim v) = s \<and> token_ok m s"
  by (auto simp: normalize_token_def token_ok_def Let_def)

lemma normalize_token_fixpoint: "token_ok m s \<Longrightarrow> normalize_token s m = Inr s"
proof -
  assume ok: "token_ok m s"
  then have "\<forall>c \<in> set s. token_char c" by (simp add: token_ok_def list_all_iff)
  then have "trim s = s" "to_lower s = s"
    by (auto intro!: trim_graphic to_lower_id token_char_graphic dest: token_char_not_upper)
  with ok show ?thesis by (simp add: normalize_token_Inr)
qed

text \<open>
  A name is accepted exactly when, trimmed and lower-cased, it is a non-empty token of at
  most 64 characters over lower-case letters, digits and single inner hyphens; the accepted
  name is that token, and parsing an accepted name again returns it unchanged.
\<close>

theorem human_name_parse_spec:
  "(human_name_parse v = Inr n \<longleftrightarrow> name_str n = to_lower (trim v) \<and> token_ok 64 (name_str n)) \<and>
   (human_name_parse v = Inr n \<longrightarrow> human_name_parse (name_str n) = Inr n)"
  using normalize_token_fixpoint [of 64 "name_str n"]
  by (cases n) (auto simp: human_name_parse_def result_simps normalize_token_Inr)

lemma human_name_parse_spec_witness:
  "human_name_parse ''river-mango-42'' = Inr (HumanName ''river-mango-42'')"
proof -
  have "human_name_parse (name_str (HumanName ''river-mango-42'')) = Inr (HumanName ''river-mango-42'')"
    if "human_name_parse '' River-Mango-42 '' = Inr (HumanName ''river-mango-42'')"
    using human_name_parse_spec [of "'' River-Mango-42 ''" "HumanName ''river-mango-42''"] that by blast
  moreover have "human_name_parse '' River-Mango-42 '' = Inr (HumanName ''river-mango-42'')"
    by code_simp
  ultimately show ?thesis by simp
qed

section \<open>Generated identities\<close>

lemma words_wellformed: "\<forall>w \<in> set words. w \<noteq> [] \<and> length w \<le> 8 \<and> list_all is_lower w"
  by (simp add: words_def is_lower_def code_def)

lemma length_words: "length words = 125"
  by (simp add: words_def)

lemma random_word_ok:
  "i < 125 \<Longrightarrow> random_word i \<noteq> [] \<and> length (random_word i) \<le> 8 \<and> list_all is_lower (random_word i)"
  using words_wellformed by (simp add: random_word_def length_words)

lemma random_word_no_hyphen: "i < 125 \<Longrightarrow> c \<in> set (random_word i) \<Longrightarrow> c \<noteq> CHR ''-''"
  using random_word_ok [of i] by (auto simp: list_all_iff is_lower_def code_def)

lemma dec_str_no_hyphen: "c \<in> set (dec_str n) \<Longrightarrow> c \<noteq> CHR ''-''"
  using dec_str_digits [of n] by (auto simp: is_digit_def code_def)

text \<open>A token is a list of non-empty hyphen-free parts joined by single hyphens.\<close>

definition part_ok :: "string \<Rightarrow> bool" where
  "part_ok p \<longleftrightarrow> p \<noteq> [] \<and> (\<forall>c \<in> set p. is_lower c \<or> is_digit c)"

lemma part_ok_word: "i < 125 \<Longrightarrow> part_ok (random_word i)"
  using random_word_ok [of i] by (simp add: part_ok_def list_all_iff)

lemma part_ok_dec: "part_ok (dec_str n)"
  using dec_str_digits [of n] by (simp add: part_ok_def)

lemma part_char: "is_lower c \<or> is_digit c \<Longrightarrow> c \<noteq> CHR ''-'' \<and> token_char c"
  by (auto simp: token_char_def is_lower_def is_digit_def code_def)

fun token_tail :: "string \<Rightarrow> bool" where
  "token_tail [] = True"
| "token_tail (c # s) =
     (if c = CHR ''-'' then (case s of [] \<Rightarrow> False | d # _ \<Rightarrow> d \<noteq> CHR ''-'') \<and> token_tail s
      else token_tail s)"

lemma token_tail_part: "part_ok p \<Longrightarrow> token_tail (p @ s) = token_tail s"
proof -
  assume "part_ok p"
  then have "\<forall>c \<in> set p. c \<noteq> CHR ''-''" by (auto simp: part_ok_def part_char)
  then show ?thesis by (induction p) auto
qed

lemma token_tail_hyphens:
  "token_tail s \<Longrightarrow> \<not> ends_with ''-'' s \<and> \<not> contains_sub ''--'' s"
proof (induction s)
  case Nil
  then show ?case by (simp add: ends_with_def)
next
  case (Cons c s)
  then have tail: "token_tail s" by (auto split: if_splits)
  from Cons.prems have sep: "c = CHR ''-'' \<Longrightarrow> s \<noteq> [] \<and> hd s \<noteq> CHR ''-''"
    by (auto split: list.splits)
  have "ends_with ''-'' (c # s) \<Longrightarrow> c = CHR ''-'' \<and> s = [] \<or> ends_with ''-'' s"
    by (cases s) (auto simp: ends_with_def Suc_diff_le)
  moreover have "starts_with ''--'' (c # s) \<Longrightarrow> c = CHR ''-'' \<and> s \<noteq> [] \<and> hd s = CHR ''-''"
    by (cases s) (auto simp: starts_with_def)
  ultimately show ?case
    using Cons.IH [OF tail] sep by auto
qed

lemma token_ok_parts:
  assumes "part_ok p" "token_tail s" "list_all token_char s" "length (p @ s) \<le> m"
  shows "token_ok m (p @ s)"
proof -
  have "\<forall>c \<in> set p. c \<noteq> CHR ''-'' \<and> token_char c" "p \<noteq> []"
    using assms(1) by (auto simp: part_ok_def part_char)
  moreover from this have "\<not> starts_with ''-'' (p @ s)"
    by (cases p) (auto simp: starts_with_def)
  moreover have "token_tail (p @ s)"
    using assms(1,2) by (simp add: token_tail_part)
  ultimately show ?thesis
    using assms(3,4) token_tail_hyphens [of "p @ s"]
    by (auto simp: token_ok_def list_all_iff)
qed

lemma token_tail_sep: "part_ok p \<Longrightarrow> token_tail (CHR ''-'' # p @ s) = token_tail s"
proof -
  assume ok: "part_ok p"
  then obtain c cs where p: "p = c # cs" "c \<noteq> CHR ''-''"
    using part_char by (cases p) (auto simp: part_ok_def)
  show ?thesis using token_tail_part [OF ok, of s] by (simp add: p)
qed

lemma token_tail_last: "part_ok p \<Longrightarrow> token_tail (CHR ''-'' # p)"
  using token_tail_sep [of p "[]"] by simp

declare token_tail.simps(2) [simp del]

lemma part_ok_no_hyphen: "part_ok p \<Longrightarrow> c \<in> set p \<Longrightarrow> c \<noteq> CHR ''-''"
  using part_char [of c] by (auto simp: part_ok_def)

lemma list_all_part: "part_ok p \<Longrightarrow> list_all token_char p"
  by (auto simp: part_ok_def list_all_iff part_char)

lemma length_dec_str: "10 ^ k \<le> n \<Longrightarrow> n < 10 ^ Suc k \<Longrightarrow> length (dec_str n) = Suc k"
proof (induction k arbitrary: n)
  case 0
  then show ?case by (subst dec_str.simps) simp
next
  case (Suc k)
  have "1 \<le> (10 :: nat) ^ k" by (rule one_le_power) simp
  moreover have "10 * 10 ^ k \<le> n" using Suc.prems(1) by simp
  ultimately have "10 \<le> n" by linarith
  moreover have "length (dec_str (n div 10)) = Suc k"
    by (rule Suc.IH) (use Suc.prems in \<open>simp_all add: less_mult_imp_div_less
        less_eq_div_iff_mult_less_eq mult.commute\<close>)
  ultimately show ?case by (subst dec_str.simps) simp
qed

lemma generated_name_token:
  assumes "i < 125" "100 \<le> number" "number \<le> 999"
  shows "token_ok 64 (random_word i @ ''-'' @ dec_str number)"
proof (rule token_ok_parts)
  have len: "length (dec_str number) = 3"
    using length_dec_str [of 2 number] assms by simp
  show "part_ok (random_word i)" by (rule part_ok_word [OF assms(1)])
  show "token_tail (''-'' @ dec_str number)"
    by (simp add: token_tail_last part_ok_dec)
  show "list_all token_char (''-'' @ dec_str number)"
    by (simp add: list_all_part [OF part_ok_dec] token_char_def)
  show "length (random_word i @ ''-'' @ dec_str number) \<le> 64"
    using random_word_ok [OF assms(1)] by (simp add: len)
qed

lemma generated_code_token:
  assumes "i < 125" "j < 125" "k < 125" "100000 \<le> number" "number \<le> 999999"
  shows "token_ok 96 (random_word i @ ''-'' @ random_word j @ ''-'' @ random_word k @ ''-'' @
    dec_str number)"
proof (rule token_ok_parts)
  have len: "length (dec_str number) = 6"
    using length_dec_str [of 5 number] assms by simp
  show "part_ok (random_word i)" by (rule part_ok_word [OF assms(1)])
  show "token_tail (''-'' @ random_word j @ ''-'' @ random_word k @ ''-'' @ dec_str number)"
    by (simp add: token_tail_sep token_tail_last part_ok_dec part_ok_word assms)
  show "list_all token_char (''-'' @ random_word j @ ''-'' @ random_word k @ ''-'' @ dec_str number)"
    by (simp add: list_all_part part_ok_dec part_ok_word assms token_char_def)
  show "length (random_word i @ ''-'' @ random_word j @ ''-'' @ random_word k @ ''-'' @
      dec_str number) \<le> 96"
    using random_word_ok [OF assms(1)] random_word_ok [OF assms(2)] random_word_ok [OF assms(3)]
    by (simp add: len)
qed

lemma split_on_hyphen_part:
  "part_ok p \<Longrightarrow>
   split_on (\<lambda>c. c = CHR ''-'') (p @ CHR ''-'' # s) = p # split_on (\<lambda>c. c = CHR ''-'') s"
  by (rule split_on_append_sep) (auto dest: part_ok_no_hyphen)

lemma split_on_hyphen_last: "part_ok p \<Longrightarrow> split_on (\<lambda>c. c = CHR ''-'') p = [p]"
  by (rule split_on_none) (auto dest: part_ok_no_hyphen)

lemma word_not_digits: "i < 125 \<Longrightarrow> \<not> list_all is_digit (random_word i)"
  using random_word_ok [of i]
  by (cases "random_word i") (auto simp: is_lower_def is_digit_def)

lemma digits_not_word: "\<not> list_all is_lower (dec_str n)"
  using dec_str_digits [of n] by (cases "dec_str n") (auto simp: is_lower_def is_digit_def)

lemma code_entropy_generated:
  assumes "i < 125" "j < 125" "k < 125" "100000 \<le> number" "number \<le> 999999"
  shows "code_entropy_bits (code_str (human_code_generate i j k number)) =
    3 * log 2 125 + log 2 (10 ^ 6)"
proof -
  have len: "length (dec_str number) = 6"
    using length_dec_str [of 5 number] assms by simp
  have all: "list_all is_digit (dec_str number)"
    using dec_str_digits by (simp add: list_all_iff)
  show ?thesis
    using assms random_word_ok [of i] random_word_ok [of j] random_word_ok [of k]
    by (simp add: code_entropy_bits_def human_code_generate_def split_on_hyphen_part
        split_on_hyphen_last part_ok_word part_ok_dec word_not_digits digits_not_word all len
        length_words)
qed

lemma code_entropy_bound: "(40 :: real) \<le> 3 * log 2 125 + log 2 (10 ^ 6)"
proof -
  have "40 = log 2 (2 ^ 40 :: real)"
    by (subst log_pow_cancel) simp_all
  also have "\<dots> \<le> log 2 (125 ^ 3 * 10 ^ 6 :: real)"
    by (rule log_mono) simp_all
  also have "\<dots> = 3 * log 2 125 + log 2 (10 ^ 6)"
    by (simp add: log_mult log_nat_power del: power_numeral)
  finally show ?thesis .
qed

text \<open>
  A freshly generated name and code are already in normal form: parsing either returns
  exactly the generated value, so the identity a receiver prints is the identity a sender
  types; and a generated code never counts as low-entropy (125 words, three of them, and six
  digits are at least 40 bits).
\<close>

theorem generated_identity_parses:
  assumes "i < 125" "j < 125" "k < 125" "l < 125"
    and "100 \<le> m" "m \<le> 999" "100000 \<le> n" "n \<le> 999999"
  shows "human_name_parse (name_str (human_name_generate i m)) = Inr (human_name_generate i m) \<and>
    human_code_parse (code_str (human_code_generate j k l n)) = Inr (human_code_generate j k l n) \<and>
    \<not> is_low_entropy (human_code_generate j k l n)"
  using generated_name_token [of i m] generated_code_token [of j k l n]
    code_entropy_generated [of j k l n] code_entropy_bound assms
  by (simp add: human_name_parse_def human_code_parse_def human_name_generate_def
      human_code_generate_def normalize_token_fixpoint is_low_entropy_def)

lemma generated_identity_parses_witness:
  "human_name_parse (name_str (human_name_generate 0 100)) = Inr (human_name_generate 0 100) \<and>
   human_code_parse (code_str (human_code_generate 1 2 3 123456)) =
     Inr (human_code_generate 1 2 3 123456) \<and>
   \<not> is_low_entropy (human_code_generate 1 2 3 123456)"
  by (rule generated_identity_parses) simp_all

section \<open>Lookup keys and direct endpoints\<close>

lemma lookup_key_hex_chars: "\<forall>c \<in> set (lookup_key_hex k). is_hex_lower c"
  by (simp add: lookup_key_hex_def hex_str_chars)

lemma length_lookup_key_hex [simp]: "length (lookup_key_hex k) = 2 * length (key_bytes k)"
  by (simp add: lookup_key_hex_def)

lemma direct_port_candidates_upto:
  "map unat (List.map_filter (\<lambda>offset. checked_add start (of_nat offset)) [0..<w]) =
   [unat start..<min (unat start + w) 65536]" if "w < 65536" for start :: u16
  using that
proof (induction w)
  case 0
  then show ?case
    using unsigned_less [of start, where ?'a = nat] by (simp add: List.map_filter_def)
next
  case (Suc w)
  have w: "unat (of_nat w :: u16) = w"
    using Suc.prems by (simp add: unat_of_nat)
  show ?case
  proof (cases "unat start + w < 65536")
    case True
    then have "unat (start + of_nat w) = unat start + w"
      by (simp add: unat_word_ariths w)
    with Suc True show ?thesis
      by (simp add: List.map_filter_def checked_add_def w)
  next
    case False
    with Suc show ?thesis
      by (simp add: List.map_filter_def checked_add_def w min_def)
  qed
qed

text \<open>
  The direct port candidates are the consecutive ports from the start port, in order,
  cut off at the end of the port space: no candidate wraps around to a low port.
\<close>

theorem direct_port_candidates_exact:
  "map unat (direct_port_candidates start window) =
   [unat start..<min (unat start + unat window) 65536]"
  using direct_port_candidates_upto [of "unat window" start]
    unsigned_less [of window, where ?'a = nat]
  by (simp add: direct_port_candidates_def)

end
