(* ===== verification/Fs.thy ===== *)
theory Fs
  imports Prelude "HOL-Library.List_Lexorder" "HOL-Library.Char_ord"
begin

text \<open>
  The parts of \<open>std::path\<close> and \<open>std::fs\<close> the program relies on, for Unix. A path string
  is a byte string; \<open>components\<close> is \<open>Path::components\<close>, by which Rust compares and orders
  paths, and \<open>path_join\<close> is \<open>Path::join\<close>. A file system is a finite list of entries
  keyed by component lists, each a directory or a file with its bytes. There are no symbolic
  links, the paths the program is given are the only names of their files, and an operation
  fails exactly for the reasons the state shows (a missing parent, a directory in the way); a
  device error is not modelled.
\<close>

section \<open>Paths\<close>

datatype component = RootDir | CurDir | ParentDir | Normal string

type_synonym path = "component list"

fun component_rank :: "component \<Rightarrow> nat" where
  "component_rank RootDir = 1"
| "component_rank CurDir = 2"
| "component_rank ParentDir = 3"
| "component_rank (Normal s) = 4"

fun component_name :: "component \<Rightarrow> string" where
  "component_name (Normal s) = s"
| "component_name _ = []"

lemma component_eqI:
  "component_rank a = component_rank b \<Longrightarrow> component_name a = component_name b \<Longrightarrow> a = b"
  by (cases a; cases b) auto

instantiation component :: linorder
begin

definition less_eq_component :: "component \<Rightarrow> component \<Rightarrow> bool" where
  "less_eq_component a b \<longleftrightarrow> component_rank a < component_rank b \<or>
     component_rank a = component_rank b \<and> component_name a \<le> component_name b"

definition less_component :: "component \<Rightarrow> component \<Rightarrow> bool" where
  "less_component a b \<longleftrightarrow> a \<le> b \<and> \<not> b \<le> (a :: component)"

instance
  by standard
    (auto simp: less_component_def less_eq_component_def intro: component_eqI)

end

fun seg_component :: "string \<Rightarrow> component option" where
  "seg_component s =
     (if s = [] \<or> s = ''.'' then None else if s = ''..'' then Some ParentDir else Some (Normal s))"

declare seg_component.simps [simp del]

definition is_sep :: "char \<Rightarrow> bool" where
  "is_sep c \<longleftrightarrow> c = CHR ''/''"

definition is_absolute :: "string \<Rightarrow> bool" where
  "is_absolute s \<longleftrightarrow> starts_with ''/'' s"

definition components :: "string \<Rightarrow> path" where
  "components s =
     (if is_absolute s then [RootDir] else if hd (split_on is_sep s) = ''.'' then [CurDir] else []) @
     List.map_filter seg_component (split_on is_sep s)"

definition path_join :: "string \<Rightarrow> string \<Rightarrow> string" where
  "path_join base rel =
     (if is_absolute rel then rel
      else if base = [] \<or> ends_with ''/'' base then base @ rel
      else base @ ''/'' @ rel)"

text \<open>\<open>Path::parent\<close>, \<open>file_name\<close>, \<open>file_stem\<close> and \<open>extension\<close>, on components.\<close>

definition path_parent :: "path \<Rightarrow> path option" where
  "path_parent p = (if p = [] \<or> last p = RootDir then None else Some (butlast p))"

definition file_name :: "path \<Rightarrow> string option" where
  "file_name p = (if p = [] then None else case last p of Normal s \<Rightarrow> Some s | _ \<Rightarrow> None)"

definition rsplit_dot :: "string \<Rightarrow> string \<times> string option" where
  "rsplit_dot s =
     (let ext = takeWhile (\<lambda>c. c \<noteq> CHR ''.'') (rev s);
          before = drop (Suc (length ext)) (rev s)
      in if CHR ''.'' \<notin> set s \<or> before = [] then (s, None) else (rev before, Some (rev ext)))"

definition file_stem :: "path \<Rightarrow> string option" where
  "file_stem p = map_option (\<lambda>s. fst (rsplit_dot s)) (file_name p)"

definition path_extension :: "path \<Rightarrow> string option" where
  "path_extension p = Option.bind (file_name p) (\<lambda>s. snd (rsplit_dot s))"

definition with_extension :: "path \<Rightarrow> string \<Rightarrow> path" where
  "with_extension p ext =
     (case file_stem p of None \<Rightarrow> p
      | Some stem \<Rightarrow> butlast p @ [Normal (if ext = [] then stem else stem @ ''.'' @ ext)])"

definition to_str :: "string \<Rightarrow> string option" where
  "to_str s = (if utf8_valid (map code s) then Some s else None)"

lemma split_on_append: "p y \<Longrightarrow> split_on p (xs @ y # ys) = split_on p xs @ split_on p ys"
  by (induction xs) auto

lemma hd_split_on_append: "hd (split_on p (xs @ y # ys)) = hd (split_on p xs)" if "p y"
  using that by (simp add: split_on_append)

lemma map_filter_append [simp]:
  "List.map_filter f (xs @ ys) = List.map_filter f xs @ List.map_filter f ys"
  by (simp add: List.map_filter_def)

lemma map_filter_simps [simp]:
  "List.map_filter f [] = []"
  "List.map_filter f (x # xs) =
     (case f x of None \<Rightarrow> List.map_filter f xs | Some y \<Rightarrow> y # List.map_filter f xs)"
  by (simp_all add: List.map_filter_def split: option.splits)

lemma components_no_normal_empty: "Normal s \<in> set (components p) \<Longrightarrow> s \<noteq> [] \<and> s \<noteq> ''..''"
  by (auto simp: components_def List.map_filter_def seg_component.simps split: if_splits)

section \<open>The file system\<close>

datatype node = FileN bytes | DirN

type_synonym fs = "(path \<times> node) list"

datatype io_error = NotFound | AlreadyExists | NotADirectory | IsADirectory | DirectoryNotEmpty |
  InvalidData | UnexpectedEof

definition fs_put :: "path \<Rightarrow> node \<Rightarrow> fs \<Rightarrow> fs" where
  "fs_put p n fs = (p, n) # filter (\<lambda>e. fst e \<noteq> p) fs"

definition fs_del :: "path \<Rightarrow> fs \<Rightarrow> fs" where
  "fs_del p fs = filter (\<lambda>e. fst e \<noteq> p) fs"

definition is_dir :: "path \<Rightarrow> fs \<Rightarrow> bool" where
  "is_dir p fs \<longleftrightarrow> p = [] \<or> map_of fs p = Some DirN"

definition fs_exists :: "path \<Rightarrow> fs \<Rightarrow> bool" where
  "fs_exists p fs \<longleftrightarrow> map_of fs p \<noteq> None"

definition parent_ok :: "path \<Rightarrow> fs \<Rightarrow> bool" where
  "parent_ok p fs \<longleftrightarrow> p \<noteq> [] \<and> is_dir (butlast p) fs"

definition read_file :: "path \<Rightarrow> fs \<Rightarrow> io_error + bytes" where
  "read_file p fs =
     (case map_of fs p of
        None \<Rightarrow> Inl NotFound | Some DirN \<Rightarrow> Inl IsADirectory | Some (FileN b) \<Rightarrow> Inr b)"

definition write_file :: "path \<Rightarrow> bytes \<Rightarrow> fs \<Rightarrow> io_error + fs" where
  "write_file p b fs =
     (if \<not> parent_ok p fs then Inl NotFound
      else if map_of fs p = Some DirN then Inl IsADirectory
      else Inr (fs_put p (FileN b) fs))"

definition append_file :: "path \<Rightarrow> bytes \<Rightarrow> fs \<Rightarrow> io_error + fs" where
  "append_file p b fs =
     (case map_of fs p of
        None \<Rightarrow> write_file p b fs
      | Some DirN \<Rightarrow> Inl IsADirectory
      | Some (FileN b0) \<Rightarrow> Inr (fs_put p (FileN (b0 @ b)) fs))"

text \<open>\<open>rename\<close> of a file: it replaces a file, and fails on a directory.\<close>

definition rename_file :: "path \<Rightarrow> path \<Rightarrow> fs \<Rightarrow> io_error + fs" where
  "rename_file p q fs =
     (case map_of fs p of
        Some (FileN b) \<Rightarrow> and_then (write_file q b (fs_del p fs)) Inr
      | Some DirN \<Rightarrow> Inl IsADirectory
      | None \<Rightarrow> Inl NotFound)"

definition remove_file :: "path \<Rightarrow> fs \<Rightarrow> io_error + fs" where
  "remove_file p fs =
     (case map_of fs p of
        None \<Rightarrow> Inl NotFound | Some DirN \<Rightarrow> Inl IsADirectory | Some (FileN b) \<Rightarrow> Inr (fs_del p fs))"

function create_dir_all :: "path \<Rightarrow> fs \<Rightarrow> io_error + fs" where
  "create_dir_all p fs =
     (if p = [] then Inr fs
      else case map_of fs p of
        Some DirN \<Rightarrow> Inr fs
      | Some (FileN b) \<Rightarrow> Inl AlreadyExists
      | None \<Rightarrow> and_then (create_dir_all (butlast p) fs) (\<lambda>fs'. Inr (fs_put p DirN fs')))"
  by pat_completeness auto
termination by (relation "measure (length o fst)") auto

declare create_dir_all.simps [simp del]

definition child_names :: "path \<Rightarrow> fs \<Rightarrow> string list" where
  "child_names p fs =
     List.map_filter (\<lambda>e. if fst e \<noteq> [] \<and> butlast (fst e) = p then
       (case last (fst e) of Normal s \<Rightarrow> Some s | _ \<Rightarrow> None) else None) fs"

definition read_dir :: "path \<Rightarrow> fs \<Rightarrow> io_error + string list" where
  "read_dir p fs =
     (if is_dir p fs then Inr (child_names p fs)
      else if fs_exists p fs then Inl NotADirectory else Inl NotFound)"

fun path_prefix :: "path \<Rightarrow> path \<Rightarrow> bool" where
  "path_prefix [] q = True"
| "path_prefix (c # p) (d # q) = (c = d \<and> path_prefix p q)"
| "path_prefix (c # p) [] = False"

definition remove_dir_all :: "path \<Rightarrow> fs \<Rightarrow> io_error + fs" where
  "remove_dir_all p fs =
     (if map_of fs p = Some DirN then Inr (filter (\<lambda>e. \<not> path_prefix p (fst e)) fs)
      else if fs_exists p fs then Inl NotADirectory else Inl NotFound)"

definition remove_dir :: "path \<Rightarrow> fs \<Rightarrow> io_error + fs" where
  "remove_dir p fs =
     (if map_of fs p \<noteq> Some DirN then Inl NotFound
      else if child_names p fs \<noteq> [] then Inl DirectoryNotEmpty
      else Inr (fs_del p fs))"

lemma map_of_del [simp]: "map_of (fs_del p fs) q = (if q = p then None else map_of fs q)"
  unfolding fs_del_def by (induction fs) auto

lemma map_of_put [simp]: "map_of (fs_put p n fs) q = (if q = p then Some n else map_of fs q)"
proof -
  have "fs_put p n fs = (p, n) # fs_del p fs" by (simp add: fs_put_def fs_del_def)
  then show ?thesis by simp
qed

lemma path_prefix_iff: "path_prefix p q \<longleftrightarrow> (\<exists>r. q = p @ r)"
  by (induction p q rule: path_prefix.induct) auto

lemma map_of_remove_all:
  "remove_dir_all p fs = Inr fs' \<Longrightarrow>
   map_of fs' q = (if path_prefix p q then None else map_of fs q)"
proof -
  have "map_of (filter (\<lambda>e. \<not> path_prefix p (fst e)) fs) q =
      (if path_prefix p q then None else map_of fs q)"
    by (induction fs) auto
  then show "remove_dir_all p fs = Inr fs' \<Longrightarrow> ?thesis"
    by (auto simp: remove_dir_all_def split: if_splits)
qed

text \<open>What each operation changes.\<close>

lemma write_file_Inr:
  "write_file p b fs = Inr fs' \<longleftrightarrow>
   parent_ok p fs \<and> map_of fs p \<noteq> Some DirN \<and> fs' = fs_put p (FileN b) fs"
  by (auto simp: write_file_def)

lemma append_file_Inr:
  "append_file p b fs = Inr fs' \<Longrightarrow>
   fs' = fs_put p (FileN ((case map_of fs p of Some (FileN b0) \<Rightarrow> b0 | _ \<Rightarrow> []) @ b)) fs"
  by (auto simp: append_file_def write_file_Inr split: option.splits node.splits)

lemma read_file_Inr: "read_file p fs = Inr b \<longleftrightarrow> map_of fs p = Some (FileN b)"
  by (auto simp: read_file_def split: option.splits node.splits)

lemma remove_file_Inr:
  "remove_file p fs = Inr fs' \<longleftrightarrow> (\<exists>b. map_of fs p = Some (FileN b)) \<and> fs' = fs_del p fs"
  by (auto simp: remove_file_def split: option.splits node.splits)

lemma rename_file_Inr:
  "rename_file p q fs = Inr fs' \<Longrightarrow>
   \<exists>b. map_of fs p = Some (FileN b) \<and> fs' = fs_put q (FileN b) (fs_del p fs)"
  by (auto simp: rename_file_def write_file_Inr result_simps split: option.splits node.splits)

lemma create_dir_all_effect:
  "create_dir_all p fs = Inr fs' \<Longrightarrow>
   is_dir p fs' \<and>
   (\<forall>q. map_of fs' q = map_of fs q \<or>
        map_of fs q = None \<and> map_of fs' q = Some DirN \<and> q \<noteq> [] \<and> path_prefix q p)"
proof (induction p fs arbitrary: fs' rule: create_dir_all.induct)
  case (1 p fs)
  show ?case
  proof (cases "p = [] \<or> map_of fs p \<noteq> None")
    case True
    then show ?thesis
      using "1.prems" by (subst (asm) create_dir_all.simps)
        (auto simp: is_dir_def split: if_splits option.splits node.splits)
  next
    case False
    then obtain fs1 where one: "create_dir_all (butlast p) fs = Inr fs1" "fs' = fs_put p DirN fs1"
      using "1.prems" by (subst (asm) create_dir_all.simps) (auto simp: result_simps)
    have ih: "\<forall>q. map_of fs1 q = map_of fs q \<or>
        map_of fs q = None \<and> map_of fs1 q = Some DirN \<and> q \<noteq> [] \<and> path_prefix q (butlast p)"
      using "1.IH" [OF _ _ one(1)] False by auto
    have longer: "path_prefix q (butlast p) \<Longrightarrow> path_prefix q p" for q
      using False by (auto simp: path_prefix_iff)
        (metis append.assoc append_butlast_last_id)
    show ?thesis
      using ih False longer by (auto simp: one is_dir_def path_prefix_iff)
  qed
qed

lemma create_dir_all_dir: "create_dir_all p fs = Inr fs' \<Longrightarrow> is_dir p fs'"
  using create_dir_all_effect by blast

lemma create_dir_all_keeps_file:
  "create_dir_all p fs = Inr fs' \<Longrightarrow> map_of fs' q = Some (FileN b) \<longleftrightarrow> map_of fs q = Some (FileN b)"
  using create_dir_all_effect [of p fs fs'] by (metis node.distinct(1) option.distinct(1) option.inject)

lemma create_dir_all_keeps_dir:
  "create_dir_all p fs = Inr fs' \<Longrightarrow> map_of fs q = Some DirN \<Longrightarrow> map_of fs' q = Some DirN"
  using create_dir_all_effect [of p fs fs'] by (metis option.distinct(1))

lemma create_dir_all_keeps_other:
  "create_dir_all p fs = Inr fs' \<Longrightarrow> \<not> path_prefix q p \<Longrightarrow> map_of fs' q = map_of fs q"
  using create_dir_all_effect [of p fs fs'] by blast

lemma create_dir_all_existing: "is_dir p fs \<Longrightarrow> create_dir_all p fs = Inr fs"
  by (subst create_dir_all.simps) (auto simp: is_dir_def)

lemma path_prefix_length: "path_prefix p q \<Longrightarrow> length p \<le> length q"
  by (auto simp: path_prefix_iff)

lemma path_prefix_refl [simp]: "path_prefix p p"
  by (simp add: path_prefix_iff)

lemma path_prefix_append [simp]: "path_prefix p (p @ q)"
  by (simp add: path_prefix_iff)

lemma path_prefix_trans: "path_prefix p q \<Longrightarrow> path_prefix q r \<Longrightarrow> path_prefix p r"
  by (auto simp: path_prefix_iff)

end
