(* ===== verification/Core_Manifest.thy ===== *)
theory Core_Manifest
  imports Fs
begin

text \<open>
  \<open>peerline-core/src/manifest.rs\<close> and \<open>event.rs\<close>: the manifest of a transfer, the
  descriptor a sender announces, and the events the sessions emit. Identifiers are byte
  lists; the ones the code draws at random are arguments. The hex codec is a crate and a
  parameter.
\<close>

datatype transfer_id = TransferId (transfer_id_bytes: bytes)
datatype node_id = NodeId (node_id_bytes: bytes)
datatype resource_id = ResourceId (resource_id_bytes: bytes)

datatype compression = Auto | CompressNone | Zstd | Lzma
datatype entry_kind = EntryFile | EntryDirectory

record manifest_entry =
  me_path :: string
  me_kind :: entry_kind
  me_size :: u64
  me_blake3 :: "bytes option"

record manifest =
  mf_id :: transfer_id
  mf_compression :: compression
  mf_entries :: "manifest_entry list"
  mf_total_bytes :: u64

record transfer_descriptor =
  td_source_id :: node_id
  td_resource_id :: resource_id
  td_archive_bytes :: u64
  td_logical_bytes :: u64
  td_files :: nat
  td_compression :: compression

datatype id_parse_error = BadHex | BadLength

definition node_id_hex :: "(bytes \<Rightarrow> string) \<Rightarrow> node_id \<Rightarrow> string" where
  "node_id_hex hex_encode n = hex_encode (node_id_bytes n)"

definition resource_id_hex :: "(bytes \<Rightarrow> string) \<Rightarrow> resource_id \<Rightarrow> string" where
  "resource_id_hex hex_encode r = hex_encode (resource_id_bytes r)"

definition node_id_from_str :: "(string \<Rightarrow> bytes option) \<Rightarrow> string \<Rightarrow> id_parse_error + node_id" where
  "node_id_from_str hex_decode value =
     and_then (ok_or (hex_decode value) BadHex)
       (\<lambda>bs. if length bs = 16 then Inr (NodeId bs) else Inl BadLength)"

definition resource_id_from_str ::
  "(string \<Rightarrow> bytes option) \<Rightarrow> string \<Rightarrow> id_parse_error + resource_id" where
  "resource_id_from_str hex_decode value =
     and_then (ok_or (hex_decode value) BadHex)
       (\<lambda>bs. if length bs = 32 then Inr (ResourceId bs) else Inl BadLength)"

definition manifest_with_id :: "transfer_id \<Rightarrow> compression \<Rightarrow> manifest_entry list \<Rightarrow> manifest" where
  "manifest_with_id tid cmp entries =
     \<lparr>mf_id = tid, mf_compression = cmp, mf_entries = entries,
      mf_total_bytes = sum_list (map me_size (filter (\<lambda>e. me_kind e = EntryFile) entries))\<rparr>"

definition entry_file :: "string \<Rightarrow> u64 \<Rightarrow> bytes \<Rightarrow> manifest_entry" where
  "entry_file p sz hash =
     \<lparr>me_path = p, me_kind = EntryFile, me_size = sz, me_blake3 = Some hash\<rparr>"

definition entry_directory :: "string \<Rightarrow> manifest_entry" where
  "entry_directory p = \<lparr>me_path = p, me_kind = EntryDirectory, me_size = 0, me_blake3 = None\<rparr>"

section \<open>Events\<close>

datatype connection_route = LanDirect | PublicDirect | PublicTunnel | TorOnion | I2p | Libp2pQuic |
  Libp2pDcutr | Libp2pRelay | WebRtcDirect | WebRtcTurn

datatype transfer_stage = Discovering | Connecting connection_route | Authenticating |
  ReceivingManifest | Transferring | Verifying | Complete | Failed string

datatype log_level = LogError | LogWarn | LogInfo | LogDebug | LogTrace

datatype peerline_event =
    Shutdown
  | StageChanged transfer_stage
  | TransferStarted transfer_id string nat u64 u64
  | Progress transfer_id u64 u64
  | Message string
  | Log log_level string string

section \<open>Identifiers in text\<close>

text \<open>
  The identifiers' text form round-trips for any hex codec that decodes what it encodes, and
  an identifier of the wrong length is refused.
\<close>

lemma node_id_roundtrip:
  "hex_decode (hex_encode (node_id_bytes n)) = Some (node_id_bytes n) \<Longrightarrow>
   length (node_id_bytes n) = 16 \<Longrightarrow>
   node_id_from_str hex_decode (node_id_hex hex_encode n) = Inr n"
  by (simp add: node_id_from_str_def node_id_hex_def)

lemma node_id_from_str_length:
  "node_id_from_str hex_decode s = Inr n \<Longrightarrow> length (node_id_bytes n) = 16"
  by (auto simp: node_id_from_str_def result_simps split: if_splits)

lemma manifest_total_exact:
  "sum_list (map (\<lambda>e. unat (me_size e)) (filter (\<lambda>e. me_kind e = EntryFile) es)) < 2 ^ 64 \<Longrightarrow>
   unat (mf_total_bytes (manifest_with_id tid c es)) =
   sum_list (map (\<lambda>e. unat (me_size e)) (filter (\<lambda>e. me_kind e = EntryFile) es))"
proof -
  have "unat (sum_list (map me_size xs)) = sum_list (map (\<lambda>e. unat (me_size e)) xs)"
    if "sum_list (map (\<lambda>e. unat (me_size e)) xs) < 2 ^ 64" for xs :: "manifest_entry list"
    using that by (induction xs) (auto simp: unat_word_ariths)
  then show "sum_list (map (\<lambda>e. unat (me_size e)) (filter (\<lambda>e. me_kind e = EntryFile) es)) < 2 ^ 64 \<Longrightarrow>
    ?thesis"
    by (simp add: manifest_with_id_def)
qed

end
