(* ===== verification/Config.thy ===== *)
theory Config
  imports Identity Core_Manifest Fs
begin

text \<open>
  \<open>peerline-core/src/config.rs\<close>: the stored configuration (the receiver's name and the
  persistent node identifier). The TOML codec is a parameter; a freshly drawn identifier is
  an argument. Every operation returns the file system it leaves together with its result.
\<close>

record config =
  cfg_name :: "human_name option"
  cfg_node_id :: "node_id option"

definition config_default :: config where
  "config_default = \<lparr>cfg_name = None, cfg_node_id = None\<rparr>"

record config_store =
  store_path :: path

datatype config_error = Config_Io io_error | Config_NotUtf8 | Config_BadToml

definition config_load ::
  "(string \<Rightarrow> config option) \<Rightarrow> config_store \<Rightarrow> fs \<Rightarrow> config_error + config" where
  "config_load from_toml st fs =
     (if \<not> fs_exists (store_path st) fs then Inr config_default
      else case read_file (store_path st) fs of
        Inl e \<Rightarrow> Inl (Config_Io e)
      | Inr raw \<Rightarrow>
          if \<not> utf8_valid (map unat raw) then Inl Config_NotUtf8
          else ok_or (from_toml (bytes_str raw)) Config_BadToml)"

definition config_save ::
  "(config \<Rightarrow> string option) \<Rightarrow> config_store \<Rightarrow> config \<Rightarrow> fs \<Rightarrow> fs \<times> (config_error + unit)" where
  "config_save to_toml st cfg fs =
     (case (case path_parent (store_path st) of
              None \<Rightarrow> Inr fs | Some parent \<Rightarrow> create_dir_all parent fs) of
        Inl e \<Rightarrow> (fs, Inl (Config_Io e))
      | Inr fs1 \<Rightarrow>
          (case to_toml cfg of
             None \<Rightarrow> (fs1, Inl Config_BadToml)
           | Some text \<Rightarrow>
               (case write_file (store_path st) (str_bytes text) fs1 of
                  Inl e \<Rightarrow> (fs1, Inl (Config_Io e))
                | Inr fs2 \<Rightarrow> (fs2, Inr ()))))"

definition config_set_name ::
  "(string \<Rightarrow> config option) \<Rightarrow> (config \<Rightarrow> string option) \<Rightarrow> config_store \<Rightarrow> human_name \<Rightarrow> fs \<Rightarrow>
   fs \<times> (config_error + unit)" where
  "config_set_name from_toml to_toml st name fs =
     (case config_load from_toml st fs of
        Inl e \<Rightarrow> (fs, Inl e)
      | Inr cfg \<Rightarrow> config_save to_toml st (cfg\<lparr>cfg_name := Some name\<rparr>) fs)"

definition config_node_id ::
  "(string \<Rightarrow> config option) \<Rightarrow> (config \<Rightarrow> string option) \<Rightarrow> config_store \<Rightarrow> node_id \<Rightarrow> fs \<Rightarrow>
   fs \<times> (config_error + node_id)" where
  "config_node_id from_toml to_toml st fresh fs =
     (case config_load from_toml st fs of
        Inl e \<Rightarrow> (fs, Inl e)
      | Inr cfg \<Rightarrow>
          (case cfg_node_id cfg of
             Some n \<Rightarrow> (fs, Inr n)
           | None \<Rightarrow>
               (case config_save to_toml st (cfg\<lparr>cfg_node_id := Some fresh\<rparr>) fs of
                  (fs', Inl e) \<Rightarrow> (fs', Inl e)
                | (fs', Inr _) \<Rightarrow> (fs', Inr fresh))))"

lemma config_save_load:
  assumes "config_save to_toml st cfg fs = (fs', Inr ())"
    and "\<And>t. to_toml cfg = Some t \<Longrightarrow> utf8_valid (map code t) \<and> from_toml t = Some cfg"
  shows "config_load from_toml st fs' = Inr cfg"
proof -
  from assms(1) obtain t fs1 where t: "to_toml cfg = Some t"
      "write_file (store_path st) (str_bytes t) fs1 = Inr fs'"
    by (auto simp: config_save_def split: sum.splits option.splits)
  have "map unat (str_bytes t) = map code t"
    by (simp add: str_bytes_def unat_of_nat)
  with t assms(2) show ?thesis
    by (simp add: config_load_def write_file_Inr read_file_def fs_exists_def del: map_map)
qed

text \<open>
  The node identifier is stable: once \<open>node_id\<close> has returned one, every later call
  returns the same identifier, whatever would be drawn then, and leaves the disk unchanged. It
  holds for every TOML codec that reads back the configurations it writes.
\<close>

theorem config_node_id_stable:
  assumes codec: "\<And>c t. to_toml c = Some t \<Longrightarrow> utf8_valid (map code t) \<and> from_toml t = Some c"
    and first: "config_node_id from_toml to_toml st fresh fs = (fs', Inr n)"
  shows "config_node_id from_toml to_toml st fresh' fs' = (fs', Inr n)"
proof -
  from first obtain cfg where cfg: "config_load from_toml st fs = Inr cfg"
    by (auto simp: config_node_id_def split: sum.splits)
  show ?thesis
  proof (cases "cfg_node_id cfg")
    case None
    with first cfg have "config_save to_toml st (cfg\<lparr>cfg_node_id := Some fresh\<rparr>) fs = (fs', Inr ())"
        and "n = fresh"
      by (auto simp: config_node_id_def split: prod.splits sum.splits)
    then have "config_load from_toml st fs' = Inr (cfg\<lparr>cfg_node_id := Some fresh\<rparr>)"
      by (intro config_save_load) (auto dest: codec)
    with \<open>n = fresh\<close> show ?thesis by (simp add: config_node_id_def)
  next
    case (Some m)
    with first cfg show ?thesis by (auto simp: config_node_id_def)
  qed
qed

definition sample_config :: config where
  "sample_config = \<lparr>cfg_name = None, cfg_node_id = Some (NodeId [1])\<rparr>"

definition sample_to_toml :: "config \<Rightarrow> string option" where
  "sample_to_toml c = (if c = sample_config then Some ''x'' else None)"

definition sample_from_toml :: "string \<Rightarrow> config option" where
  "sample_from_toml t = (if t = ''x'' then Some sample_config else None)"

lemma sample_toml_roundtrip:
  "sample_to_toml c = Some t \<Longrightarrow> utf8_valid (map code t) \<and> sample_from_toml t = Some c"
  by (auto simp: sample_to_toml_def sample_from_toml_def code_def split: if_splits)

lemma sample_first_node_id:
  "config_node_id sample_from_toml sample_to_toml \<lparr>store_path = [Normal ''config.toml'']\<rparr> (NodeId [1]) [] =
   ([([Normal ''config.toml''], FileN (str_bytes ''x''))], Inr (NodeId [1]))"
  by (simp add: config_node_id_def config_load_def config_save_def config_default_def
      sample_config_def sample_to_toml_def fs_exists_def path_parent_def create_dir_all.simps
      write_file_def parent_ok_def is_dir_def fs_put_def)

lemma config_node_id_stable_witness:
  "config_node_id sample_from_toml sample_to_toml \<lparr>store_path = [Normal ''config.toml'']\<rparr> (NodeId [2])
     [([Normal ''config.toml''], FileN (str_bytes ''x''))] =
   ([([Normal ''config.toml''], FileN (str_bytes ''x''))], Inr (NodeId [1]))"
  by (rule config_node_id_stable [OF sample_toml_roundtrip sample_first_node_id])

end
