(* ===== verification/Compression.thy ===== *)
theory Compression
  imports Core_Manifest
begin

text \<open>
  \<open>peerline-transfer/src/compression.rs\<close>: the choice of a compressor and the in-memory
  codec. The zstd and LZMA crates are a record of parameters.
\<close>

record codecs =
  zstd_encode :: "bytes \<Rightarrow> bytes option"
  zstd_decode :: "bytes \<Rightarrow> bytes option"
  lzma_encode :: "bytes \<Rightarrow> bytes option"
  lzma_decode :: "bytes \<Rightarrow> bytes option"

fun effective_compression :: "compression \<Rightarrow> bytes \<Rightarrow> compression" where
  "effective_compression Auto input = (if length input < 1024 then CompressNone else Zstd)"
| "effective_compression other input = other"

definition resolved_compression :: "compression \<Rightarrow> bytes \<Rightarrow> compression" where
  "resolved_compression c input = effective_compression c input"

fun resolved_compression_for_size :: "compression \<Rightarrow> u64 \<Rightarrow> compression" where
  "resolved_compression_for_size Auto sz = (if sz < 1024 then CompressNone else Zstd)"
| "resolved_compression_for_size other sz = other"

definition encode_payload :: "codecs \<Rightarrow> compression \<Rightarrow> bytes \<Rightarrow> bytes option" where
  "encode_payload cs c input =
     (case effective_compression c input of
        CompressNone \<Rightarrow> Some input
      | Zstd \<Rightarrow> zstd_encode cs input
      | Auto \<Rightarrow> zstd_encode cs input
      | Lzma \<Rightarrow> lzma_encode cs input)"

definition decode_payload :: "codecs \<Rightarrow> compression \<Rightarrow> bytes \<Rightarrow> bytes option" where
  "decode_payload cs c input =
     (case c of
        CompressNone \<Rightarrow> Some input
      | Zstd \<Rightarrow> zstd_decode cs input
      | Auto \<Rightarrow> zstd_decode cs input
      | Lzma \<Rightarrow> lzma_decode cs input)"

lemma resolved_not_auto: "resolved_compression_for_size c n \<noteq> Auto"
  by (cases c) auto

lemma resolved_agree:
  "length input < 2 ^ 64 \<Longrightarrow>
   resolved_compression_for_size c (of_nat (length input)) = resolved_compression c input"
  by (cases c) (auto simp: resolved_compression_def word_less_nat_alt unat_of_nat)

definition codecs_ok :: "codecs \<Rightarrow> bool" where
  "codecs_ok cs \<longleftrightarrow>
     (\<forall>x y. zstd_encode cs x = Some y \<longrightarrow> zstd_decode cs y = Some x) \<and>
     (\<forall>x y. lzma_encode cs x = Some y \<longrightarrow> lzma_decode cs y = Some x)"

lemma decode_encode_payload:
  "codecs_ok cs \<Longrightarrow> encode_payload cs c x = Some y \<Longrightarrow>
   decode_payload cs (resolved_compression c x) y = Some x"
  by (cases c)
    (auto simp: codecs_ok_def encode_payload_def decode_payload_def resolved_compression_def
      split: if_splits)

end
