(* ===== verification/Core_Path.thy ===== *)
theory Core_Path
  imports Fs
begin

text \<open>
  \<open>peerline-core/src/path.rs\<close>: the validation of the relative paths a manifest or a frame
  names, joining them below the destination, and the choice of a file name that does not
  overwrite. \<open>has_noncanonical_segments\<close> splits the lossy UTF-8 form of the path; replacing
  malformed bytes neither adds nor removes a separator and never yields an empty or dotted
  segment, so the model splits the bytes. The counter of \<open>non_overwriting_path\<close> is a
  natural number here (an \<open>i32\<close> in the code, which differs once two thousand million
  candidates exist).
\<close>

datatype conflict_action = OverwriteCurrent | OverwriteAll | KeepBoth | Cancel

record conflict_decision =
  decision_action :: conflict_action

datatype path_error = Path_Absolute | Path_ParentComponent | Path_Empty | Path_Prefix

definition has_noncanonical_segments :: "string \<Rightarrow> bool" where
  "has_noncanonical_segments p =
     list_ex (\<lambda>seg. seg = [] \<or> seg = ''.'' \<or> seg = ''..'') (split_on is_sep p)"

fun check_components :: "path \<Rightarrow> path_error option" where
  "check_components [] = None"
| "check_components (Normal part # rest) =
     (if part \<noteq> [] then check_components rest else Some Path_Empty)"
| "check_components (CurDir # rest) = Some Path_ParentComponent"
| "check_components (ParentDir # rest) = Some Path_ParentComponent"
| "check_components (RootDir # rest) = Some Path_Absolute"

definition validate_relative_path :: "string \<Rightarrow> path_error + unit" where
  "validate_relative_path p =
     (if p = [] then Inl Path_Empty
      else if is_absolute p then Inl Path_Absolute
      else if has_noncanonical_segments p then Inl Path_ParentComponent
      else case check_components (components p) of Some e \<Rightarrow> Inl e | None \<Rightarrow> Inr ())"

definition safe_join_relative :: "string \<Rightarrow> string \<Rightarrow> path_error + string" where
  "safe_join_relative base rel =
     and_then (validate_relative_path rel) (\<lambda>_. Inr (path_join base rel))"

fun candidate_name :: "string \<Rightarrow> string option \<Rightarrow> nat \<Rightarrow> string" where
  "candidate_name stem (Some ext) index =
     stem @ '' ('' @ dec_str index @ '')'' @ ''.'' @ ext"
| "candidate_name stem None index = stem @ '' ('' @ dec_str index @ '')''"

lemma candidate_name_inject [simp]: "candidate_name s e i = candidate_name s e j \<longleftrightarrow> i = j"
  by (cases e) auto

lemma finite_taken_candidates:
  "finite {j. i \<le> j \<and> fs_exists (parent @ [Normal (candidate_name stem ext j)]) fs}"
proof (rule finite_subset)
  let ?f = "\<lambda>j. parent @ [Normal (candidate_name stem ext j)]"
  show "{j. i \<le> j \<and> fs_exists (?f j) fs} \<subseteq> ?f -` (fst ` set fs)"
    by (auto simp: fs_exists_def map_of_eq_None_iff)
  show "finite (?f -` (fst ` set fs))"
    by (rule finite_vimageI) (simp_all add: inj_def)
qed

function free_index :: "path \<Rightarrow> string \<Rightarrow> string option \<Rightarrow> fs \<Rightarrow> nat \<Rightarrow> nat" where
  "free_index parent stem ext fs index =
     (if fs_exists (parent @ [Normal (candidate_name stem ext index)]) fs
      then free_index parent stem ext fs (Suc index) else index)"
  by pat_completeness auto
termination
proof (relation "measure (\<lambda>(parent, stem, ext, fs, i).
    card {j. i \<le> j \<and> fs_exists (parent @ [Normal (candidate_name stem ext j)]) fs})")
  fix parent stem ext fs i
  let ?taken = "\<lambda>i. {j. i \<le> j \<and> fs_exists (parent @ [Normal (candidate_name stem ext j)]) fs}"
  assume "fs_exists (parent @ [Normal (candidate_name stem ext i)]) fs"
  then have "i \<in> ?taken i" by simp
  moreover have "i \<notin> ?taken (Suc i)" by simp
  moreover have "?taken (Suc i) \<subseteq> ?taken i" by auto
  ultimately have "?taken (Suc i) \<subset> ?taken i" by blast
  then have "card (?taken (Suc i)) < card (?taken i)"
    by (rule psubset_card_mono [OF finite_taken_candidates])
  then show "((parent, stem, ext, fs, Suc i), parent, stem, ext, fs, i) \<in>
      measure (\<lambda>(parent, stem, ext, fs, i).
        card {j. i \<le> j \<and> fs_exists (parent @ [Normal (candidate_name stem ext j)]) fs})"
    by simp
qed simp

declare free_index.simps [simp del]

definition stem_or_file :: "path \<Rightarrow> string" where
  "stem_or_file p = (case Option.bind (file_stem p) to_str of Some s \<Rightarrow> s | None \<Rightarrow> ''file'')"

definition text_extension :: "path \<Rightarrow> string option" where
  "text_extension p = Option.bind (path_extension p) to_str"

definition non_overwriting_path :: "path \<Rightarrow> fs \<Rightarrow> path" where
  "non_overwriting_path p fs =
     (if \<not> fs_exists p fs then p
      else
        let parent = (case path_parent p of Some d \<Rightarrow> d | None \<Rightarrow> []);
            stem = stem_or_file p;
            ext = text_extension p
        in parent @ [Normal (candidate_name stem ext (free_index parent stem ext fs 1))])"

section \<open>Accepted relative paths\<close>

lemma seg_component_Normal: "seg \<noteq> [] \<Longrightarrow> seg \<noteq> ''.'' \<Longrightarrow> seg \<noteq> ''..'' \<Longrightarrow> seg_component seg = Some (Normal seg)"
  by (simp add: seg_component.simps)

definition plain_segments :: "string list \<Rightarrow> bool" where
  "plain_segments segs \<longleftrightarrow> (\<forall>seg \<in> set segs. seg \<noteq> [] \<and> seg \<noteq> ''.'' \<and> seg \<noteq> ''..'')"

lemma plain_segments_components:
  "plain_segments segs \<Longrightarrow> List.map_filter seg_component segs = map Normal segs"
  by (induction segs) (auto simp: plain_segments_def seg_component_Normal)

lemma check_components_Normal: "[] \<notin> set segs \<Longrightarrow> check_components (map Normal segs) = None"
  by (induction segs) auto

lemma noncanonical_iff: "has_noncanonical_segments p \<longleftrightarrow> \<not> plain_segments (split_on is_sep p)"
  by (auto simp: has_noncanonical_segments_def plain_segments_def list_ex_iff)

lemma components_plain:
  assumes "\<not> is_absolute p" "plain_segments (split_on is_sep p)"
  shows "components p = map Normal (split_on is_sep p)"
proof -
  have "hd (split_on is_sep p) \<in> set (split_on is_sep p)" by simp
  with assms have "hd (split_on is_sep p) \<noteq> ''.''" by (auto simp: plain_segments_def)
  with assms show ?thesis by (simp add: components_def plain_segments_components)
qed

lemma validate_relative_path_Inr:
  "validate_relative_path p = Inr u \<longleftrightarrow>
   p \<noteq> [] \<and> \<not> is_absolute p \<and> plain_segments (split_on is_sep p)"
proof -
  have "check_components (components p) = None"
    if "\<not> is_absolute p" "plain_segments (split_on is_sep p)"
    using that check_components_Normal [of "split_on is_sep p"] components_plain [of p]
    by (auto simp: plain_segments_def)
  then show ?thesis
    by (auto simp: validate_relative_path_def noncanonical_iff split: if_splits option.splits)
qed

lemma validate_components:
  "validate_relative_path p = Inr u \<Longrightarrow> components p = map Normal (split_on is_sep p)"
  by (simp add: validate_relative_path_Inr components_plain)

lemma absolute_split: "is_absolute p \<longleftrightarrow> (\<exists>q. p = CHR ''/'' # q)"
  by (cases p) (auto simp: is_absolute_def starts_with_def)

lemma split_on_sep_last:
  "ends_with ''/'' p \<Longrightarrow> \<exists>q. p = q @ ''/'' \<and> split_on is_sep p = split_on is_sep q @ [[]]"
proof -
  assume "ends_with ''/'' p"
  then obtain q where "p = q @ ''/''"
    using strip_suffix_Some [of "''/''" p] by (auto simp: strip_suffix_def)
  then show ?thesis using split_on_append [of is_sep "CHR ''/''" q "[]"] by (simp add: is_sep_def)
qed

lemma split_on_slash [simp]:
  "split_on is_sep (p @ CHR ''/'' # q) = split_on is_sep p @ split_on is_sep q"
  by (rule split_on_append) (simp add: is_sep_def)

lemma components_join:
  assumes "validate_relative_path rel = Inr u"
  shows "components (path_join base rel) = components base @ components rel"
proof -
  from assms have rel: "\<not> is_absolute rel" "components rel = map Normal (split_on is_sep rel)"
    "List.map_filter seg_component (split_on is_sep rel) = map Normal (split_on is_sep rel)"
    by (auto simp: validate_relative_path_Inr components_plain plain_segments_components)
  have abs: "is_absolute (q @ CHR ''/'' # r) = is_absolute (q @ ''/'')" for q r
    by (cases q) (simp_all add: absolute_split)
  have mid: "components (q @ CHR ''/'' # rel) =
      (if is_absolute (q @ ''/'') then [RootDir] else if hd (split_on is_sep q) = ''.'' then [CurDir] else [])
      @ List.map_filter seg_component (split_on is_sep q) @ map Normal (split_on is_sep rel)" for q
    by (simp only: components_def split_on_slash map_filter_append hd_append2 [OF split_on_nonempty]
        rel(3) abs [of q rel] append_assoc)
  consider "base = []" | q where "base = q @ ''/''" | "base \<noteq> []" "\<not> ends_with ''/'' base"
    using split_on_sep_last by blast
  then show ?thesis
  proof cases
    case 1
    then show ?thesis
      using rel by (simp add: path_join_def components_def absolute_split seg_component.simps)
  next
    case 2
    then have "path_join base rel = q @ CHR ''/'' # rel"
      using rel by (simp add: path_join_def ends_with_def)
    then show ?thesis
      using rel by (simp only: mid) (simp add: components_def 2
          seg_component.simps)
  next
    case 3
    then have "path_join base rel = base @ CHR ''/'' # rel"
      using rel by (simp add: path_join_def)
    moreover have "is_absolute (base @ ''/'') = is_absolute base"
      using 3(1) by (cases base) (auto simp: absolute_split)
    ultimately show ?thesis
      using rel by (simp only: mid) (simp add: components_def)
  qed
qed

lemma safe_join_Inr:
  "safe_join_relative base rel = Inr p \<longleftrightarrow>
   validate_relative_path rel = Inr () \<and> p = path_join base rel"
  by (auto simp: safe_join_relative_def result_simps)

lemma safe_join_components:
  "safe_join_relative base rel = Inr p \<Longrightarrow> components p = components base @ components rel"
  by (auto simp: safe_join_Inr components_join)

text \<open>
  A joined path always lies strictly below the destination: its components are those of
  the destination followed by at least one plain name, none of which is empty, \<open>.\<close> or
  \<open>..\<close>; so no accepted path, however spelled, climbs out of the destination.
\<close>

theorem safe_join_stays_below:
  assumes "safe_join_relative base rel = Inr p"
  shows "\<exists>names. names \<noteq> [] \<and> components p = components base @ map Normal names \<and>
    plain_segments names \<and> (\<forall>n \<in> set names. CHR ''/'' \<notin> set n)"
proof (intro exI conjI)
  from assms have ok: "validate_relative_path rel = Inr ()" by (simp add: safe_join_Inr)
  show "split_on is_sep rel \<noteq> []" by simp
  show "components p = components base @ map Normal (split_on is_sep rel)"
    using assms ok by (simp add: safe_join_components validate_components)
  show "plain_segments (split_on is_sep rel)"
    using ok by (simp add: validate_relative_path_Inr)
  show "\<forall>n \<in> set (split_on is_sep rel). CHR ''/'' \<notin> set n"
    using split_on_no_sep [of "CHR ''/''" _ is_sep rel] by (auto simp: is_sep_def)
qed

lemma sample_join: "safe_join_relative ''/home/u/in'' ''docs/a.txt'' = Inr ''/home/u/in/docs/a.txt''"
  by (simp add: safe_join_Inr validate_relative_path_Inr plain_segments_def is_sep_def
      is_absolute_def starts_with_def path_join_def ends_with_def)

lemma safe_join_stays_below_witness:
  "\<exists>names. names \<noteq> [] \<and>
    components ''/home/u/in/docs/a.txt'' = components ''/home/u/in'' @ map Normal names \<and>
    plain_segments names"
  using safe_join_stays_below [OF sample_join] by blast

section \<open>Keeping both files\<close>

lemma free_index_free:
  "\<not> fs_exists (parent @ [Normal (candidate_name stem ext (free_index parent stem ext fs i))]) fs"
  by (induction parent stem ext fs i rule: free_index.induct)
    (subst free_index.simps, simp)

lemma free_index_least:
  "i \<le> j \<Longrightarrow> j < free_index parent stem ext fs i \<Longrightarrow>
   fs_exists (parent @ [Normal (candidate_name stem ext j)]) fs"
proof (induction parent stem ext fs i rule: free_index.induct)
  case (1 parent stem ext fs i)
  show ?case
  proof (cases "fs_exists (parent @ [Normal (candidate_name stem ext i)]) fs")
    case True
    with "1.prems" have "j < free_index parent stem ext fs (Suc i)"
      by (subst (asm) free_index.simps) simp
    with 1 True show ?thesis by (cases "i = j") auto
  next
    case False
    with "1.prems" show ?thesis by (subst (asm) free_index.simps) simp
  qed
qed

lemma free_index_ge: "i \<le> free_index parent stem ext fs i"
proof (induction parent stem ext fs i rule: free_index.induct)
  case (1 parent stem ext fs i)
  then show ?case by (subst free_index.simps) auto
qed

lemma non_overwriting_path_free: "\<not> fs_exists (non_overwriting_path p fs) fs"
  using free_index_free by (auto simp: non_overwriting_path_def Let_def)

lemma non_overwriting_path_new: "\<not> fs_exists p fs \<Longrightarrow> non_overwriting_path p fs = p"
  by (simp add: non_overwriting_path_def)

lemma non_overwriting_path_same_parent:
  "file_name p \<noteq> None \<Longrightarrow>
   non_overwriting_path p fs \<noteq> [] \<and> butlast (non_overwriting_path p fs) = butlast p"
  by (auto simp: non_overwriting_path_def file_name_def path_parent_def Let_def
      split: if_splits component.splits)

text \<open>
  \<open>non_overwriting_path\<close> terminates with a name that is free in the same directory; a
  free name is returned as it is, and otherwise the number inserted is the least positive one
  whose candidate is free, so existing files are numbered without gaps.
\<close>

theorem non_overwriting_path_spec:
  assumes "file_name p \<noteq> None"
  shows "\<not> fs_exists (non_overwriting_path p fs) fs \<and>
    butlast (non_overwriting_path p fs) = butlast p \<and>
    (if fs_exists p fs
     then \<exists>n. 1 \<le> n \<and>
       non_overwriting_path p fs = butlast p @ [Normal (candidate_name (stem_or_file p) (text_extension p) n)] \<and>
       (\<forall>j \<in> {1..<n}. fs_exists (butlast p @ [Normal (candidate_name (stem_or_file p) (text_extension p) j)]) fs)
     else non_overwriting_path p fs = p)"
proof -
  let ?n = "free_index (butlast p) (stem_or_file p) (text_extension p) fs 1"
  have parent: "path_parent p = Some (butlast p)"
    using assms(1) by (auto simp: file_name_def path_parent_def split: if_splits component.splits)
  have "fs_exists p fs \<Longrightarrow>
      non_overwriting_path p fs = butlast p @ [Normal (candidate_name (stem_or_file p) (text_extension p) ?n)]"
    by (simp add: non_overwriting_path_def parent Let_def)
  moreover have "1 \<le> ?n" by (rule free_index_ge)
  moreover have "\<forall>j \<in> {1..<?n}. fs_exists (butlast p @ [Normal (candidate_name (stem_or_file p) (text_extension p) j)]) fs"
    using free_index_least [of 1 _ "butlast p" "stem_or_file p" "text_extension p" fs] by auto
  ultimately show ?thesis
    using non_overwriting_path_free non_overwriting_path_new
      non_overwriting_path_same_parent [OF assms(1)] by auto
qed

lemma non_overwriting_path_spec_witness:
  "\<not> fs_exists (non_overwriting_path [Normal ''a.txt''] [([Normal ''a.txt''], DirN)])
     [([Normal ''a.txt''], DirN)]"
  using non_overwriting_path_spec [of "[Normal ''a.txt'']" "[([Normal ''a.txt''], DirN)]"]
  by (simp add: file_name_def)

end
