(* ===== verification/Archive_Format.thy ===== *)
theory Archive_Format
  imports Compression Core_Path
begin

text \<open>
  The on-the-wire format of \<open>peerline-transfer/src/archive.rs\<close>: frames, each a postcard
  payload behind a 32-bit big-endian length, and the routines that write and read one. The
  postcard codec is a pair of parameters. A reader is the bytes a stream still delivers and
  whether the stream then fails (a decompressor that meets corrupt input) or just ends.
\<close>

datatype archive_frame =
    FManifest manifest
  | FDirectory string
  | FFileStart string u64 bytes
  | FFileChunk bytes
  | FFileEnd

datatype archive_error =
    Arch_Io
  | Arch_Serialize
  | Arch_Deserialize
  | Arch_NoManifest
  | Arch_NotManifestFirst
  | Arch_DuplicateManifest
  | Arch_BadPath path_error
  | Arch_FileWithoutHash
  | Arch_DirectoryWithMetadata
  | Arch_DuplicateEntry
  | Arch_UnexpectedEntry
  | Arch_KindMismatch
  | Arch_NestedFile
  | Arch_MetadataMismatch
  | Arch_ChunkWithoutStart
  | Arch_FileTooLarge
  | Arch_EndWithoutStart
  | Arch_SizeMismatch
  | Arch_HashMismatch
  | Arch_AlreadyConsumed
  | Arch_EndedInsideFile
  | Arch_MissingEntries
  | Arch_Symlink
  | Arch_Unsupported
  | Arch_NoBaseName

record reader =
  rd_bytes :: bytes
  rd_fails :: bool

definition read_frame ::
  "(bytes \<Rightarrow> archive_frame option) \<Rightarrow> reader \<Rightarrow> archive_error + (archive_frame \<times> reader) option" where
  "read_frame from_postcard r =
     (let bs = rd_bytes r in
      if length bs < 4 then (if rd_fails r then Inl Arch_Io else Inr None)
      else
        let n = of_be (take 4 bs); rest = drop 4 bs in
        if length rest < n then Inl Arch_Io
        else case from_postcard (take n rest) of
          None \<Rightarrow> Inl Arch_Deserialize
        | Some f \<Rightarrow> Inr (Some (f, r\<lparr>rd_bytes := drop n rest\<rparr>)))"

definition write_frame :: "(archive_frame \<Rightarrow> bytes option) \<Rightarrow> archive_frame \<Rightarrow> bytes option" where
  "write_frame to_postcard f =
     (case to_postcard f of None \<Rightarrow> None | Some p \<Rightarrow> Some (be_bytes 4 (length p) @ p))"

definition archive_frame_len :: "(archive_frame \<Rightarrow> bytes option) \<Rightarrow> archive_frame \<Rightarrow> nat option" where
  "archive_frame_len to_postcard f = map_option length (to_postcard f)"

fun compression_tag :: "compression \<Rightarrow> u8" where
  "compression_tag Auto = 0"
| "compression_tag CompressNone = 1"
| "compression_tag Zstd = 2"
| "compression_tag Lzma = 3"

fun entry_kind_tag :: "entry_kind \<Rightarrow> u8" where
  "entry_kind_tag EntryFile = 1"
| "entry_kind_tag EntryDirectory = 2"

definition manifest_id_entry :: "(string \<Rightarrow> string) \<Rightarrow> manifest_entry \<Rightarrow> bytes" where
  "manifest_id_entry lossy e =
     [entry_kind_tag (me_kind e)] @
     be_bytes 8 (length (lossy (me_path e))) @ str_bytes (lossy (me_path e)) @
     be_bytes 8 (unat (me_size e)) @
     (case me_blake3 e of Some h \<Rightarrow> 1 # h | None \<Rightarrow> [0])"

definition manifest_id_input :: "(string \<Rightarrow> string) \<Rightarrow> compression \<Rightarrow> manifest_entry list \<Rightarrow> bytes" where
  "manifest_id_input lossy c es =
     str_bytes ''peerline:manifest-id:v1'' @ [compression_tag c] @
     concat (map (manifest_id_entry lossy) es)"

definition deterministic_manifest_id ::
  "(bytes \<Rightarrow> bytes) \<Rightarrow> (string \<Rightarrow> string) \<Rightarrow> compression \<Rightarrow> manifest_entry list \<Rightarrow> transfer_id" where
  "deterministic_manifest_id blake3 lossy c es =
     TransferId (take 16 (blake3 (manifest_id_input lossy c es)))"

definition resource_id_for_reader :: "(bytes \<Rightarrow> bytes) \<Rightarrow> reader \<Rightarrow> archive_error + resource_id" where
  "resource_id_for_reader blake3 r =
     (if rd_fails r then Inl Arch_Io else Inr (ResourceId (blake3 (rd_bytes r))))"

section \<open>Frames on a stream\<close>

lemma read_frame_progress:
  "read_frame de r = Inr (Some (f, r')) \<Longrightarrow> length (rd_bytes r') < length (rd_bytes r)"
  by (auto simp: read_frame_def Let_def split: if_splits option.splits)

definition frame_ok ::
  "(archive_frame \<Rightarrow> bytes option) \<Rightarrow> (bytes \<Rightarrow> archive_frame option) \<Rightarrow> archive_frame \<Rightarrow> bool" where
  "frame_ok ser de f =
     (case ser f of None \<Rightarrow> False | Some p \<Rightarrow> length p < 2 ^ 32 \<and> de p = Some f)"

definition frame_put :: "(archive_frame \<Rightarrow> bytes option) \<Rightarrow> archive_frame \<Rightarrow> bytes" where
  "frame_put ser f = (case write_frame ser f of Some bs \<Rightarrow> bs | None \<Rightarrow> [])"

definition frame_get ::
  "(bytes \<Rightarrow> archive_frame option) \<Rightarrow> bytes \<Rightarrow> (archive_frame \<times> bytes) option" where
  "frame_get de bs =
     (case read_frame de \<lparr>rd_bytes = bs, rd_fails = False\<rparr> of
        Inr (Some (f, r)) \<Rightarrow> Some (f, rd_bytes r) | _ \<Rightarrow> None)"

lemma read_frame_put:
  "frame_ok ser de f \<Longrightarrow>
   read_frame de \<lparr>rd_bytes = frame_put ser f @ rest, rd_fails = b\<rparr> =
   Inr (Some (f, \<lparr>rd_bytes = rest, rd_fails = b\<rparr>))"
  by (auto simp: frame_ok_def frame_put_def write_frame_def read_frame_def Let_def
      split: option.splits)

interpretation archive_framing: framing "frame_put ser" "frame_get de" "frame_ok ser de" for ser de
proof unfold_locales
  show "frame_ok ser de f \<Longrightarrow> frame_get de (frame_put ser f @ rest) = Some (f, rest)" for f rest
    by (simp add: frame_get_def read_frame_put)
  show "frame_ok ser de f \<Longrightarrow> frame_put ser f \<noteq> []" for f
    by (auto simp: frame_ok_def frame_put_def write_frame_def split: option.splits
        dest!: arg_cong [where f = length])
qed

text \<open>
  Any sequence of frames written one after another reads back as exactly that sequence and
  leaves whatever follows on the stream, for every serializer that reads back what it writes and
  stays under the 4 GiB the length field can hold; so two different frame sequences never
  produce the same bytes.
\<close>

theorem archive_frames_roundtrip:
  assumes "\<forall>f \<in> set fs. frame_ok ser de f" "\<forall>g \<in> set gs. frame_ok ser de g"
  shows "get_many (frame_get de) (length fs) (concat (map (frame_put ser) fs) @ rest) = Some (fs, rest) \<and>
    (concat (map (frame_put ser) fs) = concat (map (frame_put ser) gs) \<longrightarrow> fs = gs)"
  using archive_framing.get_many_concat [OF assms(1)]
    archive_framing.concat_unambiguous [OF assms] by blast

definition sample_ser :: "archive_frame \<Rightarrow> bytes option" where
  "sample_ser f = (case f of FFileEnd \<Rightarrow> Some [4] | FFileChunk bs \<Rightarrow> Some (3 # bs) | _ \<Rightarrow> None)"

definition sample_de :: "bytes \<Rightarrow> archive_frame option" where
  "sample_de bs = (if bs = [4] then Some FFileEnd
     else if bs \<noteq> [] \<and> hd bs = 3 then Some (FFileChunk (tl bs)) else None)"

lemma archive_frames_roundtrip_witness:
  "get_many (frame_get sample_de) (length [FFileChunk [7, 8], FFileEnd])
     (concat (map (frame_put sample_ser) [FFileChunk [7, 8], FFileEnd]) @ [9]) =
   Some ([FFileChunk [7, 8], FFileEnd], [9])"
  by (rule archive_frames_roundtrip [where gs = "[]", THEN conjunct1])
    (simp_all add: frame_ok_def sample_ser_def sample_de_def)

text \<open>
  A stream cut inside a frame's payload is an error; one cut inside a length field reads as the
  end of the archive.
\<close>

lemma read_frame_truncated_payload:
  "4 \<le> length (rd_bytes r) \<Longrightarrow> length (rd_bytes r) < 4 + of_be (take 4 (rd_bytes r)) \<Longrightarrow>
   read_frame de r = Inl Arch_Io"
  by (auto simp: read_frame_def Let_def)

lemma read_frame_truncated_header:
  "length (rd_bytes r) < 4 \<Longrightarrow> \<not> rd_fails r \<Longrightarrow> read_frame de r = Inr None"
  by (simp add: read_frame_def)

section \<open>The manifest identifier\<close>

definition id_entry_ok :: "(string \<Rightarrow> string) \<Rightarrow> manifest_entry \<Rightarrow> bool" where
  "id_entry_ok lossy e \<longleftrightarrow> lossy (me_path e) = me_path e \<and> length (me_path e) < 2 ^ 64 \<and>
     (case me_blake3 e of Some h \<Rightarrow> length h = 32 | None \<Rightarrow> True)"

lemma entry_kind_tag_inject: "entry_kind_tag a = entry_kind_tag b \<longleftrightarrow> a = b"
  by (cases a; cases b) auto

lemma compression_tag_inject: "compression_tag a = compression_tag b \<longleftrightarrow> a = b"
  by (cases a; cases b) auto

lemma id_entry_prefix_free:
  assumes ok: "id_entry_ok lossy e" "id_entry_ok lossy e'"
    and eq: "manifest_id_entry lossy e @ r = manifest_id_entry lossy e' @ r'"
  shows "e = e' \<and> r = r'"
proof -
  from eq ok have kind: "me_kind e = me_kind e'"
    by (simp add: manifest_id_entry_def entry_kind_tag_inject)
  from eq ok have tail: "be_bytes 8 (length (me_path e)) @ str_bytes (me_path e) @
        be_bytes 8 (unat (me_size e)) @ (case me_blake3 e of Some h \<Rightarrow> 1 # h | None \<Rightarrow> [0]) @ r =
      be_bytes 8 (length (me_path e')) @ str_bytes (me_path e') @
        be_bytes 8 (unat (me_size e')) @ (case me_blake3 e' of Some h \<Rightarrow> 1 # h | None \<Rightarrow> [0]) @ r'"
    by (simp add: manifest_id_entry_def id_entry_ok_def)
  then have "be_bytes 8 (length (me_path e)) = be_bytes 8 (length (me_path e'))"
    by (simp add: append_eq_append_conv del: be_bytes.simps)
  then have len: "length (me_path e) = length (me_path e')"
    using ok be_bytes_inject [of _ 8] by (simp add: id_entry_ok_def del: be_bytes.simps)
  with tail have path: "me_path e = me_path e'" and tail2:
      "be_bytes 8 (unat (me_size e)) @ (case me_blake3 e of Some h \<Rightarrow> 1 # h | None \<Rightarrow> [0]) @ r =
       be_bytes 8 (unat (me_size e')) @ (case me_blake3 e' of Some h \<Rightarrow> 1 # h | None \<Rightarrow> [0]) @ r'"
    by (simp_all add: append_eq_append_conv del: be_bytes.simps)
  then have "be_bytes 8 (unat (me_size e)) = be_bytes 8 (unat (me_size e'))"
    by (simp add: append_eq_append_conv del: be_bytes.simps)
  then have sz: "me_size e = me_size e'"
    using be_bytes_inject [of "unat (me_size e)" 8 "unat (me_size e')"]
      unsigned_less [of "me_size e", where ?'a = nat] unsigned_less [of "me_size e'", where ?'a = nat]
    by (simp add: word_unat_eq_iff del: be_bytes.simps)
  with tail2 have
      "(case me_blake3 e of Some h \<Rightarrow> 1 # h | None \<Rightarrow> [0]) @ r =
       (case me_blake3 e' of Some h \<Rightarrow> 1 # h | None \<Rightarrow> [0]) @ r'"
    by simp
  with ok have "me_blake3 e = me_blake3 e' \<and> r = r'"
    by (auto simp: id_entry_ok_def split: option.splits)
  with kind path sz show ?thesis by simp
qed

lemma manifest_id_entry_nonempty: "manifest_id_entry lossy e \<noteq> []"
  by (simp add: manifest_id_entry_def)

text \<open>
  The manifest identifier commits to the manifest: the bytes hashed for it determine the
  compression and every entry (path, kind, size and hash, in order), for UTF-8 paths; so two
  manifests share an identifier only where the truncated hash itself collides.
\<close>

theorem manifest_id_input_injective:
  assumes "\<forall>e \<in> set es. id_entry_ok lossy e" "\<forall>e \<in> set es'. id_entry_ok lossy e"
    and "manifest_id_input lossy c es = manifest_id_input lossy c' es'"
  shows "c = c' \<and> es = es'"
proof
  from assms(3) show "c = c'" by (simp add: manifest_id_input_def compression_tag_inject)
  from assms(3) have "concat (map (manifest_id_entry lossy) es) = concat (map (manifest_id_entry lossy) es')"
    by (simp add: manifest_id_input_def)
  with assms(1,2) show "es = es'"
  proof (induction es arbitrary: es')
    case Nil
    then show ?case by (cases es') (simp_all add: manifest_id_entry_nonempty)
  next
    case (Cons e es)
    note eq = Cons.prems(3)
    have "es' \<noteq> []"
      using eq manifest_id_entry_nonempty [of lossy e] by (cases "es' = []") simp_all
    then obtain e' es1 where es': "es' = e' # es1"
      by (cases es') simp_all
    have both: "e = e' \<and>
        concat (map (manifest_id_entry lossy) es) = concat (map (manifest_id_entry lossy) es1)"
    proof (rule id_entry_prefix_free)
      show "id_entry_ok lossy e" "id_entry_ok lossy e'" using Cons.prems(1,2) es' by simp_all
      show "manifest_id_entry lossy e @ concat (map (manifest_id_entry lossy) es) =
          manifest_id_entry lossy e' @ concat (map (manifest_id_entry lossy) es1)"
        using eq es' by simp
    qed
    have "es = es1"
      by (rule Cons.IH) (use Cons.prems(1,2) es' both in simp_all)
    with both es' show ?case by simp
  qed
qed

lemma manifest_id_input_injective_witness:
  "Zstd = Zstd \<and> [entry_directory ''d''] = [entry_directory ''d'']"
  by (rule manifest_id_input_injective [where lossy = id])
    (simp_all add: id_entry_ok_def entry_directory_def)

end
