(* ===== verification/Archive_Unpack.thy ===== *)
theory Archive_Unpack
  imports Archive_Format
begin

text \<open>
  The receiving half of \<open>peerline-transfer/src/archive.rs\<close>: \<open>unpack_raw_archive\<close> and what it
  calls. The loop's variables are a record (the file system, the manifest entries not yet
  seen, the file being written); a failed step returns the error with the file system as it
  was then. The temporary file of the active entry has a fresh random name in the destination
  and is removed when it is dropped, so it is the record's content, and \<open>persist\<close> writes it
  to its place. BLAKE3 is a parameter. The hash map keyed by paths is an association list
  keyed by components, as Rust compares paths.
\<close>

record active_file =
  af_relative :: string
  af_content :: bytes
  af_expected_size :: u64
  af_expected_hash :: bytes
  af_bytes_written :: u64

type_synonym entry_map = "(path \<times> manifest_entry) list"

record unpack_state =
  us_fs :: fs
  us_remaining :: entry_map
  us_current :: "active_file option"

type_synonym 'a unpack_result = "(archive_error \<times> fs) + 'a"

fun validate_manifest_entries :: "manifest_entry list \<Rightarrow> archive_error + unit" where
  "validate_manifest_entries [] = Inr ()"
| "validate_manifest_entries (e # es) =
     (case validate_relative_path (me_path e) of
        Inl pe \<Rightarrow> Inl (Arch_BadPath pe)
      | Inr _ \<Rightarrow>
          if me_kind e = EntryFile \<and> me_blake3 e = None then Inl Arch_FileWithoutHash
          else if me_kind e = EntryDirectory \<and> (me_blake3 e \<noteq> None \<or> me_size e \<noteq> 0)
            then Inl Arch_DirectoryWithMetadata
          else validate_manifest_entries es)"

fun collect_entries :: "entry_map \<Rightarrow> manifest_entry list \<Rightarrow> archive_error + entry_map" where
  "collect_entries m [] = Inr m"
| "collect_entries m (e # es) =
     (if map_of m (components (me_path e)) \<noteq> None then Inl Arch_DuplicateEntry
      else collect_entries ((components (me_path e), e) # m) es)"

definition expected_manifest_entries :: "manifest \<Rightarrow> archive_error + entry_map" where
  "expected_manifest_entries mf = collect_entries [] (mf_entries mf)"

definition expected_manifest_entry ::
  "entry_map \<Rightarrow> string \<Rightarrow> entry_kind \<Rightarrow> archive_error + manifest_entry" where
  "expected_manifest_entry m p kind =
     (case map_of m (components p) of
        None \<Rightarrow> Inl Arch_UnexpectedEntry
      | Some e \<Rightarrow> if me_kind e \<noteq> kind then Inl Arch_KindMismatch else Inr e)"

definition drop_entry :: "path \<Rightarrow> entry_map \<Rightarrow> entry_map" where
  "drop_entry k m = filter (\<lambda>x. fst x \<noteq> k) m"

definition take_expected_manifest_entry ::
  "entry_map \<Rightarrow> string \<Rightarrow> entry_kind \<Rightarrow> archive_error + (manifest_entry \<times> entry_map)" where
  "take_expected_manifest_entry m p kind =
     (case map_of m (components p) of
        None \<Rightarrow> Inl Arch_UnexpectedEntry
      | Some e \<Rightarrow>
          if me_kind e \<noteq> kind then Inl Arch_KindMismatch
          else Inr (e, drop_entry (components p) m))"

definition step_directory :: "string \<Rightarrow> string \<Rightarrow> unpack_state \<Rightarrow> unpack_state unpack_result" where
  "step_directory dest p s =
     (case take_expected_manifest_entry (us_remaining s) p EntryDirectory of
        Inl e \<Rightarrow> Inl (e, us_fs s)
      | Inr (entry, remaining) \<Rightarrow>
          if me_size entry \<noteq> 0 \<or> me_blake3 entry \<noteq> None
            then Inl (Arch_DirectoryWithMetadata, us_fs s)
          else case safe_join_relative dest p of
            Inl pe \<Rightarrow> Inl (Arch_BadPath pe, us_fs s)
          | Inr full \<Rightarrow>
              (case create_dir_all (components full) (us_fs s) of
                 Inl _ \<Rightarrow> Inl (Arch_Io, us_fs s)
               | Inr fs' \<Rightarrow> Inr (s\<lparr>us_fs := fs', us_remaining := remaining\<rparr>)))"

definition step_file_start ::
  "string \<Rightarrow> string \<Rightarrow> u64 \<Rightarrow> bytes \<Rightarrow> unpack_state \<Rightarrow> unpack_state unpack_result" where
  "step_file_start dest p sz hash s =
     (if us_current s \<noteq> None then Inl (Arch_NestedFile, us_fs s)
      else case expected_manifest_entry (us_remaining s) p EntryFile of
        Inl e \<Rightarrow> Inl (e, us_fs s)
      | Inr entry \<Rightarrow>
          if me_size entry \<noteq> sz \<or> me_blake3 entry \<noteq> Some hash
            then Inl (Arch_MetadataMismatch, us_fs s)
          else case create_dir_all (components dest) (us_fs s) of
            Inl _ \<Rightarrow> Inl (Arch_Io, us_fs s)
          | Inr fs' \<Rightarrow>
              Inr (s\<lparr>us_fs := fs',
                us_current := Some \<lparr>af_relative = p, af_content = [], af_expected_size = sz,
                  af_expected_hash = hash, af_bytes_written = 0\<rparr>\<rparr>))"

definition step_file_chunk :: "bytes \<Rightarrow> unpack_state \<Rightarrow> unpack_state unpack_result" where
  "step_file_chunk bs s =
     (case us_current s of
        None \<Rightarrow> Inl (Arch_ChunkWithoutStart, us_fs s)
      | Some a \<Rightarrow>
          let written = af_bytes_written a + of_nat (length bs) in
          if af_expected_size a < written then Inl (Arch_FileTooLarge, us_fs s)
          else Inr (s\<lparr>us_current :=
            Some (a\<lparr>af_content := af_content a @ bs, af_bytes_written := written\<rparr>)\<rparr>))"

definition step_file_end ::
  "(bytes \<Rightarrow> bytes) \<Rightarrow> string \<Rightarrow> bool \<Rightarrow> unpack_state \<Rightarrow> unpack_state unpack_result" where
  "step_file_end blake3 dest overwrite s =
     (case us_current s of
        None \<Rightarrow> Inl (Arch_EndWithoutStart, us_fs s)
      | Some a \<Rightarrow>
          if af_bytes_written a \<noteq> af_expected_size a then Inl (Arch_SizeMismatch, us_fs s)
          else if blake3 (af_content a) \<noteq> af_expected_hash a then Inl (Arch_HashMismatch, us_fs s)
          else case safe_join_relative dest (af_relative a) of
            Inl pe \<Rightarrow> Inl (Arch_BadPath pe, us_fs s)
          | Inr full \<Rightarrow>
              (let p = (if overwrite then components full
                        else non_overwriting_path (components full) (us_fs s)) in
               case (case path_parent p of
                       None \<Rightarrow> Inr (us_fs s) | Some d \<Rightarrow> create_dir_all d (us_fs s)) of
                 Inl _ \<Rightarrow> Inl (Arch_Io, us_fs s)
               | Inr fs1 \<Rightarrow>
                   (case write_file p (af_content a) fs1 of
                      Inl _ \<Rightarrow> Inl (Arch_Io, fs1)
                    | Inr fs2 \<Rightarrow>
                        if map_of (us_remaining s) (components (af_relative a)) = None
                          then Inl (Arch_AlreadyConsumed, fs2)
                        else Inr (s\<lparr>us_fs := fs2, us_current := None,
                          us_remaining := drop_entry (components (af_relative a)) (us_remaining s)\<rparr>))))"

fun unpack_step ::
  "(bytes \<Rightarrow> bytes) \<Rightarrow> string \<Rightarrow> bool \<Rightarrow> archive_frame \<Rightarrow> unpack_state \<Rightarrow> unpack_state unpack_result" where
  "unpack_step blake3 dest ow (FManifest mf) s = Inl (Arch_DuplicateManifest, us_fs s)"
| "unpack_step blake3 dest ow (FDirectory p) s = step_directory dest p s"
| "unpack_step blake3 dest ow (FFileStart p sz hash) s = step_file_start dest p sz hash s"
| "unpack_step blake3 dest ow (FFileChunk bs) s = step_file_chunk bs s"
| "unpack_step blake3 dest ow FFileEnd s = step_file_end blake3 dest ow s"

function unpack_loop ::
  "(bytes \<Rightarrow> archive_frame option) \<Rightarrow> (bytes \<Rightarrow> bytes) \<Rightarrow> string \<Rightarrow> bool \<Rightarrow> reader \<Rightarrow> unpack_state \<Rightarrow>
   unpack_state unpack_result" where
  "unpack_loop de blake3 dest ow r s =
     (case read_frame de r of
        Inl e \<Rightarrow> Inl (e, us_fs s)
      | Inr None \<Rightarrow> Inr s
      | Inr (Some (f, r')) \<Rightarrow>
          (case unpack_step blake3 dest ow f s of
             Inl e \<Rightarrow> Inl e
           | Inr s' \<Rightarrow> unpack_loop de blake3 dest ow r' s'))"
  by pat_completeness auto
termination
  by (relation "measure (\<lambda>(de, blake3, dest, ow, r, s). length (rd_bytes r))")
    (auto dest: read_frame_progress)

declare unpack_loop.simps [simp del]

definition unpack_raw_archive ::
  "(bytes \<Rightarrow> archive_frame option) \<Rightarrow> (bytes \<Rightarrow> bytes) \<Rightarrow> string \<Rightarrow> bool \<Rightarrow> reader \<Rightarrow> fs \<Rightarrow>
   fs \<times> (archive_error + manifest)" where
  "unpack_raw_archive de blake3 dest ow r fs =
     (case read_frame de r of
        Inl e \<Rightarrow> (fs, Inl e)
      | Inr None \<Rightarrow> (fs, Inl Arch_NoManifest)
      | Inr (Some (FManifest mf, r')) \<Rightarrow>
          (case and_then (validate_manifest_entries (mf_entries mf))
                  (\<lambda>_. expected_manifest_entries mf) of
             Inl e \<Rightarrow> (fs, Inl e)
           | Inr expected \<Rightarrow>
               (case unpack_loop de blake3 dest ow r'
                       \<lparr>us_fs = fs, us_remaining = expected, us_current = None\<rparr> of
                  Inl (e, fs') \<Rightarrow> (fs', Inl e)
                | Inr s \<Rightarrow>
                    (us_fs s,
                     if us_current s \<noteq> None then Inl Arch_EndedInsideFile
                     else if us_remaining s \<noteq> [] then Inl Arch_MissingEntries
                     else Inr mf)))
      | Inr (Some _) \<Rightarrow> (fs, Inl Arch_NotManifestFirst))"

text \<open>
  \<open>unpack_archive_from_reader\<close>: the zstd decoder streams (a parameter from reader to reader);
  the LZMA decoder fills a temporary file in the destination first.
\<close>

definition unpack_archive_from_reader ::
  "(reader \<Rightarrow> reader) \<Rightarrow> (reader \<Rightarrow> bytes option) \<Rightarrow> (bytes \<Rightarrow> archive_frame option) \<Rightarrow> (bytes \<Rightarrow> bytes) \<Rightarrow>
   string \<Rightarrow> compression \<Rightarrow> reader \<Rightarrow> bool \<Rightarrow> fs \<Rightarrow> fs \<times> (archive_error + manifest)" where
  "unpack_archive_from_reader zstd lzma de blake3 dest c r ow fs =
     (case c of
        CompressNone \<Rightarrow> unpack_raw_archive de blake3 dest ow r fs
      | Zstd \<Rightarrow> unpack_raw_archive de blake3 dest ow (zstd r) fs
      | Auto \<Rightarrow> unpack_raw_archive de blake3 dest ow (zstd r) fs
      | Lzma \<Rightarrow>
          (case create_dir_all (components dest) fs of
             Inl _ \<Rightarrow> (fs, Inl Arch_Io)
           | Inr fs1 \<Rightarrow>
               (case lzma r of
                  None \<Rightarrow> (fs1, Inl Arch_Io)
                | Some bs \<Rightarrow>
                    unpack_raw_archive de blake3 dest ow \<lparr>rd_bytes = bs, rd_fails = False\<rparr> fs1)))"

definition unpack_archive ::
  "(reader \<Rightarrow> reader) \<Rightarrow> (reader \<Rightarrow> bytes option) \<Rightarrow> (bytes \<Rightarrow> archive_frame option) \<Rightarrow> (bytes \<Rightarrow> bytes) \<Rightarrow>
   string \<Rightarrow> compression \<Rightarrow> bytes \<Rightarrow> bool \<Rightarrow> fs \<Rightarrow> fs \<times> (archive_error + manifest)" where
  "unpack_archive zstd lzma de blake3 dest c bs ow fs =
     unpack_archive_from_reader zstd lzma de blake3 dest c \<lparr>rd_bytes = bs, rd_fails = False\<rparr> ow fs"

section \<open>A loop invariant rule\<close>

fun result_fs :: "unpack_state unpack_result \<Rightarrow> fs" where
  "result_fs (Inl (e, fs)) = fs"
| "result_fs (Inr s) = us_fs s"

lemma unpack_loop_inv:
  assumes step: "\<And>f s. I s \<Longrightarrow>
      (case unpack_step blake3 dest ow f s of Inl (e, fs) \<Rightarrow> J fs | Inr s' \<Rightarrow> I s')"
    and fin: "\<And>s. I s \<Longrightarrow> J (us_fs s)"
    and start: "I s"
  shows "J (result_fs (unpack_loop de blake3 dest ow r s)) \<and>
    (\<forall>s'. unpack_loop de blake3 dest ow r s = Inr s' \<longrightarrow> I s')"
  using start
proof (induction "length (rd_bytes r)" arbitrary: r s rule: less_induct)
  case less
  consider (err) e where "read_frame de r = Inl e" | (eof) "read_frame de r = Inr None"
    | (frame) f r' where "read_frame de r = Inr (Some (f, r'))"
    by (cases "read_frame de r") (auto split: option.splits, metis not_None_eq surj_pair)
  then show ?case
  proof cases
    case err
    with less.prems fin show ?thesis by (simp add: unpack_loop.simps [of de blake3 dest ow r])
  next
    case eof
    with less.prems fin show ?thesis by (simp add: unpack_loop.simps [of de blake3 dest ow r])
  next
    case frame
    show ?thesis
    proof (cases "unpack_step blake3 dest ow f s")
      case (Inl e)
      with frame step [OF less.prems, of f] show ?thesis
        by (cases e) (simp add: unpack_loop.simps [of de blake3 dest ow r])
    next
      case (Inr s')
      with step [OF less.prems, of f] have "I s'" by simp
      with less.hyps [OF read_frame_progress [OF frame] this] frame Inr show ?thesis
        by (simp add: unpack_loop.simps [of de blake3 dest ow r])
    qed
  qed
qed

end
