(* ===== verification/Scan.thy ===== *)
theory Scan
  imports Archive_Unpack
begin

text \<open>
  \<open>peerline-transfer/src/scan.rs\<close>: from the paths a user names to the sorted list of entries
  to send. What a path names on the sender's disk is a \<open>tree\<close>; the lookup of a path
  (\<open>symlink_metadata\<close>) and \<open>canonicalize\<close> are arguments. \<open>WalkDir\<close> yields a directory before
  its children and the children in the order of their names. Reading a file a second time, as
  \<open>hash_file\<close> does after \<open>metadata\<close>, sees the same content here.
\<close>

datatype tree = TFile bytes | TDir "(string \<times> tree) list" | TSymlink | TOther

record source_entry =
  se_source_path :: string
  se_relative_path :: string
  se_manifest_entry :: manifest_entry

definition scan_file :: "(bytes \<Rightarrow> bytes) \<Rightarrow> string \<Rightarrow> string \<Rightarrow> bytes \<Rightarrow> source_entry" where
  "scan_file blake3 p rel content =
     \<lparr>se_source_path = p, se_relative_path = rel,
      se_manifest_entry = entry_file rel (of_nat (length content)) (blake3 content)\<rparr>"

definition scan_dir_entry :: "string \<Rightarrow> string \<Rightarrow> source_entry" where
  "scan_dir_entry p rel =
     \<lparr>se_source_path = p, se_relative_path = rel, se_manifest_entry = entry_directory rel\<rparr>"

fun sequence_results :: "('e + 'a list) list \<Rightarrow> 'e + 'a list" where
  "sequence_results [] = Inr []"
| "sequence_results (r # rs) = and_then r (\<lambda>xs. and_then (sequence_results rs) (\<lambda>ys. Inr (xs @ ys)))"

fun scan_tree ::
  "(bytes \<Rightarrow> bytes) \<Rightarrow> string \<Rightarrow> string \<Rightarrow> tree \<Rightarrow> archive_error + source_entry list" where
  "scan_tree blake3 p rel (TFile content) = Inr [scan_file blake3 p rel content]"
| "scan_tree blake3 p rel (TDir children) =
     and_then
       (sequence_results (map snd (sort_key fst
          (map (\<lambda>(n, t). (n, scan_tree blake3 (path_join p n) (path_join rel n) t)) children))))
       (\<lambda>es. Inr (scan_dir_entry p rel # es))"
| "scan_tree blake3 p rel TSymlink = Inl Arch_Symlink"
| "scan_tree blake3 p rel TOther = Inl Arch_Unsupported"

definition transfer_base_name :: "(string \<Rightarrow> string option) \<Rightarrow> string \<Rightarrow> archive_error + string" where
  "transfer_base_name canonicalize p =
     (case file_name (components p) of
        Some n \<Rightarrow> Inr n
      | None \<Rightarrow>
          and_then (ok_or (canonicalize p) Arch_Io)
            (\<lambda>c. ok_or (file_name (components c)) Arch_NoBaseName))"

definition scan_source ::
  "(bytes \<Rightarrow> bytes) \<Rightarrow> (string \<Rightarrow> tree option) \<Rightarrow> (string \<Rightarrow> string option) \<Rightarrow> string \<Rightarrow>
   archive_error + source_entry list" where
  "scan_source blake3 lookup canonicalize p =
     (case lookup p of
        None \<Rightarrow> Inl Arch_Io
      | Some TSymlink \<Rightarrow> Inl Arch_Symlink
      | Some (TDir cs) \<Rightarrow>
          and_then (transfer_base_name canonicalize p) (\<lambda>n. scan_tree blake3 p n (TDir cs))
      | Some (TFile content) \<Rightarrow>
          and_then (ok_or (file_name (components p)) Arch_NoBaseName)
            (\<lambda>n. Inr [scan_file blake3 p n content])
      | Some TOther \<Rightarrow> Inr [])"

definition scan_sources ::
  "(bytes \<Rightarrow> bytes) \<Rightarrow> (string \<Rightarrow> tree option) \<Rightarrow> (string \<Rightarrow> string option) \<Rightarrow> string list \<Rightarrow>
   archive_error + source_entry list" where
  "scan_sources blake3 lookup canonicalize paths =
     and_then (sequence_results (map (scan_source blake3 lookup canonicalize) paths))
       (\<lambda>es. Inr (sort_key (\<lambda>e. components (se_relative_path e)) es))"

section \<open>Every scanned entry is one the receiver accepts\<close>

text \<open>The names an operating system can hold in a directory.\<close>

definition legal_name :: "string \<Rightarrow> bool" where
  "legal_name n \<longleftrightarrow> n \<noteq> [] \<and> n \<noteq> ''.'' \<and> n \<noteq> ''..'' \<and> CHR ''/'' \<notin> set n"

fun legal_tree :: "tree \<Rightarrow> bool" where
  "legal_tree (TDir children) = list_all (\<lambda>(n, t). legal_name n \<and> legal_tree t) children"
| "legal_tree _ = True"

definition entry_sound :: "(bytes \<Rightarrow> bytes) \<Rightarrow> source_entry \<Rightarrow> bool" where
  "entry_sound blake3 e \<longleftrightarrow>
     me_path (se_manifest_entry e) = se_relative_path e \<and>
     validate_relative_path (se_relative_path e) = Inr () \<and>
     (se_manifest_entry e = entry_directory (se_relative_path e) \<or>
      (\<exists>content. se_manifest_entry e =
         entry_file (se_relative_path e) (of_nat (length content)) (blake3 content)))"

lemma legal_name_split: "legal_name n \<Longrightarrow> split_on is_sep n = [n]"
  by (rule split_on_none) (auto simp: legal_name_def is_sep_def)

lemma legal_name_valid: "legal_name n \<Longrightarrow> validate_relative_path n = Inr ()"
  by (simp add: validate_relative_path_Inr legal_name_split plain_segments_def)
    (auto simp: legal_name_def absolute_split)

lemma valid_join:
  assumes "validate_relative_path p = Inr ()" "legal_name n"
  shows "validate_relative_path (path_join p n) = Inr ()"
    and "components (path_join p n) = components p @ [Normal n]"
proof -
  have p: "p \<noteq> []" "\<not> is_absolute p" "plain_segments (split_on is_sep p)"
    using assms(1) by (simp_all add: validate_relative_path_Inr)
  have n: "\<not> is_absolute n" "plain_segments [n]"
    using assms(2) by (auto simp: legal_name_def absolute_split plain_segments_def)
  have "\<not> ends_with ''/'' p"
  proof
    assume "ends_with ''/'' p"
    then obtain q where "split_on is_sep p = split_on is_sep q @ [[]]"
      using split_on_sep_last by blast
    with p(3) show False by (simp add: plain_segments_def)
  qed
  then have j: "path_join p n = p @ CHR ''/'' # n"
    using n(1) p(1) by (simp add: path_join_def)
  have "\<not> is_absolute (p @ CHR ''/'' # n)"
    using p(1,2) by (cases p) (auto simp: is_absolute_def starts_with_def)
  then show "validate_relative_path (path_join p n) = Inr ()"
    using p(3) n(2) by (simp add: validate_relative_path_Inr j legal_name_split [OF assms(2)]
        plain_segments_def ball_Un)
  show "components (path_join p n) = components p @ [Normal n]"
    using components_join [OF legal_name_valid [OF assms(2)]]
      validate_components [OF legal_name_valid [OF assms(2)]]
    by (simp add: legal_name_split [OF assms(2)])
qed

lemma sequence_results_mem:
  "sequence_results rs = Inr xs \<Longrightarrow> x \<in> set xs \<Longrightarrow> \<exists>ys. Inr ys \<in> set rs \<and> x \<in> set ys"
proof (induction rs arbitrary: xs)
  case Nil
  then show ?case by simp
next
  case (Cons r rs)
  then obtain ys zs where "r = Inr ys" "sequence_results rs = Inr zs" "xs = ys @ zs"
    by (auto simp: result_simps)
  with Cons.IH [of zs] Cons.prems(2) show ?case by auto
qed

lemma scan_tree_sound:
  "scan_tree blake3 p rel t = Inr es \<Longrightarrow> legal_tree t \<Longrightarrow> validate_relative_path rel = Inr () \<Longrightarrow>
   e \<in> set es \<Longrightarrow> entry_sound blake3 e"
proof (induction t arbitrary: p rel es e rule: tree.induct)
  case (TDir children)
  let ?rs = "map snd (sort_key fst
      (map (\<lambda>(n, t). (n, scan_tree blake3 (path_join p n) (path_join rel n) t)) children))"
  from TDir.prems(1) obtain ys where ys: "sequence_results ?rs = Inr ys" "es = scan_dir_entry p rel # ys"
    by (auto simp: result_simps)
  show ?case
  proof (cases "e \<in> set ys")
    case True
    from sequence_results_mem [OF ys(1) True] obtain zs where
        zs: "Inr zs \<in> set ?rs" "e \<in> set zs" by blast
    from zs(1) obtain n t where nt: "(n, t) \<in> set children"
        "scan_tree blake3 (path_join p n) (path_join rel n) t = Inr zs"
      by (auto simp: eq_commute [of "Inr zs"])
    with TDir.prems(2) have "legal_name n" "legal_tree t" by (auto simp: list_all_iff)
    then show ?thesis
      using TDir.IH [OF nt(1) _ nt(2)] valid_join(1) [OF TDir.prems(3)] zs(2)
      by (simp add: snds.simps)
  next
    case False
    with TDir.prems ys show ?thesis
      by (simp add: scan_dir_entry_def entry_sound_def entry_directory_def)
  qed
qed (auto simp: scan_file_def entry_sound_def entry_file_def)

lemma components_normal_legal:
  assumes "Normal n \<in> set (components p)"
  shows "legal_name n"
proof -
  have "n \<in> set (split_on is_sep p)"
    using assms by (auto simp: components_def List.map_filter_def seg_component.simps split: if_splits)
  then have "CHR ''/'' \<notin> set n"
    using split_on_no_sep [of "CHR ''/''" n is_sep p] by (auto simp: is_sep_def)
  moreover have "n \<noteq> []" "n \<noteq> ''.''" "n \<noteq> ''..''"
    using assms by (auto simp: components_def List.map_filter_def seg_component.simps split: if_splits)
  ultimately show ?thesis by (simp add: legal_name_def)
qed

lemma file_name_legal: "file_name (components p) = Some n \<Longrightarrow> legal_name n"
proof -
  assume "file_name (components p) = Some n"
  then have "components p \<noteq> []" "last (components p) = Normal n"
    by (auto simp: file_name_def split: if_splits component.splits)
  then have "Normal n \<in> set (components p)" by (metis last_in_set)
  then show ?thesis by (rule components_normal_legal)
qed

lemma scan_source_sound:
  assumes "scan_source blake3 lookup canonicalize p = Inr es" "\<And>t. lookup p = Some t \<Longrightarrow> legal_tree t"
    and "e \<in> set es"
  shows "entry_sound blake3 e"
proof -
  have base: "transfer_base_name canonicalize p = Inr n \<Longrightarrow> validate_relative_path n = Inr ()" for n
    by (auto simp: transfer_base_name_def result_simps split: option.splits
        intro!: legal_name_valid intro: file_name_legal)
  have name: "file_name (components p) = Some n \<Longrightarrow> validate_relative_path n = Inr ()" for n
    by (intro legal_name_valid file_name_legal)
  from assms(1) consider "es = []"
    | n content where "file_name (components p) = Some n" "es = [scan_file blake3 p n content]"
    | n cs where "lookup p = Some (TDir cs)" "transfer_base_name canonicalize p = Inr n"
        "scan_tree blake3 p n (TDir cs) = Inr es"
    by (auto simp: scan_source_def result_simps split: option.splits tree.splits)
  then show ?thesis
  proof cases
    case 3
    then show ?thesis using scan_tree_sound [OF 3(3) _ base [OF 3(2)] assms(3)] assms(2) by blast
  qed (use assms(3) name in \<open>auto simp: scan_file_def entry_sound_def entry_file_def\<close>)
qed

lemma scan_sources_sound:
  assumes "scan_sources blake3 lookup canonicalize paths = Inr es"
    and "\<And>p t. lookup p = Some t \<Longrightarrow> legal_tree t" "e \<in> set es"
  shows "entry_sound blake3 e"
proof -
  from assms(1) obtain xs where xs: "sequence_results (map (scan_source blake3 lookup canonicalize) paths) = Inr xs"
      "es = sort_key (\<lambda>e. components (se_relative_path e)) xs"
    by (auto simp: scan_sources_def result_simps)
  with assms(3) sequence_results_mem [OF xs(1), of e] obtain p ys where
      "scan_source blake3 lookup canonicalize p = Inr ys" "e \<in> set ys"
    by (auto simp: eq_commute [of "Inr _"])
  then show ?thesis using scan_source_sound assms(2) by blast
qed

lemma entry_sound_validates:
  "\<forall>e \<in> set es. entry_sound blake3 e \<Longrightarrow> validate_manifest_entries (map se_manifest_entry es) = Inr ()"
  by (induction es) (auto simp: entry_sound_def entry_directory_def entry_file_def)

text \<open>
  Whatever the user sends, the manifest entries of a successful scan are sorted by path and
  pass the receiver's own validation: every path is a plain relative one, every file entry
  carries its hash and no directory entry carries metadata.
\<close>

theorem scan_passes_receiver_validation:
  assumes "scan_sources blake3 lookup canonicalize paths = Inr es"
    and "\<And>p t. lookup p = Some t \<Longrightarrow> legal_tree t"
  shows "validate_manifest_entries (map se_manifest_entry es) = Inr () \<and>
    sorted (map (\<lambda>e. components (se_relative_path e)) es)"
proof
  show "validate_manifest_entries (map se_manifest_entry es) = Inr ()"
  proof (rule entry_sound_validates)
    show "\<forall>e \<in> set es. entry_sound blake3 e"
      using scan_sources_sound [OF assms(1)] assms(2) by blast
  qed
  show "sorted (map (\<lambda>e. components (se_relative_path e)) es)"
    using assms(1) by (auto simp: scan_sources_def result_simps)
qed

definition sample_lookup :: "string \<Rightarrow> tree option" where
  "sample_lookup p = (if p = ''/h/d'' then Some (TDir [(''b'', TFile [1]), (''a'', TFile [2])]) else None)"

lemma sample_scan:
  "scan_sources id sample_lookup (\<lambda>_. None) [''/h/d''] = Inr
     [scan_dir_entry ''/h/d'' ''d'', scan_file id ''/h/d/a'' ''d/a'' [2], scan_file id ''/h/d/b'' ''d/b'' [1]]"
  by code_simp

lemma scan_passes_receiver_validation_witness:
  "validate_manifest_entries (map se_manifest_entry
     [scan_dir_entry ''/h/d'' ''d'', scan_file id ''/h/d/a'' ''d/a'' [2], scan_file id ''/h/d/b'' ''d/b'' [1]]) =
     Inr () \<and>
   sorted (map (\<lambda>e. components (se_relative_path e))
     [scan_dir_entry ''/h/d'' ''d'', scan_file id ''/h/d/a'' ''d/a'' [2], scan_file id ''/h/d/b'' ''d/b'' [1]])"
  by (rule scan_passes_receiver_validation [OF sample_scan])
    (auto simp: sample_lookup_def legal_name_def split: if_splits)

end
