(* ===== verification/Unpack_Safety.thy ===== *)
theory Unpack_Safety
  imports Archive_Unpack
begin

text \<open>
  Safety of unpacking: which paths any run, successful or not, may change, and what an
  accepted archive has put on disk.
\<close>

section \<open>What unpacking may touch\<close>

text \<open>
  From one file system to the next, every path is unchanged, or is a new directory on the way
  to the destination or below it, or is a file written strictly below the destination: a new
  one, or (when overwriting) one whose path is in \<open>P\<close>, and never in place of a directory.
\<close>

definition touches :: "path \<Rightarrow> bool \<Rightarrow> path set \<Rightarrow> fs \<Rightarrow> fs \<Rightarrow> bool" where
  "touches D ow P fs fs' \<longleftrightarrow> (\<forall>q.
     map_of fs' q = map_of fs q \<or>
     map_of fs q = None \<and> map_of fs' q = Some DirN \<and> (path_prefix D q \<or> path_prefix q D) \<or>
     path_prefix D q \<and> q \<noteq> D \<and> map_of fs q \<noteq> Some DirN \<and> (\<exists>b. map_of fs' q = Some (FileN b)) \<and>
       (if ow then q \<in> P else map_of fs q = None))"

lemma touches_refl [simp]: "touches D ow P fs fs"
  by (simp add: touches_def)

lemma touches_trans:
  assumes "touches D ow P fs fs'" "touches D ow P fs' fs''"
  shows "touches D ow P fs fs''"
  unfolding touches_def
proof
  fix q
  show "map_of fs'' q = map_of fs q \<or>
     map_of fs q = None \<and> map_of fs'' q = Some DirN \<and> (path_prefix D q \<or> path_prefix q D) \<or>
     path_prefix D q \<and> q \<noteq> D \<and> map_of fs q \<noteq> Some DirN \<and> (\<exists>b. map_of fs'' q = Some (FileN b)) \<and>
       (if ow then q \<in> P else map_of fs q = None)"
    using assms(1)[unfolded touches_def, rule_format, of q]
      assms(2)[unfolded touches_def, rule_format, of q]
    by (auto split: if_splits)
qed

lemma prefix_comparable: "path_prefix p r \<Longrightarrow> path_prefix q r \<Longrightarrow> path_prefix p q \<or> path_prefix q p"
  by (auto simp: path_prefix_iff append_eq_append_conv2)

lemma touches_create_dir_all:
  assumes "create_dir_all d fs = Inr fs'" "path_prefix D d"
  shows "touches D ow P fs fs'"
  unfolding touches_def
proof
  fix q
  have "map_of fs' q = map_of fs q \<or>
      map_of fs q = None \<and> map_of fs' q = Some DirN \<and> q \<noteq> [] \<and> path_prefix q d"
    using create_dir_all_effect [OF assms(1)] by blast
  moreover have "path_prefix q d \<Longrightarrow> path_prefix D q \<or> path_prefix q D"
    using prefix_comparable [OF assms(2)] by blast
  ultimately show "map_of fs' q = map_of fs q \<or>
     map_of fs q = None \<and> map_of fs' q = Some DirN \<and> (path_prefix D q \<or> path_prefix q D) \<or>
     path_prefix D q \<and> q \<noteq> D \<and> map_of fs q \<noteq> Some DirN \<and> (\<exists>b. map_of fs' q = Some (FileN b)) \<and>
       (if ow then q \<in> P else map_of fs q = None)"
    by argo
qed

lemma touches_write_file:
  assumes "write_file p b fs = Inr fs'" "path_prefix D p" "p \<noteq> D"
    and "if ow then p \<in> P else map_of fs p = None"
  shows "touches D ow P fs fs'"
  unfolding touches_def
proof
  fix q
  from assms(1) have w: "map_of fs p \<noteq> Some DirN" "fs' = fs_put p (FileN b) fs"
    by (simp_all add: write_file_Inr)
  show "map_of fs' q = map_of fs q \<or>
     map_of fs q = None \<and> map_of fs' q = Some DirN \<and> (path_prefix D q \<or> path_prefix q D) \<or>
     path_prefix D q \<and> q \<noteq> D \<and> map_of fs q \<noteq> Some DirN \<and> (\<exists>b. map_of fs' q = Some (FileN b)) \<and>
       (if ow then q \<in> P else map_of fs q = None)"
    using w assms(2-4) by (cases "q = p") simp_all
qed

text \<open>The place a finished file goes to.\<close>

lemma safe_join_place:
  assumes "safe_join_relative dest rel = Inr full"
  shows "components full = components dest @ components rel"
    and "components rel \<noteq> []" "file_name (components full) \<noteq> None"
proof -
  from assms have comp: "components rel = map Normal (split_on is_sep rel)"
    by (simp add: safe_join_Inr validate_components)
  then show full: "components full = components dest @ components rel" and "components rel \<noteq> []"
    using assms by (simp_all add: safe_join_components)
  then show "file_name (components full) \<noteq> None"
    by (simp add: comp file_name_def last_map)
qed

lemma target_below:
  assumes "file_name (D @ c) \<noteq> None" "c \<noteq> []"
    and "p = (if ow then D @ c else non_overwriting_path (D @ c) fs)"
  shows "path_prefix D p \<and> p \<noteq> D \<and> p \<noteq> [] \<and> path_prefix D (butlast p) \<and>
    path_parent p = Some (butlast p) \<and> butlast p = butlast (D @ c)"
proof -
  have "p \<noteq> [] \<and> butlast p = butlast (D @ c)"
    using assms non_overwriting_path_same_parent [OF assms(1), of fs] by auto
  moreover have "last p \<noteq> RootDir"
  proof (cases ow)
    case True
    then show ?thesis using assms by (auto simp: file_name_def)
  next
    case False
    then show ?thesis
      using assms by (auto simp: non_overwriting_path_def file_name_def Let_def)
  qed
  moreover have "butlast (D @ c) = D @ butlast c" using assms(2) by (simp add: butlast_append)
  moreover have "length p = Suc (length (butlast (D @ c)))"
    using calculation(1) by (metis length_butlast length_greater_0_conv Suc_pred')
  ultimately show ?thesis
    using assms(2)
    by (auto simp: path_parent_def path_prefix_iff)
      (metis append.assoc append_butlast_last_id)+
qed

lemma write_target_free:
  assumes "create_dir_all (butlast p) fs = Inr fs1" "p \<noteq> []" "map_of fs p = None"
  shows "map_of fs1 p = None"
proof -
  have "length (butlast p) < length p" using assms(2) by simp
  then have "\<not> path_prefix p (butlast p)" using path_prefix_length [of p "butlast p"] by linarith
  then show ?thesis using create_dir_all_keeps_other [OF assms(1)] assms(3) by simp
qed

lemma unpack_step_touches:
  assumes P: "\<And>a. us_current s = Some a \<Longrightarrow> components dest @ components (af_relative a) \<in> P"
  shows "touches (components dest) ow P (us_fs s) (result_fs (unpack_step blake3 dest ow f s))"
proof (cases f)
  case (FDirectory p)
  then show ?thesis
    by (auto simp: step_directory_def safe_join_place
        split: sum.splits prod.splits intro: touches_create_dir_all)
next
  case (FFileStart p sz hash)
  then show ?thesis
    by (auto simp: step_file_start_def split: sum.splits intro: touches_create_dir_all)
next
  case (FFileChunk bs)
  then show ?thesis
    by (auto simp: step_file_chunk_def Let_def split: option.splits)
next
  case FFileEnd
  show ?thesis
  proof (cases "\<exists>a full. us_current s = Some a \<and> safe_join_relative dest (af_relative a) = Inr full")
    case False
    with FFileEnd show ?thesis
      by (auto simp: step_file_end_def split: option.splits sum.splits)
  next
    case True
    then obtain a full where a: "us_current s = Some a"
      and full: "safe_join_relative dest (af_relative a) = Inr full" by blast
    let ?D = "components dest" and ?c = "components (af_relative a)"
    define p where "p = (if ow then components full else non_overwriting_path (components full) (us_fs s))"
    note place = safe_join_place [OF full]
    have tb: "path_prefix ?D p \<and> p \<noteq> ?D \<and> p \<noteq> [] \<and> path_prefix ?D (butlast p) \<and>
        path_parent p = Some (butlast p)"
      using target_below [of ?D ?c p ow "us_fs s"] place(2,3) unfolding p_def place(1) by blast
    have free: "\<not> ow \<Longrightarrow> map_of (us_fs s) p = None"
      using non_overwriting_path_free [of "components full" "us_fs s"]
      by (simp add: p_def fs_exists_def)
    have w: "touches ?D ow P (us_fs s) fs2"
      if "create_dir_all (butlast p) (us_fs s) = Inr fs1" "write_file p (af_content a) fs1 = Inr fs2"
      for fs1 fs2
    proof (rule touches_trans)
      show "touches ?D ow P (us_fs s) fs1"
        using that(1) tb by (auto intro: touches_create_dir_all)
      show "touches ?D ow P fs1 fs2"
        by (rule touches_write_file [OF that(2)])
          (use tb free write_target_free [OF that(1)] P [OF a] place in \<open>auto simp: p_def\<close>)
    qed
    have d: "create_dir_all (butlast p) (us_fs s) = Inr fs1 \<Longrightarrow> touches ?D ow P (us_fs s) fs1" for fs1
      using tb by (auto intro: touches_create_dir_all)
    show ?thesis
      using FFileEnd a full tb w d
      by (auto simp: step_file_end_def Let_def p_def [symmetric] split: sum.splits option.splits)
  qed
qed simp

lemma unpack_loop_touches:
  "touches (components dest) ow UNIV (us_fs s) (result_fs (unpack_loop de blake3 dest ow r s))"
proof -
  let ?T = "touches (components dest) ow UNIV (us_fs s)"
  have "?T (result_fs (unpack_loop de blake3 dest ow r s)) \<and>
    (\<forall>s'. unpack_loop de blake3 dest ow r s = Inr s' \<longrightarrow> ?T (us_fs s'))"
  proof (rule unpack_loop_inv)
    fix f and s1 :: unpack_state
    assume "?T (us_fs s1)"
    then have "?T (result_fs (unpack_step blake3 dest ow f s1))"
      by (rule touches_trans) (rule unpack_step_touches, simp)
    then show "case unpack_step blake3 dest ow f s1 of Inl (e, fs) \<Rightarrow> ?T fs | Inr s' \<Rightarrow> ?T (us_fs s')"
      by (auto split: sum.splits)
  qed simp_all
  then show ?thesis by blast
qed

lemma unpack_raw_touches:
  "touches (components dest) ow UNIV fs (fst (unpack_raw_archive de blake3 dest ow r fs))"
proof -
  have loop: "unpack_loop de blake3 dest ow r' \<lparr>us_fs = fs, us_remaining = m, us_current = None\<rparr> = res \<Longrightarrow>
      touches (components dest) ow UNIV fs (result_fs res)" for r' m res
    using unpack_loop_touches [of dest ow "\<lparr>us_fs = fs, us_remaining = m, us_current = None\<rparr>" de blake3 r']
    by auto
  show ?thesis
    by (auto simp: unpack_raw_archive_def split: sum.splits option.splits archive_frame.splits
        dest!: loop)
qed

lemma unpack_touches:
  "touches (components dest) ow UNIV fs
     (fst (unpack_archive_from_reader zstd lzma de blake3 dest c r ow fs))"
proof -
  have "touches (components dest) ow UNIV fs
      (fst (unpack_raw_archive de blake3 dest ow r1 fs1))"
    if "create_dir_all (components dest) fs = Inr fs1" for r1 fs1
    using touches_create_dir_all [OF that] unpack_raw_touches by (rule touches_trans) simp
  then show ?thesis
    by (auto simp: unpack_archive_from_reader_def unpack_raw_touches
        intro: touches_create_dir_all split: compression.splits sum.splits option.splits)
qed

text \<open>
  C2. Whatever archive is unpacked, well-formed or hostile, accepted or rejected half way,
  nothing outside the destination changes: a path not below the destination has the same
  entry afterwards, or is a missing directory on the way to the destination, now created.
\<close>

theorem unpack_confined_to_destination:
  assumes "unpack_archive_from_reader zstd lzma de blake3 dest c r ow fs = (fs', res)"
    and "\<not> path_prefix (components dest) q"
  shows "map_of fs' q = map_of fs q \<or>
    map_of fs q = None \<and> map_of fs' q = Some DirN \<and> path_prefix q (components dest)"
  using unpack_touches [of dest ow fs zstd lzma de blake3 c r] assms
  unfolding touches_def by auto

lemma unpack_confined_to_destination_witness:
  "map_of (fst (unpack_archive_from_reader id (\<lambda>_. None) sample_de id ''in'' Lzma
      \<lparr>rd_bytes = [], rd_fails = False\<rparr> True [([Normal ''a''], FileN [1])])) [Normal ''etc''] = map_of [([Normal ''a''], FileN [1])] [Normal ''etc''] \<or>
   map_of [([Normal ''a''], FileN [1])] [Normal ''etc''] = None \<and>
   map_of (fst (unpack_archive_from_reader id (\<lambda>_. None) sample_de id ''in'' Lzma
      \<lparr>rd_bytes = [], rd_fails = False\<rparr> True [([Normal ''a''], FileN [1])])) [Normal ''etc''] = Some DirN \<and>
   path_prefix [Normal ''etc''] (components ''in'')"
  by (rule unpack_confined_to_destination [OF prod.collapse [symmetric]])
    (simp add: components_def is_sep_def is_absolute_def starts_with_def seg_component.simps)

text \<open>
  C37. Without the overwrite flag no existing file is modified, replaced or removed and no
  directory disappears, whatever the archive holds and however unpacking ends.
\<close>

theorem unpack_without_overwrite_preserves:
  assumes "unpack_archive_from_reader zstd lzma de blake3 dest c r False fs = (fs', res)"
    and "map_of fs q = Some n"
  shows "map_of fs' q = Some n"
  using unpack_touches [of dest False fs zstd lzma de blake3 c r] assms
  unfolding touches_def by (metis fst_conv option.distinct(1))

lemma unpack_without_overwrite_preserves_witness:
  "map_of (fst (unpack_archive_from_reader id (\<lambda>_. None) sample_de id ''in'' Lzma
      \<lparr>rd_bytes = [], rd_fails = False\<rparr> False [([Normal ''a''], FileN [1])])) [Normal ''a''] =
   Some (FileN [1])"
  by (rule unpack_without_overwrite_preserves [OF prod.collapse [symmetric]]) simp

section \<open>What an accepted archive has put on disk\<close>

definition entries_wf :: "manifest \<Rightarrow> entry_map \<Rightarrow> bool" where
  "entries_wf mf m \<longleftrightarrow> distinct (map fst m) \<and>
     (\<forall>(k, e) \<in> set m. e \<in> set (mf_entries mf) \<and> k = components (me_path e))"

definition entries_unique :: "manifest \<Rightarrow> bool" where
  "entries_unique mf \<longleftrightarrow> inj_on (\<lambda>e. components (me_path e)) (set (mf_entries mf))"

definition active_wf :: "entry_map \<Rightarrow> active_file option \<Rightarrow> bool" where
  "active_wf m cur = (case cur of None \<Rightarrow> True | Some a \<Rightarrow>
     af_bytes_written a = of_nat (length (af_content a)) \<and>
     (case map_of m (components (af_relative a)) of None \<Rightarrow> False | Some e \<Rightarrow>
        me_kind e = EntryFile \<and> me_size e = af_expected_size a \<and>
        me_blake3 e = Some (af_expected_hash a)))"

text \<open>
  An entry has landed when its directory exists, or when a file in its directory holds
  content of the size and hash the manifest gives: under its own name when overwriting,
  otherwise under a name that was free before.
\<close>

definition landed :: "(bytes \<Rightarrow> bytes) \<Rightarrow> path \<Rightarrow> bool \<Rightarrow> fs \<Rightarrow> fs \<Rightarrow> manifest_entry \<Rightarrow> bool" where
  "landed blake3 D ow fs0 fs e \<longleftrightarrow>
     (case me_kind e of
        EntryDirectory \<Rightarrow> is_dir (D @ components (me_path e)) fs
      | EntryFile \<Rightarrow> (\<exists>q b. map_of fs q = Some (FileN b) \<and>
          butlast q = butlast (D @ components (me_path e)) \<and>
          (if ow then q = D @ components (me_path e) else map_of fs0 q = None) \<and>
          of_nat (length b) = me_size e \<and> me_blake3 e = Some (blake3 b)))"

definition unpack_inv ::
  "(bytes \<Rightarrow> bytes) \<Rightarrow> string \<Rightarrow> bool \<Rightarrow> manifest \<Rightarrow> fs \<Rightarrow> unpack_state \<Rightarrow> bool" where
  "unpack_inv blake3 dest ow mf fs0 s \<longleftrightarrow>
     entries_unique mf \<and> entries_wf mf (us_remaining s) \<and> active_wf (us_remaining s) (us_current s) \<and>
     touches (components dest) ow UNIV fs0 (us_fs s) \<and>
     (\<forall>e \<in> set (mf_entries mf).
        map_of (us_remaining s) (components (me_path e)) = Some e \<or>
        landed blake3 (components dest) ow fs0 (us_fs s) e)"

lemma map_of_drop [simp]:
  "map_of (drop_entry k m) k' = (if k' = k then None else map_of m k')"
  unfolding drop_entry_def by (induction m) auto

lemma entries_wf_drop: "entries_wf mf m \<Longrightarrow> entries_wf mf (drop_entry k m)"
  unfolding entries_wf_def drop_entry_def
  by (auto simp: distinct_map_filter)

lemma entries_wf_lookup:
  "entries_wf mf m \<Longrightarrow> map_of m k = Some e \<Longrightarrow> e \<in> set (mf_entries mf) \<and> k = components (me_path e)"
  unfolding entries_wf_def by (auto dest!: map_of_SomeD)

lemma collect_entries_spec:
  "collect_entries m es = Inr m' \<Longrightarrow> set es \<subseteq> set (mf_entries mf) \<Longrightarrow> entries_wf mf m \<Longrightarrow>
   entries_wf mf m' \<and> (\<forall>k e. map_of m k = Some e \<longrightarrow> map_of m' k = Some e) \<and>
   (\<forall>e \<in> set es. map_of m' (components (me_path e)) = Some e)"
proof (induction m es rule: collect_entries.induct)
  case (1 m)
  then show ?case by simp
next
  case (2 m e es)
  let ?m = "(components (me_path e), e) # m"
  from "2.prems"(1) have fresh: "map_of m (components (me_path e)) = None"
      and go: "collect_entries ?m es = Inr m'"
    by (simp_all split: if_splits)
  have wf: "entries_wf mf ?m"
    using "2.prems"(2,3) fresh by (auto simp: entries_wf_def map_of_eq_None_iff)
  have all: "entries_wf mf m' \<and> (\<forall>k e. map_of ?m k = Some e \<longrightarrow> map_of m' k = Some e) \<and>
      (\<forall>e \<in> set es. map_of m' (components (me_path e)) = Some e)"
    by (rule "2.IH") (use fresh go "2.prems"(2) wf in simp_all)
  note ih = all [THEN conjunct1] all [THEN conjunct2, THEN conjunct1]
    all [THEN conjunct2, THEN conjunct2]
  have "map_of m' k = Some e'" if "map_of m k = Some e'" for k e'
    using ih(2) [rule_format, of k e'] that fresh
    by (cases "k = components (me_path e)") simp_all
  moreover have "map_of m' (components (me_path e)) = Some e"
    using ih(2) by simp
  ultimately show ?case using ih by auto
qed

lemma landed_mono:
  assumes "landed blake3 D ow fs0 fs e"
    and "\<And>q b. map_of fs q = Some (FileN b) \<Longrightarrow>
      (if ow then q = D @ components (me_path e) else True) \<Longrightarrow> map_of fs' q = Some (FileN b)"
    and "\<And>q. map_of fs q = Some DirN \<Longrightarrow> map_of fs' q = Some DirN"
  shows "landed blake3 D ow fs0 fs' e"
proof (cases "me_kind e")
  case EntryDirectory
  then show ?thesis using assms(1,3) by (auto simp: landed_def is_dir_def)
next
  case EntryFile
  with assms(1) obtain q b where q: "map_of fs q = Some (FileN b)"
      "butlast q = butlast (D @ components (me_path e))"
      "if ow then q = D @ components (me_path e) else map_of fs0 q = None"
      "of_nat (length b) = me_size e \<and> me_blake3 e = Some (blake3 b)"
    by (auto simp: landed_def)
  then have "map_of fs' q = Some (FileN b)" by (intro assms(2)) (auto split: if_splits)
  with q show ?thesis
    unfolding landed_def EntryFile entry_kind.case by (intro exI [of _ q] exI [of _ b]) simp
qed

lemma landed_create_dir_all:
  assumes "landed blake3 D ow fs0 fs e" "create_dir_all d fs = Inr fs'"
  shows "landed blake3 D ow fs0 fs' e"
  using assms(1)
  by (rule landed_mono)
    (simp_all add: create_dir_all_keeps_file [OF assms(2)] create_dir_all_keeps_dir [OF assms(2)])

lemma landed_write_other:
  assumes "landed blake3 D ow fs0 fs e" "write_file p b fs = Inr fs'"
    and "if ow then p \<noteq> D @ components (me_path e) else map_of fs p = None"
  shows "landed blake3 D ow fs0 fs' e"
  using assms(1)
  by (rule landed_mono) (use assms(2,3) in \<open>auto simp: write_file_Inr split: if_splits\<close>)

lemma take_entry_Inr:
  "take_expected_manifest_entry m p k = Inr (e, m') \<longleftrightarrow>
   map_of m (components p) = Some e \<and> me_kind e = k \<and> m' = drop_entry (components p) m"
  by (auto simp: take_expected_manifest_entry_def split: option.splits)

lemma expected_entry_Inr:
  "expected_manifest_entry m p k = Inr e \<longleftrightarrow> map_of m (components p) = Some e \<and> me_kind e = k"
  by (auto simp: expected_manifest_entry_def split: option.splits)

lemma step_directory_Inr:
  "step_directory dest p s = Inr s' \<Longrightarrow> (\<exists>e fs1.
     map_of (us_remaining s) (components p) = Some e \<and> me_kind e = EntryDirectory \<and>
     me_size e = 0 \<and> me_blake3 e = None \<and> safe_join_relative dest p = Inr (path_join dest p) \<and>
     create_dir_all (components dest @ components p) (us_fs s) = Inr fs1 \<and>
     s' = s\<lparr>us_fs := fs1, us_remaining := drop_entry (components p) (us_remaining s)\<rparr>)"
  by (auto simp: step_directory_def take_entry_Inr safe_join_Inr components_join
      split: sum.splits prod.splits if_splits)

lemma unpack_inv_directory:
  assumes inv: "unpack_inv blake3 dest ow mf fs0 s" and step: "step_directory dest p s = Inr s'"
  shows "unpack_inv blake3 dest ow mf fs0 s'"
proof -
  let ?D = "components dest"
  from step obtain e fs1 where e: "map_of (us_remaining s) (components p) = Some e"
      "me_kind e = EntryDirectory" "create_dir_all (?D @ components p) (us_fs s) = Inr fs1"
      "s' = s\<lparr>us_fs := fs1, us_remaining := drop_entry (components p) (us_remaining s)\<rparr>"
    by (blast dest: step_directory_Inr)
  from inv have wf: "entries_wf mf (us_remaining s)" "active_wf (us_remaining s) (us_current s)"
      "touches ?D ow UNIV fs0 (us_fs s)"
      "\<forall>e \<in> set (mf_entries mf). map_of (us_remaining s) (components (me_path e)) = Some e \<or>
         landed blake3 ?D ow fs0 (us_fs s) e"
    by (simp_all add: unpack_inv_def)
  have "active_wf (us_remaining s') (us_current s')"
    using wf(2) e by (auto simp: active_wf_def split: option.splits)
  moreover have "touches ?D ow UNIV fs0 fs1"
    by (rule touches_trans [OF wf(3)]) (rule touches_create_dir_all [OF e(3)], simp)
  moreover have "landed blake3 ?D ow fs0 fs1 e"
    using create_dir_all_dir [OF e(3)] entries_wf_lookup [OF wf(1) e(1)] e(2)
    by (simp add: landed_def)
  ultimately show ?thesis
    using inv [unfolded unpack_inv_def, THEN conjunct1] wf e entries_wf_drop
      landed_create_dir_all [OF _ e(3)]
    unfolding unpack_inv_def by auto
qed

lemma unpack_inv_file_start:
  assumes inv: "unpack_inv blake3 dest ow mf fs0 s" and step: "step_file_start dest p sz hash s = Inr s'"
  shows "unpack_inv blake3 dest ow mf fs0 s'"
proof -
  let ?D = "components dest"
  from step obtain e fs1 where e: "map_of (us_remaining s) (components p) = Some e"
      "me_kind e = EntryFile" "me_size e = sz" "me_blake3 e = Some hash"
      "create_dir_all ?D (us_fs s) = Inr fs1"
      "s' = s\<lparr>us_fs := fs1, us_current := Some \<lparr>af_relative = p, af_content = [],
        af_expected_size = sz, af_expected_hash = hash, af_bytes_written = 0\<rparr>\<rparr>"
    by (auto simp: step_file_start_def expected_entry_Inr split: if_splits sum.splits)
  from inv have wf: "entries_wf mf (us_remaining s)" "touches ?D ow UNIV fs0 (us_fs s)"
      "\<forall>e \<in> set (mf_entries mf). map_of (us_remaining s) (components (me_path e)) = Some e \<or>
         landed blake3 ?D ow fs0 (us_fs s) e"
    by (simp_all add: unpack_inv_def)
  have "active_wf (us_remaining s') (us_current s')"
    using e by (simp add: active_wf_def)
  moreover have "touches ?D ow UNIV fs0 fs1"
    by (rule touches_trans [OF wf(2)]) (rule touches_create_dir_all [OF e(5)], simp)
  ultimately show ?thesis
    using inv [unfolded unpack_inv_def, THEN conjunct1] wf e(6) landed_create_dir_all [OF _ e(5)]
    unfolding unpack_inv_def by auto
qed

lemma unpack_inv_file_chunk:
  assumes inv: "unpack_inv blake3 dest ow mf fs0 s" and step: "step_file_chunk bs s = Inr s'"
  shows "unpack_inv blake3 dest ow mf fs0 s'"
proof -
  from step obtain a where a: "us_current s = Some a"
      "s' = s\<lparr>us_current := Some (a\<lparr>af_content := af_content a @ bs,
        af_bytes_written := af_bytes_written a + of_nat (length bs)\<rparr>)\<rparr>"
    by (auto simp: step_file_chunk_def Let_def split: option.splits if_splits)
  from inv a have "active_wf (us_remaining s') (us_current s')"
    by (auto simp: unpack_inv_def active_wf_def split: option.splits)
  with inv a show ?thesis by (simp add: unpack_inv_def)
qed

text \<open>The successful end of a file, with the place its content goes to.\<close>

definition file_target :: "string \<Rightarrow> bool \<Rightarrow> string \<Rightarrow> fs \<Rightarrow> path" where
  "file_target dest ow rel fs =
     (let full = components dest @ components rel
      in if ow then full else non_overwriting_path full fs)"

lemma file_target_below:
  assumes "safe_join_relative dest rel = Inr full" "p = file_target dest ow rel fs"
  shows "path_prefix (components dest) p" "p \<noteq> components dest" "p \<noteq> []"
    "path_prefix (components dest) (butlast p)" "path_parent p = Some (butlast p)"
    "butlast p = butlast (components dest @ components rel)"
proof -
  note place = safe_join_place [OF assms(1)]
  have "p = (if ow then components dest @ components rel
      else non_overwriting_path (components dest @ components rel) fs)"
    by (simp add: assms(2) file_target_def Let_def)
  moreover have "file_name (components dest @ components rel) \<noteq> None"
    using place(1,3) by simp
  ultimately have t: "path_prefix (components dest) p \<and> p \<noteq> components dest \<and> p \<noteq> [] \<and>
      path_prefix (components dest) (butlast p) \<and> path_parent p = Some (butlast p) \<and>
      butlast p = butlast (components dest @ components rel)"
    using place(2) by (intro target_below)
  show "path_prefix (components dest) p" "p \<noteq> components dest" "p \<noteq> []"
    "path_prefix (components dest) (butlast p)" "path_parent p = Some (butlast p)"
    "butlast p = butlast (components dest @ components rel)"
    using t by blast+
qed

lemma step_file_end_Inr:
  assumes "step_file_end blake3 dest ow s = Inr s'"
  shows "\<exists>a fs1 fs2. us_current s = Some a \<and> af_bytes_written a = af_expected_size a \<and>
    blake3 (af_content a) = af_expected_hash a \<and>
    safe_join_relative dest (af_relative a) = Inr (path_join dest (af_relative a)) \<and>
    create_dir_all (butlast (file_target dest ow (af_relative a) (us_fs s))) (us_fs s) = Inr fs1 \<and>
    write_file (file_target dest ow (af_relative a) (us_fs s)) (af_content a) fs1 = Inr fs2 \<and>
    s' = s\<lparr>us_fs := fs2, us_current := None,
      us_remaining := drop_entry (components (af_relative a)) (us_remaining s)\<rparr>"
proof -
  from assms obtain a where a: "us_current s = Some a"
    by (cases "us_current s") (simp_all add: step_file_end_def)
  from assms a obtain full where full: "safe_join_relative dest (af_relative a) = Inr full"
    by (cases "safe_join_relative dest (af_relative a)") (simp_all add: step_file_end_def split: if_splits)
  let ?p = "file_target dest ow (af_relative a) (us_fs s)"
  note place = safe_join_place [OF full]
  have "path_parent ?p = Some (butlast ?p)"
    by (rule file_target_below(5) [OF full refl])
  moreover have "(if ow then components full else non_overwriting_path (components full) (us_fs s)) = ?p"
    by (simp add: file_target_def safe_join_place(1) [OF full] Let_def)
  ultimately show ?thesis
    using assms a full
    by (auto simp: step_file_end_def Let_def safe_join_Inr split: if_splits sum.splits)
qed

lemma unpack_inv_file_end:
  assumes inv: "unpack_inv blake3 dest ow mf fs0 s" and step: "step_file_end blake3 dest ow s = Inr s'"
  shows "unpack_inv blake3 dest ow mf fs0 s'"
proof -
  let ?D = "components dest"
  from step_file_end_Inr [OF step] obtain a fs1 fs2 where a: "us_current s = Some a"
      "af_bytes_written a = af_expected_size a" "blake3 (af_content a) = af_expected_hash a"
      and join: "safe_join_relative dest (af_relative a) = Inr (path_join dest (af_relative a))"
      and cd: "create_dir_all (butlast (file_target dest ow (af_relative a) (us_fs s))) (us_fs s) = Inr fs1"
      and w: "write_file (file_target dest ow (af_relative a) (us_fs s)) (af_content a) fs1 = Inr fs2"
      and s': "s' = s\<lparr>us_fs := fs2, us_current := None,
        us_remaining := drop_entry (components (af_relative a)) (us_remaining s)\<rparr>"
    by blast
  let ?c = "components (af_relative a)" and ?p = "file_target dest ow (af_relative a) (us_fs s)"
  from inv have wf: "entries_wf mf (us_remaining s)" "active_wf (us_remaining s) (us_current s)"
      "touches ?D ow UNIV fs0 (us_fs s)"
      "\<forall>e \<in> set (mf_entries mf). map_of (us_remaining s) (components (me_path e)) = Some e \<or>
         landed blake3 ?D ow fs0 (us_fs s) e"
      and unique: "entries_unique mf"
    by (simp_all add: unpack_inv_def)
  from wf(2) a obtain e where e: "map_of (us_remaining s) ?c = Some e" "me_kind e = EntryFile"
      "me_size e = of_nat (length (af_content a))" "me_blake3 e = Some (blake3 (af_content a))"
    by (auto simp: active_wf_def split: option.splits)
  have ce: "?c = components (me_path e)" using entries_wf_lookup [OF wf(1) e(1)] by simp
  note tb = file_target_below [OF join refl, of ow "us_fs s"]
  have free0: "map_of (us_fs s) ?p = None" if "\<not> ow"
    using that non_overwriting_path_free [of "?D @ ?c" "us_fs s"]
    by (simp add: file_target_def fs_exists_def Let_def)
  have free: "map_of fs1 ?p = None" if "\<not> ow"
    by (rule write_target_free [OF cd tb(3) free0 [OF that]])
  have fs01: "touches ?D ow UNIV fs0 fs1"
    by (rule touches_trans [OF wf(3)]) (rule touches_create_dir_all [OF cd tb(4)])
  have t: "touches ?D ow UNIV fs0 fs2"
    by (rule touches_trans [OF fs01], rule touches_write_file [OF w tb(1,2)]) (use free in simp)
  have new: "map_of fs0 ?p = None" if "\<not> ow"
    using fs01 [unfolded touches_def, rule_format, of ?p] free [OF that] by auto
  have landed_e: "landed blake3 ?D ow fs0 fs2 e"
    unfolding landed_def e(2) entry_kind.case
    using w tb(6) new e(3,4) ce
    by (intro exI [of _ ?p] exI [of _ "af_content a"]) (simp add: write_file_Inr file_target_def Let_def)
  have "landed blake3 ?D ow fs0 fs2 e'"
    if e': "e' \<in> set (mf_entries mf)" "components (me_path e') \<noteq> ?c" "landed blake3 ?D ow fs0 (us_fs s) e'" for e'
    by (rule landed_write_other [OF landed_create_dir_all [OF e'(3) cd] w])
      (use e'(2) free in \<open>simp add: file_target_def Let_def\<close>)
  moreover have "e' = e" if "e' \<in> set (mf_entries mf)" "components (me_path e') = ?c" for e'
    using unique entries_wf_lookup [OF wf(1) e(1)] that by (simp add: entries_unique_def inj_on_def)
  ultimately have "\<forall>e' \<in> set (mf_entries mf).
      map_of (us_remaining s') (components (me_path e')) = Some e' \<or> landed blake3 ?D ow fs0 fs2 e'"
    using wf(4) landed_e by (auto simp: s')
  then show ?thesis
    using entries_wf_drop [OF wf(1)] t s' unique by (simp add: unpack_inv_def active_wf_def)
qed

lemma unpack_inv_step:
  "unpack_inv blake3 dest ow mf fs0 s \<Longrightarrow> unpack_step blake3 dest ow f s = Inr s' \<Longrightarrow>
   unpack_inv blake3 dest ow mf fs0 s'"
  by (cases f) (auto intro: unpack_inv_directory unpack_inv_file_start unpack_inv_file_chunk
      unpack_inv_file_end)

lemma unpack_loop_keeps_inv:
  assumes "unpack_inv blake3 dest ow mf fs0 s" "unpack_loop de blake3 dest ow r s = Inr s'"
  shows "unpack_inv blake3 dest ow mf fs0 s'"
proof -
  have "True \<and> (\<forall>s'. unpack_loop de blake3 dest ow r s = Inr s' \<longrightarrow> unpack_inv blake3 dest ow mf fs0 s')"
  proof (rule unpack_loop_inv)
    fix f s1
    assume "unpack_inv blake3 dest ow mf fs0 s1"
    then show "case unpack_step blake3 dest ow f s1 of Inl (e, fs) \<Rightarrow> True
        | Inr s' \<Rightarrow> unpack_inv blake3 dest ow mf fs0 s'"
      by (auto split: sum.splits dest: unpack_inv_step)
  qed (use assms(1) in simp_all)
  with assms(2) show ?thesis by blast
qed

lemma unpack_inv_start:
  assumes "expected_manifest_entries mf = Inr m"
  shows "unpack_inv blake3 dest ow mf fs \<lparr>us_fs = fs, us_remaining = m, us_current = None\<rparr>"
proof -
  have spec: "entries_wf mf m" "\<forall>e \<in> set (mf_entries mf). map_of m (components (me_path e)) = Some e"
    using collect_entries_spec [of "[]" "mf_entries mf" m mf] assms
    by (simp_all add: expected_manifest_entries_def entries_wf_def)
  then have "entries_unique mf"
    by (auto simp: entries_unique_def inj_on_def) (metis option.inject)
  with spec show ?thesis by (simp add: unpack_inv_def active_wf_def)
qed

lemma unpack_raw_landed:
  assumes "unpack_raw_archive de blake3 dest ow r fs = (fs', Inr mf)"
  shows "entries_unique mf \<and> validate_manifest_entries (mf_entries mf) = Inr () \<and>
    (\<forall>e \<in> set (mf_entries mf). landed blake3 (components dest) ow fs fs' e)"
proof -
  from assms obtain r' m s where raw: "read_frame de r = Inr (Some (FManifest mf, r'))"
      "validate_manifest_entries (mf_entries mf) = Inr ()" "expected_manifest_entries mf = Inr m"
      "unpack_loop de blake3 dest ow r' \<lparr>us_fs = fs, us_remaining = m, us_current = None\<rparr> = Inr s"
      "us_remaining s = []" "fs' = us_fs s"
    by (auto simp: unpack_raw_archive_def result_simps
        split: sum.splits option.splits archive_frame.splits if_splits)
  have "unpack_inv blake3 dest ow mf fs s"
    by (rule unpack_loop_keeps_inv [OF unpack_inv_start [OF raw(3)] raw(4)])
  with raw show ?thesis by (simp add: unpack_inv_def)
qed

lemma landed_before_dirs:
  assumes "create_dir_all d fs = Inr fs1" "landed blake3 D ow fs1 fs' e"
  shows "landed blake3 D ow fs fs' e"
proof -
  have "map_of fs1 q = None \<Longrightarrow> map_of fs q = None" for q
    using create_dir_all_effect [OF assms(1)] by (metis option.distinct(1))
  with assms(2) show ?thesis
    by (cases ow) (auto simp: landed_def split: entry_kind.splits)
qed

text \<open>
  C3. An archive is accepted only if the disk shows all of it: on success every entry of the
  manifest has landed. Each directory exists, and each file's directory holds a file whose
  content has the size and the BLAKE3 hash the manifest gives, under the manifest's own name
  when overwriting and otherwise under a name that was free before. The accepted manifest
  names no path twice and passes validation. It holds for any bytes, serializer and
  decompressor.
\<close>

theorem unpack_success_delivers_manifest:
  assumes "unpack_archive_from_reader zstd lzma de blake3 dest c r ow fs = (fs', Inr mf)"
  shows "entries_unique mf \<and> validate_manifest_entries (mf_entries mf) = Inr () \<and>
    (\<forall>e \<in> set (mf_entries mf). landed blake3 (components dest) ow fs fs' e)"
proof -
  from assms obtain r1 fs1 where "fs1 = fs \<or> create_dir_all (components dest) fs = Inr fs1"
      and raw: "unpack_raw_archive de blake3 dest ow r1 fs1 = (fs', Inr mf)"
    by (auto simp: unpack_archive_from_reader_def split: compression.splits sum.splits option.splits)
  then show ?thesis
    using unpack_raw_landed [OF raw] landed_before_dirs by blast
qed

definition sample_manifest :: manifest where
  "sample_manifest = manifest_with_id (TransferId []) CompressNone [entry_file ''a'' 1 [7]]"

definition sample_decoder :: "bytes \<Rightarrow> archive_frame option" where
  "sample_decoder bs =
     (if bs = [1] then Some (FManifest sample_manifest)
      else if bs = [2] then Some (FFileStart ''a'' 1 [7])
      else if bs = [3] then Some (FFileChunk [7])
      else if bs = [4] then Some FFileEnd else None)"

definition sample_stream :: reader where
  "sample_stream = \<lparr>rd_bytes = [0, 0, 0, 1, 1, 0, 0, 0, 1, 2, 0, 0, 0, 1, 3, 0, 0, 0, 1, 4],
     rd_fails = False\<rparr>"

lemma sample_unpacks:
  "unpack_archive_from_reader id (\<lambda>_. None) sample_decoder id ''in'' CompressNone sample_stream False [] =
   ([([Normal ''in'', Normal ''a''], FileN [7]), ([Normal ''in''], DirN)], Inr sample_manifest)"
  by code_simp

lemma unpack_success_delivers_manifest_witness:
  "entries_unique sample_manifest \<and>
   validate_manifest_entries (mf_entries sample_manifest) = Inr () \<and>
   landed id (components ''in'') False []
     [([Normal ''in'', Normal ''a''], FileN [7]), ([Normal ''in''], DirN)] (entry_file ''a'' 1 [7])"
  using unpack_success_delivers_manifest [OF sample_unpacks]
  by (simp add: sample_manifest_def manifest_with_id_def)

end
