(* ===== verification/Archive_Create.thy ===== *)
theory Archive_Create
  imports Scan Unpack_Safety
begin

text \<open>
  The sending half of \<open>peerline-transfer/src/archive.rs\<close>: \<open>create_archive\<close>, and the round
  trip with \<open>unpack_archive_from_reader\<close>. A temporary file is its content. The source files
  are read again when the body is written, through the argument \<open>read_source\<close>; a read fills
  the buffer except at the end of the file.
\<close>

definition archive_file_chunk_size :: nat where
  "archive_file_chunk_size = 64 * 1024"

record archive =
  ar_manifest :: manifest
  ar_compression :: compression
  ar_resource_id :: resource_id
  ar_file :: bytes
  ar_len :: nat

definition archive_is_empty :: "archive \<Rightarrow> bool" where
  "archive_is_empty a \<longleftrightarrow> ar_len a = 0"

function file_chunks :: "bytes \<Rightarrow> bytes list" where
  "file_chunks bs =
     (if bs = [] then [] else take archive_file_chunk_size bs # file_chunks (drop archive_file_chunk_size bs))"
  by pat_completeness auto
termination by (relation "measure length") (auto simp: archive_file_chunk_size_def)

declare file_chunks.simps [simp del]

definition source_frames ::
  "(string \<Rightarrow> bytes option) \<Rightarrow> source_entry \<Rightarrow> archive_error + archive_frame list" where
  "source_frames read_source e =
     (case me_kind (se_manifest_entry e) of
        EntryDirectory \<Rightarrow> Inr [FDirectory (se_relative_path e)]
      | EntryFile \<Rightarrow>
          and_then (ok_or (read_source (se_source_path e)) Arch_Io) (\<lambda>content.
          and_then (ok_or (me_blake3 (se_manifest_entry e)) Arch_FileWithoutHash) (\<lambda>hash.
            Inr (FFileStart (se_relative_path e) (me_size (se_manifest_entry e)) hash #
                 map FFileChunk (file_chunks content) @ [FFileEnd]))))"

fun write_frames ::
  "(archive_frame \<Rightarrow> bytes option) \<Rightarrow> archive_frame list \<Rightarrow> archive_error + bytes" where
  "write_frames ser [] = Inr []"
| "write_frames ser (f # fs) =
     and_then (ok_or (write_frame ser f) Arch_Serialize) (\<lambda>b.
     and_then (write_frames ser fs) (\<lambda>bs. Inr (b @ bs)))"

fun create_archive_body ::
  "(archive_frame \<Rightarrow> bytes option) \<Rightarrow> (string \<Rightarrow> bytes option) \<Rightarrow> source_entry list \<Rightarrow>
   archive_error + bytes" where
  "create_archive_body ser read_source [] = Inr []"
| "create_archive_body ser read_source (e # es) =
     and_then (source_frames read_source e) (\<lambda>fs.
     and_then (write_frames ser fs) (\<lambda>b.
     and_then (create_archive_body ser read_source es) (\<lambda>bs. Inr (b @ bs))))"

definition create_raw_archive ::
  "(archive_frame \<Rightarrow> bytes option) \<Rightarrow> manifest \<Rightarrow> bytes \<Rightarrow> archive_error + bytes" where
  "create_raw_archive ser mf body =
     and_then (ok_or (write_frame ser (FManifest mf)) Arch_Serialize) (\<lambda>b. Inr (b @ body))"

definition compress_raw_archive :: "codecs \<Rightarrow> compression \<Rightarrow> bytes \<Rightarrow> archive_error + bytes" where
  "compress_raw_archive cs c raw =
     (case c of
        CompressNone \<Rightarrow> Inr raw
      | Zstd \<Rightarrow> ok_or (zstd_encode cs raw) Arch_Io
      | Auto \<Rightarrow> ok_or (zstd_encode cs raw) Arch_Io
      | Lzma \<Rightarrow> ok_or (lzma_encode cs raw) Arch_Io)"

text \<open>
  \<open>create_archive\<close>, after the scan: the manifest is first sized with the requested compression
  and a random identifier, then carries the resolved compression and its own identifier.
\<close>

definition create_archive_from ::
  "(archive_frame \<Rightarrow> bytes option) \<Rightarrow> codecs \<Rightarrow> (bytes \<Rightarrow> bytes) \<Rightarrow> (string \<Rightarrow> string) \<Rightarrow>
   (string \<Rightarrow> bytes option) \<Rightarrow> transfer_id \<Rightarrow> source_entry list \<Rightarrow> compression \<Rightarrow>
   archive_error + archive" where
  "create_archive_from ser cs blake3 lossy read_source rand sources c =
     (let entries = map se_manifest_entry sources;
          draft = manifest_with_id rand c entries
      in and_then (create_archive_body ser read_source sources) (\<lambda>body.
         and_then (ok_or (archive_frame_len ser (FManifest draft)) Arch_Serialize) (\<lambda>mlen.
           let actual = resolved_compression_for_size c (of_nat (mlen + length body));
               mf = draft\<lparr>mf_compression := actual,
                 mf_id := deterministic_manifest_id blake3 lossy actual entries\<rparr>
           in and_then (create_raw_archive ser mf body) (\<lambda>raw.
              and_then (compress_raw_archive cs actual raw) (\<lambda>file.
              and_then (resource_id_for_reader blake3 \<lparr>rd_bytes = file, rd_fails = False\<rparr>) (\<lambda>rid.
                Inr \<lparr>ar_manifest = mf, ar_compression = actual, ar_resource_id = rid,
                  ar_file = file, ar_len = length file\<rparr>))))))"

definition create_archive ::
  "(archive_frame \<Rightarrow> bytes option) \<Rightarrow> codecs \<Rightarrow> (bytes \<Rightarrow> bytes) \<Rightarrow> (string \<Rightarrow> string) \<Rightarrow>
   (string \<Rightarrow> tree option) \<Rightarrow> (string \<Rightarrow> string option) \<Rightarrow>
   (string \<Rightarrow> bytes option) \<Rightarrow> transfer_id \<Rightarrow> string list \<Rightarrow> compression \<Rightarrow> archive_error + archive" where
  "create_archive ser cs blake3 lossy lookup canonicalize read_source rand paths c =
     and_then (scan_sources blake3 lookup canonicalize paths)
       (\<lambda>sources. create_archive_from ser cs blake3 lossy read_source rand sources c)"

section \<open>What the archive holds\<close>

lemma concat_file_chunks: "concat (file_chunks bs) = bs"
  by (induction bs rule: file_chunks.induct) (subst file_chunks.simps, auto)

lemma file_chunks_bound: "\<forall>c \<in> set (file_chunks bs). c \<noteq> [] \<and> length c \<le> archive_file_chunk_size"
  by (induction bs rule: file_chunks.induct)
    (subst file_chunks.simps, auto simp: archive_file_chunk_size_def)

fun all_frames :: "(string \<Rightarrow> bytes option) \<Rightarrow> source_entry list \<Rightarrow> archive_error + archive_frame list" where
  "all_frames read_source [] = Inr []"
| "all_frames read_source (e # es) =
     and_then (source_frames read_source e) (\<lambda>fs.
     and_then (all_frames read_source es) (\<lambda>gs. Inr (fs @ gs)))"

lemma write_frames_Inr:
  "write_frames ser fs = Inr bs \<Longrightarrow>
   bs = concat (map (frame_put ser) fs) \<and> (\<forall>f \<in> set fs. ser f \<noteq> None)"
  by (induction fs arbitrary: bs) (auto simp: result_simps frame_put_def write_frame_def split: option.splits)

lemma create_archive_body_Inr:
  "create_archive_body ser read_source es = Inr bs \<Longrightarrow>
   \<exists>fs. all_frames read_source es = Inr fs \<and> bs = concat (map (frame_put ser) fs) \<and>
     (\<forall>f \<in> set fs. ser f \<noteq> None)"
proof (induction es arbitrary: bs)
  case Nil
  then show ?case by simp
next
  case (Cons e es)
  from Cons.prems obtain fs b bs' where p: "source_frames read_source e = Inr fs"
      "write_frames ser fs = Inr b" "create_archive_body ser read_source es = Inr bs'" "bs = b @ bs'"
    by (auto simp: result_simps)
  from Cons.IH [OF p(3)] write_frames_Inr [OF p(2)] p show ?case by auto
qed

text \<open>
  A created archive is exactly the frames of its manifest followed by those of its sources
  in order, compressed by the codec the manifest names, which is never \<open>Auto\<close>; its resource
  identifier is the hash of these very bytes.
\<close>

theorem create_archive_content:
  assumes "create_archive_from ser cs blake3 lossy read_source rand sources c = Inr a"
  shows "\<exists>fs. all_frames read_source sources = Inr fs \<and>
    compress_raw_archive cs (ar_compression a)
      (concat (map (frame_put ser) (FManifest (ar_manifest a) # fs))) = Inr (ar_file a) \<and>
    (\<forall>f \<in> set (FManifest (ar_manifest a) # fs). ser f \<noteq> None) \<and>
    ar_compression a \<noteq> Auto \<and> mf_compression (ar_manifest a) = ar_compression a \<and>
    mf_entries (ar_manifest a) = map se_manifest_entry sources \<and>
    ar_resource_id a = ResourceId (blake3 (ar_file a)) \<and> ar_len a = length (ar_file a)"
proof -
  let ?entries = "map se_manifest_entry sources"
  from assms obtain body mlen raw where p:
      "create_archive_body ser read_source sources = Inr body"
      "create_raw_archive ser (ar_manifest a) body = Inr raw"
      "ar_compression a = resolved_compression_for_size c (of_nat (mlen + length body))"
      "compress_raw_archive cs (ar_compression a) raw = Inr (ar_file a)"
      "ar_resource_id a = ResourceId (blake3 (ar_file a))"
      "mf_entries (ar_manifest a) = ?entries" "mf_compression (ar_manifest a) = ar_compression a"
      "ar_len a = length (ar_file a)"
    by (auto simp: create_archive_from_def Let_def result_simps resource_id_for_reader_def
        manifest_with_id_def)
  from create_archive_body_Inr [OF p(1)] obtain fs where fs:
      "all_frames read_source sources = Inr fs" "body = concat (map (frame_put ser) fs)"
      "\<forall>f \<in> set fs. ser f \<noteq> None" by blast
  from p(2) have "raw = frame_put ser (FManifest (ar_manifest a)) @ body \<and>
      ser (FManifest (ar_manifest a)) \<noteq> None"
    by (auto simp: create_raw_archive_def result_simps frame_put_def write_frame_def split: option.splits)
  with p fs show ?thesis by (auto simp: resolved_not_auto)
qed

end
