(* ===== verification/Archive_Roundtrip.thy ===== *)
theory Archive_Roundtrip
  imports Archive_Create
begin

text \<open>
  Sender and receiver together: unpacking what \<open>create_archive\<close> produced into a fresh
  destination always succeeds and recreates every source.
\<close>

section \<open>Frames instead of bytes\<close>

fun unpack_frames ::
  "(bytes \<Rightarrow> bytes) \<Rightarrow> string \<Rightarrow> bool \<Rightarrow> archive_frame list \<Rightarrow> unpack_state \<Rightarrow> unpack_state unpack_result" where
  "unpack_frames blake3 dest ow [] s = Inr s"
| "unpack_frames blake3 dest ow (f # fs) s =
     (case unpack_step blake3 dest ow f s of
        Inl e \<Rightarrow> Inl e | Inr s' \<Rightarrow> unpack_frames blake3 dest ow fs s')"

lemma unpack_frames_append:
  "unpack_frames blake3 dest ow (fs @ gs) s =
   (case unpack_frames blake3 dest ow fs s of
      Inl e \<Rightarrow> Inl e | Inr s' \<Rightarrow> unpack_frames blake3 dest ow gs s')"
  by (induction fs arbitrary: s) (auto split: sum.splits)

lemma unpack_loop_frames:
  "\<forall>f \<in> set fs. frame_ok ser de f \<Longrightarrow>
   unpack_loop de blake3 dest ow \<lparr>rd_bytes = concat (map (frame_put ser) fs), rd_fails = False\<rparr> s =
   unpack_frames blake3 dest ow fs s"
proof (induction fs arbitrary: s)
  case Nil
  then show ?case by (simp add: unpack_loop.simps [of de] read_frame_def)
next
  case (Cons f fs)
  then have "read_frame de \<lparr>rd_bytes = concat (map (frame_put ser) (f # fs)), rd_fails = False\<rparr> =
      Inr (Some (f, \<lparr>rd_bytes = concat (map (frame_put ser) fs), rd_fails = False\<rparr>))"
    by (simp add: read_frame_put)
  with Cons show ?case
    by (subst unpack_loop.simps) (auto split: sum.splits)
qed

section \<open>Sources that fit a fresh destination\<close>

text \<open>
  The content a source entry stands for; the sources are faithful when every file reads as it
  did when it was scanned.
\<close>

definition source_faithful :: "(bytes \<Rightarrow> bytes) \<Rightarrow> (string \<Rightarrow> bytes option) \<Rightarrow> source_entry \<Rightarrow> bool" where
  "source_faithful blake3 read_source e \<longleftrightarrow>
     me_path (se_manifest_entry e) = se_relative_path e \<and>
     validate_relative_path (se_relative_path e) = Inr () \<and>
     (case read_source (se_source_path e) of
        None \<Rightarrow> se_manifest_entry e = entry_directory (se_relative_path e)
      | Some content \<Rightarrow> length content < 2 ^ 64 \<and>
          se_manifest_entry e =
            entry_file (se_relative_path e) (of_nat (length content)) (blake3 content))"

definition rel_comps :: "source_entry \<Rightarrow> path" where
  "rel_comps e = components (se_relative_path e)"

text \<open>No two sources have the same path and none lies below a file.\<close>

definition sources_compatible :: "(string \<Rightarrow> bytes option) \<Rightarrow> source_entry list \<Rightarrow> bool" where
  "sources_compatible read_source es \<longleftrightarrow> distinct (map rel_comps es) \<and>
     (\<forall>e \<in> set es. \<forall>e' \<in> set es. read_source (se_source_path e) \<noteq> None \<longrightarrow>
        path_prefix (rel_comps e) (rel_comps e') \<longrightarrow> rel_comps e = rel_comps e')"

text \<open>
  The paths that matter to a set of sources are those on the way to one of them; a destination
  is fresh for the sources when nothing is there yet except directories on the way to the
  destination itself. Anything else below the destination may exist.
\<close>

definition relevant :: "source_entry list \<Rightarrow> path \<Rightarrow> path \<Rightarrow> bool" where
  "relevant es D q \<longleftrightarrow> q \<noteq> [] \<and> (path_prefix q D \<or> (\<exists>e \<in> set es. path_prefix q (D @ rel_comps e)))"

definition fresh_destination :: "source_entry list \<Rightarrow> path \<Rightarrow> fs \<Rightarrow> bool" where
  "fresh_destination es D fs \<longleftrightarrow>
     (\<forall>q n. relevant es D q \<longrightarrow> map_of fs q = Some n \<longrightarrow> path_prefix q D \<and> n = DirN)"

lemma create_dir_all_ok:
  "(\<forall>q b. q \<noteq> [] \<longrightarrow> path_prefix q p \<longrightarrow> map_of fs q \<noteq> Some (FileN b)) \<Longrightarrow>
   \<exists>fs'. create_dir_all p fs = Inr fs'"
proof (induction p fs rule: create_dir_all.induct)
  case (1 p fs)
  show ?case
  proof (cases "p = [] \<or> map_of fs p \<noteq> None")
    case True
    with "1.prems" have "is_dir p fs"
      by (cases "map_of fs p") (auto simp: is_dir_def, metis node.exhaust path_prefix_refl)
    then show ?thesis by (simp add: create_dir_all_existing)
  next
    case False
    then have "path_prefix (butlast p) p"
      by (auto simp: path_prefix_iff) (metis append_butlast_last_id)
    with "1.prems" have "\<forall>q b. q \<noteq> [] \<longrightarrow> path_prefix q (butlast p) \<longrightarrow> map_of fs q \<noteq> Some (FileN b)"
      using path_prefix_trans by blast
    with False "1.IH" obtain fs' where "create_dir_all (butlast p) fs = Inr fs'" by auto
    with False show ?thesis by (subst create_dir_all.simps) simp
  qed
qed

text \<open>The state between two sources: exactly the sources done so far are on disk.\<close>

definition done_inv ::
  "(string \<Rightarrow> bytes option) \<Rightarrow> path \<Rightarrow> entry_map \<Rightarrow> source_entry list \<Rightarrow> source_entry list \<Rightarrow>
   unpack_state \<Rightarrow> bool" where
  "done_inv read_source D m0 es xs s \<longleftrightarrow>
     us_current s = None \<and>
     (\<forall>k. map_of (us_remaining s) k = (if k \<in> rel_comps ` set xs then None else map_of m0 k)) \<and>
     (\<forall>q b. relevant es D q \<longrightarrow> map_of (us_fs s) q = Some (FileN b) \<longrightarrow>
        (\<exists>x \<in> set xs. q = D @ rel_comps x \<and> read_source (se_source_path x) = Some b)) \<and>
     (\<forall>q. relevant es D q \<longrightarrow> \<not> path_prefix q D \<longrightarrow> map_of (us_fs s) q = Some DirN \<longrightarrow>
        (\<exists>x \<in> set xs. path_prefix q (D @ rel_comps x))) \<and>
     (\<forall>x \<in> set xs. case read_source (se_source_path x) of
        Some b \<Rightarrow> map_of (us_fs s) (D @ rel_comps x) = Some (FileN b)
      | None \<Rightarrow> map_of (us_fs s) (D @ rel_comps x) = Some DirN)"

lemma done_inv_dirs:
  "done_inv rs D m0 es xs s \<Longrightarrow> relevant es D q \<Longrightarrow> \<not> path_prefix q D \<Longrightarrow> map_of (us_fs s) q = Some DirN \<Longrightarrow>
   \<exists>x \<in> set xs. path_prefix q (D @ rel_comps x)"
  unfolding done_inv_def by blast

lemma done_inv_files:
  "done_inv rs D m0 es xs s \<Longrightarrow> relevant es D q \<Longrightarrow>
   map_of (us_fs s) q = Some (FileN b) \<Longrightarrow>
   \<exists>x \<in> set xs. q = D @ rel_comps x \<and> rs (se_source_path x) = Some b"
  unfolding done_inv_def by blast

lemma done_inv_present:
  "done_inv rs D m0 es xs s \<Longrightarrow> x \<in> set xs \<Longrightarrow>
   map_of (us_fs s) (D @ rel_comps x) =
     Some (case rs (se_source_path x) of Some b \<Rightarrow> FileN b | None \<Rightarrow> DirN)"
  unfolding done_inv_def by (auto split: option.splits)

lemma rel_comps_nonempty: "source_faithful blake3 rs e \<Longrightarrow> rel_comps e \<noteq> []"
  by (simp add: source_faithful_def rel_comps_def validate_components)

lemma join_ok:
  "source_faithful blake3 rs e \<Longrightarrow>
   safe_join_relative dest (se_relative_path e) = Inr (path_join dest (se_relative_path e)) \<and>
   components (path_join dest (se_relative_path e)) = components dest @ rel_comps e"
  by (simp add: source_faithful_def safe_join_Inr components_join rel_comps_def)

lemma done_no_file_on_way:
  assumes "done_inv rs D m0 (xs @ e # ys) xs s" "sources_compatible rs (xs @ e # ys)"
    and "q \<noteq> []" "path_prefix q (D @ rel_comps e)"
  shows "map_of (us_fs s) q \<noteq> Some (FileN b)"
proof
  assume f: "map_of (us_fs s) q = Some (FileN b)"
  have "relevant (xs @ e # ys) D q" using assms(3,4) by (auto simp: relevant_def)
  from done_inv_files [OF assms(1) this f] obtain x where
      x: "x \<in> set xs" "q = D @ rel_comps x" "rs (se_source_path x) = Some b"
    by blast
  with assms(4) have "path_prefix (rel_comps x) (rel_comps e)" by (auto simp: path_prefix_iff)
  with x assms(2) have "rel_comps x = rel_comps e" unfolding sources_compatible_def by auto
  moreover have "rel_comps e \<notin> rel_comps ` set xs"
    using assms(2) by (auto simp: sources_compatible_def)
  ultimately show False using x(1) by (metis imageI)
qed

lemma done_directory:
  assumes inv: "done_inv rs D m0 (xs @ e # ys) xs s" and compat: "sources_compatible rs (xs @ e # ys)"
    and faithful: "source_faithful blake3 rs e" and D: "D = components dest"
    and m0: "map_of m0 (rel_comps e) = Some (se_manifest_entry e)"
    and dir: "rs (se_source_path e) = None"
  shows "\<exists>s'. unpack_frames blake3 dest ow [FDirectory (se_relative_path e)] s = Inr s' \<and>
    done_inv rs D m0 (xs @ e # ys) (xs @ [e]) s'"
proof -
  have entry: "se_manifest_entry e = entry_directory (se_relative_path e)"
    using faithful dir by (simp add: source_faithful_def)
  have notin: "rel_comps e \<notin> rel_comps ` set xs" using compat by (auto simp: sources_compatible_def)
  obtain fs' where cd: "create_dir_all (D @ rel_comps e) (us_fs s) = Inr fs'"
    using create_dir_all_ok [of "D @ rel_comps e" "us_fs s"] done_no_file_on_way [OF inv compat] by blast
  let ?s' = "s\<lparr>us_fs := fs', us_remaining := drop_entry (rel_comps e) (us_remaining s)\<rparr>"
  have lookup: "map_of (us_remaining s) (components (se_relative_path e)) = Some (se_manifest_entry e)"
    using inv m0 notin by (simp add: done_inv_def rel_comps_def)
  have "unpack_frames blake3 dest ow [FDirectory (se_relative_path e)] s = Inr ?s'"
    using lookup join_ok [OF faithful, of dest] cd
    by (simp add: step_directory_def take_expected_manifest_entry_def entry entry_directory_def D
        rel_comps_def)
  moreover have "done_inv rs D m0 (xs @ e # ys) (xs @ [e]) ?s'"
    unfolding done_inv_def
  proof (intro conjI allI impI ballI)
    show "us_current ?s' = None" using inv by (simp add: done_inv_def)
    show "map_of (us_remaining ?s') k = (if k \<in> rel_comps ` set (xs @ [e]) then None else map_of m0 k)" for k
      using inv by (simp add: done_inv_def)
  next
    fix q b assume "relevant (xs @ e # ys) D q" "map_of (us_fs ?s') q = Some (FileN b)"
    then show "\<exists>x \<in> set (xs @ [e]). q = D @ rel_comps x \<and> rs (se_source_path x) = Some b"
      using inv create_dir_all_keeps_file [OF cd] unfolding done_inv_def by auto
  next
    fix q assume q: "relevant (xs @ e # ys) D q" "\<not> path_prefix q D" "map_of (us_fs ?s') q = Some DirN"
    have "map_of fs' q = map_of (us_fs s) q \<or> path_prefix q (D @ rel_comps e)"
      using create_dir_all_effect [OF cd] by blast
    with q done_inv_dirs [OF inv q(1,2)] show "\<exists>x \<in> set (xs @ [e]). path_prefix q (D @ rel_comps x)"
      by auto
  next
    fix x assume "x \<in> set (xs @ [e])"
    moreover have "map_of fs' (D @ rel_comps e) = Some DirN"
      using create_dir_all_dir [OF cd] rel_comps_nonempty [OF faithful] by (auto simp: is_dir_def)
    ultimately show "case rs (se_source_path x) of
        Some b \<Rightarrow> map_of (us_fs ?s') (D @ rel_comps x) = Some (FileN b)
      | None \<Rightarrow> map_of (us_fs ?s') (D @ rel_comps x) = Some DirN"
      using inv dir create_dir_all_keeps_file [OF cd] create_dir_all_keeps_dir [OF cd]
      unfolding done_inv_def by (auto split: option.splits)
  qed
  ultimately show ?thesis by blast
qed

text \<open>One file: start, chunks, end.\<close>

lemma unpack_chunks:
  assumes "us_current s = Some a"
    and "unat (af_bytes_written a) + length (concat cs) \<le> unat (af_expected_size a)"
  shows "unpack_frames blake3 dest ow (map FFileChunk cs) s =
    Inr (s\<lparr>us_current := Some (a\<lparr>af_content := af_content a @ concat cs,
      af_bytes_written := af_bytes_written a + of_nat (length (concat cs))\<rparr>)\<rparr>)"
  using assms
proof (induction cs arbitrary: s a)
  case Nil
  then show ?case by simp
next
  case (Cons c cs)
  have lt: "unat (af_expected_size a) < 2 ^ 64"
    using unsigned_less [of "af_expected_size a", where ?'a = nat] by simp
  have len: "unat (af_bytes_written a + of_nat (length c)) = unat (af_bytes_written a) + length c"
    using Cons.prems(2) lt by (simp add: unat_word_ariths unat_of_nat)
  let ?a = "a\<lparr>af_content := af_content a @ c, af_bytes_written := af_bytes_written a + of_nat (length c)\<rparr>"
  have "unpack_frames blake3 dest ow (map FFileChunk cs) (s\<lparr>us_current := Some ?a\<rparr>) =
      Inr (s\<lparr>us_current := Some (?a\<lparr>af_content := af_content ?a @ concat cs,
        af_bytes_written := af_bytes_written ?a + of_nat (length (concat cs))\<rparr>)\<rparr>)"
    by (subst Cons.IH [of _ ?a]) (use Cons.prems len in simp_all)
  moreover have "\<not> af_expected_size a < af_bytes_written a + of_nat (length c)"
    using Cons.prems(2) len by (simp add: word_less_nat_alt)
  ultimately show ?case
    using Cons.prems(1) by (simp add: step_file_chunk_def Let_def add.assoc)
qed

lemma file_target_fresh:
  assumes inv: "done_inv rs D m0 (xs @ e # ys) xs s" and compat: "sources_compatible rs (xs @ e # ys)"
    and faithful: "source_faithful blake3 rs e" and D: "D = components dest"
    and isfile: "rs (se_source_path e) \<noteq> None"
  shows "map_of (us_fs s) (D @ rel_comps e) = None"
proof (rule ccontr)
  assume "map_of (us_fs s) (D @ rel_comps e) \<noteq> None"
  then obtain n where n: "map_of (us_fs s) (D @ rel_comps e) = Some n" by blast
  have ne: "rel_comps e \<noteq> []" by (rule rel_comps_nonempty [OF faithful])
  show False
  proof (cases n)
    case (FileN b)
    with n done_no_file_on_way [OF inv compat, of "D @ rel_comps e" b] ne show False by simp
  next
    case DirN
    have "relevant (xs @ e # ys) D (D @ rel_comps e)" "\<not> path_prefix (D @ rel_comps e) D"
      using ne by (auto simp: relevant_def path_prefix_iff)
    with n DirN done_inv_dirs [OF inv, of "D @ rel_comps e"] obtain x where
        x: "x \<in> set xs" "path_prefix (rel_comps e) (rel_comps x)"
      by (auto simp: path_prefix_iff)
    with compat isfile have "rel_comps e = rel_comps x" by (auto simp: sources_compatible_def)
    moreover have "rel_comps e \<notin> rel_comps ` set xs" using compat by (auto simp: sources_compatible_def)
    ultimately show False using x(1) by (metis imageI)
  qed
qed

lemma done_file_state:
  assumes inv: "done_inv rs D m0 (xs @ e # ys) xs s" and compat: "sources_compatible rs (xs @ e # ys)"
    and faithful: "source_faithful blake3 rs e" and content: "rs (se_source_path e) = Some content"
    and cd: "create_dir_all D (us_fs s) = Inr fs1"
    and cd2: "create_dir_all (D @ butlast (rel_comps e)) fs1 = Inr fs2"
    and s': "us_fs s' = fs_put (D @ rel_comps e) (FileN content) fs2"
      "us_remaining s' = drop_entry (rel_comps e) (us_remaining s)" "us_current s' = None"
  shows "done_inv rs D m0 (xs @ e # ys) (xs @ [e]) s'"
proof -
  let ?p = "D @ rel_comps e"
  have ne: "rel_comps e \<noteq> []" by (rule rel_comps_nonempty [OF faithful])
  have notin: "rel_comps e \<notin> rel_comps ` set xs" using compat by (auto simp: sources_compatible_def)
  have files: "map_of fs2 q = Some (FileN b) \<longleftrightarrow> map_of (us_fs s) q = Some (FileN b)" for q b
    using create_dir_all_keeps_file [OF cd] create_dir_all_keeps_file [OF cd2] by simp
  have dirs: "map_of (us_fs s) q = Some DirN \<Longrightarrow> map_of fs2 q = Some DirN" for q
    using create_dir_all_keeps_dir [OF cd] create_dir_all_keeps_dir [OF cd2] by simp
  have up: "path_prefix (D @ butlast (rel_comps e)) ?p"
    using ne by (auto simp: path_prefix_iff) (metis append_butlast_last_id)
  have new: "map_of fs2 q = map_of (us_fs s) q \<or> path_prefix q ?p" for q
  proof -
    have "map_of fs2 q = map_of fs1 q \<or> path_prefix q ?p"
      using create_dir_all_effect [OF cd2] path_prefix_trans [OF _ up] by blast
    moreover have "map_of fs1 q = map_of (us_fs s) q \<or> path_prefix q ?p"
      using create_dir_all_effect [OF cd] path_prefix_trans [OF _ path_prefix_append] by blast
    ultimately show ?thesis by argo
  qed
  show ?thesis
    unfolding done_inv_def
  proof (intro conjI allI impI ballI)
    show "us_current s' = None" by (rule s'(3))
    show "map_of (us_remaining s') k = (if k \<in> rel_comps ` set (xs @ [e]) then None else map_of m0 k)" for k
      using inv by (simp add: done_inv_def s'(2))
  next
    fix q b
    assume q: "relevant (xs @ e # ys) D q" "map_of (us_fs s') q = Some (FileN b)"
    then have "q = ?p \<and> b = content \<or> map_of (us_fs s) q = Some (FileN b)"
      by (auto simp: s'(1) files split: if_splits)
    with done_inv_files [OF inv q(1)] content
    show "\<exists>x \<in> set (xs @ [e]). q = D @ rel_comps x \<and> rs (se_source_path x) = Some b" by auto
  next
    fix q
    assume q: "relevant (xs @ e # ys) D q" "\<not> path_prefix q D" "map_of (us_fs s') q = Some DirN"
    then have "map_of (us_fs s) q = Some DirN \<or> path_prefix q ?p"
      using new [of q] by (auto simp: s'(1) split: if_splits)
    with done_inv_dirs [OF inv q(1,2)]
    show "\<exists>x \<in> set (xs @ [e]). path_prefix q (D @ rel_comps x)" by auto
  next
    fix x assume x: "x \<in> set (xs @ [e])"
    have "map_of fs2 (D @ rel_comps x) = Some (case rs (se_source_path x) of Some b \<Rightarrow> FileN b | None \<Rightarrow> DirN)"
      if "x \<in> set xs"
      using done_inv_present [OF inv that] files dirs by (auto split: option.splits)
    moreover have "rel_comps x \<noteq> rel_comps e" if "x \<in> set xs" using notin that by (metis imageI)
    ultimately show "case rs (se_source_path x) of
        Some b \<Rightarrow> map_of (us_fs s') (D @ rel_comps x) = Some (FileN b)
      | None \<Rightarrow> map_of (us_fs s') (D @ rel_comps x) = Some DirN"
      using x content by (auto simp: s'(1) split: option.splits)
  qed
qed

lemma done_file:
  assumes inv: "done_inv rs D m0 (xs @ e # ys) xs s" and compat: "sources_compatible rs (xs @ e # ys)"
    and faithful: "source_faithful blake3 rs e" and D: "D = components dest"
    and m0: "map_of m0 (rel_comps e) = Some (se_manifest_entry e)"
    and content: "rs (se_source_path e) = Some content"
  shows "\<exists>s'. unpack_frames blake3 dest ow
      (FFileStart (se_relative_path e) (of_nat (length content)) (blake3 content) #
       map FFileChunk (file_chunks content) @ [FFileEnd]) s = Inr s' \<and>
    done_inv rs D m0 (xs @ e # ys) (xs @ [e]) s'"
proof -
  let ?p = "D @ rel_comps e"
  have entry: "se_manifest_entry e = entry_file (se_relative_path e) (of_nat (length content)) (blake3 content)"
      and small: "length content < 2 ^ 64"
    using faithful content by (simp_all add: source_faithful_def)
  have ne: "rel_comps e \<noteq> []" by (rule rel_comps_nonempty [OF faithful])
  have notin: "rel_comps e \<notin> rel_comps ` set xs" using compat by (auto simp: sources_compatible_def)
  have way: "q \<noteq> [] \<Longrightarrow> path_prefix q ?p \<Longrightarrow> map_of (us_fs s) q \<noteq> Some (FileN b)" for q b
    by (rule done_no_file_on_way [OF inv compat])
  obtain fs1 where cd: "create_dir_all D (us_fs s) = Inr fs1"
    using create_dir_all_ok [of D "us_fs s"] way path_prefix_trans [OF _ path_prefix_append] by blast
  have up: "path_prefix (D @ butlast (rel_comps e)) ?p"
    using ne by (auto simp: path_prefix_iff) (metis append_butlast_last_id)
  obtain fs2 where cd2: "create_dir_all (D @ butlast (rel_comps e)) fs1 = Inr fs2"
    using create_dir_all_ok [of "D @ butlast (rel_comps e)" fs1] way path_prefix_trans [OF _ up]
      create_dir_all_keeps_file [OF cd] by blast
  let ?a = "\<lparr>af_relative = se_relative_path e, af_content = [], af_expected_size = of_nat (length content),
      af_expected_hash = blake3 content, af_bytes_written = 0\<rparr>"
  let ?s1 = "s\<lparr>us_fs := fs1, us_current := Some ?a\<rparr>"
  let ?s2 = "s\<lparr>us_fs := fs1, us_current := Some (?a\<lparr>af_content := content,
      af_bytes_written := of_nat (length content)\<rparr>)\<rparr>"
  let ?s3 = "s\<lparr>us_fs := fs_put ?p (FileN content) fs2, us_current := None,
      us_remaining := drop_entry (rel_comps e) (us_remaining s)\<rparr>"
  have lookup: "map_of (us_remaining s) (components (se_relative_path e)) = Some (se_manifest_entry e)"
    using inv m0 notin by (simp add: done_inv_def rel_comps_def)
  have start: "unpack_step blake3 dest ow
      (FFileStart (se_relative_path e) (of_nat (length content)) (blake3 content)) s = Inr ?s1"
    using lookup cd inv
    by (simp add: step_file_start_def expected_manifest_entry_def entry entry_file_def D done_inv_def)
  have chunks: "unpack_frames blake3 dest ow (map FFileChunk (file_chunks content)) ?s1 = Inr ?s2"
    by (subst unpack_chunks [of _ ?a])
      (use small in \<open>simp_all add: concat_file_chunks unat_of_nat\<close>)
  have fresh: "map_of (us_fs s) ?p = None"
    by (rule file_target_fresh [OF inv compat faithful D]) (simp add: content)
  have fresh1: "map_of fs1 ?p = None"
    using create_dir_all_keeps_other [OF cd] fresh ne
    by (metis append_Nil2 append_self_conv path_prefix_iff append_assoc append_is_Nil_conv)
  have nd: "D @ butlast (rel_comps e) = butlast ?p" using ne by (simp add: butlast_append)
  have fresh2: "map_of fs2 ?p = None"
    by (rule write_target_free [OF cd2 [unfolded nd] _ fresh1]) (simp add: ne)
  have same: "non_overwriting_path ?p fs1 = ?p"
    using fresh1 by (simp add: non_overwriting_path_new fs_exists_def)
  then have target: "file_target dest ow (se_relative_path e) fs1 = ?p"
    by (simp add: file_target_def Let_def D [symmetric] rel_comps_def [symmetric])
  have w: "write_file ?p content fs2 = Inr (fs_put ?p (FileN content) fs2)"
    using create_dir_all_dir [OF cd2] fresh2 ne
    by (simp add: write_file_Inr parent_ok_def nd [symmetric])
  have parent: "path_parent ?p = Some (butlast ?p)"
    using file_target_below(5) [OF join_ok [OF faithful, THEN conjunct1] target [symmetric]] .
  have finish: "unpack_step blake3 dest ow FFileEnd ?s2 = Inr ?s3"
    using join_ok [OF faithful, of dest] cd2 [unfolded nd] w lookup parent same
    by (simp add: step_file_end_def Let_def D [symmetric] rel_comps_def)
  have "done_inv rs D m0 (xs @ e # ys) (xs @ [e]) ?s3"
    by (rule done_file_state [OF inv compat faithful content cd cd2]) simp_all
  moreover have "unpack_frames blake3 dest ow
      (FFileStart (se_relative_path e) (of_nat (length content)) (blake3 content) #
       map FFileChunk (file_chunks content) @ [FFileEnd]) s = Inr ?s3"
    using start chunks finish by (simp add: unpack_frames_append del: unpack_step.simps)
  ultimately show ?thesis by blast
qed

section \<open>All sources\<close>

lemma done_sources:
  assumes "done_inv rs D m0 (xs @ ys) xs s" "sources_compatible rs (xs @ ys)" "D = components dest"
    and "\<forall>e \<in> set ys. source_faithful blake3 rs e \<and> map_of m0 (rel_comps e) = Some (se_manifest_entry e)"
    and "all_frames rs ys = Inr fs"
  shows "\<exists>s'. unpack_frames blake3 dest ow fs s = Inr s' \<and> done_inv rs D m0 (xs @ ys) (xs @ ys) s'"
  using assms
proof (induction ys arbitrary: xs s fs)
  case Nil
  then show ?case by simp
next
  case (Cons e ys)
  from Cons.prems(5) obtain gs hs where fs: "source_frames rs e = Inr gs" "all_frames rs ys = Inr hs"
      "fs = gs @ hs"
    by (auto simp: result_simps)
  from Cons.prems(4) have e: "source_faithful blake3 rs e" "map_of m0 (rel_comps e) = Some (se_manifest_entry e)"
    by simp_all
  have "\<exists>s1. unpack_frames blake3 dest ow gs s = Inr s1 \<and> done_inv rs D m0 (xs @ e # ys) (xs @ [e]) s1"
  proof (cases "rs (se_source_path e)")
    case None
    with e(1) fs(1) have "gs = [FDirectory (se_relative_path e)]"
      by (simp add: source_faithful_def source_frames_def entry_directory_def)
    with done_directory [OF Cons.prems(1,2) e(1) Cons.prems(3) e(2) None, of ow] show ?thesis
      by blast
  next
    case (Some content)
    with e(1) fs(1) have "gs = FFileStart (se_relative_path e) (of_nat (length content)) (blake3 content) #
        map FFileChunk (file_chunks content) @ [FFileEnd]"
      by (simp add: source_faithful_def source_frames_def entry_file_def)
    with done_file [OF Cons.prems(1,2) e(1) Cons.prems(3) e(2) Some, of ow] show ?thesis
      by blast
  qed
  then obtain s1 where s1: "unpack_frames blake3 dest ow gs s = Inr s1" "done_inv rs D m0 (xs @ e # ys) (xs @ [e]) s1"
    by blast
  have "\<exists>s'. unpack_frames blake3 dest ow hs s1 = Inr s' \<and> done_inv rs D m0 ((xs @ [e]) @ ys) ((xs @ [e]) @ ys) s'"
    by (rule Cons.IH [OF _ _ Cons.prems(3) _ fs(2)]) (use s1(2) Cons.prems in simp_all)
  with s1(1) show ?case by (simp add: fs(3) unpack_frames_append)
qed

lemma collect_entries_distinct:
  assumes "distinct (map (\<lambda>e. components (me_path e)) es)"
    and "\<forall>e \<in> set es. map_of m (components (me_path e)) = None"
  shows "\<exists>m'. collect_entries m es = Inr m' \<and>
    fst ` set m' = fst ` set m \<union> (\<lambda>e. components (me_path e)) ` set es"
  using assms
proof (induction es arbitrary: m)
  case Nil
  then show ?case by simp
next
  case (Cons e es)
  let ?m = "(components (me_path e), e) # m"
  have "\<forall>e' \<in> set es. map_of ?m (components (me_path e')) = None"
    using Cons.prems by (auto simp: image_iff)
  then obtain m' where "collect_entries ?m es = Inr m'"
      "fst ` set m' = fst ` set ?m \<union> (\<lambda>e. components (me_path e)) ` set es"
    using Cons.IH [of ?m] Cons.prems(1) by auto
  with Cons.prems show ?case by auto
qed

lemma faithful_sources_validate:
  "\<forall>e \<in> set es. source_faithful blake3 rs e \<Longrightarrow> validate_manifest_entries (map se_manifest_entry es) = Inr ()"
  by (induction es) (auto simp: source_faithful_def entry_directory_def entry_file_def split: option.splits)

lemma unpack_raw_of_sources:
  assumes frames: "all_frames rs es = Inr fs"
    and ok: "\<forall>f \<in> set (FManifest mf # fs). frame_ok ser de f"
    and entries: "mf_entries mf = map se_manifest_entry es"
    and faithful: "\<forall>e \<in> set es. source_faithful blake3 rs e"
    and compat: "sources_compatible rs es"
    and fresh: "fresh_destination es (components dest) disk"
  shows "\<exists>disk'. unpack_raw_archive de blake3 dest ow
      \<lparr>rd_bytes = concat (map (frame_put ser) (FManifest mf # fs)), rd_fails = False\<rparr> disk = (disk', Inr mf) \<and>
    (\<forall>e \<in> set es. map_of disk' (components dest @ rel_comps e) =
       Some (case rs (se_source_path e) of Some content \<Rightarrow> FileN content | None \<Rightarrow> DirN))"
proof -
  let ?D = "components dest"
  have comps: "map (\<lambda>e. components (me_path e)) (map se_manifest_entry es) = map rel_comps es"
    using faithful by (auto simp: source_faithful_def rel_comps_def)
  have rel: "(\<lambda>e. components (me_path e)) ` set (map se_manifest_entry es) = rel_comps ` set es"
    using comps by (metis list.set_map)
  have "distinct (map (\<lambda>e. components (me_path e)) (map se_manifest_entry es))"
    unfolding comps using compat by (simp add: sources_compatible_def)
  from collect_entries_distinct [OF this, of "[]"] rel
  obtain m0 where m0: "expected_manifest_entries mf = Inr m0" "fst ` set m0 = rel_comps ` set es"
    by (auto simp: expected_manifest_entries_def entries)
  have "entries_wf mf []" by (simp add: entries_wf_def)
  then have lookup: "\<forall>e \<in> set es. map_of m0 (rel_comps e) = Some (se_manifest_entry e)"
    using collect_entries_spec [of "[]" "mf_entries mf" m0 mf] m0(1) faithful
    by (auto simp: expected_manifest_entries_def entries source_faithful_def rel_comps_def)
  let ?s0 = "\<lparr>us_fs = disk, us_remaining = m0, us_current = None\<rparr>"
  have "done_inv rs ?D m0 ([] @ es) [] ?s0"
    using fresh by (fastforce simp: done_inv_def fresh_destination_def)
  then obtain s where s: "unpack_frames blake3 dest ow fs ?s0 = Inr s" "done_inv rs ?D m0 es es s"
    using done_sources [of rs ?D m0 "[]" es ?s0 dest blake3 fs ow] compat faithful lookup frames by auto
  have "map_of (us_remaining s) k = None" for k
    using s(2) m0(2) by (auto simp: done_inv_def map_of_eq_None_iff)
  then have "us_remaining s = []"
    by (cases "us_remaining s") (auto, metis option.distinct(1))
  moreover have "us_current s = None" using s(2) by (simp add: done_inv_def)
  moreover have "unpack_loop de blake3 dest ow
      \<lparr>rd_bytes = concat (map (frame_put ser) fs), rd_fails = False\<rparr> ?s0 = Inr s"
    using ok s(1) by (simp add: unpack_loop_frames)
  moreover have "read_frame de \<lparr>rd_bytes = concat (map (frame_put ser) (FManifest mf # fs)), rd_fails = False\<rparr> =
      Inr (Some (FManifest mf, \<lparr>rd_bytes = concat (map (frame_put ser) fs), rd_fails = False\<rparr>))"
    using ok by (simp add: read_frame_put)
  ultimately have "unpack_raw_archive de blake3 dest ow
      \<lparr>rd_bytes = concat (map (frame_put ser) (FManifest mf # fs)), rd_fails = False\<rparr> disk = (us_fs s, Inr mf)"
    using faithful_sources_validate [OF faithful] m0(1)
    by (simp add: unpack_raw_archive_def entries)
  with done_inv_present [OF s(2)] show ?thesis by blast
qed

text \<open>
  The documented behaviour of the crates the round trip rests on: postcard reads back what it
  writes (frames stay below the 4 GiB of the length field), and each decompressor returns what
  its compressor was given.
\<close>

definition serializer_ok ::
  "(archive_frame \<Rightarrow> bytes option) \<Rightarrow> (bytes \<Rightarrow> archive_frame option) \<Rightarrow> archive_frame \<Rightarrow> bool" where
  "serializer_ok ser de f \<longleftrightarrow> (\<forall>p. ser f = Some p \<longrightarrow> length p < 2 ^ 32 \<and> de p = Some f)"

definition decoders_ok :: "codecs \<Rightarrow> (reader \<Rightarrow> reader) \<Rightarrow> (reader \<Rightarrow> bytes option) \<Rightarrow> bool" where
  "decoders_ok cs zstd lzma \<longleftrightarrow>
     (\<forall>x y. zstd_encode cs x = Some y \<longrightarrow>
        zstd \<lparr>rd_bytes = y, rd_fails = False\<rparr> = \<lparr>rd_bytes = x, rd_fails = False\<rparr>) \<and>
     (\<forall>x y. lzma_encode cs x = Some y \<longrightarrow> lzma \<lparr>rd_bytes = y, rd_fails = False\<rparr> = Some x)"

lemma fresh_after_create:
  assumes "fresh_destination es D fs" "create_dir_all D fs = Inr fs1"
  shows "fresh_destination es D fs1"
  unfolding fresh_destination_def
proof (intro allI impI)
  fix q n assume q: "relevant es D q" "map_of fs1 q = Some n"
  have "map_of fs1 q = map_of fs q \<or> map_of fs1 q = Some DirN \<and> path_prefix q D"
    using create_dir_all_effect [OF assms(2)] by blast
  then show "path_prefix q D \<and> n = DirN"
    using assms(1) q unfolding fresh_destination_def by (metis option.inject)
qed

lemma fresh_way: "fresh_destination es D fs \<Longrightarrow> q \<noteq> [] \<Longrightarrow> path_prefix q D \<Longrightarrow> map_of fs q \<noteq> Some (FileN b)"
  unfolding fresh_destination_def relevant_def by blast

text \<open>
  C1. What one side packs the other side unpacks. An archive created from sources that read as
  they were scanned, with distinct paths and none below a file, unpacks into a fresh
  destination without an error, with or without the overwrite flag and with any compression;
  the manifest returned is the sender's, and every source is then on disk under its relative
  path: each directory, and each file with exactly its content.
\<close>

theorem archive_roundtrip:
  assumes created: "create_archive_from ser cs blake3 lossy rs rand es c = Inr a"
    and ser: "\<And>f. serializer_ok ser de f" and decoders: "decoders_ok cs zstd lzma"
    and faithful: "\<forall>e \<in> set es. source_faithful blake3 rs e" and compat: "sources_compatible rs es"
    and fresh: "fresh_destination es (components dest) disk"
  shows "\<exists>disk'. unpack_archive_from_reader zstd lzma de blake3 dest (ar_compression a)
      \<lparr>rd_bytes = ar_file a, rd_fails = False\<rparr> ow disk = (disk', Inr (ar_manifest a)) \<and>
    (\<forall>e \<in> set es. map_of disk' (components dest @ rel_comps e) =
       Some (case rs (se_source_path e) of Some content \<Rightarrow> FileN content | None \<Rightarrow> DirN))"
proof -
  from create_archive_content [OF created] obtain fs where fs: "all_frames rs es = Inr fs"
      "compress_raw_archive cs (ar_compression a)
        (concat (map (frame_put ser) (FManifest (ar_manifest a) # fs))) = Inr (ar_file a)"
      "\<forall>f \<in> set (FManifest (ar_manifest a) # fs). ser f \<noteq> None"
      "ar_compression a \<noteq> Auto" "mf_entries (ar_manifest a) = map se_manifest_entry es"
    by blast
  have ok: "\<forall>f \<in> set (FManifest (ar_manifest a) # fs). frame_ok ser de f"
    using fs(3) ser by (auto simp: frame_ok_def serializer_ok_def split: option.splits)
  note raw = unpack_raw_of_sources [OF fs(1) ok fs(5) faithful compat]
  let ?raw = "concat (map (frame_put ser) (FManifest (ar_manifest a) # fs))"
  show ?thesis
  proof (cases "ar_compression a")
    case CompressNone
    with fs(2) raw [OF fresh] show ?thesis
      by (simp add: unpack_archive_from_reader_def compress_raw_archive_def)
  next
    case Zstd
    with fs(2) decoders have "zstd \<lparr>rd_bytes = ar_file a, rd_fails = False\<rparr> = \<lparr>rd_bytes = ?raw, rd_fails = False\<rparr>"
      by (simp add: compress_raw_archive_def decoders_ok_def result_simps del: list.map concat.simps)
    with Zstd raw [OF fresh] show ?thesis by (simp add: unpack_archive_from_reader_def)
  next
    case Lzma
    with fs(2) decoders have lz: "lzma \<lparr>rd_bytes = ar_file a, rd_fails = False\<rparr> = Some ?raw"
      by (simp add: compress_raw_archive_def decoders_ok_def result_simps del: list.map concat.simps)
    obtain disk1 where cd: "create_dir_all (components dest) disk = Inr disk1"
      using create_dir_all_ok [of "components dest" disk] fresh_way [OF fresh] by blast
    show ?thesis
      using Lzma lz cd raw [OF fresh_after_create [OF fresh cd]] by (simp add: unpack_archive_from_reader_def)
  next
    case Auto
    with fs(4) show ?thesis by simp
  qed
qed

section \<open>A concrete transfer\<close>

definition demo_source :: source_entry where
  "demo_source = scan_file (\<lambda>_. [9]) ''/h/a'' ''a'' [7]"

definition demo_read :: "string \<Rightarrow> bytes option" where
  "demo_read p = (if p = ''/h/a'' then Some [7] else None)"

definition demo_manifest :: manifest where
  "demo_manifest = manifest_with_id (TransferId [9]) CompressNone [entry_file ''a'' 1 [9]]"

definition demo_ser :: "archive_frame \<Rightarrow> bytes option" where
  "demo_ser f =
     (if f = FManifest demo_manifest then Some [1]
      else if f = FFileStart ''a'' 1 [9] then Some [2]
      else if f = FFileChunk [7] then Some [3]
      else if f = FFileEnd then Some [4] else None)"

definition demo_de :: "bytes \<Rightarrow> archive_frame option" where
  "demo_de bs =
     (if bs = [1] then Some (FManifest demo_manifest)
      else if bs = [2] then Some (FFileStart ''a'' 1 [9])
      else if bs = [3] then Some (FFileChunk [7])
      else if bs = [4] then Some FFileEnd else None)"

definition demo_codecs :: codecs where
  "demo_codecs = \<lparr>zstd_encode = \<lambda>_. None, zstd_decode = \<lambda>_. None,
     lzma_encode = \<lambda>_. None, lzma_decode = \<lambda>_. None\<rparr>"

definition demo_archive :: archive where
  "demo_archive = \<lparr>ar_manifest = demo_manifest, ar_compression = CompressNone,
     ar_resource_id = ResourceId [9],
     ar_file = [0, 0, 0, 1, 1, 0, 0, 0, 1, 2, 0, 0, 0, 1, 3, 0, 0, 0, 1, 4], ar_len = 20\<rparr>"

lemma demo_created:
  "create_archive_from demo_ser demo_codecs (\<lambda>_. [9]) id demo_read
     (mf_id demo_manifest) [demo_source] CompressNone = Inr demo_archive"
proof -
  have entry: "se_manifest_entry demo_source = entry_file ''a'' 1 [9]"
    by (simp add: demo_source_def scan_file_def)
  have draft: "manifest_with_id (mf_id demo_manifest) CompressNone [entry_file ''a'' 1 [9]] = demo_manifest"
    by (simp add: demo_manifest_def manifest_with_id_def)
  have same: "demo_manifest\<lparr>mf_compression := CompressNone, mf_id := TransferId [9]\<rparr> = demo_manifest"
    by (simp add: demo_manifest_def manifest_with_id_def)
  have "file_chunks [] = []" by (subst file_chunks.simps) simp
  then have chunks: "file_chunks [7] = [[7]]"
    by (subst file_chunks.simps) (simp add: archive_file_chunk_size_def)
  have "be_bytes (Suc (Suc (Suc (Suc 0)))) (Suc 0) = [0, 0, 0, 1]"
    by simp
  then have four: "be_bytes 4 (Suc 0) = [0, 0, 0, 1]"
    by (simp only: eval_nat_numeral BitM.simps)
  have body: "create_archive_body demo_ser demo_read [demo_source] =
      Inr [0, 0, 0, 1, 2, 0, 0, 0, 1, 3, 0, 0, 0, 1, 4]"
    by (simp add: source_frames_def demo_source_def scan_file_def entry_file_def demo_read_def
        chunks write_frame_def demo_ser_def four)
  show ?thesis
    by (simp add: create_archive_from_def body entry draft same archive_frame_len_def demo_ser_def
        Let_def create_raw_archive_def write_frame_def compress_raw_archive_def four
        resource_id_for_reader_def deterministic_manifest_id_def demo_archive_def
        del: create_archive_body.simps)
qed

lemma demo_serializer: "serializer_ok demo_ser demo_de f"
  by (auto simp: serializer_ok_def demo_ser_def demo_de_def split: if_splits)

lemma demo_faithful: "source_faithful (\<lambda>_. [9]) demo_read demo_source"
  by (simp add: source_faithful_def demo_source_def scan_file_def entry_file_def demo_read_def
      validate_relative_path_Inr plain_segments_def is_sep_def is_absolute_def starts_with_def)

lemma create_archive_content_witness:
  "\<exists>fs. all_frames demo_read [demo_source] = Inr fs \<and>
    compress_raw_archive demo_codecs (ar_compression demo_archive)
      (concat (map (frame_put demo_ser) (FManifest (ar_manifest demo_archive) # fs))) =
      Inr (ar_file demo_archive) \<and>
    mf_compression (ar_manifest demo_archive) = ar_compression demo_archive \<and>
    ar_len demo_archive = length (ar_file demo_archive)"
  using create_archive_content [OF demo_created] by blast

lemma demo_fits:
  "decoders_ok demo_codecs id (\<lambda>_. None)" "\<forall>e \<in> set [demo_source]. source_faithful (\<lambda>_. [9]) demo_read e"
  "sources_compatible demo_read [demo_source]" "fresh_destination [demo_source] (components ''in'') []"
  by (simp_all add: decoders_ok_def demo_codecs_def demo_faithful sources_compatible_def
      fresh_destination_def)

lemma archive_roundtrip_witness:
  "\<exists>disk'. unpack_archive_from_reader id (\<lambda>_. None) demo_de (\<lambda>_. [9]) ''in'' (ar_compression demo_archive)
      \<lparr>rd_bytes = ar_file demo_archive, rd_fails = False\<rparr> False [] = (disk', Inr (ar_manifest demo_archive)) \<and>
    map_of disk' (components ''in'' @ rel_comps demo_source) = Some (FileN [7])"
  using archive_roundtrip [OF demo_created demo_serializer demo_fits, of False]
  by (auto simp: demo_source_def scan_file_def demo_read_def)

section \<open>Sources that clash\<close>

lemma collect_entries_duplicate:
  "\<not> (distinct (map (\<lambda>e. components (me_path e)) es) \<and>
      (\<forall>e \<in> set es. map_of m (components (me_path e)) = None)) \<Longrightarrow>
   collect_entries m es = Inl Arch_DuplicateEntry"
proof (induction es arbitrary: m)
  case Nil
  then show ?case by simp
next
  case (Cons e es)
  show ?case
  proof (cases "map_of m (components (me_path e))")
    case None
    let ?m = "(components (me_path e), e) # m"
    have "\<not> (distinct (map (\<lambda>e. components (me_path e)) es) \<and>
        (\<forall>e' \<in> set es. map_of ?m (components (me_path e')) = None))"
      using Cons.prems None by (auto split: if_splits)
    then show ?thesis using Cons.IH [of ?m] None by simp
  qed simp
qed


definition clash_manifest :: manifest where
  "clash_manifest = manifest_with_id (TransferId [9]) CompressNone
     [entry_file ''a'' 1 [9], entry_file ''a'' 1 [9]]"

definition clash_ser :: "archive_frame \<Rightarrow> bytes option" where
  "clash_ser f = (if f = FManifest clash_manifest then Some [5] else demo_ser f)"

definition clash_de :: "bytes \<Rightarrow> archive_frame option" where
  "clash_de bs = (if bs = [5] then Some (FManifest clash_manifest) else demo_de bs)"

definition clash_archive :: archive where
  "clash_archive = \<lparr>ar_manifest = clash_manifest, ar_compression = CompressNone,
     ar_resource_id = ResourceId [9],
     ar_file = [0, 0, 0, 1, 5, 0, 0, 0, 1, 2, 0, 0, 0, 1, 3, 0, 0, 0, 1, 4,
       0, 0, 0, 1, 2, 0, 0, 0, 1, 3, 0, 0, 0, 1, 4], ar_len = 35\<rparr>"

lemma clash_serializer: "serializer_ok clash_ser clash_de f"
  using demo_serializer [of f]
  by (auto simp: serializer_ok_def clash_ser_def clash_de_def demo_ser_def split: if_splits)

lemma clash_created:
  "create_archive_from clash_ser demo_codecs (\<lambda>_. [9]) id demo_read
     (mf_id clash_manifest) [demo_source, demo_source] CompressNone = Inr clash_archive"
proof -
  have entry: "se_manifest_entry demo_source = entry_file ''a'' 1 [9]"
    by (simp add: demo_source_def scan_file_def)
  have draft: "manifest_with_id (mf_id clash_manifest) CompressNone
      [entry_file ''a'' 1 [9], entry_file ''a'' 1 [9]] = clash_manifest"
    by (simp add: clash_manifest_def manifest_with_id_def)
  have same: "clash_manifest\<lparr>mf_compression := CompressNone, mf_id := TransferId [9]\<rparr> = clash_manifest"
    by (simp add: clash_manifest_def manifest_with_id_def)
  have "file_chunks [] = []" by (subst file_chunks.simps) simp
  then have chunks: "file_chunks [7] = [[7]]"
    by (subst file_chunks.simps) (simp add: archive_file_chunk_size_def)
  have "be_bytes (Suc (Suc (Suc (Suc 0)))) (Suc 0) = [0, 0, 0, 1]"
    by simp
  then have four: "be_bytes 4 (Suc 0) = [0, 0, 0, 1]"
    by (simp only: eval_nat_numeral BitM.simps)
  have body: "create_archive_body clash_ser demo_read [demo_source, demo_source] =
      Inr [0, 0, 0, 1, 2, 0, 0, 0, 1, 3, 0, 0, 0, 1, 4, 0, 0, 0, 1, 2, 0, 0, 0, 1, 3, 0, 0, 0, 1, 4]"
    by (simp add: source_frames_def demo_source_def scan_file_def entry_file_def demo_read_def
        chunks write_frame_def clash_ser_def demo_ser_def four)
  show ?thesis
    by (simp add: create_archive_from_def body entry draft same archive_frame_len_def clash_ser_def
        Let_def create_raw_archive_def write_frame_def compress_raw_archive_def four
        resource_id_for_reader_def deterministic_manifest_id_def clash_archive_def
        del: create_archive_body.simps)
qed


end
