(* ===== verification/Crypto.thy ===== *)
theory Crypto
  imports Prelude
begin

text \<open>
  \<open>peerline-crypto\<close>: the ratcheting chunk cipher (\<open>aead.rs\<close>), the transcript
  (\<open>transcript.rs\<close>) and the hybrid handshake (\<open>handshake.rs\<close>). The primitives (ChaCha20-
  Poly1305, HKDF-SHA512, BLAKE3, X25519, ML-KEM-768) are parameters; a key drawn at random is
  an argument. Wiping secrets from memory is not modelled.
\<close>

section \<open>The chunk cipher\<close>

record aead_suite =
  hkdf :: "bytes \<Rightarrow> bytes \<Rightarrow> bytes \<Rightarrow> bytes"
  seal :: "bytes \<Rightarrow> bytes \<Rightarrow> bytes \<Rightarrow> bytes \<Rightarrow> bytes option"
  unseal :: "bytes \<Rightarrow> bytes \<Rightarrow> bytes \<Rightarrow> bytes \<Rightarrow> bytes option"

datatype aead_error = Aead_Encrypt | Aead_Decrypt

record encrypted_chunk =
  ec_sequence :: u64
  ec_ciphertext :: bytes

record chunk_aead =
  ca_chain_key :: bytes
  ca_nonce_prefix :: bytes

definition chunk_aead_new :: "bytes \<Rightarrow> bytes \<Rightarrow> chunk_aead" where
  "chunk_aead_new key pre = \<lparr>ca_chain_key = key, ca_nonce_prefix = pre\<rparr>"

definition chunk_nonce :: "chunk_aead \<Rightarrow> u64 \<Rightarrow> bytes" where
  "chunk_nonce a sequence = ca_nonce_prefix a @ be_bytes 8 (unat sequence)"

definition derive_next :: "aead_suite \<Rightarrow> chunk_aead \<Rightarrow> u64 \<Rightarrow> bytes \<times> bytes" where
  "derive_next su a sequence =
     (let expand = hkdf su (str_bytes ''peerline:chunk-ratchet:v1'') (ca_chain_key a);
          info = ca_nonce_prefix a @ be_bytes 8 (unat sequence)
      in (expand (str_bytes ''message-key'' @ info), expand (str_bytes ''chain-key'' @ info)))"

definition advance :: "bytes \<Rightarrow> chunk_aead \<Rightarrow> chunk_aead" where
  "advance next a = a\<lparr>ca_chain_key := next\<rparr>"

definition chunk_encrypt ::
  "aead_suite \<Rightarrow> u64 \<Rightarrow> bytes \<Rightarrow> bytes \<Rightarrow> chunk_aead \<Rightarrow> chunk_aead \<times> (aead_error + encrypted_chunk)" where
  "chunk_encrypt su sequence aad plaintext a =
     (case derive_next su a sequence of (message_key, next) \<Rightarrow>
        (case seal su message_key (chunk_nonce a sequence) aad plaintext of
           None \<Rightarrow> (a, Inl Aead_Encrypt)
         | Some ct \<Rightarrow> (advance next a, Inr \<lparr>ec_sequence = sequence, ec_ciphertext = ct\<rparr>)))"

definition chunk_decrypt ::
  "aead_suite \<Rightarrow> bytes \<Rightarrow> encrypted_chunk \<Rightarrow> chunk_aead \<Rightarrow> chunk_aead \<times> (aead_error + bytes)" where
  "chunk_decrypt su aad c a =
     (case derive_next su a (ec_sequence c) of (message_key, next) \<Rightarrow>
        (case unseal su message_key (chunk_nonce a (ec_sequence c)) aad (ec_ciphertext c) of
           None \<Rightarrow> (a, Inl Aead_Decrypt)
         | Some pt \<Rightarrow> (advance next a, Inr pt)))"

definition suite_ok :: "aead_suite \<Rightarrow> bool" where
  "suite_ok su \<longleftrightarrow> (\<forall>k n aad m ct. seal su k n aad m = Some ct \<longrightarrow> unseal su k n aad ct = Some m)"

lemma chunk_nonce_inject: "chunk_nonce a s = chunk_nonce a t \<longleftrightarrow> s = t"
proof
  assume "chunk_nonce a s = chunk_nonce a t"
  then have "be_bytes 8 (unat s) = be_bytes 8 (unat t)" by (simp add: chunk_nonce_def)
  then have "unat s = unat t"
    using be_bytes_inject [of "unat s" 8 "unat t"] unsigned_less [of s, where ?'a = nat]
      unsigned_less [of t, where ?'a = nat] by simp
  then show "s = t" by (simp add: word_unat_eq_iff)
qed simp

lemma chunk_decrypt_failed: "chunk_decrypt su aad c a = (a', Inl e) \<Longrightarrow> a' = a"
  by (auto simp: chunk_decrypt_def split: prod.splits option.splits)

lemma chunk_lockstep:
  "suite_ok su \<Longrightarrow> chunk_encrypt su s aad m a = (a', Inr c) \<Longrightarrow>
   chunk_decrypt su aad c a = (a', Inr m) \<and> ec_sequence c = s"
  by (auto simp: chunk_encrypt_def chunk_decrypt_def suite_ok_def split: prod.splits option.splits)

section \<open>The transcript\<close>

type_synonym transcript = "bytes list"

definition transcript_new :: "bytes \<Rightarrow> transcript" where
  "transcript_new label = [label]"

definition transcript_append :: "transcript \<Rightarrow> bytes \<Rightarrow> bytes \<Rightarrow> transcript" where
  "transcript_append t label value = t @ [label, value]"

definition le_bytes :: "nat \<Rightarrow> nat \<Rightarrow> bytes" where
  "le_bytes n v = rev (be_bytes n v)"

definition transcript_input :: "transcript \<Rightarrow> bytes" where
  "transcript_input t = concat (map (\<lambda>p. le_bytes 8 (length p) @ p) t)"

definition transcript_hash :: "(bytes \<Rightarrow> bytes) \<Rightarrow> transcript \<Rightarrow> bytes" where
  "transcript_hash blake3 t = blake3 (transcript_input t)"

definition part_get :: "bytes \<Rightarrow> (bytes \<times> bytes) option" where
  "part_get bs =
     (let n = of_be (rev (take 8 bs)) in
      if length bs < 8 \<or> length (drop 8 bs) < n then None
      else Some (take n (drop 8 bs), drop n (drop 8 bs)))"

interpretation transcript_framing:
  framing "\<lambda>p. le_bytes 8 (length p) @ p" part_get "\<lambda>p. length p < 2 ^ 64"
proof unfold_locales
  fix p rest :: bytes assume "length p < 2 ^ 64"
  then show "part_get ((le_bytes 8 (length p) @ p) @ rest) = Some (p, rest)"
    by (simp add: part_get_def le_bytes_def Let_def del: be_bytes.simps)
next
  fix p :: bytes
  have "length (le_bytes 8 (length p)) = 8" by (simp add: le_bytes_def)
  then show "le_bytes 8 (length p) @ p \<noteq> []" by auto
qed

lemma transcript_input_inject:
  "\<forall>p \<in> set t. length p < 2 ^ 64 \<Longrightarrow> \<forall>p \<in> set u. length p < 2 ^ 64 \<Longrightarrow>
   transcript_input t = transcript_input u \<Longrightarrow> t = u"
  unfolding transcript_input_def by (rule transcript_framing.concat_unambiguous)

section \<open>The hybrid handshake\<close>

record kex_suite =
  x_public :: "bytes \<Rightarrow> bytes"
  x_dh :: "bytes \<Rightarrow> bytes \<Rightarrow> bytes"
  kem_public :: "bytes \<Rightarrow> bytes"
  kem_valid :: "bytes \<Rightarrow> bool"
  kem_encapsulate :: "bytes \<Rightarrow> bytes \<Rightarrow> bytes \<times> bytes"
  kem_decapsulate :: "bytes \<Rightarrow> bytes \<Rightarrow> bytes option"

datatype handshake_role = RoleSender | RoleReceiver
datatype handshake_error = Handshake_BadKemKey | Handshake_BadCiphertext

record client_hello =
  ch_x25519_public :: bytes

record server_hello =
  sh_x25519_public :: bytes
  sh_ml_kem_public :: bytes

record client_kem =
  ck_ml_kem_ciphertext :: bytes

record session_keys =
  sk_send_key :: bytes
  sk_recv_key :: bytes

record client_handshake =
  chs_secret :: bytes
  chs_hello :: client_hello

record server_handshake =
  shs_secret :: bytes
  shs_decapsulation :: bytes
  shs_hello :: server_hello

definition derive_session_keys ::
  "aead_suite \<Rightarrow> (bytes \<Rightarrow> bytes) \<Rightarrow> handshake_role \<Rightarrow> bytes \<Rightarrow> bytes \<Rightarrow> bytes \<Rightarrow> transcript \<Rightarrow>
   session_keys" where
  "derive_session_keys su blake3 role opaque_key x_shared ml_shared t =
     (let input = opaque_key @ x_shared @ ml_shared @ transcript_hash blake3 t;
          expand = hkdf su (str_bytes ''peerline:session:v1'') input;
          sender = expand (str_bytes ''sender-to-receiver'');
          receiver = expand (str_bytes ''receiver-to-sender'')
      in case role of
           RoleSender \<Rightarrow> \<lparr>sk_send_key = sender, sk_recv_key = receiver\<rparr>
         | RoleReceiver \<Rightarrow> \<lparr>sk_send_key = receiver, sk_recv_key = sender\<rparr>)"

definition client_start :: "kex_suite \<Rightarrow> bytes \<Rightarrow> client_handshake" where
  "client_start kx secret =
     \<lparr>chs_secret = secret, chs_hello = \<lparr>ch_x25519_public = x_public kx secret\<rparr>\<rparr>"

definition client_finish ::
  "kex_suite \<Rightarrow> aead_suite \<Rightarrow> (bytes \<Rightarrow> bytes) \<Rightarrow> bytes \<Rightarrow> client_handshake \<Rightarrow> server_hello \<Rightarrow> bytes \<Rightarrow>
   transcript \<Rightarrow> handshake_error + (client_kem \<times> session_keys)" where
  "client_finish kx su blake3 coins c server opaque_key t =
     (let x_shared = x_dh kx (chs_secret c) (sh_x25519_public server) in
      if \<not> kem_valid kx (sh_ml_kem_public server) then Inl Handshake_BadKemKey
      else case kem_encapsulate kx (sh_ml_kem_public server) coins of (ct, ml_shared) \<Rightarrow>
        Inr (\<lparr>ck_ml_kem_ciphertext = ct\<rparr>,
             derive_session_keys su blake3 RoleSender opaque_key x_shared ml_shared t))"

definition server_start :: "kex_suite \<Rightarrow> bytes \<Rightarrow> bytes \<Rightarrow> client_hello \<Rightarrow> server_handshake" where
  "server_start kx secret dk client =
     \<lparr>shs_secret = secret, shs_decapsulation = dk,
      shs_hello = \<lparr>sh_x25519_public = x_public kx secret, sh_ml_kem_public = kem_public kx dk\<rparr>\<rparr>"

definition server_finish ::
  "kex_suite \<Rightarrow> aead_suite \<Rightarrow> (bytes \<Rightarrow> bytes) \<Rightarrow> server_handshake \<Rightarrow> client_hello \<Rightarrow> client_kem \<Rightarrow> bytes \<Rightarrow>
   transcript \<Rightarrow> handshake_error + session_keys" where
  "server_finish kx su blake3 s client kem opaque_key t =
     (let x_shared = x_dh kx (shs_secret s) (ch_x25519_public client) in
      case kem_decapsulate kx (shs_decapsulation s) (ck_ml_kem_ciphertext kem) of
        None \<Rightarrow> Inl Handshake_BadCiphertext
      | Some ml_shared \<Rightarrow>
          Inr (derive_session_keys su blake3 RoleReceiver opaque_key x_shared ml_shared t))"

text \<open>Diffie-Hellman commutes, and decapsulation recovers the encapsulated secret.\<close>

definition kex_ok :: "kex_suite \<Rightarrow> bool" where
  "kex_ok kx \<longleftrightarrow>
     (\<forall>a b. x_dh kx a (x_public kx b) = x_dh kx b (x_public kx a)) \<and>
     (\<forall>dk. kem_valid kx (kem_public kx dk)) \<and>
     (\<forall>dk coins. kem_decapsulate kx dk (fst (kem_encapsulate kx (kem_public kx dk) coins)) =
        Some (snd (kem_encapsulate kx (kem_public kx dk) coins)))"

text \<open>
  A complete handshake between two honest peers that agree on the OPAQUE key and the
  transcript always succeeds and leaves them with crossed keys: what one sends with, the
  other receives with.
\<close>

theorem handshake_agrees:
  assumes "kex_ok kx"
  shows "\<exists>kem ck sk.
    client_finish kx su blake3 coins (client_start kx xa)
      (shs_hello (server_start kx xb dk (chs_hello (client_start kx xa)))) okey t = Inr (kem, ck) \<and>
    server_finish kx su blake3 (server_start kx xb dk (chs_hello (client_start kx xa)))
      (chs_hello (client_start kx xa)) kem okey t = Inr sk \<and>
    sk_send_key ck = sk_recv_key sk \<and> sk_recv_key ck = sk_send_key sk"
proof -
  obtain ct ss where enc: "kem_encapsulate kx (kem_public kx dk) coins = (ct, ss)"
    by (cases "kem_encapsulate kx (kem_public kx dk) coins")
  have "kem_decapsulate kx dk (fst (kem_encapsulate kx (kem_public kx dk) coins)) =
      Some (snd (kem_encapsulate kx (kem_public kx dk) coins))"
    using assms unfolding kex_ok_def by blast
  then have dec: "kem_decapsulate kx dk ct = Some ss" by (simp add: enc)
  have dh: "x_dh kx xa (x_public kx xb) = x_dh kx xb (x_public kx xa)"
    using assms unfolding kex_ok_def by blast
  have "kem_valid kx (kem_public kx dk)" using assms unfolding kex_ok_def by blast
  then show ?thesis
    by (simp add: client_start_def server_start_def client_finish_def server_finish_def
        enc dec dh derive_session_keys_def Let_def)
qed

definition demo_kex :: kex_suite where
  "demo_kex = \<lparr>x_public = id, x_dh = \<lambda>a b. [sum_list a * sum_list b], kem_public = id,
     kem_valid = \<lambda>_. True, kem_encapsulate = \<lambda>pk coins. (coins, pk @ coins),
     kem_decapsulate = \<lambda>dk ct. Some (dk @ ct)\<rparr>"

definition demo_aead :: aead_suite where
  "demo_aead = \<lparr>hkdf = \<lambda>salt ikm info. take 32 (info @ ikm),
     seal = \<lambda>k n aad m. Some (k @ n @ aad @ m),
     unseal = \<lambda>k n aad ct. strip_prefix (k @ n @ aad) ct\<rparr>"

lemma demo_aead_ok: "suite_ok demo_aead"
  unfolding suite_ok_def demo_aead_def
  by (simp add: strip_prefix_Some)

lemma handshake_agrees_witness:
  "\<exists>kem ck sk.
    client_finish demo_kex demo_aead id [5] (client_start demo_kex [2])
      (shs_hello (server_start demo_kex [3] [4] (chs_hello (client_start demo_kex [2])))) [6]
      (transcript_new [1]) = Inr (kem, ck) \<and>
    server_finish demo_kex demo_aead id (server_start demo_kex [3] [4] (chs_hello (client_start demo_kex [2])))
      (chs_hello (client_start demo_kex [2])) kem [6] (transcript_new [1]) = Inr sk \<and>
    sk_send_key ck = sk_recv_key sk \<and> sk_recv_key ck = sk_send_key sk"
  by (rule handshake_agrees) (simp add: kex_ok_def demo_kex_def mult.commute)

end
