(* ===== verification/Protocol.thy ===== *)
theory Protocol
  imports Crypto Identity Core_Manifest
begin

text \<open>
  \<open>peerline-net/src/protocol.rs\<close> and the codec of \<open>libp2p_transfer/codec.rs\<close>: the wire
  frames and their length-prefixed form, the encrypted frames inside them, and the
  transcripts both peers hash. The postcard codec is a pair of parameters; a stream is the
  bytes it will deliver before it ends.
\<close>

definition protocol_version :: u16 where
  "protocol_version = 3"

definition max_frame :: nat where
  "max_frame = 64 * 1024 * 1024"

definition secure_aad :: bytes where
  "secure_aad = str_bytes ''peerline:secure-frame:v1''"

datatype wire_frame =
    ClientIntro u16 "human_name option" transfer_descriptor bytes client_hello
  | ServerIntro u16 u64 bytes server_hello
  | ClientFinish bytes client_kem
  | Secure encrypted_chunk
  | Ack
  | WireError string

datatype secure_frame =
    SecureHeader compression
  | SecureArchiveChunk bytes
  | SecureDone

datatype wire_error =
    Wire_Eof
  | Wire_TooLarge
  | Wire_Malformed
  | Wire_Unserializable
  | Wire_NotSecure
  | Wire_SequenceMismatch
  | Wire_Aead aead_error

section \<open>Wire frames\<close>

definition write_wire :: "(wire_frame \<Rightarrow> bytes option) \<Rightarrow> wire_frame \<Rightarrow> wire_error + bytes" where
  "write_wire ser f =
     (case ser f of
        None \<Rightarrow> Inl Wire_Unserializable
      | Some payload \<Rightarrow> Inr (be_bytes 4 (length payload) @ payload))"

definition read_wire ::
  "(bytes \<Rightarrow> wire_frame option) \<Rightarrow> bytes \<Rightarrow> wire_error + (wire_frame \<times> bytes)" where
  "read_wire de bs =
     (if length bs < 4 then Inl Wire_Eof
      else
        let n = of_be (take 4 bs); rest = drop 4 bs in
        if max_frame < n then Inl Wire_TooLarge
        else if length rest < n then Inl Wire_Eof
        else case de (take n rest) of
          None \<Rightarrow> Inl Wire_Malformed
        | Some f \<Rightarrow> Inr (f, drop n rest))"

text \<open>
  The libp2p codec frames requests and responses the same way; its errors are I/O errors of
  kind \<open>InvalidData\<close>.
\<close>

definition io_of_wire :: "wire_error \<Rightarrow> bool" where
  "io_of_wire e = (e \<noteq> Wire_Eof)"

definition codec_write_framed :: "(wire_frame \<Rightarrow> bytes option) \<Rightarrow> wire_frame \<Rightarrow> bool + bytes" where
  "codec_write_framed ser f =
     (case ser f of
        None \<Rightarrow> Inl True
      | Some payload \<Rightarrow> Inr (be_bytes 4 (length payload) @ payload))"

definition codec_read_framed ::
  "(bytes \<Rightarrow> wire_frame option) \<Rightarrow> bytes \<Rightarrow> bool + (wire_frame \<times> bytes)" where
  "codec_read_framed de bs =
     (if length bs < 4 then Inl False
      else
        let n = of_be (take 4 bs); rest = drop 4 bs in
        if max_frame < n then Inl True
        else if length rest < n then Inl False
        else case de (take n rest) of
          None \<Rightarrow> Inl True
        | Some f \<Rightarrow> Inr (f, drop n rest))"

definition wire_ok :: "(wire_frame \<Rightarrow> bytes option) \<Rightarrow> (bytes \<Rightarrow> wire_frame option) \<Rightarrow> wire_frame \<Rightarrow> bool" where
  "wire_ok ser de f =
     (case ser f of None \<Rightarrow> False | Some p \<Rightarrow> length p \<le> max_frame \<and> de p = Some f)"

definition wire_put :: "(wire_frame \<Rightarrow> bytes option) \<Rightarrow> wire_frame \<Rightarrow> bytes" where
  "wire_put ser f = (case write_wire ser f of Inr bs \<Rightarrow> bs | Inl _ \<Rightarrow> [])"

definition wire_get :: "(bytes \<Rightarrow> wire_frame option) \<Rightarrow> bytes \<Rightarrow> (wire_frame \<times> bytes) option" where
  "wire_get de bs = (case read_wire de bs of Inr x \<Rightarrow> Some x | Inl _ \<Rightarrow> None)"

interpretation wire_framing: framing "wire_put ser" "wire_get de" "wire_ok ser de" for ser de
proof unfold_locales
  show "wire_ok ser de f \<Longrightarrow> wire_get de (wire_put ser f @ rest) = Some (f, rest)" for f rest
    by (auto simp: wire_ok_def wire_put_def write_wire_def wire_get_def read_wire_def Let_def
        max_frame_def split: option.splits)
  show "wire_ok ser de f \<Longrightarrow> wire_put ser f \<noteq> []" for f
    by (auto simp: wire_ok_def wire_put_def write_wire_def split: option.splits
        dest!: arg_cong [where f = length])
qed

lemma codec_agrees:
  "codec_write_framed ser f = (case write_wire ser f of Inl e \<Rightarrow> Inl (io_of_wire e) | Inr bs \<Rightarrow> Inr bs)"
  "codec_read_framed de bs = (case read_wire de bs of Inl e \<Rightarrow> Inl (io_of_wire e) | Inr x \<Rightarrow> Inr x)"
  by (auto simp: codec_write_framed_def write_wire_def codec_read_framed_def read_wire_def
      io_of_wire_def Let_def split: option.splits)

text \<open>
  Wire frames sent back to back are received one by one as sent, on TCP and on libp2p
  streams alike (the two codecs accept and produce the same bytes); and no reader allocates
  more than 64 MiB for a frame: a larger length is refused before its payload is read.
\<close>

theorem wire_stream_roundtrip:
  assumes "\<forall>f \<in> set fs. wire_ok ser de f"
  shows "get_many (wire_get de) (length fs) (concat (map (wire_put ser) fs) @ rest) = Some (fs, rest) \<and>
    (\<forall>f \<in> set fs. \<forall>bs. codec_read_framed de (wire_put ser f @ bs) = Inr (f, bs)) \<and>
    (\<forall>bs f r. read_wire de bs = Inr (f, r) \<longrightarrow> of_be (take 4 bs) \<le> max_frame)"
proof (intro conjI)
  show "get_many (wire_get de) (length fs) (concat (map (wire_put ser) fs) @ rest) = Some (fs, rest)"
    by (rule wire_framing.get_many_concat [OF assms])
  show "\<forall>f \<in> set fs. \<forall>bs. codec_read_framed de (wire_put ser f @ bs) = Inr (f, bs)"
    using assms wire_framing.get_put [of ser de]
    by (fastforce simp: codec_agrees(2) wire_get_def split: sum.splits)
  show "\<forall>bs f r. read_wire de bs = Inr (f, r) \<longrightarrow> of_be (take 4 bs) \<le> max_frame"
    by (auto simp: read_wire_def Let_def split: if_splits)
qed

definition sample_wire_ser :: "wire_frame \<Rightarrow> bytes option" where
  "sample_wire_ser f = (if f = Ack then Some [4] else None)"

definition sample_wire_de :: "bytes \<Rightarrow> wire_frame option" where
  "sample_wire_de bs = (if bs = [4] then Some Ack else None)"

lemma wire_stream_roundtrip_witness:
  "get_many (wire_get sample_wire_de) (length [Ack, Ack])
     (concat (map (wire_put sample_wire_ser) [Ack, Ack]) @ [9]) = Some ([Ack, Ack], [9])"
  by (rule wire_stream_roundtrip [THEN conjunct1])
    (simp add: wire_ok_def sample_wire_ser_def sample_wire_de_def max_frame_def)

section \<open>Encrypted frames\<close>

record secure_channel =
  ch_aead :: chunk_aead
  ch_sequence :: u64

definition encrypt_secure ::
  "aead_suite \<Rightarrow> (secure_frame \<Rightarrow> bytes option) \<Rightarrow> secure_frame \<Rightarrow> secure_channel \<Rightarrow>
   secure_channel \<times> (wire_error + encrypted_chunk)" where
  "encrypt_secure su ser f ch =
     (case ser f of
        None \<Rightarrow> (ch, Inl Wire_Unserializable)
      | Some payload \<Rightarrow>
          (case chunk_encrypt su (ch_sequence ch) secure_aad payload (ch_aead ch) of
             (a, Inl e) \<Rightarrow> (ch\<lparr>ch_aead := a\<rparr>, Inl (Wire_Aead e))
           | (a, Inr c) \<Rightarrow> (ch\<lparr>ch_aead := a, ch_sequence := ch_sequence ch + 1\<rparr>, Inr c)))"

definition decrypt_secure ::
  "aead_suite \<Rightarrow> (bytes \<Rightarrow> secure_frame option) \<Rightarrow> encrypted_chunk \<Rightarrow> secure_channel \<Rightarrow>
   secure_channel \<times> (wire_error + secure_frame)" where
  "decrypt_secure su de c ch =
     (if ec_sequence c \<noteq> ch_sequence ch then (ch, Inl Wire_SequenceMismatch)
      else
        let ch1 = ch\<lparr>ch_sequence := ch_sequence ch + 1\<rparr> in
        case chunk_decrypt su secure_aad c (ch_aead ch1) of
          (a, Inl e) \<Rightarrow> (ch1\<lparr>ch_aead := a\<rparr>, Inl (Wire_Aead e))
        | (a, Inr plaintext) \<Rightarrow>
            (ch1\<lparr>ch_aead := a\<rparr>, ok_or (de plaintext) Wire_Malformed))"

definition write_secure ::
  "aead_suite \<Rightarrow> (secure_frame \<Rightarrow> bytes option) \<Rightarrow> (wire_frame \<Rightarrow> bytes option) \<Rightarrow> secure_frame \<Rightarrow>
   secure_channel \<Rightarrow> secure_channel \<times> (wire_error + bytes)" where
  "write_secure su ser wser f ch =
     (case encrypt_secure su ser f ch of
        (ch', Inl e) \<Rightarrow> (ch', Inl e)
      | (ch', Inr c) \<Rightarrow> (ch', write_wire wser (Secure c)))"

definition read_secure ::
  "aead_suite \<Rightarrow> (bytes \<Rightarrow> secure_frame option) \<Rightarrow> (bytes \<Rightarrow> wire_frame option) \<Rightarrow> bytes \<Rightarrow>
   secure_channel \<Rightarrow> secure_channel \<times> (wire_error + (secure_frame \<times> bytes))" where
  "read_secure su de wde bs ch =
     (case read_wire wde bs of
        Inl e \<Rightarrow> (ch, Inl e)
      | Inr (Secure c, rest) \<Rightarrow>
          (case decrypt_secure su de c ch of
             (ch', Inl e) \<Rightarrow> (ch', Inl e)
           | (ch', Inr f) \<Rightarrow> (ch', Inr (f, rest)))
      | Inr _ \<Rightarrow> (ch, Inl Wire_NotSecure))"

fun encrypt_all ::
  "aead_suite \<Rightarrow> (secure_frame \<Rightarrow> bytes option) \<Rightarrow> secure_frame list \<Rightarrow> secure_channel \<Rightarrow>
   (secure_channel \<times> encrypted_chunk list) option" where
  "encrypt_all su ser [] ch = Some (ch, [])"
| "encrypt_all su ser (f # fs) ch =
     (case encrypt_secure su ser f ch of
        (ch', Inl e) \<Rightarrow> None
      | (ch', Inr c) \<Rightarrow>
          (case encrypt_all su ser fs ch' of None \<Rightarrow> None | Some (ch'', cs) \<Rightarrow> Some (ch'', c # cs)))"

fun decrypt_all ::
  "aead_suite \<Rightarrow> (bytes \<Rightarrow> secure_frame option) \<Rightarrow> encrypted_chunk list \<Rightarrow> secure_channel \<Rightarrow>
   (secure_channel \<times> secure_frame list) option" where
  "decrypt_all su de [] ch = Some (ch, [])"
| "decrypt_all su de (c # cs) ch =
     (case decrypt_secure su de c ch of
        (ch', Inl e) \<Rightarrow> None
      | (ch', Inr f) \<Rightarrow>
          (case decrypt_all su de cs ch' of None \<Rightarrow> None | Some (ch'', fs) \<Rightarrow> Some (ch'', f # fs)))"

lemma secure_lockstep:
  assumes "suite_ok su" "\<And>p. ser f = Some p \<Longrightarrow> de p = Some f"
    and "encrypt_secure su ser f ch = (ch', Inr c)"
  shows "decrypt_secure su de c ch = (ch', Inr f) \<and> ec_sequence c = ch_sequence ch \<and>
    ch_sequence ch' = ch_sequence ch + 1"
proof -
  from assms(3) obtain p a where p: "ser f = Some p"
      "chunk_encrypt su (ch_sequence ch) secure_aad p (ch_aead ch) = (a, Inr c)"
      "ch' = ch\<lparr>ch_aead := a, ch_sequence := ch_sequence ch + 1\<rparr>"
    by (auto simp: encrypt_secure_def split: option.splits prod.splits sum.splits)
  with chunk_lockstep [OF assms(1) p(2)] assms(2) show ?thesis
    by (simp add: decrypt_secure_def)
qed

text \<open>
  C38. The encrypted channel delivers: whatever frames the sender encrypts in order, the
  receiver that starts with the same key and counter decrypts to exactly those frames in that
  order, and both ends finish with the same ratchet key and counter.
\<close>

theorem secure_channel_delivers:
  assumes "suite_ok su" "\<And>f p. ser f = Some p \<Longrightarrow> de p = Some f"
    and "encrypt_all su ser fs ch = Some (ch', cs)"
  shows "decrypt_all su de cs ch = Some (ch', fs)"
  using assms(3)
proof (induction fs arbitrary: ch cs)
  case Nil
  then show ?case by simp
next
  case (Cons f fs)
  then obtain ch1 c cs1 where e: "encrypt_secure su ser f ch = (ch1, Inr c)"
      "encrypt_all su ser fs ch1 = Some (ch', cs1)" "cs = c # cs1"
    by (auto split: prod.splits sum.splits option.splits)
  from secure_lockstep [OF assms(1) assms(2) e(1)] Cons.IH [OF e(2)] e(3) show ?case by simp
qed

definition sample_secure_ser :: "secure_frame \<Rightarrow> bytes option" where
  "sample_secure_ser f =
     (case f of SecureDone \<Rightarrow> Some [2] | SecureArchiveChunk bs \<Rightarrow> Some (1 # bs) | _ \<Rightarrow> None)"

definition sample_secure_de :: "bytes \<Rightarrow> secure_frame option" where
  "sample_secure_de bs = (if bs = [2] then Some SecureDone
     else if bs \<noteq> [] \<and> hd bs = 1 then Some (SecureArchiveChunk (tl bs)) else None)"

definition sample_channel :: secure_channel where
  "sample_channel = \<lparr>ch_aead = chunk_aead_new [7] (str_bytes ''pl01''), ch_sequence = 0\<rparr>"

lemma secure_channel_delivers_witness:
  "decrypt_all demo_aead sample_secure_de
     (snd (the (encrypt_all demo_aead sample_secure_ser [SecureArchiveChunk [5], SecureDone] sample_channel)))
     sample_channel =
   Some (fst (the (encrypt_all demo_aead sample_secure_ser [SecureArchiveChunk [5], SecureDone]
     sample_channel)), [SecureArchiveChunk [5], SecureDone])"
proof (rule secure_channel_delivers [OF demo_aead_ok])
  show "sample_secure_ser f = Some p \<Longrightarrow> sample_secure_de p = Some f" for f p
    by (auto simp: sample_secure_ser_def sample_secure_de_def split: secure_frame.splits)
  have "encrypt_all demo_aead sample_secure_ser [SecureArchiveChunk [5], SecureDone] sample_channel \<noteq> None"
    by (simp add: encrypt_secure_def chunk_encrypt_def sample_secure_ser_def demo_aead_def
        split: prod.splits)
  then show "encrypt_all demo_aead sample_secure_ser [SecureArchiveChunk [5], SecureDone] sample_channel =
    Some (fst (the (encrypt_all demo_aead sample_secure_ser [SecureArchiveChunk [5], SecureDone] sample_channel)),
      snd (the (encrypt_all demo_aead sample_secure_ser [SecureArchiveChunk [5], SecureDone] sample_channel)))"
    by (metis option.collapse prod.collapse)
qed

text \<open>
  The channel fails closed. A frame with any other sequence number (replayed, reordered or
  dropped) is refused and changes nothing; a frame of the expected number that does not
  decrypt is refused without advancing the ratchet, but uses up its number, so a genuine frame
  of that number arriving later is refused as well.
\<close>

theorem secure_channel_fails_closed:
  "(ec_sequence c \<noteq> ch_sequence ch \<longrightarrow> decrypt_secure su de c ch = (ch, Inl Wire_SequenceMismatch)) \<and>
   (decrypt_secure su de c ch = (ch', Inl (Wire_Aead e)) \<longrightarrow>
      ch_aead ch' = ch_aead ch \<and> ch_sequence ch' = ch_sequence ch + 1 \<and>
      (\<forall>g. ec_sequence g = ec_sequence c \<longrightarrow> decrypt_secure su de g ch' = (ch', Inl Wire_SequenceMismatch)))"
proof (intro conjI impI)
  show "ec_sequence c \<noteq> ch_sequence ch \<Longrightarrow> decrypt_secure su de c ch = (ch, Inl Wire_SequenceMismatch)"
    by (simp add: decrypt_secure_def)
  assume bad: "decrypt_secure su de c ch = (ch', Inl (Wire_Aead e))"
  then have seq: "ec_sequence c = ch_sequence ch"
    by (auto simp: decrypt_secure_def split: if_splits)
  from bad seq obtain a where "chunk_decrypt su secure_aad c (ch_aead ch) = (a, Inl e)"
      "ch' = ch\<lparr>ch_sequence := ch_sequence ch + 1, ch_aead := a\<rparr>"
    by (auto simp: decrypt_secure_def Let_def split: prod.splits sum.splits option.splits)
      (auto simp: result_simps)
  with chunk_decrypt_failed show st: "ch_aead ch' = ch_aead ch" "ch_sequence ch' = ch_sequence ch + 1"
    by auto
  show "\<forall>g. ec_sequence g = ec_sequence c \<longrightarrow> decrypt_secure su de g ch' = (ch', Inl Wire_SequenceMismatch)"
    using seq st(2) by (simp add: decrypt_secure_def)
qed

definition forged_chunk :: encrypted_chunk where
  "forged_chunk = \<lparr>ec_sequence = 0, ec_ciphertext = []\<rparr>"

lemma forged_chunk_refused:
  "decrypt_secure demo_aead sample_secure_de forged_chunk sample_channel =
   (sample_channel\<lparr>ch_sequence := 1\<rparr>, Inl (Wire_Aead Aead_Decrypt))"
  by (simp add: decrypt_secure_def forged_chunk_def sample_channel_def chunk_decrypt_def
      derive_next_def chunk_aead_new_def demo_aead_def chunk_nonce_def strip_prefix_def
      starts_with_def secure_aad_def str_bytes_def)

lemma secure_channel_fails_closed_witness:
  "decrypt_secure demo_aead sample_secure_de (forged_chunk\<lparr>ec_sequence := 9\<rparr>) sample_channel =
     (sample_channel, Inl Wire_SequenceMismatch) \<and>
   decrypt_secure demo_aead sample_secure_de forged_chunk (sample_channel\<lparr>ch_sequence := 1\<rparr>) =
     (sample_channel\<lparr>ch_sequence := 1\<rparr>, Inl Wire_SequenceMismatch)"
  using secure_channel_fails_closed [of "forged_chunk\<lparr>ec_sequence := 9\<rparr>" sample_channel demo_aead
      sample_secure_de]
    secure_channel_fails_closed [of forged_chunk sample_channel demo_aead sample_secure_de
      "sample_channel\<lparr>ch_sequence := 1\<rparr>" Aead_Decrypt] forged_chunk_refused
  by (simp add: forged_chunk_def sample_channel_def)

section \<open>Transcripts\<close>

definition direct_transcript_for_route :: "human_name option \<Rightarrow> string \<Rightarrow> transcript" where
  "direct_transcript_for_route name route_label =
     (let t = transcript_append
                (transcript_append (transcript_new (str_bytes ''peerline:direct:v1''))
                  (str_bytes ''version'') (be_bytes 2 (unat protocol_version)))
                (str_bytes ''route'') (str_bytes route_label)
      in case name of
           Some n \<Rightarrow> transcript_append t (str_bytes ''name'') (str_bytes (name_str n))
         | None \<Rightarrow> transcript_append t (str_bytes ''name'') (str_bytes ''direct-ip''))"

definition direct_transcript :: "human_name option \<Rightarrow> transcript" where
  "direct_transcript name = direct_transcript_for_route name ''direct-tcp''"

definition libp2p_transcript :: "human_name \<Rightarrow> lookup_key \<Rightarrow> string \<Rightarrow> string \<Rightarrow> transcript" where
  "libp2p_transcript name key peer route_label =
     transcript_append (transcript_append (transcript_append (transcript_append (transcript_append
       (transcript_new (str_bytes ''peerline:libp2p:v1''))
       (str_bytes ''version'') (be_bytes 2 (unat protocol_version)))
       (str_bytes ''route'') (str_bytes route_label))
       (str_bytes ''name'') (str_bytes (name_str name)))
       (str_bytes ''lookup-key'') (key_bytes key))
       (str_bytes ''receiver-peer-id'') (str_bytes peer)"

text \<open>The name as the direct transcript sees it: an unnamed peer counts as \<open>direct-ip\<close>.\<close>

definition transcript_name :: "human_name option \<Rightarrow> string" where
  "transcript_name n = (case n of Some h \<Rightarrow> name_str h | None \<Rightarrow> ''direct-ip'')"

definition parts_bounded :: "transcript \<Rightarrow> bool" where
  "parts_bounded t \<longleftrightarrow> (\<forall>p \<in> set t. length p < 2 ^ 64)"

lemma direct_transcript_inject:
  "direct_transcript_for_route n r = direct_transcript_for_route m q \<longleftrightarrow>
   transcript_name n = transcript_name m \<and> r = q"
  by (auto simp: direct_transcript_for_route_def transcript_append_def transcript_new_def
      transcript_name_def Let_def split: option.splits)

lemma libp2p_transcript_inject:
  "libp2p_transcript n k p r = libp2p_transcript m l q t \<longleftrightarrow>
   n = m \<and> k = l \<and> p = q \<and> r = t"
  by (cases n; cases m; cases k; cases l)
    (auto simp: libp2p_transcript_def transcript_append_def transcript_new_def)

lemma direct_not_libp2p: "direct_transcript_for_route n r \<noteq> libp2p_transcript m k p q"
  by (auto simp: direct_transcript_for_route_def libp2p_transcript_def transcript_append_def
      transcript_new_def Let_def split: option.splits)

text \<open>
  A transcript binds the session to its context: the bytes hashed for two sessions are equal
  only if the sessions agree on the kind of connection, the route, the receiver's name, and, on
  libp2p, the lookup key and the receiver's peer identifier. The one exception is built in: a
  direct session without a name hashes like one with the (valid) name \<open>direct-ip\<close>.
\<close>

theorem transcripts_bind_context:
  assumes "parts_bounded (direct_transcript_for_route n r)" "parts_bounded (direct_transcript_for_route m q)"
    and "parts_bounded (libp2p_transcript h k p s)" "parts_bounded (libp2p_transcript h' k' p' s')"
  shows "(transcript_input (direct_transcript_for_route n r) =
          transcript_input (direct_transcript_for_route m q) \<longleftrightarrow>
      transcript_name n = transcript_name m \<and> r = q) \<and>
    (transcript_input (libp2p_transcript h k p s) = transcript_input (libp2p_transcript h' k' p' s') \<longleftrightarrow>
      h = h' \<and> k = k' \<and> p = p' \<and> s = s') \<and>
    transcript_input (direct_transcript_for_route n r) \<noteq> transcript_input (libp2p_transcript h k p s) \<and>
    direct_transcript_for_route None r = direct_transcript_for_route (Some (HumanName ''direct-ip'')) r \<and>
    human_name_parse ''direct-ip'' = Inr (HumanName ''direct-ip'')"
proof (intro conjI)
  note inj = transcript_input_inject [folded parts_bounded_def]
  show "transcript_input (direct_transcript_for_route n r) =
      transcript_input (direct_transcript_for_route m q) \<longleftrightarrow>
      transcript_name n = transcript_name m \<and> r = q"
    using inj [OF assms(1,2)] direct_transcript_inject by metis
  show "transcript_input (libp2p_transcript h k p s) = transcript_input (libp2p_transcript h' k' p' s') \<longleftrightarrow>
      h = h' \<and> k = k' \<and> p = p' \<and> s = s'"
    using inj [OF assms(3,4)] libp2p_transcript_inject by metis
  show "transcript_input (direct_transcript_for_route n r) \<noteq> transcript_input (libp2p_transcript h k p s)"
    using inj [OF assms(1,3)] direct_not_libp2p by metis
  show "direct_transcript_for_route None r = direct_transcript_for_route (Some (HumanName ''direct-ip'')) r"
    by (simp add: direct_transcript_inject transcript_name_def)
  show "human_name_parse ''direct-ip'' = Inr (HumanName ''direct-ip'')"
    by (simp add: human_name_parse_def result_simps)
      (rule normalize_token_fixpoint, simp add: token_ok_def token_char_def is_lower_def code_def
        starts_with_def ends_with_def)
qed

lemma transcripts_bind_context_witness:
  "transcript_input (direct_transcript_for_route None ''direct-tcp'') \<noteq>
   transcript_input (libp2p_transcript (HumanName ''a'') (LookupKey []) ''p'' ''direct-tcp'')"
  using transcripts_bind_context [of None "''direct-tcp''" None "''direct-tcp''" "HumanName ''a''"
      "LookupKey []" "''p''" "''direct-tcp''" "HumanName ''a''" "LookupKey []" "''p''" "''direct-tcp''"]
  by (simp add: parts_bounded_def direct_transcript_for_route_def libp2p_transcript_def
      transcript_append_def transcript_new_def)

end
