(* ===== verification/Resume.thy ===== *)
theory Resume
  imports Core_Manifest Fs
begin

text \<open>
  \<open>peerline-net/src/resume.rs\<close>: the partially received archives a receiver keeps below its
  destination, so that an interrupted transfer continues where it stopped. Every operation
  runs on the file system and returns it with the result, changed as far as the operation got
  when it failed. The JSON codec, the hex codec and the clock are arguments; the destination
  is given by its components. The size the system reports for a directory is 4096.
\<close>

datatype resume_error =
    Res_Io io_error
  | Res_Json
  | Res_Overflow
  | Res_TooManyBytes
  | Res_SizeMismatch
  | Res_HashMismatch

type_synonym 'a fs_op = "fs \<Rightarrow> fs \<times> (resume_error + 'a)"

definition fs_return :: "'a \<Rightarrow> 'a fs_op" where
  "fs_return x fs = (fs, Inr x)"

definition fs_fail :: "resume_error \<Rightarrow> 'a fs_op" where
  "fs_fail e fs = (fs, Inl e)"

definition fs_bind :: "'a fs_op \<Rightarrow> ('a \<Rightarrow> 'b fs_op) \<Rightarrow> 'b fs_op" where
  "fs_bind m k fs = (case m fs of (fs', Inl e) \<Rightarrow> (fs', Inl e) | (fs', Inr x) \<Rightarrow> k x fs')"

definition fs_run :: "(fs \<Rightarrow> io_error + fs) \<Rightarrow> unit fs_op" where
  "fs_run op fs = (case op fs of Inl e \<Rightarrow> (fs, Inl (Res_Io e)) | Inr fs' \<Rightarrow> (fs', Inr ()))"

lemma fs_bind_Inr:
  "fs_bind m k fs = (fs', Inr y) \<longleftrightarrow> (\<exists>fs1 x. m fs = (fs1, Inr x) \<and> k x fs1 = (fs', Inr y))"
  by (auto simp: fs_bind_def split: prod.splits sum.splits)

lemma fs_run_Inr: "fs_run op fs = (fs', Inr u) \<longleftrightarrow> op fs = Inr fs'"
  by (auto simp: fs_run_def split: sum.splits)

lemma fs_return_Inr: "fs_return x fs = (fs', Inr y) \<longleftrightarrow> fs' = fs \<and> y = x"
  by (auto simp: fs_return_def)

lemmas fs_op_simps = fs_bind_Inr fs_run_Inr fs_return_Inr fs_fail_def

definition partial_retention_secs :: u64 where
  "partial_retention_secs = 24 * 60 * 60"

record resume_state =
  rs_path :: path
  rs_metadata_path :: path
  rs_offset :: u64

record partial_metadata =
  pm_source_id :: node_id
  pm_resource_id :: resource_id
  pm_archive_bytes :: u64
  pm_logical_bytes :: u64
  pm_files :: nat
  pm_received_bytes :: u64
  pm_updated_at_unix :: u64

record json_codec =
  to_json :: "partial_metadata \<Rightarrow> bytes option"
  from_json :: "bytes \<Rightarrow> partial_metadata option"

definition metadata_for :: "transfer_descriptor \<Rightarrow> u64 \<Rightarrow> u64 \<Rightarrow> partial_metadata" where
  "metadata_for d received now =
     \<lparr>pm_source_id = td_source_id d, pm_resource_id = td_resource_id d,
      pm_archive_bytes = td_archive_bytes d, pm_logical_bytes = td_logical_bytes d,
      pm_files = td_files d, pm_received_bytes = received, pm_updated_at_unix = now\<rparr>"

definition metadata_matches :: "partial_metadata \<Rightarrow> transfer_descriptor \<Rightarrow> bool" where
  "metadata_matches m d \<longleftrightarrow>
     pm_source_id m = td_source_id d \<and> pm_resource_id m = td_resource_id d \<and>
     pm_archive_bytes m = td_archive_bytes d \<and> pm_logical_bytes m = td_logical_bytes d \<and>
     pm_files m = td_files d"

definition resume_root :: "path \<Rightarrow> path" where
  "resume_root D = D @ [Normal ''.peerline-resume'']"

definition partial_dir :: "(bytes \<Rightarrow> string) \<Rightarrow> path \<Rightarrow> node_id \<Rightarrow> resource_id \<Rightarrow> path" where
  "partial_dir hex D src res =
     resume_root D @ [Normal (node_id_hex hex src), Normal (resource_id_hex hex res)]"

definition read_metadata :: "json_codec \<Rightarrow> path \<Rightarrow> fs \<Rightarrow> resume_error + partial_metadata" where
  "read_metadata js p fs =
     (case read_file p fs of
        Inl e \<Rightarrow> Inl (Res_Io e)
      | Inr bs \<Rightarrow> ok_or (from_json js bs) Res_Json)"

definition write_metadata :: "json_codec \<Rightarrow> path \<Rightarrow> partial_metadata \<Rightarrow> unit fs_op" where
  "write_metadata js p m =
     fs_bind (case path_parent p of None \<Rightarrow> fs_return () | Some d \<Rightarrow> fs_run (create_dir_all d)) (\<lambda>_.
     let temp = with_extension p ''json.tmp'' in
     case to_json js m of
       None \<Rightarrow> fs_fail Res_Json
     | Some payload \<Rightarrow>
         fs_bind (fs_run (write_file temp payload)) (\<lambda>_. fs_run (rename_file temp p)))"

definition prune_dir :: "path \<Rightarrow> fs \<Rightarrow> fs" where
  "prune_dir d fs =
     (if read_dir d fs = Inr [] then (case remove_dir d fs of Inl _ \<Rightarrow> fs | Inr fs' \<Rightarrow> fs') else fs)"

definition prune_empty_partial_dirs :: "path \<Rightarrow> fs \<Rightarrow> fs" where
  "prune_empty_partial_dirs part fs =
     (case path_parent part of
        None \<Rightarrow> fs
      | Some resource_dir \<Rightarrow>
          (case path_parent resource_dir of
             None \<Rightarrow> fs
           | Some source_dir \<Rightarrow>
               (case path_parent source_dir of
                  None \<Rightarrow> fs
                | Some root_dir \<Rightarrow>
                    prune_dir root_dir (prune_dir source_dir (prune_dir resource_dir fs)))))"

definition remove_if_present :: "path \<Rightarrow> unit fs_op" where
  "remove_if_present p fs =
     (case remove_file p fs of
        Inr fs' \<Rightarrow> (fs', Inr ())
      | Inl NotFound \<Rightarrow> (fs, Inr ())
      | Inl e \<Rightarrow> (fs, Inl (Res_Io e)))"

definition remove_partial_paths :: "path \<Rightarrow> path \<Rightarrow> unit fs_op" where
  "remove_partial_paths part meta =
     fs_bind (remove_if_present part) (\<lambda>_.
     fs_bind (remove_if_present meta) (\<lambda>_ fs. (prune_empty_partial_dirs part fs, Inr ())))"

definition remove_partial :: "resume_state \<Rightarrow> unit fs_op" where
  "remove_partial st = remove_partial_paths (rs_path st) (rs_metadata_path st)"

definition saturating_sub :: "u64 \<Rightarrow> u64 \<Rightarrow> u64" where
  "saturating_sub a b = (if b \<le> a then a - b else 0)"

definition is_stale :: "json_codec \<Rightarrow> u64 \<Rightarrow> path \<Rightarrow> fs \<Rightarrow> bool" where
  "is_stale js cutoff resource fs =
     (case read_metadata js (resource @ [Normal ''metadata.json'']) fs of
        Inl _ \<Rightarrow> True
      | Inr m \<Rightarrow> pm_updated_at_unix m < cutoff)"

definition cleanup_resource :: "json_codec \<Rightarrow> u64 \<Rightarrow> path \<Rightarrow> fs \<Rightarrow> string \<Rightarrow> fs" where
  "cleanup_resource js cutoff source fs name =
     (let resource = source @ [Normal name] in
      if is_stale js cutoff resource fs
      then (case remove_dir_all resource fs of Inl _ \<Rightarrow> fs | Inr fs' \<Rightarrow> fs') else fs)"

definition cleanup_source :: "json_codec \<Rightarrow> u64 \<Rightarrow> path \<Rightarrow> fs \<Rightarrow> string \<Rightarrow> fs" where
  "cleanup_source js cutoff root_dir fs name =
     (let source = root_dir @ [Normal name] in
      case read_dir source fs of
        Inl _ \<Rightarrow> fs
      | Inr resources \<Rightarrow> prune_dir source (foldl (cleanup_resource js cutoff source) fs resources))"

definition cleanup_expired :: "json_codec \<Rightarrow> u64 \<Rightarrow> path \<Rightarrow> fs \<Rightarrow> fs" where
  "cleanup_expired js now D fs =
     (case read_dir (resume_root D) fs of
        Inl _ \<Rightarrow> fs
      | Inr sources \<Rightarrow>
          foldl (cleanup_source js (saturating_sub now partial_retention_secs) (resume_root D)) fs sources)"

definition file_len :: "path \<Rightarrow> fs \<Rightarrow> resume_error + u64" where
  "file_len p fs =
     (case map_of fs p of
        None \<Rightarrow> Inl (Res_Io NotFound)
      | Some DirN \<Rightarrow> Inr 4096
      | Some (FileN b) \<Rightarrow> Inr (of_nat (length b)))"

text \<open>The offset a partial on disk allows, removing it when it does not fit.\<close>

definition usable_offset :: "json_codec \<Rightarrow> transfer_descriptor \<Rightarrow> path \<Rightarrow> path \<Rightarrow> u64 fs_op" where
  "usable_offset js d part meta fs =
     (if fs_exists part fs \<and> fs_exists meta fs then
        (case read_metadata js meta fs of
           Inr m \<Rightarrow>
             if metadata_matches m d then
               (case file_len part fs of
                  Inl e \<Rightarrow> (fs, Inl e)
                | Inr len \<Rightarrow>
                    if len \<le> td_archive_bytes d \<and> len = pm_received_bytes m then (fs, Inr len)
                    else fs_bind (remove_partial_paths part meta) (\<lambda>_. fs_return 0) fs)
             else fs_bind (remove_partial_paths part meta) (\<lambda>_. fs_return 0) fs
         | Inl _ \<Rightarrow> fs_bind (remove_partial_paths part meta) (\<lambda>_. fs_return 0) fs)
      else if fs_exists part fs \<or> fs_exists meta fs then
        fs_bind (remove_partial_paths part meta) (\<lambda>_. fs_return 0) fs
      else (fs, Inr 0))"

definition resume_open ::
  "(bytes \<Rightarrow> string) \<Rightarrow> json_codec \<Rightarrow> u64 \<Rightarrow> path \<Rightarrow> transfer_descriptor \<Rightarrow> resume_state fs_op" where
  "resume_open hex js now D d fs0 =
     (let fs = cleanup_expired js now D fs0;
          dir = partial_dir hex D (td_source_id d) (td_resource_id d);
          part = dir @ [Normal ''archive.part''];
          meta = dir @ [Normal ''metadata.json'']
      in fs_bind (fs_run (create_dir_all dir)) (\<lambda>_.
         fs_bind (usable_offset js d part meta) (\<lambda>offset.
         fs_bind (if offset = 0 then write_metadata js meta (metadata_for d 0 now) else fs_return ())
           (\<lambda>_. fs_return \<lparr>rs_path = part, rs_metadata_path = meta, rs_offset = offset\<rparr>))) fs)"

text \<open>
  \<open>append_chunk\<close> changes the state it is given even when it then fails, so it returns the
  state beside the result.
\<close>

definition append_chunk ::
  "json_codec \<Rightarrow> u64 \<Rightarrow> transfer_descriptor \<Rightarrow> bytes \<Rightarrow> resume_state \<Rightarrow> fs \<Rightarrow>
   fs \<times> resume_state \<times> (resume_error + u64)" where
  "append_chunk js now d bs st fs =
     (case append_file (rs_path st) bs fs of
        Inl e \<Rightarrow> (fs, st, Inl (Res_Io e))
      | Inr fs1 \<Rightarrow>
          (case checked_add (rs_offset st) (of_nat (length bs)) of
             None \<Rightarrow> (fs1, st, Inl Res_Overflow)
           | Some offset \<Rightarrow>
               let st1 = st\<lparr>rs_offset := offset\<rparr> in
               if td_archive_bytes d < offset then (fs1, st1, Inl Res_TooManyBytes)
               else case write_metadata js (rs_metadata_path st1) (metadata_for d offset now) fs1 of
                 (fs2, Inl e) \<Rightarrow> (fs2, st1, Inl e)
               | (fs2, Inr _) \<Rightarrow> (fs2, st1, Inr offset)))"

definition complete_partial ::
  "(bytes \<Rightarrow> bytes) \<Rightarrow> resume_state \<Rightarrow> transfer_descriptor \<Rightarrow> bytes fs_op" where
  "complete_partial blake3 st d fs =
     (case read_file (rs_path st) fs of
        Inl e \<Rightarrow> (fs, Inl (Res_Io e))
      | Inr content \<Rightarrow>
          if of_nat (length content) \<noteq> td_archive_bytes d then
            fs_bind (remove_partial st) (\<lambda>_. fs_fail Res_SizeMismatch) fs
          else if ResourceId (blake3 content) \<noteq> td_resource_id d then
            fs_bind (remove_partial st) (\<lambda>_. fs_fail Res_HashMismatch) fs
          else (fs, Inr content))"

section \<open>The files of one partial\<close>

definition part_path :: "path \<Rightarrow> path" where
  "part_path dir = dir @ [Normal ''archive.part'']"

definition meta_path :: "path \<Rightarrow> path" where
  "meta_path dir = dir @ [Normal ''metadata.json'']"

definition temp_path :: "path \<Rightarrow> path" where
  "temp_path dir = dir @ [Normal ''metadata.json.tmp'']"

definition json_ok :: "json_codec \<Rightarrow> bool" where
  "json_ok js \<longleftrightarrow> (\<forall>m b. to_json js m = Some b \<longrightarrow> from_json js b = Some m)"

lemma temp_of_meta: "with_extension (meta_path dir) ''json.tmp'' = temp_path dir"
  by (simp add: with_extension_def file_stem_def file_name_def rsplit_dot_def meta_path_def
      temp_path_def)

lemma partial_paths_distinct [simp]:
  "meta_path dir \<noteq> part_path dir" "part_path dir \<noteq> meta_path dir"
  "temp_path dir \<noteq> part_path dir" "part_path dir \<noteq> temp_path dir"
  "temp_path dir \<noteq> meta_path dir" "meta_path dir \<noteq> temp_path dir"
  by (simp_all add: part_path_def meta_path_def temp_path_def)

lemma parent_of_meta: "path_parent (meta_path dir) = Some dir"
  by (simp add: path_parent_def meta_path_def)

lemma parent_of_part: "path_parent (part_path dir) = Some dir"
  by (simp add: path_parent_def part_path_def)

lemma not_prefix_dir:
  "\<not> path_prefix (part_path dir) dir" "\<not> path_prefix (meta_path dir) dir"
  by (auto simp: part_path_def meta_path_def path_prefix_iff dest: arg_cong [where f = length])

lemma write_metadata_effect:
  assumes "write_metadata js (meta_path dir) m fs = (fs', Inr ())" "json_ok js"
  shows "read_metadata js (meta_path dir) fs' = Inr m"
    and "q \<noteq> meta_path dir \<Longrightarrow> q \<noteq> temp_path dir \<Longrightarrow> \<not> path_prefix q dir \<Longrightarrow> map_of fs' q = map_of fs q"
    and "is_dir dir fs'"
proof -
  from assms(1) obtain fs1 payload fs2 where p: "create_dir_all dir fs = Inr fs1"
      "to_json js m = Some payload" "write_file (temp_path dir) payload fs1 = Inr fs2"
      "rename_file (temp_path dir) (meta_path dir) fs2 = Inr fs'"
    by (auto simp: write_metadata_def parent_of_meta temp_of_meta Let_def fs_op_simps
        split: option.splits)
  from p(3) have fs2: "fs2 = fs_put (temp_path dir) (FileN payload) fs1" by (simp add: write_file_Inr)
  with rename_file_Inr [OF p(4)] have fs': "fs' =
      fs_put (meta_path dir) (FileN payload) (fs_del (temp_path dir) fs2)"
    by simp
  show "read_metadata js (meta_path dir) fs' = Inr m"
    using assms(2) p(2) by (simp add: read_metadata_def read_file_def fs' json_ok_def)
  show "map_of fs' q = map_of fs q" if "q \<noteq> meta_path dir" "q \<noteq> temp_path dir" "\<not> path_prefix q dir"
    using that create_dir_all_keeps_other [OF p(1)] by (simp add: fs' fs2)
  have "dir \<noteq> meta_path dir" "dir \<noteq> temp_path dir"
    by (auto simp: meta_path_def temp_path_def dest: arg_cong [where f = length])
  then show "is_dir dir fs'"
    using create_dir_all_dir [OF p(1)] by (auto simp: is_dir_def fs' fs2)
qed

section \<open>A valid partial and what keeps it valid\<close>

definition partial_valid ::
  "json_codec \<Rightarrow> transfer_descriptor \<Rightarrow> path \<Rightarrow> bytes \<Rightarrow> fs \<Rightarrow> bool" where
  "partial_valid js d dir content fs \<longleftrightarrow>
     (map_of fs (part_path dir) = Some (FileN content) \<or>
      content = [] \<and> map_of fs (part_path dir) = None) \<and>
     length content \<le> unat (td_archive_bytes d) \<and>
     (case read_metadata js (meta_path dir) fs of
        Inl _ \<Rightarrow> False
      | Inr m \<Rightarrow> metadata_matches m d \<and> pm_received_bytes m = of_nat (length content))"

lemma metadata_for_matches [simp]:
  "metadata_matches (metadata_for d r now) d" "pm_received_bytes (metadata_for d r now) = r"
  "pm_updated_at_unix (metadata_for d r now) = now"
  by (simp_all add: metadata_matches_def metadata_for_def)

lemma append_chunk_valid:
  assumes valid: "partial_valid js d dir content fs" and js: "json_ok js"
    and st: "rs_path st = part_path dir" "rs_metadata_path st = meta_path dir"
      "rs_offset st = of_nat (length content)"
    and ok: "append_chunk js now d bs st fs = (fs', st', Inr offset)" and small: "length bs < 2 ^ 64"
  shows "partial_valid js d dir (content @ bs) fs' \<and> offset = of_nat (length (content @ bs)) \<and>
    st' = st\<lparr>rs_offset := offset\<rparr>"
proof -
  have "length content < 2 ^ 64"
    using valid unsigned_less [of "td_archive_bytes d", where ?'a = nat]
    by (simp add: partial_valid_def)
  then have len: "unat (of_nat (length content) :: u64) = length content"
    by (simp add: unat_of_nat)
  have len2: "unat (of_nat (length bs) :: u64) = length bs"
    using small by (simp add: unat_of_nat)
  from ok obtain fs1 where p: "append_file (part_path dir) bs fs = Inr fs1"
      "checked_add (rs_offset st) (of_nat (length bs)) = Some offset" "\<not> td_archive_bytes d < offset"
      "write_metadata js (meta_path dir) (metadata_for d offset now) fs1 = (fs', Inr ())"
      "st' = st\<lparr>rs_offset := offset\<rparr>"
    by (auto simp: append_chunk_def Let_def st split: sum.splits option.splits prod.splits if_splits)
  have off: "unat offset = length content + length bs"
    using checked_add_Some [OF p(2)] by (simp only: st len len2)
  have fs1: "fs1 = fs_put (part_path dir) (FileN (content @ bs)) fs"
    using append_file_Inr [OF p(1)] valid by (auto simp: partial_valid_def)
  note w = write_metadata_effect [OF p(4) js]
  have part: "map_of fs' (part_path dir) = Some (FileN (content @ bs))"
    using w(2) [of "part_path dir"] by (simp add: fs1 not_prefix_dir)
  have "offset = of_nat (unat offset)" by simp
  then have "offset = of_nat (length (content @ bs))" by (simp only: off length_append)
  moreover have "length (content @ bs) \<le> unat (td_archive_bytes d)"
    using p(3) off by (simp add: word_less_nat_alt)
  ultimately show ?thesis
    using part w(1) p(5) by (simp add: partial_valid_def)
qed

lemma remove_if_present_effect:
  assumes "remove_if_present p fs = (fs', Inr ())"
  shows "map_of fs' p = None" "\<And>q. q \<noteq> p \<Longrightarrow> map_of fs' q = map_of fs q"
  using assms
  by (auto simp: remove_if_present_def remove_file_def split: option.splits node.splits)

lemma prune_dir_effect: "map_of (prune_dir d fs) q = map_of fs q \<or> q = d"
  by (auto simp: prune_dir_def remove_dir_def split: sum.splits)

lemma prune_dir_gone: "map_of fs q = None \<Longrightarrow> map_of (prune_dir d fs) q = None"
  by (auto simp: prune_dir_def remove_dir_def split: sum.splits)

lemma prune_partial_gone: "map_of fs q = None \<Longrightarrow> map_of (prune_empty_partial_dirs p fs) q = None"
  by (simp add: prune_empty_partial_dirs_def prune_dir_gone split: option.splits)

lemma remove_partial_paths_effect:
  assumes "remove_partial_paths (part_path dir) (meta_path dir) fs = (fs', Inr ())"
  shows "map_of fs' (part_path dir) = None" "map_of fs' (meta_path dir) = None"
proof -
  from assms obtain fs1 fs2 where r: "remove_if_present (part_path dir) fs = (fs1, Inr ())"
      "remove_if_present (meta_path dir) fs1 = (fs2, Inr ())"
      "fs' = prune_empty_partial_dirs (part_path dir) fs2"
    by (auto simp: remove_partial_paths_def fs_bind_Inr)
  have "map_of fs2 (part_path dir) = None"
    using remove_if_present_effect(1) [OF r(1)] remove_if_present_effect(2) [OF r(2)] by simp
  then show "map_of fs' (part_path dir) = None" by (simp add: r(3) prune_partial_gone)
  show "map_of fs' (meta_path dir) = None"
    using remove_if_present_effect(1) [OF r(2)] by (simp add: r(3) prune_partial_gone)
qed

lemma removed_part:
  "fs_bind (remove_partial_paths (part_path dir) (meta_path dir)) (\<lambda>_. fs_return 0) fs = (fs', Inr offset) \<Longrightarrow>
   offset = 0 \<and> map_of fs' (part_path dir) = None"
  by (auto simp: fs_bind_Inr fs_return_Inr dest: remove_partial_paths_effect(1))

lemma usable_offset_cases:
  assumes "usable_offset js d (part_path dir) (meta_path dir) fs = (fs', Inr offset)"
  shows "offset = 0 \<and> map_of fs' (part_path dir) = None \<or>
    fs' = fs \<and> offset \<le> td_archive_bytes d \<and> file_len (part_path dir) fs = Inr offset \<and>
      (\<exists>m. read_metadata js (meta_path dir) fs = Inr m \<and> metadata_matches m d \<and>
        pm_received_bytes m = offset)"
  using assms
  by (auto simp: usable_offset_def fs_exists_def dest!: removed_part split: if_splits sum.splits)

section \<open>Expiry\<close>

text \<open>Below a directory nothing has changed.\<close>

definition same_below :: "path \<Rightarrow> fs \<Rightarrow> fs \<Rightarrow> bool" where
  "same_below dir fs fs' \<longleftrightarrow> (\<forall>q. path_prefix dir q \<longrightarrow> map_of fs' q = map_of fs q)"

lemma same_below_trans: "same_below dir fs fs1 \<Longrightarrow> same_below dir fs1 fs2 \<Longrightarrow> same_below dir fs fs2"
  by (simp add: same_below_def)

lemma same_below_stale: "same_below dir fs fs' \<Longrightarrow> is_stale js c dir fs' = is_stale js c dir fs"
  by (simp add: same_below_def is_stale_def read_metadata_def read_file_def)

lemma cleanup_resource_keeps:
  assumes "\<not> is_stale js c (base @ [Normal s0, Normal r0]) fs"
  shows "same_below (base @ [Normal s0, Normal r0]) fs (cleanup_resource js c (base @ [Normal s]) fs r)"
proof (cases "s = s0 \<and> r = r0")
  case True
  with assms show ?thesis by (simp add: cleanup_resource_def same_below_def)
next
  case False
  then have "\<not> path_prefix (base @ [Normal s, Normal r]) q"
    if "path_prefix (base @ [Normal s0, Normal r0]) q" for q
    using that by (auto simp: path_prefix_iff)
  then show ?thesis
    by (auto simp: cleanup_resource_def Let_def same_below_def map_of_remove_all split: sum.splits)
qed

lemma cleanup_resources_keep:
  "\<not> is_stale js c (base @ [Normal s0, Normal r0]) fs \<Longrightarrow>
   same_below (base @ [Normal s0, Normal r0]) fs (foldl (cleanup_resource js c (base @ [Normal s])) fs rs)"
proof (induction rs arbitrary: fs)
  case Nil
  then show ?case by (simp add: same_below_def)
next
  case (Cons r rs)
  note one = cleanup_resource_keeps [OF Cons.prems, of s r]
  from Cons.prems same_below_stale [OF one, of js c]
  have "\<not> is_stale js c (base @ [Normal s0, Normal r0]) (cleanup_resource js c (base @ [Normal s]) fs r)"
    by simp
  from same_below_trans [OF one Cons.IH [OF this]] show ?case by simp
qed

lemma prune_dir_keeps_below:
  "length d < length dir \<Longrightarrow> same_below dir fs (prune_dir d fs)"
  unfolding same_below_def using prune_dir_effect [of d fs] path_prefix_length [of dir]
  by (metis linorder_not_less)

lemma cleanup_source_keeps:
  assumes "\<not> is_stale js c (base @ [Normal s0, Normal r0]) fs"
  shows "same_below (base @ [Normal s0, Normal r0]) fs (cleanup_source js c base fs s)"
  using same_below_trans [OF cleanup_resources_keep [OF assms] prune_dir_keeps_below]
  by (auto simp: cleanup_source_def Let_def same_below_def split: sum.splits)

lemma cleanup_sources_keep:
  "\<not> is_stale js c (base @ [Normal s0, Normal r0]) fs \<Longrightarrow>
   same_below (base @ [Normal s0, Normal r0]) fs (foldl (cleanup_source js c base) fs ss)"
proof (induction ss arbitrary: fs)
  case Nil
  then show ?case by (simp add: same_below_def)
next
  case (Cons s ss)
  note one = cleanup_source_keeps [OF Cons.prems, of s]
  from Cons.prems same_below_stale [OF one, of js c]
  have "\<not> is_stale js c (base @ [Normal s0, Normal r0]) (cleanup_source js c base fs s)" by simp
  from same_below_trans [OF one Cons.IH [OF this]] show ?case by simp
qed

lemma cleanup_expired_keeps:
  "\<not> is_stale js (saturating_sub now partial_retention_secs) (resume_root D @ [Normal s0, Normal r0]) fs \<Longrightarrow>
   same_below (resume_root D @ [Normal s0, Normal r0]) fs (cleanup_expired js now D fs)"
  by (auto simp: cleanup_expired_def cleanup_sources_keep same_below_def [of _ fs fs] split: sum.splits)

text \<open>Expiry never touches a path outside the resume directory.\<close>

lemma cleanup_resource_outside:
  "\<not> path_prefix source q \<Longrightarrow> map_of (cleanup_resource js c source fs r) q = map_of fs q"
proof -
  have "path_prefix (source @ [Normal r]) q \<Longrightarrow> path_prefix source q"
    by (auto simp: path_prefix_iff)
  then show "\<not> path_prefix source q \<Longrightarrow> ?thesis"
    by (auto simp: cleanup_resource_def Let_def map_of_remove_all split: sum.splits)
qed

lemma cleanup_source_outside:
  assumes "\<not> path_prefix base q"
  shows "map_of (cleanup_source js c base fs s) q = map_of fs q"
proof -
  have ns: "\<not> path_prefix (base @ [Normal s]) q" "q \<noteq> base @ [Normal s]"
    using assms by (auto simp: path_prefix_iff)
  have "map_of (foldl (cleanup_resource js c (base @ [Normal s])) fs rs) q = map_of fs q" for rs
    by (induction rs arbitrary: fs) (simp_all add: cleanup_resource_outside [OF ns(1)])
  with ns(2) prune_dir_effect show ?thesis
    by (auto simp: cleanup_source_def Let_def split: sum.splits) metis
qed

lemma cleanup_expired_outside:
  assumes "\<not> path_prefix (resume_root D) q"
  shows "map_of (cleanup_expired js now D fs) q = map_of fs q"
proof -
  have "map_of (foldl (cleanup_source js c (resume_root D)) fs ss) q = map_of fs q" for c ss
    by (induction ss arbitrary: fs) (simp_all add: cleanup_source_outside [OF assms])
  then show ?thesis by (simp add: cleanup_expired_def split: sum.splits)
qed

section \<open>Resuming\<close>

text \<open>The part file, if present, is a file whose length a 64-bit size can hold.\<close>

definition part_plain :: "path \<Rightarrow> fs \<Rightarrow> bool" where
  "part_plain dir fs \<longleftrightarrow>
     (case map_of fs (part_path dir) of
        None \<Rightarrow> True | Some DirN \<Rightarrow> False | Some (FileN b) \<Rightarrow> length b < 2 ^ 64)"

lemma small_zero: "length b < 2 ^ 64 \<Longrightarrow> (of_nat (length b) :: u64) = 0 \<longleftrightarrow> b = []"
  by (auto simp: word_unat_eq_iff unat_of_nat)

lemma small_le: "length b < 2 ^ 64 \<Longrightarrow> (of_nat (length b) :: u64) \<le> x \<longleftrightarrow> length b \<le> unat x"
  by (simp add: word_le_nat_alt unat_of_nat)

lemma usable_offset_valid:
  assumes u: "usable_offset js d (part_path dir) (meta_path dir) fs = (fs', Inr offset)"
    and plain: "part_plain dir fs"
  shows "\<exists>content. offset = of_nat (length content) \<and> (content = [] \<longleftrightarrow> offset = 0) \<and>
    (if content = [] then map_of fs' (part_path dir) = None \<or> map_of fs' (part_path dir) = Some (FileN [])
     else partial_valid js d dir content fs' \<and> fs' = fs)"
  using usable_offset_cases [OF u]
proof (elim disjE conjE exE)
  assume "offset = 0" "map_of fs' (part_path dir) = None"
  then show ?thesis by (intro exI [of _ "[]"]) simp
next
  fix m
  assume keep: "fs' = fs" "offset \<le> td_archive_bytes d" "file_len (part_path dir) fs = Inr offset"
    "read_metadata js (meta_path dir) fs = Inr m" "metadata_matches m d" "pm_received_bytes m = offset"
  from plain keep(3) obtain b where b: "map_of fs (part_path dir) = Some (FileN b)" "length b < 2 ^ 64"
      "offset = of_nat (length b)"
    by (auto simp: part_plain_def file_len_def split: option.splits node.splits)
  with keep show ?thesis
    by (intro exI [of _ b]) (auto simp: small_zero small_le partial_valid_def)
qed

lemma same_below_plain: "same_below dir fs fs' \<Longrightarrow> part_plain dir fs' = part_plain dir fs"
  by (simp add: same_below_def part_plain_def part_path_def)

lemma same_below_valid:
  "same_below dir fs fs' \<Longrightarrow> partial_valid js d dir content fs' = partial_valid js d dir content fs"
  by (simp add: same_below_def partial_valid_def part_path_def meta_path_def read_metadata_def
      read_file_def)

lemma resume_open_Inr:
  assumes "resume_open hex js now D d fs0 = (fs', Inr st)"
  defines "dir \<equiv> partial_dir hex D (td_source_id d) (td_resource_id d)"
  shows "\<exists>fs1 fs2 offset. create_dir_all dir (cleanup_expired js now D fs0) = Inr fs1 \<and>
    usable_offset js d (part_path dir) (meta_path dir) fs1 = (fs2, Inr offset) \<and>
    (if offset = 0 then write_metadata js (meta_path dir) (metadata_for d 0 now) fs2 = (fs', Inr ())
     else fs' = fs2) \<and>
    st = \<lparr>rs_path = part_path dir, rs_metadata_path = meta_path dir, rs_offset = offset\<rparr>"
  using assms(1)
  by (auto simp: resume_open_def Let_def fs_op_simps part_path_def [symmetric] meta_path_def [symmetric]
      dir_def [symmetric] split: if_splits)

text \<open>
  C12. Resuming is sound: whatever a receiver's disk holds, when \<open>resume_state\<close> answers with an
  offset, the part file on disk holds exactly that many bytes, the metadata beside it names this
  very transfer and the same count, and the count does not exceed the archive; in particular a
  part file that a crash left out of step with its metadata is never resumed.
\<close>

theorem resume_open_sound:
  assumes "resume_open hex js now D d fs0 = (fs', Inr st)" "json_ok js"
    and plain: "part_plain (partial_dir hex D (td_source_id d) (td_resource_id d)) (cleanup_expired js now D fs0)"
  shows "\<exists>content.
    partial_valid js d (partial_dir hex D (td_source_id d) (td_resource_id d)) content fs' \<and>
    rs_offset st = of_nat (length content) \<and>
    rs_path st = part_path (partial_dir hex D (td_source_id d) (td_resource_id d)) \<and>
    rs_metadata_path st = meta_path (partial_dir hex D (td_source_id d) (td_resource_id d))"
proof -
  let ?dir = "partial_dir hex D (td_source_id d) (td_resource_id d)"
  from resume_open_Inr [OF assms(1)] obtain fs1 fs2 offset where r:
      "create_dir_all ?dir (cleanup_expired js now D fs0) = Inr fs1"
      "usable_offset js d (part_path ?dir) (meta_path ?dir) fs1 = (fs2, Inr offset)"
      "if offset = 0 then write_metadata js (meta_path ?dir) (metadata_for d 0 now) fs2 = (fs', Inr ())
       else fs' = fs2"
      "st = \<lparr>rs_path = part_path ?dir, rs_metadata_path = meta_path ?dir, rs_offset = offset\<rparr>"
    by blast
  have "part_plain ?dir fs1"
    using plain create_dir_all_keeps_other [OF r(1) not_prefix_dir(1)] by (simp add: part_plain_def)
  from usable_offset_valid [OF r(2) this] obtain content where c: "offset = of_nat (length content)"
      "content = [] \<longleftrightarrow> offset = 0"
      "if content = [] then map_of fs2 (part_path ?dir) = None \<or> map_of fs2 (part_path ?dir) = Some (FileN [])
       else partial_valid js d ?dir content fs2 \<and> fs2 = fs1"
    by blast
  have "partial_valid js d ?dir content fs'"
  proof (cases "offset = 0")
    case True
    with r(3) have w: "write_metadata js (meta_path ?dir) (metadata_for d 0 now) fs2 = (fs', Inr ())" by simp
    have "map_of fs' (part_path ?dir) = map_of fs2 (part_path ?dir)"
      by (rule write_metadata_effect(2) [OF w assms(2)]) (simp_all add: not_prefix_dir)
    with True c write_metadata_effect(1) [OF w assms(2)] show ?thesis by (auto simp: partial_valid_def)
  next
    case False
    with c r(3) show ?thesis by auto
  qed
  with c(1) r(4) show ?thesis by auto
qed

text \<open>
  C25. Resuming is complete: a valid partial that was last written within the retention period
  survives the expiry run, and \<open>resume_state\<close> then offers its whole length and leaves its bytes
  alone, however many other partials expire.
\<close>

theorem resume_open_continues:
  assumes valid: "partial_valid js d (partial_dir hex D (td_source_id d) (td_resource_id d)) content fs"
    and content: "content \<noteq> []"
    and fresh: "\<not> is_stale js (saturating_sub now partial_retention_secs)
      (partial_dir hex D (td_source_id d) (td_resource_id d)) fs"
    and dir: "is_dir (partial_dir hex D (td_source_id d) (td_resource_id d)) fs"
  shows "\<exists>fs' st. resume_open hex js now D d fs = (fs', Inr st) \<and> rs_offset st = of_nat (length content) \<and>
    partial_valid js d (partial_dir hex D (td_source_id d) (td_resource_id d)) content fs'"
proof -
  let ?dir = "partial_dir hex D (td_source_id d) (td_resource_id d)"
  let ?fs = "cleanup_expired js now D fs"
  have same: "same_below ?dir fs ?fs"
    using cleanup_expired_keeps fresh by (simp add: partial_dir_def)
  then have valid': "partial_valid js d ?dir content ?fs"
    using valid by (simp add: same_below_valid)
  have "is_dir ?dir ?fs"
    using dir same by (simp add: is_dir_def same_below_def)
  then have cd: "create_dir_all ?dir ?fs = Inr ?fs" by (rule create_dir_all_existing)
  have part: "map_of ?fs (part_path ?dir) = Some (FileN content)"
    using valid' content by (simp add: partial_valid_def)
  have small: "length content < 2 ^ 64"
    using valid' unsigned_less [of "td_archive_bytes d", where ?'a = nat] by (simp add: partial_valid_def)
  from valid' obtain m where m: "read_metadata js (meta_path ?dir) ?fs = Inr m" "metadata_matches m d"
      "pm_received_bytes m = of_nat (length content)"
    by (auto simp: partial_valid_def split: sum.splits)
  have "fs_exists (meta_path ?dir) ?fs"
    using m(1) by (auto simp: read_metadata_def read_file_def fs_exists_def split: option.splits)
  moreover have "fs_exists (part_path ?dir) ?fs" using part by (simp add: fs_exists_def)
  moreover have "of_nat (length content) \<le> td_archive_bytes d"
    using valid' small by (simp add: small_le partial_valid_def)
  ultimately have u: "usable_offset js d (part_path ?dir) (meta_path ?dir) ?fs =
      (?fs, Inr (of_nat (length content)))"
    using m part by (simp add: usable_offset_def file_len_def)
  have "resume_open hex js now D d fs = (?fs, Inr \<lparr>rs_path = part_path ?dir,
      rs_metadata_path = meta_path ?dir, rs_offset = of_nat (length content)\<rparr>)"
    using cd u content small
    by (simp add: resume_open_def Let_def part_path_def [symmetric] meta_path_def [symmetric]
        fs_bind_def fs_run_def fs_return_def small_zero)
  with valid' show ?thesis by simp
qed

text \<open>
  Receiving a chunk extends a valid partial by exactly the chunk and keeps it valid; the
  offset reported is the new length, and it never passes the announced size of the archive.
\<close>

theorem append_chunk_extends:
  assumes "partial_valid js d dir content fs" "json_ok js" "length bs < 2 ^ 64"
    and "append_chunk js now d bs
      \<lparr>rs_path = part_path dir, rs_metadata_path = meta_path dir, rs_offset = of_nat (length content)\<rparr> fs =
      (fs', st', Inr offset)"
  shows "partial_valid js d dir (content @ bs) fs' \<and> offset = of_nat (length (content @ bs)) \<and>
    rs_offset st' = offset \<and> offset \<le> td_archive_bytes d"
proof -
  have v: "partial_valid js d dir (content @ bs) fs' \<and> offset = of_nat (length (content @ bs)) \<and>
      rs_offset st' = offset"
    using append_chunk_valid [OF assms(1,2) _ _ _ assms(4,3)] by simp
  moreover have "length (content @ bs) \<le> unat (td_archive_bytes d)"
    using v by (simp add: partial_valid_def)
  moreover from this have "length (content @ bs) < 2 ^ 64"
    using unsigned_less [of "td_archive_bytes d", where ?'a = nat] by simp
  ultimately show ?thesis using small_le by blast
qed

lemma remove_if_present_Inl: "remove_if_present p fs = (fs', Inl e) \<Longrightarrow> \<exists>i. e = Res_Io i"
  by (auto simp: remove_if_present_def split: sum.splits io_error.splits)

lemma remove_partial_paths_Inl: "remove_partial_paths p m fs = (fs', Inl e) \<Longrightarrow> \<exists>i. e = Res_Io i"
  by (auto simp: remove_partial_paths_def fs_bind_def split: prod.splits sum.splits
      dest: remove_if_present_Inl)

lemma removed_then_fail:
  assumes "fs_bind (remove_partial_paths (part_path dir) (meta_path dir)) (\<lambda>_. fs_fail e) fs = (fs', res)"
  shows "res = Inl e \<and> map_of fs' (part_path dir) = None \<and> map_of fs' (meta_path dir) = None \<or>
    (\<exists>i. res = Inl (Res_Io i))"
  using assms
  by (auto simp: fs_bind_def fs_fail_def split: prod.splits sum.splits
      dest: remove_partial_paths_Inl remove_partial_paths_effect)

text \<open>
  A partial is handed to the unpacker only when it is complete and authentic: it has the
  announced length and hashes to the announced resource identifier. A partial of the wrong
  length or hash is removed, so that the next attempt starts afresh.
\<close>

theorem complete_partial_verified:
  assumes "complete_partial blake3
      \<lparr>rs_path = part_path dir, rs_metadata_path = meta_path dir, rs_offset = k\<rparr> d fs = (fs', res)"
  shows "(case res of
      Inr content \<Rightarrow> fs' = fs \<and> map_of fs (part_path dir) = Some (FileN content) \<and>
        of_nat (length content) = td_archive_bytes d \<and> ResourceId (blake3 content) = td_resource_id d
    | Inl Res_SizeMismatch \<Rightarrow> map_of fs' (part_path dir) = None \<and> map_of fs' (meta_path dir) = None
    | Inl Res_HashMismatch \<Rightarrow> map_of fs' (part_path dir) = None \<and> map_of fs' (meta_path dir) = None
    | Inl _ \<Rightarrow> True)"
proof (cases "read_file (part_path dir) fs")
  case (Inl e)
  with assms show ?thesis by (auto simp: complete_partial_def)
next
  case (Inr content)
  show ?thesis
  proof (cases "of_nat (length content) = td_archive_bytes d \<and> ResourceId (blake3 content) = td_resource_id d")
    case True
    with Inr assms have "fs' = fs" "res = Inr content"
      by (simp_all add: complete_partial_def)
    with Inr True show ?thesis by (simp add: read_file_Inr)
  next
    case False
    then obtain e where e: "e = Res_SizeMismatch \<or> e = Res_HashMismatch"
        "fs_bind (remove_partial_paths (part_path dir) (meta_path dir)) (\<lambda>_. fs_fail e) fs = (fs', res)"
      using Inr assms by (auto simp: complete_partial_def remove_partial_def split: if_splits)
    from removed_then_fail [OF e(2)] e(1) show ?thesis by auto
  qed
qed

section \<open>A concrete partial\<close>

definition demo_descriptor :: transfer_descriptor where
  "demo_descriptor = \<lparr>td_source_id = NodeId [1], td_resource_id = ResourceId [7, 8],
     td_archive_bytes = 2, td_logical_bytes = 2, td_files = 1, td_compression = CompressNone\<rparr>"

definition demo_dir :: path where
  "demo_dir = partial_dir (\<lambda>_. ''ab'') [Normal ''in''] (td_source_id demo_descriptor)
     (td_resource_id demo_descriptor)"

definition demo_json :: json_codec where
  "demo_json = \<lparr>
     to_json = \<lambda>m. if m = metadata_for demo_descriptor 1 100 then Some [1]
       else if m = metadata_for demo_descriptor 2 100 then Some [2] else None,
     from_json = \<lambda>bs. if bs = [1] then Some (metadata_for demo_descriptor 1 100)
       else if bs = [2] then Some (metadata_for demo_descriptor 2 100) else None\<rparr>"

definition demo_disk :: fs where
  "demo_disk = [(part_path demo_dir, FileN [7]), (meta_path demo_dir, FileN [1]), (demo_dir, DirN)]"

lemma demo_json_ok: "json_ok demo_json"
  by (auto simp: json_ok_def demo_json_def split: if_splits)

lemma demo_valid: "partial_valid demo_json demo_descriptor demo_dir [7] demo_disk"
  by (simp add: partial_valid_def demo_disk_def read_metadata_def read_file_def demo_json_def
      part_path_def meta_path_def)
    (simp add: demo_descriptor_def)

lemma demo_fresh: "\<not> is_stale demo_json (saturating_sub 200 partial_retention_secs) demo_dir demo_disk"
  by (simp add: is_stale_def demo_disk_def read_metadata_def read_file_def demo_json_def
      part_path_def meta_path_def saturating_sub_def partial_retention_secs_def)

lemma demo_is_dir: "is_dir demo_dir demo_disk"
  by (simp add: is_dir_def demo_disk_def part_path_def meta_path_def)

lemma resume_open_continues_witness:
  "\<exists>fs' st. resume_open (\<lambda>_. ''ab'') demo_json 200 [Normal ''in''] demo_descriptor demo_disk = (fs', Inr st) \<and>
    rs_offset st = of_nat (length [7 :: u8]) \<and>
    partial_valid demo_json demo_descriptor (partial_dir (\<lambda>_. ''ab'') [Normal ''in'']
      (td_source_id demo_descriptor) (td_resource_id demo_descriptor)) [7] fs'"
  by (rule resume_open_continues)
    (simp_all add: demo_valid demo_fresh demo_is_dir demo_dir_def [symmetric])

lemma demo_opens:
  "resume_open (\<lambda>_. ''ab'') demo_json 200 [Normal ''in''] demo_descriptor demo_disk =
   (demo_disk, Inr \<lparr>rs_path = part_path demo_dir, rs_metadata_path = meta_path demo_dir, rs_offset = 1\<rparr>)"
proof -
  have clean: "cleanup_expired demo_json 200 [Normal ''in''] demo_disk = demo_disk"
    by (simp add: cleanup_expired_def read_dir_def is_dir_def fs_exists_def demo_disk_def resume_root_def
        demo_dir_def partial_dir_def node_id_hex_def resource_id_hex_def part_path_def meta_path_def)
  have cd: "create_dir_all demo_dir demo_disk = Inr demo_disk"
    by (rule create_dir_all_existing [OF demo_is_dir])
  have u: "usable_offset demo_json demo_descriptor (part_path demo_dir) (meta_path demo_dir) demo_disk =
      (demo_disk, Inr 1)"
    by (simp add: usable_offset_def fs_exists_def demo_disk_def read_metadata_def read_file_def demo_json_def
        file_len_def) (simp add: demo_descriptor_def)
  show ?thesis
    using cd u by (simp add: resume_open_def Let_def clean demo_dir_def [symmetric] part_path_def [symmetric]
        meta_path_def [symmetric] fs_bind_def fs_run_def fs_return_def)
qed

lemma resume_open_sound_witness:
  "\<exists>content. partial_valid demo_json demo_descriptor (partial_dir (\<lambda>_. ''ab'') [Normal ''in'']
      (td_source_id demo_descriptor) (td_resource_id demo_descriptor)) content demo_disk \<and>
    (1 :: u64) = of_nat (length content)"
  using resume_open_sound [OF demo_opens demo_json_ok]
  by (auto simp: part_plain_def demo_dir_def [symmetric] cleanup_expired_def read_dir_def is_dir_def
      fs_exists_def demo_disk_def resume_root_def demo_dir_def partial_dir_def part_path_def meta_path_def
      node_id_hex_def resource_id_hex_def)

definition demo_received :: fs where
  "demo_received = fs_put (meta_path demo_dir) (FileN [2]) (fs_del (temp_path demo_dir)
     (fs_put (temp_path demo_dir) (FileN [2]) (fs_put (part_path demo_dir) (FileN [7, 8]) demo_disk)))"

lemma demo_appends:
  "append_chunk demo_json 100 demo_descriptor [8]
     \<lparr>rs_path = part_path demo_dir, rs_metadata_path = meta_path demo_dir, rs_offset = of_nat (length [7 :: u8])\<rparr>
     demo_disk =
   (demo_received, \<lparr>rs_path = part_path demo_dir, rs_metadata_path = meta_path demo_dir, rs_offset = 2\<rparr>, Inr 2)"
proof -
  let ?fs = "fs_put (part_path demo_dir) (FileN [7, 8]) demo_disk"
  have app: "append_file (part_path demo_dir) [8] demo_disk = Inr ?fs"
    by (simp add: append_file_def demo_disk_def)
  have sum: "checked_add (1 :: u64) 1 = Some 2" by (simp add: checked_add_def)
  have dirs: "is_dir demo_dir ?fs"
    using demo_is_dir by (auto simp: is_dir_def demo_disk_def part_path_def)
  have json: "to_json demo_json (metadata_for demo_descriptor 2 100) = Some [2]"
    by (simp add: demo_json_def metadata_for_def)
  have parent: "parent_ok (temp_path demo_dir) ?fs" "parent_ok (meta_path demo_dir) (fs_del (temp_path demo_dir)
      (fs_put (temp_path demo_dir) (FileN [2]) ?fs))"
    using dirs by (auto simp: parent_ok_def is_dir_def temp_path_def meta_path_def)
  have tmp: "map_of ?fs (temp_path demo_dir) = None"
    by (simp add: demo_disk_def) (simp add: temp_path_def)
  have w: "write_metadata demo_json (meta_path demo_dir) (metadata_for demo_descriptor 2 100) ?fs =
      (demo_received, Inr ())"
    using dirs parent tmp
    by (simp add: write_metadata_def parent_of_meta temp_of_meta create_dir_all_existing json fs_bind_def
        fs_run_def write_file_def rename_file_def demo_received_def demo_disk_def Let_def)
  show ?thesis
    using sum by (simp add: append_chunk_def app w Let_def demo_descriptor_def [THEN arg_cong [where f = td_archive_bytes]])
qed

lemma append_chunk_extends_witness:
  "partial_valid demo_json demo_descriptor demo_dir ([7] @ [8]) demo_received"
  using append_chunk_extends [OF demo_valid demo_json_ok _ demo_appends] by simp

lemma complete_partial_verified_witness:
  "map_of demo_received (part_path demo_dir) = Some (FileN [7, 8]) \<and>
   of_nat (length [7 :: u8, 8]) = td_archive_bytes demo_descriptor"
proof -
  have "complete_partial id \<lparr>rs_path = part_path demo_dir, rs_metadata_path = meta_path demo_dir, rs_offset = 2\<rparr>
      demo_descriptor demo_received = (demo_received, Inr [7, 8])"
    by (simp add: complete_partial_def read_file_def demo_received_def demo_descriptor_def)
  from complete_partial_verified [OF this] show ?thesis by simp
qed

end
