(* ===== verification/Direct_Net.thy ===== *)
theory Direct_Net
  imports Identity Core_Manifest
begin

text \<open>
  The parts of \<open>peerline-net/src/direct.rs\<close> that decide about addresses and ports: which
  addresses are public or mappable, the route a dialled endpoint counts as, the window of
  ports a receiver binds and a sender probes, and the order in which port mappings are tried.
  The sockets, the gateways and the interface list are arguments that answer each request.
\<close>

section \<open>Addresses\<close>

definition is_usable_mapping_ipv4 :: "ip_addr \<Rightarrow> bool" where
  "is_usable_mapping_ipv4 ip \<longleftrightarrow>
     \<not> is_unspecified ip \<and> \<not> is_loopback ip \<and> \<not> is_link_local ip \<and> \<not> is_multicast ip \<and>
     \<not> is_broadcast ip"

fun is_usable_mapping_ip :: "ip_addr \<Rightarrow> bool" where
  "is_usable_mapping_ip (V4 a b c d) = is_usable_mapping_ipv4 (V4 a b c d)"
| "is_usable_mapping_ip (V6 w) =
     (\<not> is_unspecified (V6 w) \<and> \<not> is_loopback (V6 w) \<and> \<not> is_unicast_link_local (V6 w) \<and>
      \<not> is_multicast (V6 w))"

fun is_public_endpoint_ip :: "ip_addr \<Rightarrow> bool" where
  "is_public_endpoint_ip (V4 a b c d) =
     (let ip = V4 a b c d in
      \<not> (a = 0 \<or> is_private ip \<or> (a = 100 \<and> b AND 0xC0 = 0x40) \<or> is_loopback ip \<or>
         is_link_local ip \<or> is_documentation ip \<or> is_multicast ip \<or> is_broadcast ip \<or>
         (a AND 240 = 240 \<and> \<not> is_broadcast ip)))"
| "is_public_endpoint_ip (V6 w) =
     (let ip = V6 w in
      \<not> (is_unspecified ip \<or> is_loopback ip \<or> is_unique_local ip \<or> is_unicast_link_local ip \<or>
         is_multicast ip))"

fun connection_route_from_endpoint :: "socket_addr \<Rightarrow> connection_route" where
  "connection_route_from_endpoint (Sock (V4 a b c d) port scope) =
     (if is_private (V4 a b c d) \<or> is_loopback (V4 a b c d) then LanDirect else PublicDirect)"
| "connection_route_from_endpoint (Sock (V6 w) port scope) =
     (if is_unique_local (V6 w) \<or> is_loopback (V6 w) then LanDirect else PublicDirect)"

lemma public_v4:
  assumes "is_public_endpoint_ip (V4 a b c d)"
  shows "a \<noteq> 0" "\<not> is_private (V4 a b c d)" "\<not> is_loopback (V4 a b c d)" "\<not> is_link_local (V4 a b c d)"
    "\<not> is_documentation (V4 a b c d)" "\<not> is_multicast (V4 a b c d)" "\<not> is_broadcast (V4 a b c d)"
  using assms unfolding is_public_endpoint_ip.simps Let_def by blast+

lemma public_v6:
  assumes "is_public_endpoint_ip (V6 w)"
  shows "\<not> is_unspecified (V6 w)" "\<not> is_loopback (V6 w)" "\<not> is_unique_local (V6 w)"
    "\<not> is_unicast_link_local (V6 w)" "\<not> is_multicast (V6 w)"
  using assms unfolding is_public_endpoint_ip.simps Let_def by blast+

lemma public_is_usable: "is_public_endpoint_ip ip \<Longrightarrow> is_usable_mapping_ip ip"
proof (cases ip)
  case (V4 a b c d)
  assume "is_public_endpoint_ip ip"
  note p = public_v4 [OF this [unfolded V4]]
  have "\<not> is_unspecified (V4 a b c d)" using p(1) by simp
  with p show ?thesis
    unfolding V4 is_usable_mapping_ip.simps is_usable_mapping_ipv4_def by blast
next
  case (V6 w)
  assume "is_public_endpoint_ip ip"
  note p = public_v6 [OF this [unfolded V6]]
  then show ?thesis unfolding V6 is_usable_mapping_ip.simps by blast
qed

lemma reserved_v4_not_public:
  "240 \<le> unat a \<Longrightarrow> \<not> is_public_endpoint_ip (V4 a b c d)"
proof -
  assume "240 \<le> unat a"
  moreover have "unat a < 256" by (rule unat_u8_less)
  ultimately have "unat a \<in> {240, 241, 242, 243, 244, 245, 246, 247, 248, 249, 250, 251, 252, 253, 254, 255}"
    by (simp, presburger)
  then have "a \<in> {240, 241, 242, 243, 244, 245, 246, 247, 248, 249, 250, 251, 252, 253, 254, 255}"
    by (auto simp: word_unat_eq_iff)
  then have "a AND 240 = 240" by auto
  then show ?thesis by (auto simp: Let_def)
qed

text \<open>
  An address that peerline advertises as public is never one that only means something
  locally: it is not unspecified, loopback, private, carrier-grade NAT, link-local,
  documentation, multicast, broadcast or reserved, it can be mapped, and dialling it counts as
  a public route.
\<close>

theorem public_endpoint_is_global:
  assumes "is_public_endpoint_ip ip"
  shows "\<not> is_unspecified ip \<and> \<not> is_loopback ip \<and> \<not> is_private ip \<and> \<not> is_unique_local ip \<and>
    \<not> is_link_local ip \<and> \<not> is_unicast_link_local ip \<and> \<not> is_documentation ip \<and> \<not> is_multicast ip \<and>
    \<not> is_broadcast ip \<and> is_usable_mapping_ip ip \<and>
    connection_route_from_endpoint (sock_new ip port) = PublicDirect"
proof (cases ip)
  case (V4 a b c d)
  note p = public_v4 [OF assms [unfolded V4]]
  have "\<not> is_unspecified (V4 a b c d)" "\<not> is_unique_local (V4 a b c d)"
      "\<not> is_unicast_link_local (V4 a b c d)"
      "connection_route_from_endpoint (sock_new (V4 a b c d) port) = PublicDirect"
    using p(1-3) by (simp_all add: sock_new_def)
  with p public_is_usable [OF assms] show ?thesis unfolding V4 by blast
next
  case (V6 w)
  note p = public_v6 [OF assms [unfolded V6]]
  have "\<not> is_private (V6 w)" "\<not> is_link_local (V6 w)" "\<not> is_documentation (V6 w)" "\<not> is_broadcast (V6 w)"
      "connection_route_from_endpoint (sock_new (V6 w) port) = PublicDirect"
    using p(2,3) by (simp_all add: sock_new_def)
  with p public_is_usable [OF assms] show ?thesis unfolding V6 by blast
qed

lemma public_endpoint_is_global_witness:
  "connection_route_from_endpoint (sock_new (V4 8 8 8 8) 43117) = PublicDirect"
proof -
  have "is_public_endpoint_ip (V4 8 8 8 8)" by (simp add: Let_def)
  from public_endpoint_is_global [OF this] show ?thesis by blast
qed

section \<open>Binding in the port window\<close>

text \<open>
  \<open>bind\<close> answers a bind request: the address bound, or None when the port is taken. The error
  type is left to the caller, who sees the last error.
\<close>

fun bind_first :: "(socket_addr \<Rightarrow> 'e + socket_addr) \<Rightarrow> ip_addr \<Rightarrow> u16 list \<Rightarrow> 'e option \<Rightarrow>
    'e option + socket_addr" where
  "bind_first bind ip [] last_error = Inl last_error"
| "bind_first bind ip (p # ps) last_error =
     (case bind (sock_new ip p) of
        Inr actual \<Rightarrow> Inr actual
      | Inl e \<Rightarrow> bind_first bind ip ps (Some e))"

definition bind_direct_listener_with_window ::
  "(socket_addr \<Rightarrow> 'e + socket_addr) \<Rightarrow> socket_addr \<Rightarrow> u16 \<Rightarrow> 'e option + socket_addr" where
  "bind_direct_listener_with_window bind addr window =
     (if sock_port addr = 0 \<or> window \<le> 1 then
        (case bind addr of Inl e \<Rightarrow> Inl (Some e) | Inr actual \<Rightarrow> Inr actual)
      else bind_first bind (sock_ip addr) (direct_port_candidates (sock_port addr) window) None)"

definition bind_direct_listener ::
  "(socket_addr \<Rightarrow> 'e + socket_addr) \<Rightarrow> socket_addr \<Rightarrow> 'e option + socket_addr" where
  "bind_direct_listener bind addr = bind_direct_listener_with_window bind addr default_direct_port_window"

lemma bind_first_Inr:
  "bind_first bind ip ps e = Inr actual \<Longrightarrow>
   \<exists>qs p rs. ps = qs @ p # rs \<and> bind (sock_new ip p) = Inr actual \<and>
     (\<forall>q \<in> set qs. \<exists>x. bind (sock_new ip q) = Inl x)"
proof (induction ps arbitrary: e)
  case Nil
  then show ?case by simp
next
  case (Cons p ps)
  show ?case
  proof (cases "bind (sock_new ip p)")
    case (Inl x)
    with Cons.prems have "bind_first bind ip ps (Some x) = Inr actual" by simp
    from Cons.IH [OF this] obtain qs q rs where "ps = qs @ q # rs" "bind (sock_new ip q) = Inr actual"
        "\<forall>q \<in> set qs. \<exists>x. bind (sock_new ip q) = Inl x" by blast
    with Inl show ?thesis by (intro exI [of _ "p # qs"] exI [of _ q] exI [of _ rs]) auto
  next
    case (Inr a)
    with Cons.prems show ?thesis by (intro exI [of _ "[]"] exI [of _ p] exI [of _ ps]) auto
  qed
qed

lemma bind_first_Inl:
  "(\<exists>x. bind_first bind ip ps e = Inl x) \<longleftrightarrow> (\<forall>p \<in> set ps. \<exists>x. bind (sock_new ip p) = Inl x)"
  by (induction ps arbitrary: e) (auto split: sum.splits)

text \<open>
  Within the default window a receiver binds the first free port at or after the one it
  asked for, in order, and fails only when every port of the window is taken; a sender that
  probes the same window in the same order therefore meets the receiver.
\<close>

theorem bind_window_first_free:
  assumes "sock_port addr \<noteq> 0" "1 < window"
  shows "(\<forall>actual. bind_direct_listener_with_window bind addr window = Inr actual \<longrightarrow>
      (\<exists>qs p rs. direct_port_candidates (sock_port addr) window = qs @ p # rs \<and>
        bind (sock_new (sock_ip addr) p) = Inr actual \<and>
        (\<forall>q \<in> set qs. \<exists>x. bind (sock_new (sock_ip addr) q) = Inl x))) \<and>
    ((\<exists>x. bind_direct_listener_with_window bind addr window = Inl x) \<longleftrightarrow>
      (\<forall>p \<in> set (direct_port_candidates (sock_port addr) window).
         \<exists>x. bind (sock_new (sock_ip addr) p) = Inl x))"
proof -
  have eq: "bind_direct_listener_with_window bind addr window =
      bind_first bind (sock_ip addr) (direct_port_candidates (sock_port addr) window) None"
    using assms unfolding linorder_not_le [symmetric]
    by (simp add: bind_direct_listener_with_window_def)
  show ?thesis unfolding eq using bind_first_Inr bind_first_Inl by blast
qed

definition busy_below :: "u16 \<Rightarrow> socket_addr \<Rightarrow> unit + socket_addr" where
  "busy_below p a = (if sock_port a < p then Inl () else Inr a)"

lemma bind_window_first_free_witness:
  "\<exists>qs p rs. direct_port_candidates 43117 5 = qs @ p # rs \<and>
     busy_below 43118 (sock_new (V4 0 0 0 0) p) = Inr (sock_new (V4 0 0 0 0) 43118)"
proof -
  have "bind_direct_listener_with_window (busy_below 43118) (sock_new (V4 0 0 0 0) 43117) 5 =
      Inr (sock_new (V4 0 0 0 0) 43118)"
    by (simp add: bind_direct_listener_with_window_def direct_port_candidates_def List.map_filter_def
        checked_add_def busy_below_def sock_new_def upt_rec word_le_nat_alt)
  with bind_window_first_free [of "sock_new (V4 0 0 0 0) 43117" 5 "busy_below 43118"]
  show ?thesis by auto
qed

section \<open>Port mappings\<close>

text \<open>
  \<open>try_direct_port_mapping\<close>: UPnP first, then NAT-PMP/PCP, each if enabled; the first mapping
  wins, and otherwise the last error is reported.
\<close>

definition try_direct_port_mapping ::
  "bool \<Rightarrow> bool \<Rightarrow> 'e + 'm option \<Rightarrow> 'e + 'm option \<Rightarrow> 'e + 'm option" where
  "try_direct_port_mapping enable_upnp enable_natpmp_pcp upnp natpmp =
     (let (found, err) =
        (if enable_upnp then
           (case upnp of Inr (Some m) \<Rightarrow> (Some m, None) | Inr None \<Rightarrow> (None, None) | Inl e \<Rightarrow> (None, Some e))
         else (None, None))
      in case found of Some m \<Rightarrow> Inr (Some m)
      | None \<Rightarrow>
          (let (found2, err2) =
             (if enable_natpmp_pcp then
                (case natpmp of Inr (Some m) \<Rightarrow> (Some m, err) | Inr None \<Rightarrow> (None, err)
                 | Inl e \<Rightarrow> (None, Some e))
              else (None, err))
           in case found2 of Some m \<Rightarrow> Inr (Some m)
           | None \<Rightarrow> (case err2 of Some e \<Rightarrow> Inl e | None \<Rightarrow> Inr None)))"

text \<open>The order of two IPv4 socket addresses: by address, then by port.\<close>

fun sock_v4_key :: "socket_addr \<Rightarrow> nat" where
  "sock_v4_key (Sock (V4 a b c d) port scope) =
     (((unat a * 256 + unat b) * 256 + unat c) * 256 + unat d) * 65536 + unat port"
| "sock_v4_key (Sock (V6 w) port scope) = 0"

definition direct_port_mapping_local_endpoints :: "ip_addr list \<Rightarrow> socket_addr \<Rightarrow> socket_addr list" where
  "direct_port_mapping_local_endpoints interfaces bind =
     (case sock_ip bind of
        V4 a b c d \<Rightarrow>
          (if is_unspecified (V4 a b c d) then
             sort_dedup sock_v4_key
               (List.map_filter
                 (\<lambda>ip. if is_ipv4 ip \<and> is_usable_mapping_ipv4 ip
                        then Some (sock_new ip (sock_port bind)) else None) interfaces)
           else if is_usable_mapping_ipv4 (V4 a b c d) then [bind] else [])
      | V6 w \<Rightarrow> [])"

text \<open>
  The UPnP attempts in order: for each local endpoint first the same external port, then any
  port the router picks. \<open>add_port\<close> and \<open>add_any_port\<close> are the gateway's answers.
\<close>

fun upnp_attempts ::
  "(socket_addr \<Rightarrow> u16 \<Rightarrow> bool) \<Rightarrow> (socket_addr \<Rightarrow> u16 option) \<Rightarrow> ip_addr \<Rightarrow> u16 \<Rightarrow> socket_addr list \<Rightarrow>
   (socket_addr \<times> socket_addr) option" where
  "upnp_attempts add_port add_any_port ext port [] = None"
| "upnp_attempts add_port add_any_port ext port (l # ls) =
     (if add_port l port then Some (l, sock_new ext port)
      else case add_any_port l of
        Some p \<Rightarrow> Some (l, sock_new ext p)
      | None \<Rightarrow> upnp_attempts add_port add_any_port ext port ls)"

definition try_direct_upnp_port_mapping ::
  "ip_addr list \<Rightarrow> ('e + ip_addr) \<Rightarrow> (socket_addr \<Rightarrow> u16 \<Rightarrow> bool) \<Rightarrow> (socket_addr \<Rightarrow> u16 option) \<Rightarrow> socket_addr \<Rightarrow>
   'e + (socket_addr \<times> socket_addr) option" where
  "try_direct_upnp_port_mapping interfaces external add_port add_any_port bind =
     (let locals = direct_port_mapping_local_endpoints interfaces bind in
      if locals = [] then Inr None
      else case external of
        Inl e \<Rightarrow> Inl e
      | Inr ext \<Rightarrow>
          if \<not> is_public_endpoint_ip ext then Inr None
          else Inr (upnp_attempts add_port add_any_port ext (sock_port bind) locals))"

lemma upnp_attempts_external:
  "upnp_attempts ap aap ext port ls = Some (l, e) \<Longrightarrow> l \<in> set ls \<and> sock_ip e = ext"
  by (induction ls) (auto split: if_splits option.splits)

text \<open>
  A UPnP mapping is only reported with a public external address and for a local endpoint
  that exists and can be mapped; behind a second NAT (a gateway whose own address is private)
  no mapping is reported at all.
\<close>

theorem upnp_mapping_public:
  "(\<forall>l e. try_direct_upnp_port_mapping interfaces external add_port add_any_port bind = Inr (Some (l, e)) \<longrightarrow>
      is_public_endpoint_ip (sock_ip e) \<and> is_usable_mapping_ip (sock_ip l) \<and>
      (l = bind \<or> sock_ip l \<in> set interfaces)) \<and>
   (\<forall>ext. external = Inr ext \<longrightarrow> \<not> is_public_endpoint_ip ext \<longrightarrow>
      try_direct_upnp_port_mapping interfaces external add_port add_any_port bind = Inr None)"
proof (intro conjI allI impI)
  fix l e
  assume "try_direct_upnp_port_mapping interfaces external add_port add_any_port bind = Inr (Some (l, e))"
  then obtain ext where ext: "is_public_endpoint_ip ext"
      "upnp_attempts add_port add_any_port ext (sock_port bind)
         (direct_port_mapping_local_endpoints interfaces bind) = Some (l, e)"
    by (auto simp: try_direct_upnp_port_mapping_def Let_def split: if_splits sum.splits)
  from upnp_attempts_external [OF ext(2)] ext(1)
  show "is_public_endpoint_ip (sock_ip e)" by simp
  from upnp_attempts_external [OF ext(2)]
  have l: "l \<in> set (direct_port_mapping_local_endpoints interfaces bind)" by simp
  have usable: "is_ipv4 ip \<Longrightarrow> is_usable_mapping_ipv4 ip \<Longrightarrow> is_usable_mapping_ip ip" for ip
    by (cases ip) auto
  have "(l = bind \<and> is_ipv4 (sock_ip bind) \<and> is_usable_mapping_ipv4 (sock_ip bind)) \<or>
      (sock_ip l \<in> set interfaces \<and> is_ipv4 (sock_ip l) \<and> is_usable_mapping_ipv4 (sock_ip l))"
  proof (cases "sock_ip bind")
    case (V4 a b c d)
    from l show ?thesis
      unfolding direct_port_mapping_local_endpoints_def V4 ip_addr.case
      by (cases "is_unspecified (V4 a b c d)")
        (auto simp: List.map_filter_def V4 simp del: is_unspecified.simps split: if_splits)
  next
    case (V6 w)
    with l show ?thesis by (simp add: direct_port_mapping_local_endpoints_def)
  qed
  then show "is_usable_mapping_ip (sock_ip l)" "l = bind \<or> sock_ip l \<in> set interfaces"
    using usable by blast+
next
  fix ext assume "external = Inr ext" "\<not> is_public_endpoint_ip ext"
  then show "try_direct_upnp_port_mapping interfaces external add_port add_any_port bind = Inr None"
    by (simp add: try_direct_upnp_port_mapping_def Let_def)
qed

lemma upnp_mapping_public_witness:
  "try_direct_upnp_port_mapping [V4 192 168 1 2] (Inr (V4 10 0 0 1) :: unit + ip_addr)
     (\<lambda>_ _. True) (\<lambda>_. None) (sock_new (V4 0 0 0 0) 43117) = Inr None"
  using upnp_mapping_public [of "[V4 192 168 1 2]" "Inr (V4 10 0 0 1) :: unit + ip_addr" "\<lambda>_ _. True"
      "\<lambda>_. None" "sock_new (V4 0 0 0 0) 43117"]
  by (simp add: Let_def)

interpretation mapping_view: ranked_view "sort_dedup sock_v4_key" sock_v4_key
  by unfold_locales (simp_all add: sorted_sort_dedup)

interpretation mapping_dedup: dedup_view "sort_dedup sock_v4_key" sock_v4_key
  by unfold_locales (simp add: distinct_adj_sort_dedup)

end
