(* ===== verification/Direct_Session.thy ===== *)
theory Direct_Session
  imports Protocol Resume Archive_Create Direct_Net "HOL-Library.Code_Target_Nat"
begin

text \<open>
  A direct transfer over one TCP connection (\<open>peerline-net/src/direct.rs\<close>): the sender's
  \<open>open_direct_session\<close> and \<open>complete_direct_transfer\<close> and the receiver's \<open>receive_stream\<close>.
  A connection is the bytes still to be read, the bytes written so far, the events emitted and
  the local disk; reading past the end is the peer's closing the connection, and writing to it
  does not fail. The crates are a record of parameters; random draws and the clock, read once
  per session, are part of it. Timeouts are the caller's and not modelled.
\<close>

record opaque_suite =
  opq_record :: "bytes \<Rightarrow> bytes \<Rightarrow> bytes option"
  opq_client_start :: "bytes \<Rightarrow> (bytes \<times> bytes) option"
  opq_server_start :: "bytes \<Rightarrow> bytes \<Rightarrow> (bytes \<times> bytes) option"
  opq_client_finish :: "bytes \<Rightarrow> bytes \<Rightarrow> bytes \<Rightarrow> (bytes \<times> bytes) option"
  opq_server_finish :: "bytes \<Rightarrow> bytes \<Rightarrow> bytes option"

record session_env =
  env_wire_ser :: "wire_frame \<Rightarrow> bytes option"
  env_wire_de :: "bytes \<Rightarrow> wire_frame option"
  env_secure_ser :: "secure_frame \<Rightarrow> bytes option"
  env_secure_de :: "bytes \<Rightarrow> secure_frame option"
  env_archive_de :: "bytes \<Rightarrow> archive_frame option"
  env_aead :: aead_suite
  env_kex :: kex_suite
  env_opaque :: opaque_suite
  env_blake3 :: "bytes \<Rightarrow> bytes"
  env_json :: json_codec
  env_hex :: "bytes \<Rightarrow> string"
  env_zstd :: "reader \<Rightarrow> reader"
  env_lzma :: "reader \<Rightarrow> bytes option"
  env_archive_message :: "archive_error \<Rightarrow> string"
  env_now :: u64
  env_x25519_secret :: bytes
  env_kem_secret :: bytes
  env_kem_coins :: bytes

datatype session_error =
    Sess_Wire wire_error
  | Sess_Io io_error
  | Sess_Resume resume_error
  | Sess_Version u16
  | Sess_UnexpectedFrame
  | Sess_NameMismatch
  | Sess_Opaque
  | Sess_Handshake handshake_error
  | Sess_NoHeader
  | Sess_DuplicateHeader
  | Sess_CompressionMismatch
  | Sess_Archive archive_error
  | Sess_ResumeBeyond
  | Sess_Peer string
  | Sess_NotInitialized
  | Sess_NoOpaqueState
  | Sess_NoServerHandshake
  | Sess_ChannelNotReady
  | Sess_RequestFailed
  | Sess_RequestTimeout

text \<open>Whether the peer should try again: \<open>TransferErrorKind\<close>, for errors that carry one.\<close>

datatype transfer_error_kind = Transient | Fatal

datatype transfer_error = Plain session_error | Kinded transfer_error_kind session_error

record conn =
  cn_fs :: fs
  cn_in :: bytes
  cn_out :: bytes
  cn_events :: "peerline_event list"

type_synonym 'a session_op = "conn \<Rightarrow> conn \<times> (transfer_error + 'a)"

definition s_return :: "'a \<Rightarrow> 'a session_op" where
  "s_return x c = (c, Inr x)"

definition s_fail :: "session_error \<Rightarrow> 'a session_op" where
  "s_fail e c = (c, Inl (Plain e))"

definition s_fatal :: "session_error \<Rightarrow> 'a session_op" where
  "s_fatal e c = (c, Inl (Kinded Fatal e))"

definition s_bind :: "'a session_op \<Rightarrow> ('a \<Rightarrow> 'b session_op) \<Rightarrow> 'b session_op" where
  "s_bind m k c = (case m c of (c', Inl e) \<Rightarrow> (c', Inl e) | (c', Inr x) \<Rightarrow> k x c')"

definition s_from :: "(session_error + 'a) \<Rightarrow> 'a session_op" where
  "s_from r = (case r of Inl e \<Rightarrow> s_fail e | Inr x \<Rightarrow> s_return x)"

definition s_ignore :: "'a session_op \<Rightarrow> unit session_op" where
  "s_ignore m c = (case m c of (c', _) \<Rightarrow> (c', Inr ()))"

definition s_read :: "session_env \<Rightarrow> wire_frame session_op" where
  "s_read env c =
     (case read_wire (env_wire_de env) (cn_in c) of
        Inl e \<Rightarrow> (c, Inl (Plain (Sess_Wire e)))
      | Inr (f, rest) \<Rightarrow> (c\<lparr>cn_in := rest\<rparr>, Inr f))"

definition s_write :: "session_env \<Rightarrow> wire_frame \<Rightarrow> unit session_op" where
  "s_write env f c =
     (case write_wire (env_wire_ser env) f of
        Inl e \<Rightarrow> (c, Inl (Plain (Sess_Wire e)))
      | Inr bs \<Rightarrow> (c\<lparr>cn_out := cn_out c @ bs\<rparr>, Inr ()))"

definition s_resume :: "'a fs_op \<Rightarrow> 'a session_op" where
  "s_resume op c =
     (case op (cn_fs c) of
        (fs, Inl e) \<Rightarrow> (c\<lparr>cn_fs := fs\<rparr>, Inl (Plain (Sess_Resume e)))
      | (fs, Inr x) \<Rightarrow> (c\<lparr>cn_fs := fs\<rparr>, Inr x))"

lemma s_bind_Inr: "s_bind m k c = (c', Inr y) \<longleftrightarrow> (\<exists>c1 x. m c = (c1, Inr x) \<and> k x c1 = (c', Inr y))"
  by (auto simp: s_bind_def split: prod.splits sum.splits)

lemma s_return_Inr: "s_return x c = (c', Inr y) \<longleftrightarrow> c' = c \<and> y = x"
  by (auto simp: s_return_def)

lemma s_fail_Inr [simp]: "s_fail e c \<noteq> (c', Inr y)" "s_fatal e c \<noteq> (c', Inr y)"
  by (simp_all add: s_fail_def s_fatal_def)

lemma s_from_Inr: "s_from r c = (c', Inr y) \<longleftrightarrow> c' = c \<and> r = Inr y"
  by (auto simp: s_from_def s_fail_def s_return_def split: sum.splits)

lemmas session_simps = s_bind_Inr s_return_Inr s_from_Inr

section \<open>Events\<close>

definition emit_event :: "peerline_event \<Rightarrow> unit session_op" where
  "emit_event e c = (c\<lparr>cn_events := cn_events c @ [e]\<rparr>, Inr ())"

definition emit_stage :: "transfer_stage \<Rightarrow> unit session_op" where
  "emit_stage st = emit_event (StageChanged st)"

definition emit_message :: "string \<Rightarrow> unit session_op" where
  "emit_message m = emit_event (Message m)"

definition emit_transfer_started ::
  "transfer_id \<Rightarrow> string \<Rightarrow> nat \<Rightarrow> u64 \<Rightarrow> u64 \<Rightarrow> unit session_op" where
  "emit_transfer_started tid peer files tot offset =
     emit_event (TransferStarted tid peer files tot offset)"

definition emit_progress :: "transfer_id \<Rightarrow> u64 \<Rightarrow> u64 \<Rightarrow> unit session_op" where
  "emit_progress tid done_bytes tot = emit_event (Progress tid done_bytes tot)"

section \<open>The sender\<close>

record send_options =
  so_endpoint :: socket_addr
  so_name :: "human_name option"
  so_code :: human_code
  so_source_id :: node_id

record received_transfer =
  rt_peer :: string
  rt_files :: nat
  rt_bytes :: u64

record sent_transfer =
  st_endpoint :: string
  st_files :: nat
  st_bytes :: u64

record direct_session =
  ds_endpoint :: socket_addr
  ds_opaque_state :: bytes
  ds_server_response :: bytes
  ds_client_handshake :: client_handshake
  ds_server_hello :: server_hello
  ds_transcript :: transcript
  ds_resume_offset :: u64

definition file_count :: "manifest \<Rightarrow> nat" where
  "file_count mf = length (filter (\<lambda>e. me_blake3 e \<noteq> None) (mf_entries mf))"

definition descriptor_for_archive :: "node_id \<Rightarrow> archive \<Rightarrow> transfer_descriptor" where
  "descriptor_for_archive source_id a =
     \<lparr>td_source_id = source_id, td_resource_id = ar_resource_id a, td_archive_bytes = of_nat (ar_len a),
      td_logical_bytes = mf_total_bytes (ar_manifest a), td_files = file_count (ar_manifest a),
      td_compression = ar_compression a\<rparr>"

definition version_message :: "u16 \<Rightarrow> string" where
  "version_message v = ''incompatible peerline protocol version '' @ dec_str (unat v) @ ''; expected '' @
     dec_str (unat protocol_version)"

definition open_direct_session ::
  "session_env \<Rightarrow> socket_addr \<Rightarrow> human_name option \<Rightarrow> human_code \<Rightarrow> transfer_descriptor \<Rightarrow>
   direct_session session_op" where
  "open_direct_session env endpoint name hcode d =
     (let t = direct_transcript name;
          handshake = client_start (env_kex env) (env_x25519_secret env)
      in s_bind (s_from (ok_or (opq_client_start (env_opaque env) (str_bytes (code_str hcode))) Sess_Opaque))
           (\<lambda>(request, opaque_state).
         s_bind (s_write env (ClientIntro protocol_version name d request (chs_hello handshake))) (\<lambda>_.
         s_bind (s_read env) (\<lambda>f.
           case f of
             ServerIntro version offset response hello \<Rightarrow>
               if version = protocol_version then
                 s_return \<lparr>ds_endpoint = endpoint, ds_opaque_state = opaque_state,
                   ds_server_response = response, ds_client_handshake = handshake,
                   ds_server_hello = hello, ds_transcript = t, ds_resume_offset = offset\<rparr>
               else s_fatal (Sess_Version version)
           | WireError m \<Rightarrow> s_fatal (Sess_Peer m)
           | _ \<Rightarrow> s_fail Sess_UnexpectedFrame))))"

definition s_write_secure ::
  "session_env \<Rightarrow> secure_frame \<Rightarrow> secure_channel \<Rightarrow> secure_channel session_op" where
  "s_write_secure env f ch c =
     (case write_secure (env_aead env) (env_secure_ser env) (env_wire_ser env) f ch of
        (ch', Inl e) \<Rightarrow> (c, Inl (Plain (Sess_Wire e)))
      | (ch', Inr bs) \<Rightarrow> (c\<lparr>cn_out := cn_out c @ bs\<rparr>, Inr ch'))"

fun send_chunks ::
  "session_env \<Rightarrow> transfer_id \<Rightarrow> u64 \<Rightarrow> u64 \<Rightarrow> bytes list \<Rightarrow> secure_channel \<Rightarrow> secure_channel session_op" where
  "send_chunks env tid tot sent [] ch = s_return ch"
| "send_chunks env tid tot sent (bs # rest) ch =
     (let sent' = sent + of_nat (length bs) in
      s_bind (s_write_secure env (SecureArchiveChunk bs) ch) (\<lambda>ch'.
      s_bind (emit_progress tid sent' tot) (\<lambda>_.
        send_chunks env tid tot sent' rest ch')))"

definition session_key_tag :: bytes where
  "session_key_tag = str_bytes ''pl01''"

definition sender_keys :: "session_env \<Rightarrow> direct_session \<Rightarrow> human_code \<Rightarrow> session_keys session_op" where
  "sender_keys env s hcode =
     s_bind (s_from (ok_or (opq_client_finish (env_opaque env) (ds_opaque_state s)
              (str_bytes (code_str hcode)) (ds_server_response s)) Sess_Opaque)) (\<lambda>(finalization, okey).
     s_bind (s_from (case client_finish (env_kex env) (env_aead env) (env_blake3 env) (env_kem_coins env)
                (ds_client_handshake s) (ds_server_hello s) okey (ds_transcript s) of
              Inl e \<Rightarrow> Inl (Sess_Handshake e) | Inr r \<Rightarrow> Inr r)) (\<lambda>(kem, keys).
     s_bind (s_write env (ClientFinish finalization kem)) (\<lambda>_. s_return keys)))"

definition send_archive ::
  "session_env \<Rightarrow> transfer_id \<Rightarrow> transfer_descriptor \<Rightarrow> archive \<Rightarrow> u64 \<Rightarrow> secure_channel \<Rightarrow>
   secure_channel session_op" where
  "send_archive env tid d a offset ch0 =
     s_bind (s_write_secure env (SecureHeader (ar_compression a)) ch0) (\<lambda>ch.
     s_bind (send_chunks env tid (td_archive_bytes d) offset
              (file_chunks (drop (unat offset) (ar_file a))) ch) (\<lambda>ch'.
       s_write_secure env SecureDone ch'))"

definition await_ack :: "session_env \<Rightarrow> unit session_op" where
  "await_ack env =
     s_bind (s_read env) (\<lambda>f.
       case f of
         Ack \<Rightarrow> s_return ()
       | WireError m \<Rightarrow> s_fatal (Sess_Peer m)
       | _ \<Rightarrow> s_fatal Sess_UnexpectedFrame)"

definition announce_resume :: "u64 \<Rightarrow> unit session_op" where
  "announce_resume offset =
     (if 0 < offset then emit_message (''resuming at '' @ dec_str (unat offset) @ '' bytes'')
      else s_return ())"

definition complete_direct_transfer ::
  "session_env \<Rightarrow> direct_session \<Rightarrow> archive \<Rightarrow> human_code \<Rightarrow> transfer_id \<Rightarrow> transfer_descriptor \<Rightarrow>
   sent_transfer session_op" where
  "complete_direct_transfer env s a hcode tid d =
     (if td_archive_bytes d < ds_resume_offset s then s_fatal Sess_ResumeBeyond
      else
        s_bind (emit_stage Authenticating) (\<lambda>_.
        s_bind (sender_keys env s hcode) (\<lambda>keys.
        s_bind (emit_transfer_started tid (sock_str (ds_endpoint s)) (td_files d) (td_archive_bytes d)
                 (ds_resume_offset s)) (\<lambda>_.
        s_bind (announce_resume (ds_resume_offset s)) (\<lambda>_.
        s_bind (emit_stage Transferring) (\<lambda>_.
        s_bind (send_archive env tid d a (ds_resume_offset s)
                 \<lparr>ch_aead = chunk_aead_new (sk_send_key keys) session_key_tag, ch_sequence = 0\<rparr>) (\<lambda>_.
        s_bind (await_ack env) (\<lambda>_.
        s_bind (emit_stage Complete) (\<lambda>_.
          s_return \<lparr>st_endpoint = sock_str (ds_endpoint s), st_files = td_files d,
            st_bytes = mf_total_bytes (ar_manifest a)\<rparr>)))))))))"

definition send_prebuilt_direct ::
  "session_env \<Rightarrow> send_options \<Rightarrow> archive \<Rightarrow> transfer_id \<Rightarrow> sent_transfer session_op" where
  "send_prebuilt_direct env opts a tid =
     (let d = descriptor_for_archive (so_source_id opts) a in
      s_bind (emit_stage (Connecting (connection_route_from_endpoint (so_endpoint opts)))) (\<lambda>_.
      s_bind (emit_message (''dialing '' @ sock_str (so_endpoint opts))) (\<lambda>_.
      s_bind (open_direct_session env (so_endpoint opts) (so_name opts) (so_code opts) d) (\<lambda>s.
        complete_direct_transfer env s a (so_code opts) tid d))))"

text \<open>
  The probe tries the ports of the window in turn, one connection each; \<open>dial\<close> gives the bytes
  the peer at an endpoint will deliver, or nothing when the connection is refused or the attempt
  times out. The first session that opens is completed whatever its outcome.
\<close>

fun probe_ports ::
  "session_env \<Rightarrow> (socket_addr \<Rightarrow> bytes option) \<Rightarrow> send_options \<Rightarrow> archive \<Rightarrow> transfer_id \<Rightarrow>
   transfer_descriptor \<Rightarrow> u16 list \<Rightarrow> transfer_error option \<Rightarrow> conn \<Rightarrow>
   conn \<times> (transfer_error option + sent_transfer)" where
  "probe_ports env dial opts a tid d [] last_error c = (c, Inl last_error)"
| "probe_ports env dial opts a tid d (port # ports) last_error c =
     (let endpoint = sock_new (sock_ip (so_endpoint opts)) port in
      case dial endpoint of
        None \<Rightarrow> probe_ports env dial opts a tid d ports (Some (Plain (Sess_Io NotFound))) c
      | Some incoming \<Rightarrow>
          (case open_direct_session env endpoint (so_name opts) (so_code opts) d
                  (c\<lparr>cn_in := incoming, cn_out := []\<rparr>) of
             (c', Inl e) \<Rightarrow> probe_ports env dial opts a tid d ports (Some e) c'
           | (c', Inr s) \<Rightarrow>
               (case s_bind (emit_message (''dialing '' @ sock_str endpoint))
                       (\<lambda>_. complete_direct_transfer env s a (so_code opts) tid d) c' of
                  (c'', Inl e) \<Rightarrow> (c'', Inl (Some e))
                | (c'', Inr r) \<Rightarrow> (c'', Inr r))))"

definition probe_message :: "send_options \<Rightarrow> string" where
  "probe_message opts =
     (let start = sock_port (so_endpoint opts);
          ports = direct_port_candidates start default_direct_port_window;
          end_port = (if ports = [] then start else last ports)
      in ''probing '' @ ip_str (sock_ip (so_endpoint opts)) @ '' on ports '' @ dec_str (unat start) @
         ''..'' @ dec_str (unat end_port))"

definition send_prebuilt_direct_probe ::
  "session_env \<Rightarrow> (socket_addr \<Rightarrow> bytes option) \<Rightarrow> send_options \<Rightarrow> archive \<Rightarrow> transfer_id \<Rightarrow> conn \<Rightarrow>
   conn \<times> (transfer_error option + sent_transfer)" where
  "send_prebuilt_direct_probe env dial opts a tid c =
     (let endpoint = sock_new (sock_ip (so_endpoint opts)) (sock_port (so_endpoint opts));
          c1 = c\<lparr>cn_events := cn_events c @ [StageChanged (Connecting (connection_route_from_endpoint endpoint)),
                 Message (probe_message opts)]\<rparr>
      in probe_ports env dial opts a tid (descriptor_for_archive (so_source_id opts) a)
           (direct_port_candidates (sock_port (so_endpoint opts)) default_direct_port_window) None c1)"

section \<open>What the sender writes\<close>

definition secure_frames :: "session_env \<Rightarrow> encrypted_chunk list \<Rightarrow> bytes" where
  "secure_frames env cs = concat (map (\<lambda>ch. wire_put (env_wire_ser env) (Secure ch)) cs)"

lemma s_write_Inr:
  "s_write env f c = (c', Inr u) \<Longrightarrow> c' = c\<lparr>cn_out := cn_out c @ wire_put (env_wire_ser env) f\<rparr>"
  by (auto simp: s_write_def wire_put_def split: sum.splits)

lemma s_write_secure_Inr:
  assumes "s_write_secure env f ch c = (c', Inr ch')"
  shows "\<exists>x. encrypt_secure (env_aead env) (env_secure_ser env) f ch = (ch', Inr x) \<and>
    c' = c\<lparr>cn_out := cn_out c @ secure_frames env [x]\<rparr>"
  using assms
  by (auto simp: s_write_secure_def write_secure_def secure_frames_def wire_put_def
      split: prod.splits sum.splits)

lemma encrypt_all_append:
  "encrypt_all su ser fs ch = Some (ch1, cs) \<Longrightarrow> encrypt_all su ser gs ch1 = Some (ch2, ds) \<Longrightarrow>
   encrypt_all su ser (fs @ gs) ch = Some (ch2, cs @ ds)"
  by (induction fs arbitrary: ch cs) (auto split: prod.splits sum.splits option.splits)

lemma send_chunks_Inr:
  assumes "send_chunks env tid tot sent bss ch c = (c', Inr ch')"
  shows "\<exists>cs. encrypt_all (env_aead env) (env_secure_ser env) (map SecureArchiveChunk bss) ch = Some (ch', cs) \<and>
    cn_out c' = cn_out c @ secure_frames env cs \<and> cn_in c' = cn_in c \<and> cn_fs c' = cn_fs c"
  using assms
proof (induction bss arbitrary: sent ch c)
  case Nil
  then show ?case by (auto simp: s_return_def secure_frames_def)
next
  case (Cons bs bss)
  then obtain ch1 c1 c2 where w: "s_write_secure env (SecureArchiveChunk bs) ch c = (c1, Inr ch1)"
      and c2: "c2 = c1\<lparr>cn_events := cn_events c1 @ [Progress tid (sent + of_nat (length bs)) tot]\<rparr>"
      and rec: "send_chunks env tid tot (sent + of_nat (length bs)) bss ch1 c2 = (c', Inr ch')"
    by (auto simp: Let_def s_bind_Inr emit_progress_def emit_event_def)
  from s_write_secure_Inr [OF w] Cons.IH [OF rec] c2 show ?case
    by (auto simp: secure_frames_def)
qed

lemma send_archive_Inr:
  assumes "send_archive env tid d a offset ch0 c = (c', Inr ch')"
  shows "\<exists>cs. encrypt_all (env_aead env) (env_secure_ser env)
      (SecureHeader (ar_compression a) #
       map SecureArchiveChunk (file_chunks (drop (unat offset) (ar_file a))) @ [SecureDone]) ch0 = Some (ch', cs) \<and>
    cn_out c' = cn_out c @ secure_frames env cs \<and> cn_in c' = cn_in c"
proof -
  let ?bss = "file_chunks (drop (unat offset) (ar_file a))"
  from assms obtain c1 c2 ch ch2 where
      c1: "s_write_secure env (SecureHeader (ar_compression a)) ch0 c = (c1, Inr ch)"
    and c2: "send_chunks env tid (td_archive_bytes d) offset ?bss ch c1 = (c2, Inr ch2)"
    and c3: "s_write_secure env SecureDone ch2 c2 = (c', Inr ch')"
    unfolding send_archive_def s_bind_Inr by blast
  from s_write_secure_Inr [OF c1] obtain x1 where x1: "encrypt_secure (env_aead env) (env_secure_ser env)
        (SecureHeader (ar_compression a)) ch0 = (ch, Inr x1)"
      "c1 = c\<lparr>cn_out := cn_out c @ secure_frames env [x1]\<rparr>" by blast
  from send_chunks_Inr [OF c2] obtain cs where cs: "encrypt_all (env_aead env) (env_secure_ser env)
        (map SecureArchiveChunk ?bss) ch = Some (ch2, cs)"
      "cn_out c2 = cn_out c1 @ secure_frames env cs" "cn_in c2 = cn_in c1" by blast
  from s_write_secure_Inr [OF c3] obtain x2 where x2: "encrypt_secure (env_aead env) (env_secure_ser env)
        SecureDone ch2 = (ch', Inr x2)" "c' = c2\<lparr>cn_out := cn_out c2 @ secure_frames env [x2]\<rparr>" by blast
  have "encrypt_all (env_aead env) (env_secure_ser env)
      (map SecureArchiveChunk ?bss @ [SecureDone]) ch = Some (ch', cs @ [x2])"
    by (rule encrypt_all_append [OF cs(1)]) (simp add: x2(1))
  then have "encrypt_all (env_aead env) (env_secure_ser env)
      (SecureHeader (ar_compression a) # map SecureArchiveChunk ?bss @ [SecureDone]) ch0 =
      Some (ch', x1 # cs @ [x2])"
    by (simp add: x1(1))
  moreover have "cn_out c' = cn_out c @ secure_frames env (x1 # cs @ [x2])" "cn_in c' = cn_in c"
    using x1(2) cs(2,3) x2(2) by (simp_all add: secure_frames_def)
  ultimately show ?thesis by blast
qed

lemma sender_keys_Inr:
  "sender_keys env s hcode c = (c', Inr keys) \<Longrightarrow>
   \<exists>fin kem. c' = c\<lparr>cn_out := cn_out c @ wire_put (env_wire_ser env) (ClientFinish fin kem)\<rparr>"
  unfolding sender_keys_def by (clarsimp simp: session_simps) (blast dest: s_write_Inr)

lemma await_ack_Inr:
  assumes "await_ack env c = (c', Inr u)"
  shows "cn_out c' = cn_out c \<and> (\<exists>rest. read_wire (env_wire_de env) (cn_in c) = Inr (Ack, rest))"
proof -
  from assms obtain c1 f where r: "s_read env c = (c1, Inr f)" and k: "(case f of
         Ack \<Rightarrow> s_return ()
       | WireError m \<Rightarrow> s_fatal (Sess_Peer m)
       | _ \<Rightarrow> s_fatal Sess_UnexpectedFrame) c1 = (c', Inr u)"
    unfolding await_ack_def s_bind_Inr by blast
  from k have "f = Ack \<and> c' = c1" by (cases f) (auto simp: s_return_def)
  with r show ?thesis by (auto simp: s_read_def split: sum.splits)
qed

text \<open>
  C6. A sender that reports success asked to resume within the archive, proved its code, sent
  the key exchange and then, encrypted in one unbroken sequence, the header, the archive from
  the receiver's offset to its end and the end mark; and it saw the acknowledgement. The
  receiver that already holds the first part ends with exactly the archive.
\<close>

theorem sender_sends_the_rest:
  assumes "complete_direct_transfer env s a hcode tid d c = (c', Inr sent)"
  shows "\<exists>bss cs fin kem (keys :: session_keys) ch rest.
    ds_resume_offset s \<le> td_archive_bytes d \<and>
    take (unat (ds_resume_offset s)) (ar_file a) @ concat bss = ar_file a \<and>
    encrypt_all (env_aead env) (env_secure_ser env)
      (SecureHeader (ar_compression a) # map SecureArchiveChunk bss @ [SecureDone])
      \<lparr>ch_aead = chunk_aead_new (sk_send_key keys) session_key_tag, ch_sequence = 0\<rparr> = Some (ch, cs) \<and>
    cn_out c' = cn_out c @ wire_put (env_wire_ser env) (ClientFinish fin kem) @ secure_frames env cs \<and>
    read_wire (env_wire_de env) (cn_in c) = Inr (Ack, rest) \<and>
    sent = \<lparr>st_endpoint = sock_str (ds_endpoint s), st_files = td_files d, st_bytes = mf_total_bytes (ar_manifest a)\<rparr>"
proof -
  from assms have le: "ds_resume_offset s \<le> td_archive_bytes d"
    by (auto simp: complete_direct_transfer_def not_less [symmetric] split: if_splits)
  then have "\<not> td_archive_bytes d < ds_resume_offset s" by simp
  with assms obtain c1 c2 c3 c4 c5 c6 c7 u1 u3 u4 u5 ch u7 keys where
      c1: "emit_stage Authenticating c = (c1, Inr u1)"
    and c2: "sender_keys env s hcode c1 = (c2, Inr keys)"
    and c3: "emit_transfer_started tid (sock_str (ds_endpoint s)) (td_files d) (td_archive_bytes d)
                 (ds_resume_offset s) c2 = (c3, Inr u3)"
    and c4: "announce_resume (ds_resume_offset s) c3 = (c4, Inr u4)"
    and c5: "emit_stage Transferring c4 = (c5, Inr u5)"
    and c6: "send_archive env tid d a (ds_resume_offset s)
        \<lparr>ch_aead = chunk_aead_new (sk_send_key keys) session_key_tag, ch_sequence = 0\<rparr> c5 = (c6, Inr ch)"
    and c7: "await_ack env c6 = (c7, Inr u7)"
    and fin: "cn_out c' = cn_out c7"
      "sent = \<lparr>st_endpoint = sock_str (ds_endpoint s), st_files = td_files d, st_bytes = mf_total_bytes (ar_manifest a)\<rparr>"
    by (auto simp: complete_direct_transfer_def s_bind_Inr s_return_Inr emit_stage_def [of Complete]
        emit_event_def [of "StageChanged Complete"])
  from sender_keys_Inr [OF c2] obtain f kem where k:
      "c2 = c1\<lparr>cn_out := cn_out c1 @ wire_put (env_wire_ser env) (ClientFinish f kem)\<rparr>" by blast
  have same: "cn_out c1 = cn_out c \<and> cn_in c1 = cn_in c \<and> cn_out c3 = cn_out c2 \<and> cn_in c3 = cn_in c2 \<and>
      cn_out c4 = cn_out c3 \<and> cn_in c4 = cn_in c3 \<and> cn_out c5 = cn_out c4 \<and> cn_in c5 = cn_in c4"
    using c1 c3 c4 c5 by (auto simp: emit_stage_def emit_transfer_started_def announce_resume_def
        emit_message_def emit_event_def s_return_def split: if_splits)
  from send_archive_Inr [OF c6] obtain cs where cs: "encrypt_all (env_aead env) (env_secure_ser env)
      (SecureHeader (ar_compression a) #
       map SecureArchiveChunk (file_chunks (drop (unat (ds_resume_offset s)) (ar_file a))) @ [SecureDone])
      \<lparr>ch_aead = chunk_aead_new (sk_send_key keys) session_key_tag, ch_sequence = 0\<rparr> = Some (ch, cs)"
      "cn_out c6 = cn_out c5 @ secure_frames env cs" "cn_in c6 = cn_in c5"
    by blast
  obtain rest where ack: "read_wire (env_wire_de env) (cn_in c) = Inr (Ack, rest)" and "cn_out c7 = cn_out c6"
    using await_ack_Inr [OF c7] cs(3) same k by auto
  then have out: "cn_out c' = cn_out c @ wire_put (env_wire_ser env) (ClientFinish f kem) @ secure_frames env cs"
    using cs(2) same k fin(1) by simp
  show ?thesis
  proof (intro exI conjI)
    show "take (unat (ds_resume_offset s)) (ar_file a) @
        concat (file_chunks (drop (unat (ds_resume_offset s)) (ar_file a))) = ar_file a"
      by (simp add: concat_file_chunks)
  qed (rule le cs(1) out ack fin(2))+
qed

section \<open>A concrete session\<close>

text \<open>
  Stand-in primitives and codecs for one session that transfers an archive of one directory;
  every frame carries one payload byte.
\<close>

definition run_manifest :: manifest where
  "run_manifest = \<lparr>mf_id = TransferId [1], mf_compression = CompressNone,
     mf_entries = [\<lparr>me_path = ''d'', me_kind = EntryDirectory, me_size = 0, me_blake3 = None\<rparr>],
     mf_total_bytes = 0\<rparr>"

definition run_descriptor :: transfer_descriptor where
  "run_descriptor = \<lparr>td_source_id = NodeId [1], td_resource_id = ResourceId [7],
     td_archive_bytes = 10, td_logical_bytes = 0, td_files = 0, td_compression = CompressNone\<rparr>"

definition run_archive :: bytes where
  "run_archive = [0, 0, 0, 1, 9, 0, 0, 0, 1, 8]"

definition run_chunk :: "u64 \<Rightarrow> bytes \<Rightarrow> encrypted_chunk" where
  "run_chunk s ct = \<lparr>ec_sequence = s, ec_ciphertext = ct\<rparr>"

definition run_env :: session_env where
  "run_env = \<lparr>
     env_wire_ser = \<lambda>f. Some [6],
     env_wire_de = \<lambda>bs.
       if bs = [1] then Some (ClientIntro protocol_version None run_descriptor [] \<lparr>ch_x25519_public = []\<rparr>)
       else if bs = [2] then Some (ClientFinish [] \<lparr>ck_ml_kem_ciphertext = []\<rparr>)
       else if bs = [3] then Some (Secure (run_chunk 0 [0]))
       else if bs = [4] then Some (Secure (run_chunk 1 [1]))
       else if bs = [5] then Some (Secure (run_chunk 2 [2]))
       else if bs = [6] then Some Ack else None,
     env_secure_ser = \<lambda>f. Some [2],
     env_secure_de = \<lambda>bs. if bs = [0] then Some (SecureHeader CompressNone)
       else if bs = [1] then Some (SecureArchiveChunk run_archive)
       else if bs = [2] then Some SecureDone else None,
     env_archive_de = \<lambda>bs. if bs = [9] then Some (FManifest run_manifest)
       else if bs = [8] then Some (FDirectory ''d'') else None,
     env_aead = \<lparr>hkdf = \<lambda>_ _ _. [], seal = \<lambda>_ _ _ m. Some m, unseal = \<lambda>_ _ _ m. Some m\<rparr>,
     env_kex = demo_kex,
     env_opaque = \<lparr>opq_record = \<lambda>_ _. Some [], opq_client_start = \<lambda>_. Some ([], []),
       opq_server_start = \<lambda>_ _. Some ([], []), opq_client_finish = \<lambda>_ _ _. Some ([], []),
       opq_server_finish = \<lambda>_ _. Some []\<rparr>,
     env_blake3 = \<lambda>_. [7],
     env_json = \<lparr>to_json = \<lambda>_. Some [1], from_json = \<lambda>_. None\<rparr>,
     env_hex = \<lambda>_. ''ab'', env_zstd = id, env_lzma = \<lambda>r. None, env_archive_message = \<lambda>_. [],
     env_now = 0, env_x25519_secret = [], env_kem_secret = [], env_kem_coins = []\<rparr>"

definition run_session :: direct_session where
  "run_session = \<lparr>ds_endpoint = sock_new (V4 0 0 0 0) 0, ds_opaque_state = [], ds_server_response = [],
     ds_client_handshake = client_start demo_kex [2],
     ds_server_hello = shs_hello (server_start demo_kex [3] [4] \<lparr>ch_x25519_public = []\<rparr>),
     ds_transcript = direct_transcript None, ds_resume_offset = 5\<rparr>"

definition run_archive_source :: archive where
  "run_archive_source = \<lparr>ar_manifest = run_manifest, ar_compression = CompressNone,
     ar_resource_id = ResourceId [7], ar_file = run_archive, ar_len = 10\<rparr>"

definition run_send :: "conn \<times> (transfer_error + sent_transfer)" where
  "run_send = complete_direct_transfer run_env run_session run_archive_source (HumanCode ''a-b-c'')
     (TransferId [1]) run_descriptor
     \<lparr>cn_fs = [], cn_in = [0, 0, 0, 1, 6], cn_out = [], cn_events = []\<rparr>"

lemma run_sent:
  "snd run_send = Inr \<lparr>st_endpoint = sock_str (sock_new (V4 0 0 0 0) 0), st_files = 0, st_bytes = 0\<rparr> \<and>
   length (cn_out (fst run_send)) = 20"
  by code_simp

lemma sender_sends_the_rest_witness:
  "\<exists>bss. take 5 run_archive @ concat bss = run_archive"
proof -
  have "complete_direct_transfer run_env run_session run_archive_source (HumanCode ''a-b-c'')
     (TransferId [1]) run_descriptor \<lparr>cn_fs = [], cn_in = [0, 0, 0, 1, 6], cn_out = [], cn_events = []\<rparr> =
     (fst run_send, Inr \<lparr>st_endpoint = sock_str (sock_new (V4 0 0 0 0) 0), st_files = 0, st_bytes = 0\<rparr>)"
    using run_sent by (metis prod.collapse run_send_def)
  from sender_sends_the_rest [OF this] show ?thesis
    by (auto simp: run_archive_source_def run_session_def)
qed

end
