(* ===== verification/Direct_Receive.thy ===== *)
theory Direct_Receive
  imports Direct_Session Unpack_Safety
begin

text \<open>
  The receiving side of a direct transfer (\<open>receive_stream\<close>, \<open>recv_once_bound\<close> and
  \<open>recv_once\<close> of \<open>peerline-net/src/direct.rs\<close>) and the sender's port probe. The receiver's
  loop reads at least the four bytes of a frame length in every turn, so it ends.
\<close>

record recv_options =
  ro_name :: human_name
  ro_code :: human_code
  ro_bind :: socket_addr
  ro_destination :: string
  ro_overwrite :: bool

section \<open>The receiver\<close>

definition s_read_secure ::
  "session_env \<Rightarrow> secure_channel \<Rightarrow> (secure_channel \<times> secure_frame) session_op" where
  "s_read_secure env ch c =
     (case read_secure (env_aead env) (env_secure_de env) (env_wire_de env) (cn_in c) ch of
        (ch', Inl e) \<Rightarrow> (c, Inl (Plain (Sess_Wire e)))
      | (ch', Inr (f, rest)) \<Rightarrow> (c\<lparr>cn_in := rest\<rparr>, Inr (ch', f)))"

definition s_append ::
  "session_env \<Rightarrow> transfer_descriptor \<Rightarrow> bytes \<Rightarrow> resume_state \<Rightarrow> (resume_state \<times> u64) session_op" where
  "s_append env d bs st c =
     (case append_chunk (env_json env) (env_now env) d bs st (cn_fs c) of
        (fs, st', Inl e) \<Rightarrow> (c\<lparr>cn_fs := fs\<rparr>, Inl (Plain (Sess_Resume e)))
      | (fs, st', Inr n) \<Rightarrow> (c\<lparr>cn_fs := fs\<rparr>, Inr (st', n)))"

definition receive_frame ::
  "session_env \<Rightarrow> transfer_id \<Rightarrow> transfer_descriptor \<Rightarrow> secure_channel \<Rightarrow> resume_state \<Rightarrow>
   (secure_channel \<times> resume_state \<times> bool) session_op" where
  "receive_frame env tid d ch st =
     s_bind (s_read_secure env ch) (\<lambda>(ch', f).
       case f of
         SecureArchiveChunk bs \<Rightarrow>
           s_bind (s_append env d bs st) (\<lambda>(st', n).
           s_bind (emit_progress tid n (td_archive_bytes d)) (\<lambda>_.
             s_return (ch', st', False)))
       | SecureDone \<Rightarrow> s_return (ch', st, True)
       | SecureHeader _ \<Rightarrow> s_fail Sess_DuplicateHeader)"

lemma read_wire_shrinks: "read_wire de bs = Inr (f, rest) \<Longrightarrow> length rest + 4 \<le> length bs"
  by (auto simp: read_wire_def Let_def split: if_splits option.splits)

lemma s_read_secure_shrinks:
  "s_read_secure env ch c = (c', Inr x) \<Longrightarrow> length (cn_in c') + 4 \<le> length (cn_in c)"
  by (auto simp: s_read_secure_def read_secure_def split: prod.splits sum.splits wire_frame.splits
      dest!: read_wire_shrinks)

lemma s_append_in: "s_append env d bs st c = (c', Inr x) \<Longrightarrow> cn_in c' = cn_in c"
  by (auto simp: s_append_def split: prod.splits sum.splits)

lemma receive_frame_shrinks:
  "receive_frame env tid d ch st c = (c', Inr x) \<Longrightarrow> length (cn_in c') + 4 \<le> length (cn_in c)"
proof -
  assume "receive_frame env tid d ch st c = (c', Inr x)"
  then obtain c1 ch' f where r: "s_read_secure env ch c = (c1, Inr (ch', f))"
      and k: "(case f of
         SecureArchiveChunk bs \<Rightarrow>
           s_bind (s_append env d bs st) (\<lambda>(st', n).
           s_bind (emit_progress tid n (td_archive_bytes d)) (\<lambda>_.
             s_return (ch', st', False)))
       | SecureDone \<Rightarrow> s_return (ch', st, True)
       | SecureHeader _ \<Rightarrow> s_fail Sess_DuplicateHeader) c1 = (c', Inr x)"
    by (auto simp: receive_frame_def s_bind_Inr)
  from k have "cn_in c' = cn_in c1"
    by (cases f) (auto simp: session_simps emit_progress_def emit_event_def dest!: s_append_in)
  with s_read_secure_shrinks [OF r] show ?thesis by simp
qed

function receive_chunks ::
  "session_env \<Rightarrow> transfer_id \<Rightarrow> transfer_descriptor \<Rightarrow> secure_channel \<Rightarrow> resume_state \<Rightarrow> conn \<Rightarrow>
   conn \<times> (transfer_error + resume_state)" where
  "receive_chunks env tid d ch st c =
     (case receive_frame env tid d ch st c of
        (c', Inl e) \<Rightarrow> (c', Inl e)
      | (c', Inr (ch', st', finished)) \<Rightarrow>
          if finished then (c', Inr st') else receive_chunks env tid d ch' st' c')"
  by pat_completeness auto
termination
  by (relation "measure (\<lambda>(env, tid, d, ch, st, c). length (cn_in c))")
    (auto dest!: receive_frame_shrinks [OF sym])

declare receive_chunks.simps [simp del]

definition s_create_dir_all :: "path \<Rightarrow> unit session_op" where
  "s_create_dir_all p c =
     (case create_dir_all p (cn_fs c) of
        Inl e \<Rightarrow> (c, Inl (Plain (Sess_Io e)))
      | Inr fs \<Rightarrow> (c\<lparr>cn_fs := fs\<rparr>, Inr ()))"

definition s_unpack ::
  "session_env \<Rightarrow> recv_options \<Rightarrow> compression \<Rightarrow> bytes \<Rightarrow> (archive_error + manifest) session_op" where
  "s_unpack env opts cmp archive c =
     (case unpack_archive_from_reader (env_zstd env) (env_lzma env) (env_archive_de env) (env_blake3 env)
             (ro_destination opts) cmp \<lparr>rd_bytes = archive, rd_fails = False\<rparr> (ro_overwrite opts) (cn_fs c) of
        (fs, r) \<Rightarrow> (c\<lparr>cn_fs := fs\<rparr>, Inr r))"

definition finish_receive ::
  "session_env \<Rightarrow> string \<Rightarrow> recv_options \<Rightarrow> transfer_descriptor \<Rightarrow> compression \<Rightarrow> resume_state \<Rightarrow>
   received_transfer session_op" where
  "finish_receive env peer opts d cmp st =
     s_bind (emit_stage Verifying) (\<lambda>_.
     s_bind (s_resume (complete_partial (env_blake3 env) st d)) (\<lambda>archive.
     s_bind (s_unpack env opts cmp archive) (\<lambda>r.
       case r of
         Inr mf \<Rightarrow>
           s_bind (s_resume (remove_partial st)) (\<lambda>_.
           s_bind (s_write env Ack) (\<lambda>_.
           s_bind (emit_stage Complete) (\<lambda>_.
             s_return \<lparr>rt_peer = peer, rt_files = file_count mf, rt_bytes = mf_total_bytes mf\<rparr>)))
       | Inl e \<Rightarrow>
           s_bind (s_ignore (s_resume (remove_partial st))) (\<lambda>_.
           s_bind (s_ignore (s_write env (WireError (env_archive_message env e)))) (\<lambda>_.
             s_fatal (Sess_Archive e))))))"

text \<open>
  The handshake: the intro is checked, the partial opened, the server's flight written, and the
  client's finish turned into the key the archive is encrypted under.
\<close>

definition accept_intro ::
  "session_env \<Rightarrow> wire_frame \<Rightarrow>
   (human_name option \<times> transfer_descriptor \<times> bytes \<times> client_hello) session_op" where
  "accept_intro env f =
     (case f of
        ClientIntro version name d request hello \<Rightarrow>
          if version = protocol_version then s_return (name, d, request, hello)
          else s_bind (s_ignore (s_write env (WireError (version_message version)))) (\<lambda>_.
                 s_fail (Sess_Version version))
      | _ \<Rightarrow> s_fail Sess_UnexpectedFrame)"

definition receiver_keys ::
  "session_env \<Rightarrow> recv_options \<Rightarrow> human_name option \<Rightarrow> bytes \<Rightarrow> client_hello \<Rightarrow> u64 \<Rightarrow>
   session_keys session_op" where
  "receiver_keys env opts name request hello offset =
     s_bind (s_from (ok_or (opq_record (env_opaque env) (str_bytes (code_str (ro_code opts)))
              (str_bytes (name_str (ro_name opts)))) Sess_Opaque)) (\<lambda>record_bytes.
     s_bind (s_from (ok_or (opq_server_start (env_opaque env) record_bytes request) Sess_Opaque))
       (\<lambda>(response, opaque_state).
     let handshake = server_start (env_kex env) (env_x25519_secret env) (env_kem_secret env) hello in
     s_bind (s_write env (ServerIntro protocol_version offset response (shs_hello handshake))) (\<lambda>_.
     s_bind (s_read env) (\<lambda>f.
       case f of
         ClientFinish finalization kem \<Rightarrow>
           s_bind (s_from (ok_or (opq_server_finish (env_opaque env) opaque_state finalization) Sess_Opaque))
             (\<lambda>okey.
           s_from (case server_finish (env_kex env) (env_aead env) (env_blake3 env) handshake hello kem
                     okey (direct_transcript name) of
                     Inl e \<Rightarrow> Inl (Sess_Handshake e) | Inr keys \<Rightarrow> Inr keys))
       | _ \<Rightarrow> s_fail Sess_UnexpectedFrame))))"

definition receive_archive ::
  "session_env \<Rightarrow> transfer_id \<Rightarrow> string \<Rightarrow> recv_options \<Rightarrow> transfer_descriptor \<Rightarrow> resume_state \<Rightarrow>
   secure_channel \<Rightarrow> secure_frame \<Rightarrow> received_transfer session_op" where
  "receive_archive env tid peer opts d st ch header =
     (case header of
        SecureHeader cmp \<Rightarrow>
          if cmp \<noteq> td_compression d then s_fail Sess_CompressionMismatch
          else
            s_bind (emit_stage ReceivingManifest) (\<lambda>_.
            s_bind (s_create_dir_all (components (ro_destination opts))) (\<lambda>_.
            s_bind (receive_chunks env tid d ch st) (\<lambda>st'.
              finish_receive env peer opts d cmp st')))
      | _ \<Rightarrow> s_fail Sess_NoHeader)"

definition receive_session ::
  "session_env \<Rightarrow> transfer_id \<Rightarrow> string \<Rightarrow> recv_options \<Rightarrow> human_name option \<Rightarrow> transfer_descriptor \<Rightarrow>
   bytes \<Rightarrow> client_hello \<Rightarrow> received_transfer session_op" where
  "receive_session env tid peer opts name d request hello =
     s_bind (s_resume (resume_open (env_hex env) (env_json env) (env_now env)
              (components (ro_destination opts)) d)) (\<lambda>st.
     s_bind (emit_event (TransferStarted tid peer (td_files d) (td_archive_bytes d) (rs_offset st))) (\<lambda>_.
     s_bind (emit_stage Authenticating) (\<lambda>_.
     s_bind (receiver_keys env opts name request hello (rs_offset st)) (\<lambda>keys.
     s_bind (s_read_secure env
              \<lparr>ch_aead = chunk_aead_new (sk_recv_key keys) session_key_tag, ch_sequence = 0\<rparr>)
       (\<lambda>(ch, header). receive_archive env tid peer opts d st ch header)))))"

definition receive_stream ::
  "session_env \<Rightarrow> transfer_id \<Rightarrow> socket_addr \<Rightarrow> recv_options \<Rightarrow> received_transfer session_op" where
  "receive_stream env tid peer opts =
     s_bind (s_read env) (\<lambda>f.
     s_bind (accept_intro env f) (\<lambda>(name, d, request, hello).
       if name \<noteq> None \<and> name \<noteq> Some (ro_name opts) then s_fail Sess_NameMismatch
       else receive_session env tid (sock_str peer) opts name d request hello))"

text \<open>
  The accept loop keeps taking connections until one transfer succeeds. The connections still to
  come are a list, each with its peer and the bytes it will deliver; when they run out the
  receiver is still waiting, which is \<open>None\<close>.
\<close>

record incoming =
  inc_peer :: socket_addr
  inc_env :: session_env
  inc_bytes :: bytes
  inc_transfer :: transfer_id

definition error_text :: "(session_error \<Rightarrow> string) \<Rightarrow> transfer_error \<Rightarrow> string" where
  "error_text msg e = (case e of Plain x \<Rightarrow> msg x | Kinded _ x \<Rightarrow> msg x)"

fun recv_once_bound ::
  "(session_error \<Rightarrow> string) \<Rightarrow> recv_options \<Rightarrow> incoming list \<Rightarrow> fs \<Rightarrow> peerline_event list \<Rightarrow>
   fs \<times> peerline_event list \<times> received_transfer option" where
  "recv_once_bound msg opts [] fs evs = (fs, evs, None)"
| "recv_once_bound msg opts (i # rest) fs evs =
     (let c = \<lparr>cn_fs = fs, cn_in = inc_bytes i, cn_out = [],
               cn_events = evs @ [StageChanged (Connecting LanDirect)]\<rparr>
      in case receive_stream (inc_env i) (inc_transfer i) (inc_peer i) opts c of
           (c', Inr r) \<Rightarrow> (cn_fs c', cn_events c', Some r)
         | (c', Inl e) \<Rightarrow>
             recv_once_bound msg opts rest (cn_fs c')
               (cn_events c' @ [StageChanged (Failed (error_text msg e)),
                  Message (sock_str (inc_peer i) @ '': '' @ error_text msg e)]))"

section \<open>What the receiver may touch\<close>

text \<open>
  Two disks agree outside the resume folder of a destination and the folders that lead to it.
\<close>

definition agree_outside :: "path \<Rightarrow> fs \<Rightarrow> fs \<Rightarrow> bool" where
  "agree_outside D fs fs' \<longleftrightarrow>
     (\<forall>q. \<not> path_prefix (resume_root D) q \<longrightarrow> \<not> path_prefix q D \<longrightarrow> map_of fs' q = map_of fs q)"

lemma agree_outside_refl [simp]: "agree_outside D fs fs"
  by (simp add: agree_outside_def)

lemma agree_outside_trans [trans]:
  "agree_outside D fs fs1 \<Longrightarrow> agree_outside D fs1 fs2 \<Longrightarrow> agree_outside D fs fs2"
  by (simp add: agree_outside_def)

definition inside :: "path \<Rightarrow> path \<Rightarrow> bool" where
  "inside D p \<longleftrightarrow> path_prefix (resume_root D) p"

lemma agree_put: "inside D p \<Longrightarrow> agree_outside D fs (fs_put p n fs)"
  by (auto simp: agree_outside_def inside_def)

lemma agree_del: "inside D p \<Longrightarrow> agree_outside D fs (fs_del p fs)"
  by (auto simp: agree_outside_def inside_def)

lemma prefix_of_inside: "path_prefix q (D @ r) \<Longrightarrow> path_prefix q D \<or> path_prefix D q"
  by (auto simp: path_prefix_iff append_eq_append_conv2)

lemma agree_create_dir_all: "inside D p \<Longrightarrow> create_dir_all p fs = Inr fs' \<Longrightarrow> agree_outside D fs fs'"
  unfolding agree_outside_def
proof (intro allI impI)
  fix q assume "inside D p" "create_dir_all p fs = Inr fs'" "\<not> path_prefix (resume_root D) q" "\<not> path_prefix q D"
  moreover have "\<not> path_prefix q p"
    using calculation(1,3,4)
    by (auto simp: inside_def path_prefix_iff append_eq_append_conv2 resume_root_def Cons_eq_append_conv)
  ultimately show "map_of fs' q = map_of fs q" by (simp add: create_dir_all_keeps_other)
qed

lemma agree_prune_dir: "inside D p \<Longrightarrow> agree_outside D fs (prune_dir p fs)"
  using prune_dir_effect by (fastforce simp: agree_outside_def inside_def)

lemma agree_write_file: "inside D p \<Longrightarrow> write_file p b fs = Inr fs' \<Longrightarrow> agree_outside D fs fs'"
  by (auto simp: write_file_Inr intro: agree_put)

lemma agree_rename:
  "inside D p \<Longrightarrow> inside D q \<Longrightarrow> rename_file p q fs = Inr fs' \<Longrightarrow> agree_outside D fs fs'"
  by (drule rename_file_Inr) (auto intro: agree_put agree_del agree_outside_trans)

lemma agree_remove_if_present:
  "inside D p \<Longrightarrow> remove_if_present p fs = (fs', r) \<Longrightarrow> agree_outside D fs fs'"
  by (auto simp: remove_if_present_def remove_file_Inr intro: agree_del split: sum.splits io_error.splits)

text \<open>An operation on the disk that keeps to the resume folder, however it ends.\<close>

definition confined :: "path \<Rightarrow> 'a fs_op \<Rightarrow> bool" where
  "confined D op \<longleftrightarrow> (\<forall>fs fs' r. op fs = (fs', r) \<longrightarrow> agree_outside D fs fs')"

lemma confined_bind: "confined D m \<Longrightarrow> (\<And>x. confined D (k x)) \<Longrightarrow> confined D (fs_bind m k)"
  unfolding confined_def fs_bind_def
  by (fastforce split: prod.splits sum.splits intro: agree_outside_trans)

lemma confined_return [simp]: "confined D (fs_return x)" "confined D (fs_fail e)"
  by (simp_all add: confined_def fs_return_def fs_fail_def)

lemma confined_run:
  "(\<And>fs fs'. op fs = Inr fs' \<Longrightarrow> agree_outside D fs fs') \<Longrightarrow> confined D (fs_run op)"
  by (auto simp: confined_def fs_run_def split: sum.splits)

lemma confined_remove_if_present: "inside D p \<Longrightarrow> confined D (remove_if_present p)"
  using agree_remove_if_present by (auto simp: confined_def)

definition partial_folder :: "path \<Rightarrow> path \<Rightarrow> bool" where
  "partial_folder D dir \<longleftrightarrow> (\<exists>s r. dir = resume_root D @ [Normal s, Normal r])"

lemma partial_dir_folder: "partial_folder D (partial_dir hex D s r)"
  by (auto simp: partial_folder_def partial_dir_def)

lemma partial_folder_inside:
  assumes "partial_folder D dir"
  shows "inside D dir" "inside D (part_path dir)" "inside D (meta_path dir)" "inside D (temp_path dir)"
  using assms by (auto simp: partial_folder_def inside_def path_prefix_iff part_path_def meta_path_def
      temp_path_def)

lemma prune_partial_folder:
  assumes "partial_folder D dir"
  shows "agree_outside D fs (prune_empty_partial_dirs (part_path dir) fs)"
proof -
  from assms obtain s r where dir: "dir = resume_root D @ [Normal s, Normal r]"
    by (auto simp: partial_folder_def)
  have par: "path_parent (part_path dir) = Some dir"
      "path_parent dir = Some (resume_root D @ [Normal s])"
      "path_parent (resume_root D @ [Normal s]) = Some (resume_root D)"
    by (simp_all add: parent_of_part) (simp_all add: dir path_parent_def butlast_append)
  have ins: "inside D dir" "inside D (resume_root D @ [Normal s])" "inside D (resume_root D)"
    by (simp_all add: inside_def dir)
  show ?thesis
    unfolding prune_empty_partial_dirs_def par option.case
    by (intro agree_outside_trans [OF agree_outside_trans [OF agree_prune_dir [OF ins(1)]
          agree_prune_dir [OF ins(2)]] agree_prune_dir [OF ins(3)]])
qed

lemma confined_remove_partial_paths:
  "partial_folder D dir \<Longrightarrow> confined D (remove_partial_paths (part_path dir) (meta_path dir))"
  unfolding remove_partial_paths_def
  by (intro confined_bind confined_remove_if_present partial_folder_inside)
    (auto simp: confined_def prune_partial_folder)

lemma confined_write_metadata:
  "partial_folder D dir \<Longrightarrow> confined D (write_metadata js (meta_path dir) m)"
proof -
  assume d: "partial_folder D dir"
  note ins = partial_folder_inside [OF d]
  have make: "confined D (fs_run (create_dir_all dir))"
    by (rule confined_run) (rule agree_create_dir_all [OF ins(1)])
  have put: "confined D (fs_run (write_file (temp_path dir) b))" for b
    by (rule confined_run) (rule agree_write_file [OF ins(4)])
  have move: "confined D (fs_run (rename_file (temp_path dir) (meta_path dir)))"
    by (rule confined_run) (rule agree_rename [OF ins(4,3)])
  show ?thesis
    unfolding write_metadata_def parent_of_meta temp_of_meta option.case Let_def
    by (intro confined_bind make) (auto intro!: confined_bind put move split: option.splits)
qed

lemma confined_usable_offset:
  assumes "partial_folder D dir"
  shows "confined D (usable_offset js d (part_path dir) (meta_path dir))"
proof -
  let ?gone = "fs_bind (remove_partial_paths (part_path dir) (meta_path dir)) (\<lambda>_. fs_return (0 :: u64))"
  have gone: "confined D ?gone"
    by (intro confined_bind confined_remove_partial_paths assms confined_return)
  show ?thesis
    using gone unfolding confined_def
    by (auto simp: usable_offset_def split: if_splits sum.splits)
qed

lemma confined_resume_open: "confined D (resume_open hex js now D d)"
proof -
  let ?dir = "partial_dir hex D (td_source_id d) (td_resource_id d)"
  note f = partial_dir_folder [of D hex "td_source_id d" "td_resource_id d"]
  let ?rest = "fs_bind (fs_run (create_dir_all ?dir)) (\<lambda>_.
      fs_bind (usable_offset js d (part_path ?dir) (meta_path ?dir)) (\<lambda>offset.
      fs_bind (if offset = 0 then write_metadata js (meta_path ?dir) (metadata_for d 0 now) else fs_return ())
        (\<lambda>_. fs_return \<lparr>rs_path = part_path ?dir, rs_metadata_path = meta_path ?dir, rs_offset = offset\<rparr>)))"
  have "confined D (fs_run (create_dir_all ?dir))"
    by (rule confined_run) (rule agree_create_dir_all [OF partial_folder_inside(1) [OF f]])
  then have rest: "confined D ?rest"
    by (intro confined_bind confined_usable_offset f)
      (auto intro: confined_write_metadata [OF f])
  have clean: "agree_outside D fs (cleanup_expired js now D fs)" for fs
    by (simp add: agree_outside_def cleanup_expired_outside)
  have step: "resume_open hex js now D d fs = ?rest (cleanup_expired js now D fs)" for fs
    unfolding resume_open_def Let_def part_path_def meta_path_def ..
  show ?thesis
    unfolding confined_def
  proof (intro allI impI)
    fix fs fs' r
    assume "resume_open hex js now D d fs = (fs', r)"
    then have "?rest (cleanup_expired js now D fs) = (fs', r)" by (simp only: step)
    then have "agree_outside D (cleanup_expired js now D fs) fs'"
      by (rule rest [unfolded confined_def, rule_format])
    with clean show "agree_outside D fs fs'" by (rule agree_outside_trans)
  qed
qed

definition state_in :: "path \<Rightarrow> resume_state \<Rightarrow> bool" where
  "state_in D st \<longleftrightarrow>
     (\<exists>dir. partial_folder D dir \<and> rs_path st = part_path dir \<and> rs_metadata_path st = meta_path dir)"

lemma resume_open_state: "resume_open hex js now D d fs = (fs', Inr st) \<Longrightarrow> state_in D st"
  using resume_open_Inr [of hex js now D d fs fs' st]
  by (auto simp: state_in_def intro!: exI [of _ "partial_dir hex D (td_source_id d) (td_resource_id d)"]
      partial_dir_folder)

lemma agree_append_chunk:
  assumes "state_in D st" "append_chunk js now d bs st fs = (fs', st', r)"
  shows "agree_outside D fs fs' \<and> state_in D st'"
proof -
  from assms(1) obtain dir where f: "partial_folder D dir"
    and p: "rs_path st = part_path dir" "rs_metadata_path st = meta_path dir"
    by (auto simp: state_in_def)
  have app: "append_file (part_path dir) bs fs = Inr fs1 \<Longrightarrow> agree_outside D fs fs1" for fs1
    by (drule append_file_Inr) (simp add: agree_put partial_folder_inside [OF f])
  have meta: "write_metadata js (meta_path dir) m fs1 = (fs2, x) \<Longrightarrow> agree_outside D fs1 fs2" for m fs1 fs2 x
    using confined_write_metadata [OF f, of js m] unfolding confined_def by blast
  have st': "rs_path st' = rs_path st \<and> rs_metadata_path st' = rs_metadata_path st"
    using assms(2) by (auto simp: append_chunk_def Let_def split: sum.splits option.splits if_splits prod.splits)
  have "agree_outside D fs fs'"
    using assms(2) p app meta
    by (auto simp: append_chunk_def Let_def split: sum.splits option.splits if_splits prod.splits
        intro: agree_outside_trans)
  with st' assms(1) show ?thesis by (simp add: state_in_def)
qed

lemma confined_remove_partial: "state_in D st \<Longrightarrow> confined D (remove_partial st)"
  by (auto simp: state_in_def remove_partial_def confined_remove_partial_paths)

lemma confined_complete_partial: "state_in D st \<Longrightarrow> confined D (complete_partial blake3 st d)"
proof -
  assume "state_in D st"
  then have "confined D (fs_bind (remove_partial st) (\<lambda>_. fs_fail e))" for e
    by (intro confined_bind confined_remove_partial confined_return)
  then show ?thesis
    unfolding confined_def by (auto simp: complete_partial_def split: sum.splits if_splits)
qed

section \<open>Before the archive is verified\<close>

text \<open>
  A part of the session that keeps to the resume folder and writes nothing but its own frames,
  however it ends.
\<close>

definition quiet :: "path \<Rightarrow> 'a session_op \<Rightarrow> bool" where
  "quiet D m \<longleftrightarrow> (\<forall>c c' r. m c = (c', r) \<longrightarrow> agree_outside D (cn_fs c) (cn_fs c'))"

lemma quiet_bind: "quiet D m \<Longrightarrow> (\<And>x. quiet D (k x)) \<Longrightarrow> quiet D (s_bind m k)"
  unfolding quiet_def s_bind_def
  by (fastforce split: prod.splits sum.splits intro: agree_outside_trans)

lemma quiet_basic [simp]:
  "quiet D (s_return x)" "quiet D (s_fail e)" "quiet D (s_fatal e)" "quiet D (s_from r)"
  "quiet D (emit_event ev)" "quiet D (emit_stage st)" "quiet D (emit_message m)"
  "quiet D (emit_progress tid a b)"
  by (auto simp: quiet_def s_return_def s_fail_def s_fatal_def s_from_def emit_event_def emit_stage_def
      emit_message_def emit_progress_def split: sum.splits)

lemma quiet_io [simp]:
  "quiet D (s_read env)" "quiet D (s_write env f)" "quiet D (s_read_secure env ch)"
  by (auto simp: quiet_def s_read_def s_write_def s_read_secure_def split: sum.splits prod.splits)

lemma quiet_ignore: "quiet D m \<Longrightarrow> quiet D (s_ignore m)"
  by (auto simp: quiet_def s_ignore_def split: prod.splits)

lemma quiet_resume: "confined D op \<Longrightarrow> quiet D (s_resume op)"
  by (auto simp: quiet_def confined_def s_resume_def split: prod.splits sum.splits)

lemma quiet_accept_intro: "quiet D (accept_intro env f)"
  by (auto simp: accept_intro_def intro!: quiet_bind quiet_ignore split: wire_frame.splits)

lemma quiet_receiver_keys: "quiet D (receiver_keys env opts name request hello offset)"
  unfolding receiver_keys_def Let_def
  by (intro quiet_bind) (auto intro!: quiet_bind split: wire_frame.splits)

lemma quiet_create_destination: "quiet D (s_create_dir_all D)"
proof -
  have "create_dir_all D fs = Inr fs' \<Longrightarrow> agree_outside D fs fs'" for fs fs'
    by (auto simp: agree_outside_def create_dir_all_keeps_other)
  then show ?thesis by (auto simp: quiet_def s_create_dir_all_def split: sum.splits)
qed

lemma s_append_quiet:
  assumes "state_in D st" "s_append env d bs st c = (c', r)"
  shows "agree_outside D (cn_fs c) (cn_fs c') \<and> (\<forall>st' n. r = Inr (st', n) \<longrightarrow> state_in D st')"
  using assms agree_append_chunk [OF assms(1)]
  by (auto simp: s_append_def split: prod.splits sum.splits)

lemma receive_frame_quiet:
  assumes "state_in D st" "receive_frame env tid d ch st c = (c', r)"
  shows "agree_outside D (cn_fs c) (cn_fs c') \<and> (\<forall>ch' st' b. r = Inr (ch', st', b) \<longrightarrow> state_in D st')"
  using assms(2)
  by (auto simp: receive_frame_def s_bind_def s_read_secure_def emit_progress_def emit_event_def
      s_return_def s_fail_def assms(1) split: prod.splits sum.splits secure_frame.splits
      dest!: s_append_quiet [OF assms(1)])

lemma receive_chunks_quiet:
  assumes "state_in D st" "receive_chunks env tid d ch st c = (c', r)"
  shows "agree_outside D (cn_fs c) (cn_fs c') \<and> (\<forall>st'. r = Inr st' \<longrightarrow> state_in D st')"
  using assms
proof (induction env tid d ch st c rule: receive_chunks.induct)
  case (1 env tid d ch st c)
  obtain c1 x where f: "receive_frame env tid d ch st c = (c1, x)" by fastforce
  note q = receive_frame_quiet [OF "1.prems"(1) f]
  show ?case
  proof (cases x)
    case (Inl e)
    with f "1.prems"(2) q show ?thesis by (auto simp: receive_chunks.simps)
  next
    case (Inr y)
    obtain ch1 st1 b where y: "y = (ch1, st1, b)" by (cases y)
    show ?thesis
    proof (cases b)
      case True
      with f Inr y "1.prems"(2) q show ?thesis by (auto simp: receive_chunks.simps)
    next
      case False
      with f Inr y "1.prems"(2) have rec: "receive_chunks env tid d ch1 st1 c1 = (c', r)"
        by (simp add: receive_chunks.simps)
      have "state_in D st1" using q Inr y by blast
      from "1.IH" [OF f [symmetric] Inr y [symmetric] refl False this rec] q show ?thesis
        by (blast intro: agree_outside_trans)
    qed
  qed
qed

text \<open>
  A sender that proved the code and delivered an archive of the announced size and hash.
\<close>

definition proved_code :: "session_env \<Rightarrow> recv_options \<Rightarrow> bool" where
  "proved_code env opts \<longleftrightarrow>
     (\<exists>request record_bytes response st fin okey.
        opq_record (env_opaque env) (str_bytes (code_str (ro_code opts))) (str_bytes (name_str (ro_name opts))) =
          Some record_bytes \<and>
        opq_server_start (env_opaque env) record_bytes request = Some (response, st) \<and>
        opq_server_finish (env_opaque env) st fin = Some okey)"

definition delivered :: "session_env \<Rightarrow> transfer_descriptor \<Rightarrow> bytes \<Rightarrow> bool" where
  "delivered env d content \<longleftrightarrow>
     of_nat (length content) = td_archive_bytes d \<and> ResourceId (env_blake3 env content) = td_resource_id d"

definition guarded :: "path \<Rightarrow> bool \<Rightarrow> 'a session_op \<Rightarrow> bool" where
  "guarded D P m \<longleftrightarrow> (\<forall>c c' r. m c = (c', r) \<longrightarrow> agree_outside D (cn_fs c) (cn_fs c') \<or> P)"

lemma guarded_quiet: "quiet D m \<Longrightarrow> guarded D P m"
  by (auto simp: quiet_def guarded_def)

lemma guarded_bind:
  assumes "quiet D m" "\<And>c c1 x. m c = (c1, Inr x) \<Longrightarrow> guarded D P (k x)"
  shows "guarded D P (s_bind m k)"
  unfolding guarded_def
proof (intro allI impI)
  fix c c' r
  assume run: "s_bind m k c = (c', r)"
  obtain c1 x where m: "m c = (c1, x)" by fastforce
  then have q: "agree_outside D (cn_fs c) (cn_fs c1)" using assms(1) by (simp add: quiet_def)
  show "agree_outside D (cn_fs c) (cn_fs c') \<or> P"
  proof (cases x)
    case (Inl e)
    with run m q show ?thesis by (simp add: s_bind_def)
  next
    case (Inr y)
    with run m have "k y c1 = (c', r)" by (simp add: s_bind_def)
    with assms(2) [of c c1 y] m Inr have "agree_outside D (cn_fs c1) (cn_fs c') \<or> P"
      by (simp add: guarded_def)
    with q show ?thesis by (blast intro: agree_outside_trans)
  qed
qed

lemma receiver_keys_Inr:
  assumes "receiver_keys env opts name request hello offset c = (c', Inr keys)"
  shows "proved_code env opts \<and> cn_fs c' = cn_fs c \<and>
    (\<exists>response. cn_out c' = cn_out c @ wire_put (env_wire_ser env)
       (ServerIntro protocol_version offset response
         (shs_hello (server_start (env_kex env) (env_x25519_secret env) (env_kem_secret env) hello))))"
proof -
  let ?hs = "server_start (env_kex env) (env_x25519_secret env) (env_kem_secret env) hello"
  let ?reply = "\<lambda>st f. case f of
         ClientFinish finalization kem \<Rightarrow>
           s_bind (s_from (ok_or (opq_server_finish (env_opaque env) st finalization) Sess_Opaque))
             (\<lambda>okey.
           s_from (case server_finish (env_kex env) (env_aead env) (env_blake3 env) ?hs hello kem
                     okey (direct_transcript name) of
                     Inl e \<Rightarrow> Inl (Sess_Handshake e) | Inr keys \<Rightarrow> Inr keys))
       | _ \<Rightarrow> s_fail Sess_UnexpectedFrame"
  from assms obtain rb resp st c1 c2 f where o:
      "opq_record (env_opaque env) (str_bytes (code_str (ro_code opts)))
        (str_bytes (name_str (ro_name opts))) = Some rb"
      "opq_server_start (env_opaque env) rb request = Some (resp, st)"
    and w: "s_write env (ServerIntro protocol_version offset resp (shs_hello ?hs)) c = (c1, Inr ())"
    and r: "s_read env c1 = (c2, Inr f)" and k: "?reply st f c2 = (c', Inr keys)"
    by (auto simp: receiver_keys_def s_bind_Inr s_from_Inr Let_def result_simps)
  from k obtain fin okey where "opq_server_finish (env_opaque env) st fin = Some okey" "c' = c2"
    by (cases f) (auto simp: session_simps result_simps)
  with o have "proved_code env opts" unfolding proved_code_def by blast
  moreover from w r \<open>c' = c2\<close> have "cn_fs c' = cn_fs c"
      "cn_out c' = cn_out c @ wire_put (env_wire_ser env)
         (ServerIntro protocol_version offset resp (shs_hello ?hs))"
    by (auto simp: s_write_def s_read_def wire_put_def split: sum.splits)
  ultimately show ?thesis by blast
qed

lemma complete_partial_Inr:
  "complete_partial blake3 st d fs = (fs', Inr content) \<Longrightarrow>
   fs' = fs \<and> read_file (rs_path st) fs = Inr content \<and>
   of_nat (length content) = td_archive_bytes d \<and> ResourceId (blake3 content) = td_resource_id d"
  by (auto simp: complete_partial_def fs_op_simps split: sum.splits if_splits)

lemma finish_receive_guarded:
  assumes "state_in D st"
  shows "guarded D (\<exists>d content. delivered env d content) (finish_receive env peer opts d cmp st)"
  unfolding finish_receive_def
proof (rule guarded_bind [OF quiet_basic(6)],
    rule guarded_bind [OF quiet_resume [OF confined_complete_partial [OF assms]]])
  fix c c1 archive
  assume "s_resume (complete_partial (env_blake3 env) st d) c = (c1, Inr archive)"
  then have "delivered env d archive"
    by (auto simp: s_resume_def delivered_def split: prod.splits sum.splits dest!: complete_partial_Inr)
  then have "guarded D (\<exists>d content. delivered env d content) m" for m :: "received_transfer session_op"
    unfolding guarded_def by blast
  then show "guarded D (\<exists>d content. delivered env d content) (s_bind (s_unpack env opts cmp archive) (\<lambda>r.
       case r of
         Inr mf \<Rightarrow>
           s_bind (s_resume (remove_partial st)) (\<lambda>_.
           s_bind (s_write env Ack) (\<lambda>_.
           s_bind (emit_stage Complete) (\<lambda>_.
             s_return \<lparr>rt_peer = peer, rt_files = file_count mf, rt_bytes = mf_total_bytes mf\<rparr>)))
       | Inl e \<Rightarrow>
           s_bind (s_ignore (s_resume (remove_partial st))) (\<lambda>_.
           s_bind (s_ignore (s_write env (WireError (env_archive_message env e)))) (\<lambda>_.
             s_fatal (Sess_Archive e)))))" .
qed

lemma receive_archive_guarded:
  assumes "proved_code env opts" "state_in (components (ro_destination opts)) st"
  shows "guarded (components (ro_destination opts))
    (proved_code env opts \<and> (\<exists>d content. delivered env d content))
    (receive_archive env tid peer opts d st ch header)"
proof -
  let ?D = "components (ro_destination opts)"
  let ?P = "proved_code env opts \<and> (\<exists>d content. delivered env d content)"
  have fin: "state_in ?D st' \<Longrightarrow> guarded ?D ?P (finish_receive env peer opts d cmp st')" for st' cmp
    using finish_receive_guarded [of ?D st' env peer opts d cmp] assms(1) by (simp add: guarded_def)
  have q: "quiet ?D (receive_chunks env tid d ch st)"
    using receive_chunks_quiet [OF assms(2)] unfolding quiet_def by blast
  have "guarded ?D ?P (s_bind (emit_stage ReceivingManifest) (\<lambda>_.
            s_bind (s_create_dir_all ?D) (\<lambda>_.
            s_bind (receive_chunks env tid d ch st) (\<lambda>st'.
              finish_receive env peer opts d cmp st'))))" for cmp
    by (intro guarded_bind quiet_basic quiet_create_destination q)
      (use receive_chunks_quiet [OF assms(2)] fin in blast)
  then show ?thesis
    by (cases header) (simp_all add: receive_archive_def guarded_quiet)
qed

lemma receive_session_guarded:
  "guarded (components (ro_destination opts))
    (proved_code env opts \<and> (\<exists>d content. delivered env d content))
    (receive_session env tid peer opts name d request hello)"
proof -
  let ?D = "components (ro_destination opts)"
  let ?P = "proved_code env opts \<and> (\<exists>d content. delivered env d content)"
  have tail: "state_in ?D st \<Longrightarrow> guarded ?D ?P (s_bind (receiver_keys env opts name request hello (rs_offset st))
      (\<lambda>keys. s_bind (s_read_secure env
              \<lparr>ch_aead = chunk_aead_new (sk_recv_key keys) session_key_tag, ch_sequence = 0\<rparr>)
       (\<lambda>(ch, header). receive_archive env tid peer opts d st ch header)))" for st
    by (intro guarded_bind quiet_receiver_keys quiet_io)
      (auto dest!: receiver_keys_Inr intro: receive_archive_guarded)
  show ?thesis
    unfolding receive_session_def
  proof (rule guarded_bind [OF quiet_resume [OF confined_resume_open]])
    fix c c1 st
    assume "s_resume (resume_open (env_hex env) (env_json env) (env_now env) ?D d) c = (c1, Inr st)"
    then have "state_in ?D st"
      by (auto simp: s_resume_def dest: resume_open_state split: prod.splits sum.splits)
    then show "guarded ?D ?P (s_bind (emit_event (TransferStarted tid peer (td_files d) (td_archive_bytes d)
        (rs_offset st))) (\<lambda>_.
     s_bind (emit_stage Authenticating) (\<lambda>_.
     s_bind (receiver_keys env opts name request hello (rs_offset st)) (\<lambda>keys.
     s_bind (s_read_secure env
              \<lparr>ch_aead = chunk_aead_new (sk_recv_key keys) session_key_tag, ch_sequence = 0\<rparr>)
       (\<lambda>(ch, header). receive_archive env tid peer opts d st ch header)))))"
      by (intro guarded_bind quiet_basic tail)
  qed
qed


section \<open>What a completed transfer means\<close>

lemma finish_receive_Inr:
  assumes "finish_receive env peer opts d cmp st c = (c', Inr rt)" "state_in D st"
  shows "\<exists>content fs1 fs2 mf. delivered env d content \<and>
    unpack_archive_from_reader (env_zstd env) (env_lzma env) (env_archive_de env) (env_blake3 env)
      (ro_destination opts) cmp \<lparr>rd_bytes = content, rd_fails = False\<rparr> (ro_overwrite opts) fs1 =
      (fs2, Inr mf) \<and>
    rt = \<lparr>rt_peer = peer, rt_files = file_count mf, rt_bytes = mf_total_bytes mf\<rparr> \<and>
    agree_outside D (cn_fs c) fs1 \<and> agree_outside D fs2 (cn_fs c') \<and>
    cn_out c' = cn_out c @ wire_put (env_wire_ser env) Ack"
proof -
  let ?fin = "\<lambda>r. case r of
         Inr mf \<Rightarrow>
           s_bind (s_resume (remove_partial st)) (\<lambda>_.
           s_bind (s_write env Ack) (\<lambda>_.
           s_bind (emit_stage Complete) (\<lambda>_.
             s_return \<lparr>rt_peer = peer, rt_files = file_count mf, rt_bytes = mf_total_bytes mf\<rparr>)))
       | Inl e \<Rightarrow>
           s_bind (s_ignore (s_resume (remove_partial st))) (\<lambda>_.
           s_bind (s_ignore (s_write env (WireError (env_archive_message env e)))) (\<lambda>_.
             s_fatal (Sess_Archive e)))"
  from assms(1) obtain c1 c2 c3 u content r where
      c1: "emit_stage Verifying c = (c1, Inr u)"
    and c2: "s_resume (complete_partial (env_blake3 env) st d) c1 = (c2, Inr content)"
    and c3: "s_unpack env opts cmp content c2 = (c3, Inr r)" and k: "?fin r c3 = (c', Inr rt)"
    unfolding finish_receive_def s_bind_Inr by blast
  from c1 have e1: "cn_fs c1 = cn_fs c" "cn_out c1 = cn_out c"
    by (auto simp: emit_stage_def emit_event_def)
  from c2 e1 have e2: "cn_fs c2 = cn_fs c" "cn_out c2 = cn_out c" "delivered env d content"
    by (auto simp: s_resume_def delivered_def dest!: complete_partial_Inr split: prod.splits sum.splits)
  obtain mf where mf: "r = Inr mf"
    using k by (cases r) (auto simp: s_bind_Inr)
  from c3 mf e2(1,2) have e3: "unpack_archive_from_reader (env_zstd env) (env_lzma env) (env_archive_de env)
      (env_blake3 env) (ro_destination opts) cmp \<lparr>rd_bytes = content, rd_fails = False\<rparr> (ro_overwrite opts)
      (cn_fs c) = (cn_fs c3, Inr mf)" "cn_out c3 = cn_out c"
    by (auto simp: s_unpack_def split: prod.splits)
  from k mf obtain c4 c5 where c4: "s_resume (remove_partial st) c3 = (c4, Inr ())"
      and c5: "s_write env Ack c4 = (c5, Inr ())"
      and fin: "c' = c5\<lparr>cn_events := cn_events c5 @ [StageChanged Complete]\<rparr>"
      "rt = \<lparr>rt_peer = peer, rt_files = file_count mf, rt_bytes = mf_total_bytes mf\<rparr>"
    by (auto simp: session_simps emit_stage_def emit_event_def)
  have "agree_outside D (cn_fs c3) (cn_fs c4)" "cn_out c4 = cn_out c3"
    using c4 confined_remove_partial [OF assms(2)]
    by (auto simp: s_resume_def confined_def split: prod.splits sum.splits)
  moreover have "cn_fs c5 = cn_fs c4" "cn_out c5 = cn_out c4 @ wire_put (env_wire_ser env) Ack"
    using c5 by (auto simp: s_write_def wire_put_def split: sum.splits)
  ultimately show ?thesis
    using e2(3) e3 fin by (intro exI [of _ content] exI [of _ "cn_fs c"] exI [of _ "cn_fs c3"] exI [of _ mf]) simp
qed

lemma receive_frame_out: "receive_frame env tid d ch st c = (c', r) \<Longrightarrow> cn_out c' = cn_out c"
  by (auto simp: receive_frame_def s_bind_def s_read_secure_def emit_progress_def emit_event_def
      s_return_def s_fail_def s_append_def split: prod.splits sum.splits secure_frame.splits)

lemma receive_chunks_out: "receive_chunks env tid d ch st c = (c', r) \<Longrightarrow> cn_out c' = cn_out c"
proof (induction env tid d ch st c rule: receive_chunks.induct)
  case (1 env tid d ch st c)
  obtain c1 x where f: "receive_frame env tid d ch st c = (c1, x)" by fastforce
  show ?case
    using "1.prems" f receive_frame_out [OF f] "1.IH" [OF f [symmetric]]
    by (subst (asm) receive_chunks.simps) (auto split: sum.splits if_splits)
qed

lemma receive_archive_Inr:
  assumes "receive_archive env tid peer opts d st ch header c = (c', Inr rt)"
    and st: "state_in (components (ro_destination opts)) st"
  defines "D \<equiv> components (ro_destination opts)"
  shows "\<exists>content fs1 fs2 mf. delivered env d content \<and>
    unpack_archive_from_reader (env_zstd env) (env_lzma env) (env_archive_de env) (env_blake3 env)
      (ro_destination opts) (td_compression d) \<lparr>rd_bytes = content, rd_fails = False\<rparr> (ro_overwrite opts) fs1 =
      (fs2, Inr mf) \<and>
    rt = \<lparr>rt_peer = peer, rt_files = file_count mf, rt_bytes = mf_total_bytes mf\<rparr> \<and>
    agree_outside D (cn_fs c) fs1 \<and> agree_outside D fs2 (cn_fs c') \<and>
    cn_out c' = cn_out c @ wire_put (env_wire_ser env) Ack"
proof -
  from assms(1) obtain cmp where h: "header = SecureHeader cmp" "cmp = td_compression d"
    by (cases header) (auto simp: receive_archive_def split: if_splits)
  with assms(1) obtain c1 c2 c3 u1 u2 st' where
      c1: "emit_stage ReceivingManifest c = (c1, Inr u1)"
    and c2: "s_create_dir_all D c1 = (c2, Inr u2)"
    and c3: "receive_chunks env tid d ch st c2 = (c3, Inr st')"
    and fin: "finish_receive env peer opts d (td_compression d) st' c3 = (c', Inr rt)"
    unfolding receive_archive_def D_def by (auto simp: s_bind_Inr)
  have st': "state_in D st'" and q3: "agree_outside D (cn_fs c2) (cn_fs c3)"
    using receive_chunks_quiet [OF st c3] by (simp_all add: D_def)
  have "agree_outside D (cn_fs c1) (cn_fs c2)" "cn_out c2 = cn_out c1"
    using quiet_create_destination [of D] c2
    by (auto simp: quiet_def s_create_dir_all_def split: sum.splits)
  moreover have "cn_fs c1 = cn_fs c" "cn_out c1 = cn_out c"
    using c1 by (auto simp: emit_stage_def emit_event_def)
  ultimately have q: "agree_outside D (cn_fs c) (cn_fs c3)" and out: "cn_out c3 = cn_out c"
    using q3 receive_chunks_out [OF c3] by (auto intro: agree_outside_trans)
  show ?thesis
    using finish_receive_Inr [OF fin st', unfolded out] agree_outside_trans [OF q] by blast
qed

lemma accept_intro_Inr:
  "accept_intro env f c = (c', Inr (name, d, request, hello)) \<Longrightarrow>
   f = ClientIntro protocol_version name d request hello \<and> c' = c"
  by (auto simp: accept_intro_def session_simps split: wire_frame.splits if_splits)


section \<open>A concrete session\<close>

definition run_options :: recv_options where
  "run_options = \<lparr>ro_name = HumanName ''a'', ro_code = HumanCode ''a-b-c'',
     ro_bind = sock_new (V4 0 0 0 0) 0, ro_destination = ''in'', ro_overwrite = False\<rparr>"

definition run_conn :: conn where
  "run_conn = \<lparr>cn_fs = [], cn_in = concat (map (\<lambda>b. [0, 0, 0, 1, b]) [1, 2, 3, 4, 5]), cn_out = [],
     cn_events = []\<rparr>"

abbreviation run_peer :: socket_addr where
  "run_peer \<equiv> sock_new (V4 0 0 0 0) 0"

definition run_result :: "conn \<times> (transfer_error + received_transfer)" where
  "run_result = receive_stream run_env (TransferId [1]) run_peer run_options run_conn"

lemma run_received:
  "map_of (cn_fs (fst run_result)) [Normal ''in'', Normal ''d''] = Some DirN \<and>
   snd run_result = Inr \<lparr>rt_peer = sock_str run_peer, rt_files = 0, rt_bytes = 0\<rparr>"
  by code_simp

lemma run_splits:
  "receive_stream run_env (TransferId [1]) run_peer run_options run_conn =
   (fst run_result, Inr \<lparr>rt_peer = sock_str run_peer, rt_files = 0, rt_bytes = 0\<rparr>)"
  using run_received by (metis prod.collapse run_result_def)

lemma run_destination: "components (ro_destination run_options) = [Normal ''in'']"
  by code_simp



end
