(* ===== verification/Rendezvous_Model.thy ===== *)
theory Rendezvous_Model
  imports Prelude
begin

text \<open>
  \<open>peerline-rendezvous-model\<close>, the crate the rendezvous client and service share: the records
  they exchange and the signature over a request. BLAKE3, its keyed form and the base64 text
  of a hash are a record of parameters. Strings are their UTF-8 bytes, timestamps are
  integers (\<open>i64\<close> in the code).
\<close>

definition header_timestamp :: string where
  "header_timestamp = ''x-peerline-timestamp''"

definition header_signature :: string where
  "header_signature = ''x-peerline-signature''"

definition header_version :: string where
  "header_version = ''x-peerline-version''"

definition default_registration_ttl_secs :: u32 where
  "default_registration_ttl_secs = 120"

definition default_keepalive_secs :: u32 where
  "default_keepalive_secs = 60"

definition registration_tolerance_secs :: u32 where
  "registration_tolerance_secs = default_registration_ttl_secs - default_keepalive_secs"

definition default_max_ttl_secs :: u32 where
  "default_max_ttl_secs = default_registration_ttl_secs + registration_tolerance_secs"

definition descriptor_protocol_version :: u16 where
  "descriptor_protocol_version = 1"

record public_tunnel_endpoint =
  pt_provider :: string
  pt_url :: string

record tor_onion_endpoint =
  to_url :: string

record i2p_endpoint =
  ip_url :: string

record peer_descriptor =
  pd_protocol_version :: u16
  pd_peer_id :: string
  pd_direct_endpoints :: "string list"
  pd_libp2p_endpoints :: "string list"
  pd_public_endpoints :: "public_tunnel_endpoint list"
  pd_tor_endpoints :: "tor_onion_endpoint list"
  pd_i2p_endpoints :: "i2p_endpoint list"
  pd_published_unix_ms :: u64

record rendezvous_record =
  rr_sequence :: u64
  rr_expires_unix_ms :: u64
  rr_descriptor :: peer_descriptor

record register_request =
  rq_ttl_seconds :: u32
  rq_descriptor :: peer_descriptor

record register_response =
  rg_cookie :: u64
  rg_record :: rendezvous_record

record unregister_response =
  un_removed :: u32

record discover_request =
  dq_after_cookie :: "u64 option"
  dq_limit :: "u32 option"

record discover_response =
  dr_cookie :: u64
  dr_records :: "rendezvous_record list"

section \<open>Signed requests\<close>

record mac_suite =
  mac_hash :: "bytes \<Rightarrow> bytes"
  mac_keyed :: "bytes \<Rightarrow> bytes \<Rightarrow> bytes"
  mac_text :: "bytes \<Rightarrow> string"

definition request_path_and_query :: "string \<Rightarrow> string option \<Rightarrow> string" where
  "request_path_and_query path query =
     (case query of
        None \<Rightarrow> path
      | Some q \<Rightarrow> if q \<noteq> [] then path @ ''?'' @ q else path)"

definition int_str :: "int \<Rightarrow> string" where
  "int_str n = (if n < 0 then ''-'' @ dec_str (nat (- n)) else dec_str (nat n))"

definition newline :: bytes where
  "newline = [10]"

definition signed_input :: "int \<Rightarrow> string \<Rightarrow> string \<Rightarrow> bytes \<Rightarrow> bytes" where
  "signed_input timestamp_ms meth path_and_query body =
     str_bytes (int_str timestamp_ms) @ newline @ str_bytes meth @ newline @
     str_bytes path_and_query @ newline @ body"

definition sign_peerline_request ::
  "mac_suite \<Rightarrow> string \<Rightarrow> int \<Rightarrow> string \<Rightarrow> string \<Rightarrow> bytes \<Rightarrow> string" where
  "sign_peerline_request mac token timestamp_ms meth path_and_query body =
     mac_text mac (mac_keyed mac (mac_hash mac (str_bytes token))
       (signed_input timestamp_ms meth path_and_query body))"

definition constant_time_eq :: "bytes \<Rightarrow> bytes \<Rightarrow> bool" where
  "constant_time_eq left right =
     (if length left \<noteq> length right then False
      else foldl (\<lambda>diff (l, r). diff OR (l XOR r)) (0 :: u8) (zip left right) = 0)"

definition verify_peerline_request_signature ::
  "mac_suite \<Rightarrow> string \<Rightarrow> int \<Rightarrow> string \<Rightarrow> string \<Rightarrow> bytes \<Rightarrow> string \<Rightarrow> bool" where
  "verify_peerline_request_signature mac token timestamp_ms meth path_and_query body signature =
     constant_time_eq (str_bytes (sign_peerline_request mac token timestamp_ms meth path_and_query body))
       (str_bytes signature)"

lemma or_eq_zero: "(a :: u8) OR b = 0 \<longleftrightarrow> a = 0 \<and> b = 0"
  by (auto simp: bit_eq_iff bit_or_iff)

lemma xor_eq_zero: "(a :: u8) XOR b = 0 \<longleftrightarrow> a = b"
  by (auto simp: bit_eq_iff bit_xor_iff)

lemma diff_fold_zero:
  "length xs = length ys \<Longrightarrow>
   foldl (\<lambda>diff (l, r). diff OR (l XOR r)) (d :: u8) (zip xs ys) = 0 \<longleftrightarrow> d = 0 \<and> xs = ys"
proof (induction xs ys arbitrary: d rule: list_induct2)
  case Nil
  then show ?case by simp
next
  case (Cons x xs y ys)
  then show ?case by (auto simp: or_eq_zero xor_eq_zero)
qed

lemma constant_time_eq_iff: "constant_time_eq left right \<longleftrightarrow> left = right"
  by (auto simp: constant_time_eq_def diff_fold_zero)

lemma signature_accepted_iff:
  "verify_peerline_request_signature mac token t m p body signature \<longleftrightarrow>
     signature = sign_peerline_request mac token t m p body"
  by (auto simp: constant_time_eq_iff verify_peerline_request_signature_def)

text \<open>
  The constant-time comparison is equality, so a signature verifies exactly when it is the
  one the holder of the token would make for this request.
\<close>

theorem signature_verifies_iff:
  "(constant_time_eq left right \<longleftrightarrow> left = right) \<and>
   (verify_peerline_request_signature mac token t m p body signature \<longleftrightarrow>
      signature = sign_peerline_request mac token t m p body)"
  by (intro conjI constant_time_eq_iff signature_accepted_iff)

lemma line_inject:
  assumes "a @ newline @ r = b @ newline @ s" "10 \<notin> set a" "10 \<notin> set b"
  shows "a = b \<and> r = s"
  using assms by (auto simp: newline_def append_eq_append_conv2 append_eq_Cons_conv Cons_eq_append_conv)

lemma int_str_inject: "int_str m = int_str n \<longleftrightarrow> m = n"
proof -
  have minus: "CHR ''-'' \<notin> set (dec_str k)" for k
    using dec_str_digits [of k] by (auto simp: is_digit_def code_def)
  have "CHR ''-'' # dec_str j \<noteq> dec_str k" for j k
    using minus [of k] by (metis list.set_intros(1))
  then show ?thesis by (auto simp: int_str_def dest: sym)
qed

lemma int_str_chars: "\<forall>c \<in> set (int_str n). c = CHR ''-'' \<or> is_digit c"
  using dec_str_digits by (auto simp: int_str_def)

lemma str_bytes_no_newline: "10 \<notin> set (str_bytes s) \<longleftrightarrow> CHR 0x0A \<notin> set s"
proof -
  have "code (CHR 0x0A) = 10" by (simp add: code_def)
  then have "code c = 10 \<longleftrightarrow> c = CHR 0x0A" for c by (metis code_eq_iff)
  then have "of_nat (code c) = (10 :: u8) \<longleftrightarrow> c = CHR 0x0A" for c
    by (simp add: word_unat_eq_iff unat_of_nat)
  then have "10 \<in> set (str_bytes s) \<longleftrightarrow> CHR 0x0A \<in> set s"
    unfolding str_bytes_def set_map image_iff by metis
  then show ?thesis by blast
qed

text \<open>
  A signature covers the whole request: the bytes hashed for two requests are equal only if
  the requests agree on timestamp, method, path with query, and body, given that a method
  and a path hold no line break (an HTTP request line cannot).
\<close>

theorem signed_input_injective:
  assumes "CHR 0x0A \<notin> set m" "CHR 0x0A \<notin> set p" "CHR 0x0A \<notin> set m'" "CHR 0x0A \<notin> set p'"
    and "signed_input t m p body = signed_input t' m' p' body'"
  shows "t = t' \<and> m = m' \<and> p = p' \<and> body = body'"
proof -
  have "\<not> is_digit (CHR 0x0A)" by (simp add: is_digit_def code_def)
  then have "CHR 0x0A \<notin> set (int_str n)" for n using int_str_chars [of n] by auto
  then have t: "10 \<notin> set (str_bytes (int_str n))" for n
    unfolding str_bytes_no_newline .
  note nl = assms(1-4) [folded str_bytes_no_newline]
  from assms(5) have "str_bytes (int_str t) = str_bytes (int_str t') \<and>
      str_bytes m @ newline @ str_bytes p @ newline @ body =
      str_bytes m' @ newline @ str_bytes p' @ newline @ body'"
    unfolding signed_input_def by (rule line_inject [OF _ t t])
  then have a: "t = t'" and b: "str_bytes m @ newline @ str_bytes p @ newline @ body =
      str_bytes m' @ newline @ str_bytes p' @ newline @ body'"
    by (simp_all only: str_bytes_inject int_str_inject)
  from line_inject [OF b nl(1,3)] have c: "m = m'" and d: "str_bytes p @ newline @ body =
      str_bytes p' @ newline @ body'" by simp_all
  from line_inject [OF d nl(2,4)] a c show ?thesis by simp
qed

lemma signed_input_injective_witness:
  "(1 :: int) = 1 \<and> ''GET'' = ''GET'' \<and> ''/a'' = ''/a'' \<and> [10 :: u8] = [10]"
  by (rule signed_input_injective) simp_all

end
