(* ===== verification/Std_Parse.thy ===== *)
theory Std_Parse
  imports Prelude
begin

text \<open>
  The parts of \<open>str\<close> and of integer parsing in Rust's standard library that the rendezvous and
  discovery code uses beyond the prelude: \<open>parse::<uN>\<close> and \<open>parse::<i64>\<close>,
  \<open>trim_matches\<close> for one character, and splitting at white space.
\<close>

definition all_digits :: "string \<Rightarrow> bool" where
  "all_digits s \<longleftrightarrow> s \<noteq> [] \<and> (\<forall>c \<in> set s. is_digit c)"

definition digits_below :: "nat \<Rightarrow> string \<Rightarrow> nat option" where
  "digits_below bound s = (if all_digits s \<and> dec_val s < bound then Some (dec_val s) else None)"

text \<open>An unsigned parse accepts one leading plus sign.\<close>

definition parse_unsigned :: "nat \<Rightarrow> string \<Rightarrow> nat option" where
  "parse_unsigned bound s =
     digits_below bound (case s of [] \<Rightarrow> [] | c # r \<Rightarrow> if c = CHR ''+'' then r else s)"

definition parse_i64 :: "string \<Rightarrow> int option" where
  "parse_i64 s =
     (case s of
        [] \<Rightarrow> None
      | c # r \<Rightarrow>
          if c = CHR ''-'' then map_option (\<lambda>n. - int n) (digits_below (2 ^ 63 + 1) r)
          else map_option int (digits_below (2 ^ 63) (if c = CHR ''+'' then r else s)))"

definition trim_matches :: "char \<Rightarrow> string \<Rightarrow> string" where
  "trim_matches c s = rev (dropWhile (\<lambda>x. x = c) (rev (dropWhile (\<lambda>x. x = c) s)))"

definition eq_ignore_ascii_case :: "string \<Rightarrow> string \<Rightarrow> bool" where
  "eq_ignore_ascii_case a b \<longleftrightarrow> to_lower a = to_lower b"

text \<open>Splitting at a separator that is white space or satisfies a predicate.\<close>

function split_ws :: "(char \<Rightarrow> bool) \<Rightarrow> string \<Rightarrow> string list" where
  "split_ws p s =
     (case s of
        [] \<Rightarrow> [[]]
      | c # r \<Rightarrow>
          let n = ws_len (map code s) in
          if p c then [] # split_ws p r
          else if 0 < n then [] # split_ws p (drop n s)
          else (case split_ws p r of [] \<Rightarrow> [[c]] | x # xs \<Rightarrow> (c # x) # xs))"
  by pat_completeness auto
termination by (relation "measure (\<lambda>(p, s). length s)") auto

declare split_ws.simps [simp del]

definition split_whitespace :: "string \<Rightarrow> string list" where
  "split_whitespace s = filter (\<lambda>w. w \<noteq> []) (split_ws (\<lambda>_. False) s)"

text \<open>An equation of \<open>split_on\<close> that evaluates its tail once.\<close>

lemma split_on_code [code]:
  "split_on p [] = [[]]"
  "split_on p (x # xs) =
     (case split_on p xs of [] \<Rightarrow> [] | y # ys \<Rightarrow> if p x then [] # y # ys else (x # y) # ys)"
  by (simp_all split: list.split)

lemma all_digits_dec_str [simp]: "all_digits (dec_str n)"
  using dec_str_digits by (simp add: all_digits_def)

lemma digits_below_dec_str: "n < bound \<Longrightarrow> digits_below bound (dec_str n) = Some n"
  by (simp add: digits_below_def)

lemma dec_str_head: "dec_str n = c # r \<Longrightarrow> is_digit c"
  using dec_str_digits [of n] by simp

lemma parse_unsigned_dec_str: "n < bound \<Longrightarrow> parse_unsigned bound (dec_str n) = Some n"
proof -
  assume n: "n < bound"
  obtain c r where s: "dec_str n = c # r" by (cases "dec_str n") simp_all
  then have "c \<noteq> CHR ''+''" using dec_str_head [OF s] by (auto simp: is_digit_def code_def)
  with s digits_below_dec_str [OF n] show ?thesis by (simp add: parse_unsigned_def)
qed

lemma parse_unsigned_bound: "parse_unsigned bound s = Some n \<Longrightarrow> n < bound"
  by (auto simp: parse_unsigned_def digits_below_def split: if_splits)

lemma parse_i64_range:
  assumes "parse_i64 s = Some n"
  shows "- (2 ^ 63) \<le> n \<and> n < 2 ^ 63"
proof -
  have b: "digits_below m r = Some k \<Longrightarrow> k < m" for m r k
    by (auto simp: digits_below_def split: if_splits)
  show ?thesis
    using assms by (auto simp: parse_i64_def split: list.splits if_splits dest!: b)
qed

end
