(* ===== verification/Rendezvous_Client.thy ===== *)
theory Rendezvous_Client
  imports Identity Rendezvous_Model Std_Parse "HOL-Library.List_Lexorder"
    "HOL-Library.Product_Lexorder" "HOL-Library.Char_ord" "HOL-Library.Code_Target_Nat"
begin

text \<open>
  The rendezvous client (\<open>peerline-net/src/rendezvous.rs\<close>): its configuration from the
  environment, the signed requests, publishing, removing and discovering descriptors, and the
  registration guard with the task that keeps a registration alive. URLs (the \<open>url\<close> crate), the
  HTTP client (\<open>reqwest\<close>), JSON, base64 and the tick rule of a tokio interval are parameters;
  everything a request can reach is the type \<open>'w\<close>, passed through. A \<open>Duration\<close> is its number of
  milliseconds: every one here is whole. \<open>env\<close> reads the process environment.
\<close>

section \<open>Configuration\<close>

datatype release_channel = Alpha | Beta | Stable

datatype client_identity = PemBundle bytes | PemPath string

record 'u rendezvous_config =
  rc_endpoints :: "'u list"
  rc_auth_token :: "string option"
  rc_client_identity :: "client_identity option"
  rc_request_timeout :: nat
  rc_registration_ttl :: nat
  rc_registration_keepalive :: nat

record 'u url_api =
  ua_parse :: "string \<Rightarrow> 'u option"
  ua_scheme :: "'u \<Rightarrow> string"
  ua_host :: "'u \<Rightarrow> string option"
  ua_port :: "'u \<Rightarrow> u16 option"
  ua_path :: "'u \<Rightarrow> string"
  ua_query :: "'u \<Rightarrow> string option"
  ua_join :: "'u \<Rightarrow> string \<Rightarrow> 'u option"
  ua_append_pair :: "string \<Rightarrow> string \<Rightarrow> 'u \<Rightarrow> 'u"

definition default_rendezvous_timeout :: nat where "default_rendezvous_timeout = 5 * 1000"
definition default_rendezvous_ttl :: nat where
  "default_rendezvous_ttl = unat default_registration_ttl_secs * 1000"
definition default_rendezvous_keepalive :: nat where
  "default_rendezvous_keepalive = unat default_keepalive_secs * 1000"

definition host_root :: string where "host_root = ''rendezvous.peerline.pwp.sh''"
definition host_alpha :: string where "host_alpha = ''alpha.rendezvous.peerline.pwp.sh''"
definition host_beta :: string where "host_beta = ''beta.rendezvous.peerline.pwp.sh''"

definition disabled_config :: "'u rendezvous_config" where
  "disabled_config = \<lparr>rc_endpoints = [], rc_auth_token = None, rc_client_identity = None,
     rc_request_timeout = default_rendezvous_timeout, rc_registration_ttl = default_rendezvous_ttl,
     rc_registration_keepalive = default_rendezvous_keepalive\<rparr>"

definition release_channel_from_version :: "string \<Rightarrow> release_channel" where
  "release_channel_from_version version =
     (case split_once (CHR ''-'') version of
        None \<Rightarrow> Stable
      | Some (_, tail) \<Rightarrow>
          (let tag = hd (split_on (\<lambda>c. c = CHR ''.'') tail) in
           if tag = ''alpha'' then Alpha else if tag = ''beta'' then Beta else Stable))"

definition default_rendezvous_endpoint :: "string \<Rightarrow> string" where
  "default_rendezvous_endpoint version =
     (case release_channel_from_version version of
        Alpha \<Rightarrow> ''https://alpha.rendezvous.peerline.pwp.sh''
      | Beta \<Rightarrow> ''https://beta.rendezvous.peerline.pwp.sh''
      | Stable \<Rightarrow> ''https://rendezvous.peerline.pwp.sh'')"

definition is_peerline_private_host :: "string \<Rightarrow> bool" where
  "is_peerline_private_host h \<longleftrightarrow> h \<in> {host_root, host_alpha, host_beta}"

definition is_default_private_endpoint :: "'u url_api \<Rightarrow> 'u \<Rightarrow> bool" where
  "is_default_private_endpoint ua u \<longleftrightarrow>
     ua_scheme ua u = ''https'' \<and>
     (case ua_host ua u of None \<Rightarrow> False | Some h \<Rightarrow> is_peerline_private_host h) \<and>
     ua_port ua u = Some 443"

definition usable_endpoints :: "'u url_api \<Rightarrow> 'u rendezvous_config \<Rightarrow> 'u list" where
  "usable_endpoints ua cfg =
     filter (\<lambda>u. \<not> is_default_private_endpoint ua u \<or> rc_client_identity cfg \<noteq> None) (rc_endpoints cfg)"

definition rendezvous_endpoints_from_env :: "'u url_api \<Rightarrow> (string \<Rightarrow> string option) \<Rightarrow> 'u list option" where
  "rendezvous_endpoints_from_env ua env =
     (case (case env ''PEERLINE_RENDEZVOUS_URLS'' of
              Some raw \<Rightarrow> Some raw | None \<Rightarrow> env ''PEERLINE_RENDEZVOUS_URL'') of
        None \<Rightarrow> None
      | Some raw \<Rightarrow>
          (let endpoints = List.map_filter (ua_parse ua)
                 (filter (\<lambda>v. v \<noteq> []) (map trim (split_on (\<lambda>c. c = CHR '','') raw)))
           in if endpoints = [] then None else Some endpoints))"

definition auth_token_from_env :: "(string \<Rightarrow> string option) \<Rightarrow> string option" where
  "auth_token_from_env env =
     (case env ''PEERLINE_RENDEZVOUS_TOKEN'' of
        None \<Rightarrow> None
      | Some t \<Rightarrow> if trim t \<noteq> [] then Some t else None)"

definition pem_bundle_from_raw :: "string \<Rightarrow> bytes option" where
  "pem_bundle_from_raw raw = (let pem = trim raw in if pem = [] then None else Some (str_bytes pem))"

definition pem_bundle_from_base64 :: "(string \<Rightarrow> bytes option) \<Rightarrow> string \<Rightarrow> bytes option" where
  "pem_bundle_from_base64 b64 raw =
     (let encoded = concat (split_whitespace raw) in
      if encoded = [] then None
      else (case b64 encoded of
              Some bs \<Rightarrow> if bs \<noteq> [] then Some bs else None
            | None \<Rightarrow> None))"

definition client_identity_from_env ::
  "(string \<Rightarrow> bytes option) \<Rightarrow> string option \<Rightarrow> string option \<Rightarrow> (string \<Rightarrow> string option) \<Rightarrow> client_identity option" where
  "client_identity_from_env b64 build_pem build_pem_b64 env =
     (case Option.bind (env ''PEERLINE_RENDEZVOUS_CLIENT_IDENTITY_PEM'') pem_bundle_from_raw of
        Some pem \<Rightarrow> Some (PemBundle pem)
      | None \<Rightarrow>
          (let p = (case env ''PEERLINE_RENDEZVOUS_CLIENT_IDENTITY_PATH'' of None \<Rightarrow> [] | Some raw \<Rightarrow> trim raw) in
           if p \<noteq> [] then Some (PemPath p)
           else (case Option.bind build_pem pem_bundle_from_raw of
                   Some pem \<Rightarrow> Some (PemBundle pem)
                 | None \<Rightarrow> map_option PemBundle (Option.bind build_pem_b64 (pem_bundle_from_base64 b64)))))"

definition env_duration_ms :: "(string \<Rightarrow> string option) \<Rightarrow> string \<Rightarrow> nat option" where
  "env_duration_ms env name = Option.bind (env name) (parse_unsigned (2 ^ 64))"

definition env_duration_secs :: "(string \<Rightarrow> string option) \<Rightarrow> string \<Rightarrow> nat option" where
  "env_duration_secs env name = map_option (\<lambda>s. s * 1000) (Option.bind (env name) (parse_unsigned (2 ^ 64)))"

text \<open>How long the client waits between refreshes: never past the tolerance before the end.\<close>

definition normalize_registration_keepalive :: "nat \<Rightarrow> nat \<Rightarrow> nat" where
  "normalize_registration_keepalive ttl requested =
     (let ttl_secs = max (min ttl (unat default_max_ttl_secs * 1000) div 1000) 1;
          requested_secs = max (requested div 1000) 1;
          tolerance_secs = (if ttl_secs \<le> 1 then 0
            else min (max (ttl_secs div 2) 1) (unat registration_tolerance_secs));
          latest_refresh_secs = max (ttl_secs - tolerance_secs) 1
      in min requested_secs latest_refresh_secs * 1000)"

definition registration_keepalive_interval :: "'u rendezvous_config \<Rightarrow> nat" where
  "registration_keepalive_interval cfg =
     normalize_registration_keepalive (rc_registration_ttl cfg) (rc_registration_keepalive cfg)"

definition default_config ::
  "'u url_api \<Rightarrow> (string \<Rightarrow> bytes option) \<Rightarrow> string \<Rightarrow> string option \<Rightarrow> string option \<Rightarrow>
   (string \<Rightarrow> string option) \<Rightarrow> 'u rendezvous_config option" where
  "default_config ua b64 version build_pem build_pem_b64 env =
     (case (case rendezvous_endpoints_from_env ua env of
              Some us \<Rightarrow> Some us
            | None \<Rightarrow> map_option (\<lambda>u. [u]) (ua_parse ua (default_rendezvous_endpoint version))) of
        None \<Rightarrow> None
      | Some endpoints \<Rightarrow>
          let ttl = (case env_duration_secs env ''PEERLINE_RENDEZVOUS_TTL_SECS'' of
                       Some d \<Rightarrow> d | None \<Rightarrow> default_rendezvous_ttl);
              keepalive = normalize_registration_keepalive ttl
                (case env_duration_secs env ''PEERLINE_RENDEZVOUS_KEEPALIVE_SECS'' of
                   Some d \<Rightarrow> d | None \<Rightarrow> default_rendezvous_keepalive)
          in Some \<lparr>rc_endpoints = endpoints, rc_auth_token = auth_token_from_env env,
               rc_client_identity = client_identity_from_env b64 build_pem build_pem_b64 env,
               rc_request_timeout =
                 (case env_duration_ms env ''PEERLINE_RENDEZVOUS_TIMEOUT_MS'' of
                    Some d \<Rightarrow> d | None \<Rightarrow> default_rendezvous_timeout),
               rc_registration_ttl = ttl, rc_registration_keepalive = keepalive\<rparr>)"

section \<open>Requests\<close>

datatype client_error =
    Client_IdentityRead | Client_IdentityPem | Client_Build | Client_Url | Client_Json

record http_client =
  hc_user_agent :: string
  hc_timeout :: nat
  hc_identity :: "bytes option"

record 'u outgoing =
  og_method :: string
  og_url :: 'u
  og_headers :: "(string \<times> string) list"
  og_body :: bytes

record client_reply =
  cr_status :: nat
  cr_body :: bytes

text \<open>
  The surroundings of the client: \<open>ce_send\<close> is one request and its outcome, \<open>ce_now\<close> the wall
  clock in milliseconds and \<open>ce_instant\<close> the monotonic one.
\<close>

record ('u, 'w) client_env =
  ce_url :: "'u url_api"
  ce_mac :: mac_suite
  ce_version :: string
  ce_blake3 :: "bytes \<Rightarrow> bytes"
  ce_argon :: "bytes \<Rightarrow> bytes \<Rightarrow> bytes"
  ce_read_file :: "string \<Rightarrow> bytes option"
  ce_pem_ok :: "bytes \<Rightarrow> bool"
  ce_builds :: "http_client \<Rightarrow> bool"
  ce_now :: "'w \<Rightarrow> int"
  ce_instant :: "'w \<Rightarrow> nat"
  ce_send :: "http_client \<Rightarrow> 'u outgoing \<Rightarrow> 'w \<Rightarrow> 'w \<times> (unit + client_reply)"
  ce_register_json :: "register_request \<Rightarrow> bytes option"
  ce_unregister_from_json :: "bytes \<Rightarrow> unregister_response option"
  ce_discover_from_json :: "bytes \<Rightarrow> discover_response option"
  ce_next_tick :: "nat \<Rightarrow> nat \<Rightarrow> nat \<Rightarrow> nat"

definition is_success :: "client_reply \<Rightarrow> bool" where
  "is_success r \<longleftrightarrow> 200 \<le> cr_status r \<and> cr_status r < 300"

definition rendezvous_namespace ::
  "(bytes \<Rightarrow> bytes) \<Rightarrow> (bytes \<Rightarrow> bytes \<Rightarrow> bytes) \<Rightarrow> human_name \<Rightarrow> human_code \<Rightarrow> string" where
  "rendezvous_namespace blake3 argon name hcode =
     lookup_key_hex (nc_lookup_key blake3 argon \<lparr>nc_name = name, nc_code = hcode\<rparr>)"

definition identity_load :: "('u, 'w) client_env \<Rightarrow> client_identity \<Rightarrow> client_error + bytes" where
  "identity_load ce i =
     and_then (case i of PemBundle bs \<Rightarrow> Inr bs | PemPath p \<Rightarrow> ok_or (ce_read_file ce p) Client_IdentityRead)
       (\<lambda>pem. if ce_pem_ok ce pem then Inr pem else Inl Client_IdentityPem)"

definition client_build :: "('u, 'w) client_env \<Rightarrow> 'u rendezvous_config \<Rightarrow> client_error + http_client" where
  "client_build ce cfg =
     and_then (case rc_client_identity cfg of
                 None \<Rightarrow> Inr None
               | Some i \<Rightarrow> and_then (identity_load ce i) (\<lambda>pem. Inr (Some pem)))
       (\<lambda>identity.
          let c = \<lparr>hc_user_agent = ''peerline/'' @ ce_version ce, hc_timeout = rc_request_timeout cfg,
                   hc_identity = identity\<rparr>
          in if ce_builds ce c then Inr c else Inl Client_Build)"

definition namespace_url :: "'u url_api \<Rightarrow> 'u \<Rightarrow> string \<Rightarrow> client_error + 'u" where
  "namespace_url ua base_url ns =
     ok_or (ua_join ua base_url (''/v1/namespaces/'' @ ns @ ''/registrations'')) Client_Url"

definition url_request_path :: "'u url_api \<Rightarrow> 'u \<Rightarrow> string" where
  "url_request_path ua u = request_path_and_query (ua_path ua u) (ua_query ua u)"

definition signed_request ::
  "('u, 'w) client_env \<Rightarrow> 'u rendezvous_config \<Rightarrow> int \<Rightarrow> string \<Rightarrow> 'u \<Rightarrow> bytes \<Rightarrow> 'u outgoing" where
  "signed_request ce cfg now meth u body =
     (let typed = (if meth = ''POST'' then [(''content-type'', ''application/json''), (''accept'', ''application/json'')]
                   else if meth = ''GET'' then [(''accept'', ''application/json'')] else []);
          auth = (case rc_auth_token cfg of
                    None \<Rightarrow> []
                  | Some token \<Rightarrow>
                      [(header_timestamp, int_str now),
                       (header_signature,
                        sign_peerline_request (ce_mac ce) token now meth (url_request_path (ce_url ce) u) body)])
      in \<lparr>og_method = meth, og_url = u,
          og_headers = typed @ [(header_version, ce_version ce)] @ auth,
          og_body = (if meth = ''POST'' then body else [])\<rparr>)"

section \<open>Publishing, removing, discovering\<close>

fun publish_loop ::
  "('u, 'w) client_env \<Rightarrow> 'u rendezvous_config \<Rightarrow> http_client \<Rightarrow> string \<Rightarrow> bytes \<Rightarrow> 'u list \<Rightarrow> nat \<Rightarrow> 'w \<Rightarrow>
   'w \<times> (client_error + nat)" where
  "publish_loop ce cfg c ns body [] published w = (w, Inr published)"
| "publish_loop ce cfg c ns body (e # es) published w =
     (case namespace_url (ce_url ce) e ns of
        Inl err \<Rightarrow> (w, Inl err)
      | Inr u \<Rightarrow>
          (case ce_send ce c (signed_request ce cfg (ce_now ce w) ''POST'' u body) w of
             (w', Inr r) \<Rightarrow>
               publish_loop ce cfg c ns body es (if is_success r then published + 1 else published) w'
           | (w', Inl _) \<Rightarrow> publish_loop ce cfg c ns body es published w'))"

definition ttl_request_seconds :: "'u rendezvous_config \<Rightarrow> u32" where
  "ttl_request_seconds cfg = of_nat (clamp 1 (2 ^ 32 - 1) (rc_registration_ttl cfg div 1000))"

definition publish_peer_descriptor ::
  "('u, 'w) client_env \<Rightarrow> human_name \<Rightarrow> human_code \<Rightarrow> peer_descriptor \<Rightarrow> 'u rendezvous_config \<Rightarrow> 'w \<Rightarrow>
   'w \<times> (client_error + unit)" where
  "publish_peer_descriptor ce name hcode d cfg w =
     (let endpoints = usable_endpoints (ce_url ce) cfg in
      if endpoints = [] then (w, Inr ())
      else
        let ns = rendezvous_namespace (ce_blake3 ce) (ce_argon ce) name hcode in
        case ok_or (ce_register_json ce \<lparr>rq_ttl_seconds = ttl_request_seconds cfg, rq_descriptor = d\<rparr>) Client_Json of
          Inl e \<Rightarrow> (w, Inl e)
        | Inr body \<Rightarrow>
            (case client_build ce cfg of
               Inl e \<Rightarrow> (w, Inl e)
             | Inr c \<Rightarrow>
                 (case publish_loop ce cfg c ns body endpoints 0 w of
                    (w', Inl e) \<Rightarrow> (w', Inl e)
                  | (w', Inr published) \<Rightarrow> (w', Inr ()))))"

fun unpublish_loop ::
  "('u, 'w) client_env \<Rightarrow> 'u rendezvous_config \<Rightarrow> http_client \<Rightarrow> string \<Rightarrow> string \<Rightarrow> 'u list \<Rightarrow> nat \<times> u32 \<Rightarrow> 'w \<Rightarrow>
   'w \<times> (client_error + nat \<times> u32)" where
  "unpublish_loop ce cfg c ns peer [] (accepted, removed) w = (w, Inr (accepted, removed))"
| "unpublish_loop ce cfg c ns peer (e # es) (accepted, removed) w =
     (case namespace_url (ce_url ce) e ns of
        Inl err \<Rightarrow> (w, Inl err)
      | Inr base_url \<Rightarrow>
          let u = ua_append_pair (ce_url ce) ''peer_id'' peer base_url in
          (case ce_send ce c (signed_request ce cfg (ce_now ce w) ''DELETE'' u []) w of
             (w', Inr r) \<Rightarrow>
               if is_success r then
                 unpublish_loop ce cfg c ns peer es (accepted + 1,
                   case ce_unregister_from_json ce (cr_body r) of
                     Some p \<Rightarrow> saturating_add removed (un_removed p) | None \<Rightarrow> removed) w'
               else unpublish_loop ce cfg c ns peer es (accepted, removed) w'
           | (w', Inl _) \<Rightarrow> unpublish_loop ce cfg c ns peer es (accepted, removed) w'))"

definition unpublish_peer_descriptor ::
  "('u, 'w) client_env \<Rightarrow> human_name \<Rightarrow> human_code \<Rightarrow> string \<Rightarrow> 'u rendezvous_config \<Rightarrow> 'w \<Rightarrow>
   'w \<times> (client_error + unit)" where
  "unpublish_peer_descriptor ce name hcode peer cfg w =
     (let endpoints = usable_endpoints (ce_url ce) cfg in
      if endpoints = [] then (w, Inr ())
      else
        let ns = rendezvous_namespace (ce_blake3 ce) (ce_argon ce) name hcode in
        case client_build ce cfg of
          Inl e \<Rightarrow> (w, Inl e)
        | Inr c \<Rightarrow>
            (case unpublish_loop ce cfg c ns peer endpoints (0, 0) w of
               (w', Inl e) \<Rightarrow> (w', Inl e)
             | (w', Inr _) \<Rightarrow> (w', Inr ())))"

fun discover_loop ::
  "('u, 'w) client_env \<Rightarrow> 'u rendezvous_config \<Rightarrow> http_client \<Rightarrow> string \<Rightarrow> 'u list \<Rightarrow> peer_descriptor list \<Rightarrow> 'w \<Rightarrow>
   'w \<times> (client_error + peer_descriptor list)" where
  "discover_loop ce cfg c ns [] found w = (w, Inr found)"
| "discover_loop ce cfg c ns (e # es) found w =
     (case namespace_url (ce_url ce) e ns of
        Inl err \<Rightarrow> (w, Inl err)
      | Inr u \<Rightarrow>
          (case ce_send ce c (signed_request ce cfg (ce_now ce w) ''GET'' u []) w of
             (w', Inl _) \<Rightarrow> discover_loop ce cfg c ns es found w'
           | (w', Inr r) \<Rightarrow>
               if \<not> is_success r then discover_loop ce cfg c ns es found w'
               else (case ce_discover_from_json ce (cr_body r) of
                       None \<Rightarrow> discover_loop ce cfg c ns es found w'
                     | Some p \<Rightarrow>
                         discover_loop ce cfg c ns es (found @ map rr_descriptor (dr_records p)) w')))"

definition descriptor_key :: "peer_descriptor \<Rightarrow> u64 \<times> nat \<times> string" where
  "descriptor_key d = (pd_published_unix_ms d, length (pd_libp2p_endpoints d), pd_peer_id d)"

definition newest_first :: "peer_descriptor list \<Rightarrow> peer_descriptor list" where
  "newest_first ds =
     dedup_by (\<lambda>l r. pd_peer_id l = pd_peer_id r) (rev (sort_key descriptor_key ds))"

definition discover_peer_descriptors ::
  "('u, 'w) client_env \<Rightarrow> human_name \<Rightarrow> human_code \<Rightarrow> 'u rendezvous_config \<Rightarrow> 'w \<Rightarrow>
   'w \<times> (client_error + peer_descriptor list)" where
  "discover_peer_descriptors ce name hcode cfg w =
     (let endpoints = usable_endpoints (ce_url ce) cfg in
      if endpoints = [] then (w, Inr [])
      else
        let ns = rendezvous_namespace (ce_blake3 ce) (ce_argon ce) name hcode in
        case client_build ce cfg of
          Inl e \<Rightarrow> (w, Inl e)
        | Inr c \<Rightarrow>
            (case discover_loop ce cfg c ns endpoints [] w of
               (w', Inl e) \<Rightarrow> (w', Inl e)
             | (w', Inr ds) \<Rightarrow> (w', Inr (newest_first ds))))"

section \<open>The registration guard\<close>

text \<open>
  The guard shares a watch channel with its task: the descriptor in it and whether the task has
  seen it. \<open>gd_sender\<close> says that the guard still holds the sending half. The task is started,
  publishes once, and then waits for the interval or a change of the channel.
\<close>

datatype keepalive_task = Task_Started | Task_Waiting (deadline: nat)

record 'u guard =
  gd_name :: human_name
  gd_code :: human_code
  gd_peer_id :: string
  gd_config :: "'u rendezvous_config"
  gd_active :: bool
  gd_sender :: bool
  gd_channel :: peer_descriptor
  gd_seen :: bool
  gd_task :: "keepalive_task option"

definition guard_new ::
  "'u url_api \<Rightarrow> human_name \<Rightarrow> human_code \<Rightarrow> peer_descriptor \<Rightarrow> 'u rendezvous_config \<Rightarrow> 'u guard" where
  "guard_new ua name hcode d cfg =
     \<lparr>gd_name = name, gd_code = hcode, gd_peer_id = pd_peer_id d, gd_config = cfg, gd_active = True,
      gd_sender = True, gd_channel = d, gd_seen = True,
      gd_task = (if usable_endpoints ua cfg \<noteq> [] then Some Task_Started else None)\<rparr>"

definition update_descriptor :: "peer_descriptor \<Rightarrow> 'u guard \<Rightarrow> 'u guard" where
  "update_descriptor d g =
     (if pd_peer_id d \<noteq> gd_peer_id g then g
      else if gd_sender g \<and> gd_task g \<noteq> None then g\<lparr>gd_channel := d, gd_seen := False\<rparr>
      else g)"

definition abort_keepalive :: "'u guard \<Rightarrow> 'u guard" where
  "abort_keepalive g = g\<lparr>gd_sender := False, gd_task := None\<rparr>"

definition guard_publish :: "('u, 'w) client_env \<Rightarrow> 'u guard \<Rightarrow> 'w \<Rightarrow> 'w" where
  "guard_publish ce g w =
     fst (publish_peer_descriptor ce (gd_name g) (gd_code g) (gd_channel g) (gd_config g) w)"

definition guard_unpublish :: "('u, 'w) client_env \<Rightarrow> 'u guard \<Rightarrow> 'w \<Rightarrow> 'w" where
  "guard_unpublish ce g w =
     fst (unpublish_peer_descriptor ce (gd_name g) (gd_code g) (gd_peer_id g) (gd_config g) w)"

definition guard_unregister :: "('u, 'w) client_env \<Rightarrow> 'u guard \<Rightarrow> 'w \<Rightarrow> 'u guard \<times> 'w" where
  "guard_unregister ce g w =
     (if \<not> gd_active g then (g, w)
      else (abort_keepalive (g\<lparr>gd_active := False\<rparr>), guard_unpublish ce g w))"

text \<open>Dropping a guard removes the registration in the background, if a runtime is there to do it.\<close>

definition guard_drop :: "('u, 'w) client_env \<Rightarrow> bool \<Rightarrow> 'u guard \<Rightarrow> 'w \<Rightarrow> 'w" where
  "guard_drop ce runtime g w =
     (if \<not> gd_active g then w else if runtime then guard_unpublish ce g w else w)"

definition keepalive_start :: "('u, 'w) client_env \<Rightarrow> 'u guard \<Rightarrow> 'w \<Rightarrow> 'u guard \<times> 'w" where
  "keepalive_start ce g w =
     (let w' = guard_publish ce g w in
      (g\<lparr>gd_task := Some (Task_Waiting (ce_instant ce w' + registration_keepalive_interval (gd_config g)))\<rparr>, w'))"

definition keepalive_tick :: "('u, 'w) client_env \<Rightarrow> nat \<Rightarrow> 'u guard \<Rightarrow> 'w \<Rightarrow> 'u guard \<times> 'w" where
  "keepalive_tick ce due g w =
     (g\<lparr>gd_task := Some (Task_Waiting (ce_next_tick ce due (ce_instant ce w)
          (registration_keepalive_interval (gd_config g))))\<rparr>,
      guard_publish ce g w)"

definition keepalive_changed :: "('u, 'w) client_env \<Rightarrow> 'u guard \<Rightarrow> 'w \<Rightarrow> 'u guard \<times> 'w" where
  "keepalive_changed ce g w =
     (if gd_sender g then (g\<lparr>gd_seen := True\<rparr>, guard_publish ce g w)
      else (g\<lparr>gd_task := None\<rparr>, w))"

text \<open>
  One step of the guard and its task; \<open>moves\<close> is what the rest of the world does meanwhile. The
  last argument lists the descriptors the task published in the step.
\<close>

inductive guard_step ::
  "('u, 'w) client_env \<Rightarrow> ('w \<Rightarrow> 'w \<Rightarrow> bool) \<Rightarrow> 'u guard \<times> 'w \<Rightarrow> peer_descriptor list \<Rightarrow> 'u guard \<times> 'w \<Rightarrow> bool"
  for ce moves where
  Start: "gd_task g = Some Task_Started \<Longrightarrow> guard_step ce moves (g, w) [gd_channel g] (keepalive_start ce g w)"
| Tick: "gd_task g = Some (Task_Waiting due) \<Longrightarrow> due \<le> ce_instant ce w \<Longrightarrow>
    guard_step ce moves (g, w) [gd_channel g] (keepalive_tick ce due g w)"
| Changed: "gd_task g = Some (Task_Waiting due) \<Longrightarrow> \<not> gd_seen g \<or> \<not> gd_sender g \<Longrightarrow>
    guard_step ce moves (g, w) (if gd_sender g then [gd_channel g] else []) (keepalive_changed ce g w)"
| Update: "guard_step ce moves (g, w) [] (update_descriptor d g, w)"
| Unregister: "guard_step ce moves (g, w) [] (guard_unregister ce g w)"
| World: "moves w w' \<Longrightarrow> guard_step ce moves (g, w) [] (g, w')"

inductive guard_run ::
  "('u, 'w) client_env \<Rightarrow> ('w \<Rightarrow> 'w \<Rightarrow> bool) \<Rightarrow> 'u guard \<times> 'w \<Rightarrow> peer_descriptor list \<Rightarrow> 'u guard \<times> 'w \<Rightarrow> bool"
  for ce moves where
  Done: "guard_run ce moves s [] s"
| Step: "guard_run ce moves s ds s' \<Longrightarrow> guard_step ce moves s' es s'' \<Longrightarrow> guard_run ce moves s (ds @ es) s''"

end
