(* ===== verification/Rendezvous_Service.thy ===== *)
theory Rendezvous_Service
  imports Rendezvous_Model Std_Parse "HOL-Library.AList" "HOL-Library.Code_Target_Nat"
begin

text \<open>
  The rendezvous service (\<open>services/peerline-rendezvous/src/lib.rs\<close>): the edge handler and the
  durable object behind it. A shard is its two SQL tables and its configuration; the SQL
  statements are written out over lists of rows, and \<open>sh_last_cookie\<close> is the counter of
  \<open>AUTOINCREMENT\<close>, which never gives a cookie twice. The clock stands still while one request
  is handled, as it does in the worker runtime between I/O. What the worker crate hands over
  (headers, URL, parsed query, TLS state) and the JSON codec are fields and parameters; logging
  is left out.
\<close>

section \<open>Requests and responses\<close>

datatype http_method = Get | Post | Delete | OtherMethod string

fun method_str :: "http_method \<Rightarrow> string" where
  "method_str Get = ''GET''"
| "method_str Post = ''POST''"
| "method_str Delete = ''DELETE''"
| "method_str (OtherMethod s) = s"

datatype worker_error = WorkerError

record tls_client_auth =
  ta_presented :: string
  ta_verified :: string
  ta_fingerprint :: string

record http_request =
  hr_method :: http_method
  hr_path :: string
  hr_url :: "(string \<times> string option) option"
  hr_pairs :: "(string \<times> string) list"
  hr_discover :: "discover_request option"
  hr_header :: "string \<Rightarrow> worker_error + string option"
  hr_body :: bytes
  hr_tls :: "tls_client_auth option"

datatype response_body =
    Body_Text string
  | Body_Error string
  | Body_Register register_response
  | Body_Discover discover_response
  | Body_Unregister unregister_response

record http_response =
  hp_status :: nat
  hp_body :: response_body
  hp_headers :: "(string \<times> string) list"

record rejection =
  rj_message :: string
  rj_status :: nat

record service_env =
  se_mac :: mac_suite
  se_register_from_json :: "bytes \<Rightarrow> register_request option"
  se_descriptor_to_json :: "peer_descriptor \<Rightarrow> string option"
  se_descriptor_from_json :: "string \<Rightarrow> peer_descriptor option"

section \<open>Limits\<close>

definition legacy_descriptor_protocol_version :: u16 where
  "legacy_descriptor_protocol_version = 2"

definition default_discover_limit :: u32 where "default_discover_limit = 32"
definition max_discover_limit :: u32 where "max_discover_limit = 128"
definition max_request_bytes :: nat where "max_request_bytes = 32 * 1024"
definition max_direct_endpoints :: nat where "max_direct_endpoints = 8"
definition max_libp2p_endpoints :: nat where "max_libp2p_endpoints = 24"
definition max_public_endpoints :: nat where "max_public_endpoints = 8"
definition max_tor_endpoints :: nat where "max_tor_endpoints = 8"
definition max_i2p_endpoints :: nat where "max_i2p_endpoints = 8"
definition max_endpoint_len :: nat where "max_endpoint_len = 256"
definition max_endpoint_provider_len :: nat where "max_endpoint_provider_len = 64"
definition rate_window_ms :: int where "rate_window_ms = 60000"
definition register_rate_limit :: u32 where "register_rate_limit = 30"
definition unregister_rate_limit :: u32 where "unregister_rate_limit = 60"
definition discover_rate_limit :: u32 where "discover_rate_limit = 120"
definition signature_skew_ms :: int where "signature_skew_ms = 5 * 60 * 1000"
definition max_request_id_len :: nat where "max_request_id_len = 128"

section \<open>Validation\<close>

definition is_valid_peer_id :: "string \<Rightarrow> bool" where
  "is_valid_peer_id p \<longleftrightarrow> p \<noteq> [] \<and> length p \<le> 128 \<and> (\<forall>c \<in> set p. is_alnum c)"

definition is_valid_endpoint :: "string \<Rightarrow> bool" where
  "is_valid_endpoint e \<longleftrightarrow> e \<noteq> [] \<and> length e \<le> max_endpoint_len \<and> (\<forall>c \<in> set e. is_graphic c)"

definition is_valid_endpoint_provider :: "string \<Rightarrow> bool" where
  "is_valid_endpoint_provider p \<longleftrightarrow>
     p \<noteq> [] \<and> length p \<le> max_endpoint_provider_len \<and> (\<forall>c \<in> set p. is_graphic c)"

definition is_valid_public_tunnel_endpoint :: "public_tunnel_endpoint \<Rightarrow> bool" where
  "is_valid_public_tunnel_endpoint e \<longleftrightarrow>
     is_valid_endpoint_provider (pt_provider e) \<and> is_valid_endpoint (pt_url e)"

definition is_valid_tor_onion_endpoint :: "tor_onion_endpoint \<Rightarrow> bool" where
  "is_valid_tor_onion_endpoint e \<longleftrightarrow> is_valid_endpoint (to_url e)"

definition url_host :: "string \<Rightarrow> string" where
  "url_host rest =
     (let authority = hd (split_on (\<lambda>c. c = CHR ''/'' \<or> c = CHR ''?'' \<or> c = CHR ''#'') rest);
          after_user = last (split_on (\<lambda>c. c = CHR ''@'') authority)
      in hd (split_on (\<lambda>c. c = CHR '':'') after_user))"

definition is_b32_label :: "string \<Rightarrow> bool" where
  "is_b32_label l \<longleftrightarrow> length l = 52 \<and> (\<forall>c \<in> set l. is_lower c \<or> 50 \<le> code c \<and> code c \<le> 55)"

definition is_valid_i2p_b32_url :: "string \<Rightarrow> bool" where
  "is_valid_i2p_b32_url raw =
     (case (case strip_prefix ''ws://'' raw of Some r \<Rightarrow> Some r | None \<Rightarrow> strip_prefix ''http://'' raw) of
        None \<Rightarrow> False
      | Some rest \<Rightarrow>
          (case strip_suffix ''.b32.i2p'' (to_lower (url_host rest)) of
             None \<Rightarrow> False
           | Some label \<Rightarrow> is_b32_label label))"

definition is_valid_i2p_endpoint :: "i2p_endpoint \<Rightarrow> bool" where
  "is_valid_i2p_endpoint e \<longleftrightarrow> is_valid_endpoint (ip_url e) \<and> is_valid_i2p_b32_url (ip_url e)"

definition reject :: "string \<Rightarrow> nat \<Rightarrow> rejection + unit" where
  "reject m s = Inl \<lparr>rj_message = m, rj_status = s\<rparr>"

definition validate_descriptor :: "peer_descriptor \<Rightarrow> rejection + unit" where
  "validate_descriptor d =
     (if pd_protocol_version d \<noteq> descriptor_protocol_version \<and>
         pd_protocol_version d \<noteq> legacy_descriptor_protocol_version
        then reject ''unsupported descriptor protocol version'' 400
      else if \<not> is_valid_peer_id (pd_peer_id d) then reject ''invalid peer id'' 400
      else if pd_direct_endpoints d = [] \<and> pd_libp2p_endpoints d = [] \<and> pd_public_endpoints d = [] \<and>
              pd_tor_endpoints d = [] \<and> pd_i2p_endpoints d = []
        then reject ''no advertised endpoints'' 400
      else if max_direct_endpoints < length (pd_direct_endpoints d) \<or>
              max_libp2p_endpoints < length (pd_libp2p_endpoints d) \<or>
              max_public_endpoints < length (pd_public_endpoints d) \<or>
              max_tor_endpoints < length (pd_tor_endpoints d) \<or>
              max_i2p_endpoints < length (pd_i2p_endpoints d)
        then reject ''too many advertised endpoints'' 400
      else if \<exists>e \<in> set (pd_direct_endpoints d @ pd_libp2p_endpoints d). \<not> is_valid_endpoint e
        then reject ''invalid advertised endpoint'' 400
      else if (\<exists>e \<in> set (pd_public_endpoints d). \<not> is_valid_public_tunnel_endpoint e) \<or>
              (\<exists>e \<in> set (pd_tor_endpoints d). \<not> is_valid_tor_onion_endpoint e) \<or>
              (\<exists>e \<in> set (pd_i2p_endpoints d). \<not> is_valid_i2p_endpoint e)
        then reject ''invalid advertised endpoint'' 400
      else Inr ())"

definition namespace_from_path :: "string \<Rightarrow> string option" where
  "namespace_from_path path =
     (case split_on (\<lambda>c. c = CHR ''/'') (trim_matches (CHR ''/'') path) of
        [a, b, ns, r] \<Rightarrow>
          if a = ''v1'' \<and> b = ''namespaces'' \<and> r = ''registrations'' then Some ns else None
      | _ \<Rightarrow> None)"

definition is_valid_namespace :: "string \<Rightarrow> bool" where
  "is_valid_namespace ns \<longleftrightarrow> length ns = 64 \<and> (\<forall>c \<in> set ns. is_digit c \<or> 97 \<le> code c \<and> code c \<le> 102)"

definition is_json_content_type :: "string \<Rightarrow> bool" where
  "is_json_content_type ct =
     eq_ignore_ascii_case (trim (case split_once (CHR '';'') ct of None \<Rightarrow> ct | Some (mime, _) \<Rightarrow> mime))
       ''application/json''"

definition is_json_request :: "http_request \<Rightarrow> worker_error + bool" where
  "is_json_request req =
     and_then (hr_header req ''content-type'')
       (\<lambda>v. Inr (case v of None \<Rightarrow> False | Some ct \<Rightarrow> is_json_content_type ct))"

definition client_ip :: "http_request \<Rightarrow> worker_error + string" where
  "client_ip req =
     and_then (hr_header req ''cf-connecting-ip'')
       (\<lambda>v. Inr (case v of
          None \<Rightarrow> ''unknown''
        | Some raw \<Rightarrow>
            let ip = trim (hd (split_on (\<lambda>c. c = CHR '','') raw)) in if ip = [] then ''unknown'' else ip))"

definition unregister_peer_id :: "http_request \<Rightarrow> string option" where
  "unregister_peer_id req =
     (if hr_url req = None then None
      else map_option snd (find (\<lambda>kv. fst kv = ''peer_id'') (hr_pairs req)))"

definition sqlite_cookie :: "u64 \<Rightarrow> int option" where
  "sqlite_cookie c = (if uint c < 2 ^ 63 then Some (uint c) else None)"

definition sanitized_header_value :: "string \<Rightarrow> string option" where
  "sanitized_header_value raw =
     (let v = take max_request_id_len (filter is_graphic (trim raw)) in if v = [] then None else Some v)"

definition normalize_cert_fingerprint :: "string \<Rightarrow> string" where
  "normalize_cert_fingerprint raw = map lower_char (filter is_hexdigit raw)"

definition fingerprints_from_raw :: "string \<Rightarrow> string list" where
  "fingerprints_from_raw raw =
     filter (\<lambda>f. length f = 64) (map normalize_cert_fingerprint (split_ws (\<lambda>c. c = CHR '','') raw))"

section \<open>A shard\<close>

record registration =
  reg_cookie :: int
  reg_peer_id :: string
  reg_expires :: int
  reg_json :: string

record shard =
  sh_rows :: "registration list"
  sh_last_cookie :: int
  sh_rates :: "(string \<times> int \<times> int) list"
  sh_schema_error :: "string option"
  sh_auth_token :: "string option"
  sh_require_mtls :: bool
  sh_fingerprints :: "string list option"
  sh_max_ttl_secs :: u32

text \<open>The settings of a shard, from the worker's environment.\<close>

definition env_positive_u32 :: "(string \<Rightarrow> string option) \<Rightarrow> string \<Rightarrow> u32 \<Rightarrow> u32" where
  "env_positive_u32 env name fallback =
     (case env name of
        None \<Rightarrow> fallback
      | Some raw \<Rightarrow>
          (case parse_unsigned (2 ^ 32) (trim raw) of
             None \<Rightarrow> fallback
           | Some n \<Rightarrow> if 0 < n then of_nat n else fallback))"

definition env_bool :: "(string \<Rightarrow> string option) \<Rightarrow> string \<Rightarrow> bool option" where
  "env_bool env name =
     (case env name of
        None \<Rightarrow> None
      | Some raw \<Rightarrow>
          let v = to_lower (trim raw) in
          if v \<in> {''1'', ''true'', ''yes'', ''on''} then Some True
          else if v \<in> {''0'', ''false'', ''no'', ''off''} then Some False
          else None)"

definition env_fingerprint_set :: "(string \<Rightarrow> string option) \<Rightarrow> string \<Rightarrow> string list option" where
  "env_fingerprint_set env name = map_option fingerprints_from_raw (env name)"

definition shard_new :: "string option \<Rightarrow> (string \<Rightarrow> string option) \<Rightarrow> shard" where
  "shard_new schema_error env =
     (let allowed = env_fingerprint_set env ''PEERLINE_RENDEZVOUS_ALLOWED_CLIENT_CERT_FINGERPRINTS'' in
      \<lparr>sh_rows = [], sh_last_cookie = 0, sh_rates = [], sh_schema_error = schema_error,
       sh_auth_token = env ''PEERLINE_RENDEZVOUS_TOKEN'',
       sh_require_mtls =
         (case env_bool env ''PEERLINE_RENDEZVOUS_REQUIRE_MTLS'' of Some b \<Rightarrow> b | None \<Rightarrow> allowed \<noteq> None),
       sh_fingerprints = allowed,
       sh_max_ttl_secs = env_positive_u32 env ''PEERLINE_RENDEZVOUS_MAX_TTL_SECS'' default_max_ttl_secs\<rparr>)"

section \<open>Authentication\<close>

definition verify_peerline_version :: "http_request \<Rightarrow> rejection + unit" where
  "verify_peerline_version req =
     (case hr_header req header_version of
        Inl _ \<Rightarrow> reject ''invalid version header'' 400
      | Inr None \<Rightarrow> reject ''missing peerline version'' 401
      | Inr (Some v) \<Rightarrow> if trim v = [] then reject ''missing peerline version'' 401 else Inr ())"

definition verify_tls_client_auth :: "shard \<Rightarrow> tls_client_auth \<Rightarrow> rejection + unit" where
  "verify_tls_client_auth sh a =
     (if ta_presented a \<noteq> ''1'' then reject ''client certificate required'' 401
      else if \<not> eq_ignore_ascii_case (ta_verified a) ''SUCCESS''
        then reject ''invalid client certificate'' 401
      else case sh_fingerprints sh of
        None \<Rightarrow> Inr ()
      | Some allowed \<Rightarrow>
          if normalize_cert_fingerprint (ta_fingerprint a) \<in> set allowed then Inr ()
          else reject ''unauthorized client certificate'' 403)"

definition verify_hmac_request ::
  "mac_suite \<Rightarrow> int \<Rightarrow> shard \<Rightarrow> http_request \<Rightarrow> bytes \<Rightarrow> rejection + unit" where
  "verify_hmac_request mac now sh req body =
     (case sh_auth_token sh of
        None \<Rightarrow> reject ''rendezvous auth secret is not configured'' 500
      | Some token \<Rightarrow>
          (case hr_header req header_timestamp of
             Inl _ \<Rightarrow> reject ''invalid timestamp header'' 400
           | Inr raw \<Rightarrow>
               (case Option.bind raw parse_i64 of
                  None \<Rightarrow> reject ''missing request timestamp'' 401
                | Some timestamp \<Rightarrow>
                    if signature_skew_ms < \<bar>now - timestamp\<bar> then reject ''stale request timestamp'' 401
                    else (case hr_header req header_signature of
                       Inl _ \<Rightarrow> reject ''invalid signature header'' 400
                     | Inr None \<Rightarrow> reject ''missing request signature'' 401
                     | Inr (Some signature) \<Rightarrow>
                         (case hr_url req of
                            None \<Rightarrow> reject ''invalid request URL'' 400
                          | Some (path, query) \<Rightarrow>
                              if verify_peerline_request_signature mac token timestamp
                                   (method_str (hr_method req)) (request_path_and_query path query)
                                   body signature
                              then Inr () else reject ''invalid request signature'' 401)))))"

definition verify_request ::
  "mac_suite \<Rightarrow> int \<Rightarrow> shard \<Rightarrow> http_request \<Rightarrow> bytes \<Rightarrow> rejection + unit" where
  "verify_request mac now sh req body =
     and_then (verify_peerline_version req) (\<lambda>_.
       case hr_tls req of
         Some a \<Rightarrow>
           if ta_presented a = ''1'' then verify_tls_client_auth sh a
           else if sh_require_mtls sh then reject ''client certificate required'' 401
           else verify_hmac_request mac now sh req body
       | None \<Rightarrow>
           if sh_require_mtls sh then reject ''client certificate required'' 401
           else verify_hmac_request mac now sh req body)"

section \<open>The tables\<close>

text \<open>One row per client, method and namespace, counting the requests of the current minute.\<close>

definition bump_rate ::
  "string \<Rightarrow> int \<Rightarrow> int \<Rightarrow> (string \<times> int \<times> int) list \<Rightarrow> (string \<times> int \<times> int) list \<times> int" where
  "bump_rate key window_start limit_plus_one rates =
     (case map_of rates key of
        None \<Rightarrow> (AList.update key (window_start, 1) rates, 1)
      | Some (w, n) \<Rightarrow>
          let w' = (if w \<noteq> window_start then window_start else w);
              n' = (if w \<noteq> window_start then 1 else if limit_plus_one < n + 1 then limit_plus_one else n + 1)
          in (AList.update key (w', n') rates, n'))"

definition enforce_rate_limit ::
  "int \<Rightarrow> string \<Rightarrow> http_request \<Rightarrow> u32 \<Rightarrow> shard \<Rightarrow> shard \<times> (worker_error + bool)" where
  "enforce_rate_limit now ns req limit sh =
     (case client_ip req of
        Inl e \<Rightarrow> (sh, Inl e)
      | Inr ip \<Rightarrow>
          let key = ns @ '':'' @ method_str (hr_method req) @ '':'' @ ip;
              window_start = now - now mod rate_window_ms;
              limit_plus_one = uint (saturating_add limit 1)
          in case bump_rate key window_start limit_plus_one (sh_rates sh) of
               (rates, n) \<Rightarrow> (sh\<lparr>sh_rates := rates\<rparr>, Inr (n \<le> uint limit)))"

definition shard_cleanup :: "int \<Rightarrow> shard \<Rightarrow> shard" where
  "shard_cleanup now sh =
     sh\<lparr>sh_rows := filter (\<lambda>r. \<not> reg_expires r \<le> now) (sh_rows sh),
        sh_rates := filter (\<lambda>(k, w, n). \<not> w < now - rate_window_ms * 2) (sh_rates sh)\<rparr>"

text \<open>The first cookie of a peer in cookie order, the two statements that refresh it, and the insert.\<close>

definition existing_cookie :: "string \<Rightarrow> registration list \<Rightarrow> int option" where
  "existing_cookie peer rows =
     (case sort_key reg_cookie (filter (\<lambda>r. reg_peer_id r = peer) rows) of
        [] \<Rightarrow> None | r # _ \<Rightarrow> Some (reg_cookie r))"

definition refresh_row :: "string \<Rightarrow> int \<Rightarrow> int \<Rightarrow> string \<Rightarrow> registration list \<Rightarrow> registration list" where
  "refresh_row peer cookie expires json rows =
     filter (\<lambda>r. \<not> (reg_peer_id r = peer \<and> reg_cookie r \<noteq> cookie))
       (map (\<lambda>r. if reg_cookie r = cookie then r\<lparr>reg_expires := expires, reg_json := json\<rparr> else r) rows)"

definition upsert_row :: "string \<Rightarrow> int \<Rightarrow> string \<Rightarrow> shard \<Rightarrow> shard \<times> int \<times> bool" where
  "upsert_row peer expires json sh =
     (case existing_cookie peer (sh_rows sh) of
        Some cookie \<Rightarrow> (sh\<lparr>sh_rows := refresh_row peer cookie expires json (sh_rows sh)\<rparr>, cookie, True)
      | None \<Rightarrow>
          let cookie = sh_last_cookie sh + 1;
              row = \<lparr>reg_cookie = cookie, reg_peer_id = peer, reg_expires = expires, reg_json = json\<rparr>
          in (sh\<lparr>sh_rows := sh_rows sh @ [row], sh_last_cookie := cookie\<rparr>, cookie, False))"

definition select_rows :: "int \<Rightarrow> int \<Rightarrow> nat \<Rightarrow> registration list \<Rightarrow> registration list" where
  "select_rows now after count_limit rows =
     take count_limit (sort_key reg_cookie (filter (\<lambda>r. now < reg_expires r \<and> after < reg_cookie r) rows))"

definition latest_cookie :: "int \<Rightarrow> registration list \<Rightarrow> int" where
  "latest_cookie now rows =
     (let cs = map reg_cookie (filter (\<lambda>r. now < reg_expires r) rows)
      in if cs = [] then 0 else Max (set cs))"

section \<open>Responses\<close>

record telemetry =
  tm_request_id :: string
  tm_started :: int

fun first_request_id :: "http_request \<Rightarrow> string list \<Rightarrow> int \<Rightarrow> worker_error + string" where
  "first_request_id req [] now = Inr (''peerline-'' @ int_str now)"
| "first_request_id req (h # hs) now =
     (case hr_header req h of
        Inl e \<Rightarrow> Inl e
      | Inr None \<Rightarrow> first_request_id req hs now
      | Inr (Some raw) \<Rightarrow>
          (case sanitized_header_value raw of
             Some v \<Rightarrow> Inr v
           | None \<Rightarrow> first_request_id req hs now))"

definition request_id :: "http_request \<Rightarrow> int \<Rightarrow> worker_error + string" where
  "request_id req now = first_request_id req [''x-request-id'', ''cf-ray'', ''traceparent''] now"

definition telemetry_from_request :: "http_request \<Rightarrow> int \<Rightarrow> worker_error + telemetry" where
  "telemetry_from_request req now =
     and_then (request_id req now) (\<lambda>i. Inr \<lparr>tm_request_id = i, tm_started = now\<rparr>)"

definition with_observability_headers :: "int \<Rightarrow> telemetry \<Rightarrow> http_response \<Rightarrow> http_response" where
  "with_observability_headers now tm rp =
     rp\<lparr>hp_headers := AList.update ''server-timing'' (''peerline;dur='' @ int_str (now - tm_started tm))
          (AList.update ''x-peerline-request-id'' (tm_request_id tm) (hp_headers rp))\<rparr>"

definition plain_response :: "nat \<Rightarrow> response_body \<Rightarrow> http_response" where
  "plain_response status body = \<lparr>hp_status = status, hp_body = body, hp_headers = []\<rparr>"

definition observed_error_response :: "int \<Rightarrow> telemetry \<Rightarrow> string \<Rightarrow> nat \<Rightarrow> http_response" where
  "observed_error_response now tm message status =
     with_observability_headers now tm (plain_response status (Body_Error message))"

definition observed_rejection_response :: "int \<Rightarrow> telemetry \<Rightarrow> rejection \<Rightarrow> http_response" where
  "observed_rejection_response now tm r = observed_error_response now tm (rj_message r) (rj_status r)"

section \<open>The handlers\<close>

type_synonym handled = "shard \<times> (worker_error + http_response)"

definition clamp_ttl :: "u32 \<Rightarrow> u32 \<Rightarrow> int" where
  "clamp_ttl max_ttl requested = uint (clamp 1 max_ttl requested)"

definition store_registration ::
  "service_env \<Rightarrow> int \<Rightarrow> register_request \<Rightarrow> shard \<Rightarrow> handled" where
  "store_registration env now request sh0 =
     (let expires = now + clamp_ttl (sh_max_ttl_secs sh0) (rq_ttl_seconds request) * 1000;
          sh = shard_cleanup now sh0;
          d = (rq_descriptor request)\<lparr>pd_protocol_version := descriptor_protocol_version,
                pd_published_unix_ms := of_int now\<rparr>
      in case se_descriptor_to_json env d of
           None \<Rightarrow> (sh, Inl WorkerError)
         | Some json \<Rightarrow>
             (case upsert_row (pd_peer_id d) expires json sh of
                (sh', cookie, was_refresh) \<Rightarrow>
                  (sh', Inr (plain_response (if was_refresh then 200 else 201)
                    (Body_Register \<lparr>rg_cookie = of_int cookie,
                       rg_record = \<lparr>rr_sequence = of_int cookie, rr_expires_unix_ms = of_int expires,
                                    rr_descriptor = d\<rparr>\<rparr>)))))"

definition shard_register :: "service_env \<Rightarrow> int \<Rightarrow> string \<Rightarrow> http_request \<Rightarrow> telemetry \<Rightarrow> shard \<Rightarrow> handled" where
  "shard_register env now ns req tm sh =
     (let fail = (\<lambda>m st. Inr (observed_error_response now tm m st)) in
      case is_json_request req of
        Inl e \<Rightarrow> (sh, Inl e)
      | Inr False \<Rightarrow> (sh, fail ''content type must be application/json'' 415)
      | Inr True \<Rightarrow>
          if max_request_bytes < length (hr_body req) then (sh, fail ''payload too large'' 413)
          else (case verify_request (se_mac env) now sh req (hr_body req) of
            Inl r \<Rightarrow> (sh, Inr (observed_rejection_response now tm r))
          | Inr _ \<Rightarrow>
              (case enforce_rate_limit now ns req register_rate_limit sh of
                 (sh1, Inl e) \<Rightarrow> (sh1, Inl e)
               | (sh1, Inr False) \<Rightarrow> (sh1, fail ''rate limit exceeded'' 429)
               | (sh1, Inr True) \<Rightarrow>
                   (case se_register_from_json env (hr_body req) of
                      None \<Rightarrow> (sh1, fail ''invalid registration payload'' 400)
                    | Some request \<Rightarrow>
                        (case validate_descriptor (rq_descriptor request) of
                           Inl r \<Rightarrow> (sh1, Inr (observed_rejection_response now tm r))
                         | Inr _ \<Rightarrow> store_registration env now request sh1)))))"

definition record_of_row :: "service_env \<Rightarrow> registration \<Rightarrow> rendezvous_record option" where
  "record_of_row env r =
     map_option (\<lambda>d. \<lparr>rr_sequence = of_int (reg_cookie r), rr_expires_unix_ms = of_int (reg_expires r),
                       rr_descriptor = d\<rparr>) (se_descriptor_from_json env (reg_json r))"

definition answer_discover :: "service_env \<Rightarrow> int \<Rightarrow> discover_request \<Rightarrow> int \<Rightarrow> shard \<Rightarrow> handled" where
  "answer_discover env now q after sh0 =
     (let row_limit = clamp 1 max_discover_limit
            (case dq_limit q of Some l \<Rightarrow> l | None \<Rightarrow> default_discover_limit);
          sh = shard_cleanup now sh0;
          rows = select_rows now after (unat row_limit) (sh_rows sh)
      in (sh, Inr (plain_response 200 (Body_Discover
            \<lparr>dr_cookie = of_int (latest_cookie now (sh_rows sh)),
             dr_records = List.map_filter (record_of_row env) rows\<rparr>))))"

definition shard_discover :: "service_env \<Rightarrow> int \<Rightarrow> string \<Rightarrow> http_request \<Rightarrow> telemetry \<Rightarrow> shard \<Rightarrow> handled" where
  "shard_discover env now ns req tm sh =
     (let fail = (\<lambda>m st. Inr (observed_error_response now tm m st)) in
      case verify_request (se_mac env) now sh req [] of
        Inl r \<Rightarrow> (sh, Inr (observed_rejection_response now tm r))
      | Inr _ \<Rightarrow>
          (case enforce_rate_limit now ns req discover_rate_limit sh of
             (sh1, Inl e) \<Rightarrow> (sh1, Inl e)
           | (sh1, Inr False) \<Rightarrow> (sh1, fail ''rate limit exceeded'' 429)
           | (sh1, Inr True) \<Rightarrow>
               (case hr_discover req of
                  None \<Rightarrow> (sh1, fail ''invalid discover query'' 400)
                | Some q \<Rightarrow>
                    (case sqlite_cookie (case dq_after_cookie q of Some c \<Rightarrow> c | None \<Rightarrow> 0) of
                       None \<Rightarrow> (sh1, fail ''invalid discover cursor'' 400)
                     | Some after \<Rightarrow> answer_discover env now q after sh1))))"

definition remove_registration :: "int \<Rightarrow> string \<Rightarrow> shard \<Rightarrow> handled" where
  "remove_registration now peer sh0 =
     (let sh = shard_cleanup now sh0;
          n = length (filter (\<lambda>r. reg_peer_id r = peer) (sh_rows sh))
      in (sh\<lparr>sh_rows := filter (\<lambda>r. reg_peer_id r \<noteq> peer) (sh_rows sh)\<rparr>,
          Inr (plain_response 200 (Body_Unregister \<lparr>un_removed = of_nat n\<rparr>))))"

definition shard_unregister :: "service_env \<Rightarrow> int \<Rightarrow> string \<Rightarrow> http_request \<Rightarrow> telemetry \<Rightarrow> shard \<Rightarrow> handled" where
  "shard_unregister env now ns req tm sh =
     (let fail = (\<lambda>m st. Inr (observed_error_response now tm m st)) in
      case verify_request (se_mac env) now sh req [] of
        Inl r \<Rightarrow> (sh, Inr (observed_rejection_response now tm r))
      | Inr _ \<Rightarrow>
          (case enforce_rate_limit now ns req unregister_rate_limit sh of
             (sh1, Inl e) \<Rightarrow> (sh1, Inl e)
           | (sh1, Inr False) \<Rightarrow> (sh1, fail ''rate limit exceeded'' 429)
           | (sh1, Inr True) \<Rightarrow>
               (case unregister_peer_id req of
                  None \<Rightarrow> (sh1, fail ''invalid peer id'' 400)
                | Some peer \<Rightarrow>
                    if is_valid_peer_id peer then remove_registration now peer sh1
                    else (sh1, fail ''invalid peer id'' 400))))"

definition shard_fetch :: "service_env \<Rightarrow> int \<Rightarrow> http_request \<Rightarrow> shard \<Rightarrow> handled" where
  "shard_fetch env now req sh =
     (case telemetry_from_request req now of
        Inl e \<Rightarrow> (sh, Inl e)
      | Inr tm \<Rightarrow>
          let fail = (\<lambda>m st. (sh, Inr (observed_error_response now tm m st))) in
          case namespace_from_path (hr_path req) of
            None \<Rightarrow> fail ''not found'' 404
          | Some ns \<Rightarrow>
              if \<not> is_valid_namespace ns then fail ''invalid namespace'' 400
              else if sh_schema_error sh \<noteq> None then fail ''storage schema unavailable'' 500
              else (case hr_method req of
                 Post \<Rightarrow> shard_register env now ns req tm sh
               | Get \<Rightarrow> shard_discover env now ns req tm sh
               | Delete \<Rightarrow> shard_unregister env now ns req tm sh
               | OtherMethod _ \<Rightarrow> fail ''method not allowed'' 405))"

text \<open>
  The edge: \<open>limiter\<close> is the platform's rate limiter, if bound; every namespace has its own
  durable object, created on first use.
\<close>

definition service_main ::
  "service_env \<Rightarrow> (string \<Rightarrow> bool) option \<Rightarrow> int \<Rightarrow> http_request \<Rightarrow> (string \<Rightarrow> shard) \<Rightarrow>
   (string \<Rightarrow> shard) \<times> (worker_error + http_response)" where
  "service_main env limiter now req shards =
     (case telemetry_from_request req now of
        Inl e \<Rightarrow> (shards, Inl e)
      | Inr tm \<Rightarrow>
          let fail = (\<lambda>m st. (shards, Inr (observed_error_response now tm m st))) in
          if hr_method req = Get \<and> hr_path req = ''/healthz''
            then (shards, Inr (with_observability_headers now tm (plain_response 200 (Body_Text ''ok''))))
          else case namespace_from_path (hr_path req) of
            None \<Rightarrow> fail ''not found'' 404
          | Some ns \<Rightarrow>
              if \<not> is_valid_namespace ns then fail ''invalid namespace'' 400
              else if hr_method req \<notin> {Get, Post, Delete} then fail ''method not allowed'' 405
              else (case (case limiter of
                            None \<Rightarrow> Inr True
                          | Some allow \<Rightarrow>
                              and_then (client_ip req) (\<lambda>ip. Inr (allow (''peerline:rendezvous:'' @ ns @ '':'' @
                                method_str (hr_method req) @ '':'' @ ip)))) of
                 Inl e \<Rightarrow> (shards, Inl e)
               | Inr False \<Rightarrow> fail ''rate limit exceeded'' 429
               | Inr True \<Rightarrow>
                   (case shard_fetch env now req (shards ns) of
                      (sh, Inl e) \<Rightarrow> (shards(ns := sh), Inl e)
                    | (sh, Inr rp) \<Rightarrow> (shards(ns := sh), Inr (with_observability_headers now tm rp)))))"

end
