(* ===== verification/Rendezvous_Guard.thy ===== *)
theory Rendezvous_Guard
  imports Rendezvous_Client Rendezvous_Service
begin

text \<open>
  What the registration guard of \<open>rendezvous.rs\<close> keeps true, by rule induction over the steps of
  its task, and the bounds of the refresh interval against the lifetime the service grants.
\<close>

section \<open>The refresh interval\<close>

lemma ttl_request_small:
  "uint (ttl_request_seconds cfg) = max 1 (min (int (rc_registration_ttl cfg div 1000)) (2 ^ 32 - 1))"
  by (auto simp: ttl_request_seconds_def clamp_def uint_nat unat_of_nat of_nat_diff)

lemma granted_seconds:
  "clamp_ttl default_max_ttl_secs (ttl_request_seconds cfg) =
     max 1 (min (int (rc_registration_ttl cfg div 1000)) 180)"
proof -
  have d: "default_max_ttl_secs = 180"
    by (simp add: default_max_ttl_secs_def registration_tolerance_secs_def
        default_registration_ttl_secs_def default_keepalive_secs_def)
  have "uint (clamp 1 (180 :: u32) x) = max 1 (min (uint x) 180)" for x
    by (auto simp: clamp_def word_less_def)
  then show ?thesis unfolding clamp_ttl_def d by (simp add: ttl_request_small)
qed

lemma keepalive_seconds:
  "normalize_registration_keepalive ttl requested =
     (let t = max (min (ttl div 1000) 180) 1 in
      min (max (requested div 1000) 1) (max (t - (if t \<le> 1 then 0 else min (max (t div 2) 1) 60)) 1) * 1000)"
proof -
  have c: "unat default_max_ttl_secs = 180" "unat registration_tolerance_secs = 60"
    by (simp_all add: default_max_ttl_secs_def registration_tolerance_secs_def
        default_registration_ttl_secs_def default_keepalive_secs_def)
  have "min ttl 180000 div 1000 = min (ttl div 1000) (180 :: nat)"
  proof (cases "ttl \<le> 180000")
    case True
    then have "ttl div 1000 \<le> 180" by (intro div_le_mono [of ttl 180000 1000, simplified])
    with True show ?thesis by (simp only: min_absorb1)
  next
    case False
    then have "180 \<le> ttl div 1000" by (intro div_le_mono [of 180000 ttl 1000, simplified]) simp
    with False show ?thesis by (simp add: min_absorb2)
  qed
  moreover have "180 * 1000 = (180000 :: nat)" by simp
  ultimately show ?thesis by (simp only: normalize_registration_keepalive_def c Let_def)
qed

text \<open>
  The refresh interval fits the lifetime: with a lifetime of at least two seconds, the client
  refreshes a registration no later than half its granted lifetime or a minute before its end,
  whichever is later, and more often than once a second is never asked for; the lifetime meant is the one
  a service with the default cap grants to what the client asks for.
\<close>

theorem keepalive_inside_ttl:
  assumes "2000 \<le> rc_registration_ttl cfg"
  shows "1000 \<le> registration_keepalive_interval cfg \<and>
    int (registration_keepalive_interval cfg) + 1000 \<le>
      1000 * clamp_ttl default_max_ttl_secs (ttl_request_seconds cfg) \<and>
    (let granted = clamp_ttl default_max_ttl_secs (ttl_request_seconds cfg) in
     int (registration_keepalive_interval cfg) \<le> 1000 * (granted - min (granted div 2) 60))"
proof -
  define t where "t = min (rc_registration_ttl cfg div 1000) 180"
  have t: "2 \<le> t" using assms by (simp add: t_def)
  have g: "clamp_ttl default_max_ttl_secs (ttl_request_seconds cfg) = int t"
    unfolding granted_seconds using t by (auto simp: t_def min_def max_def)
  define s where "s = min (max (rc_registration_keepalive cfg div 1000) 1) (t - min (t div 2) 60)"
  have "registration_keepalive_interval cfg = s * 1000"
  proof -
    have h: "max t 1 = t" "\<not> t \<le> 1" "max (t div 2) 1 = t div 2"
      "max (t - min (t div 2) 60) 1 = t - min (t div 2) 60" using t by auto
    show ?thesis
      unfolding registration_keepalive_interval_def keepalive_seconds t_def [symmetric] s_def Let_def h(1)
      by (simp only: h if_False)
  qed
  moreover have "1 \<le> s" "s \<le> t - min (t div 2) 60" using t by (auto simp: s_def)
  moreover have "int s \<le> int t - min (int t div 2) 60"
  proof -
    have "min (t div 2) 60 \<le> t" by simp
    then have "int (t - min (t div 2) 60) = int t - min (int t div 2) 60" by (simp add: of_nat_diff zdiv_int)
    with \<open>s \<le> t - min (t div 2) 60\<close> show ?thesis by linarith
  qed
  moreover have "1 \<le> min (int t div 2) 60" using t by auto
  ultimately show ?thesis unfolding g Let_def by auto
qed

lemma keepalive_inside_ttl_witness:
  "(1000 :: nat) \<le> registration_keepalive_interval (disabled_config :: nat rendezvous_config) \<and>
   registration_keepalive_interval (disabled_config :: nat rendezvous_config) = 60000"
proof
  show "1000 \<le> registration_keepalive_interval (disabled_config :: nat rendezvous_config)"
    using keepalive_inside_ttl [of "disabled_config :: nat rendezvous_config"]
    by (simp add: disabled_config_def default_rendezvous_ttl_def default_registration_ttl_secs_def)
qed code_simp

text \<open>With a lifetime of a single second the interval is as long as the lifetime itself.\<close>

lemma one_second_ttl_has_no_margin:
  "rc_registration_ttl cfg = 1000 \<Longrightarrow> rc_registration_keepalive cfg = 1000 \<Longrightarrow>
   int (registration_keepalive_interval cfg) = 1000 * clamp_ttl default_max_ttl_secs (ttl_request_seconds cfg)"
  by (simp add: registration_keepalive_interval_def keepalive_seconds granted_seconds Let_def)

section \<open>The guard and its task\<close>

definition lease_inv :: "('u, 'w) client_env \<Rightarrow> 'u rendezvous_config \<Rightarrow> string \<Rightarrow> 'u guard \<times> 'w \<Rightarrow> bool" where
  "lease_inv ce cfg peer s \<longleftrightarrow> (case s of (g, w) \<Rightarrow>
     gd_config g = cfg \<and> gd_peer_id g = peer \<and> pd_peer_id (gd_channel g) = peer \<and>
     (if gd_active g then gd_sender g else gd_task g = None) \<and>
     (\<forall>due. gd_task g = Some (Task_Waiting due) \<longrightarrow>
        due \<le> ce_instant ce w + registration_keepalive_interval cfg))"

text \<open>What a request does to the monotonic clock is all the run depends on.\<close>

locale running_clock =
  fixes ce :: "('u, 'w) client_env" and moves :: "'w \<Rightarrow> 'w \<Rightarrow> bool"
  assumes send_clock: "ce_instant ce w \<le> ce_instant ce (fst (ce_send ce c o' w))"
    and moves_clock: "moves w w' \<Longrightarrow> ce_instant ce w \<le> ce_instant ce w'"
    and tick_rule: "due \<le> now \<Longrightarrow> ce_next_tick ce due now period \<le> now + period"
begin

lemma publish_loop_clock:
  "publish_loop ce cfg c ns body es n w = (w', r) \<Longrightarrow> ce_instant ce w \<le> ce_instant ce w'"
proof (induction es arbitrary: n w)
  case Nil
  then show ?case by simp
next
  case (Cons e es)
  show ?case
  proof (cases "namespace_url (ce_url ce) e ns")
    case (Inl err)
    with Cons.prems show ?thesis by simp
  next
    case (Inr u)
    let ?o = "signed_request ce cfg (ce_now ce w) ''POST'' u body"
    obtain w1 q where s: "ce_send ce c ?o w = (w1, q)" by fastforce
    have "ce_instant ce w \<le> ce_instant ce w1" using send_clock [of w c ?o] s by simp
    moreover have "ce_instant ce w1 \<le> ce_instant ce w'"
      using Cons.prems Cons.IH Inr s by (auto split: sum.splits)
    ultimately show ?thesis by (rule le_trans)
  qed
qed

lemma unpublish_loop_clock:
  "unpublish_loop ce cfg c ns peer es a w = (w', r) \<Longrightarrow> ce_instant ce w \<le> ce_instant ce w'"
proof (induction es arbitrary: a w)
  case Nil
  then show ?case by (cases a) simp
next
  case (Cons e es)
  obtain acc rem where a: "a = (acc, rem)" by (cases a)
  show ?case
  proof (cases "namespace_url (ce_url ce) e ns")
    case (Inl err)
    with Cons.prems a show ?thesis by simp
  next
    case (Inr b)
    let ?o = "signed_request ce cfg (ce_now ce w) ''DELETE'' (ua_append_pair (ce_url ce) ''peer_id'' peer b) []"
    obtain w1 q where s: "ce_send ce c ?o w = (w1, q)" by fastforce
    have "ce_instant ce w \<le> ce_instant ce w1" using send_clock [of w c ?o] s by simp
    moreover have "ce_instant ce w1 \<le> ce_instant ce w'"
      using Cons.prems Cons.IH a Inr s by (auto simp: Let_def split: sum.splits if_splits)
    ultimately show ?thesis by (rule le_trans)
  qed
qed

lemma guard_publish_clock: "ce_instant ce w \<le> ce_instant ce (guard_publish ce g w)"
  by (auto simp: guard_publish_def publish_peer_descriptor_def Let_def dest: publish_loop_clock
      split: sum.splits prod.splits)

lemma guard_unpublish_clock: "ce_instant ce w \<le> ce_instant ce (guard_unpublish ce g w)"
  by (auto simp: guard_unpublish_def unpublish_peer_descriptor_def Let_def dest: unpublish_loop_clock
      split: sum.splits prod.splits)

lemma lease_step:
  assumes "guard_step ce moves s es s'" "lease_inv ce cfg peer s"
  shows "lease_inv ce cfg peer s' \<and> (\<forall>d \<in> set es. pd_peer_id d = peer) \<and>
    (gd_active (fst s) \<longrightarrow> gd_active (fst s') \<longrightarrow> gd_task (fst s) \<noteq> None \<longrightarrow> gd_task (fst s') \<noteq> None)"
  using assms
proof (cases rule: guard_step.cases)
  case (Start g w)
  with assms(2) show ?thesis by (auto simp: lease_inv_def keepalive_start_def Let_def split: if_splits)
next
  case (Tick g due w)
  have "ce_next_tick ce due (ce_instant ce w) (registration_keepalive_interval cfg) \<le>
      ce_instant ce (guard_publish ce g w) + registration_keepalive_interval cfg"
    using tick_rule [OF Tick(5), of "registration_keepalive_interval cfg"] guard_publish_clock [of w g] by linarith
  with Tick assms(2) show ?thesis by (auto simp: lease_inv_def keepalive_tick_def split: if_splits)
next
  case (Changed g due w)
  with assms(2) guard_publish_clock [of w g] show ?thesis
    by (fastforce simp: lease_inv_def keepalive_changed_def split: if_splits)
next
  case (Update g w d)
  with assms(2) show ?thesis by (auto simp: lease_inv_def update_descriptor_def split: if_splits)
next
  case (Unregister g w)
  with assms(2) guard_unpublish_clock [of w g] show ?thesis
    by (auto simp: lease_inv_def guard_unregister_def abort_keepalive_def split: if_splits)
next
  case (World w w' g)
  with assms(2) moves_clock show ?thesis by (fastforce simp: lease_inv_def)
qed

lemma lease_run:
  assumes "guard_run ce moves s ds s'" "lease_inv ce cfg peer s"
  shows "lease_inv ce cfg peer s' \<and> (\<forall>d \<in> set ds. pd_peer_id d = peer)"
  using assms
proof (induction rule: guard_run.induct)
  case (Done s)
  then show ?case by simp
next
  case (Step s ds s' es s'')
  from lease_step [OF Step.hyps(2)] Step.IH [OF Step.prems] show ?case by auto
qed

end

text \<open>
  A guard keeps one registration alive and no other: in every run from its creation, whatever
  updates arrive and whatever the network does, each descriptor its task publishes is the guard's
  own peer's; once the guard has been unregistered its task is gone and publishes nothing; and
  while it waits, the next refresh is never more than one refresh interval away.
\<close>

theorem guard_keeps_lease:
  assumes "\<And>w c o'. ce_instant ce w \<le> ce_instant ce (fst (ce_send ce c o' w))"
    and "\<And>w w'. moves w w' \<Longrightarrow> ce_instant ce w \<le> ce_instant ce w'"
    and "\<And>due now period. due \<le> now \<Longrightarrow> ce_next_tick ce due now period \<le> now + period"
    and run: "guard_run ce moves (guard_new (ce_url ce) name hcode d cfg, w0) ds (g, w)"
  shows "(\<forall>x \<in> set ds. pd_peer_id x = pd_peer_id d) \<and>
    (\<not> gd_active g \<longrightarrow> gd_task g = None \<and>
       (\<forall>es s'. guard_step ce moves (g, w) es s' \<longrightarrow> es = [] \<and> gd_task (fst s') = None)) \<and>
    (\<forall>due. gd_task g = Some (Task_Waiting due) \<longrightarrow>
       due \<le> ce_instant ce w + registration_keepalive_interval cfg)"
proof -
  have clock: "running_clock ce moves" using assms(1-3) by (rule running_clock.intro)
  have "lease_inv ce cfg (pd_peer_id d) (guard_new (ce_url ce) name hcode d cfg, w0)"
    by (simp add: lease_inv_def guard_new_def)
  from running_clock.lease_run [OF clock run this]
  have inv: "lease_inv ce cfg (pd_peer_id d) (g, w)" and own: "\<forall>x \<in> set ds. pd_peer_id x = pd_peer_id d"
    by simp_all
  have quiet: "es = [] \<and> gd_task (fst s') = None"
    if "gd_task g = None" "guard_step ce moves (g, w) es s'" for es s'
    using that(2,1) by (cases rule: guard_step.cases)
      (auto simp: update_descriptor_def guard_unregister_def abort_keepalive_def)
  from inv own quiet show ?thesis by (auto simp: lease_inv_def)
qed

definition idle_env :: "(nat, nat) client_env" where
  "idle_env = \<lparr>ce_url = \<lparr>ua_parse = \<lambda>_. Some 0, ua_scheme = \<lambda>_. ''http'', ua_host = \<lambda>_. None, ua_port = \<lambda>_. None,
       ua_path = \<lambda>_. ''/'', ua_query = \<lambda>_. None, ua_join = \<lambda>u _. Some u, ua_append_pair = \<lambda>_ _ u. u\<rparr>,
     ce_mac = \<lparr>mac_hash = id, mac_keyed = (@), mac_text = bytes_str\<rparr>, ce_version = ''1'',
     ce_blake3 = id, ce_argon = (@), ce_read_file = \<lambda>_. None, ce_pem_ok = \<lambda>_. True, ce_builds = \<lambda>_. True,
     ce_now = int, ce_instant = id, ce_send = \<lambda>c o' w. (w + 10, Inl ()),
     ce_register_json = \<lambda>_. Some [], ce_unregister_from_json = \<lambda>_. None, ce_discover_from_json = \<lambda>_. None,
     ce_next_tick = \<lambda>due now period. (if due + 5 < now then now + period else due + period)\<rparr>"

interpretation idle: running_clock idle_env "(\<le>)"
  by unfold_locales (simp_all add: idle_env_def)

definition idle_peer :: peer_descriptor where
  "idle_peer = \<lparr>pd_protocol_version = 1, pd_peer_id = ''A1'', pd_direct_endpoints = [], pd_libp2p_endpoints = [],
     pd_public_endpoints = [], pd_tor_endpoints = [], pd_i2p_endpoints = [], pd_published_unix_ms = 0\<rparr>"

definition idle_guard :: "nat guard" where
  "idle_guard = guard_new (ce_url idle_env) (HumanName ''n'') (HumanCode ''c'') idle_peer
     (disabled_config\<lparr>rc_endpoints := [7]\<rparr>)"

lemma idle_run: "guard_run idle_env (\<le>) (idle_guard, 0) [idle_peer] (keepalive_start idle_env idle_guard 0)"
proof -
  have "gd_task idle_guard = Some Task_Started" "gd_channel idle_guard = idle_peer"
    by (simp_all add: idle_guard_def guard_new_def usable_endpoints_def is_default_private_endpoint_def idle_env_def)
  then show ?thesis
    using guard_run.Step [OF guard_run.Done guard_step.Start] by fastforce
qed

lemma guard_keeps_lease_witness:
  "gd_task (fst (keepalive_start idle_env idle_guard 0)) = Some (Task_Waiting 60010) \<and>
   60010 \<le> ce_instant idle_env (snd (keepalive_start idle_env idle_guard 0)) +
     registration_keepalive_interval (disabled_config\<lparr>rc_endpoints := [7 :: nat]\<rparr>)"
proof -
  obtain g w where gw: "keepalive_start idle_env idle_guard 0 = (g, w)" by fastforce
  have t: "gd_task (fst (keepalive_start idle_env idle_guard 0)) = Some (Task_Waiting 60010)" by code_simp
  with gw have "gd_task g = Some (Task_Waiting 60010)" by simp
  moreover have "guard_run idle_env (\<le>) (guard_new (ce_url idle_env) (HumanName ''n'') (HumanCode ''c'') idle_peer
      (disabled_config\<lparr>rc_endpoints := [7]\<rparr>), 0) [idle_peer] (g, w)"
    using idle_run unfolding gw unfolding idle_guard_def .
  ultimately have "60010 \<le> ce_instant idle_env w +
      registration_keepalive_interval (disabled_config\<lparr>rc_endpoints := [7 :: nat]\<rparr>)"
    using guard_keeps_lease [OF idle.send_clock idle.moves_clock idle.tick_rule] by blast
  with t gw show ?thesis by simp
qed

end
