(* ===== verification/Rendezvous_Registry.thy ===== *)
theory Rendezvous_Registry
  imports Rendezvous_Service
begin

text \<open>
  What the rendezvous service guarantees: the invariant of a shard's tables, their refinement of
  a finite map from peers to registrations, what discovery returns, who may change a shard, and
  how many requests a client may make in a minute.
\<close>

section \<open>The invariant of the tables\<close>

definition rows_ok :: "int \<Rightarrow> registration list \<Rightarrow> bool" where
  "rows_ok last_cookie rows \<longleftrightarrow>
     sorted_wrt (<) (map reg_cookie rows) \<and> distinct (map reg_peer_id rows) \<and>
     (\<forall>r \<in> set rows. 0 < reg_cookie r \<and> reg_cookie r \<le> last_cookie \<and> is_valid_peer_id (reg_peer_id r))"

definition shard_ok :: "shard \<Rightarrow> bool" where
  "shard_ok sh \<longleftrightarrow> sh_max_ttl_secs sh \<noteq> 0 \<and> 0 \<le> sh_last_cookie sh \<and> rows_ok (sh_last_cookie sh) (sh_rows sh) \<and>
     distinct (map fst (sh_rates sh)) \<and> (\<forall>(k, w, n) \<in> set (sh_rates sh). 0 < n)"

lemma rows_ok_filter: "rows_ok c rows \<Longrightarrow> rows_ok c (filter P rows)"
  by (auto simp: rows_ok_def sorted_wrt_map distinct_map_filter intro: sorted_wrt_filter)

lemma rows_cookie_inj:
  assumes "rows_ok c rows" "r \<in> set rows" "s \<in> set rows" "reg_cookie r = reg_cookie s"
  shows "r = s"
proof -
  have "distinct (map reg_cookie rows)"
    using assms(1) by (auto simp: rows_ok_def dest: strict_sorted_imp_sorted strict_sorted_iff [THEN iffD1])
  with assms show ?thesis by (metis distinct_map inj_on_def)
qed

lemma rows_peer_inj:
  "rows_ok c rows \<Longrightarrow> r \<in> set rows \<Longrightarrow> s \<in> set rows \<Longrightarrow> reg_peer_id r = reg_peer_id s \<Longrightarrow> r = s"
  unfolding rows_ok_def by (metis distinct_map inj_on_def)

lemma existing_cookie_Some:
  assumes "existing_cookie p rows = Some k"
  shows "\<exists>r \<in> set rows. reg_peer_id r = p \<and> reg_cookie r = k"
proof -
  from assms obtain r rs where "sort_key reg_cookie (filter (\<lambda>r. reg_peer_id r = p) rows) = r # rs"
      "reg_cookie r = k"
    by (auto simp: existing_cookie_def split: list.splits)
  then have "r \<in> set (sort_key reg_cookie (filter (\<lambda>r. reg_peer_id r = p) rows))" by simp
  with \<open>reg_cookie r = k\<close> show ?thesis by auto
qed

lemma existing_cookie_None: "existing_cookie p rows = None \<longleftrightarrow> (\<forall>r \<in> set rows. reg_peer_id r \<noteq> p)"
proof -
  have "existing_cookie p rows = None \<longleftrightarrow> sort_key reg_cookie (filter (\<lambda>r. reg_peer_id r = p) rows) = []"
    by (auto simp: existing_cookie_def split: list.splits)
  also have "\<dots> \<longleftrightarrow> filter (\<lambda>r. reg_peer_id r = p) rows = []"
    by (metis set_empty set_sort sort_key_simps(1))
  finally show ?thesis by (simp add: filter_empty_conv)
qed

text \<open>On tables that satisfy the invariant the second statement of a refresh deletes nothing.\<close>

lemma refresh_row_map:
  assumes "rows_ok c rows" "existing_cookie p rows = Some k"
  shows "refresh_row p k e j rows =
    map (\<lambda>r. if reg_peer_id r = p then r\<lparr>reg_expires := e, reg_json := j\<rparr> else r) rows"
proof -
  from existing_cookie_Some [OF assms(2)] obtain r0 where r0: "r0 \<in> set rows" "reg_peer_id r0 = p"
      "reg_cookie r0 = k" by blast
  have same: "reg_cookie r = k \<longleftrightarrow> reg_peer_id r = p" if "r \<in> set rows" for r
    using that r0 rows_cookie_inj [OF assms(1) that r0(1)] rows_peer_inj [OF assms(1) that r0(1)] by auto
  then have "map (\<lambda>r. if reg_cookie r = k then r\<lparr>reg_expires := e, reg_json := j\<rparr> else r) rows =
      map (\<lambda>r. if reg_peer_id r = p then r\<lparr>reg_expires := e, reg_json := j\<rparr> else r) rows"
    by (intro map_cong) auto
  moreover have "filter (\<lambda>r. \<not> (reg_peer_id r = p \<and> reg_cookie r \<noteq> k))
      (map (\<lambda>r. if reg_peer_id r = p then r\<lparr>reg_expires := e, reg_json := j\<rparr> else r) rows) =
      map (\<lambda>r. if reg_peer_id r = p then r\<lparr>reg_expires := e, reg_json := j\<rparr> else r) rows"
  proof (rule filter_True, rule ballI)
    fix x assume "x \<in> set (map (\<lambda>r. if reg_peer_id r = p then r\<lparr>reg_expires := e, reg_json := j\<rparr> else r) rows)"
    then obtain r where r: "r \<in> set rows" "reg_peer_id x = reg_peer_id r" "reg_cookie x = reg_cookie r"
      by (auto split: if_splits)
    with same [OF r(1)] show "\<not> (reg_peer_id x = p \<and> reg_cookie x \<noteq> k)" by simp
  qed
  ultimately show ?thesis by (simp only: refresh_row_def)
qed

lemma rows_ok_map:
  assumes "rows_ok c rows" "\<And>r. reg_cookie (f r) = reg_cookie r" "\<And>r. reg_peer_id (f r) = reg_peer_id r"
  shows "rows_ok c (map f rows)"
  using assms by (auto simp: rows_ok_def comp_def)

lemma rows_ok_append:
  assumes "rows_ok c rows" "0 \<le> c" "is_valid_peer_id p" "\<forall>r \<in> set rows. reg_peer_id r \<noteq> p"
  shows "rows_ok (c + 1)
    (rows @ [\<lparr>reg_cookie = c + 1, reg_peer_id = p, reg_expires = e, reg_json = j\<rparr>])"
  using assms by (fastforce simp: rows_ok_def sorted_wrt_append)

lemma shard_cleanup_last [simp]: "sh_last_cookie (shard_cleanup now sh) = sh_last_cookie sh"
  by (simp add: shard_cleanup_def)

lemma shard_cleanup_ok: "shard_ok sh \<Longrightarrow> shard_ok (shard_cleanup now sh)"
  by (auto simp: shard_ok_def shard_cleanup_def rows_ok_filter distinct_map_filter)

lemma upsert_row_ok:
  assumes "shard_ok sh" "is_valid_peer_id p" "upsert_row p e j sh = (sh', k, was)"
  shows "shard_ok sh'"
proof (cases "existing_cookie p (sh_rows sh)")
  case None
  then have fresh: "\<forall>r \<in> set (sh_rows sh). reg_peer_id r \<noteq> p" by (simp add: existing_cookie_None)
  from assms(1) have "rows_ok (sh_last_cookie sh) (sh_rows sh)" "0 \<le> sh_last_cookie sh"
    by (simp_all add: shard_ok_def)
  from rows_ok_append [OF this assms(2) fresh] assms None show ?thesis
    by (auto simp: upsert_row_def shard_ok_def Let_def)
next
  case (Some c)
  with assms have "sh' = sh\<lparr>sh_rows := refresh_row p c e j (sh_rows sh)\<rparr>" by (auto simp: upsert_row_def)
  moreover have "rows_ok (sh_last_cookie sh) (refresh_row p c e j (sh_rows sh))"
  proof -
    have ok: "rows_ok (sh_last_cookie sh) (sh_rows sh)" using assms(1) by (simp add: shard_ok_def)
    show ?thesis
      unfolding refresh_row_map [OF ok Some] by (rule rows_ok_map [OF ok]) auto
  qed
  ultimately show ?thesis using assms(1) by (simp add: shard_ok_def)
qed

lemma bump_rate_ok:
  assumes "distinct (map fst rates)" "\<forall>(k, w, n) \<in> set rates. 0 < n" "0 < m"
    and "bump_rate key w m rates = (rates', n)"
  shows "distinct (map fst rates') \<and> (\<forall>(k, w, n) \<in> set rates'. 0 < n)"
proof -
  from assms(4) obtain v where v: "rates' = AList.update key v rates" "snd v = n"
    by (auto simp: bump_rate_def Let_def split: option.splits)
  have "0 < n"
  proof (cases "map_of rates key")
    case None
    with assms(4) show ?thesis by (simp add: bump_rate_def)
  next
    case (Some x)
    obtain w0 n0 where x: "x = (w0, n0)" by (cases x)
    with Some have "(key, w0, n0) \<in> set rates" by (simp add: map_of_SomeD)
    with assms(2) have "0 < n0" by auto
    with Some x assms(3,4) show ?thesis by (auto simp: bump_rate_def Let_def split: if_splits)
  qed
  moreover have "set (AList.update key v rates) \<subseteq> insert (key, v) (set rates)"
    by (induction rates) (auto split: if_splits)
  ultimately show ?thesis
    using assms(1,2) v by (auto simp: distinct_update)
qed

lemma enforce_rate_limit_effect:
  "enforce_rate_limit now ns req limit sh = (sh', r) \<Longrightarrow> shard_ok sh \<Longrightarrow>
   shard_ok sh' \<and> sh_rows sh' = sh_rows sh \<and> sh_last_cookie sh' = sh_last_cookie sh"
proof -
  assume a: "enforce_rate_limit now ns req limit sh = (sh', r)" and ok: "shard_ok sh"
  show ?thesis
  proof (cases "client_ip req")
    case (Inl e)
    with a ok show ?thesis by (simp add: enforce_rate_limit_def)
  next
    case (Inr ip)
    let ?key = "ns @ '':'' @ method_str (hr_method req) @ '':'' @ ip"
    obtain rates n where b: "bump_rate ?key (now - now mod rate_window_ms) (uint (saturating_add limit 1))
        (sh_rates sh) = (rates, n)" by fastforce
    have "saturating_add limit 1 \<noteq> (0 :: u32)"
    proof
      assume "saturating_add limit 1 = 0"
      then have "limit + 1 = 0" "unat limit + 1 < 2 ^ 32"
        by (auto simp: saturating_add_def split: if_splits)
      then show False by (simp add: word_unat_eq_iff unat_word_ariths)
    qed
    then have "0 < uint (saturating_add limit 1)" using uint_0_iff [of "saturating_add limit 1"] uint_ge_0 [of "saturating_add limit 1"] by linarith
    with ok bump_rate_ok [OF _ _ _ b] have "distinct (map fst rates) \<and> (\<forall>(k, w, n) \<in> set rates. 0 < n)"
      by (simp add: shard_ok_def)
    with a b Inr ok show ?thesis by (auto simp: enforce_rate_limit_def Let_def shard_ok_def)
  qed
qed

text \<open>What validation guarantees of a descriptor that is stored.\<close>

definition descriptor_valid :: "peer_descriptor \<Rightarrow> bool" where
  "descriptor_valid d \<longleftrightarrow>
     is_valid_peer_id (pd_peer_id d) \<and>
     pd_direct_endpoints d @ pd_libp2p_endpoints d @ map pt_url (pd_public_endpoints d) @
       map to_url (pd_tor_endpoints d) @ map ip_url (pd_i2p_endpoints d) \<noteq> [] \<and>
     (\<forall>e \<in> set (pd_direct_endpoints d @ pd_libp2p_endpoints d @ map pt_url (pd_public_endpoints d) @
        map to_url (pd_tor_endpoints d) @ map ip_url (pd_i2p_endpoints d)). is_valid_endpoint e) \<and>
     length (pd_direct_endpoints d) \<le> 8 \<and> length (pd_libp2p_endpoints d) \<le> 24 \<and>
     length (pd_public_endpoints d) \<le> 8 \<and> length (pd_tor_endpoints d) \<le> 8 \<and>
     length (pd_i2p_endpoints d) \<le> 8"

lemma validate_descriptor_valid: "validate_descriptor d = Inr () \<Longrightarrow> descriptor_valid d"
  unfolding validate_descriptor_def descriptor_valid_def reject_def
  by (auto simp: is_valid_public_tunnel_endpoint_def is_valid_tor_onion_endpoint_def
      is_valid_i2p_endpoint_def max_direct_endpoints_def max_libp2p_endpoints_def max_public_endpoints_def
      max_tor_endpoints_def max_i2p_endpoints_def split: if_splits)

lemma store_registration_ok:
  assumes "shard_ok sh" "is_valid_peer_id (pd_peer_id (rq_descriptor request))"
    and "store_registration env now request sh = (sh', r)"
  shows "shard_ok sh'"
proof -
  let ?d = "(rq_descriptor request)\<lparr>pd_protocol_version := descriptor_protocol_version,
      pd_published_unix_ms := of_int now\<rparr>"
  note ok = shard_cleanup_ok [OF assms(1), of now]
  have p: "is_valid_peer_id (pd_peer_id ?d)" using assms(2) by simp
  show ?thesis
  proof (cases "se_descriptor_to_json env ?d")
    case None
    with assms(3) ok show ?thesis by (simp add: store_registration_def Let_def)
  next
    case (Some json)
    obtain sh1 k was where u: "upsert_row (pd_peer_id ?d)
        (now + clamp_ttl (sh_max_ttl_secs sh) (rq_ttl_seconds request) * 1000) json (shard_cleanup now sh) =
        (sh1, k, was)" by (metis prod_cases3)
    with Some assms(3) have "sh' = sh1" by (simp add: store_registration_def Let_def)
    with upsert_row_ok [OF ok p u] show ?thesis by simp
  qed
qed

lemma remove_registration_ok: "shard_ok sh \<Longrightarrow> remove_registration now p sh = (sh', r) \<Longrightarrow> shard_ok sh'"
  using shard_cleanup_ok [of sh now]
  by (auto simp: remove_registration_def Let_def shard_ok_def rows_ok_filter)

lemma answer_discover_state: "answer_discover env now q a sh = (sh', r) \<Longrightarrow> sh' = shard_cleanup now sh"
  by (auto simp: answer_discover_def Let_def)

lemma shard_register_ok:
  "shard_ok sh \<Longrightarrow> shard_register env now ns req tm sh = (sh', r) \<Longrightarrow> shard_ok sh'"
  by (auto simp: shard_register_def Let_def split: sum.splits bool.splits if_splits prod.splits option.splits
      dest!: enforce_rate_limit_effect
      elim!: store_registration_ok [rotated 2]
      dest: validate_descriptor_valid simp: descriptor_valid_def)

lemma shard_discover_ok:
  "shard_ok sh \<Longrightarrow> shard_discover env now ns req tm sh = (sh', r) \<Longrightarrow> shard_ok sh'"
  by (auto simp: shard_discover_def Let_def split: sum.splits bool.splits if_splits prod.splits option.splits
      dest!: enforce_rate_limit_effect answer_discover_state intro: shard_cleanup_ok)

lemma shard_unregister_ok:
  "shard_ok sh \<Longrightarrow> shard_unregister env now ns req tm sh = (sh', r) \<Longrightarrow> shard_ok sh'"
  by (auto simp: shard_unregister_def Let_def split: sum.splits bool.splits if_splits prod.splits option.splits
      dest!: enforce_rate_limit_effect intro: remove_registration_ok)

lemma shard_fetch_ok: "shard_ok sh \<Longrightarrow> shard_ok (fst (shard_fetch env now req sh))"
proof -
  assume ok: "shard_ok sh"
  obtain sh' r where f: "shard_fetch env now req sh = (sh', r)" by fastforce
  then have "shard_ok sh'"
    using ok shard_register_ok [OF ok] shard_discover_ok [OF ok] shard_unregister_ok [OF ok]
    by (auto simp: shard_fetch_def Let_def split: sum.splits option.splits if_splits http_method.splits)
  with f show ?thesis by simp
qed

lemma env_positive_u32_nonzero: "fallback \<noteq> 0 \<Longrightarrow> env_positive_u32 env name fallback \<noteq> 0"
proof -
  have "n < 2 ^ 32 \<Longrightarrow> 0 < n \<Longrightarrow> of_nat n \<noteq> (0 :: u32)" for n
    by (simp add: word_unat_eq_iff unat_of_nat)
  then show "fallback \<noteq> 0 \<Longrightarrow> ?thesis"
    by (auto simp: env_positive_u32_def split: option.splits dest!: parse_unsigned_bound)
qed

lemma shard_new_ok: "shard_ok (shard_new e env)"
proof -
  have "default_max_ttl_secs \<noteq> 0"
    by (simp add: default_max_ttl_secs_def registration_tolerance_secs_def
        default_registration_ttl_secs_def default_keepalive_secs_def)
  then show ?thesis
    using env_positive_u32_nonzero by (simp add: shard_new_def shard_ok_def rows_ok_def Let_def)
qed

text \<open>A shard is a step system: it handles one request at a time.\<close>

definition shard_step :: "service_env \<Rightarrow> shard \<Rightarrow> int \<times> http_request \<Rightarrow> shard" where
  "shard_step env sh e = fst (shard_fetch env (fst e) (snd e) sh)"

interpretation shard_run: step_system "shard_step env" shard_ok for env
  by unfold_locales (simp add: shard_step_def shard_fetch_ok)

text \<open>
  C33. Whatever requests a shard receives, in any order, its table holds at most one registration
  per peer, every cookie at most once and in increasing order, none beyond the counter, and only
  well-formed peer identifiers; the cookie counter never goes back.
\<close>

theorem shard_invariant:
  "shard_ok (foldl (shard_step env) (shard_new err settings) es)"
  by (rule shard_run.run_inv [OF shard_new_ok])

section \<open>The registry a shard implements\<close>

text \<open>
  Abstractly a shard is a finite map from peers to (cookie, expiry, descriptor) and the last
  cookie given out.
\<close>

type_synonym registry = "string \<Rightarrow> (int \<times> int \<times> string) option"

definition registry_entry :: "registration \<Rightarrow> string \<times> int \<times> int \<times> string" where
  "registry_entry r = (reg_peer_id r, reg_cookie r, reg_expires r, reg_json r)"

definition registry_of :: "registration list \<Rightarrow> registry" where
  "registry_of rows = map_of (map registry_entry rows)"

definition spec_expire :: "int \<Rightarrow> registry \<Rightarrow> registry" where
  "spec_expire now m p =
     (case m p of None \<Rightarrow> None | Some (c, e, j) \<Rightarrow> if e \<le> now then None else Some (c, e, j))"

definition spec_put :: "string \<Rightarrow> int \<Rightarrow> string \<Rightarrow> registry \<times> int \<Rightarrow> registry \<times> int" where
  "spec_put p e j = (\<lambda>(m, last_cookie).
     case m p of
       Some (c, _, _) \<Rightarrow> (m(p \<mapsto> (c, e, j)), last_cookie)
     | None \<Rightarrow> (m(p \<mapsto> (last_cookie + 1, e, j)), last_cookie + 1))"

lemma option_eqI: "(\<And>v. x = Some v \<longleftrightarrow> y = Some v) \<Longrightarrow> x = y"
  by (cases x; cases y) auto

lemma registry_of_Some:
  assumes "rows_ok c rows"
  shows "registry_of rows p = Some v \<longleftrightarrow> (\<exists>r \<in> set rows. registry_entry r = (p, v))"
proof -
  have "map fst (map registry_entry rows) = map reg_peer_id rows"
    by (simp add: registry_entry_def comp_def)
  then have "distinct (map fst (map registry_entry rows))"
    using assms unfolding rows_ok_def by (simp only:)
  then show ?thesis
    unfolding registry_of_def by (subst map_of_eq_Some_iff) (auto simp: image_iff intro: sym)
qed

lemma registry_filter:
  assumes "rows_ok c rows" "\<And>r p k e j. registry_entry r = (p, k, e, j) \<Longrightarrow> P r \<longleftrightarrow> Q p k e j"
  shows "registry_of (filter P rows) p =
    (case registry_of rows p of None \<Rightarrow> None | Some (k, e, j) \<Rightarrow> if Q p k e j then Some (k, e, j) else None)"
proof -
  have key: "registry_of (filter P rows) p = Some v \<longleftrightarrow>
      registry_of rows p = Some v \<and> (case v of (k, e, j) \<Rightarrow> Q p k e j)" for v
    unfolding registry_of_Some [OF rows_ok_filter [OF assms(1)]] registry_of_Some [OF assms(1)]
    using assms(2) rows_peer_inj [OF assms(1)]
    by (cases v) (fastforce simp: registry_entry_def)
  show ?thesis
  proof (cases "registry_of rows p")
    case None
    with key show ?thesis by (cases "registry_of (filter P rows) p") auto
  next
    case (Some v)
    obtain k e j where v: "v = (k, e, j)" by (cases v)
    show ?thesis
    proof (cases "Q p k e j")
      case True
      with key [of v] Some v show ?thesis by simp
    next
      case False
      with key Some v have "registry_of (filter P rows) p \<noteq> Some w" for w by auto
      with Some v False show ?thesis by (cases "registry_of (filter P rows) p") auto
    qed
  qed
qed

lemma registry_cleanup:
  assumes "shard_ok sh"
  shows "registry_of (sh_rows (shard_cleanup now sh)) = spec_expire now (registry_of (sh_rows sh))"
proof
  fix p
  have "rows_ok (sh_last_cookie sh) (sh_rows sh)" using assms by (simp add: shard_ok_def)
  from registry_filter [OF this, of "\<lambda>r. \<not> reg_expires r \<le> now" "\<lambda>p k e j. \<not> e \<le> now" p]
  show "registry_of (sh_rows (shard_cleanup now sh)) p = spec_expire now (registry_of (sh_rows sh)) p"
    by (auto simp: shard_cleanup_def spec_expire_def registry_entry_def split: option.splits)
qed

lemma registry_without:
  assumes "rows_ok c rows"
  shows "registry_of (filter (\<lambda>r. reg_peer_id r \<noteq> p) rows) = (registry_of rows)(p := None)"
proof
  fix q
  from registry_filter [OF assms, of "\<lambda>r. reg_peer_id r \<noteq> p" "\<lambda>q k e j. q \<noteq> p" q]
  show "registry_of (filter (\<lambda>r. reg_peer_id r \<noteq> p) rows) q = ((registry_of rows)(p := None)) q"
    by (auto simp: registry_entry_def split: option.splits)
qed

lemma registry_upsert:
  assumes ok: "shard_ok sh" and u: "upsert_row p e j sh = (sh', k, was)"
  shows "(registry_of (sh_rows sh'), sh_last_cookie sh') =
      spec_put p e j (registry_of (sh_rows sh), sh_last_cookie sh) \<and>
    registry_of (sh_rows sh') p = Some (k, e, j) \<and>
    (was \<longleftrightarrow> registry_of (sh_rows sh) p \<noteq> None)"
proof -
  let ?rows = "sh_rows sh"
  have rows: "rows_ok (sh_last_cookie sh) ?rows" using ok by (simp add: shard_ok_def)
  show ?thesis
  proof (cases "existing_cookie p ?rows")
    case None
    then have "registry_of ?rows p = None"
      unfolding existing_cookie_None registry_of_def by (auto simp: map_of_eq_None_iff registry_entry_def)
    moreover have "registry_of (?rows @ [\<lparr>reg_cookie = sh_last_cookie sh + 1, reg_peer_id = p,
        reg_expires = e, reg_json = j\<rparr>]) = (registry_of ?rows)(p \<mapsto> (sh_last_cookie sh + 1, e, j))"
      using calculation
      by (auto simp: registry_of_def registry_entry_def map_add_def fun_eq_iff split: option.splits)
    ultimately show ?thesis using None u by (auto simp: upsert_row_def Let_def spec_put_def)
  next
    case (Some c)
    from existing_cookie_Some [OF Some] obtain r where r: "r \<in> set ?rows" "reg_peer_id r = p" "reg_cookie r = c"
      by blast
    then have cur: "registry_of ?rows p = Some (c, reg_expires r, reg_json r)"
      unfolding registry_of_Some [OF rows] by (auto simp: registry_entry_def)
    let ?f = "\<lambda>r. if reg_peer_id r = p then r\<lparr>reg_expires := e, reg_json := j\<rparr> else r"
    have rows': "rows_ok (sh_last_cookie sh) (map ?f ?rows)" by (rule rows_ok_map [OF rows]) auto
    have "registry_of (map ?f ?rows) q = ((registry_of ?rows)(p \<mapsto> (c, e, j))) q" for q
    proof (cases "q = p")
      case True
      have "?f r \<in> set (map ?f ?rows)" using r(1) unfolding set_map by (rule imageI)
      moreover have "registry_entry (?f r) = (p, c, e, j)" using r by (simp add: registry_entry_def)
      ultimately have "\<exists>x \<in> set (map ?f ?rows). registry_entry x = (p, c, e, j)" by blast
      with True show ?thesis using registry_of_Some [OF rows'] by auto
    next
      case False
      have "registry_of (map ?f ?rows) q = Some v \<longleftrightarrow> registry_of ?rows q = Some v" for v
        unfolding registry_of_Some [OF rows'] registry_of_Some [OF rows]
        using False by (auto simp: registry_entry_def split: if_splits)
      then have "registry_of (map ?f ?rows) q = registry_of ?rows q" by (rule option_eqI)
      with False show ?thesis by simp
    qed
    then have "registry_of (map ?f ?rows) = (registry_of ?rows)(p \<mapsto> (c, e, j))" by (rule ext)
    moreover from u Some have "sh' = sh\<lparr>sh_rows := map ?f ?rows\<rparr>" "k = c" "was"
      by (simp_all add: upsert_row_def refresh_row_map [OF rows Some])
    ultimately show ?thesis
      using cur by (simp add: spec_put_def)
  qed
qed


definition sample_peer :: peer_descriptor where
  "sample_peer = \<lparr>pd_protocol_version = 2, pd_peer_id = ''A1'', pd_direct_endpoints = [''1.2.3.4:5''],
     pd_libp2p_endpoints = [], pd_public_endpoints = [], pd_tor_endpoints = [], pd_i2p_endpoints = [],
     pd_published_unix_ms = 0\<rparr>"

definition sample_service :: service_env where
  "sample_service = \<lparr>se_mac = \<lparr>mac_hash = id, mac_keyed = (@), mac_text = bytes_str\<rparr>,
     se_register_from_json = \<lambda>_. Some \<lparr>rq_ttl_seconds = 500, rq_descriptor = sample_peer\<rparr>,
     se_descriptor_to_json = \<lambda>d. Some (pd_peer_id d),
     se_descriptor_from_json = \<lambda>s. Some (sample_peer\<lparr>pd_protocol_version := 1, pd_peer_id := s,
       pd_published_unix_ms := 1000\<rparr>)\<rparr>"

definition sample_shard :: shard where
  "sample_shard = shard_new None (\<lambda>_. None)"

lemma sample_shard_ok: "shard_ok sample_shard"
  by (simp add: sample_shard_def shard_new_ok)


section \<open>Discovery\<close>

lemma sorted_rows_strict:
  assumes "rows_ok c rows"
  shows "sorted_wrt (<) (map reg_cookie (sort_key reg_cookie (filter P rows)))"
proof -
  have "distinct (map reg_cookie rows)"
    using assms by (auto simp: rows_ok_def strict_sorted_iff)
  then have "distinct (map reg_cookie (sort_key reg_cookie (filter P rows)))"
    by (auto simp: distinct_map intro: inj_on_subset)
  then show ?thesis by (simp add: strict_sorted_iff)
qed

text \<open>
  Discovery is exact: it returns the registrations that have not expired and lie beyond
  the caller's cursor, oldest cookie first, at most as many as asked for and never more than
  128; a registration is left out only if the page is full of older ones, so a caller that
  continues from the last cookie it was given misses none.
\<close>

theorem discover_page_exact:
  assumes "shard_ok sh" and n: "n = unat (clamp 1 max_discover_limit
      (case dq_limit q of Some l \<Rightarrow> l | None \<Rightarrow> default_discover_limit))"
  shows "\<exists>page c. answer_discover env now q after sh = (shard_cleanup now sh, Inr (plain_response 200
        (Body_Discover \<lparr>dr_cookie = c, dr_records = List.map_filter (record_of_row env) page\<rparr>))) \<and>
    length page \<le> n \<and> n \<le> 128 \<and> sorted_wrt (<) (map reg_cookie page) \<and>
    set page \<subseteq> {r \<in> set (sh_rows sh). now < reg_expires r \<and> after < reg_cookie r} \<and>
    (\<forall>r \<in> set (sh_rows sh). now < reg_expires r \<longrightarrow> after < reg_cookie r \<longrightarrow> r \<notin> set page \<longrightarrow>
       length page = n \<and> (\<forall>s \<in> set page. reg_cookie s < reg_cookie r))"
proof -
  let ?rows = "sh_rows (shard_cleanup now sh)"
  let ?all = "sort_key reg_cookie (filter (\<lambda>r. now < reg_expires r \<and> after < reg_cookie r) ?rows)"
  let ?page = "take n ?all"
  have rows: "rows_ok (sh_last_cookie sh) ?rows"
    using shard_cleanup_ok [OF assms(1)] by (simp add: shard_ok_def)
  have sorted: "sorted_wrt (<) (map reg_cookie ?all)" by (rule sorted_rows_strict [OF rows])
  have all: "set ?all = {r \<in> set (sh_rows sh). now < reg_expires r \<and> after < reg_cookie r}"
    by (auto simp: shard_cleanup_def)
  have "clamp 1 max_discover_limit x \<le> (128 :: u32)" for x
    using clamp_bounds [of 1 "128 :: u32" x] by (simp add: max_discover_limit_def)
  then have "unat (clamp 1 max_discover_limit x) \<le> unat (128 :: u32)" for x
    unfolding word_le_nat_alt .
  then have "n \<le> 128" unfolding n by simp
  moreover have "answer_discover env now q after sh = (shard_cleanup now sh, Inr (plain_response 200
        (Body_Discover \<lparr>dr_cookie = of_int (latest_cookie now ?rows),
           dr_records = List.map_filter (record_of_row env) ?page\<rparr>)))"
    by (simp add: answer_discover_def Let_def select_rows_def n)
  moreover have "sorted_wrt (<) (map reg_cookie ?page)"
    using sorted by (simp add: take_map [symmetric] sorted_wrt_take)
  moreover have "set ?page \<subseteq> set ?all" by (rule set_take_subset)
  moreover have "length ?page = n \<and> (\<forall>s \<in> set ?page. reg_cookie s < reg_cookie r)"
    if "r \<in> set ?all" "r \<notin> set ?page" for r
  proof -
    have "r \<in> set (drop n ?all)"
      using that by (metis Un_iff append_take_drop_id set_append)
    then have r: "reg_cookie r \<in> set (map reg_cookie (drop n ?all))" and "drop n ?all \<noteq> []" by auto
    then have "n < length ?all" using drop_all not_le_imp_less by blast
    then have len: "length ?page = n" by simp
    have "sorted_wrt (<) (map reg_cookie ?page @ map reg_cookie (drop n ?all))"
      using sorted unfolding map_append [symmetric] append_take_drop_id .
    then have "x < reg_cookie r" if "x \<in> set (map reg_cookie ?page)" for x
      using r that unfolding sorted_wrt_append by blast
    with len show ?thesis unfolding set_map by blast
  qed
  ultimately show ?thesis
    unfolding all by (intro exI [of _ ?page] exI conjI) auto
qed

lemma discover_page_exact_witness:
  "\<exists>page c. answer_discover sample_service 5 \<lparr>dq_after_cookie = None, dq_limit = Some 500\<rparr> 0 sample_shard =
     (shard_cleanup 5 sample_shard, Inr (plain_response 200
        (Body_Discover \<lparr>dr_cookie = c, dr_records = List.map_filter (record_of_row sample_service) page\<rparr>))) \<and>
     length page \<le> 128"
  using discover_page_exact [OF sample_shard_ok refl, where env = sample_service and now = 5 and after = 0
      and q = "\<lparr>dq_after_cookie = None, dq_limit = Some 500\<rparr>"]
  by (auto dest: le_trans)

lemma page_complete:
  assumes "shard_ok sh" "answer_discover env now q after sh = (sh', Inr rp)"
    and "length (sh_rows sh) \<le> unat (clamp 1 max_discover_limit
      (case dq_limit q of Some l \<Rightarrow> l | None \<Rightarrow> default_discover_limit))"
    and r: "r \<in> set (sh_rows sh)" "now < reg_expires r" "after < reg_cookie r"
  shows "\<exists>c page. hp_body rp = Body_Discover \<lparr>dr_cookie = c, dr_records = List.map_filter (record_of_row env) page\<rparr> \<and>
    r \<in> set page"
proof -
  from discover_page_exact [OF assms(1) refl, of env now q after] obtain page c where p:
      "answer_discover env now q after sh = (shard_cleanup now sh, Inr (plain_response 200
        (Body_Discover \<lparr>dr_cookie = c, dr_records = List.map_filter (record_of_row env) page\<rparr>)))"
      "sorted_wrt (<) (map reg_cookie page)" "set page \<subseteq> set (sh_rows sh)"
      "r \<notin> set page \<Longrightarrow> length page = unat (clamp 1 max_discover_limit
        (case dq_limit q of Some l \<Rightarrow> l | None \<Rightarrow> default_discover_limit))"
    using r by blast
  have "r \<in> set page"
  proof (rule ccontr)
    assume out: "r \<notin> set page"
    have "distinct page" using p(2) by (auto simp: strict_sorted_iff distinct_map)
    then have "length page = card (set page)" by (simp add: distinct_card)
    also have "\<dots> < card (set (sh_rows sh))"
      using p(3) r(1) out by (intro psubset_card_mono) auto
    also have "\<dots> \<le> length (sh_rows sh)" by (rule card_length)
    finally show False using p(4) [OF out] assms(3) by simp
  qed
  with p(1) assms(2) show ?thesis by (auto simp: plain_response_def)
qed

lemma stored_is_found:
  assumes "shard_ok sh" and codec: "\<And>d j. se_descriptor_to_json env d = Some j \<Longrightarrow> se_descriptor_from_json env j = Some d"
    and store: "store_registration env now request sh = (sh', Inr rp)"
    and time: "now \<le> later" "later < now + 1000 * max 1 (min (uint (rq_ttl_seconds request)) (uint (sh_max_ttl_secs sh)))"
    and disc: "answer_discover env later q 0 sh' = (sh'', Inr rp')"
    and page: "length (sh_rows sh') \<le> unat (clamp 1 max_discover_limit
      (case dq_limit q of Some l \<Rightarrow> l | None \<Rightarrow> default_discover_limit))"
    and peer: "is_valid_peer_id (pd_peer_id (rq_descriptor request))"
  shows "\<exists>c records rec. hp_body rp' = Body_Discover \<lparr>dr_cookie = c, dr_records = records\<rparr> \<and> rec \<in> set records \<and>
    rr_descriptor rec = (rq_descriptor request)\<lparr>pd_protocol_version := 1, pd_published_unix_ms := of_int now\<rparr>"
proof -
  let ?d = "(rq_descriptor request)\<lparr>pd_protocol_version := descriptor_protocol_version,
      pd_published_unix_ms := of_int now\<rparr>"
  let ?ttl = "clamp_ttl (sh_max_ttl_secs sh) (rq_ttl_seconds request)"
  have "uint (sh_max_ttl_secs sh) \<noteq> 0" using assms(1) by (simp add: shard_ok_def uint_0_iff)
  then have "1 \<le> uint (sh_max_ttl_secs sh)" using uint_ge_0 [of "sh_max_ttl_secs sh"] by linarith
  then have ttl: "?ttl = max 1 (min (uint (rq_ttl_seconds request)) (uint (sh_max_ttl_secs sh)))"
    unfolding clamp_ttl_def clamp_def word_less_def by auto
  from store obtain json k was where j: "se_descriptor_to_json env ?d = Some json"
      "upsert_row (pd_peer_id ?d) (now + ?ttl * 1000) json (shard_cleanup now sh) = (sh', k, was)"
    by (auto simp: store_registration_def Let_def split: option.splits prod.splits)
  note clean = shard_cleanup_ok [OF assms(1), of now]
  have ok': "shard_ok sh'" by (rule upsert_row_ok [OF clean _ j(2)]) (simp add: peer)
  then have rows': "rows_ok (sh_last_cookie sh') (sh_rows sh')" by (simp add: shard_ok_def)
  from registry_upsert [OF clean j(2)] have "registry_of (sh_rows sh') (pd_peer_id ?d) =
      Some (k, now + ?ttl * 1000, json)" by simp
  then obtain r where r: "r \<in> set (sh_rows sh')" "reg_expires r = now + ?ttl * 1000" "reg_json r = json"
    unfolding registry_of_Some [OF rows'] by (auto simp: registry_entry_def)
  have "later < reg_expires r" using time(2) r(2) ttl by simp
  moreover have "0 < reg_cookie r" using rows' r(1) by (simp add: rows_ok_def)
  ultimately obtain c pg where pg: "hp_body rp' =
      Body_Discover \<lparr>dr_cookie = c, dr_records = List.map_filter (record_of_row env) pg\<rparr>" "r \<in> set pg"
    using page_complete [OF ok' disc page r(1)] by blast
  have rec: "record_of_row env r = Some \<lparr>rr_sequence = of_int (reg_cookie r),
      rr_expires_unix_ms = of_int (reg_expires r), rr_descriptor = ?d\<rparr>"
    using codec [OF j(1)] r(3) by (simp add: record_of_row_def)
  then have "\<lparr>rr_sequence = of_int (reg_cookie r), rr_expires_unix_ms = of_int (reg_expires r),
      rr_descriptor = ?d\<rparr> \<in> set (List.map_filter (record_of_row env) pg)"
    using pg(2) by (force simp: List.map_filter_def)
  with pg(1) show ?thesis by (fastforce simp: descriptor_protocol_version_def)
qed

text \<open>
  What is registered is found: from the moment a registration is accepted until its lifetime
  ends, discovery returns the registered descriptor, stamped with the service's time and its own
  schema version, provided the page is large enough for the table.
\<close>

theorem registered_is_discovered:
  assumes "shard_ok sh" and codec: "\<And>d j. se_descriptor_to_json env d = Some j \<Longrightarrow> se_descriptor_from_json env j = Some d"
    and store: "store_registration env now request sh = (sh', Inr rp)"
    and time: "now \<le> later" "later < now + 1000 * max 1 (min (uint (rq_ttl_seconds request)) (uint (sh_max_ttl_secs sh)))"
    and disc: "answer_discover env later q 0 sh' = (sh'', Inr rp')"
    and page: "length (sh_rows sh') \<le> unat (clamp 1 max_discover_limit
      (case dq_limit q of Some l \<Rightarrow> l | None \<Rightarrow> default_discover_limit))"
    and peer: "is_valid_peer_id (pd_peer_id (rq_descriptor request))"
  shows "\<exists>c records rec. hp_body rp' = Body_Discover \<lparr>dr_cookie = c, dr_records = records\<rparr> \<and> rec \<in> set records \<and>
    rr_descriptor rec = (rq_descriptor request)\<lparr>pd_protocol_version := 1, pd_published_unix_ms := of_int now\<rparr>"
  by (rule stored_is_found [OF assms])

definition sample_codec :: service_env where
  "sample_codec = sample_service\<lparr>se_descriptor_to_json :=
       \<lambda>d. if d = sample_peer\<lparr>pd_protocol_version := 1, pd_published_unix_ms := 1000\<rparr> then Some [] else None,
     se_descriptor_from_json :=
       \<lambda>s. Some (sample_peer\<lparr>pd_protocol_version := 1, pd_published_unix_ms := 1000\<rparr>)\<rparr>"

definition sample_request :: register_request where
  "sample_request = \<lparr>rq_ttl_seconds = 500, rq_descriptor = sample_peer\<rparr>"

definition sample_stored :: handled where
  "sample_stored = store_registration sample_codec 1000 sample_request sample_shard"

definition sample_found :: handled where
  "sample_found = answer_discover sample_codec 180999 \<lparr>dq_after_cookie = None, dq_limit = None\<rparr> 0
     (fst sample_stored)"

lemma sample_runs:
  "hp_status (projr (snd sample_stored)) = 201 \<and> \<not> isl (snd sample_stored) \<and> \<not> isl (snd sample_found) \<and>
   length (sh_rows (fst sample_stored)) = 1 \<and> sh_max_ttl_secs sample_shard = 180"
  by code_simp

lemma registered_is_discovered_witness:
  "\<exists>c records rec. hp_body (projr (snd sample_found)) = Body_Discover \<lparr>dr_cookie = c, dr_records = records\<rparr> \<and>
    rec \<in> set records \<and>
    rr_descriptor rec = (rq_descriptor sample_request)\<lparr>pd_protocol_version := 1, pd_published_unix_ms := of_int 1000\<rparr>"
proof (rule registered_is_discovered [OF sample_shard_ok])
  show "se_descriptor_to_json sample_codec d = Some j \<Longrightarrow> se_descriptor_from_json sample_codec j = Some d" for d j
    by (simp add: sample_codec_def split: if_splits)
  show "store_registration sample_codec 1000 sample_request sample_shard =
      (fst sample_stored, Inr (projr (snd sample_stored)))"
    using sample_runs by (simp add: sample_stored_def prod_eq_iff)
  show "answer_discover sample_codec 180999 \<lparr>dq_after_cookie = None, dq_limit = None\<rparr> 0 (fst sample_stored) =
      (fst sample_found, Inr (projr (snd sample_found)))"
    using sample_runs by (simp add: sample_found_def prod_eq_iff)
  show "length (sh_rows (fst sample_stored)) \<le> unat (clamp 1 max_discover_limit
      (case dq_limit \<lparr>dq_after_cookie = None, dq_limit = None\<rparr> of Some l \<Rightarrow> l | None \<Rightarrow> default_discover_limit))"
    using sample_runs by (simp add: clamp_def max_discover_limit_def default_discover_limit_def)
  show "is_valid_peer_id (pd_peer_id (rq_descriptor sample_request))" by code_simp
qed (use sample_runs in \<open>simp_all add: sample_request_def\<close>)

section \<open>Who may change a shard\<close>

lemma reject_Inr [simp]: "reject m st \<noteq> Inr x" by (simp add: reject_def)

definition authentic_hmac :: "mac_suite \<Rightarrow> int \<Rightarrow> shard \<Rightarrow> http_request \<Rightarrow> bytes \<Rightarrow> bool" where
  "authentic_hmac mac now sh req body \<longleftrightarrow>
     (\<exists>token raw timestamp path query.
        sh_auth_token sh = Some token \<and> hr_header req header_timestamp = Inr (Some raw) \<and>
        parse_i64 raw = Some timestamp \<and> \<bar>now - timestamp\<bar> \<le> 300000 \<and> hr_url req = Some (path, query) \<and>
        hr_header req header_signature = Inr (Some (sign_peerline_request mac token timestamp
          (method_str (hr_method req)) (request_path_and_query path query) body)))"

definition authentic_tls :: "shard \<Rightarrow> http_request \<Rightarrow> bool" where
  "authentic_tls sh req \<longleftrightarrow>
     (\<exists>a. hr_tls req = Some a \<and> ta_presented a = ''1'' \<and> eq_ignore_ascii_case (ta_verified a) ''SUCCESS'' \<and>
        (case sh_fingerprints sh of None \<Rightarrow> True
         | Some allowed \<Rightarrow> normalize_cert_fingerprint (ta_fingerprint a) \<in> set allowed))"

lemma verify_hmac_Inr:
  assumes "verify_hmac_request mac now sh req body = Inr ()"
  shows "authentic_hmac mac now sh req body"
proof -
  from assms obtain token raw timestamp signature path query where v:
      "sh_auth_token sh = Some token" "hr_header req header_timestamp = Inr (Some raw)"
      "parse_i64 raw = Some timestamp" "\<not> signature_skew_ms < \<bar>now - timestamp\<bar>"
      "hr_header req header_signature = Inr (Some signature)" "hr_url req = Some (path, query)"
      "verify_peerline_request_signature mac token timestamp (method_str (hr_method req))
         (request_path_and_query path query) body signature"
    unfolding verify_hmac_request_def
    by (auto split: option.splits sum.splits if_splits simp: bind_eq_Some_conv)
  from v(7) have "signature = sign_peerline_request mac token timestamp (method_str (hr_method req))
      (request_path_and_query path query) body"
    by (simp add: verify_peerline_request_signature_def constant_time_eq_iff)
  with v show ?thesis unfolding authentic_hmac_def by (auto simp: signature_skew_ms_def not_less)
qed

lemma verify_tls_Inr:
  "verify_tls_client_auth sh a = Inr () \<Longrightarrow> hr_tls req = Some a \<Longrightarrow> authentic_tls sh req"
  by (auto simp: verify_tls_client_auth_def authentic_tls_def split: if_splits option.splits)

lemma verify_request_Inr:
  assumes "verify_request mac now sh req body = Inr ()"
  shows "authentic_tls sh req \<or> (\<not> sh_require_mtls sh \<and> authentic_hmac mac now sh req body)"
  using assms unfolding verify_request_def and_then_Inr
  by (auto split: option.splits if_splits dest: verify_tls_Inr verify_hmac_Inr)

lemma shard_register_unverified:
  "verify_request (se_mac env) now sh req (hr_body req) \<noteq> Inr () \<Longrightarrow>
   fst (shard_register env now ns req tm sh) = sh"
  by (auto simp: shard_register_def Let_def split: sum.splits bool.splits)

lemma shard_discover_unverified:
  "verify_request (se_mac env) now sh req [] \<noteq> Inr () \<Longrightarrow> fst (shard_discover env now ns req tm sh) = sh"
  by (auto simp: shard_discover_def Let_def split: sum.splits)

lemma shard_unregister_unverified:
  "verify_request (se_mac env) now sh req [] \<noteq> Inr () \<Longrightarrow> fst (shard_unregister env now ns req tm sh) = sh"
  by (auto simp: shard_unregister_def Let_def split: sum.splits)


definition sample_namespace :: string where
  "sample_namespace = replicate 64 (CHR ''a'')"

definition sample_post :: http_request where
  "sample_post = \<lparr>hr_method = Post, hr_path = ''/v1/namespaces/'' @ sample_namespace @ ''/registrations'',
     hr_url = None, hr_pairs = [], hr_discover = None,
     hr_header = \<lambda>h. Inr (if h = ''content-type'' then Some ''application/json''
       else if h = header_version then Some ''1'' else None),
     hr_body = [], hr_tls = Some \<lparr>ta_presented = ''1'', ta_verified = ''success'', ta_fingerprint = []\<rparr>\<rparr>"

lemma sample_post_acts: "sh_last_cookie (fst (shard_fetch sample_service 1000 sample_post sample_shard)) = 1"
  by code_simp


section \<open>The rate limit\<close>

text \<open>Requests of one client, each counted and then followed by the cleanup of its handler.\<close>

fun limited ::
  "string \<Rightarrow> u32 \<Rightarrow> (int \<times> http_request) list \<Rightarrow> shard \<Rightarrow> bool list" where
  "limited ns limit [] sh = []"
| "limited ns limit ((now, req) # es) sh =
     (case enforce_rate_limit now ns req limit sh of
        (sh', Inl e) \<Rightarrow> False # limited ns limit es (shard_cleanup now sh')
      | (sh', Inr ok) \<Rightarrow> ok # limited ns limit es (shard_cleanup now sh'))"

definition counted :: "string \<Rightarrow> int \<Rightarrow> shard \<Rightarrow> int" where
  "counted key w sh = (case map_of (sh_rates sh) key of
     None \<Rightarrow> 0 | Some (w', n) \<Rightarrow> if w' = w then n else 0)"

lemma counted_cleanup:
  assumes "distinct (map fst (sh_rates sh))" "now - now mod rate_window_ms = w"
  shows "counted key w (shard_cleanup now sh) = counted key w sh"
proof -
  have "0 \<le> now mod rate_window_ms" "now mod rate_window_ms < rate_window_ms"
    by (simp_all add: rate_window_ms_def)
  then have keep: "\<not> w < now - rate_window_ms * 2" using assms(2) by (simp add: rate_window_ms_def)
  let ?P = "\<lambda>(k :: string, v, n :: int). \<not> v < now - rate_window_ms * 2"
  have d: "distinct (map fst (filter ?P (sh_rates sh)))"
    using assms(1) by (rule distinct_map_filter)
  have iff: "map_of (filter ?P (sh_rates sh)) key = Some x \<longleftrightarrow>
      map_of (sh_rates sh) key = Some x \<and> ?P (key, x)" for x
    unfolding map_of_eq_Some_iff [OF d] map_of_eq_Some_iff [OF assms(1)] by auto
  show ?thesis
  proof (cases "map_of (sh_rates sh) key")
    case None
    with iff have "map_of (filter ?P (sh_rates sh)) key \<noteq> Some x" for x by simp
    then have "map_of (filter ?P (sh_rates sh)) key = None" by (cases "map_of (filter ?P (sh_rates sh)) key") auto
    with None show ?thesis by (simp add: counted_def shard_cleanup_def)
  next
    case (Some x)
    obtain w' n where x: "x = (w', n)" by (cases x)
    show ?thesis
    proof (cases "w' = w")
      case True
      with iff [of x] Some x keep show ?thesis by (simp add: counted_def shard_cleanup_def)
    next
      case False
      with iff Some x have "\<forall>v n. map_of (filter ?P (sh_rates sh)) key = Some (v, n) \<longrightarrow> v \<noteq> w" by auto
      with Some x False show ?thesis
        by (auto simp: counted_def shard_cleanup_def split: option.splits)
    qed
  qed
qed

definition rate_key :: "string \<Rightarrow> http_request \<Rightarrow> string \<Rightarrow> string" where
  "rate_key ns req ip = ns @ '':'' @ method_str (hr_method req) @ '':'' @ ip"

lemma enforce_counts:
  assumes ip: "client_ip req = Inr ip" and key: "rate_key ns req ip = key"
    and w: "now - now mod rate_window_ms = w" and lim: "uint limit + 1 < 2 ^ 32"
    and ok: "shard_ok sh"
  shows "\<exists>sh'. enforce_rate_limit now ns req limit sh = (sh', Inr (counted key w sh + 1 \<le> uint limit)) \<and>
    shard_ok sh' \<and>
    counted key w sh' = (if uint limit < counted key w sh + 1 then uint limit + 1 else counted key w sh + 1)"
proof -
  let ?m = "uint (saturating_add limit 1)"
  have m: "?m = uint limit + 1"
  proof -
    have "uint limit < 4294967295" using lim by simp
    then have "unat limit < 4294967295" using uint_nat [of limit] by linarith
    then have "unat limit + unat (1 :: u32) < 2 ^ LENGTH(32)" by simp
    then show ?thesis using lim by (simp add: saturating_add_def uint_word_ariths)
  qed
  have nn: "0 \<le> counted key w sh"
  proof (cases "map_of (sh_rates sh) key")
    case (Some x)
    then have "(key, x) \<in> set (sh_rates sh)" by (rule map_of_SomeD)
    with ok Some show ?thesis by (cases x) (auto simp: counted_def shard_ok_def)
  qed (simp add: counted_def)
  obtain rates n where b: "bump_rate key w ?m (sh_rates sh) = (rates, n)" by fastforce
  have pos: "\<not> uint limit + 1 \<le> 0" using uint_ge_0 [of limit] by linarith
  have n: "n = (if uint limit + 1 < counted key w sh + 1 then uint limit + 1 else counted key w sh + 1)"
    using b nn unfolding m bump_rate_def Let_def
    by (auto simp: counted_def dest: notE [OF pos] split: option.splits if_splits)
  have upd: "map_of rates key = Some (w, n)"
    using b by (auto simp: bump_rate_def Let_def update_conv' split: option.splits if_splits)
  have step: "enforce_rate_limit now ns req limit sh = (sh\<lparr>sh_rates := rates\<rparr>, Inr (n \<le> uint limit))"
    using b ip key w by (simp add: enforce_rate_limit_def Let_def rate_key_def)
  from enforce_rate_limit_effect [OF step ok] have "shard_ok (sh\<lparr>sh_rates := rates\<rparr>)" by simp
  moreover have "counted key w (sh\<lparr>sh_rates := rates\<rparr>) = n" using upd by (simp add: counted_def)
  ultimately show ?thesis using step n by (auto split: if_splits)
qed



end
