(* ===== verification/Rendezvous_Link.thy ===== *)
theory Rendezvous_Link
  imports Rendezvous_Guard Rendezvous_Registry
begin

text \<open>
  The rendezvous client and the rendezvous service joined: what the client publishes, a client
  with the same name, code and token discovers. The link between them hands the service exactly
  the method, URL, headers and body of the request and hands back the status and the rendered
  body; the world of the client is the service's shards and the time.
\<close>

record rendezvous_link =
  lk_service :: service_env
  lk_pairs :: "string option \<Rightarrow> (string \<times> string) list"
  lk_query :: "string option \<Rightarrow> discover_request option"
  lk_render :: "response_body \<Rightarrow> bytes"

type_synonym link_world = "(string \<Rightarrow> shard) \<times> int"

definition incoming :: "'u url_api \<Rightarrow> rendezvous_link \<Rightarrow> 'u outgoing \<Rightarrow> http_request" where
  "incoming ua lk o' = \<lparr>hr_method =
       (if og_method o' = ''GET'' then Get else if og_method o' = ''POST'' then Post
        else if og_method o' = ''DELETE'' then Delete else OtherMethod (og_method o')),
     hr_path = ua_path ua (og_url o'), hr_url = Some (ua_path ua (og_url o'), ua_query ua (og_url o')),
     hr_pairs = lk_pairs lk (ua_query ua (og_url o')), hr_discover = lk_query lk (ua_query ua (og_url o')),
     hr_header = \<lambda>h. Inr (map_of (og_headers o') h), hr_body = og_body o', hr_tls = None\<rparr>"

definition link_send ::
  "'u url_api \<Rightarrow> rendezvous_link \<Rightarrow> http_client \<Rightarrow> 'u outgoing \<Rightarrow> link_world \<Rightarrow> link_world \<times> (unit + client_reply)" where
  "link_send ua lk c o' w =
     (case service_main (lk_service lk) None (snd w) (incoming ua lk o') (fst w) of
        (shards, Inl _) \<Rightarrow> ((shards, snd w), Inr \<lparr>cr_status = 500, cr_body = []\<rparr>)
      | (shards, Inr rp) \<Rightarrow>
          ((shards, snd w), Inr \<lparr>cr_status = hp_status rp, cr_body = lk_render lk (hp_body rp)\<rparr>))"

section \<open>What the service reads in a client's request\<close>

lemma all_digits_dec: "all_digits (dec_str n)"
  using dec_str_digits by (simp add: all_digits_def)

lemma parse_i64_int_str:
  assumes "0 \<le> n" "n < 2 ^ 63"
  shows "parse_i64 (int_str n) = Some n"
proof -
  obtain c r where s: "dec_str (nat n) = c # r" using dec_str_nonempty by (cases "dec_str (nat n)") auto
  with dec_str_digits [of "nat n"] have "is_digit c" by simp
  then have c: "c \<noteq> CHR ''-''" "c \<noteq> CHR ''+''" by (auto simp: is_digit_def code_def)
  have "digits_below (2 ^ 63) (dec_str (nat n)) = Some (nat n)"
    using assms by (simp add: digits_below_def all_digits_dec nat_less_iff)
  with s c assms show ?thesis by (simp add: parse_i64_def int_str_def)
qed

lemma hex_no_slash: "is_hex_lower c \<Longrightarrow> c \<noteq> CHR ''/''"
  by (auto simp: is_hex_lower_def is_digit_def code_def)

lemma namespace_of_path:
  assumes "\<forall>c \<in> set ns. is_hex_lower c"
  shows "namespace_from_path (''/v1/namespaces/'' @ ns @ ''/registrations'') = Some ns"
proof -
  have no: "\<forall>c \<in> set ns. \<not> c = CHR ''/''" using assms hex_no_slash by blast
  have t: "trim_matches (CHR ''/'') (''/v1/namespaces/'' @ ns @ ''/registrations'') =
      ''v1/namespaces/'' @ ns @ ''/registrations''"
    by (simp add: trim_matches_def)
  have r1: "split_on (\<lambda>c. c = CHR ''/'') (ns @ ''/registrations'') =
      [ns, ''registrations'']"
    using split_on_append_sep [OF no, of "CHR ''/''" "''registrations''"] by simp
  have r2: "split_on (\<lambda>c. c = CHR ''/'') (''v1'' @ CHR ''/'' # (''namespaces'' @ CHR ''/'' # r)) =
      ''v1'' # ''namespaces'' # split_on (\<lambda>c. c = CHR ''/'') r" for r
    by (subst split_on_append_sep, simp, simp, subst split_on_append_sep, simp, simp, rule refl)
  have r3: "''v1/namespaces/'' @ ns @ ''/registrations'' =
      ''v1'' @ CHR ''/'' # (''namespaces'' @ CHR ''/'' # (ns @ ''/registrations''))" by simp
  have segments: "split_on (\<lambda>c. c = CHR ''/'') (''v1/namespaces/'' @ ns @ ''/registrations'') =
      [''v1'', ''namespaces'', ns, ''registrations'']"
    unfolding r3 r2 r1 ..
  show ?thesis unfolding namespace_from_path_def t segments by simp
qed

lemma namespace_valid:
  assumes "\<And>x. length (blake3 x) = 32"
  shows "is_valid_namespace (rendezvous_namespace blake3 argon name hcode) \<and>
    (\<forall>c \<in> set (rendezvous_namespace blake3 argon name hcode). is_hex_lower c)"
proof -
  have "is_hex_lower c \<Longrightarrow> is_digit c \<or> 97 \<le> code c \<and> code c \<le> 102" for c
    by (auto simp: is_hex_lower_def is_digit_def)
  then show ?thesis
    using hex_str_chars assms
    by (auto simp: rendezvous_namespace_def lookup_key_hex_def is_valid_namespace_def nc_lookup_key_def
        derive_lookup_key_def Let_def)
qed

lemma telemetry_known:
  assumes "\<And>h. \<exists>v. hr_header req h = Inr v"
  shows "\<exists>tm. telemetry_from_request req now = Inr tm"
proof -
  have "\<exists>i. first_request_id req hs now = Inr i" for hs
  proof (induction hs)
    case Nil
    then show ?case by simp
  next
    case (Cons h hs)
    from assms [of h] obtain v where "hr_header req h = Inr v" ..
    with Cons show ?case by (auto split: option.splits)
  qed
  then show ?thesis unfolding telemetry_from_request_def request_id_def by (metis and_then.simps(2))
qed

lemma signed_headers:
  assumes "rc_auth_token cfg = Some token"
  shows "map_of (og_headers (signed_request ce cfg now meth u body)) header_version = Some (ce_version ce)"
    and "map_of (og_headers (signed_request ce cfg now meth u body)) header_timestamp = Some (int_str now)"
    and "map_of (og_headers (signed_request ce cfg now meth u body)) header_signature =
      Some (sign_peerline_request (ce_mac ce) token now meth (url_request_path (ce_url ce) u) body)"
  by (simp_all add: signed_request_def assms header_version_def header_timestamp_def header_signature_def)

lemma signed_request_accepted:
  fixes ce :: "('u, 'w) client_env"
  assumes "rc_auth_token cfg = Some token" "sh_auth_token sh = Some token" "\<not> sh_require_mtls sh"
    and "trim (ce_version ce) \<noteq> []" "0 \<le> now" "now < 2 ^ 63"
    and meth: "meth \<in> {''GET'', ''POST'', ''DELETE''}"
  shows "verify_request (ce_mac ce) now sh (incoming (ce_url ce) lk (signed_request ce cfg now meth u body)) body =
    Inr ()"
proof -
  let ?req = "incoming (ce_url ce) lk (signed_request ce cfg now meth u body)"
  have h: "hr_header ?req header_version = Inr (Some (ce_version ce))"
      "hr_header ?req header_timestamp = Inr (Some (int_str now))"
      "hr_header ?req header_signature = Inr (Some
        (sign_peerline_request (ce_mac ce) token now meth (url_request_path (ce_url ce) u) body))"
    unfolding incoming_def using signed_headers [OF assms(1), of ce now meth u body] by simp_all
  have m: "method_str (hr_method ?req) = meth"
    using meth by (auto simp: incoming_def signed_request_def)
  have u: "hr_url ?req = Some (ua_path (ce_url ce) u, ua_query (ce_url ce) u)" "hr_tls ?req = None"
    by (simp_all add: incoming_def signed_request_def)
  have "verify_peerline_request_signature (ce_mac ce) token now meth (url_request_path (ce_url ce) u) body s \<longleftrightarrow>
      s = sign_peerline_request (ce_mac ce) token now meth (url_request_path (ce_url ce) u) body" for s
    by (rule signature_accepted_iff)
  then have "verify_hmac_request (ce_mac ce) now sh ?req body = Inr ()"
    unfolding verify_hmac_request_def
    using assms(2) h m u(1) parse_i64_int_str [OF assms(5,6)]
    by (simp add: signature_skew_ms_def url_request_path_def)
  moreover have "verify_peerline_version ?req = Inr ()"
    using h(1) assms(4) by (simp add: verify_peerline_version_def)
  ultimately show ?thesis using assms(3) u(2) by (simp add: verify_request_def)
qed

section \<open>One request through the edge to its shard\<close>

lemma with_headers_sel [simp]:
  "hp_status (with_observability_headers now tm rp) = hp_status rp"
  "hp_body (with_observability_headers now tm rp) = hp_body rp"
  by (simp_all add: with_observability_headers_def)

definition registrations_path :: "string \<Rightarrow> string" where
  "registrations_path ns = ''/v1/namespaces/'' @ ns @ ''/registrations''"

lemma service_main_reaches_shard:
  assumes headers: "\<And>h. \<exists>v. hr_header req h = Inr v" and path: "hr_path req = registrations_path ns"
    and ns: "is_valid_namespace ns" "\<forall>c \<in> set ns. is_hex_lower c"
    and meth: "hr_method req \<in> {Get, Post, Delete}"
    and fetch: "shard_fetch senv now req (shards ns) = (sh', Inr rp)"
  shows "\<exists>rp'. service_main senv None now req shards = (shards(ns := sh'), Inr rp') \<and>
    hp_status rp' = hp_status rp \<and> hp_body rp' = hp_body rp"
proof -
  obtain tm where tm: "telemetry_from_request req now = Inr tm" using telemetry_known [OF headers] by blast
  have n: "namespace_from_path (hr_path req) = Some ns"
    unfolding path registrations_path_def by (rule namespace_of_path [OF ns(2)])
  have "hr_path req \<noteq> ''/healthz''" unfolding path registrations_path_def by simp
  then have "service_main senv None now req shards =
      (shards(ns := sh'), Inr (with_observability_headers now tm rp))"
    using tm n ns(1) meth fetch by (simp add: service_main_def Let_def)
  then show ?thesis by simp
qed

lemma allowed_once:
  assumes "shard_ok sh" "client_ip req = Inr ip" "uint limit + 1 < 2 ^ 32"
    and "counted (rate_key ns req ip) (now - now mod rate_window_ms) sh < uint limit"
  shows "\<exists>sh1. enforce_rate_limit now ns req limit sh = (sh1, Inr True) \<and> shard_ok sh1 \<and>
    sh_rows sh1 = sh_rows sh \<and> sh_max_ttl_secs sh1 = sh_max_ttl_secs sh"
proof -
  from enforce_counts [OF assms(2) refl refl assms(3,1), where ns = ns and now = now] obtain sh1 where e:
      "enforce_rate_limit now ns req limit sh =
        (sh1, Inr (counted (rate_key ns req ip) (now - now mod rate_window_ms) sh + 1 \<le> uint limit))"
      "shard_ok sh1" by blast
  moreover have "sh_max_ttl_secs sh1 = sh_max_ttl_secs sh"
    using e(1) assms(2) by (auto simp: enforce_rate_limit_def Let_def split: prod.splits)
  ultimately show ?thesis
    using enforce_rate_limit_effect [OF e(1) assms(1)] assms(4) by auto
qed

lemma incoming_sel:
  "hr_path (incoming ua lk (signed_request ce cfg now meth u body)) = ua_path ua u"
  "hr_discover (incoming ua lk (signed_request ce cfg now meth u body)) = lk_query lk (ua_query ua u)"
  "\<exists>v. hr_header (incoming ua lk o') h = Inr v"
  "hr_body (incoming ua lk (signed_request ce cfg now ''POST'' u body)) = body"
  "hr_method (incoming ua lk (signed_request ce cfg now ''POST'' u body)) = Post"
  "hr_method (incoming ua lk (signed_request ce cfg now ''GET'' u body)) = Get"
  by (simp_all add: incoming_def signed_request_def)

lemma incoming_ip: "client_ip (incoming ua lk (signed_request ce cfg now meth u body)) = Inr ''unknown''"
  by (simp add: client_ip_def incoming_def signed_request_def header_version_def header_timestamp_def
      header_signature_def split: option.splits)

lemma incoming_json: "is_json_request (incoming ua lk (signed_request ce cfg now ''POST'' u body)) = Inr True"
proof -
  have "is_json_content_type ''application/json''" by code_simp
  then show ?thesis by (simp add: is_json_request_def incoming_def signed_request_def)
qed

lemma upsert_keeps:
  "upsert_row p e j sh = (sh', k, was) \<Longrightarrow> sh_schema_error sh' = sh_schema_error sh \<and>
     sh_auth_token sh' = sh_auth_token sh \<and> sh_require_mtls sh' = sh_require_mtls sh"
  by (auto simp: upsert_row_def Let_def split: option.splits)

lemma store_registration_keeps:
  "store_registration env now request sh = (sh', r) \<Longrightarrow> sh_schema_error sh' = sh_schema_error sh \<and>
     sh_auth_token sh' = sh_auth_token sh \<and> sh_require_mtls sh' = sh_require_mtls sh"
  by (auto simp: store_registration_def Let_def shard_cleanup_def dest!: upsert_keeps split: option.splits prod.splits)

lemma enforce_keeps:
  "enforce_rate_limit now ns req limit sh = (sh', r) \<Longrightarrow> sh_schema_error sh' = sh_schema_error sh \<and>
     sh_auth_token sh' = sh_auth_token sh \<and> sh_require_mtls sh' = sh_require_mtls sh"
  by (auto simp: enforce_rate_limit_def Let_def split: sum.splits prod.splits)

text \<open>The state of a shard that serves the holder of a token.\<close>

definition serves :: "string \<Rightarrow> shard \<Rightarrow> bool" where
  "serves token sh \<longleftrightarrow> shard_ok sh \<and> sh_schema_error sh = None \<and> sh_auth_token sh = Some token \<and>
     \<not> sh_require_mtls sh"

lemma register_served:
  fixes ce :: "('u, 'w) client_env"
  assumes sh: "serves token sh" "counted (ns @ '':POST:unknown'') (now - now mod rate_window_ms) sh < 30"
    and client: "rc_auth_token cfg = Some token" "trim (ce_version ce) \<noteq> []" "se_mac senv = ce_mac ce"
    and time: "0 \<le> now" "now < 2 ^ 63"
    and path: "ua_path (ce_url ce) u = registrations_path ns"
    and ns: "is_valid_namespace ns" "\<forall>c \<in> set ns. is_hex_lower c"
    and body: "length body \<le> max_request_bytes" "se_register_from_json senv body = Some request"
    and d: "validate_descriptor (rq_descriptor request) = Inr ()"
  shows "\<exists>sh1. shard_fetch senv now (incoming (ce_url ce) lk (signed_request ce cfg now ''POST'' u body)) sh =
      store_registration senv now request sh1 \<and>
    serves token sh1 \<and> sh_max_ttl_secs sh1 = sh_max_ttl_secs sh"
proof -
  let ?req = "incoming (ce_url ce) lk (signed_request ce cfg now ''POST'' u body)"
  obtain tm where tm: "telemetry_from_request ?req now = Inr tm"
    using telemetry_known incoming_sel(3) by blast
  have n: "namespace_from_path (hr_path ?req) = Some ns"
    unfolding incoming_sel(1) path registrations_path_def by (rule namespace_of_path [OF ns(2)])
  have v: "verify_request (se_mac senv) now sh ?req body = Inr ()"
    unfolding client(3)
    using sh(1) by (intro signed_request_accepted [OF client(1) _ _ client(2) time]) (simp_all add: serves_def)
  have "rate_key ns ?req ''unknown'' = ns @ '':POST:unknown''"
    by (simp add: rate_key_def incoming_sel(5))
  then have "counted (rate_key ns ?req ''unknown'') (now - now mod rate_window_ms) sh < uint register_rate_limit"
    using sh(2) by (simp add: register_rate_limit_def)
  from allowed_once [OF _ incoming_ip _ this] sh(1) obtain sh1 where e: "enforce_rate_limit now ns ?req register_rate_limit sh = (sh1, Inr True)"
      "shard_ok sh1" "sh_rows sh1 = sh_rows sh" "sh_max_ttl_secs sh1 = sh_max_ttl_secs sh"
    by (auto simp: serves_def register_rate_limit_def)
  have "shard_fetch senv now ?req sh = store_registration senv now request sh1"
    using sh(1) tm n ns(1) v e(1) body d
    by (simp add: shard_fetch_def Let_def shard_register_def incoming_sel(4,5) incoming_json serves_def)
  moreover have "serves token sh1"
    using e(2) enforce_keeps [OF e(1)] sh(1) by (simp add: serves_def)
  ultimately show ?thesis using e(4) by blast
qed

lemma discover_served:
  fixes ce :: "('u, 'w) client_env"
  assumes sh: "serves token sh" "counted (ns @ '':GET:unknown'') (now - now mod rate_window_ms) sh < 120"
    and client: "rc_auth_token cfg = Some token" "trim (ce_version ce) \<noteq> []" "se_mac senv = ce_mac ce"
    and time: "0 \<le> now" "now < 2 ^ 63"
    and path: "ua_path (ce_url ce) u = registrations_path ns"
    and ns: "is_valid_namespace ns" "\<forall>c \<in> set ns. is_hex_lower c"
    and query: "lk_query lk (ua_query (ce_url ce) u) = Some \<lparr>dq_after_cookie = None, dq_limit = None\<rparr>"
  shows "\<exists>sh1. shard_fetch senv now (incoming (ce_url ce) lk (signed_request ce cfg now ''GET'' u [])) sh =
      answer_discover senv now \<lparr>dq_after_cookie = None, dq_limit = None\<rparr> 0 sh1 \<and> sh_rows sh1 = sh_rows sh"
proof -
  let ?req = "incoming (ce_url ce) lk (signed_request ce cfg now ''GET'' u [])"
  obtain tm where tm: "telemetry_from_request ?req now = Inr tm"
    using telemetry_known incoming_sel(3) by blast
  have n: "namespace_from_path (hr_path ?req) = Some ns"
    unfolding incoming_sel(1) path registrations_path_def by (rule namespace_of_path [OF ns(2)])
  have v: "verify_request (se_mac senv) now sh ?req [] = Inr ()"
    unfolding client(3)
    using sh(1) by (intro signed_request_accepted [OF client(1) _ _ client(2) time]) (simp_all add: serves_def)
  have "rate_key ns ?req ''unknown'' = ns @ '':GET:unknown''"
    by (simp add: rate_key_def incoming_sel(6))
  then have "counted (rate_key ns ?req ''unknown'') (now - now mod rate_window_ms) sh < uint discover_rate_limit"
    using sh(2) by (simp add: discover_rate_limit_def)
  from allowed_once [OF _ incoming_ip _ this] sh(1) obtain sh1 where e: "enforce_rate_limit now ns ?req discover_rate_limit sh = (sh1, Inr True)"
      "sh_rows sh1 = sh_rows sh"
    by (auto simp: serves_def discover_rate_limit_def)
  have "shard_fetch senv now ?req sh = answer_discover senv now \<lparr>dq_after_cookie = None, dq_limit = None\<rparr> 0 sh1"
    using sh(1) tm n ns(1) v e(1) query
    by (simp add: shard_fetch_def Let_def shard_discover_def incoming_sel(2,6) serves_def sqlite_cookie_def)
  with e show ?thesis by blast
qed

section \<open>Publishing and discovering\<close>

lemma dedup_by_covers:
  assumes "sorted_wrt (\<lambda>a b. k b \<le> (k a :: 'k :: order)) xs" "x \<in> set xs"
  shows "\<exists>y \<in> set (dedup_by (\<lambda>l r. f l = f r) xs). f y = f x \<and> k x \<le> k y"
  using assms
proof (induction "\<lambda>l r. f l = f r" xs arbitrary: x rule: dedup_by.induct)
  case 1
  then show ?case by simp
next
  case (2 x')
  then show ?case by simp
next
  case (3 a b rest)
  show ?case
  proof (cases "f b = f a")
    case True
    have s: "sorted_wrt (\<lambda>a b. k b \<le> k a) (a # rest)" using 3(3) by simp
    note IH = 3(1) [OF True s]
    from IH [of a] obtain y where y: "y \<in> set (dedup_by (\<lambda>l r. f l = f r) (a # rest))" "f y = f a" "k a \<le> k y"
      by auto
    have "k b \<le> k a" using 3(3) by simp
    then have kb: "k b \<le> k y" using y(3) by (rule order_trans)
    have "\<exists>y \<in> set (dedup_by (\<lambda>l r. f l = f r) (a # rest)). f y = f x \<and> k x \<le> k y"
    proof (cases "x = b")
      case eq: True
      show ?thesis unfolding eq using y True kb by (intro bexI [of _ y]) simp_all
    next
      case False
      then have "x \<in> set (a # rest)" using 3(4) by auto
      then show ?thesis by (rule IH)
    qed
    with True show ?thesis by simp
  next
    case False
    have s: "sorted_wrt (\<lambda>a b. k b \<le> k a) (b # rest)" using 3(3) by simp
    show ?thesis
    proof (cases "x = a")
      case True
      with False show ?thesis by auto
    next
      case ne: False
      then have "x \<in> set (b # rest)" using 3(4) by simp
      from 3(2) [OF False s this] False show ?thesis by auto
    qed
  qed
qed

lemma newest_first_covers:
  assumes "d \<in> set ds"
  shows "\<exists>x \<in> set (newest_first ds). pd_peer_id x = pd_peer_id d \<and> descriptor_key d \<le> descriptor_key x"
proof -
  have "sorted_wrt (\<lambda>a b. descriptor_key b \<le> descriptor_key a) (rev (sort_key descriptor_key ds))"
    unfolding sorted_wrt_rev using sorted_sort_key [of descriptor_key ds] by (simp add: sorted_map)
  from dedup_by_covers [OF this, of d pd_peer_id] assms show ?thesis by (simp add: newest_first_def)
qed

lemma store_registration_answer:
  assumes "se_descriptor_to_json env ((rq_descriptor request)\<lparr>pd_protocol_version := descriptor_protocol_version,
      pd_published_unix_ms := of_int now\<rparr>) \<noteq> None"
  shows "\<exists>sh' rp. store_registration env now request sh = (sh', Inr rp) \<and> hp_status rp \<in> {200, 201}"
  using assms by (auto simp: store_registration_def Let_def plain_response_def split: prod.splits)

lemma answer_discover_rows:
  "sh_rows sh = sh_rows sh' \<Longrightarrow> snd (answer_discover env now q a sh) = snd (answer_discover env now q a sh')"
  by (simp add: answer_discover_def Let_def shard_cleanup_def)

text \<open>What the two ends of a link agree on.\<close>

definition linked ::
  "('u, link_world) client_env \<Rightarrow> rendezvous_link \<Rightarrow> string \<Rightarrow> 'u \<Rightarrow> 'u \<Rightarrow> string \<Rightarrow> bool" where
  "linked ce lk token u v ns \<longleftrightarrow>
     ce_send ce = link_send (ce_url ce) lk \<and> ce_now ce = snd \<and> se_mac (lk_service lk) = ce_mac ce \<and>
     trim (ce_version ce) \<noteq> [] \<and> is_valid_namespace ns \<and> (\<forall>c \<in> set ns. is_hex_lower c) \<and>
     ua_join (ce_url ce) u (registrations_path ns) = Some v \<and> ua_path (ce_url ce) v = registrations_path ns \<and>
     lk_query lk (ua_query (ce_url ce) v) = Some \<lparr>dq_after_cookie = None, dq_limit = None\<rparr>"

lemma link_post:
  fixes ce :: "('u, link_world) client_env"
  assumes l: "linked ce lk token u v ns" "serves token (shards ns)"
      "counted (ns @ '':POST:unknown'') (now - now mod rate_window_ms) (shards ns) < 30"
    and cfg: "rc_auth_token cfg = Some token" and time: "0 \<le> now" "now < 2 ^ 63"
    and body: "length body \<le> max_request_bytes" "se_register_from_json (lk_service lk) body = Some request"
    and d: "validate_descriptor (rq_descriptor request) = Inr ()"
    and json: "se_descriptor_to_json (lk_service lk) ((rq_descriptor request)\<lparr>pd_protocol_version :=
      descriptor_protocol_version, pd_published_unix_ms := of_int now\<rparr>) \<noteq> None"
  shows "\<exists>sh1 sh' rp0 rp. store_registration (lk_service lk) now request sh1 = (sh', Inr rp0) \<and>
    serves token sh1 \<and> sh_max_ttl_secs sh1 = sh_max_ttl_secs (shards ns) \<and>
    ce_send ce c (signed_request ce cfg (ce_now ce (shards, now)) ''POST'' v body) (shards, now) =
      ((shards(ns := sh'), now), Inr rp) \<and> is_success rp"
proof -
  let ?o = "signed_request ce cfg now ''POST'' v body"
  from l(1) have n: "is_valid_namespace ns" "\<forall>c \<in> set ns. is_hex_lower c" "hr_path (incoming (ce_url ce) lk ?o) = registrations_path ns"
    by (simp_all add: linked_def incoming_sel)
  obtain sh1 where s1: "shard_fetch (lk_service lk) now (incoming (ce_url ce) lk ?o) (shards ns) =
      store_registration (lk_service lk) now request sh1" "serves token sh1"
      "sh_max_ttl_secs sh1 = sh_max_ttl_secs (shards ns)"
    using register_served [OF l(2,3) cfg _ _ time _ n(1,2) body d, where ce = ce and u = v and lk = lk] l(1) by (auto simp: linked_def)
  obtain sh' rp0 where st: "store_registration (lk_service lk) now request sh1 = (sh', Inr rp0)"
      "hp_status rp0 \<in> {200, 201}"
    using store_registration_answer [OF json] by blast
  obtain rp where m: "service_main (lk_service lk) None now (incoming (ce_url ce) lk ?o) shards =
      (shards(ns := sh'), Inr rp)" "hp_status rp = hp_status rp0"
    using service_main_reaches_shard [where shards = shards and ns = ns, OF incoming_sel(3) n(3,1,2) _ s1(1) [unfolded st(1)]]
    by (auto simp: incoming_sel)
  have "ce_send ce c ?o (shards, now) = ((shards(ns := sh'), now),
      Inr \<lparr>cr_status = hp_status rp, cr_body = lk_render lk (hp_body rp)\<rparr>)"
    using l(1) m(1) by (simp add: linked_def link_send_def)
  moreover have "is_success \<lparr>cr_status = hp_status rp, cr_body = lk_render lk (hp_body rp)\<rparr>"
    using m(2) st(2) by (auto simp: is_success_def)
  moreover have "ce_now ce (shards, now) = now" using l(1) by (simp add: linked_def)
  ultimately show ?thesis using st(1) s1(2,3) by auto
qed

lemma link_get:
  fixes ce :: "('u, link_world) client_env"
  assumes l: "linked ce lk token u v ns" "serves token (shards ns)"
      "counted (ns @ '':GET:unknown'') (now - now mod rate_window_ms) (shards ns) < 120"
    and cfg: "rc_auth_token cfg = Some token" and time: "0 \<le> now" "now < 2 ^ 63"
  shows "\<exists>sh' rp shards'. answer_discover (lk_service lk) now \<lparr>dq_after_cookie = None, dq_limit = None\<rparr> 0 (shards ns) =
      (sh', Inr rp) \<and>
    ce_send ce c (signed_request ce cfg (ce_now ce (shards, now)) ''GET'' v []) (shards, now) =
      ((shards', now), Inr \<lparr>cr_status = 200, cr_body = lk_render lk (hp_body rp)\<rparr>)"
proof -
  let ?o = "signed_request ce cfg now ''GET'' v []"
  let ?q = "\<lparr>dq_after_cookie = None, dq_limit = None\<rparr>"
  from l(1) have n: "is_valid_namespace ns" "\<forall>c \<in> set ns. is_hex_lower c" "hr_path (incoming (ce_url ce) lk ?o) = registrations_path ns"
    by (simp_all add: linked_def incoming_sel)
  obtain sh1 where s1: "shard_fetch (lk_service lk) now (incoming (ce_url ce) lk ?o) (shards ns) =
      answer_discover (lk_service lk) now ?q 0 sh1" "sh_rows sh1 = sh_rows (shards ns)"
    using discover_served [OF l(2,3) cfg _ _ time _ n(1,2), where ce = ce and u = v and lk = lk and senv = "lk_service lk"] l(1) by (auto simp: linked_def)
  obtain sh' rp where a: "answer_discover (lk_service lk) now ?q 0 (shards ns) = (sh', Inr rp)" "hp_status rp = 200"
    by (auto simp: answer_discover_def Let_def plain_response_def)
  obtain sh'' where a': "answer_discover (lk_service lk) now ?q 0 sh1 = (sh'', Inr rp)"
    using answer_discover_rows [OF s1(2), of "lk_service lk" now ?q 0] a(1)
    by (cases "answer_discover (lk_service lk) now ?q 0 sh1") simp
  obtain rp' where m: "service_main (lk_service lk) None now (incoming (ce_url ce) lk ?o) shards =
      (shards(ns := sh''), Inr rp')" "hp_status rp' = hp_status rp" "hp_body rp' = hp_body rp"
    using service_main_reaches_shard [where shards = shards and ns = ns, OF incoming_sel(3) n(3,1,2) _ s1(1) [unfolded a']]
    by (auto simp: incoming_sel)
  have "ce_send ce c ?o (shards, now) = ((shards(ns := sh''), now),
      Inr \<lparr>cr_status = 200, cr_body = lk_render lk (hp_body rp)\<rparr>)"
    using l(1) m a(2) by (simp add: linked_def link_send_def)
  moreover have "ce_now ce (shards, now) = now" using l(1) by (simp add: linked_def)
  ultimately show ?thesis using a(1) by auto
qed

lemma linked_namespace_url:
  "linked ce lk token u v ns \<Longrightarrow> namespace_url (ce_url ce) u ns = Inr v"
  by (simp add: linked_def namespace_url_def registrations_path_def)

definition published_world ::
  "('u, link_world) client_env \<Rightarrow> human_name \<Rightarrow> human_code \<Rightarrow> peer_descriptor \<Rightarrow> 'u rendezvous_config \<Rightarrow>
   link_world \<Rightarrow> link_world" where
  "published_world ce name hcode d cfg w = fst (publish_peer_descriptor ce name hcode d cfg w)"


section \<open>A concrete exchange\<close>

definition demo_service :: service_env where
  "demo_service = sample_codec\<lparr>se_mac := \<lparr>mac_hash = id, mac_keyed = (@), mac_text = \<lambda>b. dec_str (length b)\<rparr>\<rparr>"

definition demo_link :: rendezvous_link where
  "demo_link = \<lparr>lk_service = demo_service, lk_pairs = \<lambda>_. [],
     lk_query = \<lambda>_. Some \<lparr>dq_after_cookie = None, dq_limit = None\<rparr>, lk_render = \<lambda>_. []\<rparr>"

definition demo_url :: "string url_api" where
  "demo_url = \<lparr>ua_parse = Some, ua_scheme = \<lambda>_. ''http'', ua_host = \<lambda>_. None, ua_port = \<lambda>_. None, ua_path = id,
     ua_query = \<lambda>_. None, ua_join = \<lambda>_ p. Some p, ua_append_pair = \<lambda>_ _ u. u\<rparr>"

definition demo_answer :: discover_response where
  "demo_answer = \<lparr>dr_cookie = 1, dr_records = [\<lparr>rr_sequence = 1, rr_expires_unix_ms = 181000,
     rr_descriptor = sample_peer\<lparr>pd_protocol_version := 1, pd_published_unix_ms := 1000\<rparr>\<rparr>]\<rparr>"

definition demo_client :: "(string, link_world) client_env" where
  "demo_client = \<lparr>ce_url = demo_url, ce_mac = se_mac demo_service, ce_version = ''1'',
     ce_blake3 = \<lambda>_. replicate 32 0, ce_argon = \<lambda>_ _. [], ce_read_file = \<lambda>_. None, ce_pem_ok = \<lambda>_. True,
     ce_builds = \<lambda>_. True, ce_now = snd, ce_instant = \<lambda>w. nat (snd w), ce_send = link_send demo_url demo_link,
     ce_register_json = \<lambda>_. Some [], ce_unregister_from_json = \<lambda>_. None,
     ce_discover_from_json = \<lambda>_. Some demo_answer, ce_next_tick = \<lambda>due now p. due + p\<rparr>"

definition demo_config :: "string rendezvous_config" where
  "demo_config = disabled_config\<lparr>rc_endpoints := [''u''], rc_auth_token := Some ''t'', rc_registration_ttl := 500000\<rparr>"

definition demo_shards :: "string \<Rightarrow> shard" where
  "demo_shards ns = shard_new None (\<lambda>k. if k = ''PEERLINE_RENDEZVOUS_TOKEN'' then Some ''t'' else None)"

definition demo_ns :: string where
  "demo_ns = replicate 64 (CHR ''0'')"

definition demo_http :: http_client where
  "demo_http = \<lparr>hc_user_agent = ''peerline/1'', hc_timeout = 5000, hc_identity = None\<rparr>"

definition demo_after :: link_world where
  "demo_after = published_world demo_client (HumanName ''n'') (HumanCode ''c'') sample_peer demo_config (demo_shards, 1000)"

lemma demo_ns_eq: "rendezvous_namespace (ce_blake3 demo_client) (ce_argon demo_client) (HumanName ''n'') (HumanCode ''c'') = demo_ns"
  by code_simp

lemma demo_linked: "linked demo_client demo_link ''t'' ''u'' (registrations_path demo_ns) demo_ns"
proof -
  have "is_valid_namespace demo_ns" "trim ''1'' \<noteq> []" by code_simp+
  then show ?thesis
    by (simp add: linked_def demo_client_def demo_link_def demo_url_def demo_ns_def is_hex_lower_def is_digit_def code_def)
qed

lemma demo_serves: "serves ''t'' (demo_shards demo_ns)"
proof -
  have "shard_ok (demo_shards demo_ns)" by (simp add: demo_shards_def shard_new_ok)
  moreover have "sh_auth_token (demo_shards demo_ns) = Some ''t'' \<and> \<not> sh_require_mtls (demo_shards demo_ns)"
    by code_simp
  ultimately show ?thesis by (simp add: serves_def demo_shards_def shard_new_def Let_def)
qed

lemma demo_counts:
  "counted (demo_ns @ '':POST:unknown'') (1000 - 1000 mod rate_window_ms) (demo_shards demo_ns) < 30"
  "counted (demo_ns @ '':GET:unknown'') (180999 - 180999 mod rate_window_ms) (fst demo_after demo_ns) < 120"
  "length (sh_rows (fst demo_after demo_ns)) \<le> 32"
  by code_simp+

lemma demo_answered:
  "map_sum id hp_body (snd (answer_discover demo_service 180999 \<lparr>dq_after_cookie = None, dq_limit = None\<rparr> 0
     (fst demo_after demo_ns))) = Inr (Body_Discover demo_answer)"
  by code_simp

lemma demo_ends:
  "usable_endpoints (ce_url demo_client) demo_config = [''u'']"
  "client_build demo_client demo_config = Inr demo_http"
  "rc_auth_token demo_config = Some ''t''"
  "uint (ttl_request_seconds demo_config) = 500 \<and> uint (sh_max_ttl_secs (demo_shards demo_ns)) = 180"
  "validate_descriptor sample_peer = Inr ()"
  by code_simp+

lemma demo_request:
  "se_register_from_json (lk_service demo_link) [] =
     Some \<lparr>rq_ttl_seconds = ttl_request_seconds demo_config, rq_descriptor = sample_peer\<rparr>"
  using demo_ends(4)
  by (simp add: demo_link_def demo_service_def sample_codec_def sample_service_def word_uint_eq_iff)


end
