(* ===== verification/Port_Mapping.thy ===== *)
theory Port_Mapping
  imports Direct_Net
begin

text \<open>
  The life of a direct port mapping (\<open>peerline-net/src/direct.rs\<close>, from
  \<open>spawn_direct_port_mapping\<close> to \<open>maintain_direct_port_mapping\<close>): a lease from UPnP or from
  NAT-PMP/PCP, its renewal and removal, and the task that acquires, advertises, renews and gives
  up mappings, as a step relation. The routers (the \<open>igd-next\<close> and \<open>crab-nat\<close> crates) are a
  record of operations on the world \<open>'w\<close>; the interface list comes from two more crates.
\<close>

section \<open>Leases\<close>

datatype crab_mapping_type = NatPmp | Pcp ip_addr

record crab_mapping =
  cm_type :: crab_mapping_type
  cm_gateway :: ip_addr
  cm_external_port :: u16

datatype 'g lease =
    Upnp (upnp_gateway: 'g) (lease_local: socket_addr) (lease_external: socket_addr)
  | CrabNat (crab_of: crab_mapping) (lease_local: socket_addr) (lease_external: socket_addr)

record net_interface =
  ni_gateway :: "ip_addr option"
  ni_ipv4 :: "ip_addr list"
  ni_ipv6 :: "ip_addr list"

datatype map_error = Map_Search | Map_ExternalIp | Map_Renew | Map_NatPmpIpv6

record ('g, 'w) router =
  ro_interfaces :: "ip_addr list"
  ro_default_interface :: "net_interface option"
  ro_default_gateway :: "ip_addr option"
  ro_search :: "'w \<Rightarrow> 'w \<times> 'g option"
  ro_external_ip :: "'g \<Rightarrow> 'w \<Rightarrow> 'w \<times> ip_addr option"
  ro_add_port :: "'g \<Rightarrow> u16 \<Rightarrow> socket_addr \<Rightarrow> u32 \<Rightarrow> 'w \<Rightarrow> 'w \<times> bool"
  ro_add_any_port :: "'g \<Rightarrow> socket_addr \<Rightarrow> u32 \<Rightarrow> 'w \<Rightarrow> 'w \<times> u16 option"
  ro_remove_port :: "'g \<Rightarrow> u16 \<Rightarrow> 'w \<Rightarrow> 'w"
  ro_crab_new :: "ip_addr \<Rightarrow> ip_addr \<Rightarrow> u16 \<Rightarrow> u32 \<Rightarrow> 'w \<Rightarrow> 'w \<times> crab_mapping option"
  ro_crab_renew :: "crab_mapping \<Rightarrow> 'w \<Rightarrow> 'w \<times> crab_mapping option"
  ro_crab_drop :: "crab_mapping \<Rightarrow> 'w \<Rightarrow> 'w"
  ro_natpmp_address :: "ip_addr \<Rightarrow> 'w \<Rightarrow> 'w \<times> ip_addr option"

record mapping_config =
  mc_enable_upnp :: bool
  mc_enable_natpmp_pcp :: bool

definition lease_seconds :: u32 where "lease_seconds = 3600"
definition renew_after_secs :: nat where "renew_after_secs = unat lease_seconds div 2"
definition retry_after_secs :: nat where "retry_after_secs = 60"

fun lease_label :: "'g lease \<Rightarrow> string" where
  "lease_label (Upnp g l e) = ''upnp''"
| "lease_label (CrabNat m l e) = (case cm_type m of NatPmp \<Rightarrow> ''nat-pmp'' | Pcp _ \<Rightarrow> ''pcp'')"

definition natpmp_pcp_external_ip ::
  "('g, 'w) router \<Rightarrow> ip_addr \<Rightarrow> crab_mapping \<Rightarrow> 'w \<Rightarrow> 'w \<times> (map_error + ip_addr)" where
  "natpmp_pcp_external_ip ro gateway m w =
     (case cm_type m of
        Pcp ext \<Rightarrow> (w, Inr ext)
      | NatPmp \<Rightarrow>
          if is_ipv4 gateway then
            (case ro_natpmp_address ro gateway w of
               (w', a) \<Rightarrow> (w', ok_or a Map_ExternalIp))
          else (w, Inl Map_NatPmpIpv6))"

text \<open>
  A failed renewal may already have replaced the mapping inside the lease, so the lease is
  returned in every case.
\<close>

fun lease_renew :: "('g, 'w) router \<Rightarrow> 'g lease \<Rightarrow> 'w \<Rightarrow> 'w \<times> 'g lease \<times> (map_error + unit)" where
  "lease_renew ro (Upnp g l e) w =
     (case ro_add_port ro g (sock_port e) l lease_seconds w of
        (w', ok) \<Rightarrow> (w', Upnp g l e, if ok then Inr () else Inl Map_Renew))"
| "lease_renew ro (CrabNat m l e) w =
     (case ro_crab_renew ro m w of
        (w', None) \<Rightarrow> (w', CrabNat m l e, Inl Map_Renew)
      | (w', Some m') \<Rightarrow>
          (case natpmp_pcp_external_ip ro (cm_gateway m') m' w' of
             (w'', Inl err) \<Rightarrow> (w'', CrabNat m' l e, Inl err)
           | (w'', Inr ip) \<Rightarrow> (w'', CrabNat m' l (sock_new ip (cm_external_port m')), Inr ())))"

fun lease_remove :: "('g, 'w) router \<Rightarrow> 'g lease \<Rightarrow> 'w \<Rightarrow> 'w" where
  "lease_remove ro (Upnp g l e) w = ro_remove_port ro g (sock_port e) w"
| "lease_remove ro (CrabNat m l e) w = ro_crab_drop ro m w"

section \<open>Acquiring a mapping\<close>

fun upnp_lease_attempts ::
  "('g, 'w) router \<Rightarrow> 'g \<Rightarrow> ip_addr \<Rightarrow> u16 \<Rightarrow> socket_addr list \<Rightarrow> 'w \<Rightarrow> 'w \<times> 'g lease option" where
  "upnp_lease_attempts ro g ext port [] w = (w, None)"
| "upnp_lease_attempts ro g ext port (l # ls) w =
     (case ro_add_port ro g port l lease_seconds w of
        (w1, True) \<Rightarrow> (w1, Some (Upnp g l (sock_new ext port)))
      | (w1, False) \<Rightarrow>
          (case ro_add_any_port ro g l lease_seconds w1 of
             (w2, Some p) \<Rightarrow> (w2, Some (Upnp g l (sock_new ext p)))
           | (w2, None) \<Rightarrow> upnp_lease_attempts ro g ext port ls w2))"

definition acquire_upnp ::
  "('g, 'w) router \<Rightarrow> socket_addr \<Rightarrow> 'w \<Rightarrow> 'w \<times> (map_error + 'g lease option)" where
  "acquire_upnp ro bind w =
     (let locals = direct_port_mapping_local_endpoints (ro_interfaces ro) bind in
      if locals = [] then (w, Inr None)
      else case ro_search ro w of
        (w1, None) \<Rightarrow> (w1, Inl Map_Search)
      | (w1, Some g) \<Rightarrow>
          (case ro_external_ip ro g w1 of
             (w2, None) \<Rightarrow> (w2, Inl Map_ExternalIp)
           | (w2, Some ext) \<Rightarrow>
               if \<not> is_public_endpoint_ip ext then (w2, Inr None)
               else (case upnp_lease_attempts ro g ext (sock_port bind) locals w2 of (w3, r) \<Rightarrow> (w3, Inr r))))"

definition natpmp_pcp_gateway_and_local ::
  "net_interface option \<Rightarrow> ip_addr option \<Rightarrow> socket_addr \<Rightarrow> (ip_addr \<times> socket_addr) option" where
  "natpmp_pcp_gateway_and_local interface default_gateway bind =
     Option.bind interface (\<lambda>i.
     Option.bind (case ni_gateway i of Some g \<Rightarrow> Some g | None \<Rightarrow> default_gateway) (\<lambda>g.
     Option.bind (find is_usable_mapping_ip (if is_ipv4 g then ni_ipv4 i else ni_ipv6 i)) (\<lambda>local_ip.
       if is_unspecified (sock_ip bind) then Some (g, sock_new local_ip (sock_port bind))
       else if is_ipv4 (sock_ip bind) = is_ipv4 local_ip \<and> is_usable_mapping_ip (sock_ip bind) then Some (g, bind)
       else None)))"

definition acquire_natpmp_pcp ::
  "('g, 'w) router \<Rightarrow> socket_addr \<Rightarrow> 'w \<Rightarrow> 'w \<times> (map_error + 'g lease option)" where
  "acquire_natpmp_pcp ro bind w =
     (case natpmp_pcp_gateway_and_local (ro_default_interface ro) (ro_default_gateway ro) bind of
        None \<Rightarrow> (w, Inr None)
      | Some (gateway, local_endpoint) \<Rightarrow>
          if sock_port bind = 0 then (w, Inr None)
          else (case ro_crab_new ro gateway (sock_ip local_endpoint) (sock_port bind) lease_seconds w of
            (w1, None) \<Rightarrow> (w1, Inr None)
          | (w1, Some m) \<Rightarrow>
              (case natpmp_pcp_external_ip ro gateway m w1 of
                 (w2, Inl e) \<Rightarrow> (w2, Inl e)
               | (w2, Inr ip) \<Rightarrow>
                   if \<not> is_public_endpoint_ip ip then (ro_crab_drop ro m w2, Inr None)
                   else (w2, Inr (Some (CrabNat m local_endpoint (sock_new ip (cm_external_port m))))))))"

definition acquire_mapping ::
  "('g, 'w) router \<Rightarrow> mapping_config \<Rightarrow> socket_addr \<Rightarrow> 'w \<Rightarrow> 'w \<times> (map_error + 'g lease option)" where
  "acquire_mapping ro cfg bind w =
     (let (w1, upnp) = (if mc_enable_upnp cfg then acquire_upnp ro bind w else (w, Inr None)) in
      case upnp of
        Inr (Some l) \<Rightarrow> (w1, Inr (Some l))
      | _ \<Rightarrow>
          (let (w2, natpmp) = (if mc_enable_natpmp_pcp cfg then acquire_natpmp_pcp ro bind w1 else (w1, Inr None)) in
           (w2, try_direct_port_mapping (mc_enable_upnp cfg) (mc_enable_natpmp_pcp cfg) upnp natpmp)))"

section \<open>The mapping task\<close>

text \<open>
  The task holds at most one lease. \<open>mp_endpoints\<close> is the value of the watch channel, \<open>mp_closed\<close>
  says that every receiver is gone.
\<close>

datatype 'g mapping_phase = Trying | Holding (held: "'g lease") | Pausing | Stopped

record 'g mapping_task =
  mp_phase :: "'g mapping_phase"
  mp_endpoints :: "socket_addr list"
  mp_closed :: bool

definition mapping_start :: "socket_addr \<Rightarrow> 'g mapping_task" where
  "mapping_start bind =
     \<lparr>mp_phase = (if sock_port bind = 0 then Stopped else Trying), mp_endpoints = [], mp_closed = False\<rparr>"

definition advertise :: "socket_addr list \<Rightarrow> 'g mapping_task \<Rightarrow> 'g mapping_task" where
  "advertise es t = (if mp_closed t then t else t\<lparr>mp_endpoints := es\<rparr>)"

definition try_step ::
  "('g, 'w) router \<Rightarrow> mapping_config \<Rightarrow> socket_addr \<Rightarrow> 'g mapping_task \<Rightarrow> 'w \<Rightarrow> 'g mapping_task \<times> 'w" where
  "try_step ro cfg bind t w =
     (if mp_closed t then (t\<lparr>mp_phase := Stopped\<rparr>, w)
      else case acquire_mapping ro cfg bind w of
        (w', Inr (Some l)) \<Rightarrow> ((advertise [lease_external l] t)\<lparr>mp_phase := Holding l\<rparr>, w')
      | (w', _) \<Rightarrow> ((advertise [] t)\<lparr>mp_phase := Pausing\<rparr>, w'))"

definition renew_step :: "('g, 'w) router \<Rightarrow> 'g lease \<Rightarrow> 'g mapping_task \<Rightarrow> 'w \<Rightarrow> 'g mapping_task \<times> 'w" where
  "renew_step ro l t w =
     (case lease_renew ro l w of
        (w', l', Inr _) \<Rightarrow> (t\<lparr>mp_phase := Holding l'\<rparr>, w')
      | (w', l', Inl _) \<Rightarrow> ((advertise [] t)\<lparr>mp_phase := Pausing\<rparr>, w'))"

inductive mapping_step ::
  "('g, 'w) router \<Rightarrow> mapping_config \<Rightarrow> socket_addr \<Rightarrow> 'g mapping_task \<times> 'w \<Rightarrow> 'g mapping_task \<times> 'w \<Rightarrow> bool"
  for ro cfg bind where
  Try: "mp_phase t = Trying \<Longrightarrow> mapping_step ro cfg bind (t, w) (try_step ro cfg bind t w)"
| Renew: "mp_phase t = Holding l \<Longrightarrow> mapping_step ro cfg bind (t, w) (renew_step ro l t w)"
| Give_up: "mp_phase t = Holding l \<Longrightarrow> mp_closed t \<Longrightarrow>
    mapping_step ro cfg bind (t, w) (t\<lparr>mp_phase := Pausing\<rparr>, lease_remove ro l w)"
| Wake: "mp_phase t = Pausing \<Longrightarrow> mapping_step ro cfg bind (t, w) (t\<lparr>mp_phase := Trying\<rparr>, w)"
| Leave: "mp_phase t = Pausing \<Longrightarrow> mp_closed t \<Longrightarrow> mapping_step ro cfg bind (t, w) (t\<lparr>mp_phase := Stopped\<rparr>, w)"
| Close: "mapping_step ro cfg bind (t, w) (t\<lparr>mp_closed := True\<rparr>, w)"

inductive mapping_reach ::
  "('g, 'w) router \<Rightarrow> mapping_config \<Rightarrow> socket_addr \<Rightarrow> 'g mapping_task \<times> 'w \<Rightarrow> 'g mapping_task \<times> 'w \<Rightarrow> bool"
  for ro cfg bind s where
  Here: "mapping_reach ro cfg bind s s"
| Next: "mapping_reach ro cfg bind s s' \<Longrightarrow> mapping_step ro cfg bind s' s'' \<Longrightarrow> mapping_reach ro cfg bind s s''"

section \<open>What the task advertises\<close>

lemma upnp_lease_attempts_external:
  "upnp_lease_attempts ro g ext port ls w = (w', Some l) \<Longrightarrow> \<exists>loc p. l = Upnp g loc (sock_new ext p)"
  by (induction ls arbitrary: w) (auto split: prod.splits bool.splits option.splits)

lemma acquire_upnp_public:
  assumes "acquire_upnp ro bind w = (w', Inr (Some l))"
  shows "is_public_endpoint_ip (sock_ip (lease_external l))"
  using assms
  by (auto simp: acquire_upnp_def Let_def dest!: upnp_lease_attempts_external
      split: if_splits prod.splits option.splits)

lemma acquire_natpmp_public:
  assumes "acquire_natpmp_pcp ro bind w = (w', Inr (Some l))"
  shows "is_public_endpoint_ip (sock_ip (lease_external l))"
  using assms
  by (auto simp: acquire_natpmp_pcp_def split: if_splits prod.splits option.splits sum.splits)

lemma acquire_mapping_public:
  assumes "acquire_mapping ro cfg bind w = (w', Inr (Some l))"
  shows "is_public_endpoint_ip (sock_ip (lease_external l))"
proof -
  obtain w1 upnp where u: "(if mc_enable_upnp cfg then acquire_upnp ro bind w else (w, Inr None)) = (w1, upnp)"
    by fastforce
  obtain w2 natpmp where n: "(if mc_enable_natpmp_pcp cfg then acquire_natpmp_pcp ro bind w1 else (w1, Inr None)) =
      (w2, natpmp)" by fastforce
  have "upnp = Inr (Some l) \<or> natpmp = Inr (Some l)"
    using assms u n
    by (auto simp: acquire_mapping_def try_direct_port_mapping_def Let_def split: sum.splits option.splits if_splits)
  then show ?thesis
  proof
    assume "upnp = Inr (Some l)"
    with u acquire_upnp_public show ?thesis by (auto split: if_splits)
  next
    assume "natpmp = Inr (Some l)"
    with n acquire_natpmp_public show ?thesis by (auto split: if_splits)
  qed
qed

definition task_inv :: "socket_addr \<Rightarrow> 'g mapping_task \<Rightarrow> bool" where
  "task_inv bind t \<longleftrightarrow>
     (sock_port bind = 0 \<longrightarrow> mp_phase t = Stopped \<and> mp_endpoints t = []) \<and>
     (\<forall>e \<in> set (mp_endpoints t). is_public_endpoint_ip (sock_ip e)) \<and> length (mp_endpoints t) \<le> 1 \<and>
     (case mp_phase t of
        Holding l \<Rightarrow> mp_endpoints t \<noteq> [] \<and> (\<forall>g loc e. l = Upnp g loc e \<longrightarrow> mp_endpoints t = [e])
      | _ \<Rightarrow> mp_closed t \<or> mp_endpoints t = [])"

lemma task_inv_step:
  assumes "mapping_step ro cfg bind s s'" "task_inv bind (fst s)"
  shows "task_inv bind (fst s')"
  using assms
proof (cases rule: mapping_step.cases)
  case (Try t w)
  show ?thesis
  proof (cases "mp_closed t")
    case True
    with Try assms(2) show ?thesis by (simp add: try_step_def task_inv_def)
  next
    case False
    obtain w' r where a: "acquire_mapping ro cfg bind w = (w', r)" by fastforce
    show ?thesis
    proof (cases "\<exists>l. r = Inr (Some l)")
      case True
      then obtain l where r: "r = Inr (Some l)" ..
      from acquire_mapping_public [OF a [unfolded r]] show ?thesis
        using Try assms(2) False a r by (auto simp: try_step_def advertise_def task_inv_def)
    next
      case no: False
      then have "fst (try_step ro cfg bind t w) = t\<lparr>mp_endpoints := [], mp_phase := Pausing\<rparr>"
        using False a by (auto simp: try_step_def advertise_def split: sum.splits option.splits)
      with Try assms(2) show ?thesis by (simp add: task_inv_def)
    qed
  qed
next
  case (Renew t l w)
  obtain w' l' r where a: "lease_renew ro l w = (w', l', r)" by (metis prod_cases3)
  show ?thesis
  proof (cases r)
    case (Inl e)
    with Renew assms(2) a show ?thesis by (auto simp: renew_step_def advertise_def task_inv_def)
  next
    case (Inr u)
    have "l' = Upnp g loc e \<Longrightarrow> l = Upnp g loc e" for g loc e
      using a by (cases l) (auto split: prod.splits option.splits sum.splits)
    with Renew assms(2) a Inr show ?thesis by (auto simp: renew_step_def task_inv_def)
  qed
next
  case (Give_up t l w)
  with assms(2) show ?thesis by (simp add: task_inv_def)
next
  case (Wake t w)
  with assms(2) show ?thesis by (simp add: task_inv_def)
next
  case (Leave t w)
  with assms(2) show ?thesis by (simp add: task_inv_def)
next
  case (Close t w)
  with assms(2) show ?thesis by (auto simp: task_inv_def split: mapping_phase.splits)
qed

lemma task_inv_reach: "mapping_reach ro cfg bind s s' \<Longrightarrow> task_inv bind (fst s) \<Longrightarrow> task_inv bind (fst s')"
  by (induction rule: mapping_reach.induct) (auto intro: task_inv_step)

text \<open>
  In every reachable state of the mapping task, while anyone listens, an endpoint is advertised
  exactly while a mapping is held, at most one, and it is public; a mapping from UPnP is advertised
  with the endpoint it has now; and a receiver bound to an ephemeral port advertises nothing.
\<close>

theorem mapping_task_advertises:
  assumes "mapping_reach ro cfg bind (mapping_start bind, w0) (t, w)"
  shows "(\<forall>e \<in> set (mp_endpoints t). is_public_endpoint_ip (sock_ip e)) \<and> length (mp_endpoints t) \<le> 1 \<and>
    (\<not> mp_closed t \<longrightarrow> (mp_endpoints t \<noteq> [] \<longleftrightarrow> (\<exists>l. mp_phase t = Holding l))) \<and>
    (\<forall>g loc e. mp_phase t = Holding (Upnp g loc e) \<longrightarrow> mp_endpoints t = [e]) \<and>
    (sock_port bind = 0 \<longrightarrow> mp_endpoints t = [])"
proof -
  have "task_inv bind (fst (mapping_start bind :: 'a mapping_task, w0))"
    by (simp add: task_inv_def mapping_start_def)
  from task_inv_reach [OF assms this] have inv: "task_inv bind t" by simp
  show ?thesis
  proof (cases "mp_phase t")
    case (Holding l)
    with inv show ?thesis by (auto simp: task_inv_def)
  qed (use inv in \<open>auto simp: task_inv_def\<close>)
qed

text \<open>
  A router whose address changes between the mapping and its renewal: the task renews the lease,
  learns the new endpoint, and goes on advertising the old one.
\<close>

definition moving_router :: "(unit, bool) router" where
  "moving_router = \<lparr>ro_interfaces = [], ro_default_interface =
       Some \<lparr>ni_gateway = Some (V4 192 168 1 1), ni_ipv4 = [V4 192 168 1 2], ni_ipv6 = []\<rparr>,
     ro_default_gateway = None, ro_search = \<lambda>w. (w, None), ro_external_ip = \<lambda>_ w. (w, None),
     ro_add_port = \<lambda>_ _ _ _ w. (w, False), ro_add_any_port = \<lambda>_ _ _ w. (w, None), ro_remove_port = \<lambda>_ _ w. w,
     ro_crab_new = \<lambda>g _ p _ w. (w, Some \<lparr>cm_type = NatPmp, cm_gateway = g, cm_external_port = p\<rparr>),
     ro_crab_renew = \<lambda>m w. (True, Some m), ro_crab_drop = \<lambda>_ w. w,
     ro_natpmp_address = \<lambda>_ w. (w, Some (if w then V4 8 8 4 4 else V4 8 8 8 8))\<rparr>"

definition lan_bind :: socket_addr where
  "lan_bind = sock_new (V4 0 0 0 0) 43117"

definition held_task :: "unit mapping_task \<times> bool" where
  "held_task = try_step moving_router \<lparr>mc_enable_upnp = False, mc_enable_natpmp_pcp = True\<rparr> lan_bind
     (mapping_start lan_bind) False"

definition renewed_task :: "unit mapping_task \<times> bool" where
  "renewed_task = renew_step moving_router (held (mp_phase (fst held_task))) (fst held_task) (snd held_task)"

lemma held_reachable:
  "mapping_reach moving_router \<lparr>mc_enable_upnp = False, mc_enable_natpmp_pcp = True\<rparr> lan_bind
     (mapping_start lan_bind, False) held_task"
proof -
  have "mp_phase (mapping_start lan_bind :: unit mapping_task) = Trying" by code_simp
  then show ?thesis unfolding held_task_def by (intro mapping_reach.Next [OF mapping_reach.Here] mapping_step.Try)
qed

lemma mapping_task_advertises_witness:
  "mp_endpoints (fst held_task) = [sock_new (V4 8 8 8 8) 43117] \<and>
   is_public_endpoint_ip (sock_ip (hd (mp_endpoints (fst held_task))))"
proof -
  have e: "mp_endpoints (fst held_task) = [sock_new (V4 8 8 8 8) 43117]" by code_simp
  obtain t w where h: "held_task = (t, w)" by (cases held_task)
  from mapping_task_advertises [OF held_reachable [unfolded h]] e show ?thesis by (simp add: h)
qed

theorem renewed_mapping_advertised_stale:
  "mapping_reach moving_router \<lparr>mc_enable_upnp = False, mc_enable_natpmp_pcp = True\<rparr> lan_bind
     (mapping_start lan_bind, False) renewed_task \<and>
   lease_external (held (mp_phase (fst renewed_task))) = sock_new (V4 8 8 4 4) 43117 \<and>
   mp_endpoints (fst renewed_task) = [sock_new (V4 8 8 8 8) 43117]"
proof -
  have "mp_phase (fst held_task) = Holding (held (mp_phase (fst held_task)))" by code_simp
  from mapping_step.Renew [OF this, of _ _ _ "snd held_task"] have
    "mapping_step moving_router \<lparr>mc_enable_upnp = False, mc_enable_natpmp_pcp = True\<rparr> lan_bind held_task renewed_task"
    unfolding renewed_task_def by (simp only: prod.collapse)
  then have "mapping_reach moving_router \<lparr>mc_enable_upnp = False, mc_enable_natpmp_pcp = True\<rparr> lan_bind
     (mapping_start lan_bind, False) renewed_task"
    by (rule mapping_reach.Next [OF held_reachable])
  moreover have "lease_external (held (mp_phase (fst renewed_task))) = sock_new (V4 8 8 4 4) 43117"
      "mp_endpoints (fst renewed_task) = [sock_new (V4 8 8 8 8) 43117]" by code_simp+
  ultimately show ?thesis by blast
qed

end
