(* ===== verification/Tunnel_Url.thy ===== *)
theory Tunnel_Url
  imports Std_Parse "HOL-Library.Code_Target_Nat"
begin

text \<open>
  The endpoints of the tunnel transports (\<open>peerline-net/src/tunnel.rs\<close> and
  \<open>tunnel/i2p.rs\<close>): which URLs are accepted as a public tunnel, a Tor onion service or an I2P
  destination, and the normal form they are advertised in. URLs are those of the \<open>url\<close> crate,
  a record of its operations.
\<close>

record 'u web_url =
  wu_parse :: "string \<Rightarrow> 'u option"
  wu_scheme :: "'u \<Rightarrow> string"
  wu_host :: "'u \<Rightarrow> string option"
  wu_port :: "'u \<Rightarrow> u16 option"
  wu_set_scheme :: "string \<Rightarrow> 'u \<Rightarrow> 'u option"
  wu_text :: "'u \<Rightarrow> string"

datatype tunnel_provider = Cloudflared | Localtunnel | Tmole

fun provider_label :: "tunnel_provider \<Rightarrow> string" where
  "provider_label Cloudflared = ''cloudflared''"
| "provider_label Localtunnel = ''localtunnel''"
| "provider_label Tmole = ''tmole''"

datatype url_error =
    Url_Parse | Url_Convert | Url_Scheme | Url_Loopback | Url_NoHost | Url_NotOnion | Url_NotI2p | Url_NotB32
  | Url_BadLabel

definition is_i2p_b32_host :: "string \<Rightarrow> bool" where
  "is_i2p_b32_host host =
     (case strip_suffix ''.b32.i2p'' host of
        None \<Rightarrow> False
      | Some label \<Rightarrow> length label = 52 \<and> (\<forall>c \<in> set label. is_lower c \<or> 50 \<le> code c \<and> code c \<le> 55))"

text \<open>The schemes of the anonymous transports: \<open>http\<close> becomes \<open>ws\<close>, TLS is refused.\<close>

definition plain_ws_url :: "'u web_url \<Rightarrow> 'u \<Rightarrow> url_error + 'u" where
  "plain_ws_url wu u =
     (if wu_scheme wu u = ''http'' then ok_or (wu_set_scheme wu ''ws'' u) Url_Convert
      else if wu_scheme wu u = ''ws'' then Inr u
      else Inl Url_Scheme)"

definition with_ws_scheme :: "string \<Rightarrow> string" where
  "with_ws_scheme raw = (if contains_sub ''://'' raw then raw else ''ws://'' @ raw)"

definition normalize_public_tunnel_url :: "'u web_url \<Rightarrow> string \<Rightarrow> url_error + string" where
  "normalize_public_tunnel_url wu raw =
     and_then (ok_or (wu_parse wu raw) Url_Parse) (\<lambda>u0.
     and_then (if wu_scheme wu u0 = ''http'' then ok_or (wu_set_scheme wu ''ws'' u0) Url_Convert
               else if wu_scheme wu u0 = ''https'' then ok_or (wu_set_scheme wu ''wss'' u0) Url_Convert
               else if wu_scheme wu u0 = ''ws'' \<or> wu_scheme wu u0 = ''wss'' then Inr u0
               else Inl Url_Scheme) (\<lambda>u.
       if wu_host wu u \<in> {Some ''127.0.0.1'', Some ''localhost'', Some ''::1''} then Inl Url_Loopback
       else Inr (wu_text wu u)))"

definition normalize_tor_onion_url :: "'u web_url \<Rightarrow> string \<Rightarrow> url_error + string" where
  "normalize_tor_onion_url wu raw =
     and_then (ok_or (wu_parse wu (with_ws_scheme raw)) Url_Parse) (\<lambda>u0.
     and_then (plain_ws_url wu u0) (\<lambda>u.
       case wu_host wu u of
         None \<Rightarrow> Inl Url_NoHost
       | Some host \<Rightarrow>
           if \<not> ends_with ''.onion'' (to_lower host) then Inl Url_NotOnion
           else Inr (wu_text wu u)))"

definition normalize_i2p_url :: "'u web_url \<Rightarrow> string \<Rightarrow> url_error + string" where
  "normalize_i2p_url wu raw =
     and_then (ok_or (wu_parse wu (with_ws_scheme raw)) Url_Parse) (\<lambda>u0.
     and_then (plain_ws_url wu u0) (\<lambda>u.
       case wu_host wu u of
         None \<Rightarrow> Inl Url_NoHost
       | Some raw_host \<Rightarrow>
           let host = to_lower raw_host in
           if \<not> ends_with ''.i2p'' host then Inl Url_NotI2p
           else if \<not> ends_with ''.b32.i2p'' host then Inl Url_NotB32
           else if \<not> is_i2p_b32_host host then Inl Url_BadLabel
           else Inr (wu_text wu u)))"

end
