(* ===== verification/I2p_Sam.thy ===== *)
theory I2p_Sam
  imports Tunnel_Url
begin

text \<open>
  The client of the I2P SAM bridge (\<open>peerline-net/src/tunnel/i2p.rs\<close>): the commands it writes,
  how it reads the replies, the destination's base32 address and the session identifiers. A
  connection to the bridge is the bytes still to be read from it and those written so far;
  base64 and SHA-256 are parameters, and so are the random bytes of a session identifier.
\<close>

datatype sam_error =
    Sam_Taken | Sam_Io | Sam_Closed | Sam_Unexpected | Sam_Failed string | Sam_NoPub | Sam_NoPriv
  | Sam_BadId | Sam_BadDestination | Sam_Base64 | Sam_Connect | Sam_NoHost

record sam_control =
  sc_input :: bytes
  sc_output :: string
  sc_taken :: bool

type_synonym 'a sam_op = "sam_control \<Rightarrow> sam_control \<times> (sam_error + 'a)"

definition sam_return :: "'a \<Rightarrow> 'a sam_op" where
  "sam_return x s = (s, Inr x)"

definition sam_fail :: "sam_error \<Rightarrow> 'a sam_op" where
  "sam_fail e s = (s, Inl e)"

definition sam_bind :: "'a sam_op \<Rightarrow> ('a \<Rightarrow> 'b sam_op) \<Rightarrow> 'b sam_op" where
  "sam_bind m f s = (case m s of (s', Inl e) \<Rightarrow> (s', Inl e) | (s', Inr x) \<Rightarrow> f x s')"

definition sam_from :: "sam_error + 'a \<Rightarrow> 'a sam_op" where
  "sam_from r s = (s, r)"

section \<open>Lines and fields\<close>

definition parse_sam_fields :: "string \<Rightarrow> (string \<times> string) list" where
  "parse_sam_fields line = List.map_filter (split_once (CHR ''='')) (split_whitespace line)"

definition sam_field :: "(string \<times> string) list \<Rightarrow> string \<Rightarrow> string option" where
  "sam_field fs key = map_of fs key"

definition sam_message :: "(string \<times> string) list \<Rightarrow> string" where
  "sam_message fs =
     (case sam_field fs ''MESSAGE'' of
        Some m \<Rightarrow> m
      | None \<Rightarrow> (case sam_field fs ''RESULT'' of Some m \<Rightarrow> m | None \<Rightarrow> ''unknown error''))"

definition validate_sam_id :: "string \<Rightarrow> sam_error + unit" where
  "validate_sam_id i =
     (if i \<noteq> [] \<and> (\<forall>c \<in> set i. is_alnum c \<or> c = CHR ''-'' \<or> c = CHR ''_'') then Inr () else Inl Sam_BadId)"

definition validate_sam_destination :: "string \<Rightarrow> sam_error + unit" where
  "validate_sam_destination d =
     (if d \<noteq> [] \<and> (\<forall>c \<in> set d. is_graphic c) then Inr () else Inl Sam_BadDestination)"

definition sam_write_all :: "string \<Rightarrow> unit sam_op" where
  "sam_write_all command s =
     (if sc_taken s then (s, Inl Sam_Taken) else (s\<lparr>sc_output := sc_output s @ command\<rparr>, Inr ()))"

text \<open>\<open>read_line\<close> reads through the next newline or to the end, and requires UTF-8.\<close>

definition take_line :: "bytes \<Rightarrow> bytes \<times> bytes" where
  "take_line input =
     (let line = takeWhile (\<lambda>b. b \<noteq> 10) input;
          rest = dropWhile (\<lambda>b. b \<noteq> 10) input
      in (line @ take 1 rest, drop 1 rest))"

definition trim_line_end :: "string \<Rightarrow> string" where
  "trim_line_end l = rev (dropWhile (\<lambda>c. code c = 13 \<or> code c = 10) (rev l))"

definition sam_read_line :: "string sam_op" where
  "sam_read_line s =
     (if sc_taken s then (s, Inl Sam_Taken)
      else case take_line (sc_input s) of
        (line, rest) \<Rightarrow>
          if \<not> utf8_valid (map unat line) then (s\<lparr>sc_input := rest\<rparr>, Inl Sam_Io)
          else if line = [] then (s\<lparr>sc_input := rest\<rparr>, Inl Sam_Closed)
          else (s\<lparr>sc_input := rest\<rparr>, Inr (trim_line_end (bytes_str line))))"

definition sam_take_stream :: "unit sam_op" where
  "sam_take_stream s = (s\<lparr>sc_taken := True\<rparr>, Inr ())"

definition command_ok :: "string \<Rightarrow> string \<Rightarrow> unit sam_op" where
  "command_ok command expected_prefix =
     sam_bind (sam_write_all command) (\<lambda>_.
     sam_bind sam_read_line (\<lambda>line.
       if \<not> starts_with expected_prefix line then sam_fail Sam_Unexpected
       else
         let fs = parse_sam_fields line in
         if sam_field fs ''RESULT'' \<noteq> Some ''OK'' then sam_fail (Sam_Failed (sam_message fs))
         else sam_return ()))"

section \<open>Commands\<close>

definition nl :: string where "nl = [char_of (10 :: nat)]"

definition sam_hello :: "unit sam_op" where
  "sam_hello = command_ok (''HELLO VERSION MIN=3.1 MAX=3.1'' @ nl) ''HELLO REPLY''"

definition sam_connect :: "bytes option \<Rightarrow> sam_control \<times> (sam_error + unit)" where
  "sam_connect connection =
     (case connection of
        None \<Rightarrow> (\<lparr>sc_input = [], sc_output = [], sc_taken = False\<rparr>, Inl Sam_Connect)
      | Some input \<Rightarrow> sam_hello \<lparr>sc_input = input, sc_output = [], sc_taken = False\<rparr>)"

record sam_destination =
  sd_public :: string
  sd_private :: string

definition dest_generate :: "sam_destination sam_op" where
  "dest_generate =
     sam_bind (sam_write_all (''DEST GENERATE SIGNATURE_TYPE=7'' @ nl)) (\<lambda>_.
     sam_bind sam_read_line (\<lambda>line.
       let fs = parse_sam_fields line in
       if sam_field fs ''RESULT'' \<noteq> Some ''OK'' then sam_fail (Sam_Failed (sam_message fs))
       else sam_bind (sam_from (ok_or (sam_field fs ''PUB'') Sam_NoPub)) (\<lambda>pub.
         sam_bind (sam_from (ok_or (sam_field fs ''PRIV'') Sam_NoPriv)) (\<lambda>priv.
           sam_return \<lparr>sd_public = pub, sd_private = priv\<rparr>))))"

definition session_command :: "string \<Rightarrow> string \<Rightarrow> (string \<times> string) list \<Rightarrow> string" where
  "session_command i destination options =
     ''SESSION CREATE STYLE=STREAM ID='' @ i @ '' DESTINATION='' @ destination @
     concat (map (\<lambda>(key, v). '' '' @ key @ ''='' @ v) options) @ nl"

definition session_create :: "string \<Rightarrow> string \<Rightarrow> (string \<times> string) list \<Rightarrow> unit sam_op" where
  "session_create i destination options =
     sam_bind (sam_from (validate_sam_id i)) (\<lambda>_.
     sam_bind (sam_from (validate_sam_destination destination)) (\<lambda>_.
       command_ok (session_command i destination options) ''SESSION STATUS''))"

definition stream_forward :: "string \<Rightarrow> u16 \<Rightarrow> unit sam_op" where
  "stream_forward i port =
     command_ok (''STREAM FORWARD ID='' @ i @ '' HOST=127.0.0.1 PORT='' @ dec_str (unat port) @ '' SILENT=true'' @ nl)
       ''STREAM STATUS''"

definition connect_command :: "string \<Rightarrow> string \<Rightarrow> u16 \<Rightarrow> string" where
  "connect_command i destination port =
     ''STREAM CONNECT ID='' @ i @ '' DESTINATION='' @ destination @ '' TO_PORT='' @ dec_str (unat port) @
     '' SILENT=false'' @ nl"

definition stream_connect :: "string \<Rightarrow> string \<Rightarrow> u16 \<Rightarrow> unit sam_op" where
  "stream_connect i destination port =
     sam_bind (sam_from (validate_sam_id i)) (\<lambda>_.
     sam_bind (sam_from (validate_sam_destination destination)) (\<lambda>_.
     sam_bind (sam_write_all (connect_command i destination port)) (\<lambda>_.
     sam_bind sam_read_line (\<lambda>line.
       let fs = parse_sam_fields line in
       if sam_field fs ''RESULT'' \<noteq> Some ''OK'' then sam_fail (Sam_Failed (sam_message fs))
       else sam_take_stream))))"

section \<open>Addresses and sessions\<close>

definition replace_char :: "char \<Rightarrow> char \<Rightarrow> string \<Rightarrow> string" where
  "replace_char a b s = map (\<lambda>c. if c = a then b else c) s"

definition i2p_base64_decode :: "(string \<Rightarrow> bytes option) \<Rightarrow> string \<Rightarrow> sam_error + bytes" where
  "i2p_base64_decode b64 v =
     (let standard = replace_char (CHR ''~'') (CHR ''/'') (replace_char (CHR ''-'') (CHR ''+'') v);
          pad = (4 - length standard mod 4) mod 4
      in ok_or (b64 (standard @ replicate pad (CHR ''=''))) Sam_Base64)"

definition b32_alphabet :: string where
  "b32_alphabet = ''abcdefghijklmnopqrstuvwxyz234567''"

text \<open>
  The loop of \<open>base32_i2p_no_padding\<close> with its 16-bit buffer: a byte is shifted in, and five
  bits at a time are shifted out.
\<close>

fun b32_drain :: "nat \<Rightarrow> u16 \<Rightarrow> nat \<Rightarrow> string \<times> u16 \<times> nat" where
  "b32_drain 0 buffer bits = ([], buffer, bits)"
| "b32_drain (Suc n) buffer bits =
     (if 5 \<le> bits then
        let index = unat (drop_bit (bits - 5) buffer AND 0x1f);
            bits' = bits - 5;
            (out, r) = b32_drain n (buffer AND (push_bit bits' 1 - 1)) bits'
        in (b32_alphabet ! index # out, r)
      else ([], buffer, bits))"

fun b32_loop :: "u16 \<Rightarrow> nat \<Rightarrow> bytes \<Rightarrow> string" where
  "b32_loop buffer bits [] =
     (if 0 < bits then [b32_alphabet ! unat (push_bit (5 - bits) buffer AND 0x1f)] else [])"
| "b32_loop buffer bits (b # bs) =
     (case b32_drain 3 (push_bit 8 buffer OR ucast b) (bits + 8) of
        (out, buffer', bits') \<Rightarrow> out @ b32_loop buffer' bits' bs)"

definition base32_i2p_no_padding :: "bytes \<Rightarrow> string" where
  "base32_i2p_no_padding bs = b32_loop 0 0 bs"

definition i2p_b32_address :: "(bytes \<Rightarrow> bytes) \<Rightarrow> (string \<Rightarrow> bytes option) \<Rightarrow> string \<Rightarrow> sam_error + string" where
  "i2p_b32_address sha256 b64 destination =
     and_then (i2p_base64_decode b64 destination)
       (\<lambda>decoded. Inr (base32_i2p_no_padding (sha256 decoded) @ ''.b32.i2p''))"

definition unique_sam_session_id :: "bytes \<Rightarrow> string \<Rightarrow> string" where
  "unique_sam_session_id random p = p @ ''-'' @ hex_str random"

record i2p_session =
  i2p_destination :: string
  i2p_b32 :: string
  i2p_id :: string

definition create_i2p_stream_session ::
  "(bytes \<Rightarrow> bytes) \<Rightarrow> (string \<Rightarrow> bytes option) \<Rightarrow> bytes \<Rightarrow> bytes option \<Rightarrow>
   sam_control \<times> (sam_error + i2p_session)" where
  "create_i2p_stream_session sha256 b64 random connection =
     (case sam_connect connection of
        (s, Inl e) \<Rightarrow> (s, Inl e)
      | (s, Inr _) \<Rightarrow>
          sam_bind dest_generate (\<lambda>generated.
            sam_bind (sam_from (i2p_b32_address sha256 b64 (sd_public generated))) (\<lambda>b32.
              sam_return \<lparr>i2p_destination = sd_private generated, i2p_b32 = b32,
                i2p_id = unique_sam_session_id random ''peerline-inbound''\<rparr>)) s)"

definition inbound_options :: "(string \<times> string) list" where
  "inbound_options = [(''SIGNATURE_TYPE'', ''7''), (''inbound.quantity'', ''2''), (''outbound.quantity'', ''2'')]"

definition outbound_options :: "(string \<times> string) list" where
  "outbound_options = [(''SIGNATURE_TYPE'', ''7''), (''inbound.quantity'', ''1''), (''outbound.quantity'', ''2'')]"

text \<open>Both of these hold two connections to the bridge; the first keeps the session alive.\<close>

definition forward_i2p_to_listener ::
  "bytes option \<Rightarrow> bytes option \<Rightarrow> i2p_session \<Rightarrow> u16 \<Rightarrow> sam_error + sam_control \<times> sam_control" where
  "forward_i2p_to_listener connection1 connection2 session port =
     (case sam_connect connection1 of
        (s1, Inl e) \<Rightarrow> Inl e
      | (s1, Inr _) \<Rightarrow>
          (case session_create (i2p_id session) (i2p_destination session) inbound_options s1 of
             (s1', Inl e) \<Rightarrow> Inl e
           | (s1', Inr _) \<Rightarrow>
               (case sam_connect connection2 of
                  (s2, Inl e) \<Rightarrow> Inl e
                | (s2, Inr _) \<Rightarrow>
                    (case stream_forward (i2p_id session) port s2 of
                       (s2', Inl e) \<Rightarrow> Inl e
                     | (s2', Inr _) \<Rightarrow> Inr (s1'\<lparr>sc_taken := True\<rparr>, s2'\<lparr>sc_taken := True\<rparr>)))))"

definition open_i2p_stream ::
  "'u web_url \<Rightarrow> bytes \<Rightarrow> bytes option \<Rightarrow> bytes option \<Rightarrow> 'u \<Rightarrow> sam_error + sam_control \<times> sam_control" where
  "open_i2p_stream wu random connection1 connection2 u =
     (case wu_host wu u of
        None \<Rightarrow> Inl Sam_NoHost
      | Some host \<Rightarrow>
          let port = (case wu_port wu u of Some p \<Rightarrow> p | None \<Rightarrow> 80);
              i = unique_sam_session_id random ''peerline-outbound'' in
          (case sam_connect connection1 of
             (s1, Inl e) \<Rightarrow> Inl e
           | (s1, Inr _) \<Rightarrow>
               (case session_create i ''TRANSIENT'' outbound_options s1 of
                  (s1', Inl e) \<Rightarrow> Inl e
                | (s1', Inr _) \<Rightarrow>
                    (case sam_connect connection2 of
                       (s2, Inl e) \<Rightarrow> Inl e
                     | (s2, Inr _) \<Rightarrow>
                         (case stream_connect i host port s2 of
                            (s2', Inl e) \<Rightarrow> Inl e
                          | (s2', Inr _) \<Rightarrow> Inr (s1'\<lparr>sc_taken := True\<rparr>, s2'))))))"

end
