(* ===== verification/I2p_Address.thy ===== *)
theory I2p_Address
  imports I2p_Sam Rendezvous_Service
begin

text \<open>
  The base32 loop of \<open>tunnel/i2p.rs\<close> against a reference on bit lists, the addresses it makes
  for I2P destinations, and the commands sent to the SAM bridge.
\<close>

section \<open>Base32\<close>

definition byte_bits :: "u8 \<Rightarrow> bool list" where
  "byte_bits b = map (bit b) [7, 6, 5, 4, 3, 2, 1, 0]"

fun bits_val :: "bool list \<Rightarrow> nat" where
  "bits_val [] = 0"
| "bits_val (x # xs) = of_bool x * 2 ^ length xs + bits_val xs"

text \<open>The reference: groups of five bits, the last one filled up with zeros.\<close>

function b32_groups :: "bool list \<Rightarrow> string" where
  "b32_groups xs =
     (if xs = [] then []
      else b32_alphabet ! bits_val (take 5 (xs @ replicate 4 False)) # b32_groups (drop 5 xs))"
  by pat_completeness auto
termination by (relation "measure length") auto

declare b32_groups.simps [simp del]

lemma bits_val_less: "bits_val xs < 2 ^ length xs"
proof (induction xs)
  case (Cons x xs)
  have "of_bool x * 2 ^ length xs \<le> (2 :: nat) ^ length xs" by simp
  with Cons show ?case by (simp del: of_bool_eq)
qed simp

lemma bits_val_append: "bits_val (xs @ ys) = bits_val xs * 2 ^ length ys + bits_val ys"
  by (induction xs) (simp_all add: algebra_simps power_add)

lemma bits_val_byte: "bits_val (byte_bits b) = unat b"
proof -
  have "unat b = take_bit 8 (unat b)" by (simp add: take_bit_eq_mod)
  also have "\<dots> = horner_sum of_bool 2 (map (bit (unat b)) [0..<8])"
    by (rule horner_sum_bit_eq_take_bit [symmetric])
  also have "bit (unat b) = bit b" by (rule ext) (simp add: bit_unsigned_iff)
  finally have "unat b = horner_sum of_bool 2 (map (bit b) [0..<8])" .
  moreover have "[0..<8] = [0, 1, 2, 3, 4, 5, 6, 7]" by (simp add: upt_rec)
  ultimately have "unat b = horner_sum of_bool 2 (map (bit b) [0, 1, 2, 3, 4, 5, 6, 7])" by (simp only:)
  then show ?thesis unfolding byte_bits_def by (simp only: list.map bits_val.simps horner_sum_simps list.size) simp
qed

lemma length_byte_bits [simp]: "length (byte_bits b) = 8"
  by (simp add: byte_bits_def)

lemma bits_val_take: "n \<le> length xs \<Longrightarrow> bits_val (take n xs) = bits_val xs div 2 ^ (length xs - n)"
  using bits_val_append [of "take n xs" "drop n xs"] bits_val_less [of "drop n xs"] by simp

lemma bits_val_drop: "n \<le> length xs \<Longrightarrow> bits_val (drop n xs) = bits_val xs mod 2 ^ (length xs - n)"
  using bits_val_append [of "take n xs" "drop n xs"] bits_val_less [of "drop n xs"] by simp

text \<open>The buffer holds the pending bits, fewer than five between two bytes.\<close>

definition holds :: "u16 \<Rightarrow> nat \<Rightarrow> bool list \<Rightarrow> bool" where
  "holds buffer n p \<longleftrightarrow> length p = n \<and> unat buffer = bits_val p"

lemma shift_in:
  assumes "holds buffer n p" "n < 5"
  shows "holds (push_bit 8 buffer OR ucast (b :: u8)) (n + 8) (p @ byte_bits b)"
proof -
  from assms bits_val_less [of p] have p: "length p = n" "unat buffer = bits_val p" "bits_val p < 2 ^ n"
    by (auto simp: holds_def)
  have "(2 :: nat) ^ n \<le> 2 ^ 4" using assms(2) by (intro power_increasing) auto
  with p(3) have lim: "unat buffer < 16" unfolding p(2) by simp
  have "push_bit 8 buffer OR ucast b = push_bit 8 buffer + (ucast b :: u16)"
  proof (rule disjunctive_add_eq_or [symmetric])
    show "push_bit 8 buffer AND (ucast b :: u16) = 0"
      by (rule bit_word_eqI) (auto simp: bit_simps dest: bit_imp_le_length)
  qed
  then have "unat (push_bit 8 buffer OR (ucast b :: u16)) = unat (push_bit 8 buffer + (ucast b :: u16))" by simp
  also have "\<dots> = unat buffer * 256 + unat b"
  proof -
    have "unat (push_bit 8 buffer) = unat buffer * 256"
      using lim by (simp add: push_bit_eq_mult unat_word_ariths)
    moreover have "unat (ucast b :: u16) = unat b" 
    proof -
      have "unat b < 65536" using unat_u8_less [of b] by linarith
      then show ?thesis by (simp add: unsigned_ucast_eq take_bit_eq_mod del: unat_u8_less)
    qed
    moreover have "unat buffer * 256 + unat b < 65536" using lim unat_u8_less [of b] by linarith
    ultimately show ?thesis by (simp add: unat_word_ariths del: unat_u8_less)
  qed
  finally show ?thesis
    using p(1,2) by (simp add: holds_def bits_val_append bits_val_byte)
qed

lemma shift_out:
  assumes "holds buffer n p" "5 \<le> n"
  shows "unat (drop_bit (n - 5) buffer AND 0x1f) = bits_val (take 5 p)"
    "holds (buffer AND (push_bit (n - 5) 1 - 1)) (n - 5) (drop 5 p)"
proof -
  from assms have p: "length p = n" "unat buffer = bits_val p" by (auto simp: holds_def)
  have "unat (drop_bit (n - 5) buffer AND 0x1f) = unat (drop_bit (n - 5) buffer) mod 2 ^ 5"
  proof -
    have "(0x1f :: u16) = mask 5" by (simp add: mask_eq_decr_exp)
    then have "drop_bit (n - 5) buffer AND 0x1f = take_bit 5 (drop_bit (n - 5) buffer)"
      by (simp only: take_bit_eq_mask)
    then have "unat (drop_bit (n - 5) buffer AND 0x1f) = take_bit 5 (unat (drop_bit (n - 5) buffer))"
      by (simp only: unsigned_take_bit_eq)
    then show ?thesis by (simp only: take_bit_eq_mod)
  qed
  also have "unat (drop_bit (n - 5) buffer) = bits_val p div 2 ^ (n - 5)"
    by (simp only: unat_drop_bit_eq p(2)) (simp only: drop_bit_eq_div)
  also have "bits_val p div 2 ^ (n - 5) = bits_val (take 5 p)"
    using bits_val_take [of 5 p] p(1) assms(2) by simp
  also have "bits_val (take 5 p) mod 2 ^ 5 = bits_val (take 5 p)"
    using bits_val_less [of "take 5 p"] p(1) assms(2) by simp
  finally show "unat (drop_bit (n - 5) buffer AND 0x1f) = bits_val (take 5 p)" .
  have "buffer AND (push_bit (n - 5) 1 - 1) = take_bit (n - 5) buffer"
    by (simp add: take_bit_eq_mask mask_eq_decr_exp push_bit_of_1)
  then have "unat (buffer AND (push_bit (n - 5) 1 - 1)) = take_bit (n - 5) (bits_val p)"
    by (simp only: unsigned_take_bit_eq p(2))
  then have "unat (buffer AND (push_bit (n - 5) 1 - 1)) = bits_val p mod 2 ^ (n - 5)"
    by (simp only: take_bit_eq_mod)
  with bits_val_drop [of 5 p] p(1) assms(2)
  show "holds (buffer AND (push_bit (n - 5) 1 - 1)) (n - 5) (drop 5 p)" by (simp add: holds_def)
qed

lemma groups_step: "5 \<le> length xs \<Longrightarrow> b32_groups xs = b32_alphabet ! bits_val (take 5 xs) # b32_groups (drop 5 xs)"
  by (subst b32_groups.simps) auto

lemma drain_groups:
  assumes "holds buffer n p" "n < 5 * (k + 1)"
  shows "\<exists>out buffer' q. b32_drain k buffer n = (out, buffer', length q) \<and> holds buffer' (length q) q \<and>
    length q < 5 \<and> (\<forall>r. b32_groups (p @ r) = out @ b32_groups (q @ r))"
  using assms
proof (induction k arbitrary: buffer n p)
  case 0
  then show ?case by (intro exI [of _ "[]"] exI [of _ buffer] exI [of _ p]) (simp add: holds_def)
next
  case (Suc k)
  have len: "length p = n" using Suc.prems(1) by (simp add: holds_def)
  show ?case
  proof (cases "5 \<le> n")
    case False
    with Suc.prems len show ?thesis
      by (intro exI [of _ "[]"] exI [of _ buffer] exI [of _ p]) simp
  next
    case True
    note o1 = shift_out [OF Suc.prems(1) True]
    have "n - 5 < 5 * (k + 1)" using Suc.prems(2) True by simp
    from Suc.IH [OF o1(2) this] obtain out buffer' q where r:
        "b32_drain k (buffer AND (push_bit (n - 5) 1 - 1)) (n - 5) = (out, buffer', length q)"
        "holds buffer' (length q) q" "length q < 5"
        "\<forall>r. b32_groups (drop 5 p @ r) = out @ b32_groups (q @ r)" by blast
    have "b32_groups (p @ r) = b32_alphabet ! bits_val (take 5 p) # b32_groups (drop 5 p @ r)" for r
      using groups_step [of "p @ r"] len True by simp
    with True r o1(1) show ?thesis by (auto simp: Let_def)
  qed
qed

lemma b32_loop_groups:
  "holds buffer (length p) p \<Longrightarrow> length p < 5 \<Longrightarrow>
   b32_loop buffer (length p) bs = b32_groups (p @ concat (map byte_bits bs))"
proof (induction bs arbitrary: buffer p)
  case Nil
  show ?case
  proof (cases "p = []")
    case True
    then show ?thesis by (simp add: b32_groups.simps)
  next
    case False
    let ?pad = "replicate (5 - length p) False"
    have zeros: "bits_val (replicate k False) = 0" for k by (induction k) simp_all
    have "take 5 (p @ replicate 4 False) = p @ ?pad"
      using False Nil.prems(2) by (cases p) (auto simp: min_def)
    then have "b32_groups p = [b32_alphabet ! bits_val (p @ ?pad)]"
      using False Nil.prems(2) by (simp add: b32_groups.simps)
    moreover have "bits_val (p @ ?pad) = bits_val p * 2 ^ (5 - length p)"
      by (simp add: bits_val_append zeros)
    moreover have "unat (push_bit (5 - length p) buffer AND 0x1f) = bits_val p * 2 ^ (5 - length p)"
    proof -
      have lt: "bits_val p * 2 ^ (5 - length p) < 2 ^ 5"
      proof -
        have "bits_val p * 2 ^ (5 - length p) < 2 ^ length p * 2 ^ (5 - length p)" using bits_val_less [of p] by simp
        also have "\<dots> = 2 ^ 5" using Nil.prems(2) by (simp flip: power_add)
        finally show ?thesis .
      qed
      have "(0x1f :: u16) = mask 5" by (simp add: mask_eq_decr_exp)
      then have "unat (push_bit (5 - length p) buffer AND 0x1f) = take_bit 5 (unat (push_bit (5 - length p) buffer))"
        by (simp only: take_bit_eq_mask [symmetric] unsigned_take_bit_eq)
      also have "unat (push_bit (5 - length p) buffer) = take_bit 16 (push_bit (5 - length p) (unat buffer))"
        by (simp add: unsigned_push_bit_eq)
      finally show ?thesis
        using Nil.prems(1) lt by (simp add: holds_def push_bit_eq_mult take_bit_eq_mod)
    qed
    ultimately show ?thesis using False by simp
  qed
next
  case (Cons b bs)
  note i = shift_in [OF Cons.prems, of b]
  have "length p + 8 < 5 * (3 + 1)" using Cons.prems(2) by simp
  from drain_groups [OF i this] obtain out buffer' q where d:
      "b32_drain 3 (push_bit 8 buffer OR ucast b) (length p + 8) = (out, buffer', length q)"
      "holds buffer' (length q) q" "length q < 5"
      "\<forall>r. b32_groups ((p @ byte_bits b) @ r) = out @ b32_groups (q @ r)" by blast
  from d(1) have "b32_loop buffer (length p) (b # bs) = out @ b32_loop buffer' (length q) bs" by simp
  also have "\<dots> = out @ b32_groups (q @ concat (map byte_bits bs))" using Cons.IH [OF d(2,3)] by simp
  also have "\<dots> = b32_groups ((p @ byte_bits b) @ concat (map byte_bits bs))" using d(4) by simp
  finally show ?case by simp
qed

lemma base32_reference: "base32_i2p_no_padding bs = b32_groups (concat (map byte_bits bs))"
  using b32_loop_groups [of 0 "[]" bs] by (simp add: base32_i2p_no_padding_def holds_def)

text \<open>
  C40. The bit-twiddling base32 encoder is the encoding by definition: on every input it writes the
  groups of five bits of the bytes, most significant first, the last group filled up with zeros.
\<close>

theorem base32_is_reference:
  "base32_i2p_no_padding bs = b32_groups (concat (map byte_bits bs))"
  by (rule base32_reference)

section \<open>The address of a session\<close>

lemma b32_groups_Nil [simp]: "b32_groups [] = []"
  by (subst b32_groups.simps) (rule if_P, rule refl)

lemma b32_groups_Cons:
  "xs \<noteq> [] \<Longrightarrow> b32_groups xs =
    b32_alphabet ! bits_val (take 5 (xs @ replicate 4 False)) # b32_groups (drop 5 xs)"
  by (subst b32_groups.simps) (rule if_not_P)

lemma group_count: "0 < (n::nat) \<Longrightarrow> (n - 5 + 4) div 5 + 1 = (n + 4) div 5"
proof (cases "n < 5")
  case True
  assume "0 < n"
  with True have "n = 1 \<or> n = 2 \<or> n = 3 \<or> n = 4" by linarith
  then show ?thesis by (elim disjE) simp_all
next
  case False
  define m where "m = n - 5"
  with False have "n = m + 5" by simp
  moreover have "(m + 4 + 5) div 5 = (m + 4) div 5 + 1" by (rule div_add_self2) simp
  ultimately show ?thesis by (simp add: algebra_simps)
qed

lemma length_b32_groups: "length (b32_groups xs) = (length xs + 4) div 5"
proof (induction xs rule: b32_groups.induct)
  case (1 xs)
  show ?case
  proof (cases "xs = []")
    case True
    then show ?thesis by simp
  next
    case False
    then have "(length xs - 5 + 4) div 5 + 1 = (length xs + 4) div 5" by (intro group_count) simp
    with 1 [OF False] show ?thesis unfolding b32_groups_Cons [OF False] by simp
  qed
qed

lemma set_b32_groups: "c \<in> set (b32_groups xs) \<Longrightarrow> c \<in> set b32_alphabet"
proof (induction xs rule: b32_groups.induct)
  case (1 xs)
  show ?case
  proof (cases "xs = []")
    case True
    with 1(2) show ?thesis by simp
  next
    case False
    have "length (take 5 (xs @ replicate 4 False)) = 5" using False by (cases xs) simp_all
    from bits_val_less [of "take 5 (xs @ replicate 4 False)", unfolded this]
    have "bits_val (take 5 (xs @ replicate 4 False)) < 32" by (simp del: take_append)
    moreover have "length b32_alphabet = 32" by (simp add: b32_alphabet_def)
    ultimately have "b32_alphabet ! bits_val (take 5 (xs @ replicate 4 False)) \<in> set b32_alphabet" by simp
    moreover from 1(2) have "c = b32_alphabet ! bits_val (take 5 (xs @ replicate 4 False)) \<or>
        c \<in> set (b32_groups (drop 5 xs))"
      unfolding b32_groups_Cons [OF False] by (simp only: list.set(2) insert_iff)
    ultimately show ?thesis using 1(1) [OF False] by metis
  qed
qed

lemma b32_alphabet_chars: "\<forall>c \<in> set b32_alphabet. is_lower c \<or> 50 \<le> code c \<and> code c \<le> 55"
  by (simp add: b32_alphabet_def is_lower_def code_def)

lemma b32_label:
  assumes "length digest = 32"
  shows "length (base32_i2p_no_padding digest) = 52 \<and>
    (\<forall>c \<in> set (base32_i2p_no_padding digest). is_lower c \<or> 50 \<le> code c \<and> code c \<le> 55)"
proof -
  have "length (concat (map byte_bits digest)) = 8 * length digest" by (induction digest) simp_all
  then have "length (base32_i2p_no_padding digest) = 52"
    unfolding base32_reference by (simp add: length_b32_groups assms)
  then show ?thesis
    using set_b32_groups b32_alphabet_chars unfolding base32_reference by blast
qed

lemma b32_host:
  assumes "length digest = 32"
  shows "is_i2p_b32_host (base32_i2p_no_padding digest @ ''.b32.i2p'')"
  using b32_label [OF assms] unfolding is_i2p_b32_host_def strip_suffix_append by simp

lemma unique_id_valid: "p \<in> {''peerline-inbound'', ''peerline-outbound''} \<Longrightarrow>
    validate_sam_id (unique_sam_session_id r p) = Inr ()"
proof -
  assume p: "p \<in> {''peerline-inbound'', ''peerline-outbound''}"
  have "is_hex_lower c \<Longrightarrow> is_alnum c" for c
    by (auto simp: is_hex_lower_def is_alnum_def is_lower_def is_digit_def)
  then have "\<forall>c \<in> set (hex_str r). is_alnum c" using hex_str_chars [of r] by blast
  moreover have "\<forall>c \<in> set (''peerline-inbound'' @ ''-''). is_alnum c \<or> c = CHR ''-''"
    "\<forall>c \<in> set (''peerline-outbound'' @ ''-''). is_alnum c \<or> c = CHR ''-''" by code_simp+
  ultimately have "\<forall>c \<in> set (p @ ''-'' @ hex_str r). is_alnum c \<or> c = CHR ''-'' \<or> c = CHR ''_''"
    using p unfolding set_append append_assoc [symmetric] by blast
  with p show ?thesis by (auto simp: validate_sam_id_def unique_sam_session_id_def)
qed

lemma session_address:
  assumes "create_i2p_stream_session sha256 b64 random connection = (s, Inr session)"
  shows "\<exists>x. i2p_b32 session = base32_i2p_no_padding (sha256 x) @ ''.b32.i2p'' \<and>
    i2p_id session = unique_sam_session_id random ''peerline-inbound''"
  using assms
  by (auto simp: create_i2p_stream_session_def sam_bind_def sam_from_def sam_return_def i2p_b32_address_def
      and_then_Inr split: prod.splits sum.splits)

lemma to_lower_host:
  assumes "\<forall>c \<in> set l. is_lower c \<or> 50 \<le> code c \<and> code c \<le> 55"
  shows "to_lower (l @ ''.b32.i2p'') = l @ ''.b32.i2p''"
  using assms by (intro to_lower_id) (auto simp: is_lower_def is_upper_def code_def)

text \<open>
  The destination a receiver announces over I2P is one its senders accept: whatever the bridge
  answers, if a session is created then its address is a well-formed base32 host for the sender's
  check and for the URL normaliser, and its identifier passes the check every later command makes.
\<close>

theorem i2p_session_acceptable:
  assumes "create_i2p_stream_session sha256 b64 random connection = (s, Inr session)"
    and "\<And>x. length (sha256 x) = 32"
    and "wu_parse wu (''ws://'' @ i2p_b32 session) = Some u" "wu_scheme wu u = ''ws''"
      "wu_host wu u = Some (i2p_b32 session)"
  shows "is_i2p_b32_host (i2p_b32 session) \<and> normalize_i2p_url wu (i2p_b32 session) = Inr (wu_text wu u) \<and>
    validate_sam_id (i2p_id session) = Inr ()"
proof -
  from session_address [OF assms(1)] obtain x where x:
      "i2p_b32 session = base32_i2p_no_padding (sha256 x) @ ''.b32.i2p''"
      "i2p_id session = unique_sam_session_id random ''peerline-inbound''" by blast
  note label = b32_label [OF assms(2) [of x]]
  have host: "is_i2p_b32_host (i2p_b32 session)" unfolding x(1) by (rule b32_host [OF assms(2)])
  have low: "to_lower (i2p_b32 session) = i2p_b32 session"
    unfolding x(1) using label by (intro to_lower_host) blast
  have "CHR '':'' \<notin> set (i2p_b32 session)"
    unfolding x(1) using label by (auto simp: is_lower_def code_def)
  then have "\<not> contains_sub ''://'' (i2p_b32 session)" by (auto simp: contains_sub_iff)
  then have "with_ws_scheme (i2p_b32 session) = ''ws://'' @ i2p_b32 session" by (simp add: with_ws_scheme_def)
  moreover have "ends_with ''.i2p'' (i2p_b32 session)" "ends_with ''.b32.i2p'' (i2p_b32 session)"
    unfolding x(1) ends_with_def by simp_all
  ultimately have "normalize_i2p_url wu (i2p_b32 session) = Inr (wu_text wu u)"
    using assms(3-5) host low by (simp add: normalize_i2p_url_def plain_ws_url_def Let_def)
  with host unique_id_valid [of "''peerline-inbound''"] x(2) show ?thesis by simp
qed

text \<open>A bridge that answers both commands, and URLs that are their own text.\<close>

definition demo_url :: "string web_url" where
  "demo_url = \<lparr>wu_parse = Some, wu_scheme = \<lambda>u. takeWhile (\<lambda>c. c \<noteq> CHR '':'') u, wu_host = \<lambda>u. Some (drop 5 u),
     wu_port = \<lambda>u. None, wu_set_scheme = \<lambda>s u. Some (s @ dropWhile (\<lambda>c. c \<noteq> CHR '':'') u), wu_text = \<lambda>u. u\<rparr>"

text \<open>What the bridge's answer makes of a command.\<close>

lemma command_ok_answered:
  assumes "\<not> sc_taken s" "take_line (sc_input s) = (line, rest)" "utf8_valid (map unat line)" "line \<noteq> []"
    and "trim_line_end (bytes_str line) = answer" "starts_with p answer"
    and "sam_field (parse_sam_fields answer) ''RESULT'' = Some ''OK''"
  shows "command_ok command p s = (s\<lparr>sc_output := sc_output s @ command, sc_input := rest\<rparr>, Inr ())"
  using assms by (simp add: command_ok_def sam_bind_def sam_write_all_def sam_read_line_def sam_return_def Let_def)

lemma dest_generate_answered:
  assumes "\<not> sc_taken s" "take_line (sc_input s) = (line, rest)" "utf8_valid (map unat line)" "line \<noteq> []"
    and "parse_sam_fields (trim_line_end (bytes_str line)) = fs" "sam_field fs ''RESULT'' = Some ''OK''"
    and "sam_field fs ''PUB'' = Some pub" "sam_field fs ''PRIV'' = Some priv"
  shows "dest_generate s =
    (s\<lparr>sc_output := sc_output s @ ''DEST GENERATE SIGNATURE_TYPE=7'' @ nl, sc_input := rest\<rparr>,
     Inr \<lparr>sd_public = pub, sd_private = priv\<rparr>)"
  using assms
  by (simp add: dest_generate_def sam_bind_def sam_write_all_def sam_read_line_def sam_return_def sam_from_def
      Let_def)

definition demo_answer1 :: string where "demo_answer1 = ''HELLO REPLY RESULT=OK''"
definition demo_answer2 :: string where "demo_answer2 = ''DEST REPLY PUB=AA PRIV=BB RESULT=OK''"

definition demo_input :: bytes where
  "demo_input = str_bytes (demo_answer1 @ nl @ demo_answer2 @ nl)"

lemma demo_hello:
  "sam_connect (Some demo_input) =
    (\<lparr>sc_input = str_bytes (demo_answer2 @ nl), sc_output = ''HELLO VERSION MIN=3.1 MAX=3.1'' @ nl,
      sc_taken = False\<rparr>, Inr ())"
proof -
  have "take_line demo_input = (str_bytes (demo_answer1 @ nl), str_bytes (demo_answer2 @ nl))" by code_simp
  moreover have "utf8_valid (map unat (str_bytes (demo_answer1 @ nl)))" "str_bytes (demo_answer1 @ nl) \<noteq> []"
    "trim_line_end (demo_answer1 @ nl) = demo_answer1"
    "starts_with ''HELLO REPLY'' demo_answer1"
    "sam_field (parse_sam_fields demo_answer1) ''RESULT'' = Some ''OK''" by code_simp+
  ultimately show ?thesis
    unfolding sam_connect_def sam_hello_def option.case by (subst command_ok_answered [where line = "str_bytes (demo_answer1 @ nl)" and answer = demo_answer1]) simp_all
qed

definition demo_digest :: bytes where "demo_digest = replicate 32 0"
definition demo_host :: string where "demo_host = replicate 52 (CHR ''a'') @ ''.b32.i2p''"

lemma demo_generated:
  "dest_generate \<lparr>sc_input = str_bytes (demo_answer2 @ nl), sc_output = out, sc_taken = False\<rparr> =
    (\<lparr>sc_input = [], sc_output = out @ ''DEST GENERATE SIGNATURE_TYPE=7'' @ nl, sc_taken = False\<rparr>,
     Inr \<lparr>sd_public = ''AA'', sd_private = ''BB''\<rparr>)"
proof -
  have "take_line (str_bytes (demo_answer2 @ nl)) = (str_bytes (demo_answer2 @ nl), [])"
    "utf8_valid (map unat (str_bytes (demo_answer2 @ nl)))" "str_bytes (demo_answer2 @ nl) \<noteq> []"
    "parse_sam_fields (trim_line_end (demo_answer2 @ nl)) =
      [(''PUB'', ''AA''), (''PRIV'', ''BB''), (''RESULT'', ''OK'')]" by code_simp+
  then show ?thesis by (subst dest_generate_answered [where line = "str_bytes (demo_answer2 @ nl)"
        and fs = "[(''PUB'', ''AA''), (''PRIV'', ''BB''), (''RESULT'', ''OK'')]"]) (simp_all add: sam_field_def)
qed

lemma bits_val_zero: "\<forall>x \<in> set xs. \<not> x \<Longrightarrow> bits_val xs = 0"
  by (induction xs) auto

lemma b32_groups_zero:
  "\<forall>x \<in> set xs. \<not> x \<Longrightarrow> c \<in> set (b32_groups xs) \<Longrightarrow> c = CHR ''a''"
proof (induction xs rule: b32_groups.induct)
  case (1 xs)
  show ?case
  proof (cases "xs = []")
    case True
    with 1(3) show ?thesis by simp
  next
    case False
    have "\<forall>x \<in> set (take 5 (xs @ replicate 4 False)). \<not> x"
      using 1(2) by (auto dest!: in_set_takeD)
    then have "b32_alphabet ! bits_val (take 5 (xs @ replicate 4 False)) = CHR ''a''"
      by (simp only: bits_val_zero) (simp add: b32_alphabet_def)
    moreover have "\<forall>x \<in> set (drop 5 xs). \<not> x" using 1(2) by (auto dest: in_set_dropD)
    ultimately show ?thesis
      using 1(3) 1(1) [OF False] unfolding b32_groups_Cons [OF False] list.set(2) insert_iff by blast
  qed
qed

lemma demo_label: "base32_i2p_no_padding demo_digest = replicate 52 (CHR ''a'')"
proof (rule replicate_eqI)
  show "length (base32_i2p_no_padding demo_digest) = 52"
    using b32_label [of demo_digest] by (simp add: demo_digest_def)
  have "x \<in> set (concat (map byte_bits demo_digest)) \<Longrightarrow> \<not> x" for x
    by (auto simp: demo_digest_def byte_bits_def)
  then show "c \<in> set (base32_i2p_no_padding demo_digest) \<Longrightarrow> c = CHR ''a''" for c
    unfolding base32_reference using b32_groups_zero by blast
qed

lemma demo_session:
  "create_i2p_stream_session (\<lambda>_. demo_digest) (\<lambda>_. Some []) [1, 2] (Some demo_input) =
    (\<lparr>sc_input = [], sc_output = (''HELLO VERSION MIN=3.1 MAX=3.1'' @ nl) @ ''DEST GENERATE SIGNATURE_TYPE=7'' @ nl,
      sc_taken = False\<rparr>,
     Inr \<lparr>i2p_destination = ''BB'', i2p_b32 = demo_host, i2p_id = ''peerline-inbound-0102''\<rparr>)"
proof -
  have "base32_i2p_no_padding demo_digest @ ''.b32.i2p'' = demo_host"
    unfolding demo_label demo_host_def by (rule refl)
  moreover have "unique_sam_session_id [1, 2] ''peerline-inbound'' = ''peerline-inbound-0102''" by code_simp
  ultimately show ?thesis
    unfolding create_i2p_stream_session_def demo_hello prod.case sum.case sam_bind_def demo_generated
      sam_from_def sam_return_def i2p_b32_address_def i2p_base64_decode_def Let_def ok_or.simps and_then.simps
      sam_destination.select_convs
    by simp
qed

theorem i2p_session_acceptable_witness:
  "is_i2p_b32_host demo_host \<and> normalize_i2p_url demo_url demo_host = Inr (''ws://'' @ demo_host) \<and>
   validate_sam_id ''peerline-inbound-0102'' = Inr ()"
proof -
  have "length demo_digest = 32" by (simp add: demo_digest_def)
  then show ?thesis
    using i2p_session_acceptable [OF demo_session, of demo_url "''ws://'' @ demo_host"]
    unfolding i2p_session.select_convs by (simp add: demo_url_def)
qed

end
