(* ===== verification/Tunnel_Transfer.thy ===== *)
theory Tunnel_Transfer
  imports Direct_Receive I2p_Address
begin

text \<open>
  A transfer over a websocket (\<open>peerline-net/src/tunnel.rs\<close>): the same session as over TCP, but
  every frame is one binary message, pings are answered in between, and the transcript names the
  route. A connection is the direct one (for the disk and the events) together with the messages
  still to come and those written. The lemmas carry the receiver's guarantees over to this
  transport and show what a successful sender has written.
\<close>

datatype ws_message =
    Ws_Binary bytes | Ws_Text bytes | Ws_Ping bytes | Ws_Pong bytes | Ws_Close | Ws_Frame | Ws_Broken

datatype ws_error =
    Ws_Transfer transfer_error | Ws_UnexpectedText | Ws_Closed | Ws_Stream | Ws_Url url_error | Ws_Connect
  | Ws_Timeout string nat

record ws_conn =
  wc_base :: conn
  wc_in :: "ws_message list"
  wc_out :: "ws_message list"

type_synonym 'a ws_op = "ws_conn \<Rightarrow> ws_conn \<times> (ws_error + 'a)"

definition w_return :: "'a \<Rightarrow> 'a ws_op" where "w_return x c = (c, Inr x)"

definition w_fail :: "ws_error \<Rightarrow> 'a ws_op" where "w_fail e c = (c, Inl e)"

definition w_plain :: "session_error \<Rightarrow> 'a ws_op" where "w_plain e = w_fail (Ws_Transfer (Plain e))"

definition w_fatal :: "session_error \<Rightarrow> 'a ws_op" where "w_fatal e = w_fail (Ws_Transfer (Kinded Fatal e))"

definition w_bind :: "'a ws_op \<Rightarrow> ('a \<Rightarrow> 'b ws_op) \<Rightarrow> 'b ws_op" where
  "w_bind m k c = (case m c of (c', Inl e) \<Rightarrow> (c', Inl e) | (c', Inr x) \<Rightarrow> k x c')"

definition w_ignore :: "'a ws_op \<Rightarrow> unit ws_op" where
  "w_ignore m c = (case m c of (c', _) \<Rightarrow> (c', Inr ()))"

text \<open>A step on the disk or the events, which are those of a direct connection.\<close>

definition w_lift :: "'a session_op \<Rightarrow> 'a ws_op" where
  "w_lift m c =
     (case m (wc_base c) of
        (b, Inl e) \<Rightarrow> (c\<lparr>wc_base := b\<rparr>, Inl (Ws_Transfer e))
      | (b, Inr x) \<Rightarrow> (c\<lparr>wc_base := b\<rparr>, Inr x))"

lemma w_bind_Inr: "w_bind m k c = (c', Inr y) \<longleftrightarrow> (\<exists>c1 x. m c = (c1, Inr x) \<and> k x c1 = (c', Inr y))"
  by (auto simp: w_bind_def split: prod.splits sum.splits)

lemma w_return_Inr: "w_return x c = (c', Inr y) \<longleftrightarrow> c' = c \<and> y = x"
  by (auto simp: w_return_def)

lemma w_fail_Inr [simp]: "w_fail e c \<noteq> (c', Inr y)" "w_plain s c \<noteq> (c', Inr y)" "w_fatal s c \<noteq> (c', Inr y)"
  by (simp_all add: w_fail_def w_plain_def w_fatal_def)

lemma w_lift_Inr: "w_lift m c = (c', Inr x) \<longleftrightarrow> (\<exists>b. m (wc_base c) = (b, Inr x) \<and> c' = c\<lparr>wc_base := b\<rparr>)"
  by (auto simp: w_lift_def split: prod.splits sum.splits)

lemmas ws_simps = w_bind_Inr w_return_Inr w_lift_Inr

section \<open>Frames as messages\<close>

definition w_write :: "session_env \<Rightarrow> wire_frame \<Rightarrow> unit ws_op" where
  "w_write env f c =
     (case env_wire_ser env f of
        None \<Rightarrow> (c, Inl (Ws_Transfer (Plain (Sess_Wire Wire_Unserializable))))
      | Some bs \<Rightarrow> (c\<lparr>wc_out := wc_out c @ [Ws_Binary bs]\<rparr>, Inr ()))"

text \<open>
  The read loop: the messages not taken, the messages written on the way, and the frame. A stream
  that has ended is a closed one.
\<close>

fun read_messages ::
  "session_env \<Rightarrow> ws_message list \<Rightarrow> ws_message list \<times> ws_message list \<times> (ws_error + wire_frame)" where
  "read_messages env [] = ([], [], Inl Ws_Closed)"
| "read_messages env (Ws_Binary bs # ms) =
     (ms, [], case env_wire_de env bs of
        None \<Rightarrow> Inl (Ws_Transfer (Plain (Sess_Wire Wire_Malformed))) | Some f \<Rightarrow> Inr f)"
| "read_messages env (Ws_Text bs # ms) = (ms, [], Inl Ws_UnexpectedText)"
| "read_messages env (Ws_Ping bs # ms) =
     (case read_messages env ms of (rest, out, r) \<Rightarrow> (rest, Ws_Pong bs # out, r))"
| "read_messages env (Ws_Pong bs # ms) = read_messages env ms"
| "read_messages env (Ws_Frame # ms) = read_messages env ms"
| "read_messages env (Ws_Close # ms) = (ms, [], Inl Ws_Closed)"
| "read_messages env (Ws_Broken # ms) = (ms, [], Inl Ws_Stream)"

definition w_read :: "session_env \<Rightarrow> wire_frame ws_op" where
  "w_read env c =
     (case read_messages env (wc_in c) of
        (rest, out, r) \<Rightarrow> (c\<lparr>wc_in := rest, wc_out := wc_out c @ out\<rparr>, r))"

definition w_write_secure :: "session_env \<Rightarrow> secure_frame \<Rightarrow> secure_channel \<Rightarrow> secure_channel ws_op" where
  "w_write_secure env f ch =
     (case encrypt_secure (env_aead env) (env_secure_ser env) f ch of
        (ch', Inl e) \<Rightarrow> w_plain (Sess_Wire e)
      | (ch', Inr x) \<Rightarrow> w_bind (w_write env (Secure x)) (\<lambda>_. w_return ch'))"

definition w_read_secure :: "session_env \<Rightarrow> secure_channel \<Rightarrow> (secure_channel \<times> secure_frame) ws_op" where
  "w_read_secure env ch =
     w_bind (w_read env) (\<lambda>f.
       case f of
         Secure x \<Rightarrow>
           (case decrypt_secure (env_aead env) (env_secure_de env) x ch of
              (ch', Inl e) \<Rightarrow> w_plain (Sess_Wire e)
            | (ch', Inr g) \<Rightarrow> w_return (ch', g))
       | _ \<Rightarrow> w_plain (Sess_Wire Wire_NotSecure))"

section \<open>The sender\<close>

record tunnel_session =
  ts_endpoint :: string
  ts_opaque_state :: bytes
  ts_server_response :: bytes
  ts_client_handshake :: client_handshake
  ts_server_hello :: server_hello
  ts_transcript :: transcript
  ts_resume_offset :: u64

definition public_tunnel_route_label :: string where "public_tunnel_route_label = ''public-tunnel''"
definition tor_onion_route_label :: string where "tor_onion_route_label = ''tor-onion''"
definition i2p_route_label :: string where "i2p_route_label = ''i2p''"
definition public_tunnel_open_timeout :: nat where "public_tunnel_open_timeout = 10"
definition i2p_open_timeout :: nat where "i2p_open_timeout = 75"

definition open_websocket_session ::
  "session_env \<Rightarrow> string \<Rightarrow> human_name option \<Rightarrow> human_code \<Rightarrow> transfer_descriptor \<Rightarrow> string \<Rightarrow>
   tunnel_session ws_op" where
  "open_websocket_session env endpoint name hcode d route_label =
     (let t = direct_transcript_for_route name route_label;
          handshake = client_start (env_kex env) (env_x25519_secret env)
      in w_bind (w_lift (s_from (ok_or (opq_client_start (env_opaque env) (str_bytes (code_str hcode))) Sess_Opaque)))
           (\<lambda>(request, opaque_state).
         w_bind (w_write env (ClientIntro protocol_version name d request (chs_hello handshake))) (\<lambda>_.
         w_bind (w_read env) (\<lambda>f.
           case f of
             ServerIntro version offset response hello \<Rightarrow>
               if version = protocol_version then
                 w_return \<lparr>ts_endpoint = endpoint, ts_opaque_state = opaque_state,
                   ts_server_response = response, ts_client_handshake = handshake,
                   ts_server_hello = hello, ts_transcript = t, ts_resume_offset = offset\<rparr>
               else w_fatal (Sess_Version version)
           | WireError m \<Rightarrow> w_fatal (Sess_Peer m)
           | _ \<Rightarrow> w_plain Sess_UnexpectedFrame))))"

definition tunnel_sender_keys :: "session_env \<Rightarrow> tunnel_session \<Rightarrow> human_code \<Rightarrow> session_keys ws_op" where
  "tunnel_sender_keys env s hcode =
     w_bind (w_lift (s_from (ok_or (opq_client_finish (env_opaque env) (ts_opaque_state s)
              (str_bytes (code_str hcode)) (ts_server_response s)) Sess_Opaque))) (\<lambda>(finalization, okey).
     w_bind (w_lift (s_from (case client_finish (env_kex env) (env_aead env) (env_blake3 env) (env_kem_coins env)
                (ts_client_handshake s) (ts_server_hello s) okey (ts_transcript s) of
              Inl e \<Rightarrow> Inl (Sess_Handshake e) | Inr r \<Rightarrow> Inr r))) (\<lambda>(kem, keys).
     w_bind (w_write env (ClientFinish finalization kem)) (\<lambda>_. w_return keys)))"

fun tunnel_send_chunks ::
  "session_env \<Rightarrow> transfer_id \<Rightarrow> u64 \<Rightarrow> u64 \<Rightarrow> bytes list \<Rightarrow> secure_channel \<Rightarrow> secure_channel ws_op" where
  "tunnel_send_chunks env tid tot sent [] ch = w_return ch"
| "tunnel_send_chunks env tid tot sent (bs # rest) ch =
     (let sent' = sent + of_nat (length bs) in
      w_bind (w_write_secure env (SecureArchiveChunk bs) ch) (\<lambda>ch'.
      w_bind (w_lift (emit_progress tid sent' tot)) (\<lambda>_.
        tunnel_send_chunks env tid tot sent' rest ch')))"

definition tunnel_send_archive ::
  "session_env \<Rightarrow> transfer_id \<Rightarrow> transfer_descriptor \<Rightarrow> archive \<Rightarrow> u64 \<Rightarrow> secure_channel \<Rightarrow> secure_channel ws_op" where
  "tunnel_send_archive env tid d a offset ch0 =
     w_bind (w_write_secure env (SecureHeader (ar_compression a)) ch0) (\<lambda>ch.
     w_bind (tunnel_send_chunks env tid (td_archive_bytes d) offset
              (file_chunks (drop (unat offset) (ar_file a))) ch) (\<lambda>ch'.
       w_write_secure env SecureDone ch'))"

definition tunnel_await_ack :: "session_env \<Rightarrow> unit ws_op" where
  "tunnel_await_ack env =
     w_bind (w_read env) (\<lambda>f.
       case f of
         Ack \<Rightarrow> w_return ()
       | WireError m \<Rightarrow> w_fatal (Sess_Peer m)
       | _ \<Rightarrow> w_fatal Sess_UnexpectedFrame)"

text \<open>The closing handshake is attempted and its outcome ignored.\<close>

definition w_close :: "unit ws_op" where
  "w_close c = (c\<lparr>wc_out := wc_out c @ [Ws_Close]\<rparr>, Inr ())"

definition complete_public_tunnel_transfer ::
  "session_env \<Rightarrow> tunnel_session \<Rightarrow> archive \<Rightarrow> human_code \<Rightarrow> transfer_id \<Rightarrow> transfer_descriptor \<Rightarrow>
   sent_transfer ws_op" where
  "complete_public_tunnel_transfer env s a hcode tid d =
     (if td_archive_bytes d < ts_resume_offset s then w_fatal Sess_ResumeBeyond
      else
        w_bind (w_lift (emit_stage Authenticating)) (\<lambda>_.
        w_bind (tunnel_sender_keys env s hcode) (\<lambda>keys.
        w_bind (w_lift (emit_transfer_started tid (ts_endpoint s) (td_files d) (td_archive_bytes d)
                 (ts_resume_offset s))) (\<lambda>_.
        w_bind (w_lift (announce_resume (ts_resume_offset s))) (\<lambda>_.
        w_bind (w_lift (emit_stage Transferring)) (\<lambda>_.
        w_bind (tunnel_send_archive env tid d a (ts_resume_offset s)
                 \<lparr>ch_aead = chunk_aead_new (sk_send_key keys) session_key_tag, ch_sequence = 0\<rparr>) (\<lambda>_.
        w_bind (tunnel_await_ack env) (\<lambda>_.
        w_bind w_close (\<lambda>_.
        w_bind (w_lift (emit_stage Complete)) (\<lambda>_.
          w_return \<lparr>st_endpoint = ts_endpoint s, st_files = td_files d,
            st_bytes = mf_total_bytes (ar_manifest a)\<rparr>))))))))))"

text \<open>
  Dialling: the endpoint is normalised first; the messages the peer will send are what the dial
  returns, or nothing when no websocket is opened. A session that is not open in time is an error
  (\<open>late\<close>).
\<close>

definition send_prebuilt_tunnel ::
  "connection_route \<Rightarrow> string \<Rightarrow> nat \<Rightarrow> (string \<Rightarrow> url_error + string) \<Rightarrow> (string \<Rightarrow> string) \<Rightarrow>
   session_env \<Rightarrow> (string \<Rightarrow> ws_message list option) \<Rightarrow> bool \<Rightarrow> send_options \<Rightarrow> archive \<Rightarrow> transfer_id \<Rightarrow> string \<Rightarrow>
   sent_transfer ws_op" where
  "send_prebuilt_tunnel route route_label open_timeout normal dialing env dial late opts a tid raw c =
     (case normal raw of
        Inl e \<Rightarrow> (c, Inl (Ws_Url e))
      | Inr endpoint \<Rightarrow>
          let d = descriptor_for_archive (so_source_id opts) a in
          w_bind (w_lift (emit_stage (Connecting route))) (\<lambda>_.
          w_bind (w_lift (emit_message (dialing endpoint))) (\<lambda>_ c1.
            if late then (c1, Inl (Ws_Timeout endpoint open_timeout))
            else
              case dial endpoint of
                None \<Rightarrow> (c1, Inl Ws_Connect)
              | Some incoming \<Rightarrow>
                  w_bind (open_websocket_session env endpoint (so_name opts) (so_code opts) d route_label)
                    (\<lambda>s. complete_public_tunnel_transfer env s a (so_code opts) tid d)
                    (c1\<lparr>wc_in := incoming, wc_out := []\<rparr>))) c)"

definition send_prebuilt_public_tunnel where
  "send_prebuilt_public_tunnel wu =
     send_prebuilt_tunnel PublicTunnel public_tunnel_route_label public_tunnel_open_timeout
       (normalize_public_tunnel_url wu) (\<lambda>e. ''dialing '' @ e)"

definition send_prebuilt_tor_onion where
  "send_prebuilt_tor_onion wu socks_proxy =
     send_prebuilt_tunnel TorOnion tor_onion_route_label public_tunnel_open_timeout
       (normalize_tor_onion_url wu) (\<lambda>e. ''dialing '' @ e @ '' via SOCKS5 '' @ sock_str socks_proxy)"

definition send_prebuilt_i2p where
  "send_prebuilt_i2p wu sam_addr =
     send_prebuilt_tunnel I2p i2p_route_label i2p_open_timeout
       (normalize_i2p_url wu) (\<lambda>e. ''dialing '' @ e @ '' via I2P SAM '' @ sock_str sam_addr)"


section \<open>The receiver\<close>

definition w_accept_intro ::
  "session_env \<Rightarrow> wire_frame \<Rightarrow> (human_name option \<times> transfer_descriptor \<times> bytes \<times> client_hello) ws_op" where
  "w_accept_intro env f =
     (case f of
        ClientIntro version name d request hello \<Rightarrow>
          if version = protocol_version then w_return (name, d, request, hello)
          else w_bind (w_ignore (w_write env (WireError (version_message version)))) (\<lambda>_.
                 w_plain (Sess_Version version))
      | _ \<Rightarrow> w_plain Sess_UnexpectedFrame)"

definition tunnel_receiver_keys ::
  "session_env \<Rightarrow> recv_options \<Rightarrow> string \<Rightarrow> human_name option \<Rightarrow> bytes \<Rightarrow> client_hello \<Rightarrow> u64 \<Rightarrow> session_keys ws_op" where
  "tunnel_receiver_keys env opts route_label name request hello offset =
     w_bind (w_lift (s_from (ok_or (opq_record (env_opaque env) (str_bytes (code_str (ro_code opts)))
              (str_bytes (name_str (ro_name opts)))) Sess_Opaque))) (\<lambda>record_bytes.
     w_bind (w_lift (s_from (ok_or (opq_server_start (env_opaque env) record_bytes request) Sess_Opaque)))
       (\<lambda>(response, opaque_state).
     let handshake = server_start (env_kex env) (env_x25519_secret env) (env_kem_secret env) hello in
     w_bind (w_write env (ServerIntro protocol_version offset response (shs_hello handshake))) (\<lambda>_.
     w_bind (w_read env) (\<lambda>f.
       case f of
         ClientFinish finalization kem \<Rightarrow>
           w_bind (w_lift (s_from (ok_or (opq_server_finish (env_opaque env) opaque_state finalization) Sess_Opaque)))
             (\<lambda>okey.
           w_lift (s_from (case server_finish (env_kex env) (env_aead env) (env_blake3 env) handshake hello kem
                     okey (direct_transcript_for_route name route_label) of
                     Inl e \<Rightarrow> Inl (Sess_Handshake e) | Inr keys \<Rightarrow> Inr keys)))
       | _ \<Rightarrow> w_plain Sess_UnexpectedFrame))))"

definition tunnel_receive_frame ::
  "session_env \<Rightarrow> transfer_id \<Rightarrow> transfer_descriptor \<Rightarrow> secure_channel \<Rightarrow> resume_state \<Rightarrow>
   (secure_channel \<times> resume_state \<times> bool) ws_op" where
  "tunnel_receive_frame env tid d ch st =
     w_bind (w_read_secure env ch) (\<lambda>(ch', f).
       case f of
         SecureArchiveChunk bs \<Rightarrow>
           w_bind (w_lift (s_append env d bs st)) (\<lambda>(st', n).
           w_bind (w_lift (emit_progress tid n (td_archive_bytes d))) (\<lambda>_.
             w_return (ch', st', False)))
       | SecureDone \<Rightarrow> w_return (ch', st, True)
       | SecureHeader _ \<Rightarrow> w_plain Sess_DuplicateHeader)"

lemma read_messages_shrinks:
  "read_messages env ms = (rest, out, Inr f) \<Longrightarrow> length rest < length ms"
  by (induction env ms arbitrary: out rule: read_messages.induct) (auto split: prod.splits intro: less_SucI)

lemma w_read_shrinks: "w_read env c = (c', Inr f) \<Longrightarrow> length (wc_in c') < length (wc_in c)"
  by (auto simp: w_read_def split: prod.splits dest: read_messages_shrinks)

lemma w_read_secure_shrinks:
  assumes "w_read_secure env ch c = (c', Inr x)"
  shows "length (wc_in c') < length (wc_in c)"
proof -
  from assms obtain c1 f where r: "w_read env c = (c1, Inr f)" and k: "(case f of
         Secure x \<Rightarrow>
           (case decrypt_secure (env_aead env) (env_secure_de env) x ch of
              (ch', Inl e) \<Rightarrow> w_plain (Sess_Wire e)
            | (ch', Inr g) \<Rightarrow> w_return (ch', g))
       | _ \<Rightarrow> w_plain (Sess_Wire Wire_NotSecure)) c1 = (c', Inr x)"
    unfolding w_read_secure_def w_bind_Inr by blast
  from k have "c' = c1" by (cases f) (auto simp: w_return_Inr split: prod.splits sum.splits)
  with w_read_shrinks [OF r] show ?thesis by simp
qed

lemma w_lift_in: "w_lift m c = (c', r) \<Longrightarrow> wc_in c' = wc_in c \<and> wc_out c' = wc_out c"
  by (auto simp: w_lift_def split: prod.splits sum.splits)

lemma tunnel_receive_frame_shrinks:
  assumes "tunnel_receive_frame env tid d ch st c = (c', Inr x)"
  shows "length (wc_in c') < length (wc_in c)"
proof -
  from assms obtain c1 ch' f where r: "w_read_secure env ch c = (c1, Inr (ch', f))"
      and k: "(case f of
         SecureArchiveChunk bs \<Rightarrow>
           w_bind (w_lift (s_append env d bs st)) (\<lambda>(st', n).
           w_bind (w_lift (emit_progress tid n (td_archive_bytes d))) (\<lambda>_.
             w_return (ch', st', False)))
       | SecureDone \<Rightarrow> w_return (ch', st, True)
       | SecureHeader _ \<Rightarrow> w_plain Sess_DuplicateHeader) c1 = (c', Inr x)"
    by (auto simp: tunnel_receive_frame_def w_bind_Inr)
  from k have "wc_in c' = wc_in c1"
    by (cases f) (auto simp: ws_simps)
  with w_read_secure_shrinks [OF r] show ?thesis by simp
qed

text \<open>Every turn takes a message off the stream, so the loop ends.\<close>

function tunnel_receive_chunks ::
  "session_env \<Rightarrow> transfer_id \<Rightarrow> transfer_descriptor \<Rightarrow> secure_channel \<Rightarrow> resume_state \<Rightarrow> ws_conn \<Rightarrow>
   ws_conn \<times> (ws_error + resume_state)" where
  "tunnel_receive_chunks env tid d ch st c =
     (case tunnel_receive_frame env tid d ch st c of
        (c', Inl e) \<Rightarrow> (c', Inl e)
      | (c', Inr (ch', st', finished)) \<Rightarrow>
          if finished then (c', Inr st') else tunnel_receive_chunks env tid d ch' st' c')"
  by pat_completeness auto
termination
  by (relation "measure (\<lambda>(env, tid, d, ch, st, c). length (wc_in c))")
    (auto dest!: tunnel_receive_frame_shrinks [OF sym])

declare tunnel_receive_chunks.simps [simp del]

definition tunnel_finish_receive ::
  "session_env \<Rightarrow> string \<Rightarrow> recv_options \<Rightarrow> transfer_descriptor \<Rightarrow> compression \<Rightarrow> resume_state \<Rightarrow>
   received_transfer ws_op" where
  "tunnel_finish_receive env peer opts d cmp st =
     w_bind (w_lift (emit_stage Verifying)) (\<lambda>_.
     w_bind (w_lift (s_resume (complete_partial (env_blake3 env) st d))) (\<lambda>archive.
     w_bind (w_lift (s_unpack env opts cmp archive)) (\<lambda>r.
       case r of
         Inr mf \<Rightarrow>
           w_bind (w_lift (s_resume (remove_partial st))) (\<lambda>_.
           w_bind (w_write env Ack) (\<lambda>_.
           w_bind (w_lift (emit_stage Complete)) (\<lambda>_.
             w_return \<lparr>rt_peer = peer, rt_files = file_count mf, rt_bytes = mf_total_bytes mf\<rparr>)))
       | Inl e \<Rightarrow>
           w_bind (w_ignore (w_lift (s_resume (remove_partial st)))) (\<lambda>_.
           w_bind (w_ignore (w_write env (WireError (env_archive_message env e)))) (\<lambda>_.
             w_fatal (Sess_Archive e))))))"

definition tunnel_receive_archive ::
  "session_env \<Rightarrow> transfer_id \<Rightarrow> string \<Rightarrow> recv_options \<Rightarrow> transfer_descriptor \<Rightarrow> resume_state \<Rightarrow>
   secure_channel \<Rightarrow> secure_frame \<Rightarrow> received_transfer ws_op" where
  "tunnel_receive_archive env tid peer opts d st ch header =
     (case header of
        SecureHeader cmp \<Rightarrow>
          if cmp \<noteq> td_compression d then w_plain Sess_CompressionMismatch
          else
            w_bind (w_lift (emit_stage ReceivingManifest)) (\<lambda>_.
            w_bind (w_lift (s_create_dir_all (components (ro_destination opts)))) (\<lambda>_.
            w_bind (tunnel_receive_chunks env tid d ch st) (\<lambda>st'.
              tunnel_finish_receive env peer opts d cmp st')))
      | _ \<Rightarrow> w_plain Sess_NoHeader)"

definition tunnel_receive_session ::
  "session_env \<Rightarrow> transfer_id \<Rightarrow> string \<Rightarrow> recv_options \<Rightarrow> string \<Rightarrow> human_name option \<Rightarrow> transfer_descriptor \<Rightarrow>
   bytes \<Rightarrow> client_hello \<Rightarrow> received_transfer ws_op" where
  "tunnel_receive_session env tid peer opts route_label name d request hello =
     w_bind (w_lift (s_resume (resume_open (env_hex env) (env_json env) (env_now env)
              (components (ro_destination opts)) d))) (\<lambda>st.
     w_bind (w_lift (emit_event (TransferStarted tid peer (td_files d) (td_archive_bytes d) (rs_offset st)))) (\<lambda>_.
     w_bind (w_lift (emit_stage Authenticating)) (\<lambda>_.
     w_bind (tunnel_receiver_keys env opts route_label name request hello (rs_offset st)) (\<lambda>keys.
     w_bind (w_read_secure env
              \<lparr>ch_aead = chunk_aead_new (sk_recv_key keys) session_key_tag, ch_sequence = 0\<rparr>)
       (\<lambda>(ch, header). tunnel_receive_archive env tid peer opts d st ch header)))))"

definition receive_ws_stream ::
  "session_env \<Rightarrow> transfer_id \<Rightarrow> string \<Rightarrow> recv_options \<Rightarrow> string \<Rightarrow> received_transfer ws_op" where
  "receive_ws_stream env tid peer opts route_label =
     w_bind (w_read env) (\<lambda>f.
     w_bind (w_accept_intro env f) (\<lambda>(name, d, request, hello).
       if name \<noteq> None \<and> name \<noteq> Some (ro_name opts) then w_plain Sess_NameMismatch
       else tunnel_receive_session env tid peer opts route_label name d request hello))"

text \<open>
  The accept loop. A connection whose websocket handshake fails is dropped without an event; when
  the connections to come run out, the receiver is still waiting.
\<close>

record ws_incoming =
  wi_env :: session_env
  wi_transfer :: transfer_id
  wi_messages :: "ws_message list option"

fun recv_ws_bound ::
  "(ws_error \<Rightarrow> string) \<Rightarrow> recv_options \<Rightarrow> string \<Rightarrow> connection_route \<Rightarrow> string \<Rightarrow> ws_incoming list \<Rightarrow> fs \<Rightarrow>
   peerline_event list \<Rightarrow> fs \<times> peerline_event list \<times> received_transfer option" where
  "recv_ws_bound msg opts endpoint_label route route_label [] fs evs = (fs, evs, None)"
| "recv_ws_bound msg opts endpoint_label route route_label (i # rest) fs evs =
     (case wi_messages i of
        None \<Rightarrow> recv_ws_bound msg opts endpoint_label route route_label rest fs evs
      | Some ms \<Rightarrow>
          (let c = \<lparr>wc_base = \<lparr>cn_fs = fs, cn_in = [], cn_out = [],
                       cn_events = evs @ [StageChanged (Connecting route)]\<rparr>, wc_in = ms, wc_out = []\<rparr>
           in case receive_ws_stream (wi_env i) (wi_transfer i) endpoint_label opts route_label c of
                (c', Inr r) \<Rightarrow> (cn_fs (wc_base c'), cn_events (wc_base c'), Some r)
              | (c', Inl e) \<Rightarrow>
                  recv_ws_bound msg opts endpoint_label route route_label rest (cn_fs (wc_base c'))
                    (cn_events (wc_base c') @ [StageChanged (Failed (msg e)),
                       Message (endpoint_label @ '': '' @ msg e)])))"

definition recv_public_tunnel_bound where
  "recv_public_tunnel_bound msg opts label = recv_ws_bound msg opts label PublicTunnel public_tunnel_route_label"

definition recv_tor_onion_bound where
  "recv_tor_onion_bound msg opts label = recv_ws_bound msg opts label TorOnion tor_onion_route_label"

definition recv_i2p_bound where
  "recv_i2p_bound msg opts label = recv_ws_bound msg opts label I2p i2p_route_label"

section \<open>What the receiver may touch\<close>

definition w_quiet :: "path \<Rightarrow> 'a ws_op \<Rightarrow> bool" where
  "w_quiet D m \<longleftrightarrow> (\<forall>c c' r. m c = (c', r) \<longrightarrow> agree_outside D (cn_fs (wc_base c)) (cn_fs (wc_base c')))"

definition w_guarded :: "path \<Rightarrow> bool \<Rightarrow> 'a ws_op \<Rightarrow> bool" where
  "w_guarded D P m \<longleftrightarrow>
     (\<forall>c c' r. m c = (c', r) \<longrightarrow> agree_outside D (cn_fs (wc_base c)) (cn_fs (wc_base c')) \<or> P)"

lemma w_quiet_lift: "quiet D m \<Longrightarrow> w_quiet D (w_lift m)"
  by (auto simp: quiet_def w_quiet_def w_lift_def split: prod.splits sum.splits)

lemma w_quiet_bind: "w_quiet D m \<Longrightarrow> (\<And>x. w_quiet D (k x)) \<Longrightarrow> w_quiet D (w_bind m k)"
  unfolding w_quiet_def w_bind_def
  by (fastforce split: prod.splits sum.splits intro: agree_outside_trans)

lemma w_quiet_basic [simp]:
  "w_quiet D (w_return x)" "w_quiet D (w_fail e)" "w_quiet D (w_plain s)" "w_quiet D (w_fatal s)"
  "w_quiet D (w_read env)" "w_quiet D (w_write env f)"
  by (auto simp: w_quiet_def w_return_def w_fail_def w_plain_def w_fatal_def w_read_def w_write_def
      split: prod.splits option.splits)

lemma w_quiet_read_secure [simp]: "w_quiet D (w_read_secure env ch)"
  unfolding w_read_secure_def by (intro w_quiet_bind) (auto split: wire_frame.splits prod.splits sum.splits)

lemma w_quiet_ignore: "w_quiet D m \<Longrightarrow> w_quiet D (w_ignore m)"
  by (auto simp: w_quiet_def w_ignore_def split: prod.splits)

lemma w_quiet_accept_intro: "w_quiet D (w_accept_intro env f)"
  by (auto simp: w_accept_intro_def intro!: w_quiet_bind w_quiet_ignore split: wire_frame.splits)

lemma w_quiet_receiver_keys: "w_quiet D (tunnel_receiver_keys env opts route_label name request hello offset)"
  unfolding tunnel_receiver_keys_def Let_def
  by (auto intro!: w_quiet_bind w_quiet_lift split: wire_frame.splits)

lemma w_guarded_quiet: "w_quiet D m \<Longrightarrow> w_guarded D P m"
  by (auto simp: w_quiet_def w_guarded_def)

lemma w_guarded_bind:
  assumes "w_quiet D m" "\<And>c c1 x. m c = (c1, Inr x) \<Longrightarrow> w_guarded D P (k x)"
  shows "w_guarded D P (w_bind m k)"
  unfolding w_guarded_def
proof (intro allI impI)
  fix c c' r
  assume run: "w_bind m k c = (c', r)"
  obtain c1 x where m: "m c = (c1, x)" by fastforce
  then have q: "agree_outside D (cn_fs (wc_base c)) (cn_fs (wc_base c1))" using assms(1) by (simp add: w_quiet_def)
  show "agree_outside D (cn_fs (wc_base c)) (cn_fs (wc_base c')) \<or> P"
  proof (cases x)
    case (Inl e)
    with run m q show ?thesis by (simp add: w_bind_def)
  next
    case (Inr y)
    with run m have "k y c1 = (c', r)" by (simp add: w_bind_def)
    with assms(2) [of c c1 y] m Inr have "agree_outside D (cn_fs (wc_base c1)) (cn_fs (wc_base c')) \<or> P"
      by (simp add: w_guarded_def)
    with q show ?thesis by (blast intro: agree_outside_trans)
  qed
qed

lemma tunnel_receiver_keys_proved:
  assumes "tunnel_receiver_keys env opts route_label name request hello offset c = (c', Inr keys)"
  shows "proved_code env opts"
proof -
  from assms obtain rb resp st c1 c2 f where o:
      "opq_record (env_opaque env) (str_bytes (code_str (ro_code opts))) (str_bytes (name_str (ro_name opts))) = Some rb"
      "opq_server_start (env_opaque env) rb request = Some (resp, st)"
    and k: "(case f of
         ClientFinish finalization kem \<Rightarrow>
           w_bind (w_lift (s_from (ok_or (opq_server_finish (env_opaque env) st finalization) Sess_Opaque)))
             (\<lambda>okey.
           w_lift (s_from (case server_finish (env_kex env) (env_aead env) (env_blake3 env)
                     (server_start (env_kex env) (env_x25519_secret env) (env_kem_secret env) hello) hello kem
                     okey (direct_transcript_for_route name route_label) of
                     Inl e \<Rightarrow> Inl (Sess_Handshake e) | Inr keys \<Rightarrow> Inr keys)))
       | _ \<Rightarrow> w_plain Sess_UnexpectedFrame) c2 = (c', Inr keys)"
    by (auto simp: tunnel_receiver_keys_def ws_simps s_from_Inr Let_def result_simps)
  from k obtain fin okey where "opq_server_finish (env_opaque env) st fin = Some okey"
    by (cases f) (auto simp: ws_simps s_from_Inr result_simps)
  with o show ?thesis unfolding proved_code_def by blast
qed

lemma tunnel_receive_frame_quiet:
  assumes "state_in D st" "tunnel_receive_frame env tid d ch st c = (c', r)"
  shows "agree_outside D (cn_fs (wc_base c)) (cn_fs (wc_base c')) \<and>
    (\<forall>ch' st' b. r = Inr (ch', st', b) \<longrightarrow> state_in D st')"
proof -
  obtain c1 x where r: "w_read_secure env ch c = (c1, x)" by fastforce
  have q1: "agree_outside D (cn_fs (wc_base c)) (cn_fs (wc_base c1))"
    using r w_quiet_read_secure [of D env ch] by (simp add: w_quiet_def)
  show ?thesis
  proof (cases x)
    case (Inl e)
    with r assms(2) q1 show ?thesis by (auto simp: tunnel_receive_frame_def w_bind_def)
  next
    case (Inr y)
    obtain ch1 f where y: "y = (ch1, f)" by (cases y)
    show ?thesis
    proof (cases f)
      case (SecureArchiveChunk bs)
      obtain b z where a: "s_append env d bs st (wc_base c1) = (b, z)" by fastforce
      note q2 = s_append_quiet [OF assms(1) a]
      then have "agree_outside D (cn_fs (wc_base c)) (cn_fs b)" using q1 by (blast intro: agree_outside_trans)
      with assms(2) r Inr y SecureArchiveChunk a q2 show ?thesis
        by (auto simp: tunnel_receive_frame_def w_bind_def w_lift_def emit_progress_def emit_event_def w_return_def
            split: sum.splits)
    next
      case (SecureHeader cmp)
      with assms(2) r Inr y q1 show ?thesis
        by (auto simp: tunnel_receive_frame_def w_bind_def w_plain_def w_fail_def)
    next
      case SecureDone
      with assms r Inr y q1 show ?thesis
        by (auto simp: tunnel_receive_frame_def w_bind_def w_return_def)
    qed
  qed
qed

lemma tunnel_receive_chunks_quiet:
  assumes "state_in D st" "tunnel_receive_chunks env tid d ch st c = (c', r)"
  shows "agree_outside D (cn_fs (wc_base c)) (cn_fs (wc_base c')) \<and> (\<forall>st'. r = Inr st' \<longrightarrow> state_in D st')"
  using assms
proof (induction env tid d ch st c rule: tunnel_receive_chunks.induct)
  case (1 env tid d ch st c)
  obtain c1 x where f: "tunnel_receive_frame env tid d ch st c = (c1, x)" by fastforce
  note q = tunnel_receive_frame_quiet [OF "1.prems"(1) f]
  show ?case
  proof (cases x)
    case (Inl e)
    with f "1.prems"(2) q show ?thesis by (auto simp: tunnel_receive_chunks.simps)
  next
    case (Inr y)
    obtain ch1 st1 b where y: "y = (ch1, st1, b)" by (cases y)
    show ?thesis
    proof (cases b)
      case True
      with f Inr y "1.prems"(2) q show ?thesis by (auto simp: tunnel_receive_chunks.simps)
    next
      case False
      with f Inr y "1.prems"(2) have rec: "tunnel_receive_chunks env tid d ch1 st1 c1 = (c', r)"
        by (simp add: tunnel_receive_chunks.simps)
      have "state_in D st1" using q Inr y by blast
      from "1.IH" [OF f [symmetric] Inr y [symmetric] refl False this rec] q show ?thesis
        by (blast intro: agree_outside_trans)
    qed
  qed
qed


lemma tunnel_finish_guarded:
  assumes "state_in D st"
  shows "w_guarded D (\<exists>d content. delivered env d content) (tunnel_finish_receive env peer opts d cmp st)"
  unfolding tunnel_finish_receive_def
proof (rule w_guarded_bind [OF w_quiet_lift [OF quiet_basic(6)]],
    rule w_guarded_bind [OF w_quiet_lift [OF quiet_resume [OF confined_complete_partial [OF assms]]]])
  fix c c1 archive
  assume "w_lift (s_resume (complete_partial (env_blake3 env) st d)) c = (c1, Inr archive)"
  then have "delivered env d archive"
    by (auto simp: w_lift_Inr s_resume_def delivered_def split: prod.splits sum.splits dest!: complete_partial_Inr)
  then have "w_guarded D (\<exists>d content. delivered env d content) m" for m :: "received_transfer ws_op"
    unfolding w_guarded_def by blast
  then show "w_guarded D (\<exists>d content. delivered env d content) (w_bind (w_lift (s_unpack env opts cmp archive)) (\<lambda>r.
       case r of
         Inr mf \<Rightarrow>
           w_bind (w_lift (s_resume (remove_partial st))) (\<lambda>_.
           w_bind (w_write env Ack) (\<lambda>_.
           w_bind (w_lift (emit_stage Complete)) (\<lambda>_.
             w_return \<lparr>rt_peer = peer, rt_files = file_count mf, rt_bytes = mf_total_bytes mf\<rparr>)))
       | Inl e \<Rightarrow>
           w_bind (w_ignore (w_lift (s_resume (remove_partial st)))) (\<lambda>_.
           w_bind (w_ignore (w_write env (WireError (env_archive_message env e)))) (\<lambda>_.
             w_fatal (Sess_Archive e)))))" .
qed

lemma tunnel_archive_guarded:
  assumes "proved_code env opts" "state_in (components (ro_destination opts)) st"
  shows "w_guarded (components (ro_destination opts))
    (proved_code env opts \<and> (\<exists>d content. delivered env d content))
    (tunnel_receive_archive env tid peer opts d st ch header)"
proof -
  let ?D = "components (ro_destination opts)"
  let ?P = "proved_code env opts \<and> (\<exists>d content. delivered env d content)"
  have fin: "state_in ?D st' \<Longrightarrow> w_guarded ?D ?P (tunnel_finish_receive env peer opts d cmp st')" for st' cmp
    using tunnel_finish_guarded [of ?D st' env peer opts d cmp] assms(1) by (simp add: w_guarded_def)
  have q: "w_quiet ?D (tunnel_receive_chunks env tid d ch st)"
    using tunnel_receive_chunks_quiet [OF assms(2)] unfolding w_quiet_def by blast
  have "w_guarded ?D ?P (w_bind (w_lift (emit_stage ReceivingManifest)) (\<lambda>_.
            w_bind (w_lift (s_create_dir_all ?D)) (\<lambda>_.
            w_bind (tunnel_receive_chunks env tid d ch st) (\<lambda>st'.
              tunnel_finish_receive env peer opts d cmp st'))))" for cmp
    by (intro w_guarded_bind w_quiet_lift quiet_basic quiet_create_destination q)
      (use tunnel_receive_chunks_quiet [OF assms(2)] fin in blast)
  then show ?thesis
    by (cases header) (simp_all add: tunnel_receive_archive_def w_guarded_quiet)
qed

lemma tunnel_session_guarded:
  "w_guarded (components (ro_destination opts))
    (proved_code env opts \<and> (\<exists>d content. delivered env d content))
    (tunnel_receive_session env tid peer opts route_label name d request hello)"
proof -
  let ?D = "components (ro_destination opts)"
  let ?P = "proved_code env opts \<and> (\<exists>d content. delivered env d content)"
  have tail: "state_in ?D st \<Longrightarrow> w_guarded ?D ?P
      (w_bind (tunnel_receiver_keys env opts route_label name request hello (rs_offset st))
      (\<lambda>keys. w_bind (w_read_secure env
              \<lparr>ch_aead = chunk_aead_new (sk_recv_key keys) session_key_tag, ch_sequence = 0\<rparr>)
       (\<lambda>(ch, header). tunnel_receive_archive env tid peer opts d st ch header)))" for st
    by (intro w_guarded_bind w_quiet_receiver_keys w_quiet_read_secure)
      (auto dest!: tunnel_receiver_keys_proved intro: tunnel_archive_guarded)
  show ?thesis
    unfolding tunnel_receive_session_def
  proof (rule w_guarded_bind [OF w_quiet_lift [OF quiet_resume [OF confined_resume_open]]])
    fix c c1 st
    assume "w_lift (s_resume (resume_open (env_hex env) (env_json env) (env_now env) ?D d)) c = (c1, Inr st)"
    then have "state_in ?D st"
      by (auto simp: w_lift_Inr s_resume_def dest: resume_open_state split: prod.splits sum.splits)
    then show "w_guarded ?D ?P (w_bind (w_lift (emit_event (TransferStarted tid peer (td_files d) (td_archive_bytes d)
        (rs_offset st)))) (\<lambda>_.
     w_bind (w_lift (emit_stage Authenticating)) (\<lambda>_.
     w_bind (tunnel_receiver_keys env opts route_label name request hello (rs_offset st)) (\<lambda>keys.
     w_bind (w_read_secure env
              \<lparr>ch_aead = chunk_aead_new (sk_recv_key keys) session_key_tag, ch_sequence = 0\<rparr>)
       (\<lambda>(ch, header). tunnel_receive_archive env tid peer opts d st ch header)))))"
      by (intro w_guarded_bind w_quiet_lift quiet_basic tail)
  qed
qed

lemma tunnel_stream_guarded:
  "w_guarded (components (ro_destination opts))
    (proved_code env opts \<and> (\<exists>d content. delivered env d content))
    (receive_ws_stream env tid peer opts route_label)"
  unfolding receive_ws_stream_def
  by (intro w_guarded_bind w_quiet_basic w_quiet_accept_intro)
    (simp add: tunnel_session_guarded w_guarded_quiet split: prod.split)


section \<open>What the sender writes\<close>

lemma w_write_Inr: "w_write env f c = (c', Inr u) \<Longrightarrow>
    \<exists>bs. env_wire_ser env f = Some bs \<and> c' = c\<lparr>wc_out := wc_out c @ [Ws_Binary bs]\<rparr>"
  by (auto simp: w_write_def split: option.splits)

text \<open>The binary messages that carry a sequence of encrypted chunks.\<close>

definition secure_messages :: "session_env \<Rightarrow> encrypted_chunk list \<Rightarrow> ws_message list" where
  "secure_messages env cs = map (\<lambda>x. Ws_Binary (case env_wire_ser env (Secure x) of None \<Rightarrow> [] | Some bs \<Rightarrow> bs)) cs"

lemma w_write_secure_Inr:
  assumes "w_write_secure env f ch c = (c', Inr ch')"
  shows "\<exists>x. encrypt_secure (env_aead env) (env_secure_ser env) f ch = (ch', Inr x) \<and>
    c' = c\<lparr>wc_out := wc_out c @ secure_messages env [x]\<rparr>"
  using assms
  by (auto simp: w_write_secure_def ws_simps secure_messages_def split: prod.splits sum.splits dest!: w_write_Inr)

lemma tunnel_send_chunks_Inr:
  assumes "tunnel_send_chunks env tid tot sent bss ch c = (c', Inr ch')"
  shows "\<exists>cs. encrypt_all (env_aead env) (env_secure_ser env) (map SecureArchiveChunk bss) ch = Some (ch', cs) \<and>
    wc_out c' = wc_out c @ secure_messages env cs \<and> wc_in c' = wc_in c"
  using assms
proof (induction bss arbitrary: sent ch c)
  case Nil
  then show ?case by (auto simp: w_return_def secure_messages_def)
next
  case (Cons bs bss)
  then obtain ch1 c1 c2 u where w: "w_write_secure env (SecureArchiveChunk bs) ch c = (c1, Inr ch1)"
      and e: "w_lift (emit_progress tid (sent + of_nat (length bs)) tot) c1 = (c2, Inr u)"
      and rec: "tunnel_send_chunks env tid tot (sent + of_nat (length bs)) bss ch1 c2 = (c', Inr ch')"
    by (auto simp: Let_def w_bind_Inr)
  from w_write_secure_Inr [OF w] obtain x where x: "encrypt_secure (env_aead env) (env_secure_ser env)
      (SecureArchiveChunk bs) ch = (ch1, Inr x)" "c1 = c\<lparr>wc_out := wc_out c @ secure_messages env [x]\<rparr>" by blast
  from Cons.IH [OF rec] w_lift_in [OF e] x show ?case by (auto simp: secure_messages_def)
qed

lemma tunnel_send_archive_Inr:
  assumes "tunnel_send_archive env tid d a offset ch0 c = (c', Inr ch')"
  shows "\<exists>cs. encrypt_all (env_aead env) (env_secure_ser env)
      (SecureHeader (ar_compression a) #
       map SecureArchiveChunk (file_chunks (drop (unat offset) (ar_file a))) @ [SecureDone]) ch0 = Some (ch', cs) \<and>
    wc_out c' = wc_out c @ secure_messages env cs \<and> wc_in c' = wc_in c"
proof -
  let ?bss = "file_chunks (drop (unat offset) (ar_file a))"
  from assms obtain c1 c2 ch ch2 where
      c1: "w_write_secure env (SecureHeader (ar_compression a)) ch0 c = (c1, Inr ch)"
    and c2: "tunnel_send_chunks env tid (td_archive_bytes d) offset ?bss ch c1 = (c2, Inr ch2)"
    and c3: "w_write_secure env SecureDone ch2 c2 = (c', Inr ch')"
    unfolding tunnel_send_archive_def w_bind_Inr by blast
  from w_write_secure_Inr [OF c1] obtain x1 where x1: "encrypt_secure (env_aead env) (env_secure_ser env)
        (SecureHeader (ar_compression a)) ch0 = (ch, Inr x1)"
      "c1 = c\<lparr>wc_out := wc_out c @ secure_messages env [x1]\<rparr>" by blast
  from tunnel_send_chunks_Inr [OF c2] obtain cs where cs: "encrypt_all (env_aead env) (env_secure_ser env)
        (map SecureArchiveChunk ?bss) ch = Some (ch2, cs)"
      "wc_out c2 = wc_out c1 @ secure_messages env cs" "wc_in c2 = wc_in c1" by blast
  from w_write_secure_Inr [OF c3] obtain x2 where x2: "encrypt_secure (env_aead env) (env_secure_ser env)
        SecureDone ch2 = (ch', Inr x2)" "c' = c2\<lparr>wc_out := wc_out c2 @ secure_messages env [x2]\<rparr>" by blast
  have "encrypt_all (env_aead env) (env_secure_ser env)
      (map SecureArchiveChunk ?bss @ [SecureDone]) ch = Some (ch', cs @ [x2])"
    by (rule encrypt_all_append [OF cs(1)]) (simp add: x2(1))
  then have "encrypt_all (env_aead env) (env_secure_ser env)
      (SecureHeader (ar_compression a) # map SecureArchiveChunk ?bss @ [SecureDone]) ch0 =
      Some (ch', x1 # cs @ [x2])"
    by (simp add: x1(1))
  moreover have "wc_out c' = wc_out c @ secure_messages env (x1 # cs @ [x2])" "wc_in c' = wc_in c"
    using x1(2) cs(2,3) x2(2) by (simp_all add: secure_messages_def)
  ultimately show ?thesis by blast
qed

lemma tunnel_sender_keys_Inr:
  assumes "tunnel_sender_keys env s hcode c = (c', Inr keys)"
  shows "\<exists>fin kem bs. env_wire_ser env (ClientFinish fin kem) = Some bs \<and>
    wc_out c' = wc_out c @ [Ws_Binary bs] \<and> wc_in c' = wc_in c"
proof -
  from assms obtain fin okey kem c1 c2 c3 u where
      "w_lift (s_from (ok_or (opq_client_finish (env_opaque env) (ts_opaque_state s)
              (str_bytes (code_str hcode)) (ts_server_response s)) Sess_Opaque)) c = (c1, Inr (fin, okey))"
      "w_lift (s_from (case client_finish (env_kex env) (env_aead env) (env_blake3 env) (env_kem_coins env)
                (ts_client_handshake s) (ts_server_hello s) okey (ts_transcript s) of
              Inl e \<Rightarrow> Inl (Sess_Handshake e) | Inr r \<Rightarrow> Inr r)) c1 = (c2, Inr (kem, keys))"
    and w: "w_write env (ClientFinish fin kem) c2 = (c3, Inr u)" and "c' = c3"
    unfolding tunnel_sender_keys_def by (auto simp: w_bind_Inr w_return_Inr)
  then have "wc_in c2 = wc_in c" "wc_out c2 = wc_out c" using w_lift_in by metis+
  moreover from w_write_Inr [OF w] obtain bs where "env_wire_ser env (ClientFinish fin kem) = Some bs"
      "c3 = c2\<lparr>wc_out := wc_out c2 @ [Ws_Binary bs]\<rparr>" by blast
  ultimately show ?thesis
    using \<open>c' = c3\<close> by (intro exI [of _ fin] exI [of _ kem] exI [of _ bs]) simp
qed


lemma tunnel_await_ack_Inr:
  assumes "tunnel_await_ack env c = (c', Inr u)"
  shows "\<exists>rest pongs. read_messages env (wc_in c) = (rest, pongs, Inr Ack) \<and> wc_out c' = wc_out c @ pongs"
proof -
  from assms obtain c1 f where r: "w_read env c = (c1, Inr f)" and k: "(case f of
         Ack \<Rightarrow> w_return ()
       | WireError m \<Rightarrow> w_fatal (Sess_Peer m)
       | _ \<Rightarrow> w_fatal Sess_UnexpectedFrame) c1 = (c', Inr u)"
    unfolding tunnel_await_ack_def w_bind_Inr by blast
  from k have "f = Ack \<and> c' = c1" by (cases f) (auto simp: w_return_def)
  with r show ?thesis by (auto simp: w_read_def split: prod.splits)
qed

text \<open>
  C8. A sender that reports success over a tunnel has sent, after the key exchange and in one
  encrypted sequence, the header, the archive from the receiver's offset to its end and the end
  mark, one binary message each; it has answered every ping that came before the acknowledgement
  it saw, and only then closed. The offset lies within the archive.
\<close>

theorem tunnel_sender_sends_the_rest:
  assumes "complete_public_tunnel_transfer env s a hcode tid d c = (c', Inr sent)"
  shows "\<exists>bss cs bs (keys :: session_keys) ch rest pongs.
    ts_resume_offset s \<le> td_archive_bytes d \<and>
    take (unat (ts_resume_offset s)) (ar_file a) @ concat bss = ar_file a \<and>
    encrypt_all (env_aead env) (env_secure_ser env)
      (SecureHeader (ar_compression a) # map SecureArchiveChunk bss @ [SecureDone])
      \<lparr>ch_aead = chunk_aead_new (sk_send_key keys) session_key_tag, ch_sequence = 0\<rparr> = Some (ch, cs) \<and>
    wc_out c' = wc_out c @ [Ws_Binary bs] @ secure_messages env cs @ pongs @ [Ws_Close] \<and>
    read_messages env (wc_in c) = (rest, pongs, Inr Ack) \<and>
    sent = \<lparr>st_endpoint = ts_endpoint s, st_files = td_files d, st_bytes = mf_total_bytes (ar_manifest a)\<rparr>"
proof -
  from assms have le: "ts_resume_offset s \<le> td_archive_bytes d"
    by (auto simp: complete_public_tunnel_transfer_def not_less [symmetric] split: if_splits)
  then have "\<not> td_archive_bytes d < ts_resume_offset s" by simp
  with assms obtain c1 c2 c3 c4 c5 c6 c7 c8 c9 u1 u3 u4 u5 ch u7 u8 u9 keys where
      c1: "w_lift (emit_stage Authenticating) c = (c1, Inr u1)"
    and c2: "tunnel_sender_keys env s hcode c1 = (c2, Inr keys)"
    and c3: "w_lift (emit_transfer_started tid (ts_endpoint s) (td_files d) (td_archive_bytes d)
                 (ts_resume_offset s)) c2 = (c3, Inr u3)"
    and c4: "w_lift (announce_resume (ts_resume_offset s)) c3 = (c4, Inr u4)"
    and c5: "w_lift (emit_stage Transferring) c4 = (c5, Inr u5)"
    and c6: "tunnel_send_archive env tid d a (ts_resume_offset s)
        \<lparr>ch_aead = chunk_aead_new (sk_send_key keys) session_key_tag, ch_sequence = 0\<rparr> c5 = (c6, Inr ch)"
    and c7: "tunnel_await_ack env c6 = (c7, Inr u7)"
    and c8: "w_close c7 = (c8, Inr u8)"
    and c9: "w_lift (emit_stage Complete) c8 = (c9, Inr u9)" and "c' = c9"
    and fin: "sent = \<lparr>st_endpoint = ts_endpoint s, st_files = td_files d, st_bytes = mf_total_bytes (ar_manifest a)\<rparr>"
    unfolding complete_public_tunnel_transfer_def by (auto simp: w_bind_Inr w_return_Inr)
  note lifted = w_lift_in [OF c1] w_lift_in [OF c3] w_lift_in [OF c4] w_lift_in [OF c5] w_lift_in [OF c9]
  from tunnel_sender_keys_Inr [OF c2] obtain bs where bs: "wc_out c2 = wc_out c1 @ [Ws_Binary bs]" "wc_in c2 = wc_in c1"
    by blast
  let ?bss = "file_chunks (drop (unat (ts_resume_offset s)) (ar_file a))"
  from tunnel_send_archive_Inr [OF c6] obtain cs where cs: "encrypt_all (env_aead env) (env_secure_ser env)
      (SecureHeader (ar_compression a) # map SecureArchiveChunk ?bss @ [SecureDone])
      \<lparr>ch_aead = chunk_aead_new (sk_send_key keys) session_key_tag, ch_sequence = 0\<rparr> = Some (ch, cs)"
      "wc_out c6 = wc_out c5 @ secure_messages env cs" "wc_in c6 = wc_in c5" by blast
  have "wc_in c6 = wc_in c" using lifted bs(2) cs(3) by simp
  with tunnel_await_ack_Inr [OF c7] obtain rest pongs where
      ack: "read_messages env (wc_in c) = (rest, pongs, Inr Ack)" "wc_out c7 = wc_out c6 @ pongs" by auto
  have "wc_out c8 = wc_out c7 @ [Ws_Close]" using c8 by (auto simp: w_close_def)
  then have out: "wc_out c' = wc_out c @ [Ws_Binary bs] @ secure_messages env cs @ pongs @ [Ws_Close]"
    using lifted bs(1) cs(2) ack(2) \<open>c' = c9\<close> by simp
  show ?thesis
  proof (intro exI conjI)
    show "take (unat (ts_resume_offset s)) (ar_file a) @ concat ?bss = ar_file a"
      by (simp add: concat_file_chunks)
  qed (rule le cs(1) out ack(1) fin)+
qed

section \<open>A concrete session\<close>

definition ws_run_in :: "ws_message list" where
  "ws_run_in = [Ws_Binary [1], Ws_Ping [7], Ws_Binary [2], Ws_Pong [], Ws_Binary [3], Ws_Binary [4], Ws_Binary [5]]"

definition ws_run_incoming :: "ws_incoming list" where
  "ws_run_incoming = [\<lparr>wi_env = run_env, wi_transfer = TransferId [1], wi_messages = None\<rparr>,
     \<lparr>wi_env = run_env, wi_transfer = TransferId [1], wi_messages = Some ws_run_in\<rparr>]"

definition ws_run_result :: "fs \<times> peerline_event list \<times> received_transfer option" where
  "ws_run_result = recv_i2p_bound (\<lambda>_. []) run_options ''x'' ws_run_incoming [] []"

lemma ws_run_received: "map_of (fst ws_run_result) [Normal ''in'', Normal ''d''] = Some DirN"
  by code_simp


definition ws_run_session :: tunnel_session where
  "ws_run_session = \<lparr>ts_endpoint = ''ws'', ts_opaque_state = [], ts_server_response = [],
     ts_client_handshake = client_start demo_kex [2],
     ts_server_hello = shs_hello (server_start demo_kex [3] [4] \<lparr>ch_x25519_public = []\<rparr>),
     ts_transcript = direct_transcript_for_route None i2p_route_label, ts_resume_offset = 5\<rparr>"

definition ws_run_send :: "ws_conn \<times> (ws_error + sent_transfer)" where
  "ws_run_send = complete_public_tunnel_transfer run_env ws_run_session run_archive_source (HumanCode ''a-b-c'')
     (TransferId [1]) run_descriptor
     \<lparr>wc_base = \<lparr>cn_fs = [], cn_in = [], cn_out = [], cn_events = []\<rparr>, wc_in = [Ws_Ping [8], Ws_Binary [6]], wc_out = []\<rparr>"

lemma ws_run_sent: "snd ws_run_send = Inr \<lparr>st_endpoint = ''ws'', st_files = 0, st_bytes = 0\<rparr>"
  by code_simp

theorem tunnel_sender_sends_the_rest_witness:
  "\<exists>bss rest pongs. take 5 run_archive @ concat bss = run_archive \<and>
    read_messages run_env [Ws_Ping [8], Ws_Binary [6]] = (rest, pongs, Inr Ack)"
proof -
  have "complete_public_tunnel_transfer run_env ws_run_session run_archive_source (HumanCode ''a-b-c'')
     (TransferId [1]) run_descriptor
     \<lparr>wc_base = \<lparr>cn_fs = [], cn_in = [], cn_out = [], cn_events = []\<rparr>, wc_in = [Ws_Ping [8], Ws_Binary [6]], wc_out = []\<rparr> =
     (fst ws_run_send, Inr \<lparr>st_endpoint = ''ws'', st_files = 0, st_bytes = 0\<rparr>)"
    using ws_run_sent by (metis prod.collapse ws_run_send_def)
  from tunnel_sender_sends_the_rest [OF this] show ?thesis
    by (auto simp: run_archive_source_def ws_run_session_def)
qed

end
