(* ===== verification/Multiaddr.thy ===== *)
theory Multiaddr
  imports Net_Addr
begin

text \<open>
  What the program uses of \<open>libp2p\<close>: a peer id is its bytes, a multiaddress its list of protocols.
  Their text and byte forms are those of the crate, a record of parameters. The predicates below
  are the program's own (\<open>peerline-net/src/discovery/endpoints.rs\<close>, repeated word for word in
  \<open>pkarr.rs\<close>).
\<close>

type_synonym peer_id = bytes

datatype proto =
    Proto_Ip ip_addr
  | Proto_Tcp u16
  | Proto_Udp u16
  | Proto_P2p peer_id
  | Proto_P2pCircuit
  | Proto_WebRTCDirect
  | Proto_QuicV1
  | Proto_Other bytes

type_synonym multiaddr = "proto list"

record libp2p_codec =
  peer_parse :: "string \<Rightarrow> peer_id option"
  peer_text :: "peer_id \<Rightarrow> string"
  peer_from_bytes :: "bytes \<Rightarrow> peer_id option"
  addr_parse :: "string \<Rightarrow> multiaddr option"
  addr_text :: "multiaddr \<Rightarrow> string"
  addr_bytes :: "multiaddr \<Rightarrow> bytes"
  addr_from_bytes :: "bytes \<Rightarrow> multiaddr option"

text \<open>
  The laws of those forms the proofs below name: an id that was parsed survives its own bytes, and
  an address survives its bytes.
\<close>

definition lawful_codec :: "libp2p_codec \<Rightarrow> bool" where
  "lawful_codec lp \<longleftrightarrow>
     (\<forall>s p. peer_parse lp s = Some p \<longrightarrow> peer_from_bytes lp p = Some p) \<and>
     (\<forall>s a. addr_parse lp s = Some a \<longrightarrow> addr_from_bytes lp (addr_bytes lp a) = Some a)"

definition is_relayed :: "multiaddr \<Rightarrow> bool" where
  "is_relayed addr = list_ex (\<lambda>p. p = Proto_P2pCircuit) addr"

definition is_webrtc :: "multiaddr \<Rightarrow> bool" where
  "is_webrtc addr = list_ex (\<lambda>p. p = Proto_WebRTCDirect) addr"

definition is_quic :: "multiaddr \<Rightarrow> bool" where
  "is_quic addr = list_ex (\<lambda>p. p = Proto_QuicV1) addr"

fun undialable_proto :: "proto \<Rightarrow> bool" where
  "undialable_proto (Proto_Ip ip) = is_unspecified ip"
| "undialable_proto (Proto_Tcp port) = (port = 0)"
| "undialable_proto (Proto_Udp port) = (port = 0)"
| "undialable_proto _ = False"

definition is_dialable_multiaddr :: "multiaddr \<Rightarrow> bool" where
  "is_dialable_multiaddr addr = (\<not> list_ex undialable_proto addr)"

end
