(* ===== verification/Libp2p_Receive.thy ===== *)
theory Libp2p_Receive
  imports Direct_Receive Multiaddr
begin

text \<open>
  The receiver's sessions over libp2p (\<open>peerline-net/src/libp2p_transfer/session.rs\<close> and the
  handlers of \<open>receiver.rs\<close>). A transfer is a sequence of requests, each answered by one frame;
  what a peer has got to so far is kept in a session of its own. Random draws and the clock are
  those of the request being handled. An error leaves the handler, the loop and the receiver, so the
  sessions it would leave behind are not described.
\<close>

record receiver_session =
  ls_transfer_id :: transfer_id
  ls_descriptor :: transfer_descriptor
  ls_client_hello :: client_hello
  ls_transcript :: transcript
  ls_opaque_server :: "bytes option"
  ls_server_handshake :: "server_handshake option"
  ls_aead :: "chunk_aead option"
  ls_compression :: "compression option"
  ls_expected_sequence :: u64
  ls_resume_state :: resume_state
  ls_pending_result :: "(nat \<times> received_transfer) option"
  ls_pending_error :: "nat option"

type_synonym sessions = "peer_id \<rightharpoonup> receiver_session"

definition receiver_session_new ::
  "client_hello \<Rightarrow> transcript \<Rightarrow> bytes \<Rightarrow> server_handshake \<Rightarrow> transfer_id \<Rightarrow> transfer_descriptor \<Rightarrow> resume_state \<Rightarrow>
   receiver_session" where
  "receiver_session_new hello t opaque_state handshake tid d st =
     \<lparr>ls_transfer_id = tid, ls_descriptor = d, ls_client_hello = hello, ls_transcript = t,
      ls_opaque_server = Some opaque_state, ls_server_handshake = Some handshake, ls_aead = None,
      ls_compression = None, ls_expected_sequence = 0, ls_resume_state = st, ls_pending_result = None,
      ls_pending_error = None\<rparr>"

definition libp2p_route_label :: string where "libp2p_route_label = ''libp2p-request-response''"

text \<open>What a request draws: the transfer's id, the secrets of the handshake and the clock.\<close>

record draws =
  dr_transfer :: transfer_id
  dr_x25519_secret :: bytes
  dr_kem_secret :: bytes
  dr_now :: u64

definition drawn :: "draws \<Rightarrow> session_env \<Rightarrow> session_env" where
  "drawn dr env = env\<lparr>env_x25519_secret := dr_x25519_secret dr, env_kem_secret := dr_kem_secret dr, env_now := dr_now dr\<rparr>"

text \<open>What stays the same for every session of a receiver.\<close>

record p2p_side =
  pp_env :: session_env
  pp_codec :: libp2p_codec
  pp_options :: recv_options
  pp_lookup_key :: lookup_key
  pp_local_peer :: peer_id

section \<open>The requests\<close>

definition p2p_intro ::
  "p2p_side \<Rightarrow> draws \<Rightarrow> peer_id \<Rightarrow> human_name option \<Rightarrow> transfer_descriptor \<Rightarrow> bytes \<Rightarrow> client_hello \<Rightarrow> sessions \<Rightarrow>
   (sessions \<times> wire_frame) session_op" where
  "p2p_intro side dr peer name d request hello m =
     (let env = drawn dr (pp_env side); opts = pp_options side in
      if name \<noteq> None \<and> name \<noteq> Some (ro_name opts) then s_return (m, WireError ''receiver name mismatch'')
      else
        let negotiated = (case name of None \<Rightarrow> ro_name opts | Some n \<Rightarrow> n);
            t = libp2p_transcript negotiated (pp_lookup_key side)
                  (peer_text (pp_codec side) (pp_local_peer side)) libp2p_route_label;
            handshake = server_start (env_kex env) (env_x25519_secret env) (env_kem_secret env) hello
        in
        s_bind (s_resume (resume_open (env_hex env) (env_json env) (env_now env)
                 (components (ro_destination opts)) d)) (\<lambda>st.
        s_bind (emit_event (TransferStarted (dr_transfer dr) (peer_text (pp_codec side) peer) (td_files d)
                 (td_archive_bytes d) (rs_offset st))) (\<lambda>_.
        s_bind (emit_stage Authenticating) (\<lambda>_.
        s_bind (s_from (ok_or (opq_record (env_opaque env) (str_bytes (code_str (ro_code opts)))
                 (str_bytes (name_str (ro_name opts)))) Sess_Opaque)) (\<lambda>record_bytes.
        s_bind (s_from (ok_or (opq_server_start (env_opaque env) record_bytes request) Sess_Opaque))
          (\<lambda>(response, opaque_state).
          s_return
            (m(peer \<mapsto> receiver_session_new hello t opaque_state handshake (dr_transfer dr) d st),
             ServerIntro protocol_version (rs_offset st) response (shs_hello handshake))))))))"

definition p2p_finish ::
  "session_env \<Rightarrow> bytes \<Rightarrow> client_kem \<Rightarrow> receiver_session \<Rightarrow> (receiver_session \<times> wire_frame) session_op" where
  "p2p_finish env finalization kem s =
     (case ls_opaque_server s of
        None \<Rightarrow> s_fail Sess_NoOpaqueState
      | Some opaque_state \<Rightarrow>
          (case ls_server_handshake s of
             None \<Rightarrow> s_fail Sess_NoServerHandshake
           | Some handshake \<Rightarrow>
               s_bind (s_from (ok_or (opq_server_finish (env_opaque env) opaque_state finalization) Sess_Opaque))
                 (\<lambda>okey.
               s_bind (s_from (case server_finish (env_kex env) (env_aead env) (env_blake3 env) handshake
                         (ls_client_hello s) kem okey (ls_transcript s) of
                         Inl e \<Rightarrow> Inl (Sess_Handshake e) | Inr keys \<Rightarrow> Inr keys)) (\<lambda>keys.
                 s_return (s\<lparr>ls_opaque_server := None, ls_server_handshake := None,
                     ls_aead := Some (chunk_aead_new (sk_recv_key keys) session_key_tag)\<rparr>, Ack)))))"

definition p2p_header :: "compression \<Rightarrow> receiver_session \<Rightarrow> (receiver_session \<times> wire_frame) session_op" where
  "p2p_header cmp s =
     (if ls_compression s \<noteq> None then s_return (s, WireError ''duplicate secure header'')
      else if cmp \<noteq> td_compression (ls_descriptor s) then
        s_return (s, WireError ''secure header compression mismatch'')
      else s_bind (emit_stage ReceivingManifest) (\<lambda>_. s_return (s\<lparr>ls_compression := Some cmp\<rparr>, Ack)))"

definition p2p_chunk :: "session_env \<Rightarrow> bytes \<Rightarrow> receiver_session \<Rightarrow> (receiver_session \<times> wire_frame) session_op" where
  "p2p_chunk env bs s =
     (if ls_compression s = None then s_return (s, WireError ''secure stream must start with header'')
      else
        s_bind (s_append env (ls_descriptor s) bs (ls_resume_state s)) (\<lambda>(st', n).
        s_bind (emit_progress (ls_transfer_id s) n (td_archive_bytes (ls_descriptor s))) (\<lambda>_.
          s_return (s\<lparr>ls_resume_state := st'\<rparr>, Ack))))"

definition p2p_done ::
  "session_env \<Rightarrow> recv_options \<Rightarrow> string \<Rightarrow> nat \<Rightarrow> receiver_session \<Rightarrow> (receiver_session \<times> wire_frame) session_op" where
  "p2p_done env opts peer rid s =
     (case ls_compression s of
        None \<Rightarrow> s_fail Sess_NoHeader
      | Some cmp \<Rightarrow>
          s_bind (emit_stage Verifying) (\<lambda>_.
          s_bind (s_resume (complete_partial (env_blake3 env) (ls_resume_state s) (ls_descriptor s))) (\<lambda>archive.
          s_bind (s_unpack env opts cmp archive) (\<lambda>r.
            case r of
              Inr mf \<Rightarrow>
                s_bind (s_resume (remove_partial (ls_resume_state s))) (\<lambda>_.
                s_bind (emit_stage Complete) (\<lambda>_.
                  s_return (s\<lparr>ls_pending_result := Some (rid, \<lparr>rt_peer = peer, rt_files = file_count mf,
                      rt_bytes = mf_total_bytes mf\<rparr>)\<rparr>, Ack)))
            | Inl e \<Rightarrow>
                s_bind (s_ignore (s_resume (remove_partial (ls_resume_state s)))) (\<lambda>_.
                s_bind (emit_stage (Failed (env_archive_message env e))) (\<lambda>_.
                  s_return (s\<lparr>ls_pending_error := Some rid\<rparr>, WireError (env_archive_message env e))))))))"

definition p2p_secure ::
  "session_env \<Rightarrow> recv_options \<Rightarrow> string \<Rightarrow> nat \<Rightarrow> encrypted_chunk \<Rightarrow> receiver_session \<Rightarrow>
   (receiver_session \<times> wire_frame) session_op" where
  "p2p_secure env opts peer rid x s =
     (case ls_aead s of
        None \<Rightarrow> s_fail Sess_ChannelNotReady
      | Some a \<Rightarrow>
          (case decrypt_secure (env_aead env) (env_secure_de env) x
                  \<lparr>ch_aead = a, ch_sequence = ls_expected_sequence s\<rparr> of
             (ch, Inl e) \<Rightarrow> s_fail (Sess_Wire e)
           | (ch, Inr f) \<Rightarrow>
               let s1 = s\<lparr>ls_aead := Some (ch_aead ch), ls_expected_sequence := ch_sequence ch\<rparr> in
               (case f of
                  SecureHeader cmp \<Rightarrow> p2p_header cmp s1
                | SecureArchiveChunk bs \<Rightarrow> p2p_chunk env bs s1
                | SecureDone \<Rightarrow> p2p_done env opts peer rid s1)))"

text \<open>A request that needs a session of its peer.\<close>

definition with_session ::
  "peer_id \<Rightarrow> (receiver_session \<Rightarrow> (receiver_session \<times> wire_frame) session_op) \<Rightarrow> sessions \<Rightarrow>
   (sessions \<times> wire_frame) session_op" where
  "with_session peer op m =
     (case m peer of
        None \<Rightarrow> s_fail Sess_NotInitialized
      | Some s \<Rightarrow> s_bind (op s) (\<lambda>(s', f). s_return (m(peer \<mapsto> s'), f)))"

fun handle_inbound_request ::
  "p2p_side \<Rightarrow> draws \<Rightarrow> peer_id \<Rightarrow> nat \<Rightarrow> wire_frame \<Rightarrow> sessions \<Rightarrow> (sessions \<times> wire_frame) session_op" where
  "handle_inbound_request side dr peer rid (ClientIntro version name d request hello) m =
     (if version = protocol_version then p2p_intro side dr peer name d request hello m
      else s_return (m, WireError (version_message version)))"
| "handle_inbound_request side dr peer rid (ClientFinish finalization kem) m =
     with_session peer (p2p_finish (drawn dr (pp_env side)) finalization kem) m"
| "handle_inbound_request side dr peer rid (Secure x) m =
     with_session peer (p2p_secure (drawn dr (pp_env side)) (pp_options side) (peer_text (pp_codec side) peer) rid x) m"
| "handle_inbound_request side dr peer rid Ack m = s_return (m, WireError ''unexpected frame'')"
| "handle_inbound_request side dr peer rid (WireError e) m = s_return (m, WireError ''unexpected frame'')"
| "handle_inbound_request side dr peer rid (ServerIntro v offset response hello) m =
     s_return (m, WireError ''unexpected libp2p frame'')"

section \<open>The events of the request-response protocol\<close>

text \<open>
  A session is dropped when the response that ends it has gone out; only then is the transfer's
  result reported. A request or response that fails is only announced.
\<close>

datatype transfer_event =
    Request_In peer_id nat wire_frame draws
  | Response_In
  | Response_Sent peer_id nat
  | Request_Failed

definition response_sent :: "peer_id \<Rightarrow> nat \<Rightarrow> sessions \<Rightarrow> sessions \<times> received_transfer option" where
  "response_sent peer rid m =
     (case m peer of
        None \<Rightarrow> (m, None)
      | Some s \<Rightarrow>
          let result = (case ls_pending_result s of
                          Some (pending, r) \<Rightarrow> if pending = rid then Some r else None
                        | None \<Rightarrow> None)
          in (if result \<noteq> None \<or> ls_pending_error s = Some rid then m(peer := None) else m, result))"

fun handle_transfer_event ::
  "p2p_side \<Rightarrow> transfer_event \<Rightarrow> sessions \<Rightarrow>
   (sessions \<times> (peer_id \<times> nat \<times> wire_frame) option \<times> received_transfer option) session_op" where
  "handle_transfer_event side (Request_In peer rid f dr) m =
     s_bind (handle_inbound_request side dr peer rid f m) (\<lambda>(m', g). s_return (m', Some (peer, rid, g), None))"
| "handle_transfer_event side Response_In m = s_return (m, None, None)"
| "handle_transfer_event side (Response_Sent peer rid) m =
     (case response_sent peer rid m of (m', r) \<Rightarrow> s_return (m', None, r))"
| "handle_transfer_event side Request_Failed m =
     s_bind (emit_stage (Failed ''libp2p transfer request failed'')) (\<lambda>_. s_return (m, None, None))"


section \<open>What a session is\<close>

text \<open>
  An operation keeps to the resume folder unless \<open>P\<close> holds, and what it returns satisfies \<open>Q\<close>.
\<close>

definition holds :: "path \<Rightarrow> bool \<Rightarrow> ('a \<Rightarrow> bool) \<Rightarrow> 'a session_op \<Rightarrow> bool" where
  "holds D P Q m \<longleftrightarrow>
     (\<forall>c c' r. m c = (c', r) \<longrightarrow>
       (agree_outside D (cn_fs c) (cn_fs c') \<or> P) \<and> (case r of Inl e \<Rightarrow> True | Inr x \<Rightarrow> Q x))"

lemma holds_quiet: "quiet D m \<Longrightarrow> (\<And>c c' x. m c = (c', Inr x) \<Longrightarrow> Q x) \<Longrightarrow> holds D P Q m"
  unfolding holds_def quiet_def by (auto split: sum.split)

lemma holds_any: "P \<Longrightarrow> holds D P (\<lambda>_. True) m"
  unfolding holds_def by (auto split: sum.split)

lemma holds_event [simp]: "quiet D m \<Longrightarrow> holds D P (\<lambda>_. True) m"
  by (rule holds_quiet) simp_all

lemma holds_return: "Q x \<Longrightarrow> holds D P Q (s_return x)"
  by (simp add: holds_def s_return_def)

lemma holds_fail [simp]: "holds D P Q (s_fail e)"
  by (simp add: holds_def s_fail_def)

lemma holds_from: "(\<And>x. r = Inr x \<Longrightarrow> Q x) \<Longrightarrow> holds D P Q (s_from r)"
  by (auto simp: s_from_def holds_return split: sum.split)

lemma holds_bind:
  assumes "holds D P Q m" "\<And>x. Q x \<Longrightarrow> holds D P R (k x)"
  shows "holds D P R (s_bind m k)"
  unfolding holds_def
proof (intro allI impI)
  fix c c' r
  assume run: "s_bind m k c = (c', r)"
  obtain c1 x where m: "m c = (c1, x)" by fastforce
  with assms(1) have q: "agree_outside D (cn_fs c) (cn_fs c1) \<or> P" "case x of Inl e \<Rightarrow> True | Inr y \<Rightarrow> Q y"
    by (simp_all add: holds_def)
  show "(agree_outside D (cn_fs c) (cn_fs c') \<or> P) \<and> (case r of Inl e \<Rightarrow> True | Inr x \<Rightarrow> R x)"
  proof (cases x)
    case (Inl e)
    with run m q show ?thesis by (auto simp: s_bind_def)
  next
    case (Inr y)
    with run m have "k y c1 = (c', r)" by (simp add: s_bind_def)
    with assms(2) [of y] q(2) Inr have "(agree_outside D (cn_fs c1) (cn_fs c') \<or> P) \<and> (case r of Inl e \<Rightarrow> True | Inr x \<Rightarrow> R x)"
      by (simp add: holds_def)
    with q(1) show ?thesis by (blast intro: agree_outside_trans)
  qed
qed

lemma holds_then: "holds D P (\<lambda>_. True) m \<Longrightarrow> (\<And>x. holds D P R (k x)) \<Longrightarrow> holds D P R (s_bind m k)"
  by (rule holds_bind)

text \<open>The type of a session: which of its parts are present together.\<close>

definition session_typed :: "receiver_session \<Rightarrow> bool" where
  "session_typed s \<longleftrightarrow>
     (ls_opaque_server s = None \<longleftrightarrow> ls_aead s \<noteq> None) \<and>
     (ls_server_handshake s = None \<longleftrightarrow> ls_aead s \<noteq> None) \<and>
     (ls_aead s = None \<longrightarrow> ls_expected_sequence s = 0 \<and> ls_compression s = None) \<and>
     (ls_compression s = None \<or> ls_compression s = Some (td_compression (ls_descriptor s))) \<and>
     (ls_compression s = None \<longrightarrow> ls_pending_result s = None \<and> ls_pending_error s = None)"

text \<open>The state of a login the receiver has answered, for its own code.\<close>

definition answered :: "session_env \<Rightarrow> recv_options \<Rightarrow> bytes \<Rightarrow> bool" where
  "answered env opts st \<longleftrightarrow>
     (\<exists>record_bytes request response.
        opq_record (env_opaque env) (str_bytes (code_str (ro_code opts))) (str_bytes (name_str (ro_name opts))) =
          Some record_bytes \<and>
        opq_server_start (env_opaque env) record_bytes request = Some (response, st))"

definition session_proved :: "session_env \<Rightarrow> recv_options \<Rightarrow> receiver_session \<Rightarrow> bool" where
  "session_proved env opts s \<longleftrightarrow>
     state_in (components (ro_destination opts)) (ls_resume_state s) \<and>
     (\<forall>st. ls_opaque_server s = Some st \<longrightarrow> answered env opts st) \<and>
     (ls_aead s \<noteq> None \<longrightarrow> proved_code env opts) \<and>
     (ls_pending_result s \<noteq> None \<longrightarrow> (\<exists>d content. delivered env d content))"

definition session_ok :: "p2p_side \<Rightarrow> receiver_session \<Rightarrow> bool" where
  "session_ok side s \<longleftrightarrow> session_typed s \<and> session_proved (pp_env side) (pp_options side) s"

definition sessions_ok :: "p2p_side \<Rightarrow> sessions \<Rightarrow> bool" where
  "sessions_ok side m \<longleftrightarrow> (\<forall>peer s. m peer = Some s \<longrightarrow> session_ok side s)"

definition trusted :: "p2p_side \<Rightarrow> bool" where
  "trusted side \<longleftrightarrow> proved_code (pp_env side) (pp_options side) \<and> (\<exists>d content. delivered (pp_env side) d content)"

abbreviation destination :: "p2p_side \<Rightarrow> path" where
  "destination side \<equiv> components (ro_destination (pp_options side))"

lemma drawn_simps [simp]:
  "env_opaque (drawn dr env) = env_opaque env" "env_blake3 (drawn dr env) = env_blake3 env"
  "env_json (drawn dr env) = env_json env" "env_aead (drawn dr env) = env_aead env"
  "env_kex (drawn dr env) = env_kex env" "env_hex (drawn dr env) = env_hex env"
  "env_secure_de (drawn dr env) = env_secure_de env"
  by (simp_all add: drawn_def)

lemma delivered_drawn [simp]: "delivered (drawn dr env) d content = delivered env d content"
  by (simp add: delivered_def)

lemma sessions_ok_update: "sessions_ok side m \<Longrightarrow> session_ok side s \<Longrightarrow> sessions_ok side (m(peer \<mapsto> s))"
  by (auto simp: sessions_ok_def)

section \<open>Every request keeps it\<close>

lemma p2p_intro_holds:
  assumes "sessions_ok side m"
  shows "holds (destination side) P (\<lambda>(m', f). sessions_ok side m') (p2p_intro side dr peer name d request hello m)"
proof (cases "name \<noteq> None \<and> name \<noteq> Some (ro_name (pp_options side))")
  case True
  with assms show ?thesis by (auto simp: p2p_intro_def intro: holds_return)
next
  case False
  let ?env = "drawn dr (pp_env side)" and ?opts = "pp_options side"
  have open': "holds (destination side) P (state_in (destination side))
      (s_resume (resume_open (env_hex ?env) (env_json ?env) (env_now ?env) (destination side) d))"
    by (rule holds_quiet [OF quiet_resume [OF confined_resume_open]])
      (auto simp: s_resume_def dest: resume_open_state split: prod.splits sum.splits)
  have new: "session_ok side (receiver_session_new hello t st handshake tid d rs)"
    if "state_in (destination side) rs" "answered (pp_env side) ?opts st" for t st handshake tid rs
    using that by (simp add: session_ok_def session_typed_def session_proved_def receiver_session_new_def)
  have reply: "holds (destination side) P (\<lambda>(m', f). sessions_ok side m')
      (case y of (response, st) \<Rightarrow> s_return (m(peer \<mapsto> receiver_session_new hello t st handshake tid d rs), g response))"
    if "state_in (destination side) rs" "answered (pp_env side) ?opts (snd y)" for t handshake tid rs y g
    using that by (auto intro!: holds_return sessions_ok_update new assms split: prod.split)
  have login: "answered (pp_env side) ?opts (snd y)"
    if "ok_or (opq_record (env_opaque ?env) (str_bytes (code_str (ro_code ?opts))) (str_bytes (name_str (ro_name ?opts))))
        Sess_Opaque = Inr rb" "ok_or (opq_server_start (env_opaque ?env) rb request) Sess_Opaque = Inr y" for rb y
    using that by (cases y) (auto simp: answered_def result_simps)
  show ?thesis
    unfolding p2p_intro_def Let_def if_not_P [OF False]
    by (rule holds_bind [OF open'], rule holds_then [OF holds_event [OF quiet_basic(5)]],
        rule holds_then [OF holds_event [OF quiet_basic(6)]],
        rule holds_bind [OF holds_from], assumption, rule holds_bind [OF holds_from], assumption)
      (rule reply; use login in blast)
qed

abbreviation keeps_session ::
  "p2p_side \<Rightarrow> (receiver_session \<times> wire_frame) session_op \<Rightarrow> bool" where
  "keeps_session side \<equiv> holds (destination side) (trusted side) (\<lambda>(s, f). session_ok side s)"

lemma p2p_finish_holds:
  assumes "session_ok side s"
  shows "keeps_session side (p2p_finish (drawn dr (pp_env side)) fin kem s)"
proof (cases "ls_opaque_server s"; cases "ls_server_handshake s")
  fix st hs
  assume st: "ls_opaque_server s = Some st" and hs: "ls_server_handshake s = Some hs"
  have ok: "session_ok side (s\<lparr>ls_opaque_server := None, ls_server_handshake := None, ls_aead := Some a\<rparr>)"
    if "opq_server_finish (env_opaque (pp_env side)) st fin = Some okey" for a okey
  proof -
    from assms st have "answered (pp_env side) (pp_options side) st"
      by (simp add: session_ok_def session_proved_def)
    with that have "proved_code (pp_env side) (pp_options side)"
      unfolding answered_def proved_code_def by blast
    with assms st show ?thesis by (auto simp: session_ok_def session_proved_def session_typed_def)
  qed
  show ?thesis
    unfolding p2p_finish_def st hs option.case
    by (rule holds_bind [OF holds_from], assumption, rule holds_bind [OF holds_from], assumption)
      (auto simp: result_simps intro!: holds_return ok)
qed (simp_all add: p2p_finish_def)

lemma p2p_header_holds:
  assumes "session_ok side s" "ls_aead s \<noteq> None"
  shows "keeps_session side (p2p_header cmp s)"
proof -
  have "session_ok side (s\<lparr>ls_compression := Some (td_compression (ls_descriptor s))\<rparr>)"
    if "ls_compression s = None"
    using assms that by (auto simp: session_ok_def session_proved_def session_typed_def)
  with assms show ?thesis
    by (auto simp: p2p_header_def intro!: holds_return holds_then [OF holds_event [OF quiet_basic(6)]])
qed

lemma p2p_chunk_holds:
  assumes "session_ok side s"
  shows "keeps_session side (p2p_chunk env bs s)"
proof -
  have st: "state_in (destination side) (ls_resume_state s)"
    using assms by (simp add: session_ok_def session_proved_def)
  have append: "holds (destination side) P (\<lambda>(st', n). state_in (destination side) st')
      (s_append env (ls_descriptor s) bs (ls_resume_state s))" for P
    unfolding holds_def by (auto dest!: s_append_quiet [OF st] split: sum.split)
  have ok: "session_ok side (s\<lparr>ls_resume_state := st'\<rparr>)" if "state_in (destination side) st'" for st'
    using assms that by (auto simp: session_ok_def session_proved_def session_typed_def)
  have tail: "keeps_session side
      (case x of (st', n) \<Rightarrow> s_bind (emit_progress (ls_transfer_id s) n (td_archive_bytes (ls_descriptor s)))
        (\<lambda>_. s_return (s\<lparr>ls_resume_state := st'\<rparr>, Ack)))"
    if "case x of (st', n) \<Rightarrow> state_in (destination side) st'" for x
    using that by (cases x) (auto intro!: holds_then [OF holds_event [OF quiet_basic(8)]] holds_return ok)
  show ?thesis
  proof (cases "ls_compression s")
    case None
    with assms show ?thesis by (simp add: p2p_chunk_def holds_return)
  next
    case (Some cmp)
    then show ?thesis
      unfolding p2p_chunk_def by simp (rule holds_bind [OF append tail])
  qed
qed

lemma p2p_done_holds:
  assumes "session_ok side s" "ls_aead s \<noteq> None"
  shows "keeps_session side (p2p_done (drawn dr (pp_env side)) opts peer rid s)"
proof (cases "ls_compression s")
  case None
  then show ?thesis by (simp add: p2p_done_def)
next
  case (Some cmp)
  let ?env = "drawn dr (pp_env side)"
  have st: "state_in (destination side) (ls_resume_state s)" and proved: "proved_code (pp_env side) (pp_options side)"
    using assms by (auto simp: session_ok_def session_proved_def)
  have archive: "holds (destination side) P (\<lambda>_. trusted side)
      (s_resume (complete_partial (env_blake3 ?env) (ls_resume_state s) (ls_descriptor s)))" for P
    by (rule holds_quiet [OF quiet_resume [OF confined_complete_partial [OF st]]])
      (auto simp: s_resume_def trusted_def delivered_def proved dest!: complete_partial_Inr split: prod.splits sum.splits)
  have gone: "quiet (destination side) (s_resume (remove_partial (ls_resume_state s)))"
    by (rule quiet_resume [OF confined_remove_partial [OF st]])
  have ok: "session_ok side (s\<lparr>ls_pending_result := Some q\<rparr>)" "session_ok side (s\<lparr>ls_pending_error := Some rid\<rparr>)"
    if "trusted side" for q
    using assms that Some by (auto simp: session_ok_def session_proved_def session_typed_def trusted_def)
  have tail: "keeps_session side (case r of
      Inr mf \<Rightarrow>
        s_bind (s_resume (remove_partial (ls_resume_state s))) (\<lambda>_.
        s_bind (emit_stage Complete) (\<lambda>_.
          s_return (s\<lparr>ls_pending_result := Some (rid, \<lparr>rt_peer = peer, rt_files = file_count mf,
              rt_bytes = mf_total_bytes mf\<rparr>)\<rparr>, Ack)))
    | Inl e \<Rightarrow>
        s_bind (s_ignore (s_resume (remove_partial (ls_resume_state s)))) (\<lambda>_.
        s_bind (emit_stage (Failed (env_archive_message ?env e))) (\<lambda>_.
          s_return (s\<lparr>ls_pending_error := Some rid\<rparr>, WireError (env_archive_message ?env e)))))"
    if t: "trusted side" for r
    by (cases r) (auto intro!: holds_then [OF holds_event] gone quiet_ignore holds_return ok t)
  show ?thesis
    unfolding p2p_done_def Some option.case
    by (rule holds_then [OF holds_event [OF quiet_basic(6)]], rule holds_bind [OF archive],
        rule holds_then [OF holds_any], assumption) (rule tail)
qed

lemma p2p_secure_holds:
  assumes "session_ok side s"
  shows "keeps_session side (p2p_secure (drawn dr (pp_env side)) opts peer rid x s)"
proof (cases "ls_aead s")
  case None
  then show ?thesis by (simp add: p2p_secure_def)
next
  case (Some a)
  let ?env = "drawn dr (pp_env side)"
  obtain ch r where d: "decrypt_secure (env_aead ?env) (env_secure_de ?env) x
      \<lparr>ch_aead = a, ch_sequence = ls_expected_sequence s\<rparr> = (ch, r)" by fastforce
  let ?s = "s\<lparr>ls_aead := Some (ch_aead ch), ls_expected_sequence := ch_sequence ch\<rparr>"
  have ok: "session_ok side ?s"
    using assms Some by (auto simp: session_ok_def session_proved_def session_typed_def)
  show ?thesis
  proof (cases r)
    case (Inl e)
    with Some d show ?thesis by (simp add: p2p_secure_def)
  next
    case (Inr f)
    with Some d show ?thesis
      by (cases f)
        (simp_all add: p2p_secure_def Let_def p2p_header_holds p2p_chunk_holds p2p_done_holds ok del: drawn_simps)
  qed
qed


lemma with_session_holds:
  assumes "sessions_ok side m" "\<And>s. session_ok side s \<Longrightarrow> keeps_session side (op s)"
  shows "holds (destination side) (trusted side) (\<lambda>(m', f). sessions_ok side m') (with_session peer op m)"
proof (cases "m peer")
  case None
  then show ?thesis by (simp add: with_session_def)
next
  case (Some s)
  with assms have "keeps_session side (op s)" by (simp add: sessions_ok_def)
  then show ?thesis
    unfolding with_session_def Some option.case
    by (rule holds_bind) (auto intro!: holds_return sessions_ok_update assms(1))
qed

lemma handle_inbound_holds:
  assumes "sessions_ok side m"
  shows "holds (destination side) (trusted side) (\<lambda>(m', f). sessions_ok side m')
    (handle_inbound_request side dr peer rid f m)"
  using assms
  by (cases f) (auto intro!: holds_return p2p_intro_holds with_session_holds p2p_finish_holds p2p_secure_holds)

lemma response_sent_result:
  assumes "sessions_ok side m" "response_sent peer rid m = (m', r)"
  shows "sessions_ok side m' \<and> (r \<noteq> None \<longrightarrow> trusted side)"
proof (cases "m peer")
  case None
  with assms show ?thesis by (auto simp: response_sent_def)
next
  case (Some s)
  with assms(1) have ok: "session_ok side s" by (simp add: sessions_ok_def)
  then have "ls_pending_result s \<noteq> None \<longrightarrow> trusted side"
    by (auto simp: session_ok_def session_typed_def session_proved_def trusted_def)
  with assms Some show ?thesis
    by (auto simp: response_sent_def Let_def sessions_ok_def split: if_splits option.splits)
qed

lemma handle_transfer_event_holds:
  assumes "sessions_ok side m"
  shows "holds (destination side) (trusted side)
    (\<lambda>(m', sent, result). sessions_ok side m' \<and> (result \<noteq> None \<longrightarrow> trusted side))
    (handle_transfer_event side ev m)"
proof (cases ev)
  case (Request_In peer rid f dr)
  have "holds (destination side) (trusted side)
      (\<lambda>(m', sent, result). sessions_ok side m' \<and> (result \<noteq> None \<longrightarrow> trusted side))
      (case y of (m', g) \<Rightarrow> s_return (m', Some (peer, rid, g), None))"
    if "case y of (m', f) \<Rightarrow> sessions_ok side m'" for y
    using that by (auto intro!: holds_return)
  then show ?thesis
    unfolding Request_In handle_transfer_event.simps by (rule holds_bind [OF handle_inbound_holds [OF assms]])
next
  case (Response_Sent peer rid)
  obtain m' r where "response_sent peer rid m = (m', r)" by fastforce
  with Response_Sent response_sent_result [OF assms this] show ?thesis by (auto intro!: holds_return)
qed (auto intro!: holds_return assms holds_then [OF holds_event [OF quiet_basic(6)]])

text \<open>
  The receiver at work: what each event does to its sessions and its disk, and how it ends. The
  loop around it goes on until the transfer it waited for is complete, and leaves with any error.
\<close>

datatype p2p_outcome = Waiting | Received received_transfer | Stopped transfer_error

fun serve_events ::
  "p2p_side \<Rightarrow> transfer_event list \<Rightarrow> sessions \<Rightarrow> conn \<Rightarrow>
   conn \<times> sessions \<times> (peer_id \<times> nat \<times> wire_frame) list \<times> p2p_outcome" where
  "serve_events side [] m c = (c, m, [], Waiting)"
| "serve_events side (ev # evs) m c =
     (case handle_transfer_event side ev m c of
        (c', Inl e) \<Rightarrow> (c', m, [], Stopped e)
      | (c', Inr (m', sent, Some r)) \<Rightarrow> (c', m', case_option [] (\<lambda>x. [x]) sent, Received r)
      | (c', Inr (m', sent, None)) \<Rightarrow>
          (case serve_events side evs m' c' of
             (c'', m'', out, res) \<Rightarrow> (c'', m'', case_option [] (\<lambda>x. [x]) sent @ out, res)))"

lemma serve_events_holds:
  assumes "serve_events side evs m c = (c', m', out, res)" "sessions_ok side m"
  shows "sessions_ok side m' \<and> (agree_outside (destination side) (cn_fs c) (cn_fs c') \<or> trusted side) \<and>
    (\<forall>r. res = Received r \<longrightarrow> trusted side)"
  using assms
proof (induction side evs m c arbitrary: c' m' out res rule: serve_events.induct)
  case (1 side m c)
  then show ?case by simp
next
  case (2 side ev evs m c)
  obtain c1 x where h: "handle_transfer_event side ev m c = (c1, x)" by fastforce
  with handle_transfer_event_holds [OF "2.prems"(2), of ev] have
      a: "agree_outside (destination side) (cn_fs c) (cn_fs c1) \<or> trusted side"
    and p: "\<And>m1 sent r. x = Inr (m1, sent, r) \<Longrightarrow> sessions_ok side m1 \<and> (r \<noteq> None \<longrightarrow> trusted side)"
    unfolding holds_def by (blast, fastforce)
  show ?case
  proof (cases x)
    case (Inl e)
    with "2.prems" h a show ?thesis by auto
  next
    case (Inr y)
    obtain m1 sent r where y: "y = (m1, sent, r)" by (cases y)
    note ok = p [OF Inr [unfolded y]]
    show ?thesis
    proof (cases r)
      case (Some t)
      with "2.prems"(1) h Inr y a ok show ?thesis by auto
    next
      case None
      obtain c2 m2 out2 res2 where s: "serve_events side evs m1 c1 = (c2, m2, out2, res2)" by (metis prod_cases4)
      from "2.IH" [OF h [symmetric] Inr y [symmetric] refl None s] ok have
          "sessions_ok side m2 \<and> (agree_outside (destination side) (cn_fs c1) (cn_fs c2) \<or> trusted side) \<and>
            (\<forall>r. res2 = Received r \<longrightarrow> trusted side)"
        by blast
      with "2.prems"(1) h Inr y None s a show ?thesis by (auto intro: agree_outside_trans)
    qed
  qed
qed

lemma no_sessions_ok: "sessions_ok side (\<lambda>_. None)"
  by (simp add: sessions_ok_def)

end
