(* ===== verification/Discovery_Config.thy ===== *)
theory Discovery_Config
  imports Multiaddr Core_Manifest Rendezvous_Client
begin

text \<open>
  What discovery is configured with (\<open>peerline-net/src/discovery.rs\<close>, and the peers of
  \<open>discovery/rendezvous_protocol.rs\<close>): routes and candidates, the WebRTC servers, the defaults read
  from the environment, and the keys under which a receiver is announced. The environment is a
  function, the time and the HMAC of a TURN credential are arguments. The lemmas show that a
  disabled TURN leaves no TURN server, and which routes each switch turns off.
\<close>

datatype route_kind =
    Rk_LanDirect | Rk_PublicDirect | Rk_PublicTunnel | Rk_TorOnion | Rk_I2p | Rk_Libp2pQuic | Rk_Libp2pDcutr
  | Rk_Libp2pRelay | Rk_WebRtcDirect | Rk_WebRtcTurn

fun route_connection :: "route_kind \<Rightarrow> connection_route" where
  "route_connection Rk_LanDirect = LanDirect"
| "route_connection Rk_PublicDirect = PublicDirect"
| "route_connection Rk_PublicTunnel = PublicTunnel"
| "route_connection Rk_TorOnion = TorOnion"
| "route_connection Rk_I2p = I2p"
| "route_connection Rk_Libp2pQuic = Libp2pQuic"
| "route_connection Rk_Libp2pDcutr = Libp2pDcutr"
| "route_connection Rk_Libp2pRelay = Libp2pRelay"
| "route_connection Rk_WebRtcDirect = WebRtcDirect"
| "route_connection Rk_WebRtcTurn = WebRtcTurn"

record candidate =
  cd_peer_id :: string
  cd_addresses :: "string list"
  cd_route :: route_kind

record ice_server =
  is_urls :: "string list"
  is_username :: string
  is_credential :: string

record libp2p_rendezvous_peer =
  rp_peer_id :: peer_id
  rp_address :: multiaddr

record 'u discovery_config =
  dc_min_candidate_diversity :: nat
  dc_lookup_timeout :: nat
  dc_enable_mdns :: bool
  dc_enable_upnp :: bool
  dc_enable_natpmp_pcp :: bool
  dc_enable_quic :: bool
  dc_enable_dcutr :: bool
  dc_enable_turn :: bool
  dc_enable_public_tunnels :: bool
  dc_enable_tor :: bool
  dc_enable_i2p :: bool
  dc_i2p_sam :: socket_addr
  dc_tor_socks_proxy :: socket_addr
  dc_allow_loopback_endpoints :: bool
  dc_allow_relay_data_fallback :: bool
  dc_bootstrap_peers :: "string list"
  dc_relay_peers :: "string list"
  dc_libp2p_rendezvous_peers :: "libp2p_rendezvous_peer list"
  dc_webrtc_ice_servers :: "ice_server list"
  dc_rendezvous :: "'u rendezvous_config"

definition port_mapping_enabled :: "'u discovery_config \<Rightarrow> bool" where
  "port_mapping_enabled cfg = (dc_enable_upnp cfg \<or> dc_enable_natpmp_pcp cfg)"

fun route_enabled :: "'u discovery_config \<Rightarrow> route_kind \<Rightarrow> bool" where
  "route_enabled cfg Rk_PublicTunnel = dc_enable_public_tunnels cfg"
| "route_enabled cfg Rk_TorOnion = dc_enable_tor cfg"
| "route_enabled cfg Rk_I2p = dc_enable_i2p cfg"
| "route_enabled cfg Rk_Libp2pQuic = dc_enable_quic cfg"
| "route_enabled cfg Rk_Libp2pDcutr = dc_enable_dcutr cfg"
| "route_enabled cfg Rk_WebRtcTurn = dc_enable_turn cfg"
| "route_enabled cfg Rk_Libp2pRelay = dc_allow_relay_data_fallback cfg"
| "route_enabled cfg Rk_LanDirect = True"
| "route_enabled cfg Rk_PublicDirect = True"
| "route_enabled cfg Rk_WebRtcDirect = True"

section \<open>WebRTC servers\<close>

definition is_turn_url :: "string \<Rightarrow> bool" where
  "is_turn_url url =
     (let lower = to_lower url in starts_with ''turn:'' lower \<or> starts_with ''turns:'' lower)"

definition without_turn_ice_servers :: "ice_server list \<Rightarrow> ice_server list" where
  "without_turn_ice_servers servers =
     List.map_filter (\<lambda>server.
       let urls = filter (\<lambda>u. \<not> is_turn_url u) (is_urls server) in
       if urls = [] then None
       else Some \<lparr>is_urls = urls, is_username = is_username server, is_credential = is_credential server\<rparr>) servers"

definition google_stun_servers :: ice_server where
  "google_stun_servers = \<lparr>is_urls =
     [''stun:stun.l.google.com:19302'', ''stun:stun1.l.google.com:19302'', ''stun:stun2.l.google.com:19302'',
      ''stun:stun3.l.google.com:19302'', ''stun:stun4.l.google.com:19302''],
     is_username = [], is_credential = []\<rparr>"

text \<open>The time is in seconds; \<open>mac\<close> is the base64 text of an HMAC-SHA1.\<close>

definition static_auth_turn_servers ::
  "(string \<Rightarrow> string \<Rightarrow> string) \<Rightarrow> nat \<Rightarrow> string \<Rightarrow> string \<Rightarrow> nat \<Rightarrow> ice_server list" where
  "static_auth_turn_servers mac now_secs host secret ttl_secs =
     (let username = dec_str (now_secs + ttl_secs) in
      [\<lparr>is_urls = [''turn:'' @ host @ '':80?transport=udp'', ''turn:'' @ host @ '':443?transport=udp'',
         ''turn:'' @ host @ '':443?transport=tcp'', ''turns:'' @ host @ '':443?transport=tcp''],
        is_username = username, is_credential = mac secret username\<rparr>])"

definition default_webrtc_ice_servers :: "(string \<Rightarrow> string \<Rightarrow> string) \<Rightarrow> nat \<Rightarrow> ice_server list" where
  "default_webrtc_ice_servers mac now_secs =
     google_stun_servers #
     static_auth_turn_servers mac now_secs ''staticauth.openrelay.metered.ca'' ''openrelayprojectsecret'' (24 * 60 * 60)"

definition parse_webrtc_ice_servers_config :: "(string \<Rightarrow> ice_server list option) \<Rightarrow> string \<Rightarrow> ice_server list option" where
  "parse_webrtc_ice_servers_config json raw = (if trim raw = [] then Some [] else json raw)"

definition webrtc_ice_servers_from_env ::
  "(string \<Rightarrow> ice_server list option) \<Rightarrow> (string \<Rightarrow> string option) \<Rightarrow> ice_server list option" where
  "webrtc_ice_servers_from_env json env =
     Option.bind (env ''PEERLINE_WEBRTC_ICE_SERVERS'') (parse_webrtc_ice_servers_config json)"

section \<open>The environment\<close>

definition env_flag :: "(string \<Rightarrow> string option) \<Rightarrow> string \<Rightarrow> bool" where
  "env_flag env name =
     (case env name of
        None \<Rightarrow> False
      | Some v \<Rightarrow> to_lower v \<in> {''1'', ''true'', ''yes'', ''on''})"

definition peers_from_env :: "(string \<Rightarrow> string option) \<Rightarrow> string \<Rightarrow> string list option" where
  "peers_from_env env name =
     map_option (\<lambda>raw. filter (\<lambda>v. v \<noteq> []) (map trim (split_on (\<lambda>c. c = CHR '','') raw))) (env name)"

definition split_peer_addr :: "multiaddr \<Rightarrow> (peer_id \<times> multiaddr) option" where
  "split_peer_addr addr =
     (case rev addr of Proto_P2p peer # r \<Rightarrow> Some (peer, rev r) | _ \<Rightarrow> None)"

definition rendezvous_dial_addr :: "libp2p_rendezvous_peer \<Rightarrow> multiaddr" where
  "rendezvous_dial_addr p = rp_address p @ [Proto_P2p (rp_peer_id p)]"

definition parse_libp2p_rendezvous_peer :: "libp2p_codec \<Rightarrow> string \<Rightarrow> libp2p_rendezvous_peer option" where
  "parse_libp2p_rendezvous_peer lp raw =
     Option.bind (addr_parse lp raw) (\<lambda>addr.
       map_option (\<lambda>(peer, address). \<lparr>rp_peer_id = peer, rp_address = address\<rparr>) (split_peer_addr addr))"

definition parse_libp2p_rendezvous_peers :: "libp2p_codec \<Rightarrow> string \<Rightarrow> libp2p_rendezvous_peer list" where
  "parse_libp2p_rendezvous_peers lp raw =
     List.map_filter (parse_libp2p_rendezvous_peer lp)
       (filter (\<lambda>v. v \<noteq> []) (map trim (split_on (\<lambda>c. c = CHR '','') raw)))"

definition default_public_bootstrap_peers :: "string list" where
  "default_public_bootstrap_peers =
     [''/dnsaddr/bootstrap.libp2p.io/p2p/QmNnooDu7bfjPFoTZYxMNLWUQJyrVwtbZg5gBMjTezGAJN'',
      ''/dnsaddr/bootstrap.libp2p.io/p2p/QmQCU2EcMqAqQPR2i9bChDtGNJchTbq5TbXJJ16u19uLTa'',
      ''/dnsaddr/bootstrap.libp2p.io/p2p/QmbLHAnMoJPWSCR5Zhtx6BHJX9KiKNN6tpvbUcqanj75Nb'',
      ''/dnsaddr/bootstrap.libp2p.io/p2p/QmcZf59bWwK5XFi76CZX8cbJ4BhTzzA3gU1ZjYZcYW3dwt'',
      ''/ip4/104.131.131.82/tcp/4001/p2p/QmaCpDMGvV2BGHeYERUEnRQAwe3N8SzbUtfsmvsqQLuvuJ'']"

text \<open>The outside world a default configuration is read from.\<close>

record 'u config_env =
  cv_codec :: libp2p_codec
  cv_ice_json :: "string \<Rightarrow> ice_server list option"
  cv_mac :: "string \<Rightarrow> string \<Rightarrow> string"
  cv_now_secs :: nat
  cv_rendezvous :: "'u rendezvous_config"
  cv_env :: "string \<Rightarrow> string option"

definition default_discovery_config :: "'u config_env \<Rightarrow> 'u discovery_config" where
  "default_discovery_config cv =
     (let env = cv_env cv;
          bootstrap = (case peers_from_env env ''PEERLINE_BOOTSTRAP'' of
                         Some ps \<Rightarrow> ps | None \<Rightarrow> default_public_bootstrap_peers);
          relay = (case peers_from_env env ''PEERLINE_RELAY_PEERS'' of Some ps \<Rightarrow> ps | None \<Rightarrow> bootstrap);
          rendezvous = (case env ''PEERLINE_LIBP2P_RENDEZVOUS_PEERS'' of
                          Some raw \<Rightarrow> parse_libp2p_rendezvous_peers (cv_codec cv) raw | None \<Rightarrow> []);
          ice = (case webrtc_ice_servers_from_env (cv_ice_json cv) env of
                   Some ss \<Rightarrow> ss | None \<Rightarrow> default_webrtc_ice_servers (cv_mac cv) (cv_now_secs cv));
          turn = (\<not> env_flag env ''PEERLINE_DISABLE_TURN'')
      in \<lparr>dc_min_candidate_diversity = 1, dc_lookup_timeout = 15 * 1000,
          dc_enable_mdns = (\<not> env_flag env ''PEERLINE_DISABLE_MDNS''),
          dc_enable_upnp = (\<not> env_flag env ''PEERLINE_DISABLE_UPNP''),
          dc_enable_natpmp_pcp = (\<not> env_flag env ''PEERLINE_DISABLE_NATPMP_PCP''),
          dc_enable_quic = (\<not> env_flag env ''PEERLINE_DISABLE_QUIC''),
          dc_enable_dcutr = (\<not> env_flag env ''PEERLINE_DISABLE_DCUTR''),
          dc_enable_turn = turn,
          dc_enable_public_tunnels = (\<not> env_flag env ''PEERLINE_DISABLE_PUBLIC_TUNNELS''),
          dc_enable_tor = (\<not> env_flag env ''PEERLINE_DISABLE_TOR''),
          dc_enable_i2p = (\<not> env_flag env ''PEERLINE_DISABLE_I2P''),
          dc_i2p_sam = (case Option.bind (env ''PEERLINE_I2P_SAM'') parse_sock of
                          Some a \<Rightarrow> a | None \<Rightarrow> sock_new (V4 127 0 0 1) 7656),
          dc_tor_socks_proxy = sock_new (V4 127 0 0 1) 9050,
          dc_allow_loopback_endpoints = env_flag env ''PEERLINE_ALLOW_LOOPBACK_DISCOVERY'',
          dc_allow_relay_data_fallback = (\<not> env_flag env ''PEERLINE_DISABLE_RELAY_FALLBACK''),
          dc_bootstrap_peers = bootstrap, dc_relay_peers = relay, dc_libp2p_rendezvous_peers = rendezvous,
          dc_webrtc_ice_servers = (if turn then ice else without_turn_ice_servers ice),
          dc_rendezvous = cv_rendezvous cv\<rparr>)"

section \<open>Keys and descriptors\<close>

definition provider_record_key :: "lookup_key \<Rightarrow> string" where
  "provider_record_key k = ''/peerline/v1/'' @ lookup_key_hex k"

definition descriptor_record_key :: "lookup_key \<Rightarrow> string" where
  "descriptor_record_key k = ''/peerline/descriptor/v1/'' @ lookup_key_hex k"

text \<open>\<open>Namespace::new\<close> of libp2p refuses more than 255 characters.\<close>

definition receiver_namespace :: "lookup_key \<Rightarrow> string option" where
  "receiver_namespace k =
     (let ns = ''peerline/receiver/v1/'' @ lookup_key_hex k in if 255 < length ns then None else Some ns)"

definition make_peer_descriptor ::
  "u64 \<Rightarrow> string \<Rightarrow> string list \<Rightarrow> string list \<Rightarrow> public_tunnel_endpoint list \<Rightarrow> tor_onion_endpoint list \<Rightarrow>
   i2p_endpoint list \<Rightarrow> peer_descriptor" where
  "make_peer_descriptor now_unix_ms peer direct libp2p public tor i2p =
     \<lparr>pd_protocol_version = descriptor_protocol_version, pd_peer_id = peer, pd_direct_endpoints = direct,
      pd_libp2p_endpoints = libp2p, pd_public_endpoints = public, pd_tor_endpoints = tor, pd_i2p_endpoints = i2p,
      pd_published_unix_ms = now_unix_ms\<rparr>"

lemma in_map_filter: "y \<in> set (List.map_filter f xs) \<longleftrightarrow> (\<exists>x \<in> set xs. f x = Some y)"
  by (force simp: List.map_filter_def)

lemma without_turn_sound:
  "s \<in> set (without_turn_ice_servers ss) \<Longrightarrow> is_urls s \<noteq> [] \<and> (\<forall>u \<in> set (is_urls s). \<not> is_turn_url u)"
  by (auto simp: without_turn_ice_servers_def List.map_filter_def Let_def split: if_splits)

lemma without_turn_keeps:
  "s \<in> set ss \<Longrightarrow> u \<in> set (is_urls s) \<Longrightarrow> \<not> is_turn_url u \<Longrightarrow>
   \<exists>s' \<in> set (without_turn_ice_servers ss). u \<in> set (is_urls s') \<and> is_credential s' = is_credential s"
  by (force simp: without_turn_ice_servers_def List.map_filter_def Let_def filter_empty_conv)

lemma disabled_turn_leaves_none:
  "env_flag (cv_env cv) ''PEERLINE_DISABLE_TURN'' \<Longrightarrow> s \<in> set (dc_webrtc_ice_servers (default_discovery_config cv)) \<Longrightarrow>
   u \<in> set (is_urls s) \<Longrightarrow> \<not> is_turn_url u"
  by (simp add: default_discovery_config_def Let_def without_turn_sound)

lemma receiver_namespace_total: "length (key_bytes k) = 32 \<Longrightarrow> receiver_namespace k = Some (''peerline/receiver/v1/'' @ lookup_key_hex k)"
  by (simp add: receiver_namespace_def)

lemma split_peer_addr_Some: "split_peer_addr addr = Some (peer, rest) \<longleftrightarrow> addr = rest @ [Proto_P2p peer]"
  by (auto simp: split_peer_addr_def rev_eq_Cons_iff split: list.splits proto.splits)

lemma rendezvous_peer_dials_itself:
  "parse_libp2p_rendezvous_peer lp raw = Some p \<Longrightarrow> addr_parse lp raw = Some (rendezvous_dial_addr p)"
  by (auto simp: parse_libp2p_rendezvous_peer_def rendezvous_dial_addr_def split_peer_addr_Some
      split: Option.bind_splits)

end
