(* ===== verification/Endpoints.thy ===== *)
theory Endpoints
  imports Discovery_Config Tunnel_Url
begin

text \<open>
  From a descriptor to the candidates a sender tries, and from a bound socket to the endpoints a
  receiver advertises (\<open>peerline-net/src/discovery/endpoints.rs\<close>). The interface list and the
  URL crate are arguments. The lemmas show what a network prefix contains, that ranking only
  reorders, and which endpoints of a descriptor are offered.
\<close>

definition is_usable_endpoint_ip :: "ip_addr \<Rightarrow> bool \<Rightarrow> bool" where
  "is_usable_endpoint_ip ip allow_loopback =
     (case ip of
        V4 a b c d \<Rightarrow> \<not> is_unspecified ip \<and> (allow_loopback \<or> \<not> is_loopback ip) \<and> \<not> is_link_local ip \<and>
          \<not> is_multicast ip \<and> \<not> is_broadcast ip
      | V6 w \<Rightarrow> \<not> is_unspecified ip \<and> (allow_loopback \<or> \<not> is_loopback ip) \<and> \<not> is_unicast_link_local ip \<and>
          \<not> is_multicast ip)"

definition direct_endpoint_priority :: "socket_addr \<Rightarrow> nat" where
  "direct_endpoint_priority e =
     (case sock_ip e of
        V4 a b c d \<Rightarrow> if is_private (sock_ip e) then 0 else if \<not> is_loopback (sock_ip e) then 1 else 2
      | V6 w \<Rightarrow> if is_unique_local (sock_ip e) then 0 else if \<not> is_loopback (sock_ip e) then 1 else 2)"

definition is_private_lan_ip :: "ip_addr \<Rightarrow> bool" where
  "is_private_lan_ip ip =
     (case ip of V4 a b c d \<Rightarrow> is_private ip \<or> is_loopback ip | V6 w \<Rightarrow> is_unique_local ip \<or> is_loopback ip)"

section \<open>The networks of this machine\<close>

record ipv4_network =
  n4_network :: u32
  n4_mask :: u32

record ipv6_network =
  n6_network :: u128
  n6_mask :: u128

definition ipv4_network_new :: "u32 \<Rightarrow> u8 \<Rightarrow> ipv4_network" where
  "ipv4_network_new ip prefix_len =
     (let len = min (unat prefix_len) 32;
          mask = (if len = 0 then 0 else push_bit (32 - len) (- 1))
      in \<lparr>n4_network = ip AND mask, n4_mask = mask\<rparr>)"

definition ipv4_network_contains :: "ipv4_network \<Rightarrow> u32 \<Rightarrow> bool" where
  "ipv4_network_contains n ip = (ip AND n4_mask n = n4_network n)"

definition ipv6_network_new :: "u128 \<Rightarrow> u8 \<Rightarrow> ipv6_network" where
  "ipv6_network_new ip prefix_len =
     (let len = min (unat prefix_len) 128;
          mask = (if len = 0 then 0 else push_bit (128 - len) (- 1))
      in \<lparr>n6_network = ip AND mask, n6_mask = mask\<rparr>)"

definition ipv6_network_contains :: "ipv6_network \<Rightarrow> u128 \<Rightarrow> bool" where
  "ipv6_network_contains n ip = (ip AND n6_mask n = n6_network n)"

record local_networks =
  ln_ipv4 :: "ipv4_network list"
  ln_ipv6 :: "ipv6_network list"

definition networks_contain :: "local_networks \<Rightarrow> ip_addr \<Rightarrow> bool" where
  "networks_contain ns ip =
     (case ip of
        V4 a b c d \<Rightarrow> list_ex (\<lambda>n. ipv4_network_contains n (v4_bits a b c d)) (ln_ipv4 ns)
      | V6 w \<Rightarrow> list_ex (\<lambda>n. ipv6_network_contains n w) (ln_ipv6 ns))"

text \<open>An interface: whether it is up, its address and prefix length.\<close>

record interface =
  if_up :: bool
  if_ip :: ip_addr
  if_prefix :: u8

definition lan_interface :: "interface \<Rightarrow> bool" where
  "lan_interface i \<longleftrightarrow> if_up i \<and> is_private_lan_ip (if_ip i) \<and> is_usable_endpoint_ip (if_ip i) False"

text \<open>The code sorts and dedups the two lists; membership, all that is asked of them, is the same.\<close>

definition current_networks :: "interface list option \<Rightarrow> local_networks option" where
  "current_networks interfaces =
     map_option (\<lambda>is. \<lparr>ln_ipv4 = remdups_adj (sort_key (\<lambda>n. (n4_network n, n4_mask n))
          (List.map_filter (\<lambda>i. case if_ip i of
             V4 a b c d \<Rightarrow> if lan_interface i then Some (ipv4_network_new (v4_bits a b c d) (if_prefix i)) else None
           | V6 w \<Rightarrow> None) is)),
        ln_ipv6 = remdups_adj (sort_key (\<lambda>n. (n6_network n, n6_mask n))
          (List.map_filter (\<lambda>i. case if_ip i of
             V4 a b c d \<Rightarrow> None
           | V6 w \<Rightarrow> if lan_interface i then Some (ipv6_network_new w (if_prefix i)) else None) is))\<rparr>) interfaces"

section \<open>Candidates of a descriptor\<close>

definition discovered_endpoint_reachable :: "socket_addr \<Rightarrow> local_networks option \<Rightarrow> bool \<Rightarrow> bool" where
  "discovered_endpoint_reachable e networks allow_unverified_lan =
     (if allow_unverified_lan \<or> \<not> is_private_lan_ip (sock_ip e) then True
      else if is_loopback (sock_ip e) then False
      else (case networks of None \<Rightarrow> True | Some ns \<Rightarrow> networks_contain ns (sock_ip e)))"

definition discovered_direct_endpoints ::
  "peer_descriptor \<Rightarrow> local_networks option \<Rightarrow> bool \<Rightarrow> socket_addr list" where
  "discovered_direct_endpoints d networks allow_unverified_lan =
     sort_dedup direct_endpoint_priority
       (filter (\<lambda>e. discovered_endpoint_reachable e networks allow_unverified_lan)
         (filter (\<lambda>e. is_usable_endpoint_ip (sock_ip e) True)
           (List.map_filter parse_sock (pd_direct_endpoints d))))"

definition libp2p_endpoint_priority :: "multiaddr \<Rightarrow> nat" where
  "libp2p_endpoint_priority addr =
     (if is_relayed addr then 4 else if is_webrtc addr then 3 else if is_quic addr then 2 else 1)"

definition libp2p_endpoint_candidates :: "libp2p_codec \<Rightarrow> peer_descriptor \<Rightarrow> multiaddr list" where
  "libp2p_endpoint_candidates lp d =
     sort_dedup libp2p_endpoint_priority
       (filter is_dialable_multiaddr (List.map_filter (addr_parse lp) (pd_libp2p_endpoints d)))"

definition url_ok :: "url_error + string \<Rightarrow> string option" where
  "url_ok r = (case r of Inl e \<Rightarrow> None | Inr url \<Rightarrow> Some url)"

definition public_tunnel_endpoint_candidates :: "'u web_url \<Rightarrow> peer_descriptor \<Rightarrow> public_tunnel_endpoint list" where
  "public_tunnel_endpoint_candidates wu d =
     dedup_by (\<lambda>l r. pt_url l = pt_url r) (sort_key pt_url
       (List.map_filter (\<lambda>e. map_option (\<lambda>url. \<lparr>pt_provider = pt_provider e, pt_url = url\<rparr>)
          (url_ok (normalize_public_tunnel_url wu (pt_url e)))) (pd_public_endpoints d)))"

definition tor_onion_endpoint_candidates :: "'u web_url \<Rightarrow> peer_descriptor \<Rightarrow> tor_onion_endpoint list" where
  "tor_onion_endpoint_candidates wu d =
     dedup_by (\<lambda>l r. to_url l = to_url r) (sort_key to_url
       (List.map_filter (\<lambda>e. map_option (\<lambda>url. \<lparr>to_url = url\<rparr>)
          (url_ok (normalize_tor_onion_url wu (to_url e)))) (pd_tor_endpoints d)))"

definition i2p_endpoint_candidates :: "'u web_url \<Rightarrow> peer_descriptor \<Rightarrow> i2p_endpoint list" where
  "i2p_endpoint_candidates wu d =
     dedup_by (\<lambda>l r. ip_url l = ip_url r) (sort_key ip_url
       (List.map_filter (\<lambda>e. map_option (\<lambda>url. \<lparr>ip_url = url\<rparr>)
          (url_ok (normalize_i2p_url wu (ip_url e)))) (pd_i2p_endpoints d)))"

definition route_kind_from_multiaddr :: "multiaddr \<Rightarrow> bool \<Rightarrow> route_kind" where
  "route_kind_from_multiaddr addr enable_turn =
     (if is_relayed addr then Rk_Libp2pRelay
      else if is_webrtc addr then (if enable_turn then Rk_WebRtcTurn else Rk_WebRtcDirect)
      else if is_quic addr then Rk_Libp2pQuic else Rk_Libp2pDcutr)"

definition route_kind_from_direct_endpoint :: "socket_addr \<Rightarrow> route_kind" where
  "route_kind_from_direct_endpoint e =
     (case sock_ip e of
        V4 a b c d \<Rightarrow> if is_private (sock_ip e) \<or> is_loopback (sock_ip e) then Rk_LanDirect else Rk_PublicDirect
      | V6 w \<Rightarrow> if is_unique_local (sock_ip e) \<or> is_loopback (sock_ip e) then Rk_LanDirect else Rk_PublicDirect)"

fun route_rank :: "route_kind \<Rightarrow> nat" where
  "route_rank Rk_LanDirect = 0"
| "route_rank Rk_PublicDirect = 1"
| "route_rank Rk_PublicTunnel = 2"
| "route_rank Rk_Libp2pQuic = 3"
| "route_rank Rk_Libp2pDcutr = 4"
| "route_rank Rk_WebRtcDirect = 5"
| "route_rank Rk_WebRtcTurn = 6"
| "route_rank Rk_I2p = 7"
| "route_rank Rk_TorOnion = 8"
| "route_rank Rk_Libp2pRelay = 9"

definition rank_candidates :: "candidate list \<Rightarrow> candidate list" where
  "rank_candidates cs = sort_dedup (\<lambda>c. route_rank (cd_route c)) cs"

definition candidate_of :: "string \<Rightarrow> route_kind \<Rightarrow> string \<Rightarrow> candidate" where
  "candidate_of peer route address = \<lparr>cd_peer_id = peer, cd_addresses = [address], cd_route = route\<rparr>"

text \<open>The parameters every route needs: the codec of libp2p and the URL crate.\<close>

record 'u route_env =
  re_codec :: libp2p_codec
  re_url :: "'u web_url"

definition all_candidates ::
  "'u route_env \<Rightarrow> peer_descriptor \<Rightarrow> local_networks option \<Rightarrow> bool \<Rightarrow> bool \<Rightarrow> candidate list" where
  "all_candidates re d networks allow_unverified_lan enable_turn =
     (let peer = pd_peer_id d in
      map (\<lambda>e. candidate_of peer (route_kind_from_direct_endpoint e) (sock_str e))
        (discovered_direct_endpoints d networks allow_unverified_lan) @
      map (\<lambda>e. candidate_of peer Rk_PublicTunnel (pt_url e)) (public_tunnel_endpoint_candidates (re_url re) d) @
      map (\<lambda>e. candidate_of peer Rk_TorOnion (to_url e)) (tor_onion_endpoint_candidates (re_url re) d) @
      map (\<lambda>e. candidate_of peer Rk_I2p (ip_url e)) (i2p_endpoint_candidates (re_url re) d) @
      map (\<lambda>a. candidate_of peer (route_kind_from_multiaddr a enable_turn) (addr_text (re_codec re) a))
        (libp2p_endpoint_candidates (re_codec re) d))"

definition descriptor_candidates ::
  "'u route_env \<Rightarrow> peer_descriptor \<Rightarrow> local_networks option \<Rightarrow> bool \<Rightarrow> 'v discovery_config \<Rightarrow> candidate list" where
  "descriptor_candidates re d networks allow_unverified_lan cfg =
     rank_candidates (filter (\<lambda>c. route_enabled cfg (cd_route c))
       (all_candidates re d networks allow_unverified_lan (dc_enable_turn cfg)))"

section \<open>What a receiver advertises\<close>

definition direct_endpoints_from_ips :: "u16 \<Rightarrow> ip_addr list \<Rightarrow> bool \<Rightarrow> socket_addr list" where
  "direct_endpoints_from_ips port ips allow_loopback =
     sort_dedup direct_endpoint_priority
       (map (\<lambda>ip. sock_new ip port) (filter (\<lambda>ip. is_usable_endpoint_ip ip allow_loopback) ips))"

text \<open>The interfaces' addresses, or none when they cannot be listed.\<close>

definition direct_endpoints :: "ip_addr list \<Rightarrow> socket_addr \<Rightarrow> bool \<Rightarrow> socket_addr list" where
  "direct_endpoints interface_ips bind allow_loopback =
     (if is_unspecified (sock_ip bind) then
        direct_endpoints_from_ips (sock_port bind) interface_ips allow_loopback
      else if is_usable_endpoint_ip (sock_ip bind) allow_loopback then [bind] else [])"

definition direct_endpoints_with_extra ::
  "ip_addr list \<Rightarrow> socket_addr \<Rightarrow> bool \<Rightarrow> socket_addr list \<Rightarrow> socket_addr list" where
  "direct_endpoints_with_extra interface_ips bind allow_loopback extra =
     sort_dedup direct_endpoint_priority
       (direct_endpoints interface_ips bind allow_loopback @
        filter (\<lambda>e. is_usable_endpoint_ip (sock_ip e) allow_loopback) extra)"


section \<open>Ranking only reorders\<close>

interpretation rc: dedup_view rank_candidates "\<lambda>c. route_rank (cd_route c)"
  by unfold_locales (simp_all add: rank_candidates_def sorted_sort_dedup distinct_adj_sort_dedup)

lemma descriptor_candidates_set:
  "c \<in> set (descriptor_candidates re d networks allow cfg) \<longleftrightarrow>
    c \<in> set (all_candidates re d networks allow (dc_enable_turn cfg)) \<and> route_enabled cfg (cd_route c)"
  unfolding descriptor_candidates_def rc.set_view by auto

lemma all_candidates_peer:
  "c \<in> set (all_candidates re d networks allow turn) \<Longrightarrow> cd_peer_id c = pd_peer_id d"
  by (auto simp: all_candidates_def candidate_of_def Let_def)

lemma discovered_direct_endpoints_set:
  "e \<in> set (discovered_direct_endpoints d networks allow) \<longleftrightarrow>
    (\<exists>s \<in> set (pd_direct_endpoints d). parse_sock s = Some e) \<and> is_usable_endpoint_ip (sock_ip e) True \<and>
    discovered_endpoint_reachable e networks allow"
  by (auto simp: discovered_direct_endpoints_def in_map_filter)

lemma multiaddr_not_direct: "route_kind_from_multiaddr a turn \<notin> {Rk_LanDirect, Rk_PublicDirect}"
  by (simp add: route_kind_from_multiaddr_def)

lemma direct_candidate_iff:
  assumes "cd_route c \<in> {Rk_LanDirect, Rk_PublicDirect}"
  shows "c \<in> set (descriptor_candidates re d networks allow cfg) \<longleftrightarrow>
    (\<exists>e \<in> set (discovered_direct_endpoints d networks allow).
      c = candidate_of (pd_peer_id d) (route_kind_from_direct_endpoint e) (sock_str e))"
  using assms multiaddr_not_direct
  by (auto simp: descriptor_candidates_set all_candidates_def candidate_of_def Let_def)

lemma lan_route_iff: "route_kind_from_direct_endpoint e = Rk_LanDirect \<longleftrightarrow> is_private_lan_ip (sock_ip e)"
  by (simp add: route_kind_from_direct_endpoint_def is_private_lan_ip_def split: ip_addr.splits)

section \<open>What a network contains\<close>

lemma and_high_mask: "x AND push_bit n (- 1) = push_bit n (drop_bit n (x :: 'a::len word))"
  by (rule bit_word_eqI) (auto simp: bit_simps)

lemma high_bits_eq_iff:
  "x AND push_bit n (- 1) = y AND push_bit n (- 1) \<longleftrightarrow> drop_bit n x = drop_bit n (y :: 'a::len word)"
proof
  assume eq: "x AND push_bit n (- 1) = y AND push_bit n (- 1)"
  show "drop_bit n x = drop_bit n y"
  proof (rule bit_word_eqI)
    fix i
    have "bit (x AND push_bit n (- 1)) (n + i) = bit (y AND push_bit n (- 1)) (n + i)" by (simp only: eq)
    then show "bit (drop_bit n x) i = bit (drop_bit n y) i"
      by (auto simp: bit_simps dest: bit_imp_le_length)
  qed
qed (simp only: and_high_mask)

lemma ipv4_mask: "(if n = 0 then 0 else push_bit (32 - n) (- 1)) = push_bit (32 - n) (- 1 :: u32)"
  by (auto intro!: bit_word_eqI simp: bit_simps simp del: push_bit_minus_one_eq_not_mask)

lemma ipv6_mask: "(if n = 0 then 0 else push_bit (128 - n) (- 1)) = push_bit (128 - n) (- 1 :: u128)"
  by (auto intro!: bit_word_eqI simp: bit_simps simp del: push_bit_minus_one_eq_not_mask)

text \<open>An address is in a network exactly when it shares the network's leading bits.\<close>

lemma ipv4_network_contains_iff:
  "ipv4_network_contains (ipv4_network_new ip p) x \<longleftrightarrow>
    drop_bit (32 - min (unat p) 32) x = drop_bit (32 - min (unat p) 32) ip"
  unfolding ipv4_network_contains_def ipv4_network_new_def Let_def ipv4_network.select_convs ipv4_mask
  by (rule high_bits_eq_iff)

lemma ipv6_network_contains_iff:
  "ipv6_network_contains (ipv6_network_new ip p) x \<longleftrightarrow>
    drop_bit (128 - min (unat p) 128) x = drop_bit (128 - min (unat p) 128) ip"
  unfolding ipv6_network_contains_def ipv6_network_new_def Let_def ipv6_network.select_convs ipv6_mask
  by (rule high_bits_eq_iff)

fun same_network :: "interface \<Rightarrow> ip_addr \<Rightarrow> bool" where
  "same_network i (V4 a b c d) =
     (case if_ip i of
        V4 a' b' c' d' \<Rightarrow> drop_bit (32 - min (unat (if_prefix i)) 32) (v4_bits a b c d) =
          drop_bit (32 - min (unat (if_prefix i)) 32) (v4_bits a' b' c' d')
      | V6 w' \<Rightarrow> False)"
| "same_network i (V6 w) =
     (case if_ip i of
        V4 a' b' c' d' \<Rightarrow> False
      | V6 w' \<Rightarrow> drop_bit (128 - min (unat (if_prefix i)) 128) w =
          drop_bit (128 - min (unat (if_prefix i)) 128) w')"

lemma list_ex_collected:
  "list_ex P (remdups_adj (sort_key k (List.map_filter f is))) \<longleftrightarrow> (\<exists>i \<in> set is. \<exists>n. f i = Some n \<and> P n)"
  by (simp add: list_ex_iff Bex_def in_map_filter) blast

lemma current_networks_contain:
  assumes "current_networks (Some is) = Some ns"
  shows "networks_contain ns ip \<longleftrightarrow> (\<exists>i \<in> set is. lan_interface i \<and> same_network i ip)"
proof -
  from assms have ns: "ln_ipv4 ns = remdups_adj (sort_key (\<lambda>n. (n4_network n, n4_mask n))
          (List.map_filter (\<lambda>i. case if_ip i of
             V4 a b c d \<Rightarrow> if lan_interface i then Some (ipv4_network_new (v4_bits a b c d) (if_prefix i)) else None
           | V6 w \<Rightarrow> None) is))"
      "ln_ipv6 ns = remdups_adj (sort_key (\<lambda>n. (n6_network n, n6_mask n))
          (List.map_filter (\<lambda>i. case if_ip i of
             V4 a b c d \<Rightarrow> None
           | V6 w \<Rightarrow> if lan_interface i then Some (ipv6_network_new w (if_prefix i)) else None) is))"
    unfolding current_networks_def by auto
  show ?thesis
  proof (cases ip)
    case (V4 a b c d)
    then show ?thesis
      unfolding networks_contain_def ns ip_addr.case list_ex_collected V4
      by (intro bex_cong refl) (auto simp: ipv4_network_contains_iff split: ip_addr.splits)
  next
    case (V6 w)
    then show ?thesis
      unfolding networks_contain_def ns ip_addr.case list_ex_collected V6
      by (intro bex_cong refl) (auto simp: ipv6_network_contains_iff split: ip_addr.splits)
  qed
qed


text \<open>
  The candidates of a descriptor are listed best route first, each with its route switched on, and
  no other direct endpoint of the descriptor is lost: every announced address that parses, is usable
  and reachable is among them.
\<close>

theorem candidates_ranked_and_complete:
  "sorted (map (\<lambda>c. route_rank (cd_route c)) (descriptor_candidates re d networks allow cfg)) \<and>
   (\<forall>c \<in> set (descriptor_candidates re d networks allow cfg).
      route_enabled cfg (cd_route c) \<and> cd_peer_id c = pd_peer_id d) \<and>
   (\<forall>s \<in> set (pd_direct_endpoints d). \<forall>e. parse_sock s = Some e \<longrightarrow> is_usable_endpoint_ip (sock_ip e) True \<longrightarrow>
      discovered_endpoint_reachable e networks allow \<longrightarrow>
      candidate_of (pd_peer_id d) (route_kind_from_direct_endpoint e) (sock_str e)
        \<in> set (descriptor_candidates re d networks allow cfg))"
proof (intro conjI ballI allI impI)
  show "sorted (map (\<lambda>c. route_rank (cd_route c)) (descriptor_candidates re d networks allow cfg))"
    unfolding descriptor_candidates_def by (rule rc.sorted_view)
next
  fix c assume "c \<in> set (descriptor_candidates re d networks allow cfg)"
  then show "route_enabled cfg (cd_route c)" "cd_peer_id c = pd_peer_id d"
    by (auto simp: descriptor_candidates_set dest: all_candidates_peer)
next
  fix s e
  assume "s \<in> set (pd_direct_endpoints d)" "parse_sock s = Some e" "is_usable_endpoint_ip (sock_ip e) True"
    "discovered_endpoint_reachable e networks allow"
  then have "e \<in> set (discovered_direct_endpoints d networks allow)"
    by (auto simp: discovered_direct_endpoints_set)
  moreover have "route_kind_from_direct_endpoint e \<in> {Rk_LanDirect, Rk_PublicDirect}"
    by (simp add: route_kind_from_direct_endpoint_def split: ip_addr.splits)
  ultimately show "candidate_of (pd_peer_id d) (route_kind_from_direct_endpoint e) (sock_str e)
      \<in> set (descriptor_candidates re d networks allow cfg)"
    by (subst direct_candidate_iff) (auto simp: candidate_of_def)
qed


text \<open>A descriptor with one endpoint on this machine's network.\<close>

definition bare_codec :: libp2p_codec where
  "bare_codec = \<lparr>peer_parse = \<lambda>s. if s = [] then None else Some (str_bytes s), peer_text = bytes_str,
     peer_from_bytes = Some, addr_parse = \<lambda>_. None, addr_text = \<lambda>_. [], addr_bytes = \<lambda>_. [],
     addr_from_bytes = \<lambda>_. None\<rparr>"

definition bare_env :: "unit route_env" where
  "bare_env = \<lparr>re_codec = bare_codec, re_url = \<lparr>wu_parse = \<lambda>_. None, wu_scheme = \<lambda>_. [], wu_host = \<lambda>_. None,
     wu_port = \<lambda>_. None, wu_set_scheme = \<lambda>_ _. None, wu_text = \<lambda>_. []\<rparr>\<rparr>"

definition bare_config :: "unit discovery_config" where
  "bare_config = default_discovery_config \<lparr>cv_codec = bare_codec, cv_ice_json = \<lambda>_. None, cv_mac = \<lambda>_ _. [],
     cv_now_secs = 0, cv_rendezvous = disabled_config, cv_env = \<lambda>_. None\<rparr>"

definition lan_interfaces :: "interface list" where
  "lan_interfaces = [\<lparr>if_up = True, if_ip = V4 192 168 1 9, if_prefix = 24\<rparr>]"

definition lan_endpoint :: socket_addr where
  "lan_endpoint = sock_new (V4 192 168 1 20) 43117"

definition lan_descriptor :: peer_descriptor where
  "lan_descriptor = \<lparr>pd_protocol_version = 1, pd_peer_id = ''p'', pd_direct_endpoints = [sock_str lan_endpoint],
     pd_libp2p_endpoints = [], pd_public_endpoints = [], pd_tor_endpoints = [], pd_i2p_endpoints = [],
     pd_published_unix_ms = 0\<rparr>"

lemma lan_parse: "parse_sock (sock_str lan_endpoint) = Some lan_endpoint"
  unfolding lan_endpoint_def sock_new_def by (rule parse_sock_v4_roundtrip_aux)

lemma lan_discovered:
  "lan_endpoint \<in> set (discovered_direct_endpoints lan_descriptor (current_networks (Some lan_interfaces)) False)"
proof -
  obtain ns where ns: "current_networks (Some lan_interfaces) = Some ns" by (simp add: current_networks_def)
  have "lan_interface \<lparr>if_up = True, if_ip = V4 192 168 1 9, if_prefix = 24\<rparr>"
    "same_network \<lparr>if_up = True, if_ip = V4 192 168 1 9, if_prefix = 24\<rparr> (sock_ip lan_endpoint)" by code_simp+
  then have "networks_contain ns (sock_ip lan_endpoint)"
    unfolding current_networks_contain [OF ns] lan_interfaces_def by auto
  moreover have "is_usable_endpoint_ip (sock_ip lan_endpoint) True" "\<not> is_loopback (sock_ip lan_endpoint)" by code_simp+
  ultimately show ?thesis
    unfolding discovered_direct_endpoints_set ns
    by (simp add: lan_descriptor_def lan_parse discovered_endpoint_reachable_def)
qed

definition lan_candidate :: candidate where
  "lan_candidate = candidate_of ''p'' Rk_LanDirect (sock_str lan_endpoint)"

lemma lan_candidate_offered:
  "lan_candidate \<in> set (descriptor_candidates re lan_descriptor (current_networks (Some lan_interfaces)) False cfg)"
proof -
  have "route_kind_from_direct_endpoint lan_endpoint = Rk_LanDirect" by code_simp
  then show ?thesis
    using lan_discovered
    by (subst direct_candidate_iff) (auto simp: lan_candidate_def candidate_of_def lan_descriptor_def intro!: bexI)
qed


theorem candidates_ranked_and_complete_witness:
  "lan_candidate \<in> set (descriptor_candidates bare_env lan_descriptor None False bare_config)"
proof -
  have "is_usable_endpoint_ip (sock_ip lan_endpoint) True" "discovered_endpoint_reachable lan_endpoint None False"
    "route_kind_from_direct_endpoint lan_endpoint = Rk_LanDirect" by code_simp+
  then show ?thesis
    using candidates_ranked_and_complete [where d = lan_descriptor and networks = None and allow = False] lan_parse
    by (auto simp: lan_candidate_def lan_descriptor_def)
qed

end
