(* ===== verification/Snapshot.thy ===== *)
theory Snapshot
  imports Endpoints "HOL-Library.AList" "HOL-Library.Multiset"
begin

text \<open>
  What a sender has learnt while it discovers (\<open>peerline-net/src/discovery/snapshot.rs\<close>). The hash
  map of descriptors is an association list in the order the map happens to be iterated in; the
  hash sets are sets. The lemmas show the invariant of a snapshot, that the newest descriptor of a
  peer is the one kept, and that the best descriptor does not depend on the iteration order.
\<close>

record snapshot =
  sn_observed_peers :: "peer_id set"
  sn_local_peer_ids :: "string set"
  sn_descriptors :: "(string \<times> peer_descriptor) list"

definition snapshot_new :: snapshot where
  "snapshot_new = \<lparr>sn_observed_peers = {}, sn_local_peer_ids = {}, sn_descriptors = []\<rparr>"

definition has_local_descriptor :: "snapshot \<Rightarrow> bool" where
  "has_local_descriptor s = list_ex (\<lambda>(k, d). k \<in> sn_local_peer_ids s) (sn_descriptors s)"

definition is_diverse_enough :: "nat \<Rightarrow> snapshot \<Rightarrow> bool" where
  "is_diverse_enough minimum s =
     (if sn_descriptors s = [] then False
      else has_local_descriptor s \<or> minimum \<le> card (sn_observed_peers s))"

definition observe_local_peer :: "libp2p_codec \<Rightarrow> peer_id \<Rightarrow> snapshot \<Rightarrow> snapshot" where
  "observe_local_peer lp peer s =
     s\<lparr>sn_local_peer_ids := insert (peer_text lp peer) (sn_local_peer_ids s),
       sn_observed_peers := insert peer (sn_observed_peers s)\<rparr>"

definition clamp_published :: "u64 \<Rightarrow> peer_descriptor \<Rightarrow> peer_descriptor" where
  "clamp_published now d = d\<lparr>pd_published_unix_ms := min (pd_published_unix_ms d) now\<rparr>"

definition insert_descriptor :: "libp2p_codec \<Rightarrow> u64 \<Rightarrow> peer_descriptor \<Rightarrow> snapshot \<Rightarrow> snapshot" where
  "insert_descriptor lp now descriptor s =
     (case peer_parse lp (pd_peer_id descriptor) of
        None \<Rightarrow> s
      | Some peer \<Rightarrow>
          let d = clamp_published now descriptor;
              stored = s\<lparr>sn_observed_peers := insert peer (sn_observed_peers s),
                         sn_descriptors := AList.update (pd_peer_id d) d (sn_descriptors s)\<rparr>
          in (case map_of (sn_descriptors s) (pd_peer_id d) of
                Some current \<Rightarrow>
                  if pd_published_unix_ms d < pd_published_unix_ms current then s else stored
              | None \<Rightarrow> stored))"

definition snapshot_values :: "snapshot \<Rightarrow> peer_descriptor list" where
  "snapshot_values s = map snd (sn_descriptors s)"

definition seen_locally :: "snapshot \<Rightarrow> peer_descriptor \<Rightarrow> bool" where
  "seen_locally s d = (pd_peer_id d \<in> sn_local_peer_ids s)"

text \<open>\<open>Iterator::max_by_key\<close>: the last of the elements with the greatest key.\<close>

fun max_by_key :: "('a \<Rightarrow> 'k::linorder) \<Rightarrow> 'a list \<Rightarrow> 'a option" where
  "max_by_key key [] = None"
| "max_by_key key (x # xs) =
     (case max_by_key key xs of
        None \<Rightarrow> Some x
      | Some y \<Rightarrow> if key x \<le> key y then Some y else Some x)"

definition candidates_of ::
  "'u route_env \<Rightarrow> local_networks option \<Rightarrow> 'v discovery_config \<Rightarrow> snapshot \<Rightarrow> peer_descriptor \<Rightarrow> candidate list" where
  "candidates_of re networks cfg s d = descriptor_candidates re d networks (seen_locally s d) cfg"

definition best_descriptor ::
  "'u route_env \<Rightarrow> local_networks option \<Rightarrow> 'v discovery_config \<Rightarrow> snapshot \<Rightarrow> peer_descriptor option" where
  "best_descriptor re networks cfg s =
     max_by_key (\<lambda>d. (pd_published_unix_ms d, length (candidates_of re networks cfg s d), pd_peer_id d))
       (filter (\<lambda>d. candidates_of re networks cfg s d \<noteq> []) (snapshot_values s))"

definition best_direct_endpoints :: "local_networks option \<Rightarrow> snapshot \<Rightarrow> socket_addr list" where
  "best_direct_endpoints networks s =
     (let endpoints = (\<lambda>d. discovered_direct_endpoints d networks (seen_locally s d)) in
      case max_by_key (\<lambda>d. (pd_published_unix_ms d, length (endpoints d), pd_peer_id d))
             (filter (\<lambda>d. endpoints d \<noteq> []) (snapshot_values s)) of
        None \<Rightarrow> []
      | Some d \<Rightarrow> endpoints d)"

definition has_usable_candidates ::
  "'u route_env \<Rightarrow> local_networks option \<Rightarrow> 'v discovery_config \<Rightarrow> snapshot \<Rightarrow> bool" where
  "has_usable_candidates re networks cfg s =
     list_ex (\<lambda>d. candidates_of re networks cfg s d \<noteq> []) (snapshot_values s)"

text \<open>\<open>into_candidates\<close>, which consumes the snapshot, and \<open>candidates\<close>, which does not.\<close>

definition snapshot_candidates ::
  "'u route_env \<Rightarrow> local_networks option \<Rightarrow> 'v discovery_config \<Rightarrow> snapshot \<Rightarrow> candidate list" where
  "snapshot_candidates re networks cfg s =
     rank_candidates (concat (map (candidates_of re networks cfg s) (snapshot_values s)))"

section \<open>The invariant\<close>

text \<open>
  Keys are unique and the peer's own id, every descriptor is of a valid peer that counts as
  observed, and none claims to be published after \<open>latest\<close>, the latest time of the clock.
\<close>

definition snapshot_inv :: "libp2p_codec \<Rightarrow> u64 \<Rightarrow> snapshot \<Rightarrow> bool" where
  "snapshot_inv lp latest s \<longleftrightarrow>
     distinct (map fst (sn_descriptors s)) \<and> finite (sn_observed_peers s) \<and>
     (\<forall>(k, d) \<in> set (sn_descriptors s). k = pd_peer_id d \<and> pd_published_unix_ms d \<le> latest \<and>
        (\<exists>peer. peer_parse lp k = Some peer \<and> peer \<in> sn_observed_peers s))"

lemma snapshot_inv_new: "snapshot_inv lp latest snapshot_new"
  by (simp add: snapshot_inv_def snapshot_new_def)

lemma set_update: "p \<in> set (AList.update k v al) \<Longrightarrow> p = (k, v) \<or> p \<in> set al"
  by (induction al) (auto split: if_splits)

lemma insert_descriptor_inv:
  assumes "snapshot_inv lp latest s" "now \<le> latest"
  shows "snapshot_inv lp latest (insert_descriptor lp now d s)"
  using assms
  by (fastforce simp: snapshot_inv_def insert_descriptor_def clamp_published_def Let_def distinct_update
      min_def dest!: set_update split: option.splits if_splits)

lemma observe_local_peer_inv: "snapshot_inv lp latest s \<Longrightarrow> snapshot_inv lp latest (observe_local_peer lp peer s)"
  by (fastforce simp: snapshot_inv_def observe_local_peer_def)

section \<open>The newest descriptor wins\<close>

lemma insert_descriptor_other:
  "pd_peer_id d \<noteq> p \<Longrightarrow> map_of (sn_descriptors (insert_descriptor lp now d s)) p = map_of (sn_descriptors s) p"
  by (auto simp: insert_descriptor_def Let_def clamp_published_def update_conv split: option.splits)

lemma insert_descriptor_self:
  "peer_parse lp (pd_peer_id d) = Some peer \<Longrightarrow>
   map_of (sn_descriptors (insert_descriptor lp now d s)) (pd_peer_id d) =
     (case map_of (sn_descriptors s) (pd_peer_id d) of
        Some current \<Rightarrow>
          if pd_published_unix_ms (clamp_published now d) < pd_published_unix_ms current then Some current
          else Some (clamp_published now d)
      | None \<Rightarrow> Some (clamp_published now d))"
  by (auto simp: insert_descriptor_def Let_def clamp_published_def update_conv split: option.splits)

fun insert_all :: "libp2p_codec \<Rightarrow> (u64 \<times> peer_descriptor) list \<Rightarrow> snapshot \<Rightarrow> snapshot" where
  "insert_all lp [] s = s"
| "insert_all lp ((now, d) # xs) s = insert_all lp xs (insert_descriptor lp now d s)"

lemma insert_all_append: "insert_all lp (xs @ ys) s = insert_all lp ys (insert_all lp xs s)"
  by (induction xs arbitrary: s) auto

definition arrivals :: "string \<Rightarrow> (u64 \<times> peer_descriptor) list \<Rightarrow> peer_descriptor list" where
  "arrivals p xs = map (\<lambda>(now, d). clamp_published now d) (filter (\<lambda>(now, d). pd_peer_id d = p) xs)"

lemma insert_all_newest:
  assumes "peer_parse lp p = Some peer"
  shows "map_of (sn_descriptors (insert_all lp xs snapshot_new)) p =
    max_by_key pd_published_unix_ms (arrivals p xs)"
proof (induction xs rule: rev_induct)
  case Nil
  then show ?case by (simp add: arrivals_def snapshot_new_def)
next
  case (snoc x xs)
  obtain now d where x: "x = (now, d)" by (cases x)
  have last: "max_by_key key (ys @ [y]) =
      (case max_by_key key ys of None \<Rightarrow> Some y | Some z \<Rightarrow> if key y < key z then Some z else Some y)"
    for key :: "peer_descriptor \<Rightarrow> u64" and ys y
    by (induction ys) (auto split: option.splits)
  show ?case
  proof (cases "pd_peer_id d = p")
    case False
    then show ?thesis using snoc
      by (simp add: x insert_all_append insert_descriptor_other arrivals_def)
  next
    case True
    have "arrivals p (xs @ [x]) = arrivals p xs @ [clamp_published now d]"
      using True by (simp add: arrivals_def x)
    moreover have "map_of (sn_descriptors (insert_all lp (xs @ [x]) snapshot_new)) p =
        (case map_of (sn_descriptors (insert_all lp xs snapshot_new)) p of
           Some current \<Rightarrow>
             if pd_published_unix_ms (clamp_published now d) < pd_published_unix_ms current then Some current
             else Some (clamp_published now d)
         | None \<Rightarrow> Some (clamp_published now d))"
      using insert_descriptor_self [of lp d peer now "insert_all lp xs snapshot_new"] assms True
      by (simp add: x insert_all_append)
    ultimately show ?thesis by (simp add: last snoc)
  qed
qed


lemma max_by_key_Some:
  "max_by_key key xs = Some x \<Longrightarrow> x \<in> set xs \<and> (\<forall>y \<in> set xs. key y \<le> key x)"
proof (induction xs arbitrary: x)
  case Nil
  then show ?case by simp
next
  case (Cons a xs)
  show ?case
  proof (cases "max_by_key key xs")
    case None
    then have "xs = []" by (cases xs) (auto split: option.splits if_splits)
    with Cons.prems show ?thesis by simp
  next
    case (Some y)
    with Cons.IH [OF Some] Cons.prems show ?thesis by (auto split: if_splits)
  qed
qed

lemma max_by_key_None: "max_by_key key xs = None \<longleftrightarrow> xs = []"
  by (cases xs) (auto split: option.splits)

lemma max_by_key_unique:
  assumes "inj_on key (set xs)" "set ys = set xs"
  shows "max_by_key key xs = max_by_key key ys"
proof (cases "max_by_key key xs")
  case None
  with assms show ?thesis by (simp add: max_by_key_None)
next
  case (Some x)
  then have "ys \<noteq> []" using assms(2) max_by_key_Some [OF Some] by auto
  then obtain y where y: "max_by_key key ys = Some y" by (cases "max_by_key key ys") (auto simp: max_by_key_None)
  have "key x = key y"
    using max_by_key_Some [OF Some] max_by_key_Some [OF y] assms(2) by (metis order_antisym)
  then show ?thesis
    using max_by_key_Some [OF Some] max_by_key_Some [OF y] assms Some y by (metis inj_onD)
qed

lemma values_peer_inj: "snapshot_inv lp latest s \<Longrightarrow> inj_on pd_peer_id (set (snapshot_values s))"
proof (rule inj_onI)
  fix x y assume inv: "snapshot_inv lp latest s"
    and "x \<in> set (snapshot_values s)" "y \<in> set (snapshot_values s)" "pd_peer_id x = pd_peer_id y"
  then obtain k k' where k: "(k, x) \<in> set (sn_descriptors s)" "(k', y) \<in> set (sn_descriptors s)"
    by (auto simp: snapshot_values_def)
  with inv have "k = pd_peer_id x" "k' = pd_peer_id y" by (auto simp: snapshot_inv_def)
  with k \<open>pd_peer_id x = pd_peer_id y\<close> have "(k, x) \<in> set (sn_descriptors s)" "(k, y) \<in> set (sn_descriptors s)"
    by simp_all
  moreover have "distinct (map fst (sn_descriptors s))" using inv by (simp add: snapshot_inv_def)
  ultimately show "x = y" by (rule eq_key_imp_eq_value [rotated])
qed

lemma lex_first: "(a, b) \<le> (c, d) \<Longrightarrow> a \<le> c" for a c :: "'a::linorder" and b d :: "'b::linorder"
  by (auto simp: less_eq_prod_def)

lemma best_descriptor_Some:
  assumes "best_descriptor re networks cfg s = Some d"
  shows "d \<in> set (snapshot_values s)" "candidates_of re networks cfg s d \<noteq> []"
    and "d' \<in> set (snapshot_values s) \<Longrightarrow> candidates_of re networks cfg s d' \<noteq> [] \<Longrightarrow>
      pd_published_unix_ms d' \<le> pd_published_unix_ms d"
proof -
  note best = max_by_key_Some [OF assms [unfolded best_descriptor_def]]
  from best show "d \<in> set (snapshot_values s)" "candidates_of re networks cfg s d \<noteq> []" by simp_all
  assume "d' \<in> set (snapshot_values s)" "candidates_of re networks cfg s d' \<noteq> []"
  then have "d' \<in> set (filter (\<lambda>d. candidates_of re networks cfg s d \<noteq> []) (snapshot_values s))" by simp
  from best [THEN conjunct2, rule_format, OF this] show "pd_published_unix_ms d' \<le> pd_published_unix_ms d"
    by (rule lex_first)
qed

lemma best_descriptor_None: "best_descriptor re networks cfg s = None \<longleftrightarrow> \<not> has_usable_candidates re networks cfg s"
  by (auto simp: best_descriptor_def max_by_key_None has_usable_candidates_def list_ex_iff filter_empty_conv)

lemma best_descriptor_order:
  assumes "snapshot_inv lp latest s" "mset al = mset (sn_descriptors s)"
  shows "best_descriptor re networks cfg (s\<lparr>sn_descriptors := al\<rparr>) = best_descriptor re networks cfg s"
proof -
  have same: "set (snapshot_values (s\<lparr>sn_descriptors := al\<rparr>)) = set (snapshot_values s)"
    using mset_eq_setD [OF assms(2)] by (simp add: snapshot_values_def)
  have cand: "candidates_of re networks cfg (s\<lparr>sn_descriptors := al\<rparr>) = candidates_of re networks cfg s"
    by (simp add: candidates_of_def seen_locally_def fun_eq_iff)
  have "inj_on (\<lambda>d. (pd_published_unix_ms d, length (candidates_of re networks cfg s d), pd_peer_id d))
      (set (filter (\<lambda>d. candidates_of re networks cfg s d \<noteq> []) (snapshot_values s)))"
    using values_peer_inj [OF assms(1)] by (auto simp: inj_on_def)
  from max_by_key_unique [OF this, of "filter (\<lambda>d. candidates_of re networks cfg s d \<noteq> [])
      (snapshot_values (s\<lparr>sn_descriptors := al\<rparr>))"]
  show ?thesis unfolding best_descriptor_def cand by (simp add: same)
qed

lemma snapshot_candidates_iff:
  "c \<in> set (snapshot_candidates re networks cfg s) \<longleftrightarrow>
    (\<exists>d \<in> set (snapshot_values s). c \<in> set (candidates_of re networks cfg s d))"
  unfolding snapshot_candidates_def rc.set_view by simp

lemma usable_iff_candidates: "has_usable_candidates re networks cfg s \<longleftrightarrow> snapshot_candidates re networks cfg s \<noteq> []"
  unfolding snapshot_candidates_def rc.view_empty_iff by (auto simp: has_usable_candidates_def list_ex_iff)

text \<open>
  Of everything heard about a receiver, in whatever order the sources answer, the sender keeps the
  descriptor with the latest publication time, the last heard of equals, where no descriptor counts
  as newer than the moment it was heard; and the descriptor it then acts on is the newest that has
  a usable route, whatever the order its table is walked in.
\<close>

theorem newest_usable_descriptor:
  assumes "peer_parse lp p = Some peer" "s = insert_all lp xs snapshot_new" "\<forall>(now, d) \<in> set xs. now \<le> latest"
    and "mset al = mset (sn_descriptors s)"
  shows "map_of (sn_descriptors s) p = max_by_key pd_published_unix_ms (arrivals p xs) \<and>
    (case best_descriptor re networks cfg (s\<lparr>sn_descriptors := al\<rparr>) of
       None \<Rightarrow> \<not> has_usable_candidates re networks cfg s
     | Some d \<Rightarrow> best_descriptor re networks cfg s = Some d \<and> candidates_of re networks cfg s d \<noteq> [] \<and>
         (\<forall>d' \<in> set (snapshot_values s). candidates_of re networks cfg s d' \<noteq> [] \<longrightarrow>
            pd_published_unix_ms d' \<le> pd_published_unix_ms d))"
proof -
  have inv: "snapshot_inv lp latest (insert_all lp xs s0)" if "snapshot_inv lp latest s0" "\<forall>(now, d) \<in> set xs. now \<le> latest" for s0 xs
    using that
  proof (induction xs arbitrary: s0)
    case Nil
    then show ?case by simp
  next
    case (Cons x xs)
    then show ?case by (cases x) (auto intro: insert_descriptor_inv)
  qed
  have "snapshot_inv lp latest s" unfolding assms(2) by (rule inv [OF snapshot_inv_new assms(3)])
  from best_descriptor_order [OF this assms(4)]
  have eq: "best_descriptor re networks cfg (s\<lparr>sn_descriptors := al\<rparr>) = best_descriptor re networks cfg s" .
  have newest: "map_of (sn_descriptors s) p = max_by_key pd_published_unix_ms (arrivals p xs)"
    unfolding assms(2) by (rule insert_all_newest [OF assms(1)])
  show ?thesis
  proof (cases "best_descriptor re networks cfg s")
    case None
    with newest best_descriptor_None [of re networks cfg s] show ?thesis unfolding eq by simp
  next
    case (Some d)
    from newest best_descriptor_Some [OF Some] show ?thesis unfolding eq Some by simp
  qed
qed

section \<open>Two arrivals\<close>

definition older :: peer_descriptor where
  "older = lan_descriptor\<lparr>pd_published_unix_ms := 5\<rparr>"

definition newer :: peer_descriptor where
  "newer = lan_descriptor\<lparr>pd_published_unix_ms := 900, pd_direct_endpoints := []\<rparr>"

theorem newest_usable_descriptor_witness:
  "map_of (sn_descriptors (insert_all bare_codec [(10, newer), (20, older)] snapshot_new)) ''p'' =
     Some (newer\<lparr>pd_published_unix_ms := 10\<rparr>) \<and>
   (case best_descriptor bare_env None bare_config (insert_all bare_codec [(10, newer), (20, older)] snapshot_new) of
      None \<Rightarrow> \<not> has_usable_candidates bare_env None bare_config
        (insert_all bare_codec [(10, newer), (20, older)] snapshot_new)
    | Some d \<Rightarrow> candidates_of bare_env None bare_config
        (insert_all bare_codec [(10, newer), (20, older)] snapshot_new) d \<noteq> [])"
proof -
  let ?s = "insert_all bare_codec [(10, newer), (20, older)] snapshot_new"
  have "peer_parse bare_codec ''p'' = Some (str_bytes ''p'')" by (simp add: bare_codec_def)
  moreover have "max_by_key pd_published_unix_ms (arrivals ''p'' [(10, newer), (20, older)]) =
      Some (newer\<lparr>pd_published_unix_ms := 10\<rparr>)"
    by (simp add: arrivals_def newer_def older_def lan_descriptor_def clamp_published_def)
  ultimately show ?thesis
    using newest_usable_descriptor [where lp = bare_codec and p = "''p''" and s = ?s and latest = 20
        and xs = "[(10, newer), (20, older)]" and al = "sn_descriptors ?s" and re = bare_env and networks = None
        and cfg = bare_config]
    by (auto split: option.splits)
qed

end
