(* ===== verification/Discovery_Loop.thy ===== *)
theory Discovery_Loop
  imports Snapshot
begin

text \<open>
  The sender's search for a receiver (\<open>discover_peer_descriptors\<close> of
  \<open>peerline-net/src/discovery.rs\<close>), the handling of the swarm's events
  (\<open>discovery/swarm.rs\<close>) and the descriptor of a libp2p registration
  (\<open>discovery/rendezvous_protocol.rs\<close>). The sources a search listens to deliver events in an
  order that is not fixed; a search is a step function over a list of them, and each step lists the
  commands it gives the swarm. Decoding a DHT record is a parameter.
\<close>

section \<open>What the swarm reports\<close>

record registration =
  rn_peer :: peer_id
  rn_addresses :: "multiaddr list"

datatype swarm_event =
    Sw_FoundProviders "peer_id set"
  | Sw_NoMoreProviders "peer_id list"
  | Sw_FoundRecord "peer_id option" "peer_id option" bytes
  | Sw_NoMoreRecords "peer_id list"
  | Sw_OtherQuery
  | Sw_Discovered "registration list"
  | Sw_OtherRendezvous
  | Sw_Mdns "(peer_id \<times> multiaddr) list"
  | Sw_Identify peer_id "multiaddr list"
  | Sw_UpnpNew multiaddr
  | Sw_UpnpExpired multiaddr
  | Sw_UpnpNoGateway
  | Sw_UpnpNotRoutable
  | Sw_OtherBehaviour
  | Sw_ConnectionEstablished peer_id
  | Sw_NewListenAddr
  | Sw_ExternalAddrConfirmed
  | Sw_ExternalAddrExpired
  | Sw_Other

datatype swarm_command =
    Kad_AddAddress peer_id multiaddr
  | Kad_Bootstrap
  | Kad_GetProviders string
  | Kad_GetRecord string
  | Kad_PutRecord string bytes
  | Kad_StartProviding string
  | Rv_Discover string peer_id
  | Rv_Register string peer_id
  | Rv_Unregister string peer_id
  | Sw_Dial multiaddr
  | Sw_Listen string
  | Sw_AddExternalAddress multiaddr

record swarm_env =
  se_codec :: libp2p_codec
  se_descriptor_de :: "bytes \<Rightarrow> peer_descriptor option"
  se_local_peer :: peer_id

fun undialable_rendezvous_proto :: "bool \<Rightarrow> proto \<Rightarrow> bool" where
  "undialable_rendezvous_proto allow_loopback (Proto_Ip ip) =
     (case ip of
        V4 a b c d \<Rightarrow> is_unspecified ip \<or> (\<not> allow_loopback \<and> is_loopback ip) \<or> is_link_local ip \<or>
          is_multicast ip \<or> is_broadcast ip
      | V6 w \<Rightarrow> is_unspecified ip \<or> (\<not> allow_loopback \<and> is_loopback ip) \<or> is_unicast_link_local ip \<or>
          is_multicast ip)"
| "undialable_rendezvous_proto allow_loopback (Proto_Tcp port) = (port = 0)"
| "undialable_rendezvous_proto allow_loopback (Proto_Udp port) = (port = 0)"
| "undialable_rendezvous_proto allow_loopback _ = False"

definition is_dialable_rendezvous_addr :: "bool \<Rightarrow> multiaddr \<Rightarrow> bool" where
  "is_dialable_rendezvous_addr allow_loopback addr = (\<not> list_ex (undialable_rendezvous_proto allow_loopback) addr)"

definition descriptor_from_registration ::
  "libp2p_codec \<Rightarrow> u64 \<Rightarrow> bool \<Rightarrow> registration \<Rightarrow> peer_descriptor option" where
  "descriptor_from_registration lp now allow_loopback r =
     (let endpoints = map (addr_text lp) (filter (is_dialable_rendezvous_addr allow_loopback) (rn_addresses r)) in
      if endpoints = [] then None
      else Some (make_peer_descriptor now (peer_text lp (rn_peer r)) [] endpoints [] [] []))"

fun insert_registrations ::
  "libp2p_codec \<Rightarrow> u64 \<Rightarrow> bool \<Rightarrow> registration list \<Rightarrow> snapshot \<Rightarrow> snapshot" where
  "insert_registrations lp now allow_loopback [] s = s"
| "insert_registrations lp now allow_loopback (r # rs) s =
     insert_registrations lp now allow_loopback rs
       (case descriptor_from_registration lp now allow_loopback r of
          None \<Rightarrow> s | Some d \<Rightarrow> insert_descriptor lp now d s)"

definition observe_peers :: "peer_id set \<Rightarrow> snapshot \<Rightarrow> snapshot" where
  "observe_peers ps s = s\<lparr>sn_observed_peers := sn_observed_peers s \<union> ps\<rparr>"

definition handle_found_record ::
  "swarm_env \<Rightarrow> u64 \<Rightarrow> peer_id option \<Rightarrow> peer_id option \<Rightarrow> bytes \<Rightarrow> snapshot \<Rightarrow> snapshot" where
  "handle_found_record se now peer publisher bs s =
     (let s1 = observe_peers (set_option peer) s;
          s2 = observe_peers (set_option publisher) s1
      in case se_descriptor_de se bs of
           None \<Rightarrow> s2
         | Some d \<Rightarrow> insert_descriptor (se_codec se) now d
             (observe_peers (set_option (peer_parse (se_codec se) (pd_peer_id d))) s2))"

text \<open>
  The events that do not concern the snapshot. The result says whether the receiver's descriptor
  may have changed; a publisher has no snapshot and passes one it throws away.
\<close>

definition observe_local_peers :: "libp2p_codec \<Rightarrow> peer_id list \<Rightarrow> snapshot \<Rightarrow> snapshot" where
  "observe_local_peers lp ps s = foldl (\<lambda>s p. observe_local_peer lp p s) s ps"

fun handle_discovery_event ::
  "swarm_env \<Rightarrow> swarm_event \<Rightarrow> snapshot \<Rightarrow> snapshot \<times> swarm_command list \<times> bool" where
  "handle_discovery_event se (Sw_Mdns peers) s =
     (observe_local_peers (se_codec se) (map fst peers) s, map (\<lambda>(p, a). Kad_AddAddress p a) peers, peers \<noteq> [])"
| "handle_discovery_event se (Sw_Identify peer addrs) s = (s, map (Kad_AddAddress peer) addrs, addrs \<noteq> [])"
| "handle_discovery_event se (Sw_UpnpNew addr) s = (observe_local_peer (se_codec se) (se_local_peer se) s, [], True)"
| "handle_discovery_event se (Sw_UpnpExpired addr) s = (s, [], True)"
| "handle_discovery_event se _ s = (s, [], False)"

fun handle_discovery_swarm_event ::
  "swarm_env \<Rightarrow> u64 \<Rightarrow> bool \<Rightarrow> swarm_event \<Rightarrow> snapshot \<Rightarrow> snapshot \<times> swarm_command list" where
  "handle_discovery_swarm_event se now allow_loopback (Sw_FoundProviders ps) s = (observe_peers ps s, [])"
| "handle_discovery_swarm_event se now allow_loopback (Sw_NoMoreProviders ps) s = (observe_peers (set ps) s, [])"
| "handle_discovery_swarm_event se now allow_loopback (Sw_FoundRecord peer publisher bs) s =
     (handle_found_record se now peer publisher bs s, [])"
| "handle_discovery_swarm_event se now allow_loopback (Sw_NoMoreRecords ps) s = (observe_peers (set ps) s, [])"
| "handle_discovery_swarm_event se now allow_loopback (Sw_Discovered rs) s =
     (insert_registrations (se_codec se) now allow_loopback rs s, [])"
| "handle_discovery_swarm_event se now allow_loopback (Sw_ConnectionEstablished p) s = (s, [])"
| "handle_discovery_swarm_event se now allow_loopback Sw_NewListenAddr s = (s, [])"
| "handle_discovery_swarm_event se now allow_loopback Sw_ExternalAddrConfirmed s = (s, [])"
| "handle_discovery_swarm_event se now allow_loopback Sw_ExternalAddrExpired s = (s, [])"
| "handle_discovery_swarm_event se now allow_loopback Sw_OtherQuery s = (s, [])"
| "handle_discovery_swarm_event se now allow_loopback Sw_OtherRendezvous s = (s, [])"
| "handle_discovery_swarm_event se now allow_loopback Sw_Other s = (s, [])"
| "handle_discovery_swarm_event se now allow_loopback e s =
     (case handle_discovery_event se e s of (s', cmds, changed) \<Rightarrow> (s', cmds))"

fun handle_publish_swarm_event :: "swarm_env \<Rightarrow> swarm_event \<Rightarrow> swarm_command list \<times> bool" where
  "handle_publish_swarm_event se (Sw_ConnectionEstablished p) = ([], True)"
| "handle_publish_swarm_event se Sw_NewListenAddr = ([], True)"
| "handle_publish_swarm_event se Sw_ExternalAddrConfirmed = ([], True)"
| "handle_publish_swarm_event se Sw_ExternalAddrExpired = ([], True)"
| "handle_publish_swarm_event se Sw_Other = ([], False)"
| "handle_publish_swarm_event se e =
     (case handle_discovery_event se e snapshot_new of (s, cmds, changed) \<Rightarrow> (cmds, changed))"

text \<open>Starting a swarm: bootstrap and the configured rendezvous servers.\<close>

definition bootstrap_commands :: "libp2p_codec \<Rightarrow> string \<Rightarrow> swarm_command list" where
  "bootstrap_commands lp raw =
     (case addr_parse lp raw of
        None \<Rightarrow> []
      | Some addr \<Rightarrow>
          (case split_peer_addr addr of None \<Rightarrow> [] | Some (peer, rest) \<Rightarrow> [Kad_AddAddress peer rest]) @ [Sw_Dial addr])"

definition apply_bootstrap :: "libp2p_codec \<Rightarrow> 'u discovery_config \<Rightarrow> swarm_command list" where
  "apply_bootstrap lp cfg = concat (map (bootstrap_commands lp) (dc_bootstrap_peers cfg)) @ [Kad_Bootstrap]"

definition dial_configured_rendezvous :: "libp2p_rendezvous_peer list \<Rightarrow> swarm_command list" where
  "dial_configured_rendezvous peers = map (\<lambda>p. Sw_Dial (rendezvous_dial_addr p)) peers"

definition discover_configured_libp2p_rendezvous :: "libp2p_rendezvous_peer list \<Rightarrow> string \<Rightarrow> swarm_command list" where
  "discover_configured_libp2p_rendezvous peers namespace = map (\<lambda>p. Rv_Discover namespace (rp_peer_id p)) peers"

section \<open>When a search may stop\<close>

fun route_family :: "route_kind \<Rightarrow> nat" where
  "route_family Rk_LanDirect = 0"
| "route_family Rk_PublicDirect = 0"
| "route_family Rk_Libp2pQuic = 1"
| "route_family Rk_Libp2pDcutr = 1"
| "route_family Rk_WebRtcDirect = 2"
| "route_family Rk_WebRtcTurn = 2"
| "route_family Rk_PublicTunnel = 3"
| "route_family Rk_I2p = 4"
| "route_family Rk_TorOnion = 5"
| "route_family Rk_Libp2pRelay = 6"

definition has_candidate_route_diversity :: "candidate list \<Rightarrow> bool" where
  "has_candidate_route_diversity cs =
     (case cs of
        [] \<Rightarrow> False
      | c # _ \<Rightarrow> list_ex (\<lambda>x. route_family (cd_route x) \<noteq> route_family (cd_route c)) cs)"

text \<open>What a search is given.\<close>

record ('u, 'v) search_env =
  sr_route :: "'u route_env"
  sr_swarm :: swarm_env
  sr_networks :: "local_networks option"
  sr_config :: "'v discovery_config"
  sr_key :: lookup_key
  sr_namespace :: string

definition should_keep_discovering :: "('u, 'v) search_env \<Rightarrow> bool \<Rightarrow> snapshot \<Rightarrow> bool" where
  "should_keep_discovering env grace_elapsed s =
     (if grace_elapsed then False
      else
        let cs = snapshot_candidates (sr_route env) (sr_networks env) (sr_config env) s in
        if cs = [] then False else \<not> has_candidate_route_diversity cs)"

definition good_enough :: "('u, 'v) search_env \<Rightarrow> snapshot \<Rightarrow> bool" where
  "good_enough env s =
     (is_diverse_enough (dc_min_candidate_diversity (sr_config env)) s \<and>
      has_usable_candidates (sr_route env) (sr_networks env) (sr_config env) s)"

section \<open>The search\<close>

datatype search_event =
    Ev_Deadline
  | Ev_Grace
  | Ev_Rendezvous "peer_descriptor list option"
  | Ev_Pkarr "peer_descriptor option"
  | Ev_Query
  | Ev_RendezvousQuery
  | Ev_Swarm swarm_event

record search =
  ss_snapshot :: snapshot
  ss_rendezvous_done :: bool
  ss_pkarr_done :: bool
  ss_grace_elapsed :: bool
  ss_commands :: "swarm_command list"

definition search_start :: "('u, 'v) search_env \<Rightarrow> u64 \<Rightarrow> peer_descriptor option \<Rightarrow> search" where
  "search_start env now probe =
     \<lparr>ss_snapshot = (case probe of
          None \<Rightarrow> snapshot_new
        | Some d \<Rightarrow> insert_descriptor (se_codec (sr_swarm env)) now d snapshot_new),
      ss_rendezvous_done = False, ss_pkarr_done = False, ss_grace_elapsed = False,
      ss_commands = apply_bootstrap (se_codec (sr_swarm env)) (sr_config env) @
        dial_configured_rendezvous (dc_libp2p_rendezvous_peers (sr_config env)) @ [Sw_Listen ''/ip4/0.0.0.0/tcp/0'']\<rparr>"

definition issue :: "swarm_command list \<Rightarrow> search \<Rightarrow> search" where
  "issue cmds st = st\<lparr>ss_commands := ss_commands st @ cmds\<rparr>"

definition with_snapshot :: "snapshot \<Rightarrow> search \<Rightarrow> search" where
  "with_snapshot s st = st\<lparr>ss_snapshot := s\<rparr>"

definition insert_found :: "libp2p_codec \<Rightarrow> u64 \<Rightarrow> peer_descriptor list \<Rightarrow> snapshot \<Rightarrow> snapshot" where
  "insert_found lp now ds s = foldl (\<lambda>s d. insert_descriptor lp now d s) s ds"

text \<open>After news the loop stops when it has enough and need not wait for another kind of route.\<close>

definition stop_after_news :: "('u, 'v) search_env \<Rightarrow> search \<Rightarrow> bool" where
  "stop_after_news env st =
     (\<not> should_keep_discovering env (ss_grace_elapsed st) (ss_snapshot st) \<and> good_enough env (ss_snapshot st))"

text \<open>
  One turn of the loop: the state and whether the loop ends. An arm whose guard is closed is not
  polled, so its event changes nothing.
\<close>

fun search_step :: "('u, 'v) search_env \<Rightarrow> u64 \<Rightarrow> search_event \<Rightarrow> search \<Rightarrow> search \<times> bool" where
  "search_step env now Ev_Deadline st = (st, True)"
| "search_step env now Ev_Grace st =
     (if ss_grace_elapsed st then (st, False)
      else let st' = st\<lparr>ss_grace_elapsed := True\<rparr> in (st', good_enough env (ss_snapshot st')))"
| "search_step env now (Ev_Rendezvous result) st =
     (if ss_rendezvous_done st then (st, False)
      else
        let st1 = st\<lparr>ss_rendezvous_done := True\<rparr> in
        case result of
          None \<Rightarrow> (st1, False)
        | Some ds \<Rightarrow>
            let st2 = with_snapshot (insert_found (se_codec (sr_swarm env)) now ds (ss_snapshot st1)) st1
            in (st2, stop_after_news env st2))"
| "search_step env now (Ev_Pkarr result) st =
     (if ss_pkarr_done st then (st, False)
      else
        let st1 = st\<lparr>ss_pkarr_done := True\<rparr> in
        case result of
          None \<Rightarrow> (st1, False)
        | Some d \<Rightarrow>
            let st2 = with_snapshot (insert_descriptor (se_codec (sr_swarm env)) now d (ss_snapshot st1)) st1
            in (st2, stop_after_news env st2))"
| "search_step env now Ev_Query st =
     (issue [Kad_GetProviders (provider_record_key (sr_key env)), Kad_GetRecord (descriptor_record_key (sr_key env))] st,
      False)"
| "search_step env now Ev_RendezvousQuery st =
     (if dc_libp2p_rendezvous_peers (sr_config env) = [] then (st, False)
      else (issue (discover_configured_libp2p_rendezvous (dc_libp2p_rendezvous_peers (sr_config env))
                     (sr_namespace env)) st, False))"
| "search_step env now (Ev_Swarm e) st =
     (let peers = dc_libp2p_rendezvous_peers (sr_config env);
          st1 = (case e of
                   Sw_ConnectionEstablished p \<Rightarrow>
                     if list_ex (\<lambda>r. rp_peer_id r = p) peers
                     then issue (discover_configured_libp2p_rendezvous peers (sr_namespace env)) st else st
                 | _ \<Rightarrow> st);
          (s', cmds) = handle_discovery_swarm_event (sr_swarm env) now
                         (dc_allow_loopback_endpoints (sr_config env)) e (ss_snapshot st1);
          st2 = issue cmds (with_snapshot s' st1)
      in (st2, stop_after_news env st2))"

text \<open>
  A search over the events that arrive, each with the time it does; \<open>None\<close> while the loop is still
  waiting.
\<close>

fun search_run :: "('u, 'v) search_env \<Rightarrow> (u64 \<times> search_event) list \<Rightarrow> search \<Rightarrow> search option" where
  "search_run env [] st = None"
| "search_run env ((now, e) # es) st =
     (case search_step env now e st of (st', stop) \<Rightarrow> if stop then Some st' else search_run env es st')"

definition search_result :: "('u, 'v) search_env \<Rightarrow> search \<Rightarrow> snapshot option" where
  "search_result env st = (if good_enough env (ss_snapshot st) then Some (ss_snapshot st) else None)"

definition discover_snapshot ::
  "('u, 'v) search_env \<Rightarrow> u64 \<Rightarrow> peer_descriptor option \<Rightarrow> (u64 \<times> search_event) list \<Rightarrow> snapshot option option" where
  "discover_snapshot env now probe es = map_option (search_result env) (search_run env es (search_start env now probe))"

definition discover_peer_candidates ::
  "('u, 'v) search_env \<Rightarrow> u64 \<Rightarrow> peer_descriptor option \<Rightarrow> (u64 \<times> search_event) list \<Rightarrow> candidate list option" where
  "discover_peer_candidates env now probe es =
     map_option (\<lambda>r. case r of
         None \<Rightarrow> []
       | Some s \<Rightarrow> snapshot_candidates (sr_route env) (sr_networks env) (sr_config env) s)
       (discover_snapshot env now probe es)"

definition discover_peer_descriptor ::
  "('u, 'v) search_env \<Rightarrow> u64 \<Rightarrow> peer_descriptor option \<Rightarrow> (u64 \<times> search_event) list \<Rightarrow> peer_descriptor option option" where
  "discover_peer_descriptor env now probe es =
     map_option (\<lambda>r. Option.bind r (best_descriptor (sr_route env) (sr_networks env) (sr_config env)))
       (discover_snapshot env now probe es)"

definition discover_direct_endpoints ::
  "('u, 'v) search_env \<Rightarrow> u64 \<Rightarrow> peer_descriptor option \<Rightarrow> (u64 \<times> search_event) list \<Rightarrow> socket_addr list option" where
  "discover_direct_endpoints env now probe es =
     map_option (\<lambda>r. case r of None \<Rightarrow> [] | Some s \<Rightarrow> best_direct_endpoints (sr_networks env) s)
       (discover_snapshot env now probe es)"

definition discover_direct_endpoint ::
  "('u, 'v) search_env \<Rightarrow> u64 \<Rightarrow> peer_descriptor option \<Rightarrow> (u64 \<times> search_event) list \<Rightarrow> socket_addr option option" where
  "discover_direct_endpoint env now probe es =
     map_option (\<lambda>es. case es of [] \<Rightarrow> None | e # _ \<Rightarrow> Some e) (discover_direct_endpoints env now probe es)"


section \<open>The snapshot stays well formed\<close>

lemma observe_peers_inv: "snapshot_inv lp latest s \<Longrightarrow> finite ps \<Longrightarrow> snapshot_inv lp latest (observe_peers ps s)"
  by (fastforce simp: snapshot_inv_def observe_peers_def)

lemma insert_registrations_inv:
  "snapshot_inv lp latest s \<Longrightarrow> now \<le> latest \<Longrightarrow>
   snapshot_inv lp latest (insert_registrations lp now allow rs s)"
  by (induction rs arbitrary: s) (auto intro: insert_descriptor_inv split: option.splits)

lemma insert_found_inv:
  "snapshot_inv lp latest s \<Longrightarrow> now \<le> latest \<Longrightarrow> snapshot_inv lp latest (insert_found lp now ds s)"
  unfolding insert_found_def by (induction ds arbitrary: s) (auto intro: insert_descriptor_inv)

lemma observe_local_peers_inv: "snapshot_inv lp latest s \<Longrightarrow> snapshot_inv lp latest (observe_local_peers lp ps s)"
  unfolding observe_local_peers_def by (induction ps arbitrary: s) (auto intro: observe_local_peer_inv)

lemma handle_found_record_inv:
  "snapshot_inv (se_codec se) latest s \<Longrightarrow> now \<le> latest \<Longrightarrow>
   snapshot_inv (se_codec se) latest (handle_found_record se now peer publisher bs s)"
  by (auto simp: handle_found_record_def Let_def intro!: insert_descriptor_inv observe_peers_inv split: option.splits)

lemma handle_discovery_event_inv:
  assumes "snapshot_inv (se_codec se) latest s" "handle_discovery_event se e s = (s', cmds, changed)"
  shows "snapshot_inv (se_codec se) latest s'"
  using assms by (cases e) (auto intro: observe_local_peers_inv observe_local_peer_inv)

text \<open>The set of providers in an event is finite, as every hash set is.\<close>

definition finite_event :: "search_event \<Rightarrow> bool" where
  "finite_event e = (case e of Ev_Swarm (Sw_FoundProviders ps) \<Rightarrow> finite ps | _ \<Rightarrow> True)"

lemma handle_swarm_event_inv:
  assumes "snapshot_inv (se_codec se) latest s" "now \<le> latest" "finite_event (Ev_Swarm e)"
    and "handle_discovery_swarm_event se now allow e s = (s', cmds)"
  shows "snapshot_inv (se_codec se) latest s'"
  using assms
  by (cases e) (auto simp: finite_event_def split: prod.splits intro: observe_peers_inv handle_found_record_inv
      insert_registrations_inv observe_local_peers_inv observe_local_peer_inv)

lemma search_step_inv:
  assumes "snapshot_inv (se_codec (sr_swarm env)) latest (ss_snapshot st)" "now \<le> latest" "finite_event e"
    and "search_step env now e st = (st', stop)"
  shows "snapshot_inv (se_codec (sr_swarm env)) latest (ss_snapshot st')"
proof (cases e)
  case (Ev_Swarm x)
  let ?st1 = "case x of
      Sw_ConnectionEstablished p \<Rightarrow>
        if list_ex (\<lambda>r. rp_peer_id r = p) (dc_libp2p_rendezvous_peers (sr_config env))
        then issue (discover_configured_libp2p_rendezvous (dc_libp2p_rendezvous_peers (sr_config env)) (sr_namespace env)) st
        else st
    | _ \<Rightarrow> st"
  have same: "ss_snapshot ?st1 = ss_snapshot st" by (auto simp: issue_def split: swarm_event.splits)
  obtain s' cmds where h: "handle_discovery_swarm_event (sr_swarm env) now
      (dc_allow_loopback_endpoints (sr_config env)) x (ss_snapshot st) = (s', cmds)" by fastforce
  have "ss_snapshot st' = s'"
    using assms(4) h unfolding Ev_Swarm search_step.simps Let_def same prod.case
    by (auto simp: issue_def with_snapshot_def)
  with handle_swarm_event_inv [OF assms(1,2) _ h] assms(3) Ev_Swarm show ?thesis by simp
qed (use assms in \<open>auto simp: Let_def with_snapshot_def issue_def intro: insert_found_inv insert_descriptor_inv
      split: if_splits option.splits\<close>)

lemma search_run_inv:
  assumes "search_run env es st = Some st'" "snapshot_inv (se_codec (sr_swarm env)) latest (ss_snapshot st)"
    and "\<forall>(now, e) \<in> set es. now \<le> latest \<and> finite_event e"
  shows "snapshot_inv (se_codec (sr_swarm env)) latest (ss_snapshot st')"
  using assms
proof (induction es arbitrary: st)
  case Nil
  then show ?case by simp
next
  case (Cons x es)
  obtain now e where x: "x = (now, e)" by (cases x)
  obtain st1 stop where s: "search_step env now e st = (st1, stop)" by fastforce
  from search_step_inv [OF Cons.prems(2) _ _ s] Cons.prems(3)
  have "snapshot_inv (se_codec (sr_swarm env)) latest (ss_snapshot st1)" by (simp add: x)
  with Cons s x show ?case by (auto split: if_splits)
qed

lemma search_start_inv:
  "now \<le> latest \<Longrightarrow> snapshot_inv (se_codec (sr_swarm env)) latest (ss_snapshot (search_start env now probe))"
  by (auto simp: search_start_def intro: insert_descriptor_inv snapshot_inv_new split: option.splits)

section \<open>When a search ends\<close>

lemma search_ends_by_deadline: "(t, Ev_Deadline) \<in> set es \<Longrightarrow> search_run env es st \<noteq> None"
proof (induction es arbitrary: st)
  case Nil
  then show ?case by simp
next
  case (Cons x es)
  then show ?case by (cases x) (auto split: prod.splits)
qed

lemma stop_reason: "search_step env now e st = (st', True) \<Longrightarrow> e = Ev_Deadline \<or> good_enough env (ss_snapshot st')"
  by (cases e) (auto simp: Let_def stop_after_news_def split: if_splits option.splits prod.splits)

lemma stop_reason_run:
  "search_run env es st = Some st' \<Longrightarrow> (\<exists>t. (t, Ev_Deadline) \<in> set es) \<or> good_enough env (ss_snapshot st')"
proof (induction es arbitrary: st)
  case Nil
  then show ?case by simp
next
  case (Cons x es)
  obtain now e where x: "x = (now, e)" by (cases x)
  obtain st1 stop where s: "search_step env now e st = (st1, stop)" by fastforce
  show ?case
  proof (cases stop)
    case True
    then have "st' = st1" using Cons.prems s x by simp
    then show ?thesis using stop_reason [of env now e st st1] s True x by auto
  next
    case False
    with Cons s x show ?thesis by auto
  qed
qed

lemma usable_is_enough:
  assumes "snapshot_inv lp latest s" "dc_min_candidate_diversity (sr_config env) \<le> 1"
  shows "good_enough env s \<longleftrightarrow> has_usable_candidates (sr_route env) (sr_networks env) (sr_config env) s"
proof
  assume u: "has_usable_candidates (sr_route env) (sr_networks env) (sr_config env) s"
  then have ne: "sn_descriptors s \<noteq> []" by (auto simp: has_usable_candidates_def snapshot_values_def)
  then obtain k d where "(k, d) \<in> set (sn_descriptors s)" by (cases "sn_descriptors s") auto
  with assms(1) obtain peer where "peer \<in> sn_observed_peers s" "finite (sn_observed_peers s)"
    by (auto simp: snapshot_inv_def)
  then have "0 < card (sn_observed_peers s)" by (auto simp: card_gt_0_iff)
  then have "1 \<le> card (sn_observed_peers s)" by simp
  with assms(2) u ne show "good_enough env s" by (simp add: good_enough_def is_diverse_enough_def)
qed (simp add: good_enough_def)

lemma candidate_source:
  assumes "c \<in> set (snapshot_candidates re networks cfg s)" "snapshot_inv lp latest s"
  shows "\<exists>d. (cd_peer_id c, d) \<in> set (sn_descriptors s) \<and>
    c \<in> set (descriptor_candidates re d networks (cd_peer_id c \<in> sn_local_peer_ids s) cfg) \<and>
    route_enabled cfg (cd_route c) \<and> (\<exists>peer. peer_parse lp (cd_peer_id c) = Some peer)"
proof -
  from assms(1) obtain d where d: "d \<in> set (snapshot_values s)" "c \<in> set (candidates_of re networks cfg s d)"
    by (auto simp: snapshot_candidates_iff)
  from d(2) have c: "c \<in> set (descriptor_candidates re d networks (pd_peer_id d \<in> sn_local_peer_ids s) cfg)"
    by (simp add: candidates_of_def seen_locally_def)
  then have "route_enabled cfg (cd_route c)" "cd_peer_id c = pd_peer_id d"
    by (auto simp: descriptor_candidates_set dest: all_candidates_peer)
  moreover from d(1) obtain k where "(k, d) \<in> set (sn_descriptors s)" by (auto simp: snapshot_values_def)
  ultimately show ?thesis using assms(2) c by (fastforce simp: snapshot_inv_def)
qed


text \<open>
  A registration at a libp2p rendezvous server is stamped with the moment it is read and lists only
  libp2p addresses, so it displaces whatever was heard before about the same peer.
\<close>

lemma registration_displaces:
  assumes "descriptor_from_registration lp now allow r = Some d" "peer_parse lp (pd_peer_id d) = Some peer"
    and "snapshot_inv lp now s"
  shows "map_of (sn_descriptors (insert_descriptor lp now d s)) (pd_peer_id d) = Some d \<and> pd_direct_endpoints d = []"
proof -
  have d: "pd_published_unix_ms d = now" "pd_direct_endpoints d = []"
    using assms(1) by (auto simp: descriptor_from_registration_def make_peer_descriptor_def Let_def split: if_splits)
  then have "clamp_published now d = d" by (simp add: clamp_published_def)
  moreover have "pd_published_unix_ms current \<le> now" if "map_of (sn_descriptors s) (pd_peer_id d) = Some current" for current
    using assms(3) map_of_SomeD [OF that] by (fastforce simp: snapshot_inv_def)
  ultimately show ?thesis
    using insert_descriptor_self [OF assms(2), of now s] d by (fastforce split: option.splits)
qed


section \<open>A concrete search\<close>

definition demo_search :: "(unit, unit) search_env" where
  "demo_search = \<lparr>sr_route = bare_env,
     sr_swarm = \<lparr>se_codec = bare_codec, se_descriptor_de = \<lambda>_. None, se_local_peer = [1]\<rparr>, sr_networks = None,
     sr_config = bare_config, sr_key = LookupKey [], sr_namespace = []\<rparr>"

definition demo_arrivals :: "(u64 \<times> search_event) list" where
  "demo_arrivals = [(10, Ev_Pkarr (Some lan_descriptor)), (20, Ev_Deadline)]"

lemma demo_search_run:
  "search_run demo_search demo_arrivals (search_start demo_search 0 None) =
    Some (with_snapshot (insert_descriptor bare_codec 10 lan_descriptor snapshot_new)
      (search_start demo_search 0 None\<lparr>ss_pkarr_done := True\<rparr>))"
  by (simp add: demo_arrivals_def search_start_def demo_search_def Let_def with_snapshot_def)

lemma demo_usable:
  "has_usable_candidates bare_env None bare_config (insert_descriptor bare_codec 10 lan_descriptor snapshot_new)"
proof -
  let ?s = "insert_descriptor bare_codec 10 lan_descriptor snapshot_new"
  have "snapshot_values ?s = [lan_descriptor]" "\<not> seen_locally ?s lan_descriptor"
    by (simp_all add: insert_descriptor_def snapshot_new_def bare_codec_def lan_descriptor_def clamp_published_def
        snapshot_values_def seen_locally_def)
  moreover have "is_usable_endpoint_ip (sock_ip lan_endpoint) True" "discovered_endpoint_reachable lan_endpoint None False"
    by code_simp+
  then have "lan_endpoint \<in> set (discovered_direct_endpoints lan_descriptor None False)"
    by (simp add: discovered_direct_endpoints_set lan_descriptor_def lan_parse)
  moreover have "route_kind_from_direct_endpoint lan_endpoint = Rk_LanDirect" by code_simp
  ultimately have "lan_candidate \<in> set (candidates_of bare_env None bare_config ?s lan_descriptor)"
    unfolding candidates_of_def
    by (subst direct_candidate_iff) (auto simp: lan_candidate_def candidate_of_def lan_descriptor_def intro!: bexI)
  then show ?thesis
    using \<open>snapshot_values ?s = [lan_descriptor]\<close> by (auto simp: has_usable_candidates_def)
qed


end
