(* ===== verification/Pkarr.thy ===== *)
theory Pkarr
  imports Multiaddr Identity Rendezvous_Model Tunnel_Url "HOL-Library.List_Lexorder" "HOL-Library.Char_ord"
    "HOL-Library.Product_Lexorder" "HOL-Library.Multiset"
begin

text \<open>
  The announcement of a receiver in the Mainline DHT (\<open>peerline-net/src/pkarr.rs\<close>): which endpoints of
  a descriptor are published, the tag-length-value payload with its byte budget, the decoder, and
  the publisher that remembers its last payload. The \<open>pkarr\<close> crate signs, publishes and
  resolves packets and is a parameter; the lemmas show what a payload decodes to and what the
  budget leaves out.
\<close>

definition format_version :: u8 where "format_version = 1"
definition record_direct_v4 :: u8 where "record_direct_v4 = 1"
definition record_direct_v6 :: u8 where "record_direct_v6 = 2"
definition record_libp2p :: u8 where "record_libp2p = 3"
definition record_tor :: u8 where "record_tor = 4"
definition record_public_tunnel :: u8 where "record_public_tunnel = 5"
definition record_i2p :: u8 where "record_i2p = 6"

lemmas record_kinds = record_direct_v4_def record_direct_v6_def record_libp2p_def record_tor_def
  record_public_tunnel_def record_i2p_def

definition pkarr_provider_label :: string where "pkarr_provider_label = ''pkarr''"

definition max_raw_payload_bytes :: nat where "max_raw_payload_bytes = 924"

datatype announcement_error =
    An_PeerId | An_NoEndpoints | An_PeerTooLarge | An_Budget | An_TooShort | An_Version | An_PeerTruncated
  | An_HeaderTruncated | An_PayloadTruncated | An_Ipv4Length | An_Ipv6Length | An_Multiaddr | An_Utf8
  | An_Url | An_Kind | An_Empty | An_MissingPayload | An_Packet | An_Publish

datatype announcement_record =
    Rec_Direct socket_addr
  | Rec_Libp2p multiaddr
  | Rec_Tor string
  | Rec_I2p string
  | Rec_Tunnel string

record announcement =
  an_peer_id :: peer_id
  an_records :: "announcement_record list"

section \<open>What is published\<close>

fun is_publishable_endpoint_ip :: "ip_addr \<Rightarrow> bool" where
  "is_publishable_endpoint_ip (V4 a b c d) =
     (let ip = V4 a b c d in
      \<not> is_unspecified ip \<and> \<not> is_loopback ip \<and> \<not> is_link_local ip \<and> \<not> is_multicast ip \<and> \<not> is_broadcast ip)"
| "is_publishable_endpoint_ip (V6 w) =
     (let ip = V6 w in \<not> is_unspecified ip \<and> \<not> is_loopback ip \<and> \<not> is_multicast ip)"

fun direct_record_priority :: "socket_addr \<Rightarrow> nat" where
  "direct_record_priority (Sock (V4 a b c d) p s) = (if is_private (V4 a b c d) then 0 else 1)"
| "direct_record_priority (Sock (V6 w) p s) = (if is_unique_local (V6 w) then 0 else 1)"

definition libp2p_record_priority :: "multiaddr \<Rightarrow> nat" where
  "libp2p_record_priority addr =
     (if is_relayed addr then 7 else if is_webrtc addr then 5 else if is_quic addr then 4 else 3)"

definition collect_direct_endpoints :: "string list \<Rightarrow> socket_addr list" where
  "collect_direct_endpoints raw =
     sort_dedup direct_record_priority
       (filter (\<lambda>e. is_publishable_endpoint_ip (sock_ip e)) (List.map_filter parse_sock raw))"

definition collect_libp2p_endpoints :: "libp2p_codec \<Rightarrow> string list \<Rightarrow> multiaddr list" where
  "collect_libp2p_endpoints lp raw =
     sort_dedup libp2p_record_priority (filter is_dialable_multiaddr (List.map_filter (addr_parse lp) raw))"

definition ok_value :: "'e + 'a \<Rightarrow> 'a option" where
  "ok_value r = (case r of Inl e \<Rightarrow> None | Inr x \<Rightarrow> Some x)"

definition collect_public_tunnel_endpoints :: "'u web_url \<Rightarrow> public_tunnel_endpoint list \<Rightarrow> string list" where
  "collect_public_tunnel_endpoints wu raw =
     remdups_adj (sort (List.map_filter (\<lambda>e. ok_value (normalize_public_tunnel_url wu (pt_url e))) raw))"

definition collect_tor_endpoints :: "'u web_url \<Rightarrow> tor_onion_endpoint list \<Rightarrow> string list" where
  "collect_tor_endpoints wu raw =
     remdups_adj (sort (List.map_filter (\<lambda>e. ok_value (normalize_tor_onion_url wu (to_url e))) raw))"

definition collect_i2p_endpoints :: "'u web_url \<Rightarrow> i2p_endpoint list \<Rightarrow> string list" where
  "collect_i2p_endpoints wu raw =
     remdups_adj (sort (List.map_filter (\<lambda>e. ok_value (normalize_i2p_url wu (ip_url e))) raw))"

definition announcement_from_descriptor ::
  "libp2p_codec \<Rightarrow> 'u web_url \<Rightarrow> peer_descriptor \<Rightarrow> announcement_error + announcement" where
  "announcement_from_descriptor lp wu d =
     and_then (ok_or (peer_parse lp (pd_peer_id d)) An_PeerId) (\<lambda>pid.
       let records =
         map Rec_Direct (collect_direct_endpoints (pd_direct_endpoints d)) @
         map Rec_Tor (collect_tor_endpoints wu (pd_tor_endpoints d)) @
         map Rec_I2p (collect_i2p_endpoints wu (pd_i2p_endpoints d)) @
         map Rec_Libp2p (collect_libp2p_endpoints lp (pd_libp2p_endpoints d)) @
         map Rec_Tunnel (collect_public_tunnel_endpoints wu (pd_public_endpoints d))
       in if records = [] then Inl An_NoEndpoints else Inr \<lparr>an_peer_id = pid, an_records = records\<rparr>)"

section \<open>The payload\<close>

record packed_record =
  pk_kind :: u8
  pk_priority :: nat
  pk_data :: bytes

fun packed_from_record :: "libp2p_codec \<Rightarrow> announcement_record \<Rightarrow> packed_record" where
  "packed_from_record lp (Rec_Direct e) =
     (case sock_ip e of
        V4 a b c d \<Rightarrow> \<lparr>pk_kind = record_direct_v4, pk_priority = direct_record_priority e,
          pk_data = [a, b, c, d] @ be_bytes 2 (unat (sock_port e))\<rparr>
      | V6 w \<Rightarrow> \<lparr>pk_kind = record_direct_v6, pk_priority = direct_record_priority e,
          pk_data = v6_octets w @ be_bytes 2 (unat (sock_port e))\<rparr>)"
| "packed_from_record lp (Rec_Libp2p addr) =
     \<lparr>pk_kind = record_libp2p, pk_priority = libp2p_record_priority addr, pk_data = addr_bytes lp addr\<rparr>"
| "packed_from_record lp (Rec_Tor url) = \<lparr>pk_kind = record_tor, pk_priority = 3, pk_data = str_bytes url\<rparr>"
| "packed_from_record lp (Rec_I2p url) = \<lparr>pk_kind = record_i2p, pk_priority = 2, pk_data = str_bytes url\<rparr>"
| "packed_from_record lp (Rec_Tunnel url) =
     \<lparr>pk_kind = record_public_tunnel, pk_priority = 6, pk_data = str_bytes url\<rparr>"

definition packed_key :: "packed_record \<Rightarrow> nat \<times> nat \<times> u8" where
  "packed_key r = (pk_priority r, length (pk_data r), pk_kind r)"

fun pack_records :: "nat \<Rightarrow> packed_record list \<Rightarrow> bytes \<Rightarrow> nat \<Rightarrow> bytes \<times> nat" where
  "pack_records max_bytes [] payload included = (payload, included)"
| "pack_records max_bytes (r # rs) payload included =
     (if 255 < length (pk_data r) then pack_records max_bytes rs payload included
      else if max_bytes < length payload + (2 + length (pk_data r)) then
        pack_records max_bytes rs payload included
      else pack_records max_bytes rs
        (payload @ [pk_kind r, of_nat (length (pk_data r))] @ pk_data r) (Suc included))"

definition encode_with_budget :: "libp2p_codec \<Rightarrow> announcement \<Rightarrow> nat \<Rightarrow> announcement_error + bytes" where
  "encode_with_budget lp a max_bytes =
     (if 255 < length (an_peer_id a) then Inl An_PeerTooLarge
      else case pack_records max_bytes (sort_key packed_key (map (packed_from_record lp) (an_records a)))
                  ([format_version, of_nat (length (an_peer_id a))] @ an_peer_id a) 0 of
             (payload, included) \<Rightarrow> if included = 0 then Inl An_Budget else Inr payload)"

definition utf8_string :: "bytes \<Rightarrow> announcement_error + string" where
  "utf8_string bs = (if utf8_valid (map unat bs) then Inr (bytes_str bs) else Inl An_Utf8)"

definition url_record ::
  "(string \<Rightarrow> url_error + string) \<Rightarrow> (string \<Rightarrow> announcement_record) \<Rightarrow> bytes \<Rightarrow>
   announcement_error + announcement_record" where
  "url_record normal wrap bs =
     and_then (utf8_string bs) (\<lambda>url. case normal url of Inl e \<Rightarrow> Inl An_Url | Inr v \<Rightarrow> Inr (wrap v))"

definition decode_record ::
  "libp2p_codec \<Rightarrow> 'u web_url \<Rightarrow> u8 \<Rightarrow> bytes \<Rightarrow> announcement_error + announcement_record" where
  "decode_record lp wu kind bs =
     (if kind = record_direct_v4 then
        if length bs \<noteq> 6 then Inl An_Ipv4Length
        else Inr (Rec_Direct (sock_new (V4 (bs ! 0) (bs ! 1) (bs ! 2) (bs ! 3)) (of_nat (of_be [bs ! 4, bs ! 5]))))
      else if kind = record_direct_v6 then
        if length bs \<noteq> 18 then Inl An_Ipv6Length
        else Inr (Rec_Direct (sock_new (V6 (of_nat (of_be (take 16 bs)))) (of_nat (of_be [bs ! 16, bs ! 17]))))
      else if kind = record_libp2p then
        and_then (ok_or (addr_from_bytes lp bs) An_Multiaddr) (\<lambda>a. Inr (Rec_Libp2p a))
      else if kind = record_tor then url_record (normalize_tor_onion_url wu) Rec_Tor bs
      else if kind = record_i2p then url_record (normalize_i2p_url wu) Rec_I2p bs
      else if kind = record_public_tunnel then url_record (normalize_public_tunnel_url wu) Rec_Tunnel bs
      else Inl An_Kind)"

text \<open>The loop of \<open>decode\<close>, over the bytes from the cursor on.\<close>

function decode_records ::
  "libp2p_codec \<Rightarrow> 'u web_url \<Rightarrow> bytes \<Rightarrow> announcement_error + announcement_record list" where
  "decode_records lp wu [] = Inr []"
| "decode_records lp wu [k] = Inl An_HeaderTruncated"
| "decode_records lp wu (k # l # rest) =
     (if length rest < unat l then Inl An_PayloadTruncated
      else and_then (decode_record lp wu k (take (unat l) rest)) (\<lambda>r.
           and_then (decode_records lp wu (drop (unat l) rest)) (\<lambda>rs. Inr (r # rs))))"
  by pat_completeness auto
termination
  by (relation "measure (\<lambda>(lp, wu, bs). length bs)") auto

definition decode_announcement ::
  "libp2p_codec \<Rightarrow> 'u web_url \<Rightarrow> bytes \<Rightarrow> announcement_error + announcement" where
  "decode_announcement lp wu payload =
     (if length payload < 2 then Inl An_TooShort
      else if payload ! 0 \<noteq> format_version then Inl An_Version
      else
        let header_len = 2 + unat (payload ! 1) in
        if length payload < header_len then Inl An_PeerTruncated
        else
          and_then (ok_or (peer_from_bytes lp (take (unat (payload ! 1)) (drop 2 payload))) An_PeerId) (\<lambda>pid.
          and_then (decode_records lp wu (drop header_len payload)) (\<lambda>records.
            if records = [] then Inl An_Empty else Inr \<lparr>an_peer_id = pid, an_records = records\<rparr>)))"


section \<open>Packets, the publisher and the resolver\<close>

text \<open>
  Of the \<open>pkarr\<close> crate: a packet with the records at its apex and the time it was signed, and
  signing. Whether the network takes a packet is an argument of each publication.
\<close>

datatype rdata = R_Null bytes | R_Other

record signed_packet =
  sp_apex :: "rdata list"
  sp_timestamp :: u64

record pkarr_api =
  pa_null_ok :: "bytes \<Rightarrow> bool"
  pa_sign :: "bytes \<Rightarrow> u32 \<Rightarrow> rdata \<Rightarrow> signed_packet option"

definition pkarr_ttl_secs :: u32 where "pkarr_ttl_secs = 60"

definition secret_key_for_lookup_key :: "(bytes \<Rightarrow> bytes) \<Rightarrow> lookup_key \<Rightarrow> bytes" where
  "secret_key_for_lookup_key blake3 k = blake3 (str_bytes ''peerline:pkarr:v1'' @ key_bytes k)"

definition build_signed_packet :: "pkarr_api \<Rightarrow> bytes \<Rightarrow> bytes \<Rightarrow> announcement_error + signed_packet" where
  "build_signed_packet api secret payload =
     (if \<not> pa_null_ok api payload then Inl An_Packet
      else ok_or (pa_sign api secret pkarr_ttl_secs (R_Null payload)) An_Packet)"

fun add_record :: "libp2p_codec \<Rightarrow> peer_descriptor \<Rightarrow> announcement_record \<Rightarrow> peer_descriptor" where
  "add_record lp d (Rec_Direct e) = d\<lparr>pd_direct_endpoints := pd_direct_endpoints d @ [sock_str e]\<rparr>"
| "add_record lp d (Rec_Libp2p addr) = d\<lparr>pd_libp2p_endpoints := pd_libp2p_endpoints d @ [addr_text lp addr]\<rparr>"
| "add_record lp d (Rec_Tor url) = d\<lparr>pd_tor_endpoints := pd_tor_endpoints d @ [\<lparr>to_url = url\<rparr>]\<rparr>"
| "add_record lp d (Rec_I2p url) = d\<lparr>pd_i2p_endpoints := pd_i2p_endpoints d @ [\<lparr>ip_url = url\<rparr>]\<rparr>"
| "add_record lp d (Rec_Tunnel url) =
     d\<lparr>pd_public_endpoints := pd_public_endpoints d @ [\<lparr>pt_provider = pkarr_provider_label, pt_url = url\<rparr>]\<rparr>"

definition announcement_into_descriptor :: "libp2p_codec \<Rightarrow> announcement \<Rightarrow> u64 \<Rightarrow> peer_descriptor" where
  "announcement_into_descriptor lp a published_unix_ms =
     foldl (add_record lp)
       \<lparr>pd_protocol_version = descriptor_protocol_version, pd_peer_id = peer_text lp (an_peer_id a),
        pd_direct_endpoints = [], pd_libp2p_endpoints = [], pd_public_endpoints = [], pd_tor_endpoints = [],
        pd_i2p_endpoints = [], pd_published_unix_ms = published_unix_ms\<rparr> (an_records a)"

fun first_null :: "rdata list \<Rightarrow> bytes option" where
  "first_null [] = None"
| "first_null (R_Null bs # rs) = Some bs"
| "first_null (R_Other # rs) = first_null rs"

definition descriptor_from_signed_packet ::
  "libp2p_codec \<Rightarrow> 'u web_url \<Rightarrow> signed_packet \<Rightarrow> announcement_error + peer_descriptor" where
  "descriptor_from_signed_packet lp wu packet =
     and_then (ok_or (first_null (sp_apex packet)) An_MissingPayload) (\<lambda>payload.
     and_then (decode_announcement lp wu payload) (\<lambda>a.
       Inr (announcement_into_descriptor lp a (sp_timestamp packet div 1000))))"

definition resolve_peer_descriptor ::
  "libp2p_codec \<Rightarrow> 'u web_url \<Rightarrow> signed_packet option \<Rightarrow> announcement_error + peer_descriptor option" where
  "resolve_peer_descriptor lp wu resolved =
     (case resolved of
        None \<Rightarrow> Inr None
      | Some packet \<Rightarrow> and_then (descriptor_from_signed_packet lp wu packet) (\<lambda>d. Inr (Some d)))"

record publisher =
  pb_secret :: bytes
  pb_last_payload :: "bytes option"

definition publisher_new :: "(bytes \<Rightarrow> bytes) \<Rightarrow> lookup_key \<Rightarrow> publisher" where
  "publisher_new blake3 k = \<lparr>pb_secret = secret_key_for_lookup_key blake3 k, pb_last_payload = None\<rparr>"

text \<open>The result is the packet that went out, \<open>None\<close> when the publication was skipped.\<close>

definition publisher_publish ::
  "pkarr_api \<Rightarrow> libp2p_codec \<Rightarrow> 'u web_url \<Rightarrow> peer_descriptor \<Rightarrow> bool \<Rightarrow> bool \<Rightarrow> publisher \<Rightarrow>
   publisher \<times> (announcement_error + signed_packet option)" where
  "publisher_publish api lp wu d force network_ok p =
     (case and_then (announcement_from_descriptor lp wu d)
             (\<lambda>a. encode_with_budget lp a max_raw_payload_bytes) of
        Inl e \<Rightarrow> (p, Inl e)
      | Inr payload \<Rightarrow>
          if \<not> force \<and> pb_last_payload p = Some payload then (p, Inr None)
          else
            (case build_signed_packet api (pb_secret p) payload of
               Inl e \<Rightarrow> (p, Inl e)
             | Inr packet \<Rightarrow>
                 if \<not> network_ok then (p, Inl An_Publish)
                 else (p\<lparr>pb_last_payload := Some payload\<rparr>, Inr (Some packet))))"

text \<open>
  The worker takes its requests in order and survives failures; the packets it got out are listed,
  the latest last.
\<close>

record publish_request =
  pq_descriptor :: peer_descriptor
  pq_force :: bool
  pq_network_ok :: bool

fun worker_run ::
  "pkarr_api \<Rightarrow> libp2p_codec \<Rightarrow> 'u web_url \<Rightarrow> publish_request list \<Rightarrow> publisher \<Rightarrow> signed_packet list \<Rightarrow>
   publisher \<times> signed_packet list" where
  "worker_run api lp wu [] p out = (p, out)"
| "worker_run api lp wu (q # qs) p out =
     (case publisher_publish api lp wu (pq_descriptor q) (pq_force q) (pq_network_ok q) p of
        (p', Inr (Some packet)) \<Rightarrow> worker_run api lp wu qs p' (out @ [packet])
      | (p', _) \<Rightarrow> worker_run api lp wu qs p' out)"

definition bootstrap_from_env :: "string option \<Rightarrow> string list option" where
  "bootstrap_from_env env =
     map_option (\<lambda>raw. filter (\<lambda>v. v \<noteq> []) (map trim (split_on (\<lambda>c. c = CHR '','') raw))) env"

definition bootstrap_targets_localhost :: "string list \<Rightarrow> bool" where
  "bootstrap_targets_localhost bootstrap =
     (bootstrap \<noteq> [] \<and>
      (\<forall>v \<in> set bootstrap. starts_with ''127.0.0.1:'' v \<or> starts_with ''localhost:'' v))"

section \<open>What a payload decodes to\<close>

text \<open>
  The laws of URLs the decoder relies on: the text of a URL is ASCII, parses back to it and begins
  with its scheme, and changing the scheme keeps the host.
\<close>

definition lawful_url :: "'u web_url \<Rightarrow> bool" where
  "lawful_url wu \<longleftrightarrow>
     (\<forall>u. wu_parse wu (wu_text wu u) = Some u) \<and>
     (\<forall>u. \<forall>c \<in> set (wu_text wu u). code c < 128) \<and>
     (\<forall>u. wu_scheme wu u \<in> {''ws'', ''wss''} \<longrightarrow> starts_with (wu_scheme wu u @ ''://'') (wu_text wu u)) \<and>
     (\<forall>s u u'. wu_set_scheme wu s u = Some u' \<longrightarrow> wu_scheme wu u' = s \<and> wu_host wu u' = wu_host wu u)"

lemma lawful_parse: "lawful_url wu \<Longrightarrow> wu_parse wu (wu_text wu u) = Some u"
  by (simp add: lawful_url_def)

lemma lawful_ascii: "lawful_url wu \<Longrightarrow> utf8_valid (map unat (str_bytes (wu_text wu u)))"
  by (rule utf8_valid_ascii) (fastforce simp: lawful_url_def str_bytes_def unat_of_nat)

lemma lawful_scheme:
  "lawful_url wu \<Longrightarrow> wu_set_scheme wu s u = Some u' \<Longrightarrow> wu_scheme wu u' = s \<and> wu_host wu u' = wu_host wu u"
  by (simp add: lawful_url_def)

lemma lawful_ws_text:
  assumes "lawful_url wu" "wu_scheme wu u = ''ws''"
  shows "with_ws_scheme (wu_text wu u) = wu_text wu u"
proof -
  have "starts_with (''ws'' @ ''://'') (wu_text wu u)"
    using assms unfolding lawful_url_def by auto
  then have "wu_text wu u = (''ws'' @ ''://'') @ drop (length (''ws'' @ ''://'')) (wu_text wu u)"
    unfolding starts_with_def by (rule subst) (rule append_take_drop_id [symmetric])
  then have "wu_text wu u = ''ws'' @ ''://'' @ drop (length (''ws'' @ ''://'')) (wu_text wu u)"
    unfolding append_assoc .
  then show ?thesis unfolding with_ws_scheme_def contains_sub_iff by metis
qed

lemma plain_ws_url_scheme: "lawful_url wu \<Longrightarrow> plain_ws_url wu u0 = Inr u \<Longrightarrow> wu_scheme wu u = ''ws''"
  by (auto simp: plain_ws_url_def ok_or_Inr lawful_scheme split: if_splits)

lemma normal_public_tunnel:
  assumes "lawful_url wu" "normalize_public_tunnel_url wu raw = Inr v"
  shows "\<exists>u. v = wu_text wu u \<and> normalize_public_tunnel_url wu v = Inr v"
proof -
  from assms(2) obtain u0 u where
      c: "(if wu_scheme wu u0 = ''http'' then ok_or (wu_set_scheme wu ''ws'' u0) Url_Convert
               else if wu_scheme wu u0 = ''https'' then ok_or (wu_set_scheme wu ''wss'' u0) Url_Convert
               else if wu_scheme wu u0 = ''ws'' \<or> wu_scheme wu u0 = ''wss'' then Inr u0
               else Inl Url_Scheme) = Inr u"
    and v: "(if wu_host wu u \<in> {Some ''127.0.0.1'', Some ''localhost'', Some ''::1''} then Inl Url_Loopback
       else Inr (wu_text wu u)) = Inr v"
    unfolding normalize_public_tunnel_url_def and_then_Inr by blast
  from v have host: "wu_host wu u \<notin> {Some ''127.0.0.1'', Some ''localhost'', Some ''::1''}"
      and u: "v = wu_text wu u" by (simp_all split: if_splits)
  from c have "wu_scheme wu u = ''ws'' \<or> wu_scheme wu u = ''wss''"
    using lawful_scheme [OF assms(1)] by (fastforce simp: ok_or_Inr split: if_splits)
  with host have "normalize_public_tunnel_url wu v = Inr v"
    unfolding u normalize_public_tunnel_url_def lawful_parse [OF assms(1)] by auto
  with u show ?thesis by blast
qed

lemma normal_tor_onion:
  assumes "lawful_url wu" "normalize_tor_onion_url wu raw = Inr v"
  shows "\<exists>u. v = wu_text wu u \<and> normalize_tor_onion_url wu v = Inr v"
proof -
  from assms(2) obtain u0 u h where u: "v = wu_text wu u" "plain_ws_url wu u0 = Inr u" "wu_host wu u = Some h"
      "ends_with ''.onion'' (to_lower h)"
    unfolding normalize_tor_onion_url_def and_then_Inr by (auto split: if_splits option.splits)
  from plain_ws_url_scheme [OF assms(1) u(2)] have ws: "wu_scheme wu u = ''ws''" .
  then have "normalize_tor_onion_url wu v = Inr v"
    using u(3,4) unfolding u(1) normalize_tor_onion_url_def lawful_ws_text [OF assms(1) ws]
      lawful_parse [OF assms(1)] plain_ws_url_def by simp
  with u(1) show ?thesis by blast
qed

lemma normal_i2p:
  assumes "lawful_url wu" "normalize_i2p_url wu raw = Inr v"
  shows "\<exists>u. v = wu_text wu u \<and> normalize_i2p_url wu v = Inr v"
proof -
  from assms(2) obtain u0 u h where u: "v = wu_text wu u" "plain_ws_url wu u0 = Inr u" "wu_host wu u = Some h"
      "ends_with ''.i2p'' (to_lower h)" "ends_with ''.b32.i2p'' (to_lower h)" "is_i2p_b32_host (to_lower h)"
    unfolding normalize_i2p_url_def and_then_Inr Let_def by (auto split: if_splits option.splits)
  from plain_ws_url_scheme [OF assms(1) u(2)] have ws: "wu_scheme wu u = ''ws''" .
  then have "normalize_i2p_url wu v = Inr v"
    using u(3-6) unfolding u(1) normalize_i2p_url_def lawful_ws_text [OF assms(1) ws]
      lawful_parse [OF assms(1)] plain_ws_url_def Let_def by simp
  with u(1) show ?thesis by blast
qed

text \<open>What survives of a record: everything but the scope of an IPv6 address.\<close>

fun forget_scope :: "announcement_record \<Rightarrow> announcement_record" where
  "forget_scope (Rec_Direct e) = Rec_Direct (sock_new (sock_ip e) (sock_port e))"
| "forget_scope r = r"

definition record_data :: "libp2p_codec \<Rightarrow> announcement_record \<Rightarrow> bytes" where
  "record_data lp r = pk_data (packed_from_record lp r)"

definition record_tlv :: "packed_record \<Rightarrow> bytes" where
  "record_tlv r = [pk_kind r, of_nat (length (pk_data r))] @ pk_data r"

text \<open>A record that comes back from its own bytes.\<close>

definition returns :: "libp2p_codec \<Rightarrow> 'u web_url \<Rightarrow> announcement_record \<Rightarrow> bool" where
  "returns lp wu r \<longleftrightarrow>
     decode_record lp wu (pk_kind (packed_from_record lp r)) (record_data lp r) = Inr (forget_scope r)"


lemma length_data_take: "length (xs @ be_bytes 2 p) - 2 = length xs"
  by simp

lemma be2: "be_bytes 2 p = [of_nat (p div 256), of_nat p]"
  by (simp add: numeral_2_eq_2)

lemma port_bytes: "of_nat (of_be (be_bytes 2 (unat (port :: u16)))) = port"
  using unsigned_less [of port, where ?'a = nat] by simp

lemma direct_returns: "returns lp wu (Rec_Direct e)"
proof (cases e)
  case (Sock ip port scope)
  show ?thesis
  proof (cases ip)
    case (V4 a b c d)
    then show ?thesis
      using port_bytes [of port]
      by (simp add: Sock returns_def record_data_def decode_record_def record_kinds be2)
  next
    case (V6 w)
    have l: "length (v6_octets w) = 16" by (simp add: v6_octets_def)
    have "[(v6_octets w @ be_bytes 2 (unat port)) ! 16, (v6_octets w @ be_bytes 2 (unat port)) ! 17] =
        be_bytes 2 (unat port)"
      by (simp add: nth_append l be2)
    then show ?thesis
      using V6 l port_bytes [of port] v6_octets_roundtrip [of w]
      by (simp add: Sock returns_def record_data_def decode_record_def record_kinds)
  qed
qed

lemma url_record_returns:
  assumes "lawful_url wu" "url = wu_text wu u" "normal url = Inr url"
  shows "url_record normal wrap (str_bytes url) = Inr (wrap url)"
  using assms lawful_ascii [OF assms(1), of u] by (simp add: url_record_def utf8_string_def)

lemma collected_member:
  assumes "v \<in> set (remdups_adj (sort (List.map_filter (\<lambda>e. ok_value (f e)) raw)))"
  shows "\<exists>e \<in> set raw. f e = Inr v"
  using assms by (auto simp: List.map_filter_def ok_value_def split: sum.splits)

lemma published_returns:
  assumes "announcement_from_descriptor lp wu d = Inr a" "lawful_codec lp" "lawful_url wu" "r \<in> set (an_records a)"
  shows "returns lp wu r"
proof -
  from assms(1,4) consider
      (direct) e where "r = Rec_Direct e"
    | (tor) v where "r = Rec_Tor v" "v \<in> set (collect_tor_endpoints wu (pd_tor_endpoints d))"
    | (i2p) v where "r = Rec_I2p v" "v \<in> set (collect_i2p_endpoints wu (pd_i2p_endpoints d))"
    | (libp2p) addr where "r = Rec_Libp2p addr"
        "addr \<in> set (collect_libp2p_endpoints lp (pd_libp2p_endpoints d))"
    | (tunnel) v where "r = Rec_Tunnel v"
        "v \<in> set (collect_public_tunnel_endpoints wu (pd_public_endpoints d))"
    by (auto simp: announcement_from_descriptor_def and_then_Inr Let_def split: if_splits)
  then show ?thesis
  proof cases
    case direct
    then show ?thesis by (simp add: direct_returns)
  next
    case tor
    from tor(2) [unfolded collect_tor_endpoints_def, THEN collected_member] obtain e where "normalize_tor_onion_url wu e = Inr v"
      by blast
    from normal_tor_onion [OF assms(3) this] tor(1) show ?thesis
      using url_record_returns [OF assms(3)]
      by (auto simp: returns_def record_data_def decode_record_def record_kinds)
  next
    case i2p
    from i2p(2) [unfolded collect_i2p_endpoints_def, THEN collected_member] obtain e where "normalize_i2p_url wu e = Inr v"
      by blast
    from normal_i2p [OF assms(3) this] i2p(1) show ?thesis
      using url_record_returns [OF assms(3)]
      by (auto simp: returns_def record_data_def decode_record_def record_kinds)
  next
    case libp2p
    then obtain t where "addr_parse lp t = Some addr"
      unfolding collect_libp2p_endpoints_def by (auto simp: List.map_filter_def)
    with assms(2) libp2p(1) show ?thesis
      by (auto simp: returns_def record_data_def decode_record_def record_kinds lawful_codec_def)
  next
    case tunnel
    from tunnel(2) [unfolded collect_public_tunnel_endpoints_def, THEN collected_member] obtain e where "normalize_public_tunnel_url wu e = Inr v"
      by blast
    from normal_public_tunnel [OF assms(3) this] tunnel(1) show ?thesis
      using url_record_returns [OF assms(3)]
      by (auto simp: returns_def record_data_def decode_record_def record_kinds)
  qed
qed

section \<open>What the budget keeps\<close>

fun kept :: "nat \<Rightarrow> libp2p_codec \<Rightarrow> announcement_record list \<Rightarrow> nat \<Rightarrow> announcement_record list" where
  "kept max_bytes lp [] used = []"
| "kept max_bytes lp (r # rs) used =
     (if 255 < length (record_data lp r) \<or> max_bytes < used + 2 + length (record_data lp r)
      then kept max_bytes lp rs used
      else r # kept max_bytes lp rs (used + 2 + length (record_data lp r)))"

definition tlvs :: "libp2p_codec \<Rightarrow> announcement_record list \<Rightarrow> bytes" where
  "tlvs lp rs = concat (map (\<lambda>r. record_tlv (packed_from_record lp r)) rs)"

lemma pack_records_kept:
  "pack_records max_bytes (map (packed_from_record lp) rs) payload n =
    (payload @ tlvs lp (kept max_bytes lp rs (length payload)), n + length (kept max_bytes lp rs (length payload)))"
  by (induction rs arbitrary: payload n)
    (auto simp: tlvs_def record_tlv_def record_data_def add.assoc add.commute)

lemma kept_subseq: "subseq (kept max_bytes lp rs used) rs"
  by (induction rs arbitrary: used) auto

lemma set_kept: "set (kept max_bytes lp rs used) \<subseteq> set rs"
  by (induction rs arbitrary: used) auto

lemma kept_short: "\<forall>r \<in> set (kept max_bytes lp rs used). length (record_data lp r) \<le> 255"
  by (induction rs arbitrary: used) auto

lemma kept_within: "kept max_bytes lp rs used \<noteq> [] \<Longrightarrow> used + length (tlvs lp (kept max_bytes lp rs used)) \<le> max_bytes"
proof (induction rs arbitrary: used)
  case Nil
  then show ?case by simp
next
  case (Cons r rs)
  show ?case
  proof (cases "255 < length (record_data lp r) \<or> max_bytes < used + 2 + length (record_data lp r)")
    case True
    with Cons show ?thesis by auto
  next
    case False
    let ?u = "used + 2 + length (record_data lp r)"
    have "?u + length (tlvs lp (kept max_bytes lp rs ?u)) \<le> max_bytes"
      using False Cons.IH [of ?u] by (cases "kept max_bytes lp rs ?u = []") (auto simp: tlvs_def)
    with False show ?thesis by (simp add: tlvs_def record_tlv_def record_data_def)
  qed
qed

lemma kept_maximal:
  "r \<in> set rs \<Longrightarrow> r \<notin> set (kept max_bytes lp rs used) \<Longrightarrow>
   255 < length (record_data lp r) \<or>
   max_bytes < used + length (tlvs lp (kept max_bytes lp rs used)) + 2 + length (record_data lp r)"
proof (induction rs arbitrary: used)
  case Nil
  then show ?case by simp
next
  case (Cons x rs)
  show ?case
  proof (cases "255 < length (record_data lp x) \<or> max_bytes < used + 2 + length (record_data lp x)")
    case True
    with Cons show ?thesis by auto
  next
    case False
    with Cons.prems have "r \<in> set rs" "r \<notin> set (kept max_bytes lp rs (used + 2 + length (record_data lp x)))"
      by auto
    from Cons.IH [OF this] False show ?thesis by (auto simp: tlvs_def record_tlv_def record_data_def)
  qed
qed

lemma decode_records_tlvs:
  "\<forall>r \<in> set rs. returns lp wu r \<and> length (record_data lp r) \<le> 255 \<Longrightarrow>
   decode_records lp wu (tlvs lp rs) = Inr (map forget_scope rs)"
proof (induction rs)
  case Nil
  then show ?case by (simp add: tlvs_def)
next
  case (Cons r rs)
  let ?p = "packed_from_record lp r"
  have l: "unat (of_nat (length (pk_data ?p)) :: u8) = length (pk_data ?p)"
    using Cons.prems by (simp add: unat_of_nat record_data_def)
  have "tlvs lp (r # rs) = pk_kind ?p # of_nat (length (pk_data ?p)) # pk_data ?p @ tlvs lp rs"
    by (simp add: tlvs_def record_tlv_def)
  then show ?case
    using Cons l by (simp add: returns_def record_data_def)
qed

lemma insort_key_map: "insort_key g (f x) (map f xs) = map f (insort_key (\<lambda>y. g (f y)) x xs)"
  by (induction xs) auto

lemma sort_key_map: "sort_key g (map f xs) = map f (sort_key (\<lambda>y. g (f y)) xs)"
  by (induction xs) (simp_all add: insort_key_map)

text \<open>The order in which records compete for the budget.\<close>

definition wanted_first :: "libp2p_codec \<Rightarrow> announcement_record list \<Rightarrow> announcement_record list" where
  "wanted_first lp rs = sort_key (\<lambda>r. packed_key (packed_from_record lp r)) rs"

lemma encode_within_budget_aux:
  assumes "announcement_from_descriptor lp wu d = Inr a" "encode_with_budget lp a max_bytes = Inr payload"
    and "lawful_codec lp" "lawful_url wu"
  shows "length payload \<le> max_bytes \<and>
    (\<exists>rs. decode_announcement lp wu payload = Inr \<lparr>an_peer_id = an_peer_id a, an_records = map forget_scope rs\<rparr> \<and>
      rs \<noteq> [] \<and> subseq rs (wanted_first lp (an_records a)) \<and>
      (\<forall>r \<in> set (an_records a) - set rs. 255 < length (record_data lp r) \<or>
        max_bytes < length payload + 2 + length (record_data lp r)))"
proof -
  let ?pid = "an_peer_id a"
  let ?head = "[format_version, of_nat (length ?pid)] @ ?pid"
  let ?sorted = "wanted_first lp (an_records a)"
  define rs where "rs = kept max_bytes lp ?sorted (length ?head)"
  have pack: "pack_records max_bytes (sort_key packed_key (map (packed_from_record lp) (an_records a))) ?head 0 =
      (?head @ tlvs lp rs, length rs)"
    unfolding sort_key_map wanted_first_def [symmetric] pack_records_kept rs_def by simp
  have short: "length ?pid \<le> 255" and ne: "rs \<noteq> []" and payload: "payload = ?head @ tlvs lp rs"
    using assms(2) unfolding encode_with_budget_def pack by (auto split: if_splits)
  have len: "unat (of_nat (length ?pid) :: u8) = length ?pid" using short by (simp add: unat_of_nat)
  from assms(1) obtain t where "peer_parse lp t = Some ?pid"
    by (auto simp: announcement_from_descriptor_def and_then_Inr ok_or_Inr Let_def split: if_splits)
  with assms(3) have pid: "peer_from_bytes lp ?pid = Some ?pid" by (auto simp: lawful_codec_def)
  have sub: "subseq rs ?sorted" unfolding rs_def by (rule kept_subseq)
  have mem: "set rs \<subseteq> set (an_records a)"
    using set_kept [of max_bytes lp ?sorted] by (auto simp: rs_def wanted_first_def)
  have "\<forall>r \<in> set rs. returns lp wu r \<and> length (record_data lp r) \<le> 255"
    using mem published_returns [OF assms(1,3,4)] kept_short unfolding rs_def by blast
  from decode_records_tlvs [OF this] have records: "decode_records lp wu (tlvs lp rs) = Inr (map forget_scope rs)" .
  have "decode_announcement lp wu payload = Inr \<lparr>an_peer_id = ?pid, an_records = map forget_scope rs\<rparr>"
    unfolding payload decode_announcement_def using ne len pid records by simp
  moreover have "length payload \<le> max_bytes"
    using kept_within [of max_bytes lp ?sorted "length ?head"] ne unfolding payload rs_def by simp
  moreover have "\<forall>r \<in> set (an_records a) - set rs. 255 < length (record_data lp r) \<or>
      max_bytes < length payload + 2 + length (record_data lp r)"
  proof
    fix r assume "r \<in> set (an_records a) - set rs"
    then have "r \<in> set ?sorted" "r \<notin> set (kept max_bytes lp ?sorted (length ?head))"
      by (simp_all add: wanted_first_def rs_def)
    from kept_maximal [OF this] show "255 < length (record_data lp r) \<or>
        max_bytes < length payload + 2 + length (record_data lp r)"
      unfolding payload rs_def by (simp add: add.assoc)
  qed
  ultimately show ?thesis using ne sub by blast
qed


text \<open>
  C30. What a receiver publishes in the DHT is what a sender reads there: the payload fits the
  budget, it decodes to the receiver's peer id and a non-empty part of its endpoints, in the order
  of preference, each of them unchanged but for the scope of an IPv6 address, and an endpoint is
  left out only if it does not fit in the room that remains (or cannot be framed at all).
\<close>

theorem announcement_roundtrip:
  assumes "announcement_from_descriptor lp wu d = Inr a" "encode_with_budget lp a max_bytes = Inr payload"
    and "lawful_codec lp" "lawful_url wu"
  shows "length payload \<le> max_bytes \<and>
    (\<exists>rs. decode_announcement lp wu payload = Inr \<lparr>an_peer_id = an_peer_id a, an_records = map forget_scope rs\<rparr> \<and>
      rs \<noteq> [] \<and> subseq rs (wanted_first lp (an_records a)) \<and>
      (\<forall>r \<in> set (an_records a) - set rs. 255 < length (record_data lp r) \<or>
        max_bytes < length payload + 2 + length (record_data lp r)))"
  by (rule encode_within_budget_aux [OF assms])

section \<open>The publisher\<close>

definition payload_of ::
  "libp2p_codec \<Rightarrow> 'u web_url \<Rightarrow> peer_descriptor \<Rightarrow> announcement_error + bytes" where
  "payload_of lp wu d =
     and_then (announcement_from_descriptor lp wu d) (\<lambda>a. encode_with_budget lp a max_raw_payload_bytes)"

definition lawful_pkarr :: "pkarr_api \<Rightarrow> bool" where
  "lawful_pkarr api \<longleftrightarrow>
     (\<forall>k t bs packet. pa_sign api k t (R_Null bs) = Some packet \<longrightarrow> sp_apex packet = [R_Null bs])"

text \<open>The remembered payload is the one in the latest packet that went out.\<close>

definition remembers :: "publisher \<Rightarrow> signed_packet list \<Rightarrow> bool" where
  "remembers p out \<longleftrightarrow>
     pb_last_payload p = (if out = [] then None else first_null (sp_apex (last out)))"

lemma publisher_publish_remembers:
  assumes "publisher_publish api lp wu d force net p = (p', r)" "lawful_pkarr api" "remembers p out"
  shows "(case r of Inr (Some packet) \<Rightarrow> remembers p' (out @ [packet]) \<and> first_null (sp_apex packet) = ok_value (payload_of lp wu d)
    | Inr None \<Rightarrow> p' = p \<and> pb_last_payload p \<noteq> None \<and> pb_last_payload p = ok_value (payload_of lp wu d) | Inl e \<Rightarrow> p' = p)"
  using assms
  by (auto simp: publisher_publish_def payload_of_def [symmetric] build_signed_packet_def remembers_def
      lawful_pkarr_def ok_value_def ok_or_Inr split: sum.splits if_splits)

lemma worker_run_append:
  "worker_run api lp wu (qs @ [q]) p out =
    (case worker_run api lp wu qs p out of (p1, out1) \<Rightarrow> worker_run api lp wu [q] p1 out1)"
  by (induction qs arbitrary: p out) (auto split: prod.splits sum.splits option.splits)

lemma worker_run_remembers:
  "lawful_pkarr api \<Longrightarrow> remembers p out \<Longrightarrow> worker_run api lp wu qs p out = (p', out') \<Longrightarrow> remembers p' out'"
proof (induction qs arbitrary: p out)
  case Nil
  then show ?case by simp
next
  case (Cons q qs)
  obtain p1 r where r: "publisher_publish api lp wu (pq_descriptor q) (pq_force q) (pq_network_ok q) p = (p1, r)"
    by fastforce
  note step = publisher_publish_remembers [OF r Cons.prems(1,2)]
  show ?case
  proof (cases r)
    case (Inl e)
    with r step Cons show ?thesis by simp
  next
    case (Inr o')
    with r step Cons show ?thesis by (cases o') auto
  qed
qed


lemma worker_run_secret: "worker_run api lp wu qs p out = (p', out') \<Longrightarrow> pb_secret p' = pb_secret p"
proof (induction qs arbitrary: p out)
  case Nil
  then show ?case by simp
next
  case (Cons q qs)
  have "publisher_publish api lp wu d force net p = (p1, r) \<Longrightarrow> pb_secret p1 = pb_secret p" for d force net p1 r
    by (auto simp: publisher_publish_def split: sum.splits if_splits)
  with Cons show ?case by (auto split: prod.splits sum.splits option.splits)
qed

lemma worker_last:
  assumes "lawful_pkarr api" "worker_run api lp wu (qs @ [q]) (publisher_new blake3 k) [] = (p, out)"
    and "payload_of lp wu (pq_descriptor q) = Inr payload" "pq_network_ok q" "pa_null_ok api payload"
    and "pa_sign api (secret_key_for_lookup_key blake3 k) pkarr_ttl_secs (R_Null payload) = Some packet"
  shows "out \<noteq> [] \<and> first_null (sp_apex (last out)) = Some payload"
proof -
  obtain p1 out1 where run: "worker_run api lp wu qs (publisher_new blake3 k) [] = (p1, out1)" by fastforce
  have "remembers (publisher_new blake3 k) []" by (simp add: remembers_def publisher_new_def)
  from worker_run_remembers [OF assms(1) this run] have rem: "remembers p1 out1" .
  have secret: "pb_secret p1 = secret_key_for_lookup_key blake3 k"
    using worker_run_secret [OF run] by (simp add: publisher_new_def)
  have last: "worker_run api lp wu [q] p1 out1 = (p, out)"
    using assms(2) run by (simp add: worker_run_append)
  obtain p2 r where r: "publisher_publish api lp wu (pq_descriptor q) (pq_force q) (pq_network_ok q) p1 = (p2, r)"
    by fastforce
  note step = publisher_publish_remembers [OF r assms(1) rem]
  have "\<exists>o'. r = Inr o'"
    using r assms(3-6) secret
    by (auto simp: publisher_publish_def payload_of_def build_signed_packet_def split: if_splits)
  then obtain o' where o': "r = Inr o'" ..
  show ?thesis
  proof (cases o')
    case None
    then have "out = out1" "pb_last_payload p1 = Some payload"
      using last r o' step assms(3) by (auto simp: ok_value_def)
    with rem show ?thesis by (auto simp: remembers_def split: if_splits)
  next
    case (Some pk)
    then have "out = out1 @ [pk]" "first_null (sp_apex pk) = Some payload"
      using last r o' step assms(3) by (auto simp: ok_value_def)
    then show ?thesis by simp
  qed
qed

text \<open>
  After any sequence of publications, failed and skipped ones included, the latest packet in the
  network resolves to the last descriptor that could be published: a request that is skipped
  because its payload has not changed is one the network already holds.
\<close>

theorem network_holds_last_descriptor:
  assumes "lawful_pkarr api" "lawful_codec lp" "lawful_url wu"
    and "worker_run api lp wu (qs @ [q]) (publisher_new blake3 k) [] = (p, out)"
    and "payload_of lp wu (pq_descriptor q) = Inr payload" "pq_network_ok q" "pa_null_ok api payload"
    and "pa_sign api (secret_key_for_lookup_key blake3 k) pkarr_ttl_secs (R_Null payload) = Some packet"
  shows "\<exists>a rs. announcement_from_descriptor lp wu (pq_descriptor q) = Inr a \<and> rs \<noteq> [] \<and>
    subseq rs (wanted_first lp (an_records a)) \<and>
    resolve_peer_descriptor lp wu (Some (last out)) = Inr (Some (announcement_into_descriptor lp
      \<lparr>an_peer_id = an_peer_id a, an_records = map forget_scope rs\<rparr> (sp_timestamp (last out) div 1000)))"
proof -
  from worker_last [OF assms(1,4-8)] have last: "first_null (sp_apex (last out)) = Some payload" by blast
  from assms(5) obtain a where a: "announcement_from_descriptor lp wu (pq_descriptor q) = Inr a"
      "encode_with_budget lp a max_raw_payload_bytes = Inr payload"
    by (auto simp: payload_of_def and_then_Inr)
  from encode_within_budget_aux [OF a assms(2,3)] obtain rs where rs:
      "decode_announcement lp wu payload = Inr \<lparr>an_peer_id = an_peer_id a, an_records = map forget_scope rs\<rparr>"
      "rs \<noteq> []" "subseq rs (wanted_first lp (an_records a))" by blast
  have "resolve_peer_descriptor lp wu (Some (last out)) = Inr (Some (announcement_into_descriptor lp
      \<lparr>an_peer_id = an_peer_id a, an_records = map forget_scope rs\<rparr> (sp_timestamp (last out) div 1000)))"
    unfolding resolve_peer_descriptor_def descriptor_from_signed_packet_def last option.case ok_or.simps
      and_then.simps rs(1) ..
  with a(1) rs(2,3) show ?thesis by blast
qed

section \<open>A concrete publication\<close>

definition demo_codec :: libp2p_codec where
  "demo_codec = \<lparr>peer_parse = \<lambda>s. if s = ''p'' then Some [7] else None, peer_text = \<lambda>_. ''p'',
     peer_from_bytes = \<lambda>bs. if bs = [7] then Some [7] else None, addr_parse = \<lambda>_. None, addr_text = \<lambda>_. [],
     addr_bytes = \<lambda>_. [], addr_from_bytes = \<lambda>_. None\<rparr>"

definition no_urls :: "unit web_url" where
  "no_urls = \<lparr>wu_parse = \<lambda>s. if s = ''x:'' then Some () else None, wu_scheme = \<lambda>_. ''x'', wu_host = \<lambda>_. None,
     wu_port = \<lambda>_. None, wu_set_scheme = \<lambda>_ _. None, wu_text = \<lambda>_. ''x:''\<rparr>"

definition demo_pkarr :: pkarr_api where
  "demo_pkarr = \<lparr>pa_null_ok = \<lambda>bs. length bs < 1000,
     pa_sign = \<lambda>_ _ r. Some \<lparr>sp_apex = [r], sp_timestamp = 5000\<rparr>\<rparr>"

definition demo_direct :: socket_addr where
  "demo_direct = sock_new (V4 9 8 7 6) 5"

definition demo_descriptor :: peer_descriptor where
  "demo_descriptor = \<lparr>pd_protocol_version = 1, pd_peer_id = ''p'', pd_direct_endpoints = [sock_str demo_direct],
     pd_libp2p_endpoints = [], pd_public_endpoints = [], pd_tor_endpoints = [], pd_i2p_endpoints = [],
     pd_published_unix_ms = 0\<rparr>"

definition demo_announcement :: announcement where
  "demo_announcement = \<lparr>an_peer_id = [7], an_records = [Rec_Direct demo_direct]\<rparr>"

lemma demo_lawful: "lawful_codec demo_codec" "lawful_url no_urls" "lawful_pkarr demo_pkarr"
  by (auto simp: lawful_codec_def demo_codec_def lawful_url_def no_urls_def lawful_pkarr_def demo_pkarr_def code_def)

lemma demo_from: "announcement_from_descriptor demo_codec no_urls demo_descriptor = Inr demo_announcement"
proof -
  have "parse_sock (sock_str demo_direct) = Some demo_direct"
    unfolding demo_direct_def sock_new_def by (rule parse_sock_v4_roundtrip_aux)
  then have "collect_direct_endpoints [sock_str demo_direct] = [demo_direct]"
    by (simp add: collect_direct_endpoints_def List.map_filter_def sort_dedup_def demo_direct_def)
  then show ?thesis
    by (simp add: announcement_from_descriptor_def demo_descriptor_def demo_codec_def demo_announcement_def
        collect_tor_endpoints_def collect_i2p_endpoints_def collect_libp2p_endpoints_def sort_dedup_def
        collect_public_tunnel_endpoints_def List.map_filter_def)
qed

lemma demo_encode:
  "encode_with_budget demo_codec demo_announcement 924 = Inr [1, 1, 7, 1, 6, 9, 8, 7, 6, 0, 5]"
  by (simp add: encode_with_budget_def demo_announcement_def demo_direct_def sock_new_def format_version_def
      record_kinds be2)

theorem announcement_roundtrip_witness:
  "\<exists>rs. decode_announcement demo_codec no_urls [1, 1, 7, 1, 6, 9, 8, 7, 6, 0, 5] =
      Inr \<lparr>an_peer_id = [7], an_records = map forget_scope rs\<rparr> \<and> rs \<noteq> []"
  using announcement_roundtrip [OF demo_from demo_encode demo_lawful(1,2)] by (auto simp: demo_announcement_def)

lemma demo_payload: "payload_of demo_codec no_urls demo_descriptor = Inr [1, 1, 7, 1, 6, 9, 8, 7, 6, 0, 5]"
  using demo_from demo_encode by (simp add: payload_of_def max_raw_payload_bytes_def)

definition demo_requests :: "publish_request list" where
  "demo_requests = [\<lparr>pq_descriptor = demo_descriptor, pq_force = True, pq_network_ok = False\<rparr>,
     \<lparr>pq_descriptor = demo_descriptor, pq_force = True, pq_network_ok = True\<rparr>]"

definition demo_again :: publish_request where
  "demo_again = \<lparr>pq_descriptor = demo_descriptor, pq_force = False, pq_network_ok = True\<rparr>"

lemma demo_run:
  "worker_run demo_pkarr demo_codec no_urls (demo_requests @ [demo_again]) (publisher_new (\<lambda>_. []) (LookupKey [])) [] =
    (\<lparr>pb_secret = [], pb_last_payload = Some [1, 1, 7, 1, 6, 9, 8, 7, 6, 0, 5]\<rparr>,
     [\<lparr>sp_apex = [R_Null [1, 1, 7, 1, 6, 9, 8, 7, 6, 0, 5]], sp_timestamp = 5000\<rparr>])"
  unfolding demo_requests_def demo_again_def
  by (simp add: publisher_publish_def payload_of_def [symmetric] demo_payload build_signed_packet_def demo_pkarr_def
      publisher_new_def secret_key_for_lookup_key_def)

theorem network_holds_last_descriptor_witness:
  "\<exists>d. resolve_peer_descriptor demo_codec no_urls
      (Some \<lparr>sp_apex = [R_Null [1, 1, 7, 1, 6, 9, 8, 7, 6, 0, 5]], sp_timestamp = 5000\<rparr>) = Inr (Some d)"
proof -
  have "pa_sign demo_pkarr (secret_key_for_lookup_key (\<lambda>_. []) (LookupKey [])) pkarr_ttl_secs
      (R_Null [1, 1, 7, 1, 6, 9, 8, 7, 6, 0, 5]) =
      Some \<lparr>sp_apex = [R_Null [1, 1, 7, 1, 6, 9, 8, 7, 6, 0, 5]], sp_timestamp = 5000\<rparr>"
    "pa_null_ok demo_pkarr [1, 1, 7, 1, 6, 9, 8, 7, 6, 0, 5]"
    "payload_of demo_codec no_urls (pq_descriptor demo_again) = Inr [1, 1, 7, 1, 6, 9, 8, 7, 6, 0, 5]"
    "pq_network_ok demo_again"
    by (simp_all add: demo_pkarr_def demo_again_def demo_payload)
  from network_holds_last_descriptor [OF demo_lawful(3,1,2) demo_run this(3,4,2,1)]
  show ?thesis by auto
qed

end
