(* ===== verification/Descriptor_Publish.thy ===== *)
theory Descriptor_Publish
  imports Libp2p_Receive Discovery_Loop Pkarr Rendezvous_Guard
begin

text \<open>
  How a receiver makes itself known: the descriptor publisher of \<open>peerline-net/src/discovery.rs\<close>
  (\<open>run_descriptor_publisher\<close>, with \<open>publish_descriptor\<close> of \<open>discovery/swarm.rs\<close>), and the loop of
  the libp2p receiver (\<open>recv_libp2p\<close> of \<open>libp2p_transfer/receiver.rs\<close>, with \<open>descriptor.rs\<close>), which
  publishes and serves transfers. Both put the descriptor into the DHT, hand it to the task that
  keeps it registered at the rendezvous services, and queue it for the pkarr worker.
\<close>

section \<open>One publication\<close>

text \<open>What the process sees of itself when it publishes, and whether the pkarr relay will answer.\<close>

record surroundings =
  sv_now :: u64
  sv_interfaces :: "ip_addr list"
  sv_listeners :: "multiaddr list"
  sv_external :: "multiaddr list"
  sv_network_ok :: bool

record publish_env =
  pe_codec :: libp2p_codec
  pe_local_peer :: peer_id
  pe_key :: lookup_key
  pe_descriptor_ser :: "peer_descriptor \<Rightarrow> bytes option"

definition own_addresses :: "surroundings \<Rightarrow> multiaddr list" where
  "own_addresses sv = sv_listeners sv @ sv_external sv"

definition dht_publish :: "publish_env \<Rightarrow> peer_descriptor \<Rightarrow> swarm_command list option" where
  "dht_publish pe d =
     (case pe_descriptor_ser pe d of
        None \<Rightarrow> None
      | Some bs \<Rightarrow> Some [Kad_PutRecord (descriptor_record_key (pe_key pe)) bs, Kad_StartProviding (provider_record_key (pe_key pe))])"

definition described ::
  "publish_env \<Rightarrow> surroundings \<Rightarrow> socket_addr \<Rightarrow> bool \<Rightarrow> socket_addr list \<Rightarrow> public_tunnel_endpoint list \<Rightarrow>
   tor_onion_endpoint list \<Rightarrow> i2p_endpoint list \<Rightarrow> peer_descriptor" where
  "described pe sv bind allow_loopback extra public tor i2p =
     make_peer_descriptor (sv_now sv) (peer_text (pe_codec pe) (pe_local_peer pe))
       (map sock_str (direct_endpoints_with_extra (sv_interfaces sv) bind allow_loopback extra))
       (map (addr_text (pe_codec pe)) (own_addresses sv)) public tor i2p"

text \<open>The commands given to the swarm and the descriptor, or nothing when it cannot be encoded.\<close>

definition publish_descriptor ::
  "publish_env \<Rightarrow> surroundings \<Rightarrow> socket_addr \<Rightarrow> socket_addr list \<Rightarrow> bool \<Rightarrow> (swarm_command list \<times> peer_descriptor) option" where
  "publish_descriptor pe sv bind extra allow_loopback =
     (let d = described pe sv bind allow_loopback extra [] [] [] in map_option (\<lambda>cmds. (cmds, d)) (dht_publish pe d))"

record 'u libp2p_recv_options =
  lr_options :: recv_options
  lr_discovery :: "'u discovery_config"
  lr_public :: "public_tunnel_endpoint list"
  lr_tor :: "tor_onion_endpoint list"
  lr_i2p :: "i2p_endpoint list"

definition publish_receiver_descriptor ::
  "publish_env \<Rightarrow> surroundings \<Rightarrow> 'u libp2p_recv_options \<Rightarrow> socket_addr list \<Rightarrow>
   (swarm_command list \<times> peer_descriptor) option" where
  "publish_receiver_descriptor pe sv lo extra =
     (let d = described pe sv (ro_bind (lr_options lo)) (dc_allow_loopback_endpoints (lr_discovery lo)) extra
                (lr_public lo) (lr_tor lo) (lr_i2p lo)
      in map_option (\<lambda>cmds. (cmds, d)) (dht_publish pe d))"

text \<open>
  What a publishing loop keeps: the endpoints mapped at the router, the guard of the registration,
  the requests queued for the pkarr worker (if there is one), and the commands given so far.
\<close>

record 'u publication =
  pn_mapped :: "socket_addr list"
  pn_guard :: "'u guard"
  pn_pkarr :: "publish_request list option"
  pn_commands :: "swarm_command list"

definition command :: "swarm_command list \<Rightarrow> 'u publication \<Rightarrow> 'u publication" where
  "command cmds p = p\<lparr>pn_commands := pn_commands p @ cmds\<rparr>"

definition publish_pkarr_descriptor :: "bool \<Rightarrow> peer_descriptor \<Rightarrow> bool \<Rightarrow> 'u publication \<Rightarrow> 'u publication" where
  "publish_pkarr_descriptor network_ok d force p =
     p\<lparr>pn_pkarr := map_option (\<lambda>qs. qs @ [\<lparr>pq_descriptor = d, pq_force = force, pq_network_ok = network_ok\<rparr>]) (pn_pkarr p)\<rparr>"

definition spread :: "bool \<Rightarrow> peer_descriptor \<Rightarrow> bool \<Rightarrow> 'u publication \<Rightarrow> 'u publication" where
  "spread network_ok d force p =
     publish_pkarr_descriptor network_ok d force (p\<lparr>pn_guard := update_descriptor d (pn_guard p)\<rparr>)"

definition spread_all ::
  "bool \<Rightarrow> bool \<Rightarrow> (swarm_command list \<times> peer_descriptor) option \<Rightarrow> 'u publication \<Rightarrow> 'u publication" where
  "spread_all network_ok force r p =
     (case r of None \<Rightarrow> p | Some (cmds, d) \<Rightarrow> spread network_ok d force (command cmds p))"

text \<open>The first publication, which must succeed, creates the guard.\<close>

definition first_publication ::
  "'u url_api \<Rightarrow> human_name \<Rightarrow> human_code \<Rightarrow> 'u rendezvous_config \<Rightarrow> bool \<Rightarrow> socket_addr list \<Rightarrow> swarm_command list \<Rightarrow>
   bool \<Rightarrow> (swarm_command list \<times> peer_descriptor) option \<Rightarrow> 'u publication option" where
  "first_publication ua name hcode cfg worker mapped started network_ok r =
     map_option (\<lambda>(cmds, d).
         publish_pkarr_descriptor network_ok d True
           \<lparr>pn_mapped = mapped, pn_guard = guard_new ua name hcode d cfg,
            pn_pkarr = (if worker then Some [] else None), pn_commands = started @ cmds\<rparr>) r"

section \<open>The descriptor publisher\<close>

text \<open>
  It publishes every minute, when the swarm reports something that may change the descriptor, and
  when the router mapping changes. Only the periodic publication must succeed.
\<close>

datatype publish_event =
    Pub_Tick
  | Pub_Swarm swarm_event
  | Pub_Mapping "socket_addr list option"

definition publisher_started ::
  "publish_env \<Rightarrow> 'u url_api \<Rightarrow> human_name \<Rightarrow> human_code \<Rightarrow> 'u discovery_config \<Rightarrow> socket_addr \<Rightarrow> bool \<Rightarrow>
   socket_addr list \<Rightarrow> surroundings \<Rightarrow> 'u publication option" where
  "publisher_started pe ua name hcode cfg bind worker mapped sv =
     first_publication ua name hcode (dc_rendezvous cfg) worker mapped
       (apply_bootstrap (pe_codec pe) cfg @ [Sw_Listen ''/ip4/0.0.0.0/tcp/0''] @
        (if dc_enable_quic cfg then [Sw_Listen ''/ip4/0.0.0.0/udp/0/quic-v1''] else []))
       (sv_network_ok sv)
       (publish_descriptor pe sv bind mapped (dc_allow_loopback_endpoints cfg))"

definition publisher_step ::
  "publish_env \<Rightarrow> swarm_env \<Rightarrow> 'u discovery_config \<Rightarrow> socket_addr \<Rightarrow> surroundings \<Rightarrow> publish_event \<Rightarrow> 'u publication \<Rightarrow>
   'u publication option" where
  "publisher_step pe se cfg bind sv ev p =
     (case ev of
        Pub_Tick \<Rightarrow>
          (case publish_descriptor pe sv bind (pn_mapped p) (dc_allow_loopback_endpoints cfg) of
             None \<Rightarrow> None
           | Some r \<Rightarrow> Some (spread_all (sv_network_ok sv) True (Some r) p))
      | Pub_Swarm e \<Rightarrow>
          (case handle_publish_swarm_event se e of
             (cmds, changed) \<Rightarrow>
               let p1 = command cmds p in
               Some (if changed then
                       spread_all (sv_network_ok sv) False
                         (publish_descriptor pe sv bind (pn_mapped p1) (dc_allow_loopback_endpoints cfg)) p1
                     else p1))
      | Pub_Mapping None \<Rightarrow> Some p
      | Pub_Mapping (Some endpoints) \<Rightarrow>
          Some (spread_all (sv_network_ok sv) False
            (publish_descriptor pe sv bind endpoints (dc_allow_loopback_endpoints cfg)) (p\<lparr>pn_mapped := endpoints\<rparr>)))"

fun publisher_run ::
  "publish_env \<Rightarrow> swarm_env \<Rightarrow> 'u discovery_config \<Rightarrow> socket_addr \<Rightarrow> (surroundings \<times> publish_event) list \<Rightarrow>
   'u publication \<Rightarrow> 'u publication option" where
  "publisher_run pe se cfg bind [] p = Some p"
| "publisher_run pe se cfg bind ((sv, ev) # evs) p =
     (case publisher_step pe se cfg bind sv ev p of None \<Rightarrow> None | Some p' \<Rightarrow> publisher_run pe se cfg bind evs p')"

section \<open>The libp2p receiver\<close>

definition refresh_external_addresses :: "surroundings \<Rightarrow> bool \<Rightarrow> swarm_command list" where
  "refresh_external_addresses sv allow_loopback =
     map Sw_AddExternalAddress (filter (is_dialable_rendezvous_addr allow_loopback) (own_addresses sv))"

definition register_receiver :: "surroundings \<Rightarrow> string \<Rightarrow> 'u discovery_config \<Rightarrow> swarm_command list" where
  "register_receiver sv namespace cfg =
     (if dc_libp2p_rendezvous_peers cfg = [] then []
      else refresh_external_addresses sv (dc_allow_loopback_endpoints cfg) @
        map (\<lambda>peer. Rv_Register namespace (rp_peer_id peer)) (dc_libp2p_rendezvous_peers cfg))"

definition unregister_receiver :: "string \<Rightarrow> 'u discovery_config \<Rightarrow> swarm_command list" where
  "unregister_receiver namespace cfg =
     map (\<lambda>peer. Rv_Unregister namespace (rp_peer_id peer)) (dc_libp2p_rendezvous_peers cfg)"

text \<open>A listener at every configured relay, when relays may carry the data.\<close>

definition relay_listener :: "libp2p_codec \<Rightarrow> peer_id \<Rightarrow> string \<Rightarrow> swarm_command option" where
  "relay_listener lp local_peer raw =
     Option.bind (Option.bind (addr_parse lp raw) split_peer_addr)
       (\<lambda>(relay, addr). Some (Sw_Listen (addr_text lp (addr @ [Proto_P2p relay, Proto_P2pCircuit, Proto_P2p local_peer]))))"

definition maybe_enable_relay_listeners :: "libp2p_codec \<Rightarrow> peer_id \<Rightarrow> 'u discovery_config \<Rightarrow> swarm_command list" where
  "maybe_enable_relay_listeners lp local_peer cfg =
     (if dc_allow_relay_data_fallback cfg then List.map_filter (relay_listener lp local_peer) (dc_relay_peers cfg) else [])"

definition receiver_listens :: "libp2p_codec \<Rightarrow> peer_id \<Rightarrow> 'u discovery_config \<Rightarrow> swarm_command list" where
  "receiver_listens lp local_peer cfg =
     [Sw_Listen ''/ip4/0.0.0.0/tcp/0''] @
     (if dc_enable_quic cfg then [Sw_Listen ''/ip4/0.0.0.0/udp/0/quic-v1''] else []) @
     [Sw_Listen ''/ip4/0.0.0.0/udp/0/webrtc-direct''] @ apply_bootstrap lp cfg @
     maybe_enable_relay_listeners lp local_peer cfg @ dial_configured_rendezvous (dc_libp2p_rendezvous_peers cfg)"

record 'u receiver =
  rv_publication :: "'u publication"
  rv_sessions :: sessions
  rv_conn :: conn
  rv_responses :: "(peer_id \<times> nat \<times> wire_frame) list"

datatype receiver_event =
    Recv_Tick
  | Recv_Mapping "socket_addr list option"
  | Recv_Connected peer_id
  | Recv_Transfer transfer_event
  | Recv_Identified peer_id "multiaddr list"
  | Recv_Mdns "(peer_id \<times> multiaddr) list"
  | Recv_Relay bool
  | Recv_AddressChange
  | Recv_Other

definition receiver_side :: "publish_env \<Rightarrow> session_env \<Rightarrow> 'u libp2p_recv_options \<Rightarrow> p2p_side" where
  "receiver_side pe env lo =
     \<lparr>pp_env = env, pp_codec = pe_codec pe, pp_options = lr_options lo, pp_lookup_key = pe_key pe,
      pp_local_peer = pe_local_peer pe\<rparr>"

definition republish ::
  "publish_env \<Rightarrow> 'u libp2p_recv_options \<Rightarrow> surroundings \<Rightarrow> bool \<Rightarrow> 'u receiver \<Rightarrow> 'u receiver" where
  "republish pe lo sv force l =
     l\<lparr>rv_publication := spread_all (sv_network_ok sv) force
        (publish_receiver_descriptor pe sv lo (pn_mapped (rv_publication l))) (rv_publication l)\<rparr>"

definition instruct :: "swarm_command list \<Rightarrow> 'u receiver \<Rightarrow> 'u receiver" where
  "instruct cmds l = l\<lparr>rv_publication := command cmds (rv_publication l)\<rparr>"

definition serve :: "p2p_side \<Rightarrow> transfer_event \<Rightarrow> 'u receiver \<Rightarrow> 'u receiver \<times> p2p_outcome" where
  "serve side ev l =
     (case handle_transfer_event side ev (rv_sessions l) (rv_conn l) of
        (c, Inl e) \<Rightarrow> (l\<lparr>rv_conn := c\<rparr>, Stopped e)
      | (c, Inr (m, sent, result)) \<Rightarrow>
          (l\<lparr>rv_conn := c, rv_sessions := m, rv_responses := rv_responses l @ case_option [] (\<lambda>x. [x]) sent\<rparr>,
           case result of None \<Rightarrow> Waiting | Some r \<Rightarrow> Received r))"

fun receiver_step ::
  "publish_env \<Rightarrow> session_env \<Rightarrow> string \<Rightarrow> 'u libp2p_recv_options \<Rightarrow> surroundings \<Rightarrow> receiver_event \<Rightarrow> 'u receiver \<Rightarrow>
   'u receiver \<times> p2p_outcome" where
  "receiver_step pe env namespace lo sv Recv_Tick l = (republish pe lo sv True l, Waiting)"
| "receiver_step pe env namespace lo sv (Recv_Mapping None) l = (l, Waiting)"
| "receiver_step pe env namespace lo sv (Recv_Mapping (Some endpoints)) l =
     (republish pe lo sv False (l\<lparr>rv_publication := (rv_publication l)\<lparr>pn_mapped := endpoints\<rparr>\<rparr>), Waiting)"
| "receiver_step pe env namespace lo sv (Recv_Connected peer) l =
     (if peer \<in> rp_peer_id ` set (dc_libp2p_rendezvous_peers (lr_discovery lo)) then
        (instruct (register_receiver sv namespace (lr_discovery lo)) l, Waiting)
      else
        (instruct (register_receiver sv namespace (lr_discovery lo)) (republish pe lo sv False l), Waiting))"
| "receiver_step pe env namespace lo sv (Recv_Transfer ev) l = serve (receiver_side pe env lo) ev l"
| "receiver_step pe env namespace lo sv (Recv_Identified peer addrs) l =
     (republish pe lo sv False (instruct (map (Kad_AddAddress peer) addrs) l), Waiting)"
| "receiver_step pe env namespace lo sv (Recv_Mdns peers) l =
     (instruct (map (\<lambda>(p, a). Kad_AddAddress p a) peers) l, Waiting)"
| "receiver_step pe env namespace lo sv (Recv_Relay accepted) l =
     (if accepted then republish pe lo sv False l else l, Waiting)"
| "receiver_step pe env namespace lo sv Recv_AddressChange l =
     (instruct (register_receiver sv namespace (lr_discovery lo)) (republish pe lo sv False l), Waiting)"
| "receiver_step pe env namespace lo sv Recv_Other l = (l, Waiting)"

fun receiver_run ::
  "publish_env \<Rightarrow> session_env \<Rightarrow> string \<Rightarrow> 'u libp2p_recv_options \<Rightarrow> (surroundings \<times> receiver_event) list \<Rightarrow> 'u receiver \<Rightarrow>
   'u receiver \<times> p2p_outcome" where
  "receiver_run pe env namespace lo [] l = (l, Waiting)"
| "receiver_run pe env namespace lo ((sv, ev) # evs) l =
     (case receiver_step pe env namespace lo sv ev l of
        (l', Waiting) \<Rightarrow> receiver_run pe env namespace lo evs l'
      | (l', outcome) \<Rightarrow> (l', outcome))"

text \<open>
  The whole receiver: it announces itself, serves until its transfer is done, and then takes its
  registrations back. A lookup key whose namespace is too long is an error, as is a descriptor that
  cannot be encoded.
\<close>

definition receiver_started ::
  "publish_env \<Rightarrow> 'u url_api \<Rightarrow> string \<Rightarrow> 'u libp2p_recv_options \<Rightarrow> bool \<Rightarrow> socket_addr list \<Rightarrow> surroundings \<Rightarrow> fs \<Rightarrow>
   'u receiver option" where
  "receiver_started pe ua namespace lo worker mapped sv fs =
     (let opts = lr_options lo; cfg = lr_discovery lo;
          stage = StageChanged (Connecting (if dc_enable_quic cfg then Libp2pQuic else Libp2pDcutr))
      in map_option (\<lambda>p.
           \<lparr>rv_publication = command (register_receiver sv namespace cfg) p, rv_sessions = (\<lambda>_. None),
            rv_conn = \<lparr>cn_fs = fs, cn_in = [], cn_out = [],
              cn_events = [StageChanged Discovering, stage,
                Message ''listening on direct TCP, libp2p TCP/QUIC/WebRTC, public tunnel publishing, and relay fallback'']\<rparr>,
            rv_responses = []\<rparr>)
         (first_publication ua (ro_name opts) (ro_code opts) (dc_rendezvous cfg) worker mapped
            (receiver_listens (pe_codec pe) (pe_local_peer pe) cfg) (sv_network_ok sv)
            (publish_receiver_descriptor pe sv lo mapped)))"

definition receiver_finished ::
  "('u, 'w) client_env \<Rightarrow> string \<Rightarrow> 'u libp2p_recv_options \<Rightarrow> 'u receiver \<Rightarrow> 'w \<Rightarrow> 'u receiver \<times> 'w" where
  "receiver_finished ce namespace lo l w =
     (let l1 = l\<lparr>rv_conn := (rv_conn l)\<lparr>cn_events := cn_events (rv_conn l) @ [StageChanged Complete]\<rparr>\<rparr> in
      case guard_unregister ce (pn_guard (rv_publication l1)) w of
        (g, w') \<Rightarrow>
          (instruct (unregister_receiver namespace (lr_discovery lo))
             (l1\<lparr>rv_publication := (rv_publication l1)\<lparr>pn_guard := g\<rparr>\<rparr>), w'))"

definition recv_libp2p ::
  "publish_env \<Rightarrow> session_env \<Rightarrow> ('u, 'w) client_env \<Rightarrow> 'u libp2p_recv_options \<Rightarrow> bool \<Rightarrow> socket_addr list \<Rightarrow> surroundings \<Rightarrow>
   (surroundings \<times> receiver_event) list \<Rightarrow> fs \<Rightarrow> 'w \<Rightarrow> ('u receiver \<times> 'w \<times> p2p_outcome) option" where
  "recv_libp2p pe env ce lo worker mapped sv evs fs w =
     Option.bind (receiver_namespace (pe_key pe)) (\<lambda>namespace.
     Option.bind (receiver_started pe (ce_url ce) namespace lo worker mapped sv fs) (\<lambda>l.
       case receiver_run pe env namespace lo evs l of
         (l', Received r) \<Rightarrow>
           (case receiver_finished ce namespace lo l' w of (l'', w') \<Rightarrow> Some (l'', w', Received r))
       | (l', Stopped e) \<Rightarrow> Some (l', guard_drop ce True (pn_guard (rv_publication l')) w, Stopped e)
       | (l', Waiting) \<Rightarrow> Some (l', w, Waiting)))"


section \<open>One descriptor everywhere\<close>

fun put_record :: "swarm_command \<Rightarrow> bytes option" where
  "put_record (Kad_PutRecord key bs) = Some bs"
| "put_record _ = None"

text \<open>The record the DHT was last given, and the descriptor last queued for pkarr.\<close>

definition last_record :: "swarm_command list \<Rightarrow> bytes option" where
  "last_record cmds = (case rev (List.map_filter put_record cmds) of [] \<Rightarrow> None | bs # _ \<Rightarrow> Some bs)"

definition announces :: "publish_env \<Rightarrow> 'u publication \<Rightarrow> peer_descriptor \<Rightarrow> bool" where
  "announces pe p d \<longleftrightarrow>
     pe_descriptor_ser pe d \<noteq> None \<and> last_record (pn_commands p) = pe_descriptor_ser pe d \<and>
     (\<forall>qs. pn_pkarr p = Some qs \<longrightarrow> qs \<noteq> [] \<and> pq_descriptor (last qs) = d) \<and>
     pd_peer_id d = gd_peer_id (pn_guard p) \<and>
     (gd_sender (pn_guard p) \<longrightarrow> gd_task (pn_guard p) \<noteq> None \<longrightarrow> gd_channel (pn_guard p) = d)"

lemma last_record_append [simp]:
  "last_record (xs @ ys) = (case last_record ys of None \<Rightarrow> last_record xs | Some bs \<Rightarrow> Some bs)"
  by (auto simp: last_record_def List.map_filter_def split: list.splits)

lemma last_record_silent: "\<forall>c \<in> set cmds. put_record c = None \<Longrightarrow> last_record cmds = None"
  by (induction cmds) (auto simp: last_record_def List.map_filter_def)

lemma dht_publish_record:
  "dht_publish pe d = Some cmds \<Longrightarrow> last_record cmds = pe_descriptor_ser pe d \<and> pe_descriptor_ser pe d \<noteq> None"
  by (auto simp: dht_publish_def last_record_def List.map_filter_def split: option.splits)

lemma update_descriptor_same [simp]: "gd_peer_id (update_descriptor d g) = gd_peer_id g"
  by (simp add: update_descriptor_def)

lemma announces_spread:
  assumes "dht_publish pe d = Some cmds" "pd_peer_id d = gd_peer_id (pn_guard p)"
  shows "announces pe (spread net d force (command cmds p)) d"
  using assms dht_publish_record [OF assms(1)]
  by (auto simp: announces_def spread_def publish_pkarr_descriptor_def command_def update_descriptor_def)

lemma announces_command:
  "announces pe p d \<Longrightarrow> \<forall>c \<in> set cmds. put_record c = None \<Longrightarrow> announces pe (command cmds p) d"
  by (simp add: announces_def command_def last_record_silent)

lemma announces_mapped [simp]: "announces pe (p\<lparr>pn_mapped := es\<rparr>) d = announces pe p d"
  by (simp add: announces_def)

lemma announces_first:
  assumes "first_publication ua name hcode cfg worker mapped started net (map_option (\<lambda>cmds. (cmds, d)) (dht_publish pe d)) = Some p"
    and "\<forall>c \<in> set started. put_record c = None"
  shows "announces pe p d \<and> gd_peer_id (pn_guard p) = pd_peer_id d \<and> pn_mapped p = mapped"
proof -
  from assms(1) obtain cmds where c: "dht_publish pe d = Some cmds"
    by (auto simp: first_publication_def)
  with assms dht_publish_record [OF c] show ?thesis
    by (auto simp: first_publication_def announces_def guard_new_def publish_pkarr_descriptor_def last_record_silent)
qed

lemma described_peer [simp]: "pd_peer_id (described pe sv bind allow extra pub tor i2p) = peer_text (pe_codec pe) (pe_local_peer pe)"
  by (simp add: described_def make_peer_descriptor_def)

text \<open>
  A publisher of the same process is a view of it: what it announces is what \<open>describe\<close> says of its
  surroundings and its mapped endpoints.
\<close>

definition publish_as ::
  "publish_env \<Rightarrow> (surroundings \<Rightarrow> socket_addr list \<Rightarrow> peer_descriptor) \<Rightarrow> surroundings \<Rightarrow> socket_addr list \<Rightarrow>
   (swarm_command list \<times> peer_descriptor) option" where
  "publish_as pe describe sv es = map_option (\<lambda>cmds. (cmds, describe sv es)) (dht_publish pe (describe sv es))"

definition current_as ::
  "publish_env \<Rightarrow> (surroundings \<Rightarrow> socket_addr list \<Rightarrow> peer_descriptor) \<Rightarrow> surroundings set \<Rightarrow> 'u publication \<Rightarrow> bool" where
  "current_as pe describe seen p \<longleftrightarrow>
     gd_peer_id (pn_guard p) = peer_text (pe_codec pe) (pe_local_peer pe) \<and>
     (\<exists>sv \<in> seen. \<exists>es. announces pe p (describe sv es))"

locale announcer =
  fixes pe :: publish_env and describe :: "surroundings \<Rightarrow> socket_addr list \<Rightarrow> peer_descriptor"
  assumes own_peer: "pd_peer_id (describe sv es) = peer_text (pe_codec pe) (pe_local_peer pe)"
begin

lemma current_mono: "current_as pe describe seen p \<Longrightarrow> seen \<subseteq> seen' \<Longrightarrow> current_as pe describe seen' p"
  by (auto simp: current_as_def)

lemma current_command:
  "current_as pe describe seen p \<Longrightarrow> \<forall>c \<in> set cmds. put_record c = None \<Longrightarrow> current_as pe describe seen (command cmds p)"
  unfolding current_as_def using announces_command by (fastforce simp: command_def)

lemma current_mapped: "current_as pe describe seen p \<Longrightarrow> current_as pe describe seen (p\<lparr>pn_mapped := es\<rparr>)"
  by (simp add: current_as_def)

text \<open>A publication renews the announcement, or, when it cannot be encoded, leaves it.\<close>

lemma publish_renews:
  assumes "current_as pe describe seen p"
  shows "current_as pe describe (insert sv seen) (spread_all net force (publish_as pe describe sv es) p) \<and>
    (publish_as pe describe sv es \<noteq> None \<longrightarrow> announces pe (spread_all net force (publish_as pe describe sv es) p) (describe sv es)) \<and>
    pn_mapped (spread_all net force (publish_as pe describe sv es) p) = pn_mapped p"
proof (cases "dht_publish pe (describe sv es)")
  case None
  with assms show ?thesis by (auto simp: publish_as_def spread_all_def intro: current_mono)
next
  case (Some cmds)
  have peer: "pd_peer_id (describe sv es) = gd_peer_id (pn_guard p)"
    using assms by (simp add: current_as_def own_peer)
  from announces_spread [OF Some peer, of net force] have
      "announces pe (spread_all net force (publish_as pe describe sv es) p) (describe sv es)"
    using Some by (simp add: publish_as_def spread_all_def)
  moreover have "gd_peer_id (pn_guard (spread_all net force (publish_as pe describe sv es) p)) = gd_peer_id (pn_guard p)"
      "pn_mapped (spread_all net force (publish_as pe describe sv es) p) = pn_mapped p"
    using Some by (simp_all add: publish_as_def spread_all_def spread_def publish_pkarr_descriptor_def command_def)
  ultimately show ?thesis using assms by (auto simp: current_as_def)
qed

lemma first_current:
  assumes "first_publication ua name hcode cfg worker mapped started net (publish_as pe describe sv mapped) = Some p"
    and "\<forall>c \<in> set started. put_record c = None"
  shows "current_as pe describe {sv} p"
  using announces_first [of ua name hcode cfg worker mapped started net "describe sv mapped" pe p] assms own_peer
  by (auto simp: publish_as_def current_as_def)

end


text \<open>Both loops announce through this interface.\<close>

definition receiver_described :: "publish_env \<Rightarrow> 'u libp2p_recv_options \<Rightarrow> surroundings \<Rightarrow> socket_addr list \<Rightarrow> peer_descriptor" where
  "receiver_described pe lo sv es =
     described pe sv (ro_bind (lr_options lo)) (dc_allow_loopback_endpoints (lr_discovery lo)) es
       (lr_public lo) (lr_tor lo) (lr_i2p lo)"

definition publisher_described :: "publish_env \<Rightarrow> 'u discovery_config \<Rightarrow> socket_addr \<Rightarrow> surroundings \<Rightarrow> socket_addr list \<Rightarrow> peer_descriptor" where
  "publisher_described pe cfg bind sv es = described pe sv bind (dc_allow_loopback_endpoints cfg) es [] [] []"

interpretation ra: announcer pe "receiver_described pe lo" for pe lo
  by unfold_locales (simp add: receiver_described_def)

interpretation pa: announcer pe "publisher_described pe cfg bind" for pe cfg bind
  by unfold_locales (simp add: publisher_described_def)

lemma receiver_publishes: "publish_receiver_descriptor pe sv lo es = publish_as pe (receiver_described pe lo) sv es"
  by (simp add: publish_receiver_descriptor_def publish_as_def receiver_described_def Let_def)

lemma publisher_publishes:
  "publish_descriptor pe sv bind es (dc_allow_loopback_endpoints cfg) = publish_as pe (publisher_described pe cfg bind) sv es"
  by (simp add: publish_descriptor_def publish_as_def publisher_described_def Let_def)

lemma put_record_Kad [simp]: "put_record \<circ> Kad_AddAddress peer = (\<lambda>_. None)"
  by (simp add: fun_eq_iff)

lemma bootstrap_silent: "\<forall>c \<in> set (apply_bootstrap lp cfg). put_record c = None"
  by (auto simp: apply_bootstrap_def bootstrap_commands_def split: option.splits prod.splits)

lemma register_silent: "\<forall>c \<in> set (register_receiver sv namespace cfg). put_record c = None"
  by (auto simp: register_receiver_def refresh_external_addresses_def)

lemma relay_silent: "relay_listener lp local_peer raw = Some c \<Longrightarrow> put_record c = None"
  by (auto simp: relay_listener_def split: Option.bind_splits prod.splits)

lemma listens_silent: "\<forall>c \<in> set (receiver_listens lp local_peer cfg). put_record c = None"
  using bootstrap_silent [of lp cfg]
  by (auto simp: receiver_listens_def maybe_enable_relay_listeners_def in_map_filter dial_configured_rendezvous_def
      dest: relay_silent)

lemma publish_event_silent: "handle_publish_swarm_event se e = (cmds, changed) \<Longrightarrow> \<forall>c \<in> set cmds. put_record c = None"
  by (cases e) (auto split: prod.splits)

text \<open>The receiver's publications.\<close>

definition seen_by :: "surroundings \<Rightarrow> (surroundings \<times> 'e) list \<Rightarrow> surroundings set" where
  "seen_by sv evs = insert sv (set (map fst evs))"

lemma republish_current:
  assumes "current_as pe (receiver_described pe lo) seen (rv_publication l)"
  shows "current_as pe (receiver_described pe lo) (insert sv seen) (rv_publication (republish pe lo sv force l))"
  using ra.publish_renews [OF assms] by (simp add: republish_def receiver_publishes)

lemma instruct_current:
  "current_as pe (receiver_described pe lo) seen (rv_publication l) \<Longrightarrow> \<forall>c \<in> set cmds. put_record c = None \<Longrightarrow>
   current_as pe (receiver_described pe lo) seen (rv_publication (instruct cmds l))"
  by (simp add: instruct_def ra.current_command)

lemma serve_publication [simp]: "serve side ev l = (l', out) \<Longrightarrow> rv_publication l' = rv_publication l"
  by (auto simp: serve_def split: prod.splits sum.splits)

lemma receiver_step_current:
  assumes "receiver_step pe env namespace lo sv ev l = (l', out)" "current_as pe (receiver_described pe lo) seen (rv_publication l)"
  shows "current_as pe (receiver_described pe lo) (insert sv seen) (rv_publication l')"
proof -
  note more = ra.current_mono [OF assms(2) subset_insertI [of seen sv]]
  show ?thesis
  proof (cases ev)
    case (Recv_Mapping es)
    have "current_as pe (receiver_described pe lo) seen ((rv_publication l)\<lparr>pn_mapped := e\<rparr>)" for e
      by (rule ra.current_mapped [OF assms(2)])
    with Recv_Mapping assms(1) more show ?thesis
      by (cases es) (auto intro!: republish_current)
  next
    case (Recv_Transfer e)
    with assms(1) more show ?thesis by auto
  next
    case (Recv_Identified peer addrs)
    have "current_as pe (receiver_described pe lo) seen (rv_publication (instruct (map (Kad_AddAddress peer) addrs) l))"
      by (rule instruct_current [OF assms(2)]) auto
    with Recv_Identified assms(1) show ?thesis by (auto intro!: republish_current)
  next
    case (Recv_Mdns peers)
    have "current_as pe (receiver_described pe lo) (insert sv seen) (rv_publication (instruct (map (\<lambda>(p, a). Kad_AddAddress p a) peers) l))"
      by (rule instruct_current [OF more]) auto
    with Recv_Mdns assms(1) show ?thesis by auto
  qed (use assms more in \<open>auto intro!: republish_current instruct_current register_silent split: if_splits\<close>)
qed

lemma receiver_run_current:
  assumes "receiver_run pe env namespace lo evs l = (l', out)" "current_as pe (receiver_described pe lo) seen (rv_publication l)"
  shows "current_as pe (receiver_described pe lo) (seen \<union> set (map fst evs)) (rv_publication l')"
  using assms
proof (induction pe env namespace lo evs l arbitrary: seen rule: receiver_run.induct)
  case (1 pe env namespace lo l)
  then show ?case by simp
next
  case (2 pe env namespace lo sv ev evs l)
  obtain l1 o1 where s: "receiver_step pe env namespace lo sv ev l = (l1, o1)" by fastforce
  note c = receiver_step_current [OF s "2.prems"(2)]
  show ?case
  proof (cases o1)
    case Waiting
    with "2.prems"(1) s have "receiver_run pe env namespace lo evs l1 = (l', out)" by simp
    from "2.IH" [OF s [symmetric] Waiting this c] show ?thesis by simp
  qed (use "2.prems"(1) s c in \<open>auto intro: ra.current_mono\<close>)
qed


lemma receiver_started_current:
  assumes "receiver_started pe ua namespace lo worker mapped sv fs = Some l"
  shows "current_as pe (receiver_described pe lo) {sv} (rv_publication l) \<and> rv_sessions l = (\<lambda>_. None) \<and> cn_fs (rv_conn l) = fs"
proof -
  from assms obtain p where p: "first_publication ua (ro_name (lr_options lo)) (ro_code (lr_options lo))
        (dc_rendezvous (lr_discovery lo)) worker mapped
        (receiver_listens (pe_codec pe) (pe_local_peer pe) (lr_discovery lo)) (sv_network_ok sv)
        (publish_as pe (receiver_described pe lo) sv mapped) = Some p"
    and l: "rv_publication l = command (register_receiver sv namespace (lr_discovery lo)) p"
      "rv_sessions l = (\<lambda>_. None)" "cn_fs (rv_conn l) = fs"
    by (auto simp: receiver_started_def Let_def receiver_publishes)
  from ra.first_current [OF p listens_silent] have "current_as pe (receiver_described pe lo) {sv} p" .
  from ra.current_command [OF this register_silent] l show ?thesis by simp
qed

text \<open>The events after which the receiver describes itself anew.\<close>

fun republishes :: "'u discovery_config \<Rightarrow> receiver_event \<Rightarrow> bool" where
  "republishes cfg Recv_Tick = True"
| "republishes cfg (Recv_Mapping es) = (es \<noteq> None)"
| "republishes cfg (Recv_Connected peer) = (peer \<notin> rp_peer_id ` set (dc_libp2p_rendezvous_peers cfg))"
| "republishes cfg (Recv_Transfer ev) = False"
| "republishes cfg (Recv_Identified peer addrs) = True"
| "republishes cfg (Recv_Mdns peers) = False"
| "republishes cfg (Recv_Relay accepted) = accepted"
| "republishes cfg Recv_AddressChange = True"
| "republishes cfg Recv_Other = False"

lemma announces_instruct:
  "announces pe (rv_publication l) d \<Longrightarrow> \<forall>c \<in> set cmds. put_record c = None \<Longrightarrow>
   announces pe (rv_publication (instruct cmds l)) d"
  by (simp add: instruct_def announces_command)

lemma mapped_instruct [simp]: "pn_mapped (rv_publication (instruct cmds l)) = pn_mapped (rv_publication l)"
  by (simp add: instruct_def command_def)

lemma republish_announces:
  assumes "current_as pe (receiver_described pe lo) seen (rv_publication l)"
    and "pe_descriptor_ser pe (receiver_described pe lo sv (pn_mapped (rv_publication (republish pe lo sv force l)))) \<noteq> None"
  shows "announces pe (rv_publication (republish pe lo sv force l))
    (receiver_described pe lo sv (pn_mapped (rv_publication (republish pe lo sv force l))))"
proof -
  let ?es = "pn_mapped (rv_publication l)"
  have r: "rv_publication (republish pe lo sv force l) =
      spread_all (sv_network_ok sv) force (publish_as pe (receiver_described pe lo) sv ?es) (rv_publication l)"
    by (simp add: republish_def receiver_publishes)
  note renew = ra.publish_renews [OF assms(1), of sv "sv_network_ok sv" force ?es, folded r]
  with assms(2) show ?thesis by (auto simp: publish_as_def dht_publish_def)
qed

lemma receiver_step_fresh:
  assumes "receiver_step pe env namespace lo sv ev l = (l', out)"
    and "current_as pe (receiver_described pe lo) seen (rv_publication l)" "republishes (lr_discovery lo) ev"
    and "pe_descriptor_ser pe (receiver_described pe lo sv (pn_mapped (rv_publication l'))) \<noteq> None"
  shows "announces pe (rv_publication l') (receiver_described pe lo sv (pn_mapped (rv_publication l')))"
proof (cases ev)
  case (Recv_Mapping es)
  have "current_as pe (receiver_described pe lo) seen (rv_publication (l\<lparr>rv_publication := (rv_publication l)\<lparr>pn_mapped := e\<rparr>\<rparr>))" for e
    using ra.current_mapped [OF assms(2)] by simp
  from republish_announces [OF this] Recv_Mapping assms show ?thesis by auto
next
  case (Recv_Identified peer addrs)
  have "current_as pe (receiver_described pe lo) seen (rv_publication (instruct (map (Kad_AddAddress peer) addrs) l))"
    by (rule instruct_current [OF assms(2)]) auto
  from republish_announces [OF this] Recv_Identified assms show ?thesis by auto
qed (use assms republish_announces [OF assms(2)] in \<open>auto intro!: announces_instruct register_silent split: if_splits\<close>)

text \<open>
  C26. What a libp2p receiver announces of itself is one descriptor, the same in the DHT, in the
  queue of the pkarr worker and with the task that keeps it registered at the rendezvous services
  (while that runs), and it describes the receiver as it was when it last published; and it has
  just published, with the endpoints now mapped at the router, after every event that can change
  what it is reachable at, unless the new descriptor cannot be encoded.
\<close>

theorem one_descriptor_everywhere:
  assumes "receiver_started pe ua namespace lo worker mapped sv0 fs = Some l0"
    and "receiver_run pe env namespace lo evs l0 = (l, Waiting)"
    and "receiver_step pe env namespace lo sv ev l = (l', out)"
  shows "(\<exists>sv' \<in> seen_by sv0 (evs @ [(sv, ev)]). \<exists>es. announces pe (rv_publication l') (receiver_described pe lo sv' es)) \<and>
    (republishes (lr_discovery lo) ev \<and>
       pe_descriptor_ser pe (receiver_described pe lo sv (pn_mapped (rv_publication l'))) \<noteq> None \<longrightarrow>
     announces pe (rv_publication l') (receiver_described pe lo sv (pn_mapped (rv_publication l'))))"
proof -
  have "current_as pe (receiver_described pe lo) ({sv0} \<union> set (map fst evs)) (rv_publication l)"
    using receiver_run_current [OF assms(2)] receiver_started_current [OF assms(1)] by blast
  note c = receiver_step_current [OF assms(3) this] receiver_step_fresh [OF assms(3) this]
  have "insert sv ({sv0} \<union> set (map fst evs)) = seen_by sv0 (evs @ [(sv, ev)])"
    by (auto simp: seen_by_def)
  with c show ?thesis by (auto simp: current_as_def)
qed

section \<open>What a peer can do to the receiver\<close>

lemma serve_holds:
  assumes "serve side ev l = (l', out)" "sessions_ok side (rv_sessions l)"
  shows "sessions_ok side (rv_sessions l') \<and>
    (agree_outside (destination side) (cn_fs (rv_conn l)) (cn_fs (rv_conn l')) \<or> trusted side) \<and>
    (\<forall>r. out = Received r \<longrightarrow> trusted side)"
proof -
  obtain c x where h: "handle_transfer_event side ev (rv_sessions l) (rv_conn l) = (c, x)" by fastforce
  with handle_transfer_event_holds [OF assms(2), of ev] have
      a: "agree_outside (destination side) (cn_fs (rv_conn l)) (cn_fs c) \<or> trusted side"
    and p: "\<And>m sent r. x = Inr (m, sent, r) \<Longrightarrow> sessions_ok side m \<and> (r \<noteq> None \<longrightarrow> trusted side)"
    unfolding holds_def by (blast, fastforce)
  show ?thesis
  proof (cases x)
    case (Inl e)
    with assms h a show ?thesis by (auto simp: serve_def)
  next
    case (Inr y)
    obtain m sent r where y: "y = (m, sent, r)" by (cases y)
    from p [OF Inr [unfolded y]] assms(1) h a Inr y show ?thesis by (auto simp: serve_def split: option.splits)
  qed
qed

definition receiver_ok :: "p2p_side \<Rightarrow> fs \<Rightarrow> 'u receiver \<Rightarrow> bool" where
  "receiver_ok side fs l \<longleftrightarrow>
     sessions_ok side (rv_sessions l) \<and> (agree_outside (destination side) fs (cn_fs (rv_conn l)) \<or> trusted side)"

lemma receiver_step_ok:
  assumes "receiver_step pe env namespace lo sv ev l = (l', out)" "receiver_ok (receiver_side pe env lo) fs l"
  shows "receiver_ok (receiver_side pe env lo) fs l' \<and> (\<forall>r. out = Received r \<longrightarrow> trusted (receiver_side pe env lo))"
proof -
  have keep: "receiver_ok side fs (republish pe lo sv force x) = receiver_ok side fs x"
      "receiver_ok side fs (instruct cmds x) = receiver_ok side fs x"
      "receiver_ok side fs (x\<lparr>rv_publication := p\<rparr>) = receiver_ok side fs x" for side force cmds p and x :: "'a receiver"
    by (simp_all add: receiver_ok_def republish_def instruct_def)
  show ?thesis
  proof (cases ev)
    case (Recv_Transfer e)
    with assms serve_holds [of "receiver_side pe env lo" e l l' out] show ?thesis
      by (auto simp: receiver_ok_def intro: agree_outside_trans)
  next
    case (Recv_Mapping es)
    with assms show ?thesis by (cases es) (auto simp: keep)
  qed (use assms in \<open>auto simp: keep split: if_splits\<close>)
qed

lemma receiver_run_ok:
  "receiver_run pe env namespace lo evs l = (l', out) \<Longrightarrow> receiver_ok (receiver_side pe env lo) fs l \<Longrightarrow>
   receiver_ok (receiver_side pe env lo) fs l' \<and> (\<forall>r. out = Received r \<longrightarrow> trusted (receiver_side pe env lo))"
proof (induction pe env namespace lo evs l rule: receiver_run.induct)
  case (1 pe env namespace lo l)
  then show ?case by auto
next
  case (2 pe env namespace lo sv ev evs l)
  obtain l1 o1 where s: "receiver_step pe env namespace lo sv ev l = (l1, o1)" by fastforce
  note ok = receiver_step_ok [OF s "2.prems"(2)]
  show ?case
  proof (cases o1)
    case Waiting
    with "2.prems"(1) s have "receiver_run pe env namespace lo evs l1 = (l', out)" by simp
    with "2.IH" [OF s [symmetric] Waiting] ok show ?thesis by blast
  qed (use "2.prems"(1) s ok in auto)
qed


lemma recv_libp2p_ok:
  assumes "recv_libp2p pe env ce lo worker mapped sv evs fs w = Some (l, w', out)"
  shows "receiver_ok (receiver_side pe env lo) fs l \<and> (\<forall>r. out = Received r \<longrightarrow> trusted (receiver_side pe env lo))"
proof -
  from assms obtain namespace l0 where start: "receiver_started pe (ce_url ce) namespace lo worker mapped sv fs = Some l0"
    and rest: "(case receiver_run pe env namespace lo evs l0 of
         (l', Received r) \<Rightarrow> (case receiver_finished ce namespace lo l' w of (l'', w') \<Rightarrow> Some (l'', w', Received r))
       | (l', Stopped e) \<Rightarrow> Some (l', guard_drop ce True (pn_guard (rv_publication l')) w, Stopped e)
       | (l', Waiting) \<Rightarrow> Some (l', w, Waiting)) = Some (l, w', out)"
    unfolding recv_libp2p_def by (auto simp: bind_eq_Some_conv)
  obtain l1 o1 where run: "receiver_run pe env namespace lo evs l0 = (l1, o1)" by fastforce
  have "receiver_ok (receiver_side pe env lo) fs l0"
    using receiver_started_current [OF start] by (simp add: receiver_ok_def no_sessions_ok)
  note ok = receiver_run_ok [OF run this]
  have fin: "receiver_finished ce namespace lo x w = (y, v) \<Longrightarrow> receiver_ok side fs y = receiver_ok side fs x" for x y v side
    by (auto simp: receiver_finished_def Let_def receiver_ok_def instruct_def split: prod.splits)
  show ?thesis
    using rest ok fin by (cases o1) (auto simp: run split: prod.splits)
qed


text \<open>
  C31. A receiver's sessions are well typed at all times: before the login is finished a session has
  the login's state and the handshake's and no key; afterwards it has a key and neither; a
  compression, which is the announced one, only after a key; and a result or failure to report only
  after a compression.
\<close>

theorem libp2p_sessions_typed:
  assumes "recv_libp2p pe env ce lo worker mapped sv evs fs w = Some (l, w', out)"
    and "rv_sessions l peer = Some s"
  shows "(case ls_aead s of
      None \<Rightarrow> (\<exists>st hs. ls_opaque_server s = Some st \<and> ls_server_handshake s = Some hs) \<and>
        ls_expected_sequence s = 0 \<and> ls_compression s = None
    | Some a \<Rightarrow> ls_opaque_server s = None \<and> ls_server_handshake s = None) \<and>
    (case ls_compression s of
      None \<Rightarrow> ls_pending_result s = None \<and> ls_pending_error s = None
    | Some cmp \<Rightarrow> cmp = td_compression (ls_descriptor s))"
proof -
  have "session_typed s"
    using recv_libp2p_ok [OF assms(1)] assms(2) by (auto simp: receiver_ok_def sessions_ok_def session_ok_def)
  then show ?thesis unfolding session_typed_def by (cases "ls_aead s"; cases "ls_compression s") auto
qed

text \<open>
  C32. One bad request stops the receiver: a frame of the second or third flight from a peer that has
  no session, or a login finished with the wrong code, ends the whole receiver with an error, whatever
  other sessions are under way. (The accept loops of the other transports go on after a failed
  connection.)
\<close>

theorem bad_request_stops_receiver:
  assumes "(rv_sessions l peer = None \<and> (\<exists>fin kem x. f = ClientFinish fin kem \<or> f = Secure x) \<and> e = Sess_NotInitialized) \<or>
    (\<exists>s st hs fin kem. rv_sessions l peer = Some s \<and> ls_opaque_server s = Some st \<and> ls_server_handshake s = Some hs \<and>
       f = ClientFinish fin kem \<and> opq_server_finish (env_opaque env) st fin = None \<and> e = Sess_Opaque)"
  shows "receiver_run pe env namespace lo ((sv, Recv_Transfer (Request_In peer rid f dr)) # evs) l =
    (l, Stopped (Plain e))"
proof -
  have same: "l\<lparr>rv_conn := rv_conn l\<rparr> = l" by simp
  from assms have "serve (receiver_side pe env lo) (Request_In peer rid f dr) l = (l, Stopped (Plain e))"
    by (elim disjE exE conjE)
      (simp_all add: serve_def with_session_def p2p_finish_def s_bind_def s_fail_def s_from_def receiver_side_def same)
  then show ?thesis by (simp only: receiver_run.simps receiver_step.simps prod.case p2p_outcome.case)
qed

text \<open>A run of transfer events alone is that of the sessions.\<close>

lemma run_transfers:
  "receiver_run pe env namespace lo (map (\<lambda>e. (sv, Recv_Transfer e)) evs) l =
     (case serve_events (receiver_side pe env lo) evs (rv_sessions l) (rv_conn l) of
        (c, m, out, res) \<Rightarrow>
          (l\<lparr>rv_conn := c, rv_sessions := m, rv_responses := rv_responses l @ out\<rparr>, res))"
proof (induction evs arbitrary: l)
  case Nil
  then show ?case by simp
next
  case (Cons ev evs)
  obtain c x where h: "handle_transfer_event (receiver_side pe env lo) ev (rv_sessions l) (rv_conn l) = (c, x)" by fastforce
  show ?case
  proof (cases x)
    case (Inl e)
    with h show ?thesis by (simp add: serve_def)
  next
    case (Inr y)
    obtain m sent r where y: "y = (m, sent, r)" by (cases y)
    obtain c' m' out res where s: "serve_events (receiver_side pe env lo) evs m c = (c', m', out, res)"
      by (metis prod_cases4)
    show ?thesis
      using h Inr y s Cons.IH [of "l\<lparr>rv_conn := c, rv_sessions := m, rv_responses := rv_responses l @ case_option [] (\<lambda>x. [x]) sent\<rparr>"]
      by (cases r) (simp_all add: serve_def)
  qed
qed


section \<open>A concrete receiver\<close>

definition p2p_env :: publish_env where
  "p2p_env = \<lparr>pe_codec = bare_codec, pe_local_peer = [1], pe_key = LookupKey [], pe_descriptor_ser = \<lambda>_. Some [5]\<rparr>"

definition p2p_options :: "nat libp2p_recv_options" where
  "p2p_options = \<lparr>lr_options = run_options,
     lr_discovery = default_discovery_config \<lparr>cv_codec = bare_codec, cv_ice_json = \<lambda>_. None, cv_mac = \<lambda>_ _. [],
       cv_now_secs = 0, cv_rendezvous = disabled_config, cv_env = \<lambda>_. None\<rparr>,
     lr_public = [], lr_tor = [], lr_i2p = []\<rparr>"

definition p2p_here :: surroundings where
  "p2p_here = \<lparr>sv_now = 9, sv_interfaces = [], sv_listeners = [], sv_external = [], sv_network_ok = True\<rparr>"

definition p2p_draws :: draws where
  "p2p_draws = \<lparr>dr_transfer = TransferId [1], dr_x25519_secret = [], dr_kem_secret = [], dr_now = 0\<rparr>"

definition p2p_transfer :: "transfer_event list" where
  "p2p_transfer = map (\<lambda>f. Request_In [2] 1 f p2p_draws)
     [ClientIntro protocol_version None run_descriptor [] \<lparr>ch_x25519_public = []\<rparr>,
      ClientFinish [] \<lparr>ck_ml_kem_ciphertext = []\<rparr>, Secure (run_chunk 0 [0]), Secure (run_chunk 1 [1]),
      Secure (run_chunk 2 [2])] @ [Response_Sent [2] 1]"

definition p2p_side_run :: p2p_side where
  "p2p_side_run = \<lparr>pp_env = run_env, pp_codec = bare_codec, pp_options = run_options, pp_lookup_key = LookupKey [],
     pp_local_peer = [1]\<rparr>"

abbreviation p2p_serves where
  "p2p_serves n ini \<equiv> serve_events p2p_side_run (take n p2p_transfer) (\<lambda>_. None)
     \<lparr>cn_fs = [], cn_in = [], cn_out = [], cn_events = ini\<rparr>"

lemma p2p_serves_result:
  "(case p2p_serves 6 ini of (c, m, out, res) \<Rightarrow> map_of (cn_fs c) [Normal ''in'', Normal ''d''] = Some DirN)"
  by code_simp

lemma p2p_serves_login: "(case p2p_serves 1 ini of (c, m, out, res) \<Rightarrow> (case m [2] of None \<Rightarrow> False | Some s \<Rightarrow> ls_aead s = None))"
  by code_simp

lemma p2p_side_run_is: "receiver_side p2p_env run_env p2p_options = p2p_side_run"
  by (simp add: receiver_side_def p2p_env_def p2p_options_def p2p_side_run_def)

lemma p2p_starts:
  "\<exists>l ini. receiver_started p2p_env (ce_url idle_env) namespace p2p_options True [] p2p_here [] = Some l \<and>
     rv_sessions l = (\<lambda>_. None) \<and> rv_conn l = \<lparr>cn_fs = [], cn_in = [], cn_out = [], cn_events = ini\<rparr>"
  by (simp add: receiver_started_def first_publication_def publish_receiver_descriptor_def dht_publish_def p2p_env_def Let_def)

text \<open>The whole receiver on the first events of that transfer.\<close>

lemma p2p_runs:
  "\<exists>ini l w'. recv_libp2p p2p_env run_env idle_env p2p_options True [] p2p_here
       (map (\<lambda>e. (p2p_here, Recv_Transfer e)) (take n p2p_transfer)) [] 0 = Some (l, w', snd (snd (snd (p2p_serves n ini)))) \<and>
     cn_fs (rv_conn l) = cn_fs (fst (p2p_serves n ini)) \<and> rv_sessions l = fst (snd (p2p_serves n ini))"
proof -
  obtain namespace where ns: "receiver_namespace (pe_key p2p_env) = Some namespace"
    by (simp add: receiver_namespace_def p2p_env_def lookup_key_hex_def)
  from p2p_starts obtain l0 ini where l0: "receiver_started p2p_env (ce_url idle_env) namespace p2p_options True [] p2p_here [] = Some l0"
      "rv_sessions l0 = (\<lambda>_. None)" "rv_conn l0 = \<lparr>cn_fs = [], cn_in = [], cn_out = [], cn_events = ini\<rparr>"
    by blast
  obtain c m out res where s: "p2p_serves n ini = (c, m, out, res)" by (metis prod_cases4)
  have run: "receiver_run p2p_env run_env namespace p2p_options
      (map (\<lambda>e. (p2p_here, Recv_Transfer e)) (take n p2p_transfer)) l0 =
      (l0\<lparr>rv_conn := c, rv_sessions := m, rv_responses := rv_responses l0 @ out\<rparr>, res)"
    unfolding run_transfers p2p_side_run_is l0(2,3) s by simp
  have "\<exists>l w'. recv_libp2p p2p_env run_env idle_env p2p_options True [] p2p_here
       (map (\<lambda>e. (p2p_here, Recv_Transfer e)) (take n p2p_transfer)) [] 0 = Some (l, w', res) \<and>
      cn_fs (rv_conn l) = cn_fs c \<and> rv_sessions l = m"
    unfolding recv_libp2p_def ns l0(1) run Option.bind.simps
    by (cases res) (simp_all add: receiver_finished_def Let_def instruct_def split: prod.split)
  with s show ?thesis by (metis fst_conv snd_conv)
qed


theorem libp2p_sessions_typed_witness:
  "\<exists>ini s. fst (snd (p2p_serves 1 ini)) [2] = Some s \<and> ls_opaque_server s \<noteq> None \<and> ls_server_handshake s \<noteq> None"
proof -
  from p2p_runs [of 1] obtain ini l w' where run: "recv_libp2p p2p_env run_env idle_env p2p_options True [] p2p_here
       (map (\<lambda>e. (p2p_here, Recv_Transfer e)) (take 1 p2p_transfer)) [] 0 = Some (l, w', snd (snd (snd (p2p_serves 1 ini))))"
    and ss: "rv_sessions l = fst (snd (p2p_serves 1 ini))" by blast
  from p2p_serves_login [of ini] obtain s where s: "fst (snd (p2p_serves 1 ini)) [2] = Some s" "ls_aead s = None"
    by (auto simp: case_prod_beta split: option.splits)
  then have "rv_sessions l [2] = Some s" by (simp add: ss)
  from libp2p_sessions_typed [OF run this] s show ?thesis by auto
qed

theorem bad_request_stops_receiver_witness:
  "\<exists>l. receiver_run p2p_env run_env [] p2p_options [(p2p_here, Recv_Transfer (Request_In [2] 1
      (Secure (run_chunk 0 [0])) p2p_draws))] l = (l, Stopped (Plain Sess_NotInitialized))"
proof -
  from p2p_starts [of "[]"] obtain l ini where
      "receiver_started p2p_env (ce_url idle_env) [] p2p_options True [] p2p_here [] = Some l" "rv_sessions l = (\<lambda>_. None)"
    by blast
  then have "rv_sessions l [2] = None" by simp
  with bad_request_stops_receiver [where l = l and peer = "[2]" and f = "Secure (run_chunk 0 [0])" and e = Sess_NotInitialized
      and evs = "[]"] show ?thesis by blast
qed

theorem one_descriptor_everywhere_witness:
  "\<exists>l' :: nat receiver. announces p2p_env (rv_publication l') (receiver_described p2p_env p2p_options p2p_here
      (pn_mapped (rv_publication l')))"
proof -
  from p2p_starts [of "[]"] obtain l where
      l: "receiver_started p2p_env (ce_url idle_env) [] p2p_options True [] p2p_here [] = Some l" by blast
  have run: "receiver_run p2p_env run_env [] p2p_options [] l = (l, Waiting)" by simp
  obtain l' out where step: "receiver_step p2p_env run_env [] p2p_options p2p_here Recv_Tick l = (l', out)" by fastforce
  have "announces p2p_env (rv_publication l') (receiver_described p2p_env p2p_options p2p_here (pn_mapped (rv_publication l')))"
    by (rule mp [OF conjunct2 [OF one_descriptor_everywhere [OF l run step]]]) (simp add: p2p_env_def)
  then show ?thesis by (rule exI)
qed

end
