(* ===== verification/Libp2p_Send.thy ===== *)
theory Libp2p_Send
  imports Libp2p_Receive
begin

text \<open>
  The sender over libp2p (\<open>peerline-net/src/libp2p_transfer/sender.rs\<close>): every frame is a request
  that is answered before the next is sent. The sender is written over the round trip it makes,
  which works on a state of its own; \<open>request_round_trip\<close>, the one the program uses, looks for the
  answer among the events the swarm delivers.
\<close>

section \<open>A round trip\<close>

datatype sender_event =
    Got_Response peer_id nat wire_frame
  | Got_Failure peer_id nat
  | Got_Other

record p2p_client =
  pc_arrivals :: "sender_event list"
  pc_next :: nat
  pc_requests :: "(nat \<times> peer_id \<times> multiaddr list \<times> wire_frame) list"

text \<open>
  The events up to the answer are dropped, whatever they are; those that never come are a timeout.
\<close>

fun await_response :: "peer_id \<Rightarrow> nat \<Rightarrow> sender_event list \<Rightarrow> sender_event list \<times> (transfer_error + wire_frame)" where
  "await_response peer rid [] = ([], Inl (Plain Sess_RequestTimeout))"
| "await_response peer rid (ev # evs) =
     (case ev of
        Got_Response p r f \<Rightarrow> if p = peer \<and> r = rid then (evs, Inr f) else await_response peer rid evs
      | Got_Failure p r \<Rightarrow>
          if p = peer \<and> r = rid then (evs, Inl (Plain Sess_RequestFailed)) else await_response peer rid evs
      | Got_Other \<Rightarrow> await_response peer rid evs)"

definition request_round_trip ::
  "peer_id \<Rightarrow> multiaddr list \<Rightarrow> p2p_client \<Rightarrow> wire_frame \<Rightarrow> p2p_client \<times> (transfer_error + wire_frame)" where
  "request_round_trip peer addresses c f =
     (case await_response peer (pc_next c) (pc_arrivals c) of
        (evs, r) \<Rightarrow>
          (c\<lparr>pc_arrivals := evs, pc_next := Suc (pc_next c),
             pc_requests := pc_requests c @ [(pc_next c, peer, addresses, f)]\<rparr>, r))"

section \<open>The sender's steps\<close>

type_synonym 'w trip = "'w \<Rightarrow> wire_frame \<Rightarrow> 'w \<times> (transfer_error + wire_frame)"

type_synonym ('w, 'a) trip_op = "'w \<times> peerline_event list \<Rightarrow> ('w \<times> peerline_event list) \<times> (transfer_error + 'a)"

definition t_return :: "'a \<Rightarrow> ('w, 'a) trip_op" where "t_return x s = (s, Inr x)"

definition t_fail :: "session_error \<Rightarrow> ('w, 'a) trip_op" where "t_fail e s = (s, Inl (Plain e))"

definition t_bind :: "('w, 'a) trip_op \<Rightarrow> ('a \<Rightarrow> ('w, 'b) trip_op) \<Rightarrow> ('w, 'b) trip_op" where
  "t_bind m k s = (case m s of (s', Inl e) \<Rightarrow> (s', Inl e) | (s', Inr x) \<Rightarrow> k x s')"

definition t_from :: "(session_error + 'a) \<Rightarrow> ('w, 'a) trip_op" where
  "t_from r = (case r of Inl e \<Rightarrow> t_fail e | Inr x \<Rightarrow> t_return x)"

definition t_emit :: "peerline_event \<Rightarrow> ('w, unit) trip_op" where
  "t_emit ev s = ((fst s, snd s @ [ev]), Inr ())"

definition t_trip :: "'w trip \<Rightarrow> wire_frame \<Rightarrow> ('w, wire_frame) trip_op" where
  "t_trip trip f s = (case trip (fst s) f of (w, r) \<Rightarrow> ((w, snd s), r))"

lemma t_bind_Inr: "t_bind m k s = (s', Inr y) \<longleftrightarrow> (\<exists>s1 x. m s = (s1, Inr x) \<and> k x s1 = (s', Inr y))"
  by (auto simp: t_bind_def split: prod.splits sum.splits)

lemma t_basic_Inr:
  "t_return x s = (s', Inr y) \<longleftrightarrow> s' = s \<and> y = x"
  "t_from r s = (s', Inr y) \<longleftrightarrow> s' = s \<and> r = Inr y"
  "t_emit ev s = (s', Inr u) \<longleftrightarrow> s' = (fst s, snd s @ [ev])"
  "t_trip trip f s = (s', Inr g) \<longleftrightarrow> (\<exists>w. trip (fst s) f = (w, Inr g) \<and> s' = (w, snd s))"
  by (auto simp: t_return_def t_from_def t_fail_def t_emit_def t_trip_def split: sum.splits prod.splits)

lemma t_fail_Inr [simp]: "t_fail e s \<noteq> (s', Inr y)"
  by (simp add: t_fail_def)

lemmas trip_simps = t_bind_Inr t_basic_Inr

record libp2p_send_options =
  lo_peer :: peer_id
  lo_addresses :: "multiaddr list"
  lo_name :: human_name
  lo_code :: human_code
  lo_source_id :: node_id
  lo_route :: connection_route

fun p2p_route_label :: "connection_route \<Rightarrow> string" where
  "p2p_route_label LanDirect = ''lan-direct''"
| "p2p_route_label PublicDirect = ''public-direct''"
| "p2p_route_label PublicTunnel = ''public-tunnel''"
| "p2p_route_label TorOnion = ''tor-onion''"
| "p2p_route_label I2p = ''i2p''"
| "p2p_route_label Libp2pQuic = ''libp2p-quic''"
| "p2p_route_label Libp2pDcutr = ''libp2p-dcutr''"
| "p2p_route_label Libp2pRelay = ''libp2p-relay''"
| "p2p_route_label WebRtcDirect = ''webrtc-direct''"
| "p2p_route_label WebRtcTurn = ''webrtc-turn''"

definition expect_ack :: "wire_frame \<Rightarrow> ('w, unit) trip_op" where
  "expect_ack f =
     (case f of
        Ack \<Rightarrow> t_return ()
      | WireError m \<Rightarrow> t_fail (Sess_Peer m)
      | _ \<Rightarrow> t_fail Sess_UnexpectedFrame)"

definition send_secure_request ::
  "session_env \<Rightarrow> 'w trip \<Rightarrow> secure_frame \<Rightarrow> secure_channel \<Rightarrow> ('w, secure_channel) trip_op" where
  "send_secure_request env trip f ch =
     (case encrypt_secure (env_aead env) (env_secure_ser env) f ch of
        (ch', Inl e) \<Rightarrow> t_fail (Sess_Wire e)
      | (ch', Inr x) \<Rightarrow> t_bind (t_trip trip (Secure x)) (\<lambda>g. t_bind (expect_ack g) (\<lambda>_. t_return ch')))"

fun p2p_send_chunks ::
  "session_env \<Rightarrow> 'w trip \<Rightarrow> transfer_id \<Rightarrow> u64 \<Rightarrow> u64 \<Rightarrow> bytes list \<Rightarrow> secure_channel \<Rightarrow> ('w, secure_channel) trip_op" where
  "p2p_send_chunks env trip tid tot sent [] ch = t_return ch"
| "p2p_send_chunks env trip tid tot sent (bs # rest) ch =
     (let sent' = sent + of_nat (length bs) in
      t_bind (send_secure_request env trip (SecureArchiveChunk bs) ch) (\<lambda>ch'.
      t_bind (t_emit (Progress tid sent' tot)) (\<lambda>_.
        p2p_send_chunks env trip tid tot sent' rest ch')))"

definition p2p_send_archive ::
  "session_env \<Rightarrow> 'w trip \<Rightarrow> transfer_id \<Rightarrow> transfer_descriptor \<Rightarrow> archive \<Rightarrow> u64 \<Rightarrow> secure_channel \<Rightarrow>
   ('w, secure_channel) trip_op" where
  "p2p_send_archive env trip tid d a offset ch0 =
     t_bind (send_secure_request env trip (SecureHeader (ar_compression a)) ch0) (\<lambda>ch.
     t_bind (p2p_send_chunks env trip tid (td_archive_bytes d) offset
              (file_chunks (drop (unat offset) (ar_file a))) ch) (\<lambda>ch'.
       send_secure_request env trip SecureDone ch'))"

text \<open>The two flights of the handshake: the offset the receiver asks for and the session's keys.\<close>

definition p2p_intro_reply :: "wire_frame \<Rightarrow> ('w, u64 \<times> bytes \<times> server_hello) trip_op" where
  "p2p_intro_reply f =
     (case f of
        ServerIntro version offset response hello \<Rightarrow>
          if version = protocol_version then t_return (offset, response, hello) else t_fail (Sess_Version version)
      | WireError m \<Rightarrow> t_fail (Sess_Peer m)
      | _ \<Rightarrow> t_fail Sess_UnexpectedFrame)"

definition p2p_login ::
  "session_env \<Rightarrow> 'w trip \<Rightarrow> libp2p_send_options \<Rightarrow> transcript \<Rightarrow> transfer_descriptor \<Rightarrow> ('w, u64 \<times> session_keys) trip_op" where
  "p2p_login env trip lo t d =
     (let password = str_bytes (code_str (lo_code lo)); handshake = client_start (env_kex env) (env_x25519_secret env) in
      t_bind (t_from (ok_or (opq_client_start (env_opaque env) password) Sess_Opaque)) (\<lambda>(request, opaque_state).
      t_bind (t_trip trip (ClientIntro protocol_version (Some (lo_name lo)) d request (chs_hello handshake))) (\<lambda>f.
      t_bind (p2p_intro_reply f) (\<lambda>(offset, response, hello).
        if td_archive_bytes d < offset then t_fail Sess_ResumeBeyond
        else
          t_bind (t_from (ok_or (opq_client_finish (env_opaque env) opaque_state password response) Sess_Opaque))
            (\<lambda>(finalization, okey).
          t_bind (t_from (case client_finish (env_kex env) (env_aead env) (env_blake3 env) (env_kem_coins env)
                    handshake hello okey t of
                    Inl e \<Rightarrow> Inl (Sess_Handshake e) | Inr r \<Rightarrow> Inr r)) (\<lambda>(kem, keys).
          t_bind (t_trip trip (ClientFinish finalization kem)) (\<lambda>g.
          t_bind (expect_ack g) (\<lambda>_. t_return (offset, keys)))))))))"

definition send_prebuilt_libp2p ::
  "session_env \<Rightarrow> libp2p_codec \<Rightarrow> (name_code \<Rightarrow> lookup_key) \<Rightarrow> 'w trip \<Rightarrow> libp2p_send_options \<Rightarrow> archive \<Rightarrow>
   transfer_id \<Rightarrow> ('w, sent_transfer) trip_op" where
  "send_prebuilt_libp2p env lp lookup trip lo a tid =
     (let d = descriptor_for_archive (lo_source_id lo) a;
          peer = peer_text lp (lo_peer lo);
          t = libp2p_transcript (lo_name lo) (lookup \<lparr>nc_name = lo_name lo, nc_code = lo_code lo\<rparr>) peer libp2p_route_label
      in
      t_bind (t_emit (StageChanged (Connecting (lo_route lo)))) (\<lambda>_.
      t_bind (t_emit (Message (''dialing '' @ peer @ '' via '' @ p2p_route_label (lo_route lo)))) (\<lambda>_.
      t_bind (t_emit (StageChanged Authenticating)) (\<lambda>_.
      t_bind (p2p_login env trip lo t d) (\<lambda>(offset, keys).
      t_bind (t_emit (TransferStarted tid peer (td_files d) (td_archive_bytes d) offset)) (\<lambda>_.
      t_bind (if 0 < offset then t_emit (Message (''resuming at '' @ dec_str (unat offset) @ '' bytes'')) else t_return ()) (\<lambda>_.
      t_bind (t_emit (StageChanged Transferring)) (\<lambda>_.
      t_bind (p2p_send_archive env trip tid d a offset
               \<lparr>ch_aead = chunk_aead_new (sk_send_key keys) session_key_tag, ch_sequence = 0\<rparr>) (\<lambda>_.
      t_bind (t_emit (StageChanged Complete)) (\<lambda>_.
        t_return \<lparr>st_endpoint = peer @ '' via '' @ p2p_route_label (lo_route lo), st_files = td_files d,
          st_bytes = mf_total_bytes (ar_manifest a)\<rparr>))))))))))"

section \<open>What a successful sender asked for\<close>

fun run_trips :: "'w trip \<Rightarrow> wire_frame list \<Rightarrow> 'w \<Rightarrow> ('w \<times> wire_frame list) option" where
  "run_trips trip [] w = Some (w, [])"
| "run_trips trip (f # fs) w =
     (case trip w f of
        (w', Inl e) \<Rightarrow> None
      | (w', Inr g) \<Rightarrow> (case run_trips trip fs w' of None \<Rightarrow> None | Some (w'', gs) \<Rightarrow> Some (w'', g # gs)))"

lemma run_trips_append:
  "run_trips trip fs w = Some (w1, gs) \<Longrightarrow> run_trips trip fs' w1 = Some (w2, gs') \<Longrightarrow>
   run_trips trip (fs @ fs') w = Some (w2, gs @ gs')"
  by (induction fs arbitrary: w gs) (auto split: prod.splits sum.splits option.splits)

text \<open>Trips all of which were acknowledged.\<close>

definition acknowledged :: "'w trip \<Rightarrow> wire_frame list \<Rightarrow> 'w \<Rightarrow> 'w \<Rightarrow> bool" where
  "acknowledged trip fs w w' \<longleftrightarrow> run_trips trip fs w = Some (w', replicate (length fs) Ack)"

lemma acknowledged_simps [simp]:
  "acknowledged trip [] w w' \<longleftrightarrow> w' = w"
  "acknowledged trip [f] w w' \<longleftrightarrow> trip w f = (w', Inr Ack)"
  by (auto simp: acknowledged_def split: prod.splits sum.splits)

lemma acknowledged_append:
  "acknowledged trip fs w w1 \<Longrightarrow> acknowledged trip fs' w1 w2 \<Longrightarrow> acknowledged trip (fs @ fs') w w2"
  by (auto simp: acknowledged_def replicate_add dest: run_trips_append)

lemma expect_ack_Inr [simp]: "expect_ack g s = (s', Inr u) \<longleftrightarrow> g = Ack \<and> s' = s"
  by (auto simp: expect_ack_def trip_simps split: wire_frame.splits)

lemma send_secure_request_Inr:
  "send_secure_request env trip f ch s = (s', Inr ch') \<Longrightarrow>
   \<exists>x. encrypt_secure (env_aead env) (env_secure_ser env) f ch = (ch', Inr x) \<and> acknowledged trip [Secure x] (fst s) (fst s')"
  by (auto simp: send_secure_request_def trip_simps split: prod.splits sum.splits)

lemma p2p_send_chunks_Inr:
  "p2p_send_chunks env trip tid tot sent bss ch s = (s', Inr ch') \<Longrightarrow>
   \<exists>cs. encrypt_all (env_aead env) (env_secure_ser env) (map SecureArchiveChunk bss) ch = Some (ch', cs) \<and>
     acknowledged trip (map Secure cs) (fst s) (fst s')"
proof (induction bss arbitrary: sent ch s)
  case Nil
  then show ?case by (auto simp: trip_simps)
next
  case (Cons bs bss)
  then obtain ch1 s1 s2 u where r: "send_secure_request env trip (SecureArchiveChunk bs) ch s = (s1, Inr ch1)"
      and e: "t_emit (Progress tid (sent + of_nat (length bs)) tot) s1 = (s2, Inr u)"
      and rec: "p2p_send_chunks env trip tid tot (sent + of_nat (length bs)) bss ch1 s2 = (s', Inr ch')"
    by (auto simp: Let_def t_bind_Inr)
  from send_secure_request_Inr [OF r] obtain x where x: "encrypt_secure (env_aead env) (env_secure_ser env)
      (SecureArchiveChunk bs) ch = (ch1, Inr x)" "acknowledged trip [Secure x] (fst s) (fst s1)" by blast
  from Cons.IH [OF rec] obtain cs where cs: "encrypt_all (env_aead env) (env_secure_ser env) (map SecureArchiveChunk bss) ch1 = Some (ch', cs)"
      "acknowledged trip (map Secure cs) (fst s2) (fst s')" by blast
  have "fst s2 = fst s1" using e by (simp add: trip_simps)
  with acknowledged_append [OF x(2)] cs(2) have "acknowledged trip (map Secure (x # cs)) (fst s) (fst s')" by simp
  with x(1) cs(1) show ?case by (intro exI [of _ "x # cs"]) simp
qed

lemma p2p_send_archive_Inr:
  assumes "p2p_send_archive env trip tid d a offset ch0 s = (s', Inr ch')"
  shows "\<exists>cs. encrypt_all (env_aead env) (env_secure_ser env)
      (SecureHeader (ar_compression a) #
       map SecureArchiveChunk (file_chunks (drop (unat offset) (ar_file a))) @ [SecureDone]) ch0 = Some (ch', cs) \<and>
    acknowledged trip (map Secure cs) (fst s) (fst s')"
proof -
  let ?bss = "file_chunks (drop (unat offset) (ar_file a))"
  from assms obtain s1 s2 ch ch2 where
      c1: "send_secure_request env trip (SecureHeader (ar_compression a)) ch0 s = (s1, Inr ch)"
    and c2: "p2p_send_chunks env trip tid (td_archive_bytes d) offset ?bss ch s1 = (s2, Inr ch2)"
    and c3: "send_secure_request env trip SecureDone ch2 s2 = (s', Inr ch')"
    unfolding p2p_send_archive_def t_bind_Inr by blast
  from send_secure_request_Inr [OF c1] obtain x1 where x1: "encrypt_secure (env_aead env) (env_secure_ser env)
        (SecureHeader (ar_compression a)) ch0 = (ch, Inr x1)" "acknowledged trip [Secure x1] (fst s) (fst s1)" by blast
  from p2p_send_chunks_Inr [OF c2] obtain cs where cs: "encrypt_all (env_aead env) (env_secure_ser env)
        (map SecureArchiveChunk ?bss) ch = Some (ch2, cs)" "acknowledged trip (map Secure cs) (fst s1) (fst s2)" by blast
  from send_secure_request_Inr [OF c3] obtain x2 where x2: "encrypt_secure (env_aead env) (env_secure_ser env)
        SecureDone ch2 = (ch', Inr x2)" "acknowledged trip [Secure x2] (fst s2) (fst s')" by blast
  have "encrypt_all (env_aead env) (env_secure_ser env) (map SecureArchiveChunk ?bss @ [SecureDone]) ch = Some (ch', cs @ [x2])"
    by (rule encrypt_all_append [OF cs(1)]) (simp add: x2(1))
  moreover have "acknowledged trip (map Secure (x1 # cs @ [x2])) (fst s) (fst s')"
    using acknowledged_append [OF x1(2) acknowledged_append [OF cs(2) x2(2)]] by simp
  ultimately show ?thesis using x1(1) by (intro exI [of _ "x1 # cs @ [x2]"]) simp
qed

lemma p2p_login_Inr:
  assumes "p2p_login env trip lo t d s = (s', Inr (offset, keys))"
  shows "\<exists>request response hello fin kem.
    offset \<le> td_archive_bytes d \<and>
    run_trips trip
      [ClientIntro protocol_version (Some (lo_name lo)) d request (chs_hello (client_start (env_kex env) (env_x25519_secret env))),
       ClientFinish fin kem] (fst s) = Some (fst s', [ServerIntro protocol_version offset response hello, Ack])"
proof -
  have intro: "p2p_intro_reply f s1 = (s2, Inr (off, resp, h)) \<Longrightarrow> f = ServerIntro protocol_version off resp h \<and> s2 = s1"
    for f off resp h and s1 s2 :: "'a \<times> peerline_event list"
    by (auto simp: p2p_intro_reply_def trip_simps split: wire_frame.splits if_splits)
  have two: "run_trips trip [f, g] w = Some (w', [a, b]) \<longleftrightarrow> (\<exists>w1. trip w f = (w1, Inr a) \<and> trip w1 g = (w', Inr b))"
    for f g w w' a b
    by (auto split: prod.splits sum.splits)
  from assms show ?thesis
    unfolding p2p_login_def Let_def two
    by (auto simp: trip_simps not_less split: if_splits prod.split_asm dest!: intro) blast
qed

text \<open>
  C11. A sender that reports success over libp2p has asked exactly for this, each request once and in
  this order: the introduction, answered with an offset within the archive, the login, and then in
  one encrypted sequence the header, the archive from that offset to its end and the end mark, every
  one of which the receiver acknowledged.
\<close>

theorem libp2p_sender_sends_the_rest:
  assumes "send_prebuilt_libp2p env lp lookup trip lo a tid (w, evs) = ((w', evs'), Inr sent)"
  shows "\<exists>offset request response client_hello hello fin kem bss cs (keys :: session_keys) ch.
    offset \<le> td_archive_bytes (descriptor_for_archive (lo_source_id lo) a) \<and>
    take (unat offset) (ar_file a) @ concat bss = ar_file a \<and>
    encrypt_all (env_aead env) (env_secure_ser env)
      (SecureHeader (ar_compression a) # map SecureArchiveChunk bss @ [SecureDone])
      \<lparr>ch_aead = chunk_aead_new (sk_send_key keys) session_key_tag, ch_sequence = 0\<rparr> = Some (ch, cs) \<and>
    run_trips trip
      ([ClientIntro protocol_version (Some (lo_name lo)) (descriptor_for_archive (lo_source_id lo) a) request client_hello,
        ClientFinish fin kem] @ map Secure cs) w =
      Some (w', [ServerIntro protocol_version offset response hello, Ack] @ replicate (length cs) Ack) \<and>
    sent = \<lparr>st_endpoint = peer_text lp (lo_peer lo) @ '' via '' @ p2p_route_label (lo_route lo),
      st_files = td_files (descriptor_for_archive (lo_source_id lo) a), st_bytes = mf_total_bytes (ar_manifest a)\<rparr>"
proof -
  let ?d = "descriptor_for_archive (lo_source_id lo) a"
  let ?peer = "peer_text lp (lo_peer lo)"
  let ?t = "libp2p_transcript (lo_name lo) (lookup \<lparr>nc_name = lo_name lo, nc_code = lo_code lo\<rparr>) ?peer libp2p_route_label"
  let ?ch = "\<lambda>keys. \<lparr>ch_aead = chunk_aead_new (sk_send_key keys) session_key_tag, ch_sequence = 0\<rparr>"
  from assms obtain s1 s2 s3 s4 s5 s6 s7 s8 offset keys ch u where
      e1: "t_emit (StageChanged (Connecting (lo_route lo))) (w, evs) = (s1, Inr ())"
    and e2: "t_emit (Message (''dialing '' @ ?peer @ '' via '' @ p2p_route_label (lo_route lo))) s1 = (s2, Inr ())"
    and e3: "t_emit (StageChanged Authenticating) s2 = (s3, Inr ())"
    and login: "p2p_login env trip lo ?t ?d s3 = (s4, Inr (offset, keys))"
    and e5: "t_emit (TransferStarted tid ?peer (td_files ?d) (td_archive_bytes ?d) offset) s4 = (s5, Inr ())"
    and e6: "(if 0 < offset then t_emit (Message (''resuming at '' @ dec_str (unat offset) @ '' bytes'')) else t_return ()) s5 = (s6, Inr ())"
    and e7: "t_emit (StageChanged Transferring) s6 = (s7, Inr ())"
    and arch: "p2p_send_archive env trip tid ?d a offset (?ch keys) s7 = (s8, Inr ch)"
    and fin: "t_emit (StageChanged Complete) s8 = ((w', evs'), Inr u)"
      "sent = \<lparr>st_endpoint = ?peer @ '' via '' @ p2p_route_label (lo_route lo), st_files = td_files ?d,
        st_bytes = mf_total_bytes (ar_manifest a)\<rparr>"
    unfolding send_prebuilt_libp2p_def Let_def by (auto simp: t_bind_Inr t_basic_Inr(1))
  from e1 e2 e3 have w3: "fst s3 = w" by (simp add: trip_simps)
  have w7: "fst s7 = fst s4" using e5 e6 e7 by (auto simp: trip_simps split: if_splits)
  have w8: "fst s8 = w'" using fin(1) by (simp add: trip_simps)
  from p2p_login_Inr [OF login, unfolded w3] obtain request response hello f kem where
      l: "offset \<le> td_archive_bytes ?d" "run_trips trip
        [ClientIntro protocol_version (Some (lo_name lo)) ?d request (chs_hello (client_start (env_kex env) (env_x25519_secret env))),
         ClientFinish f kem] w = Some (fst s4, [ServerIntro protocol_version offset response hello, Ack])" by blast
  from p2p_send_archive_Inr [OF arch, unfolded w7 w8] obtain cs where
      cs: "encrypt_all (env_aead env) (env_secure_ser env) (SecureHeader (ar_compression a) #
         map SecureArchiveChunk (file_chunks (drop (unat offset) (ar_file a))) @ [SecureDone]) (?ch keys) = Some (ch, cs)"
      "acknowledged trip (map Secure cs) (fst s4) w'" by blast
  note trips = run_trips_append [OF l(2) cs(2) [unfolded acknowledged_def, simplified length_map]]
  show ?thesis
  proof (intro exI conjI)
    show "take (unat offset) (ar_file a) @ concat (file_chunks (drop (unat offset) (ar_file a))) = ar_file a"
      by (simp add: concat_file_chunks)
  qed (rule l(1) cs(1) trips fin(2))+
qed

end
