(* ===== verification/Libp2p_Honest.thy ===== *)
theory Libp2p_Honest
  imports Libp2p_Send
begin

text \<open>
  Sender and receiver together: the sender's requests answered by a receiver with the same name and
  code. With crates that keep their promises, a disk that takes the partial and an archive that
  unpacks there, the transfer always completes, resumed or not.
\<close>

section \<open>The link\<close>

text \<open>
  A receiver that stops leaves the sender's request without an answer.
\<close>

definition link_trip :: "p2p_side \<Rightarrow> peer_id \<Rightarrow> (nat \<Rightarrow> draws) \<Rightarrow> (nat \<times> sessions \<times> conn) trip" where
  "link_trip side peer drs = (\<lambda>(n, m, c) f.
     case handle_inbound_request side (drs n) peer n f m c of
       (c', Inl e) \<Rightarrow> ((Suc n, m, c'), Inl (Plain Sess_RequestFailed))
     | (c', Inr (m', g)) \<Rightarrow> ((Suc n, m', c'), Inr g))"

definition opaque_agrees :: "opaque_suite \<Rightarrow> bytes \<Rightarrow> bytes \<Rightarrow> bool" where
  "opaque_agrees opq password name \<longleftrightarrow>
     (\<exists>record_bytes request cst response sst fin key.
        opq_record opq password name = Some record_bytes \<and> opq_client_start opq password = Some (request, cst) \<and>
        opq_server_start opq record_bytes request = Some (response, sst) \<and>
        opq_client_finish opq cst password response = Some (fin, key) \<and> opq_server_finish opq sst fin = Some key)"

definition honest_crates :: "session_env \<Rightarrow> bytes \<Rightarrow> bytes \<Rightarrow> transfer_descriptor \<Rightarrow> bool" where
  "honest_crates env password name d \<longleftrightarrow>
     suite_ok (env_aead env) \<and> (\<forall>k n aad m. seal (env_aead env) k n aad m \<noteq> None) \<and>
     (\<forall>f. \<exists>p. env_secure_ser env f = Some p \<and> env_secure_de env p = Some f) \<and>
     kex_ok (env_kex env) \<and> json_ok (env_json env) \<and> (\<forall>r now. to_json (env_json env) (metadata_for d r now) \<noteq> None) \<and>
     opaque_agrees (env_opaque env) password name"

section \<open>A disk that takes the partial\<close>

definition partial_ready :: "path \<Rightarrow> fs \<Rightarrow> bool" where
  "partial_ready dir fs \<longleftrightarrow>
     map_of fs dir = Some DirN \<and> map_of fs (part_path dir) \<noteq> Some DirN \<and> map_of fs (meta_path dir) \<noteq> Some DirN \<and>
     map_of fs (temp_path dir) \<noteq> Some DirN"

lemma partial_path_facts [simp]:
  "part_path dir \<noteq> []" "meta_path dir \<noteq> []" "temp_path dir \<noteq> []"
  "butlast (part_path dir) = dir" "butlast (meta_path dir) = dir" "butlast (temp_path dir) = dir"
  "dir \<noteq> part_path dir" "dir \<noteq> meta_path dir" "dir \<noteq> temp_path dir"
  "part_path dir \<noteq> dir" "meta_path dir \<noteq> dir" "temp_path dir \<noteq> dir"
  by (auto simp: part_path_def meta_path_def temp_path_def dest: arg_cong [where f = length])

lemma write_metadata_works:
  assumes "partial_ready dir fs" "to_json js m \<noteq> None"
  shows "\<exists>fs'. write_metadata js (meta_path dir) m fs = (fs', Inr ()) \<and> partial_ready dir fs'"
proof -
  from assms(2) obtain payload where p: "to_json js m = Some payload" by auto
  have "create_dir_all dir fs = Inr fs"
    using assms(1) by (subst create_dir_all.simps) (auto simp: partial_ready_def)
  moreover have "write_file (temp_path dir) payload fs = Inr (fs_put (temp_path dir) (FileN payload) fs)"
    using assms(1) by (simp add: write_file_def parent_ok_def is_dir_def partial_ready_def)
  moreover have "rename_file (temp_path dir) (meta_path dir) (fs_put (temp_path dir) (FileN payload) fs) =
      Inr (fs_put (meta_path dir) (FileN payload) (fs_del (temp_path dir) (fs_put (temp_path dir) (FileN payload) fs)))"
    using assms(1) by (simp add: rename_file_def write_file_def parent_ok_def is_dir_def partial_ready_def)
  ultimately have "write_metadata js (meta_path dir) m fs =
      (fs_put (meta_path dir) (FileN payload) (fs_del (temp_path dir) (fs_put (temp_path dir) (FileN payload) fs)), Inr ())"
    by (simp add: write_metadata_def parent_of_meta temp_of_meta Let_def p fs_bind_def fs_run_def)
  then show ?thesis using assms(1) by (simp add: partial_ready_def)
qed

definition partial_state :: "path \<Rightarrow> bytes \<Rightarrow> resume_state" where
  "partial_state dir content = \<lparr>rs_path = part_path dir, rs_metadata_path = meta_path dir, rs_offset = of_nat (length content)\<rparr>"

lemma word_unat_small: "n < 2 ^ 64 \<Longrightarrow> unat (of_nat n :: u64) = n"
  by (simp add: unat_of_nat)

lemma append_chunk_works:
  assumes "partial_valid js d dir content fs" "partial_ready dir fs" "json_ok js" "\<And>r now. to_json js (metadata_for d r now) \<noteq> None"
    and len: "length (content @ bs) \<le> unat (td_archive_bytes d)"
  shows "\<exists>fs'. append_chunk js now d bs (partial_state dir content) fs =
      (fs', partial_state dir (content @ bs), Inr (of_nat (length (content @ bs)))) \<and>
    partial_ready dir fs' \<and> partial_valid js d dir (content @ bs) fs'"
proof -
  have bound: "length (content @ bs) < 2 ^ 64"
    using len unsigned_less [of "td_archive_bytes d", where ?'a = nat] by simp
  let ?fs1 = "fs_put (part_path dir) (FileN (content @ bs)) fs"
  have app: "append_file (part_path dir) bs fs = Inr ?fs1"
    using assms(1,2) by (auto simp: append_file_def partial_valid_def partial_ready_def write_file_def parent_ok_def is_dir_def)
  have ready1: "partial_ready dir ?fs1" using assms(2) by (simp add: partial_ready_def)
  have lens: "unat (of_nat (length content) :: u64) = length content" "unat (of_nat (length bs) :: u64) = length bs"
      "unat (of_nat (length (content @ bs)) :: u64) = length (content @ bs)"
    using bound word_unat_small by (simp_all del: of_nat_add)
  have off: "checked_add (of_nat (length content) :: u64) (of_nat (length bs)) = Some (of_nat (length (content @ bs)))"
    using bound by (simp add: checked_add_def lens(1,2))
  have fits: "\<not> td_archive_bytes d < of_nat (length (content @ bs))"
    using len unfolding word_less_nat_alt lens(3) by simp
  from write_metadata_works [OF ready1 assms(4) [of "of_nat (length (content @ bs))" now]] obtain fs' where
      w: "write_metadata js (meta_path dir) (metadata_for d (of_nat (length (content @ bs))) now) ?fs1 = (fs', Inr ())"
      "partial_ready dir fs'" by blast
  have run: "append_chunk js now d bs (partial_state dir content) fs =
      (fs', partial_state dir (content @ bs), Inr (of_nat (length (content @ bs))))"
    using app off fits w(1) by (simp add: append_chunk_def partial_state_def Let_def del: length_append of_nat_add)
  from append_chunk_valid [OF assms(1,3) _ _ _ run] bound have "partial_valid js d dir (content @ bs) fs'"
    by (simp add: partial_state_def)
  with run w(2) show ?thesis by blast
qed

lemma complete_partial_works:
  assumes "partial_valid js d dir content fs" "content \<noteq> []"
    and "of_nat (length content) = td_archive_bytes d" "ResourceId (blake3 content) = td_resource_id d"
  shows "complete_partial blake3 (partial_state dir content) d fs = (fs, Inr content)"
  using assms by (simp add: complete_partial_def partial_state_def partial_valid_def read_file_def)

lemma remove_partial_works:
  assumes "map_of fs (part_path dir) \<noteq> Some DirN" "map_of fs (meta_path dir) \<noteq> Some DirN"
  shows "\<exists>fs'. remove_partial (partial_state dir content) fs = (fs', Inr ())"
proof -
  have gone: "\<exists>fs'. remove_if_present p fs = (fs', Inr ()) \<and> (\<forall>q. q \<noteq> p \<longrightarrow> map_of fs' q = map_of fs q)"
    if "map_of fs p \<noteq> Some DirN" for p and fs :: fs
    using that by (cases "map_of fs p") (auto simp: remove_if_present_def remove_file_def split: node.splits)
  from gone [OF assms(1)] obtain fs1 where
      r: "remove_if_present (part_path dir) fs = (fs1, Inr ())" "\<forall>q. q \<noteq> part_path dir \<longrightarrow> map_of fs1 q = map_of fs q"
    by blast
  have "map_of fs1 (meta_path dir) \<noteq> Some DirN" using r(2) assms(2) by simp
  from gone [OF this] obtain fs2 where "remove_if_present (meta_path dir) fs1 = (fs2, Inr ())" by blast
  with r(1) show ?thesis by (simp add: remove_partial_def partial_state_def remove_partial_paths_def fs_bind_def)
qed


section \<open>The encrypted frames\<close>

text \<open>
  The receiver in the middle of an archive: it has \<open>content\<close>, in the partial and nowhere else, and
  its end of the channel is where the sender's is.
\<close>

definition receiving ::
  "p2p_side \<Rightarrow> fs \<Rightarrow> peer_id \<Rightarrow> transfer_descriptor \<Rightarrow> path \<Rightarrow> compression option \<Rightarrow> secure_channel \<Rightarrow> bytes \<Rightarrow>
   nat \<times> sessions \<times> conn \<Rightarrow> bool" where
  "receiving side fs0 peer d dir cmp ch content w \<longleftrightarrow> (case w of (n, m, c) \<Rightarrow>
     partial_valid (env_json (pp_env side)) d dir content (cn_fs c) \<and> partial_ready dir (cn_fs c) \<and>
     agree_outside (destination side) fs0 (cn_fs c) \<and>
     (\<exists>s. m peer = Some s \<and> ls_aead s = Some (ch_aead ch) \<and> ls_expected_sequence s = ch_sequence ch \<and>
        ls_compression s = cmp \<and> ls_descriptor s = d \<and> ls_resume_state s = partial_state dir content))"

lemma honest_encrypts:
  assumes "honest_crates env pw nm d"
  shows "\<exists>ch' x. encrypt_secure (env_aead env) (env_secure_ser env) f ch = (ch', Inr x) \<and>
    decrypt_secure (env_aead env) (env_secure_de env) x ch = (ch', Inr f)"
proof -
  obtain p where p: "env_secure_ser env f = Some p" "env_secure_de env p = Some f"
    using assms unfolding honest_crates_def by blast
  have su: "suite_ok (env_aead env)" "\<And>k n aad m. seal (env_aead env) k n aad m \<noteq> None"
    using assms by (simp_all add: honest_crates_def)
  obtain key nxt where k: "derive_next (env_aead env) (ch_aead ch) (ch_sequence ch) = (key, nxt)" by fastforce
  from su(2) obtain ct where ct: "seal (env_aead env) key (chunk_nonce (ch_aead ch) (ch_sequence ch)) secure_aad p = Some ct"
    by blast
  then have "unseal (env_aead env) key (chunk_nonce (ch_aead ch) (ch_sequence ch)) secure_aad ct = Some p"
    using su(1) by (simp add: suite_ok_def)
  with p k ct show ?thesis
    by (simp add: encrypt_secure_def decrypt_secure_def chunk_encrypt_def chunk_decrypt_def)
qed

lemma link_secure:
  assumes "m peer = Some s" "ls_aead s = Some (ch_aead ch)" "ls_expected_sequence s = ch_sequence ch"
    and "decrypt_secure (env_aead (pp_env side)) (env_secure_de (pp_env side)) x ch = (ch', Inr f)"
  shows "link_trip side peer drs (n, m, c) (Secure x) =
    (case (case f of
        SecureHeader cmp \<Rightarrow> p2p_header cmp
      | SecureArchiveChunk bs \<Rightarrow> p2p_chunk (drawn (drs n) (pp_env side)) bs
      | SecureDone \<Rightarrow> p2p_done (drawn (drs n) (pp_env side)) (pp_options side) (peer_text (pp_codec side) peer) n)
      (s\<lparr>ls_aead := Some (ch_aead ch'), ls_expected_sequence := ch_sequence ch'\<rparr>) c of
       (c', Inl e) \<Rightarrow> ((Suc n, m, c'), Inl (Plain Sess_RequestFailed))
     | (c', Inr (s', g)) \<Rightarrow> ((Suc n, m(peer \<mapsto> s'), c'), Inr g))"
proof -
  have ch: "\<lparr>ch_aead = ch_aead ch, ch_sequence = ch_sequence ch\<rparr> = ch" by simp
  show ?thesis
    using assms
    by (auto simp: link_trip_def with_session_def p2p_secure_def ch s_bind_def s_return_def Let_def
        split: prod.splits sum.splits secure_frame.splits)
qed

lemma link_header:
  assumes "receiving side fs0 peer d dir None ch content w" "td_compression d = cmp"
    and "decrypt_secure (env_aead (pp_env side)) (env_secure_de (pp_env side)) x ch = (ch', Inr (SecureHeader cmp))"
  shows "\<exists>w'. link_trip side peer drs w (Secure x) = (w', Inr Ack) \<and> receiving side fs0 peer d dir (Some cmp) ch' content w'"
proof -
  obtain n m c where w: "w = (n, m, c)" by (metis prod_cases3)
  with assms(1) obtain s where s: "m peer = Some s" "ls_aead s = Some (ch_aead ch)" "ls_expected_sequence s = ch_sequence ch"
      "ls_compression s = None" "ls_descriptor s = d" "ls_resume_state s = partial_state dir content"
    by (auto simp: receiving_def)
  show ?thesis
    unfolding w link_secure [where m = m and peer = peer and s = s and ch = ch, OF s(1-3) assms(3)]
    using assms(1,2) w s(4-6)
    by (simp add: p2p_header_def s_bind_def emit_stage_def emit_event_def s_return_def receiving_def)
qed

lemma link_chunk:
  assumes "receiving side fs0 peer d dir (Some cmp) ch content w" "honest_crates (pp_env side) pw nm d"
    and "partial_folder (destination side) dir"
    and "decrypt_secure (env_aead (pp_env side)) (env_secure_de (pp_env side)) x ch = (ch', Inr (SecureArchiveChunk bs))"
    and "length (content @ bs) \<le> unat (td_archive_bytes d)"
  shows "\<exists>w'. link_trip side peer drs w (Secure x) = (w', Inr Ack) \<and>
    receiving side fs0 peer d dir (Some cmp) ch' (content @ bs) w'"
proof -
  obtain n m c where w: "w = (n, m, c)" by (metis prod_cases3)
  with assms(1) obtain s where s: "m peer = Some s" "ls_aead s = Some (ch_aead ch)" "ls_expected_sequence s = ch_sequence ch"
      "ls_compression s = Some cmp" "ls_descriptor s = d" "ls_resume_state s = partial_state dir content"
    and disk: "partial_valid (env_json (pp_env side)) d dir content (cn_fs c)" "partial_ready dir (cn_fs c)"
      "agree_outside (destination side) fs0 (cn_fs c)"
    by (auto simp: receiving_def)
  have js: "json_ok (env_json (pp_env side))" "\<And>r now. to_json (env_json (pp_env side)) (metadata_for d r now) \<noteq> None"
    using assms(2) by (simp_all add: honest_crates_def)
  from append_chunk_works [OF disk(1,2) js assms(5)] obtain fs' where
      app: "append_chunk (env_json (pp_env side)) (dr_now (drs n)) d bs (partial_state dir content) (cn_fs c) =
        (fs', partial_state dir (content @ bs), Inr (of_nat (length (content @ bs))))"
    and disk': "partial_ready dir fs'" "partial_valid (env_json (pp_env side)) d dir (content @ bs) fs'" by blast
  have "state_in (destination side) (partial_state dir content)"
    using assms(3) by (auto simp: state_in_def partial_state_def)
  from agree_append_chunk [OF this app] disk(3) have "agree_outside (destination side) fs0 fs'"
    by (blast intro: agree_outside_trans)
  moreover have "s_append (drawn (drs n) (pp_env side)) d bs (partial_state dir content) c =
      (c\<lparr>cn_fs := fs'\<rparr>, Inr (partial_state dir (content @ bs), of_nat (length (content @ bs))))"
    using app by (simp add: s_append_def drawn_def)
  ultimately show ?thesis
    unfolding w link_secure [where m = m and peer = peer and s = s and ch = ch, OF s(1-3) assms(4)] using disk' s(4-6)
    by (simp add: p2p_chunk_def s_bind_def emit_progress_def emit_event_def s_return_def receiving_def)
qed

lemma sends_chunks:
  assumes "honest_crates (pp_env side) pw nm d" "partial_folder (destination side) dir"
    and "receiving side fs0 peer d dir (Some cmp) ch content (fst s)"
    and "length (content @ concat bss) \<le> unat (td_archive_bytes d)"
  shows "\<exists>s' ch'. p2p_send_chunks (pp_env side) (link_trip side peer drs) tid tot sent bss ch s = (s', Inr ch') \<and>
    receiving side fs0 peer d dir (Some cmp) ch' (content @ concat bss) (fst s')"
  using assms(3,4)
proof (induction bss arbitrary: content ch s sent)
  case Nil
  then show ?case by (simp add: t_return_def)
next
  case (Cons bs bss)
  obtain ch1 x where x: "encrypt_secure (env_aead (pp_env side)) (env_secure_ser (pp_env side)) (SecureArchiveChunk bs) ch = (ch1, Inr x)"
      "decrypt_secure (env_aead (pp_env side)) (env_secure_de (pp_env side)) x ch = (ch1, Inr (SecureArchiveChunk bs))"
    using honest_encrypts [OF assms(1)] by blast
  have fits: "length (content @ bs) \<le> unat (td_archive_bytes d)" using Cons.prems(2) by simp
  obtain w1 where w1: "link_trip side peer drs (fst s) (Secure x) = (w1, Inr Ack)"
      "receiving side fs0 peer d dir (Some cmp) ch1 (content @ bs) w1"
    using link_chunk [OF Cons.prems(1) assms(1,2) x(2) fits] by blast
  let ?s1 = "(w1, snd s @ [Progress tid (sent + of_nat (length bs)) tot])"
  have "receiving side fs0 peer d dir (Some cmp) ch1 (content @ bs) (fst ?s1)" using w1(2) by simp
  from Cons.IH [OF this, of "sent + of_nat (length bs)"] Cons.prems(2) obtain s' ch' where
      "p2p_send_chunks (pp_env side) (link_trip side peer drs) tid tot (sent + of_nat (length bs)) bss ch1 ?s1 = (s', Inr ch')"
      "receiving side fs0 peer d dir (Some cmp) ch' ((content @ bs) @ concat bss) (fst s')" by auto
  with x(1) w1(1) show ?case
    by (auto simp: Let_def send_secure_request_def t_bind_def t_trip_def expect_ack_def t_return_def t_emit_def)
qed

text \<open>An archive that unpacks whatever the partial left in the resume folder, without touching that folder.\<close>

definition unpacks :: "p2p_side \<Rightarrow> fs \<Rightarrow> compression \<Rightarrow> bytes \<Rightarrow> manifest \<Rightarrow> bool" where
  "unpacks side fs0 cmp content mf \<longleftrightarrow>
     (\<forall>disk. agree_outside (destination side) fs0 disk \<longrightarrow>
       (\<exists>disk'. unpack_archive_from_reader (env_zstd (pp_env side)) (env_lzma (pp_env side)) (env_archive_de (pp_env side))
           (env_blake3 (pp_env side)) (ro_destination (pp_options side)) cmp \<lparr>rd_bytes = content, rd_fails = False\<rparr>
           (ro_overwrite (pp_options side)) disk = (disk', Inr mf) \<and>
         (\<forall>p. path_prefix (resume_root (destination side)) p \<longrightarrow> map_of disk' p = map_of disk p)))"

lemma link_done:
  assumes "receiving side fs0 peer d dir (Some cmp) ch content w" "partial_folder (destination side) dir"
    and "decrypt_secure (env_aead (pp_env side)) (env_secure_de (pp_env side)) x ch = (ch', Inr SecureDone)"
    and "content \<noteq> []" "of_nat (length content) = td_archive_bytes d"
      "ResourceId (env_blake3 (pp_env side) content) = td_resource_id d"
    and "unpacks side fs0 cmp content mf"
  shows "\<exists>m' c' s'. link_trip side peer drs w (Secure x) = ((Suc (fst w), m', c'), Inr Ack) \<and> m' peer = Some s' \<and>
    ls_pending_result s' = Some (fst w, \<lparr>rt_peer = peer_text (pp_codec side) peer, rt_files = file_count mf,
      rt_bytes = mf_total_bytes mf\<rparr>)"
proof -
  obtain n m c where w: "w = (n, m, c)" by (metis prod_cases3)
  with assms(1) obtain s where s: "m peer = Some s" "ls_aead s = Some (ch_aead ch)" "ls_expected_sequence s = ch_sequence ch"
      "ls_compression s = Some cmp" "ls_descriptor s = d" "ls_resume_state s = partial_state dir content"
    and disk: "partial_valid (env_json (pp_env side)) d dir content (cn_fs c)" "partial_ready dir (cn_fs c)"
      "agree_outside (destination side) fs0 (cn_fs c)"
    by (auto simp: receiving_def)
  have archive: "complete_partial (env_blake3 (pp_env side)) (partial_state dir content) d (cn_fs c) = (cn_fs c, Inr content)"
    by (rule complete_partial_works [OF disk(1) assms(4,5)]) (rule assms(6))
  obtain disk' where unpacked: "unpack_archive_from_reader (env_zstd (pp_env side)) (env_lzma (pp_env side))
        (env_archive_de (pp_env side)) (env_blake3 (pp_env side)) (ro_destination (pp_options side)) cmp
        \<lparr>rd_bytes = content, rd_fails = False\<rparr> (ro_overwrite (pp_options side)) (cn_fs c) = (disk', Inr mf)"
      "\<forall>p. path_prefix (resume_root (destination side)) p \<longrightarrow> map_of disk' p = map_of (cn_fs c) p"
    using assms(7) disk(3) unfolding unpacks_def by blast
  have "map_of disk' (part_path dir) \<noteq> Some DirN" "map_of disk' (meta_path dir) \<noteq> Some DirN"
    using unpacked(2) partial_folder_inside(2,3) [OF assms(2)] disk(2) by (simp_all add: inside_def partial_ready_def)
  from remove_partial_works [OF this] obtain fs2 where gone: "remove_partial (partial_state dir content) disk' = (fs2, Inr ())"
    by blast
  show ?thesis
    unfolding w link_secure [where m = m and peer = peer and s = s and ch = ch, OF s(1-3) assms(3)]
    using s(4-6) archive unpacked(1) gone
    by (simp add: p2p_done_def s_bind_def emit_stage_def emit_event_def s_return_def s_resume_def s_unpack_def drawn_def)
qed

lemma sends_archive:
  assumes "honest_crates (pp_env side) pw nm d" "partial_folder (destination side) dir"
    and "receiving side fs0 peer d dir None ch content (fst s)"
    and content: "content = take (unat offset) (ar_file a)" "unat offset \<le> length (ar_file a)"
    and d: "d = descriptor_for_archive src a" "ar_len a = length (ar_file a)" "length (ar_file a) < 2 ^ 64" "ar_file a \<noteq> []"
      "ar_resource_id a = ResourceId (env_blake3 (pp_env side) (ar_file a))"
    and unpack: "unpacks side fs0 (ar_compression a) (ar_file a) mf"
  shows "\<exists>n' m' c' s' ch' evs. p2p_send_archive (pp_env side) (link_trip side peer drs) tid d a offset ch s =
      (((Suc n', m', c'), evs), Inr ch') \<and> m' peer = Some s' \<and>
    ls_pending_result s' = Some (n', \<lparr>rt_peer = peer_text (pp_codec side) peer, rt_files = file_count mf,
      rt_bytes = mf_total_bytes mf\<rparr>)"
proof -
  let ?env = "pp_env side"
  let ?bss = "file_chunks (drop (unat offset) (ar_file a))"
  have whole: "content @ concat ?bss = ar_file a" by (simp add: content(1) concat_file_chunks)
  have td: "td_compression d = ar_compression a" "unat (td_archive_bytes d) = length (ar_file a)"
      "of_nat (length (ar_file a)) = td_archive_bytes d" "ResourceId (env_blake3 ?env (ar_file a)) = td_resource_id d"
    using d word_unat_small [OF d(3)] by (simp_all add: descriptor_for_archive_def)
  obtain ch1 x1 where x1: "encrypt_secure (env_aead ?env) (env_secure_ser ?env) (SecureHeader (ar_compression a)) ch = (ch1, Inr x1)"
      "decrypt_secure (env_aead ?env) (env_secure_de ?env) x1 ch = (ch1, Inr (SecureHeader (ar_compression a)))"
    using honest_encrypts [OF assms(1)] by blast
  obtain w1 where w1: "link_trip side peer drs (fst s) (Secure x1) = (w1, Inr Ack)"
      "receiving side fs0 peer d dir (Some (ar_compression a)) ch1 content w1"
    using link_header [OF assms(3) td(1) x1(2)] by blast
  have r1: "receiving side fs0 peer d dir (Some (ar_compression a)) ch1 content (fst (w1, snd s))" using w1(2) by simp
  have fits: "length (content @ concat ?bss) \<le> unat (td_archive_bytes d)" using whole td(2) by simp
  obtain s2 ch2 where s2: "p2p_send_chunks ?env (link_trip side peer drs) tid (td_archive_bytes d) offset ?bss ch1 (w1, snd s) =
        (s2, Inr ch2)" "receiving side fs0 peer d dir (Some (ar_compression a)) ch2 (ar_file a) (fst s2)"
    using sends_chunks [OF assms(1,2) r1 fits] whole by metis
  obtain ch3 x3 where x3: "encrypt_secure (env_aead ?env) (env_secure_ser ?env) SecureDone ch2 = (ch3, Inr x3)"
      "decrypt_secure (env_aead ?env) (env_secure_de ?env) x3 ch2 = (ch3, Inr SecureDone)"
    using honest_encrypts [OF assms(1)] by blast
  from link_done [OF s2(2) assms(2) x3(2) d(4) td(3,4) unpack] obtain m' c' s' where
      fin: "link_trip side peer drs (fst s2) (Secure x3) = ((Suc (fst (fst s2)), m', c'), Inr Ack)" "m' peer = Some s'"
      "ls_pending_result s' = Some (fst (fst s2), \<lparr>rt_peer = peer_text (pp_codec side) peer, rt_files = file_count mf,
        rt_bytes = mf_total_bytes mf\<rparr>)" by blast
  have "p2p_send_archive ?env (link_trip side peer drs) tid d a offset ch s = (((Suc (fst (fst s2)), m', c'), snd s2), Inr ch3)"
    using x1(1) w1(1) s2(1) x3(1) fin(1)
    by (simp add: p2p_send_archive_def send_secure_request_def t_bind_def t_trip_def expect_ack_def t_return_def)
  with fin(2,3) show ?thesis by blast
qed

section \<open>The login\<close>

lemma opens_partial:
  assumes "resume_open (env_hex env) (env_json env) now (destination side) d (cn_fs c) = (fs1, Inr st)"
  shows "s_resume (resume_open (env_hex env) (env_json env) now (destination side) d) c = (c\<lparr>cn_fs := fs1\<rparr>, Inr st) \<and>
    agree_outside (destination side) (cn_fs c) fs1"
  using assms confined_resume_open [of "destination side" "env_hex env" "env_json env" now d]
  by (auto simp: s_resume_def confined_def)

lemma logs_in:
  assumes "honest_crates (pp_env side) (str_bytes (code_str (ro_code (pp_options side)))) (str_bytes (name_str (ro_name (pp_options side)))) d"
    and "lo_code lo = ro_code (pp_options side)" "lo_name lo = ro_name (pp_options side)"
    and t: "t = libp2p_transcript (ro_name (pp_options side)) (pp_lookup_key side)
        (peer_text (pp_codec side) (pp_local_peer side)) libp2p_route_label"
    and opened: "resume_open (env_hex (pp_env side)) (env_json (pp_env side)) (dr_now (drs n)) (destination side) d (cn_fs c) =
        (fs1, Inr (partial_state dir content))"
    and "partial_valid (env_json (pp_env side)) d dir content fs1" "partial_ready dir fs1"
    and "of_nat (length content) \<le> td_archive_bytes d"
  shows "\<exists>w keys. p2p_login (pp_env side) (link_trip side peer drs) lo t d ((n, m, c), evs) =
      ((w, evs), Inr (of_nat (length content), keys)) \<and>
    receiving side (cn_fs c) peer d dir None \<lparr>ch_aead = chunk_aead_new (sk_send_key keys) session_key_tag, ch_sequence = 0\<rparr>
      content w"
proof -
  let ?env = "pp_env side" and ?opts = "pp_options side"
  let ?pw = "str_bytes (code_str (ro_code ?opts))" and ?nm = "str_bytes (name_str (ro_name ?opts))"
  let ?hello = "chs_hello (client_start (env_kex ?env) (env_x25519_secret ?env))"
  let ?hs = "server_start (env_kex ?env) (dr_x25519_secret (drs n)) (dr_kem_secret (drs n)) ?hello"
  from assms(1) obtain record_bytes request cst response sst fin key where
      o: "opq_record (env_opaque ?env) ?pw ?nm = Some record_bytes" "opq_client_start (env_opaque ?env) ?pw = Some (request, cst)"
      "opq_server_start (env_opaque ?env) record_bytes request = Some (response, sst)"
      "opq_client_finish (env_opaque ?env) cst ?pw response = Some (fin, key)"
      "opq_server_finish (env_opaque ?env) sst fin = Some key"
    and kex: "kex_ok (env_kex ?env)"
    unfolding honest_crates_def opaque_agrees_def by blast
  from handshake_agrees [OF kex, of "env_aead ?env" "env_blake3 ?env" "env_kem_coins ?env" "env_x25519_secret ?env"
      "dr_x25519_secret (drs n)" "dr_kem_secret (drs n)" key t] obtain kem ck sk where
      hs: "client_finish (env_kex ?env) (env_aead ?env) (env_blake3 ?env) (env_kem_coins ?env)
        (client_start (env_kex ?env) (env_x25519_secret ?env)) (shs_hello ?hs) key t = Inr (kem, ck)"
      "server_finish (env_kex ?env) (env_aead ?env) (env_blake3 ?env) ?hs ?hello kem key t = Inr sk"
      "sk_send_key ck = sk_recv_key sk" by blast
  let ?s = "receiver_session_new ?hello t sst ?hs (dr_transfer (drs n)) d (partial_state dir content)"
  let ?c1 = "c\<lparr>cn_fs := fs1, cn_events := cn_events c @ [TransferStarted (dr_transfer (drs n)) (peer_text (pp_codec side) peer)
      (td_files d) (td_archive_bytes d) (of_nat (length content)), StageChanged Authenticating]\<rparr>"
  have agree: "agree_outside (destination side) (cn_fs c) fs1" using opens_partial [OF opened] by blast
  have trip1: "link_trip side peer drs (n, m, c) (ClientIntro protocol_version (Some (ro_name ?opts)) d request ?hello) =
      ((Suc n, m(peer \<mapsto> ?s), ?c1),
       Inr (ServerIntro protocol_version (of_nat (length content)) response (shs_hello ?hs)))"
    using opened o(1,3)
    by (simp add: link_trip_def p2p_intro_def Let_def drawn_def s_bind_def s_resume_def emit_event_def emit_stage_def
        s_from_def s_return_def t partial_state_def)
  let ?s2 = "?s\<lparr>ls_opaque_server := None, ls_server_handshake := None,
      ls_aead := Some (chunk_aead_new (sk_recv_key sk) session_key_tag)\<rparr>"
  have trip2: "link_trip side peer drs (Suc n, m(peer \<mapsto> ?s), ?c1) (ClientFinish fin kem) =
      ((Suc (Suc n), m(peer \<mapsto> ?s2), ?c1), Inr Ack)"
    using o(5) hs(2)
    by (simp add: link_trip_def with_session_def p2p_finish_def receiver_session_new_def s_bind_def s_from_def s_return_def)
  have login: "p2p_login ?env (link_trip side peer drs) lo t d ((n, m, c), evs) =
      (((Suc (Suc n), m(peer \<mapsto> ?s2), ?c1), evs), Inr (of_nat (length content), ck))"
    using o(2,4) hs(1) assms(2,3,8) trip1 trip2
    by (simp add: p2p_login_def Let_def t_bind_def t_from_def t_return_def t_trip_def p2p_intro_reply_def expect_ack_def not_less)
  have "receiving side (cn_fs c) peer d dir None \<lparr>ch_aead = chunk_aead_new (sk_send_key ck) session_key_tag, ch_sequence = 0\<rparr>
      content (Suc (Suc n), m(peer \<mapsto> ?s2), ?c1)"
    using assms(6,7) agree hs(3) by (simp add: receiving_def receiver_session_new_def)
  with login show ?thesis by blast
qed

section \<open>The whole transfer\<close>

lemma honest_run:
  assumes crates: "honest_crates (pp_env side) (str_bytes (code_str (ro_code (pp_options side))))
      (str_bytes (name_str (ro_name (pp_options side)))) (descriptor_for_archive (lo_source_id lo) a)"
    and peers: "lo_code lo = ro_code (pp_options side)" "lo_name lo = ro_name (pp_options side)"
      "lo_peer lo = pp_local_peer side" "lookup \<lparr>nc_name = lo_name lo, nc_code = lo_code lo\<rparr> = pp_lookup_key side"
    and archive: "ar_len a = length (ar_file a)" "length (ar_file a) < 2 ^ 64" "ar_file a \<noteq> []"
      "ar_resource_id a = ResourceId (env_blake3 (pp_env side) (ar_file a))"
    and partial: "partial_folder (destination side) dir" "k \<le> length (ar_file a)"
      "resume_open (env_hex (pp_env side)) (env_json (pp_env side)) (dr_now (drs n)) (destination side)
        (descriptor_for_archive (lo_source_id lo) a) (cn_fs c) = (fs1, Inr (partial_state dir (take k (ar_file a))))"
      "partial_valid (env_json (pp_env side)) (descriptor_for_archive (lo_source_id lo) a) dir (take k (ar_file a)) fs1"
      "partial_ready dir fs1"
    and unpack: "unpacks side (cn_fs c) (ar_compression a) (ar_file a) mf"
  shows "\<exists>n' m' c' evs'.
    send_prebuilt_libp2p (pp_env side) (pp_codec side) lookup (link_trip side peer drs) lo a tid ((n, m, c), evs) =
      (((Suc n', m', c'), evs'), Inr \<lparr>st_endpoint = peer_text (pp_codec side) (lo_peer lo) @ '' via '' @ p2p_route_label (lo_route lo),
         st_files = file_count (ar_manifest a), st_bytes = mf_total_bytes (ar_manifest a)\<rparr>) \<and>
    response_sent peer n' m' = (m'(peer := None), Some \<lparr>rt_peer = peer_text (pp_codec side) peer,
      rt_files = file_count mf, rt_bytes = mf_total_bytes mf\<rparr>)"
proof -
  let ?env = "pp_env side"
  let ?d = "descriptor_for_archive (lo_source_id lo) a"
  let ?content = "take k (ar_file a)" and ?trip = "link_trip side peer drs"
  let ?peer = "peer_text (pp_codec side) (lo_peer lo)"
  let ?t = "libp2p_transcript (lo_name lo) (lookup \<lparr>nc_name = lo_name lo, nc_code = lo_code lo\<rparr>) ?peer libp2p_route_label"
  let ?offset = "of_nat (length ?content) :: u64"
  have len: "unat ?offset = k" "unat (td_archive_bytes ?d) = length (ar_file a)"
    using partial(2) archive(1,2) word_unat_small [of k] word_unat_small [OF archive(2)]
    by (simp_all add: descriptor_for_archive_def)
  then have le: "?offset \<le> td_archive_bytes ?d" using partial(2) by (simp add: word_le_nat_alt)
  have t: "?t = libp2p_transcript (ro_name (pp_options side)) (pp_lookup_key side)
      (peer_text (pp_codec side) (pp_local_peer side)) libp2p_route_label"
    unfolding peers(4) unfolding peers(2,3) ..
  let ?evs = "evs @ [StageChanged (Connecting (lo_route lo)), Message (''dialing '' @ ?peer @ '' via '' @ p2p_route_label (lo_route lo)),
      StageChanged Authenticating]"
  obtain w keys where login: "p2p_login ?env ?trip lo ?t ?d ((n, m, c), ?evs) = ((w, ?evs), Inr (?offset, keys))"
    and ready: "receiving side (cn_fs c) peer ?d dir None
      \<lparr>ch_aead = chunk_aead_new (sk_send_key keys) session_key_tag, ch_sequence = 0\<rparr> ?content w"
    using logs_in [where side = side and lo = lo and d = ?d and drs = drs and n = n and c = c and content = ?content and
        dir = dir and m = m and peer = peer and evs = ?evs, OF crates peers(1,2) t partial(3,4,5) le] by blast
  let ?evs2 = "?evs @ [TransferStarted tid ?peer (td_files ?d) (td_archive_bytes ?d) ?offset] @
      (if 0 < ?offset then [Message (''resuming at '' @ dec_str (unat ?offset) @ '' bytes'')] else []) @ [StageChanged Transferring]"
  have ready2: "receiving side (cn_fs c) peer ?d dir None
      \<lparr>ch_aead = chunk_aead_new (sk_send_key keys) session_key_tag, ch_sequence = 0\<rparr> ?content (fst (w, ?evs2))"
    using ready by simp
  have content: "?content = take (unat ?offset) (ar_file a)" "unat ?offset \<le> length (ar_file a)"
    using len(1) partial(2) by simp_all
  from sends_archive [OF crates partial(1) ready2 content refl archive(1,2,3,4) unpack, of drs tid] obtain n' m' c' s' ch' evs' where
      sent: "p2p_send_archive ?env ?trip tid ?d a ?offset
        \<lparr>ch_aead = chunk_aead_new (sk_send_key keys) session_key_tag, ch_sequence = 0\<rparr> (w, ?evs2) = (((Suc n', m', c'), evs'), Inr ch')"
    and result: "m' peer = Some s'" "ls_pending_result s' = Some (n', \<lparr>rt_peer = peer_text (pp_codec side) peer,
      rt_files = file_count mf, rt_bytes = mf_total_bytes mf\<rparr>)" by blast
  have "send_prebuilt_libp2p ?env (pp_codec side) lookup ?trip lo a tid ((n, m, c), evs) =
      (((Suc n', m', c'), evs' @ [StageChanged Complete]), Inr \<lparr>st_endpoint = ?peer @ '' via '' @ p2p_route_label (lo_route lo),
         st_files = td_files ?d, st_bytes = mf_total_bytes (ar_manifest a)\<rparr>)"
    unfolding send_prebuilt_libp2p_def Let_def
    using login sent by (cases "0 < ?offset") (simp_all add: t_bind_def t_emit_def t_return_def del: length_take)
  moreover have "td_files ?d = file_count (ar_manifest a)" by (simp add: descriptor_for_archive_def)
  ultimately show ?thesis using result by (auto simp: response_sent_def)
qed

section \<open>A concrete transfer\<close>

fun tag_ser :: "secure_frame \<Rightarrow> bytes option" where
  "tag_ser (SecureHeader c) = Some [0, case c of CompressNone \<Rightarrow> 0 | Zstd \<Rightarrow> 1 | Lzma \<Rightarrow> 2 | Auto \<Rightarrow> 3]"
| "tag_ser (SecureArchiveChunk bs) = Some (1 # bs)"
| "tag_ser SecureDone = Some [2]"

fun tag_de :: "bytes \<Rightarrow> secure_frame option" where
  "tag_de [] = None"
| "tag_de (t # bs) =
     (if t = 0 then Some (SecureHeader (if bs = [0] then CompressNone else if bs = [1] then Zstd else if bs = [2] then Lzma else Auto))
      else if t = 1 then Some (SecureArchiveChunk bs) else if t = 2 then Some SecureDone else None)"

definition empty_manifest :: manifest where
  "empty_manifest = \<lparr>mf_id = TransferId [1], mf_compression = CompressNone, mf_entries = [], mf_total_bytes = 0\<rparr>"

definition empty_archive :: archive where
  "empty_archive = \<lparr>ar_manifest = empty_manifest, ar_compression = CompressNone, ar_resource_id = ResourceId [7],
     ar_file = [0, 0, 0, 1, 9], ar_len = 5\<rparr>"

abbreviation empty_descriptor :: transfer_descriptor where
  "empty_descriptor \<equiv> descriptor_for_archive (NodeId [1]) empty_archive"

definition tag_json :: json_codec where
  "tag_json = \<lparr>
     to_json = \<lambda>m. if m = metadata_for empty_descriptor (pm_received_bytes m) (pm_updated_at_unix m)
       then Some (be_bytes 8 (unat (pm_received_bytes m)) @ be_bytes 8 (unat (pm_updated_at_unix m))) else None,
     from_json = \<lambda>bs. Some (metadata_for empty_descriptor (of_nat (of_be (take 8 bs))) (of_nat (of_be (drop 8 bs))))\<rparr>"

definition honest_env :: session_env where
  "honest_env = run_env\<lparr>env_secure_ser := tag_ser, env_secure_de := tag_de, env_aead := demo_aead, env_json := tag_json,
     env_archive_de := \<lambda>bs. if bs = [9] then Some (FManifest empty_manifest) else None\<rparr>"

definition honest_side :: p2p_side where
  "honest_side = \<lparr>pp_env = honest_env,
     pp_codec = \<lparr>peer_parse = \<lambda>_. None, peer_text = bytes_str, peer_from_bytes = Some, addr_parse = \<lambda>_. None,
       addr_text = \<lambda>_. [], addr_bytes = \<lambda>_. [], addr_from_bytes = \<lambda>_. None\<rparr>,
     pp_options = run_options, pp_lookup_key = LookupKey [], pp_local_peer = [1]\<rparr>"

definition honest_sender :: libp2p_send_options where
  "honest_sender = \<lparr>lo_peer = [1], lo_addresses = [], lo_name = ro_name run_options, lo_code = ro_code run_options,
     lo_source_id = NodeId [1], lo_route = Libp2pQuic\<rparr>"

definition honest_draws :: "nat \<Rightarrow> draws" where
  "honest_draws n = \<lparr>dr_transfer = TransferId [1], dr_x25519_secret = [3], dr_kem_secret = [4], dr_now = 100\<rparr>"

lemma tag_json_ok: "json_ok tag_json" "to_json tag_json (metadata_for empty_descriptor r now) \<noteq> None"
proof -
  have u: "unat (x :: u64) < 256 ^ 8" for x using unsigned_less [of x, where ?'a = nat] by simp
  have be: "(of_nat (of_be (be_bytes 8 (unat x))) :: u64) = x" for x :: u64
    unfolding of_be_be_bytes_small [OF u] by simp
  show "json_ok tag_json"
    unfolding json_ok_def tag_json_def by (auto simp: be split: if_splits)
qed (simp add: tag_json_def)

lemma honest_env_crates:
  "honest_crates honest_env (str_bytes (code_str (ro_code run_options))) (str_bytes (name_str (ro_name run_options))) empty_descriptor"
proof -
  have codec: "\<exists>p. tag_ser f = Some p \<and> tag_de p = Some f" for f
    by (cases f) (auto split: compression.split)
  show ?thesis
    unfolding honest_crates_def
    by (simp add: honest_env_def run_env_def demo_aead_ok codec tag_json_ok kex_ok_def demo_kex_def mult.commute
        opaque_agrees_def) (simp add: demo_aead_def)
qed

lemma empty_unpacks: "unpacks honest_side fs CompressNone (ar_file empty_archive) empty_manifest"
proof -
  have "read_frame (env_archive_de honest_env) \<lparr>rd_bytes = [0, 0, 0, 1, 9], rd_fails = False\<rparr> =
      Inr (Some (FManifest empty_manifest, \<lparr>rd_bytes = [], rd_fails = False\<rparr>))" by code_simp
  moreover have "validate_manifest_entries (mf_entries empty_manifest) = Inr ()" "expected_manifest_entries empty_manifest = Inr []"
    by code_simp+
  moreover have "read_frame de \<lparr>rd_bytes = [], rd_fails = False\<rparr> = Inr None" for de
    by code_simp
  ultimately have "unpack_raw_archive (env_archive_de honest_env) blake3 dest ow \<lparr>rd_bytes = ar_file empty_archive, rd_fails = False\<rparr> disk =
      (disk, Inr empty_manifest)" for blake3 dest ow disk
    by (simp add: unpack_raw_archive_def empty_archive_def unpack_loop.simps)
  then show ?thesis by (simp add: unpacks_def unpack_archive_from_reader_def honest_side_def)
qed

definition honest_dir :: path where
  "honest_dir = partial_dir (\<lambda>_. ''ab'') [Normal ''in''] (NodeId [1]) (ResourceId [7])"

definition honest_disk :: fs where
  "honest_disk = fst (resume_open (\<lambda>_. ''ab'') tag_json 100 [Normal ''in''] empty_descriptor [])"

lemma honest_opens:
  "resume_open (\<lambda>_. ''ab'') tag_json 100 [Normal ''in''] empty_descriptor [] = (honest_disk, Inr (partial_state honest_dir []))"
  by code_simp

lemma honest_partial: "partial_valid tag_json empty_descriptor honest_dir [] honest_disk" "partial_ready honest_dir honest_disk"
  by code_simp+

lemma honest_premises:
  "honest_crates (pp_env honest_side) (str_bytes (code_str (ro_code (pp_options honest_side))))
    (str_bytes (name_str (ro_name (pp_options honest_side)))) (descriptor_for_archive (lo_source_id honest_sender) empty_archive)"
  "lo_code honest_sender = ro_code (pp_options honest_side)" "lo_name honest_sender = ro_name (pp_options honest_side)"
  "lo_peer honest_sender = pp_local_peer honest_side"
  "(\<lambda>_. LookupKey []) \<lparr>nc_name = lo_name honest_sender, nc_code = lo_code honest_sender\<rparr> = pp_lookup_key honest_side"
  "ar_len empty_archive = length (ar_file empty_archive)" "length (ar_file empty_archive) < 2 ^ 64" "ar_file empty_archive \<noteq> []"
  "ar_resource_id empty_archive = ResourceId (env_blake3 (pp_env honest_side) (ar_file empty_archive))"
  "partial_folder (destination honest_side) honest_dir" "0 \<le> length (ar_file empty_archive)"
  "resume_open (env_hex (pp_env honest_side)) (env_json (pp_env honest_side)) (dr_now (honest_draws 0)) (destination honest_side)
    (descriptor_for_archive (lo_source_id honest_sender) empty_archive) (cn_fs (run_conn\<lparr>cn_fs := []\<rparr>)) =
    (honest_disk, Inr (partial_state honest_dir (take 0 (ar_file empty_archive))))"
  "partial_valid (env_json (pp_env honest_side)) (descriptor_for_archive (lo_source_id honest_sender) empty_archive) honest_dir
    (take 0 (ar_file empty_archive)) honest_disk"
  "partial_ready honest_dir honest_disk"
  "unpacks honest_side (cn_fs (run_conn\<lparr>cn_fs := []\<rparr>)) (ar_compression empty_archive) (ar_file empty_archive) empty_manifest"
proof -
  have js: "env_json honest_env = tag_json" "env_hex honest_env = (\<lambda>_. ''ab'')" "env_blake3 honest_env = (\<lambda>_. [7])"
    by (simp_all add: honest_env_def run_env_def)
  have side: "pp_env honest_side = honest_env" "pp_options honest_side = run_options" "lo_source_id honest_sender = NodeId [1]"
      "destination honest_side = [Normal ''in'']"
    by (simp_all add: honest_side_def honest_sender_def run_destination)
  show "honest_crates (pp_env honest_side) (str_bytes (code_str (ro_code (pp_options honest_side))))
      (str_bytes (name_str (ro_name (pp_options honest_side)))) (descriptor_for_archive (lo_source_id honest_sender) empty_archive)"
    unfolding side by (rule honest_env_crates)
  show "partial_folder (destination honest_side) honest_dir"
    using run_destination by (simp add: honest_dir_def partial_folder_def partial_dir_def resume_root_def honest_side_def)
  show "resume_open (env_hex (pp_env honest_side)) (env_json (pp_env honest_side)) (dr_now (honest_draws 0)) (destination honest_side)
      (descriptor_for_archive (lo_source_id honest_sender) empty_archive) (cn_fs (run_conn\<lparr>cn_fs := []\<rparr>)) =
      (honest_disk, Inr (partial_state honest_dir (take 0 (ar_file empty_archive))))"
    using honest_opens by (simp add: side js run_destination honest_draws_def)
  show "partial_valid (env_json (pp_env honest_side)) (descriptor_for_archive (lo_source_id honest_sender) empty_archive) honest_dir
      (take 0 (ar_file empty_archive)) honest_disk"
    unfolding side js using honest_partial(1) by simp
  show "partial_ready honest_dir honest_disk" by (rule honest_partial(2))
  show "unpacks honest_side (cn_fs (run_conn\<lparr>cn_fs := []\<rparr>)) (ar_compression empty_archive) (ar_file empty_archive) empty_manifest"
    using empty_unpacks by (simp add: empty_archive_def)
  show "ar_resource_id empty_archive = ResourceId (env_blake3 (pp_env honest_side) (ar_file empty_archive))"
    unfolding side js by (simp add: empty_archive_def)
qed (simp_all add: honest_side_def honest_sender_def empty_archive_def)

text \<open>
  C9. An honest transfer over libp2p always completes. Whatever sessions the receiver has and
  whatever its random draws and clock, a sender that knows the receiver's name, code and peer id
  ends with success; it resumes where the receiver's partial, any prefix of the archive, ends; the
  receiver's result is reported when the last response is out, and is that of unpacking exactly the
  sender's archive.
\<close>

theorem honest_transfer_completes:
  assumes crates: "honest_crates (pp_env side) (str_bytes (code_str (ro_code (pp_options side))))
      (str_bytes (name_str (ro_name (pp_options side)))) (descriptor_for_archive (lo_source_id lo) a)"
    and peers: "lo_code lo = ro_code (pp_options side)" "lo_name lo = ro_name (pp_options side)"
      "lo_peer lo = pp_local_peer side" "lookup \<lparr>nc_name = lo_name lo, nc_code = lo_code lo\<rparr> = pp_lookup_key side"
    and archive: "ar_len a = length (ar_file a)" "length (ar_file a) < 2 ^ 64" "ar_file a \<noteq> []"
      "ar_resource_id a = ResourceId (env_blake3 (pp_env side) (ar_file a))"
    and partial: "partial_folder (destination side) dir" "k \<le> length (ar_file a)"
      "resume_open (env_hex (pp_env side)) (env_json (pp_env side)) (dr_now (drs n)) (destination side)
        (descriptor_for_archive (lo_source_id lo) a) (cn_fs c) = (fs1, Inr (partial_state dir (take k (ar_file a))))"
      "partial_valid (env_json (pp_env side)) (descriptor_for_archive (lo_source_id lo) a) dir (take k (ar_file a)) fs1"
      "partial_ready dir fs1"
    and unpack: "unpacks side (cn_fs c) (ar_compression a) (ar_file a) mf"
  shows "\<exists>n' m' c' evs'.
    send_prebuilt_libp2p (pp_env side) (pp_codec side) lookup (link_trip side peer drs) lo a tid ((n, m, c), evs) =
      (((Suc n', m', c'), evs'), Inr \<lparr>st_endpoint = peer_text (pp_codec side) (lo_peer lo) @ '' via '' @ p2p_route_label (lo_route lo),
         st_files = file_count (ar_manifest a), st_bytes = mf_total_bytes (ar_manifest a)\<rparr>) \<and>
    response_sent peer n' m' = (m'(peer := None), Some \<lparr>rt_peer = peer_text (pp_codec side) peer,
      rt_files = file_count mf, rt_bytes = mf_total_bytes mf\<rparr>)"
  by (rule honest_run [where side = side and lo = lo and lookup = lookup and a = a and dir = dir and k = k and ?fs1.0 = fs1 and
      mf = mf and drs = drs and n = n and c = c, OF assms])

lemma honest_transfer_completes_witness:
  "\<exists>n' m' c' evs'.
    send_prebuilt_libp2p (pp_env honest_side) (pp_codec honest_side) (\<lambda>_. LookupKey []) (link_trip honest_side [2] honest_draws)
      honest_sender empty_archive (TransferId [1]) ((0, Map.empty, run_conn\<lparr>cn_fs := []\<rparr>), []) =
      (((Suc n', m', c'), evs'), Inr \<lparr>st_endpoint = peer_text (pp_codec honest_side) (lo_peer honest_sender) @ '' via '' @
         p2p_route_label (lo_route honest_sender),
         st_files = file_count (ar_manifest empty_archive), st_bytes = mf_total_bytes (ar_manifest empty_archive)\<rparr>) \<and>
    response_sent [2] n' m' = (m'([2] := None), Some \<lparr>rt_peer = peer_text (pp_codec honest_side) [2],
      rt_files = file_count empty_manifest, rt_bytes = mf_total_bytes empty_manifest\<rparr>)"
  by (rule honest_transfer_completes [
      where side = honest_side and lo = honest_sender and lookup = "\<lambda>_. LookupKey []" and a = empty_archive and dir = honest_dir and
      k = 0 and ?fs1.0 = honest_disk and mf = empty_manifest and drs = honest_draws and n = 0 and c = "run_conn\<lparr>cn_fs := []\<rparr>" and
      m = Map.empty and peer = "[2]" and evs = "[]" and tid = "TransferId [1]", OF honest_premises])

lemma libp2p_sender_sends_the_rest_witness:
  "\<exists>w' (offset :: u64) request response client_hello hello fin kem bss cs (keys :: session_keys) ch.
    offset \<le> td_archive_bytes (descriptor_for_archive (lo_source_id honest_sender) empty_archive) \<and>
    take (unat offset) (ar_file empty_archive) @ concat bss = ar_file empty_archive \<and>
    encrypt_all (env_aead honest_env) (env_secure_ser honest_env)
      (SecureHeader (ar_compression empty_archive) # map SecureArchiveChunk bss @ [SecureDone])
      \<lparr>ch_aead = chunk_aead_new (sk_send_key keys) session_key_tag, ch_sequence = 0\<rparr> = Some (ch, cs) \<and>
    run_trips (link_trip honest_side [2] honest_draws)
      ([ClientIntro protocol_version (Some (lo_name honest_sender)) (descriptor_for_archive (lo_source_id honest_sender) empty_archive)
          request client_hello, ClientFinish fin kem] @ map Secure cs) (0, Map.empty, run_conn\<lparr>cn_fs := []\<rparr>) =
      Some (w', [ServerIntro protocol_version offset response hello, Ack] @ replicate (length cs) Ack)"
proof -
  from honest_run [
      where side = honest_side and lo = honest_sender and lookup = "\<lambda>_. LookupKey []" and a = empty_archive and dir = honest_dir and
      k = 0 and ?fs1.0 = honest_disk and mf = empty_manifest and drs = honest_draws and n = 0 and c = "run_conn\<lparr>cn_fs := []\<rparr>" and
      m = Map.empty and peer = "[2]" and evs = "[]" and tid = "TransferId [1]", OF honest_premises]
  obtain w' evs' sent where run: "send_prebuilt_libp2p honest_env (pp_codec honest_side) (\<lambda>_. LookupKey [])
      (link_trip honest_side [2] honest_draws) honest_sender empty_archive (TransferId [1])
      ((0, Map.empty, run_conn\<lparr>cn_fs := []\<rparr>), []) = ((w', evs'), Inr sent)"
    by (auto simp: honest_side_def)
  from libp2p_sender_sends_the_rest [OF run] show ?thesis by blast
qed

end
