(* ===== verification/Opaque.thy ===== *)
theory Opaque
  imports Libp2p_Honest
begin

text \<open>
  The login (\<open>peerline-crypto/src/opaque.rs\<close>): what the receiver stores of a code, the two
  messages of a login and the keys at its end. The values of the OPAQUE crate are one type
  \<open>'v\<close>, each of a kind; its operations, their errors and the byte formats are a parameter, the draws of the
  random generator are arguments. The lemmas show that the records and messages this
  file passes as bytes are understood by the other side, so that a login with the registered code ends with one
  key on both sides, which is what the transfer sessions rely on.
\<close>

section \<open>The crate\<close>

datatype ke_kind = Ke_Setup | Ke_File | Ke_RegRequest | Ke_RegResponse | Ke_Upload | Ke_Request | Ke_Response | Ke_Final

record 'v opaque_ke =
  ke_kind_of :: "'v \<Rightarrow> ke_kind"
  ke_bytes :: "'v \<Rightarrow> bytes"
  ke_read :: "ke_kind \<Rightarrow> bytes \<Rightarrow> string + 'v"
  ke_setup :: "bytes \<Rightarrow> 'v"
  ke_reg_start :: "bytes \<Rightarrow> bytes \<Rightarrow> string + ('v \<times> 'v)"
  ke_reg_respond :: "'v \<Rightarrow> 'v \<Rightarrow> bytes \<Rightarrow> string + 'v"
  ke_reg_finish :: "'v \<Rightarrow> bytes \<Rightarrow> bytes \<Rightarrow> 'v \<Rightarrow> string + 'v"
  ke_reg_file :: "'v \<Rightarrow> 'v"
  ke_login_start :: "bytes \<Rightarrow> bytes \<Rightarrow> string + ('v \<times> 'v)"
  ke_login_respond :: "bytes \<Rightarrow> 'v \<Rightarrow> 'v \<Rightarrow> 'v \<Rightarrow> bytes \<Rightarrow> string + ('v \<times> 'v)"
  ke_login_finish :: "'v \<Rightarrow> bytes \<Rightarrow> bytes \<Rightarrow> 'v \<Rightarrow> string + ('v \<times> bytes)"
  ke_server_finish :: "'v \<Rightarrow> 'v \<Rightarrow> string + bytes"

section \<open>The wrapper\<close>

datatype opaque_error = Opaque_Protocol string

fun protocol :: "string + 'a \<Rightarrow> opaque_error + 'a" where
  "protocol (Inl e) = Inl (Opaque_Protocol e)"
| "protocol (Inr x) = Inr x"

record opaque_server_record =
  or_server_setup :: bytes
  or_password_file :: bytes
  or_identifier :: bytes

text \<open>The state of a started login, with the message that goes out.\<close>

type_synonym 'v opaque_start = "bytes \<times> 'v"

text \<open>\<open>draw\<close> gives the bytes of the generator for the first, second and third use.\<close>

definition create_server_record :: "'v opaque_ke \<Rightarrow> (nat \<Rightarrow> bytes) \<Rightarrow> bytes \<Rightarrow> bytes \<Rightarrow> opaque_error + opaque_server_record" where
  "create_server_record ke draw password identifier =
     (let server_setup = ke_setup ke (draw 0) in
      and_then (protocol (ke_reg_start ke (draw 1) password)) (\<lambda>(client_message, client_state).
      and_then (protocol (ke_read ke Ke_RegRequest (ke_bytes ke client_message))) (\<lambda>request.
      and_then (protocol (ke_reg_respond ke server_setup request identifier)) (\<lambda>server_message.
      and_then (protocol (ke_read ke Ke_RegResponse (ke_bytes ke server_message))) (\<lambda>response.
      and_then (protocol (ke_reg_finish ke client_state (draw 2) password response)) (\<lambda>client_finish.
      and_then (protocol (ke_read ke Ke_Upload (ke_bytes ke client_finish))) (\<lambda>upload.
        Inr \<lparr>or_server_setup = ke_bytes ke server_setup, or_password_file = ke_bytes ke (ke_reg_file ke upload),
             or_identifier = identifier\<rparr>)))))))"

definition start_client_login :: "'v opaque_ke \<Rightarrow> bytes \<Rightarrow> bytes \<Rightarrow> opaque_error + 'v opaque_start" where
  "start_client_login ke draw password =
     and_then (protocol (ke_login_start ke draw password)) (\<lambda>(message, state). Inr (ke_bytes ke message, state))"

definition start_server_login :: "'v opaque_ke \<Rightarrow> bytes \<Rightarrow> opaque_server_record \<Rightarrow> bytes \<Rightarrow> opaque_error + 'v opaque_start" where
  "start_server_login ke draw record request =
     and_then (protocol (ke_read ke Ke_Setup (or_server_setup record))) (\<lambda>setup.
     and_then (protocol (ke_read ke Ke_File (or_password_file record))) (\<lambda>password_file.
     and_then (protocol (ke_read ke Ke_Request request)) (\<lambda>request.
     and_then (protocol (ke_login_respond ke draw setup password_file request (or_identifier record))) (\<lambda>(message, state).
       Inr (ke_bytes ke message, state)))))"

definition client_login_finish :: "'v opaque_ke \<Rightarrow> bytes \<Rightarrow> 'v \<Rightarrow> bytes \<Rightarrow> bytes \<Rightarrow> opaque_error + (bytes \<times> bytes)" where
  "client_login_finish ke draw state password response =
     and_then (protocol (ke_read ke Ke_Response response)) (\<lambda>response.
     and_then (protocol (ke_login_finish ke state draw password response)) (\<lambda>(message, session_key).
       Inr (ke_bytes ke message, session_key)))"

definition server_login_finish :: "'v opaque_ke \<Rightarrow> 'v \<Rightarrow> bytes \<Rightarrow> opaque_error + bytes" where
  "server_login_finish ke state finalization =
     and_then (protocol (ke_read ke Ke_Final finalization)) (\<lambda>finalization.
       protocol (ke_server_finish ke state finalization))"

section \<open>What the crate promises\<close>

text \<open>Values read back from their bytes as the kind they are, and every operation makes values of its kind.\<close>

definition ke_serial :: "'v opaque_ke \<Rightarrow> bool" where
  "ke_serial ke \<longleftrightarrow> (\<forall>v. ke_read ke (ke_kind_of ke v) (ke_bytes ke v) = Inr v)"

definition ke_typed :: "'v opaque_ke \<Rightarrow> bool" where
  "ke_typed ke \<longleftrightarrow>
     (\<forall>c. ke_kind_of ke (ke_setup ke c) = Ke_Setup) \<and>
     (\<forall>c p m s. ke_reg_start ke c p = Inr (m, s) \<longrightarrow> ke_kind_of ke m = Ke_RegRequest) \<and>
     (\<forall>s m i r. ke_reg_respond ke s m i = Inr r \<longrightarrow> ke_kind_of ke r = Ke_RegResponse) \<and>
     (\<forall>s c p m u. ke_reg_finish ke s c p m = Inr u \<longrightarrow> ke_kind_of ke u = Ke_Upload) \<and>
     (\<forall>u. ke_kind_of ke (ke_reg_file ke u) = Ke_File) \<and>
     (\<forall>c p m s. ke_login_start ke c p = Inr (m, s) \<longrightarrow> ke_kind_of ke m = Ke_Request) \<and>
     (\<forall>c s f m i r t. ke_login_respond ke c s f m i = Inr (r, t) \<longrightarrow> ke_kind_of ke r = Ke_Response) \<and>
     (\<forall>s c p m f k. ke_login_finish ke s c p m = Inr (f, k) \<longrightarrow> ke_kind_of ke f = Ke_Final)"

text \<open>The file is the one of this password and identifier, registered with this setup.\<close>

definition ke_registered :: "'v opaque_ke \<Rightarrow> bytes \<Rightarrow> bytes \<Rightarrow> 'v \<Rightarrow> 'v \<Rightarrow> bool" where
  "ke_registered ke password identifier setup file \<longleftrightarrow>
     (\<exists>c m s r d u. ke_reg_start ke c password = Inr (m, s) \<and> ke_reg_respond ke setup m identifier = Inr r \<and>
        ke_reg_finish ke s d password r = Inr u \<and> file = ke_reg_file ke u)"

definition ke_registers :: "'v opaque_ke \<Rightarrow> bytes \<Rightarrow> bytes \<Rightarrow> bool" where
  "ke_registers ke password identifier \<longleftrightarrow>
     (\<forall>a c d. \<exists>m s r u. ke_reg_start ke c password = Inr (m, s) \<and> ke_reg_respond ke (ke_setup ke a) m identifier = Inr r \<and>
        ke_reg_finish ke s d password r = Inr u)"

definition ke_logs_in :: "'v opaque_ke \<Rightarrow> bytes \<Rightarrow> bytes \<Rightarrow> bool" where
  "ke_logs_in ke password identifier \<longleftrightarrow>
     (\<forall>a file c d e. ke_registered ke password identifier (ke_setup ke a) file \<longrightarrow>
        (\<exists>m s r t f key. ke_login_start ke c password = Inr (m, s) \<and>
           ke_login_respond ke d (ke_setup ke a) file m identifier = Inr (r, t) \<and>
           ke_login_finish ke s e password r = Inr (f, key) \<and> ke_server_finish ke t f = Inr key))"

definition opaque_ke_ok :: "'v opaque_ke \<Rightarrow> bytes \<Rightarrow> bytes \<Rightarrow> bool" where
  "opaque_ke_ok ke password identifier \<longleftrightarrow>
     ke_serial ke \<and> ke_typed ke \<and> ke_registers ke password identifier \<and> ke_logs_in ke password identifier"

lemma ke_reads: "ke_serial ke \<Longrightarrow> ke_kind_of ke v = k \<Longrightarrow> ke_read ke k (ke_bytes ke v) = Inr v"
  by (auto simp: ke_serial_def)

lemma ke_kinds:
  assumes "ke_typed ke"
  shows "ke_kind_of ke (ke_setup ke c) = Ke_Setup"
    and "ke_kind_of ke (ke_reg_file ke v) = Ke_File"
    and "ke_reg_start ke c p = Inr (m, s) \<Longrightarrow> ke_kind_of ke m = Ke_RegRequest"
    and "ke_reg_respond ke v m i = Inr u \<Longrightarrow> ke_kind_of ke u = Ke_RegResponse"
    and "ke_reg_finish ke v c p m = Inr u \<Longrightarrow> ke_kind_of ke u = Ke_Upload"
    and "ke_login_start ke c p = Inr (m, s) \<Longrightarrow> ke_kind_of ke m = Ke_Request"
    and "ke_login_respond ke c v w m i = Inr (u, s) \<Longrightarrow> ke_kind_of ke u = Ke_Response"
    and "ke_login_finish ke v c p m = Inr (u, key) \<Longrightarrow> ke_kind_of ke u = Ke_Final"
  using assms unfolding ke_typed_def by meson+

lemma server_record_made:
  assumes "opaque_ke_ok ke password identifier"
  obtains stored pf where "create_server_record ke draw password identifier = Inr stored"
    and "stored = \<lparr>or_server_setup = ke_bytes ke (ke_setup ke (draw 0)), or_password_file = ke_bytes ke pf,
           or_identifier = identifier\<rparr>"
    and "ke_registered ke password identifier (ke_setup ke (draw 0)) pf" and "ke_kind_of ke pf = Ke_File"
proof -
  have s: "ke_serial ke" and t: "ke_typed ke" and r: "ke_registers ke password identifier"
    using assms by (simp_all add: opaque_ke_ok_def)
  from r obtain m st resp u where run: "ke_reg_start ke (draw 1) password = Inr (m, st)"
      "ke_reg_respond ke (ke_setup ke (draw 0)) m identifier = Inr resp"
      "ke_reg_finish ke st (draw 2) password resp = Inr u"
    unfolding ke_registers_def by metis
  have "ke_kind_of ke m = Ke_RegRequest" "ke_kind_of ke resp = Ke_RegResponse" "ke_kind_of ke u = Ke_Upload"
      "ke_kind_of ke (ke_reg_file ke u) = Ke_File"
    using run by (simp_all add: ke_kinds [OF t])
  moreover have "ke_registered ke password identifier (ke_setup ke (draw 0)) (ke_reg_file ke u)"
    using run unfolding ke_registered_def by blast
  ultimately show thesis
    by (intro that [of _ "ke_reg_file ke u"]) (simp_all add: create_server_record_def run ke_reads [OF s] Let_def del: One_nat_def)
qed

section \<open>The login of the sessions\<close>

text \<open>
  The sessions keep the record and the states as bytes; a \<open>state_code\<close> writes and reads them. An
  error of the wrapper is \<open>None\<close>.
\<close>

record 'v state_code =
  sd_record :: "opaque_server_record \<Rightarrow> bytes"
  sd_record_of :: "bytes \<Rightarrow> opaque_server_record"
  sd_state :: "'v \<Rightarrow> bytes"
  sd_state_of :: "bytes \<Rightarrow> 'v"

definition state_code_ok :: "'v state_code \<Rightarrow> bool" where
  "state_code_ok sd \<longleftrightarrow> (\<forall>r. sd_record_of sd (sd_record sd r) = r) \<and> (\<forall>v. sd_state_of sd (sd_state sd v) = v)"

fun to_option :: "'e + 'a \<Rightarrow> 'a option" where
  "to_option (Inl e) = None"
| "to_option (Inr x) = Some x"

definition opaque_suite_of :: "'v opaque_ke \<Rightarrow> 'v state_code \<Rightarrow> (nat \<Rightarrow> bytes) \<Rightarrow> opaque_suite" where
  "opaque_suite_of ke sd draw =
     \<lparr>opq_record = \<lambda>password identifier. map_option (sd_record sd) (to_option (create_server_record ke draw password identifier)),
      opq_client_start = \<lambda>password. map_option (map_prod id (sd_state sd)) (to_option (start_client_login ke (draw 3) password)),
      opq_server_start = \<lambda>stored request.
        map_option (map_prod id (sd_state sd)) (to_option (start_server_login ke (draw 4) (sd_record_of sd stored) request)),
      opq_client_finish = \<lambda>state password response. to_option (client_login_finish ke (draw 5) (sd_state_of sd state) password response),
      opq_server_finish = \<lambda>state finalization. to_option (server_login_finish ke (sd_state_of sd state) finalization)\<rparr>"

text \<open>
  C13. A login with the registered code ends with one key on both sides, for the sessions of every
  transport: the wrapper loses nothing between the crate and the bytes it sends. It holds for a
  crate whose values read back from their bytes and whose typed protocol agrees.
\<close>

theorem opaque_login_agrees:
  assumes ke: "opaque_ke_ok ke password identifier" and sd: "state_code_ok sd"
  shows "opaque_agrees (opaque_suite_of ke sd draw) password identifier"
proof -
  have s: "ke_serial ke" and t: "ke_typed ke" and l: "ke_logs_in ke password identifier"
    using ke by (simp_all add: opaque_ke_ok_def)
  obtain stored pf where stored: "create_server_record ke draw password identifier = Inr stored"
      "stored = \<lparr>or_server_setup = ke_bytes ke (ke_setup ke (draw 0)), or_password_file = ke_bytes ke pf, or_identifier = identifier\<rparr>"
      "ke_registered ke password identifier (ke_setup ke (draw 0)) pf" "ke_kind_of ke pf = Ke_File"
    using server_record_made [OF ke] .
  from l stored(3) obtain m st r sst f key where run: "ke_login_start ke (draw 3) password = Inr (m, st)"
      "ke_login_respond ke (draw 4) (ke_setup ke (draw 0)) pf m identifier = Inr (r, sst)"
      "ke_login_finish ke st (draw 5) password r = Inr (f, key)" "ke_server_finish ke sst f = Inr key"
    unfolding ke_logs_in_def by metis
  have "ke_kind_of ke (ke_setup ke (draw 0)) = Ke_Setup" "ke_kind_of ke m = Ke_Request" "ke_kind_of ke r = Ke_Response"
      "ke_kind_of ke f = Ke_Final"
    using run by (simp_all add: ke_kinds [OF t])
  then have "start_client_login ke (draw 3) password = Inr (ke_bytes ke m, st)"
      "start_server_login ke (draw 4) stored (ke_bytes ke m) = Inr (ke_bytes ke r, sst)"
      "client_login_finish ke (draw 5) st password (ke_bytes ke r) = Inr (ke_bytes ke f, key)"
      "server_login_finish ke sst (ke_bytes ke f) = Inr key"
    by (simp_all add: start_client_login_def start_server_login_def client_login_finish_def server_login_finish_def
        stored(2,4) run ke_reads [OF s])
  with stored(1) sd show ?thesis
    unfolding opaque_agrees_def by (simp add: opaque_suite_of_def state_code_ok_def)
qed

text \<open>Bytes that the crate does not read as what they should be never give a key.\<close>

theorem unreadable_login_rejected:
  assumes "ke_read ke Ke_Request request = Inl e" and "ke_read ke Ke_Response response = Inl e'"
    and "ke_read ke Ke_Final finalization = Inl e''"
  shows "\<not> is_ok (start_server_login ke draw stored request)"
    and "client_login_finish ke draw state password response = Inl (Opaque_Protocol e')"
    and "server_login_finish ke state finalization = Inl (Opaque_Protocol e'')"
proof -
  show "\<not> is_ok (start_server_login ke draw stored request)"
    using assms(1) by (cases "ke_read ke Ke_Setup (or_server_setup stored)"; cases "ke_read ke Ke_File (or_password_file stored)")
      (simp_all add: start_server_login_def)
qed (simp_all add: assms client_login_finish_def server_login_finish_def)

section \<open>An instance\<close>

text \<open>
  A crate whose values are a kind with bytes: the password travels in the messages, and both sides
  take it, behind the identifier, as their key when it is the one on file.
\<close>

fun kind_byte :: "ke_kind \<Rightarrow> u8" where
  "kind_byte Ke_Setup = 1" | "kind_byte Ke_File = 2" | "kind_byte Ke_RegRequest = 3" | "kind_byte Ke_RegResponse = 4"
| "kind_byte Ke_Upload = 5" | "kind_byte Ke_Request = 6" | "kind_byte Ke_Response = 7" | "kind_byte Ke_Final = 8"

definition plain_ke :: "(ke_kind \<times> bytes) opaque_ke" where
  "plain_ke = \<lparr>ke_kind_of = fst, ke_bytes = (\<lambda>(k, b). kind_byte k # b),
     ke_read = (\<lambda>k b. case b of [] \<Rightarrow> Inl ''empty'' | x # r \<Rightarrow> if x = kind_byte k then Inr (k, r) else Inl ''kind''),
     ke_setup = (\<lambda>c. (Ke_Setup, c)),
     ke_reg_start = (\<lambda>c p. Inr ((Ke_RegRequest, p), (Ke_RegRequest, p))),
     ke_reg_respond = (\<lambda>s m i. Inr (Ke_RegResponse, snd m)),
     ke_reg_finish = (\<lambda>s c p m. Inr (Ke_Upload, p)),
     ke_reg_file = (\<lambda>u. (Ke_File, snd u)),
     ke_login_start = (\<lambda>c p. Inr ((Ke_Request, p), (Ke_Request, p))),
     ke_login_respond = (\<lambda>c s f m i. Inr ((Ke_Response, snd f), (Ke_Response, snd f))),
     ke_login_finish = (\<lambda>s c p m. if p = snd m then Inr ((Ke_Final, p), p) else Inl ''password''),
     ke_server_finish = (\<lambda>t f. if snd f = snd t then Inr (snd t) else Inl ''password'')\<rparr>"

fun kind_of_byte :: "u8 \<Rightarrow> ke_kind" where
  "kind_of_byte x = (if x = 1 then Ke_Setup else if x = 2 then Ke_File else if x = 3 then Ke_RegRequest
     else if x = 4 then Ke_RegResponse else if x = 5 then Ke_Upload else if x = 6 then Ke_Request
     else if x = 7 then Ke_Response else Ke_Final)"

lemma kind_of_kind_byte: "kind_of_byte (kind_byte k) = k"
  by (cases k) simp_all

text \<open>A byte vector that says where it ends: a one before every byte, a zero behind the last.\<close>

definition delimited :: "bytes \<Rightarrow> bytes" where
  "delimited b = concat (map (\<lambda>x. [1, x]) b) @ [0]"

fun read_delimited :: "bytes \<Rightarrow> bytes \<times> bytes" where
  "read_delimited (m # x # r) = (if m = 0 then ([], x # r) else case read_delimited r of (b, rest) \<Rightarrow> (x # b, rest))"
| "read_delimited [m] = ([], [])"
| "read_delimited [] = ([], [])"

lemma read_delimited_app [simp]: "read_delimited (delimited b @ r) = (b, r)"
proof (induction b)
  case Nil
  then show ?case by (cases r) (simp_all add: delimited_def)
qed (simp add: delimited_def)

definition plain_code :: "(ke_kind \<times> bytes) state_code" where
  "plain_code = \<lparr>sd_record = (\<lambda>r. delimited (or_server_setup r) @ delimited (or_password_file r) @ or_identifier r),
     sd_record_of = (\<lambda>b. case read_delimited b of (setup, r) \<Rightarrow> case read_delimited r of (file, i) \<Rightarrow>
       \<lparr>or_server_setup = setup, or_password_file = file, or_identifier = i\<rparr>),
     sd_state = (\<lambda>(k, b). kind_byte k # b), sd_state_of = (\<lambda>b. (kind_of_byte (hd b), tl b))\<rparr>"

lemma plain_code_ok: "state_code_ok plain_code"
  by (auto simp: state_code_ok_def plain_code_def kind_of_kind_byte simp del: kind_of_byte.simps)

lemma plain_ke_ok: "opaque_ke_ok plain_ke p i"
proof -
  have "ke_serial plain_ke" by (auto simp: ke_serial_def plain_ke_def)
  moreover have "ke_typed plain_ke" by (auto simp: ke_typed_def plain_ke_def split: if_splits)
  moreover have "ke_registers plain_ke p i" by (auto simp: ke_registers_def plain_ke_def)
  moreover have "ke_logs_in plain_ke p i" by (auto simp: ke_logs_in_def ke_registered_def plain_ke_def)
  ultimately show ?thesis by (simp add: opaque_ke_ok_def)
qed

lemma opaque_login_agrees_witness:
  "opaque_agrees (opaque_suite_of plain_ke plain_code (\<lambda>_. [])) [114, 111, 115, 101] [97]"
  by (rule opaque_login_agrees [OF plain_ke_ok plain_code_ok])

lemma unreadable_login_rejected_witness:
  "\<not> is_ok (start_server_login plain_ke [] \<lparr>or_server_setup = [1], or_password_file = [2, 5], or_identifier = []\<rparr> [7]) \<and>
   client_login_finish plain_ke [] (Ke_Request, [5]) [5] [] = Inl (Opaque_Protocol ''empty'') \<and>
   server_login_finish plain_ke (Ke_Response, [5]) [9] = Inl (Opaque_Protocol ''kind'')"
  using unreadable_login_rejected [of plain_ke "[7]" "''kind''" "[]" "''empty''" "[9]" "''kind''"]
  by (simp add: plain_ke_def)

end
