(* ===== verification/Cli_Args.thy ===== *)
theory Cli_Args
  imports Discovery_Config Config Tunnel_Url
begin

text \<open>
  The command line of \<open>peerline-cli/src/main.rs\<close>: what its arguments mean. The options of \<open>recv\<close>
  and \<open>send\<close> become a discovery configuration, the positional arguments a direct target or a name,
  a code and paths, and the routes a status line. Parsing the options themselves is clap's, and a
  generated name or code takes its random draws as arguments. The lemmas show that a route switched
  off is off, and which variables of the environment the options override.
\<close>

section \<open>Options\<close>

datatype compression_arg = Arg_Auto | Arg_None | Arg_Zstd | Arg_Lzma

fun compression_from_arg :: "compression_arg \<Rightarrow> compression" where
  "compression_from_arg Arg_Auto = Auto"
| "compression_from_arg Arg_None = CompressNone"
| "compression_from_arg Arg_Zstd = Zstd"
| "compression_from_arg Arg_Lzma = Lzma"

datatype tunnel_provider_arg = Arg_Cloudflared | Arg_Localtunnel | Arg_Tmole

fun provider_from_arg :: "tunnel_provider_arg \<Rightarrow> tunnel_provider" where
  "provider_from_arg Arg_Cloudflared = Cloudflared"
| "provider_from_arg Arg_Localtunnel = Localtunnel"
| "provider_from_arg Arg_Tmole = Tmole"

record recv_args =
  ra_first :: "string option"
  ra_second :: "string option"
  ra_port :: u16
  ra_overwrite :: bool
  ra_no_tui :: bool
  ra_allow_relay_fallback :: bool
  ra_no_relay_fallback :: bool
  ra_no_upnp :: bool
  ra_no_nat_pmp_pcp :: bool
  ra_no_quic :: bool
  ra_no_dcutr :: bool
  ra_no_turn :: bool
  ra_tor :: bool
  ra_no_tor :: bool
  ra_no_i2p :: bool
  ra_i2p_sam :: socket_addr
  ra_tunnel :: "tunnel_provider_arg option"
  ra_idle_timeout_minutes :: real

record send_args =
  sa_args :: "string list"
  sa_name :: "string option"
  sa_code :: "string option"
  sa_compression :: compression_arg
  sa_allow_relay_fallback :: bool
  sa_no_relay_fallback :: bool
  sa_no_upnp :: bool
  sa_no_nat_pmp_pcp :: bool
  sa_no_quic :: bool
  sa_no_dcutr :: bool
  sa_no_turn :: bool
  sa_no_tor :: bool
  sa_no_i2p :: bool
  sa_i2p_sam :: socket_addr
  sa_tor_socks_proxy :: socket_addr
  sa_retry_attempts :: nat

definition default_recv_idle_timeout_minutes :: real where
  "default_recv_idle_timeout_minutes = 10"

definition default_retry_attempts :: nat where "default_retry_attempts = 5"

datatype cli_error =
    Cli_BadRetryCount | Cli_ZeroRetries | Cli_Identity identity_error | Cli_NeedsSavedName | Cli_NoPaths
  | Cli_NameWithoutCode | Cli_CodeWithoutName | Cli_Usage | Cli_NoPathsForIp | Cli_Unreachable
  | Cli_Config config_error

definition parse_retry_attempts :: "string \<Rightarrow> cli_error + nat" where
  "parse_retry_attempts value =
     (case parse_unsigned (2 ^ 64) value of
        None \<Rightarrow> Inl Cli_BadRetryCount
      | Some attempts \<Rightarrow> if attempts = 0 then Inl Cli_ZeroRetries else Inr attempts)"

section \<open>The discovery configuration\<close>

definition relay_fallback_enabled :: "bool \<Rightarrow> bool \<Rightarrow> bool" where
  "relay_fallback_enabled allow no = (allow \<or> \<not> no)"

record disable_flags =
  df_no_upnp :: bool
  df_no_nat_pmp_pcp :: bool
  df_no_quic :: bool
  df_no_dcutr :: bool
  df_no_turn :: bool
  df_no_tor :: bool
  df_no_i2p :: bool

definition flags_from_recv :: "recv_args \<Rightarrow> disable_flags" where
  "flags_from_recv a =
     \<lparr>df_no_upnp = ra_no_upnp a, df_no_nat_pmp_pcp = ra_no_nat_pmp_pcp a, df_no_quic = ra_no_quic a,
      df_no_dcutr = ra_no_dcutr a, df_no_turn = ra_no_turn a, df_no_tor = ra_no_tor a, df_no_i2p = ra_no_i2p a\<rparr>"

definition flags_from_send :: "send_args \<Rightarrow> disable_flags" where
  "flags_from_send a =
     \<lparr>df_no_upnp = sa_no_upnp a, df_no_nat_pmp_pcp = sa_no_nat_pmp_pcp a, df_no_quic = sa_no_quic a,
      df_no_dcutr = sa_no_dcutr a, df_no_turn = sa_no_turn a, df_no_tor = sa_no_tor a, df_no_i2p = sa_no_i2p a\<rparr>"

definition apply_discovery_flags :: "disable_flags \<Rightarrow> 'u discovery_config \<Rightarrow> 'u discovery_config" where
  "apply_discovery_flags f d =
     (let d1 = (if df_no_upnp f then d\<lparr>dc_enable_upnp := False\<rparr> else d);
          d2 = (if df_no_nat_pmp_pcp f then d1\<lparr>dc_enable_natpmp_pcp := False\<rparr> else d1);
          d3 = (if df_no_quic f then d2\<lparr>dc_enable_quic := False\<rparr> else d2);
          d4 = (if df_no_dcutr f then d3\<lparr>dc_enable_dcutr := False\<rparr> else d3);
          d5 = (if df_no_turn f then d4\<lparr>dc_enable_turn := False\<rparr> else d4);
          d6 = (if df_no_tor f then d5\<lparr>dc_enable_tor := False\<rparr> else d5);
          d7 = (if df_no_i2p f then d6\<lparr>dc_enable_i2p := False\<rparr> else d6)
      in if \<not> dc_enable_turn d7 then d7\<lparr>dc_webrtc_ice_servers := without_turn_ice_servers (dc_webrtc_ice_servers d7)\<rparr>
         else d7)"

definition recv_discovery_config :: "'u config_env \<Rightarrow> recv_args \<Rightarrow> 'u discovery_config" where
  "recv_discovery_config cv a =
     (let d0 = (default_discovery_config cv)
                 \<lparr>dc_allow_relay_data_fallback := relay_fallback_enabled (ra_allow_relay_fallback a) (ra_no_relay_fallback a)\<rparr>;
          d1 = (apply_discovery_flags (flags_from_recv a) d0)\<lparr>dc_i2p_sam := ra_i2p_sam a\<rparr>
      in if ra_tor a then d1\<lparr>dc_enable_tor := True\<rparr> else d1)"

definition send_discovery_config :: "'u config_env \<Rightarrow> send_args \<Rightarrow> 'u discovery_config" where
  "send_discovery_config cv a =
     (let d0 = (default_discovery_config cv)
                 \<lparr>dc_allow_relay_data_fallback := relay_fallback_enabled (sa_allow_relay_fallback a) (sa_no_relay_fallback a),
                  dc_tor_socks_proxy := sa_tor_socks_proxy a\<rparr>
      in (apply_discovery_flags (flags_from_send a) d0)\<lparr>dc_i2p_sam := sa_i2p_sam a\<rparr>)"

definition recv_public_tunnel_provider :: "recv_args \<Rightarrow> tunnel_provider option" where
  "recv_public_tunnel_provider a = map_option provider_from_arg (ra_tunnel a)"

section \<open>Status lines\<close>

text \<open>The entry of a list of routes that is there only when a condition holds.\<close>

definition when_on :: "bool \<Rightarrow> string \<Rightarrow> string list" where
  "when_on b s = (if b then [s] else [])"

definition recv_route_status :: "'u discovery_config \<Rightarrow> tunnel_provider option \<Rightarrow> bool \<Rightarrow> bool \<Rightarrow> string" where
  "recv_route_status d provider tor_onion i2p =
     join_with '', ''
       ([''direct TCP''] @
        (case provider of None \<Rightarrow> [] | Some p \<Rightarrow> [provider_label p @ '' public tunnel'']) @
        when_on tor_onion ''Tor onion'' @ when_on i2p ''I2P'' @ [''libp2p TCP''] @
        when_on (dc_libp2p_rendezvous_peers d \<noteq> []) ''libp2p rendezvous'' @
        when_on (dc_enable_quic d) ''libp2p QUIC'' @ when_on (dc_enable_dcutr d) ''DCUtR'' @
        [if dc_enable_turn d then ''WebRTC/TURN'' else ''WebRTC direct''] @
        when_on (dc_allow_relay_data_fallback d) ''relay fallback'')"

definition send_route_status :: "'u discovery_config \<Rightarrow> string" where
  "send_route_status d =
     join_with '', ''
       ([''rendezvous'', ''DHT'', ''mDNS''] @
        when_on (dc_libp2p_rendezvous_peers d \<noteq> []) ''libp2p rendezvous'' @
        when_on (dc_enable_public_tunnels d) ''public tunnel'' @ when_on (dc_enable_tor d) ''Tor onion'' @
        when_on (dc_enable_i2p d) ''I2P'' @ [''direct TCP''] @
        when_on (dc_enable_quic d) ''QUIC'' @ when_on (dc_enable_dcutr d) ''DCUtR'' @
        [if dc_enable_turn d then ''WebRTC/TURN'' else ''WebRTC direct''] @
        when_on (dc_allow_relay_data_fallback d) ''relay fallback'')"

section \<open>Positional arguments\<close>

datatype direct_target = Target_Exact socket_addr | Target_Ip ip_addr

definition direct_endpoint_arg :: "send_args \<Rightarrow> direct_target option" where
  "direct_endpoint_arg a =
     (if sa_name a \<noteq> None then None
      else case sa_args a of
        [] \<Rightarrow> None
      | value # _ \<Rightarrow>
          (case parse_sock value of
             Some endpoint \<Rightarrow> Some (Target_Exact endpoint)
           | None \<Rightarrow> map_option Target_Ip (parse_ip value)))"

definition cli_name :: "string \<Rightarrow> cli_error + human_name" where
  "cli_name s = (case human_name_parse s of Inl e \<Rightarrow> Inl (Cli_Identity e) | Inr n \<Rightarrow> Inr n)"

definition cli_code :: "string \<Rightarrow> cli_error + human_code" where
  "cli_code s = (case human_code_parse s of Inl e \<Rightarrow> Inl (Cli_Identity e) | Inr c \<Rightarrow> Inr c)"

fun resolve_recv_identity ::
  "human_name \<Rightarrow> human_code \<Rightarrow> human_name option \<Rightarrow> string option \<Rightarrow> string option \<Rightarrow>
   cli_error + (human_name \<times> human_code)" where
  "resolve_recv_identity fresh_name fresh_code saved None None =
     Inr (case saved of Some n \<Rightarrow> n | None \<Rightarrow> fresh_name, fresh_code)"
| "resolve_recv_identity fresh_name fresh_code (Some name) (Some raw) None =
     and_then (cli_code raw) (\<lambda>c. Inr (name, c))"
| "resolve_recv_identity fresh_name fresh_code None (Some _) None = Inl Cli_NeedsSavedName"
| "resolve_recv_identity fresh_name fresh_code saved (Some name) (Some raw) =
     and_then (cli_name name) (\<lambda>n. and_then (cli_code raw) (\<lambda>c. Inr (n, c)))"
| "resolve_recv_identity fresh_name fresh_code saved None (Some _) = Inl Cli_Unreachable"

fun resolve_named_send :: "send_args \<Rightarrow> cli_error + (human_name \<times> human_code \<times> string list)" where
  "resolve_named_send a =
     (case (sa_name a, sa_code a) of
        (Some name, Some raw) \<Rightarrow>
          if sa_args a = [] then Inl Cli_NoPaths
          else and_then (cli_name name) (\<lambda>n. and_then (cli_code raw) (\<lambda>c. Inr (n, c, sa_args a)))
      | (Some _, None) \<Rightarrow> Inl Cli_NameWithoutCode
      | (None, Some _) \<Rightarrow> Inl Cli_CodeWithoutName
      | (None, None) \<Rightarrow>
          (case sa_args a of
             name # raw # path # paths \<Rightarrow>
               and_then (cli_name name) (\<lambda>n. and_then (cli_code raw) (\<lambda>c. Inr (n, c, path # paths)))
           | _ \<Rightarrow> Inl Cli_Usage))"

text \<open>The code and the paths of a direct send; \<open>prompt\<close> is the password prompt.\<close>

definition resolve_direct_send :: "string \<Rightarrow> send_args \<Rightarrow> cli_error + (human_code \<times> string list)" where
  "resolve_direct_send prompt a =
     and_then (cli_code (case sa_code a of Some raw \<Rightarrow> raw | None \<Rightarrow> prompt)) (\<lambda>c.
       let paths = drop 1 (sa_args a) in if paths = [] then Inl Cli_NoPathsForIp else Inr (c, paths))"

definition set_name ::
  "(string \<Rightarrow> config option) \<Rightarrow> (config \<Rightarrow> string option) \<Rightarrow> config_store \<Rightarrow> string \<Rightarrow> fs \<Rightarrow> fs \<times> (cli_error + unit)" where
  "set_name from_toml to_toml st raw fs =
     (case cli_name raw of
        Inl e \<Rightarrow> (fs, Inl e)
      | Inr name \<Rightarrow>
          (case config_set_name from_toml to_toml st name fs of
             (fs', Inl e) \<Rightarrow> (fs', Inl (Cli_Config e))
           | (fs', Inr _) \<Rightarrow> (fs', Inr ())))"

section \<open>What the options switch off\<close>

lemma apply_flags_sel [simp]:
  "dc_enable_upnp (apply_discovery_flags f d) = (dc_enable_upnp d \<and> \<not> df_no_upnp f)"
  "dc_enable_natpmp_pcp (apply_discovery_flags f d) = (dc_enable_natpmp_pcp d \<and> \<not> df_no_nat_pmp_pcp f)"
  "dc_enable_quic (apply_discovery_flags f d) = (dc_enable_quic d \<and> \<not> df_no_quic f)"
  "dc_enable_dcutr (apply_discovery_flags f d) = (dc_enable_dcutr d \<and> \<not> df_no_dcutr f)"
  "dc_enable_turn (apply_discovery_flags f d) = (dc_enable_turn d \<and> \<not> df_no_turn f)"
  "dc_enable_tor (apply_discovery_flags f d) = (dc_enable_tor d \<and> \<not> df_no_tor f)"
  "dc_enable_i2p (apply_discovery_flags f d) = (dc_enable_i2p d \<and> \<not> df_no_i2p f)"
  "dc_enable_public_tunnels (apply_discovery_flags f d) = dc_enable_public_tunnels d"
  "dc_allow_relay_data_fallback (apply_discovery_flags f d) = dc_allow_relay_data_fallback d"
  "dc_libp2p_rendezvous_peers (apply_discovery_flags f d) = dc_libp2p_rendezvous_peers d"
  "dc_webrtc_ice_servers (apply_discovery_flags f d) =
     (if dc_enable_turn d \<and> \<not> df_no_turn f then dc_webrtc_ice_servers d
      else without_turn_ice_servers (dc_webrtc_ice_servers d))"
  by (simp_all add: apply_discovery_flags_def Let_def)

text \<open>
  The route kinds a sender's options rule out: what the discovery configuration then excludes.
\<close>

definition switched_off :: "send_args \<Rightarrow> route_kind set" where
  "switched_off a =
     (if sa_no_tor a then {Rk_TorOnion} else {}) \<union> (if sa_no_i2p a then {Rk_I2p} else {}) \<union>
     (if sa_no_quic a then {Rk_Libp2pQuic} else {}) \<union> (if sa_no_dcutr a then {Rk_Libp2pDcutr} else {}) \<union>
     (if sa_no_turn a then {Rk_WebRtcTurn} else {}) \<union>
     (if sa_no_relay_fallback a \<and> \<not> sa_allow_relay_fallback a then {Rk_Libp2pRelay} else {})"

lemma switched_off_disabled:
  "r \<in> switched_off a \<Longrightarrow> \<not> route_enabled (send_discovery_config cv a) r"
  by (auto simp: switched_off_def send_discovery_config_def Let_def flags_from_send_def relay_fallback_enabled_def
      split: if_splits)

lemma no_turn_servers:
  "sa_no_turn a \<Longrightarrow> s \<in> set (dc_webrtc_ice_servers (send_discovery_config cv a)) \<Longrightarrow> u \<in> set (is_urls s) \<Longrightarrow> \<not> is_turn_url u"
  by (auto simp: send_discovery_config_def Let_def flags_from_send_def dest: without_turn_sound)

text \<open>
  The variables \<open>PEERLINE_I2P_SAM\<close> and \<open>PEERLINE_DISABLE_RELAY_FALLBACK\<close> never reach a sender or a
  receiver: the options, whose values are always there, replace them.
\<close>

lemma environment_overridden:
  "dc_i2p_sam (send_discovery_config cv sa) = sa_i2p_sam sa"
  "dc_i2p_sam (recv_discovery_config cv ra) = ra_i2p_sam ra"
  "dc_allow_relay_data_fallback (send_discovery_config cv sa) = (sa_allow_relay_fallback sa \<or> \<not> sa_no_relay_fallback sa)"
  "dc_allow_relay_data_fallback (recv_discovery_config cv ra) = (ra_allow_relay_fallback ra \<or> \<not> ra_no_relay_fallback ra)"
  by (simp_all add: send_discovery_config_def recv_discovery_config_def Let_def relay_fallback_enabled_def)

section \<open>What the positional arguments mean\<close>

text \<open>
  A sender's name and code are accepted in exactly three shapes, and whatever is accepted parses to
  itself.
\<close>

lemma resolve_named_send_Inr:
  assumes "resolve_named_send a = Inr (n, c, paths)"
  shows "\<exists>raw_name raw_code. human_name_parse raw_name = Inr n \<and> human_code_parse raw_code = Inr c \<and> paths \<noteq> [] \<and>
    (sa_name a = Some raw_name \<and> sa_code a = Some raw_code \<and> paths = sa_args a \<or>
     sa_name a = None \<and> sa_code a = None \<and> sa_args a = raw_name # raw_code # paths)"
  using assms
  by (auto simp: and_then_Inr cli_name_def cli_code_def split: option.splits if_splits list.splits sum.splits)

lemma parse_retry_attempts_Inr: "parse_retry_attempts s = Inr n \<Longrightarrow> 0 < n \<and> n < 2 ^ 64"
  by (auto simp: parse_retry_attempts_def parse_unsigned_def digits_below_def split: option.splits if_splits list.splits)

lemma parse_retry_attempts_dec: "0 < n \<Longrightarrow> n < 2 ^ 64 \<Longrightarrow> parse_retry_attempts (dec_str n) = Inr n"
  by (simp add: parse_retry_attempts_def parse_unsigned_dec_str)

end
