(* ===== verification/Cli_Wait.thy ===== *)
theory Cli_Wait
  imports Cli_Args Direct_Session
begin

text \<open>
  How the command line waits (\<open>peerline-cli/src/main/wait.rs\<close>): for a task or the user's quit, for
  a retry or a quit, for the first of several receiving paths, and for a receiver that may fall
  idle. What a \<open>select!\<close> sees is the list of what becomes ready, in that order, with the time where
  time matters; a list that ends is a wait that is still pending. The lemmas say when each wait
  ends and with what.
\<close>

section \<open>Errors and durations\<close>

text \<open>
  An \<open>anyhow\<close> error as the command line looks at it: its text, and the kind of a \<open>TransferError\<close>
  when it is one.
\<close>

datatype any_error = Untyped string | Typed transfer_error_kind string

fun any_text :: "any_error \<Rightarrow> string" where
  "any_text (Untyped s) = s"
| "any_text (Typed _ s) = s"

text \<open>Durations are in milliseconds.\<close>

definition format_duration :: "nat \<Rightarrow> string" where
  "format_duration ms =
     (let seconds = ms div 1000 in
      if 60 \<le> seconds \<and> seconds mod 60 = 0 then dec_str (seconds div 60) @ '' min''
      else if 0 < seconds then dec_str seconds @ ''s''
      else dec_str ms @ ''ms'')"

text \<open>
  A double as a number, an infinity or no number; \<open>parse\<close> is \<open>f64::from_str\<close>. Products are taken
  exactly, without the rounding of doubles. A number of seconds that no duration holds is a panic.
\<close>

datatype f64 = F64_Number real | F64_Infinite | F64_NaN

definition parse_idle_timeout_minutes :: "(string \<Rightarrow> f64 option) \<Rightarrow> string \<Rightarrow> real option" where
  "parse_idle_timeout_minutes parse value =
     (case parse value of
        Some (F64_Number m) \<Rightarrow> if m < 0 then None else Some m
      | _ \<Rightarrow> None)"

datatype idle_timeout = Never_Idle | Idle_After nat | Idle_Panic

definition recv_idle_timeout :: "real \<Rightarrow> idle_timeout" where
  "recv_idle_timeout minutes =
     (if minutes = 0 then Never_Idle
      else if 2 ^ 64 \<le> minutes * 60 then Idle_Panic
      else Idle_After (nat \<lfloor>minutes * 60 * 1000\<rfloor>))"

section \<open>A task or the user's quit\<close>

text \<open>
  The watch channel of the dashboard: a new value, or its sender gone. A receiver whose value is
  not true, or whose sender is gone, is given up.
\<close>

datatype 'a task_outcome = Completed 'a | Quit

datatype 'a wait_event = Task_Ready "any_error + 'a" | Task_Quit "bool option"

text \<open>The flag says whether the quit receiver is still there.\<close>

fun wait_with_quit :: "bool \<Rightarrow> 'a wait_event list \<Rightarrow> (bool \<times> (any_error + 'a task_outcome)) option" where
  "wait_with_quit q [] = None"
| "wait_with_quit q (Task_Ready r # es) = Some (q, case r of Inl e \<Rightarrow> Inl e | Inr x \<Rightarrow> Inr (Completed x))"
| "wait_with_quit q (Task_Quit v # es) =
     (if q then (if v = Some True then Some (q, Inr Quit) else wait_with_quit False es) else wait_with_quit q es)"

lemma wait_with_quit_result:
  assumes "wait_with_quit q es = Some (q', r)"
  shows "(r = Inr Quit \<and> q \<and> Task_Quit (Some True) \<in> set es) \<or>
    (\<exists>x. Task_Ready x \<in> set es \<and> r = (case x of Inl e \<Rightarrow> Inl e | Inr y \<Rightarrow> Inr (Completed y)))"
  using assms by (induction q es rule: wait_with_quit.induct) (auto split: if_splits)

lemma wait_with_quit_ends:
  "Task_Ready x \<in> set es \<Longrightarrow> wait_with_quit q es \<noteq> None"
  by (induction q es rule: wait_with_quit.induct) auto

section \<open>A retry or a quit\<close>

datatype retry_decision = Decide_Retry | Decide_Quit

text \<open>A retry channel delivers a signal, or is closed.\<close>

datatype retry_event = Re_Quit "bool option" | Re_Signal | Re_Closed

text \<open>The flags say whether the quit receiver and the retry receiver are still there.\<close>

fun wait_for_retry_or_quit :: "bool \<Rightarrow> bool \<Rightarrow> retry_event list \<Rightarrow> (bool \<times> bool \<times> retry_decision) option" where
  "wait_for_retry_or_quit q r [] = None"
| "wait_for_retry_or_quit q r (Re_Quit v # es) =
     (if \<not> q then wait_for_retry_or_quit q r es
      else if v = Some True then Some (q, r, Decide_Quit)
      else wait_for_retry_or_quit False r es)"
| "wait_for_retry_or_quit q r (Re_Signal # es) =
     (if r then Some (q, r, Decide_Retry) else wait_for_retry_or_quit q r es)"
| "wait_for_retry_or_quit q r (Re_Closed # es) =
     (if \<not> r then wait_for_retry_or_quit q r es
      else if \<not> q then Some (q, False, Decide_Quit)
      else wait_for_retry_or_quit q False es)"

lemma wait_for_retry_dead: "wait_for_retry_or_quit False False es = None"
proof (induction es)
  case (Cons e es)
  then show ?case by (cases e) simp_all
qed simp

lemma retry_wins:
  "wait_for_retry_or_quit q r es = Some (q', r', Decide_Retry) \<Longrightarrow> r \<and> Re_Signal \<in> set es"
  by (induction q r es rule: wait_for_retry_or_quit.induct) (auto split: if_splits)

definition drain_retry_signals :: "retry_event list \<Rightarrow> retry_event list" where
  "drain_retry_signals es = dropWhile (\<lambda>e. e = Re_Signal) es"

section \<open>The first path that receives\<close>

text \<open>
  The results of the paths in the order they end; \<open>n\<close> paths are still running. A path that fails
  is only noted: the receiver fails when every path has.
\<close>

fun wait_for_receiver :: "nat \<Rightarrow> any_error option \<Rightarrow> (any_error + 'a) list \<Rightarrow> (any_error + 'a) option" where
  "wait_for_receiver 0 last_error rs =
     Some (Inl (case last_error of Some e \<Rightarrow> e | None \<Rightarrow> Untyped ''receiver stopped without a completed transfer''))"
| "wait_for_receiver (Suc n) last_error [] = None"
| "wait_for_receiver (Suc n) last_error (Inr x # rs) = Some (Inr x)"
| "wait_for_receiver (Suc n) last_error (Inl e # rs) = wait_for_receiver n (Some e) rs"

lemma wait_for_receiver_result:
  assumes "wait_for_receiver n last_error rs = Some r" "length rs \<le> n"
  shows "case r of Inr x \<Rightarrow> Inr x \<in> set rs | Inl e \<Rightarrow> length rs = n \<and> (\<forall>x. Inr x \<notin> set rs)"
  using assms
  by (induction n last_error rs rule: wait_for_receiver.induct) (auto split: sum.splits)

section \<open>A receiver that may fall idle\<close>

fun is_recv_activity_event :: "peerline_event \<Rightarrow> bool" where
  "is_recv_activity_event (TransferStarted _ _ _ _ _) = True"
| "is_recv_activity_event (Progress _ _ _) = True"
| "is_recv_activity_event (StageChanged s) =
     (case s of ReceivingManifest \<Rightarrow> True | Transferring \<Rightarrow> True | Verifying \<Rightarrow> True | Complete \<Rightarrow> True
      | Failed _ \<Rightarrow> True | _ \<Rightarrow> False)"
| "is_recv_activity_event _ = False"

text \<open>Every event goes to the dashboard, in order; those that are activity are also signalled.\<close>

definition event_fanout :: "peerline_event list \<Rightarrow> peerline_event list \<times> nat" where
  "event_fanout evs = (evs, length (filter is_recv_activity_event evs))"

datatype 'a recv_outcome = Recv_Completed 'a | Recv_Quit | Recv_IdleTimeout

datatype 'a activity_event = Act_Done "any_error + 'a" | Act_Quit "bool option" | Act_Signal | Act_Closed

definition restart :: "nat option \<Rightarrow> nat \<Rightarrow> nat option" where
  "restart idle_timeout now = map_option (\<lambda>d. now + d) idle_timeout"

text \<open>The timer has fired when the next event comes after the deadline.\<close>

definition fired :: "nat option \<Rightarrow> nat \<Rightarrow> nat option" where
  "fired until t = (case until of None \<Rightarrow> None | Some d \<Rightarrow> if d < t then Some d else None)"

text \<open>
  The events with their times; at the end of the list nothing else ever happens. The flags say
  whether the quit receiver is still there and the activity channel open.
\<close>

fun wait_for_recv_activity ::
  "nat option \<Rightarrow> nat option \<Rightarrow> bool \<Rightarrow> bool \<Rightarrow> (nat \<times> 'a activity_event) list \<Rightarrow>
   (nat \<times> bool \<times> (any_error + 'a recv_outcome)) option" where
  "wait_for_recv_activity idle_timeout until q a [] = map_option (\<lambda>d. (d, q, Inr Recv_IdleTimeout)) until"
| "wait_for_recv_activity idle_timeout until q a ((t, e) # es) =
     (case fired until t of
        Some d \<Rightarrow> Some (d, q, Inr Recv_IdleTimeout)
      | None \<Rightarrow>
          (case e of
             Act_Done r \<Rightarrow> Some (t, q, case r of Inl x \<Rightarrow> Inl x | Inr y \<Rightarrow> Inr (Recv_Completed y))
           | Act_Quit v \<Rightarrow>
               if q \<and> v = Some True then Some (t, q, Inr Recv_Quit)
               else wait_for_recv_activity idle_timeout until False a es
           | Act_Signal \<Rightarrow>
               wait_for_recv_activity idle_timeout (if a then restart idle_timeout t else until) q a es
           | Act_Closed \<Rightarrow> wait_for_recv_activity idle_timeout until q False es))"

lemma wait_for_recv_activity_cases:
  assumes "wait_for_recv_activity idle_timeout until q a es = Some (d, q', r)"
    and "sorted (map fst es)"
  shows "(r = Inr Recv_IdleTimeout \<and> (\<forall>t x. (t, Act_Done x) \<in> set es \<longrightarrow> d < t) \<and>
      (until = Some d \<or> (\<exists>l. (l, Act_Signal) \<in> set es \<and> restart idle_timeout l = Some d))) \<or>
    (r = Inr Recv_Quit \<and> q \<and> (d, Act_Quit (Some True)) \<in> set es) \<or>
    (\<exists>x. (d, Act_Done x) \<in> set es \<and> r = (case x of Inl e \<Rightarrow> Inl e | Inr y \<Rightarrow> Inr (Recv_Completed y)))"
  using assms
proof (induction es arbitrary: until q a)
  case Nil
  then show ?case by auto
next
  case (Cons te es)
  obtain t e where te: "te = (t, e)" by fastforce
  from Cons.prems(2) have s: "sorted (map fst es)" "\<forall>u x. (u, x) \<in> set es \<longrightarrow> t \<le> u" by (auto simp: te)
  show ?case
  proof (cases "fired until t")
    case (Some d')
    then have "d = d'" "r = Inr Recv_IdleTimeout" "until = Some d'" "d' < t"
      using Cons.prems(1) by (auto simp: te fired_def split: option.splits if_splits)
    with s(2) show ?thesis by (fastforce simp: te)
  next
    case None
    note go = Cons.prems(1)[unfolded te, simplified None wait_for_recv_activity.simps option.case]
    show ?thesis
    proof (cases e)
      case (Act_Done x)
      with go show ?thesis by (auto simp: te)
    next
      case (Act_Quit v)
      with go Cons.IH [OF _ s(1)] show ?thesis unfolding te by (auto split: if_splits; blast)
    next
      case Act_Signal
      with go Cons.IH [OF _ s(1), of "if a then restart idle_timeout t else until" q a] show ?thesis
        unfolding te by (auto split: if_splits; blast)
    next
      case Act_Closed
      with go Cons.IH [OF _ s(1), of until q False] show ?thesis unfolding te by auto
    qed
  qed
qed

lemma wait_for_recv_activity_ends:
  "until \<noteq> None \<Longrightarrow> idle_timeout \<noteq> None \<Longrightarrow> wait_for_recv_activity idle_timeout until q a es \<noteq> None"
  by (induction idle_timeout until q a es rule: wait_for_recv_activity.induct)
    (auto simp: restart_def split: option.splits activity_event.splits)

lemma never_idle:
  "wait_for_recv_activity None None q a es = Some (d, q', r) \<Longrightarrow> r \<noteq> Inr Recv_IdleTimeout"
  by (induction es arbitrary: q a) (auto simp: fired_def restart_def split: activity_event.splits if_splits sum.splits)

text \<open>A receiver that falls idle has been: no activity was signalled for that long.\<close>

lemma idle_is_idle:
  assumes "wait_for_recv_activity (Some i) (Some (l + i)) q True es = Some (d, q', Inr Recv_IdleTimeout)"
    and "sorted (l # map fst es)" "Act_Closed \<notin> snd ` set es"
  shows "l + i \<le> d \<and> (\<forall>u. (u, Act_Signal) \<in> set es \<and> u \<le> d \<longrightarrow> u + i \<le> d)"
  using assms
proof (induction es arbitrary: l q)
  case (Cons te es)
  obtain t e where te: "te = (t, e)" by fastforce
  show ?case
  proof (cases "l + i < t")
    case True
    with Cons.prems(1) have d: "d = l + i" by (simp add: te fired_def)
    have "t \<le> u" if "(u, x) \<in> set (te # es)" for u x using that Cons.prems(2) by (fastforce simp: te)
    with True d show ?thesis by fastforce
  next
    case False
    then have nf: "fired (Some (l + i)) t = None" by (simp add: fired_def)
    note go = Cons.prems(1) [unfolded te, simplified nf wait_for_recv_activity.simps option.case]
    have later: "sorted (l # map fst es)" "sorted (t # map fst es)" "Act_Closed \<notin> snd ` set es" "l \<le> t"
      using Cons.prems(2,3) by (auto simp: te)
    show ?thesis
    proof (cases e)
      case (Act_Quit v)
      with go have "wait_for_recv_activity (Some i) (Some (l + i)) False True es = Some (d, q', Inr Recv_IdleTimeout)"
        by (auto split: if_splits)
      from Cons.IH [OF this later(1,3)] Act_Quit show ?thesis by (auto simp: te)
    next
      case Act_Signal
      with go have "wait_for_recv_activity (Some i) (Some (t + i)) q True es = Some (d, q', Inr Recv_IdleTimeout)"
        by (simp add: restart_def)
      from Cons.IH [OF this later(2,3)] Act_Signal later(4) show ?thesis by (auto simp: te)
    next
      case (Act_Done x)
      with go show ?thesis by (auto split: sum.splits)
    qed (use Cons.prems(3) te in auto)
  qed
qed simp



text \<open>
  After a failed transfer the sender waits for a retry or a quit from the dashboard. When the
  dashboard has ended without either, both its channels are closed, and what happens depends on
  which closed channel is seen first: if it is the quit channel, the sender quits; if it is the
  retry channel, the wait never ends, whatever happens later.
\<close>

theorem retry_wait_may_hang:
  "wait_for_retry_or_quit True True (Re_Quit None # Re_Closed # es) = Some (False, False, Decide_Quit) \<and>
   wait_for_retry_or_quit True True (Re_Closed # Re_Quit None # es) = None"
  by (simp add: wait_for_retry_dead)

end
