(* ===== verification/Cli_Start.thy ===== *)
theory Cli_Start
  imports Cli_Wait I2p_Address Discovery_Loop
begin

text \<open>
  How a receiver starts its extra transports (\<open>peerline-cli/src/main.rs\<close>, from
  \<open>start_public_tunnel\<close> to \<open>extract_public_tunnel_url\<close>, and \<open>peerline-cli/src/main/i2p.rs\<close>): the
  tunnel command, the Tor process with its configuration, the I2P router. What the external
  programs do is a parameter: whether a command can be spawned, and at every turn of a polling
  loop what has been reported, whether the process has exited, and the time. A list of turns that
  ends is a wait that is still polling. The lemmas show that every wait ends by its deadline and
  that what it returns was reported.
\<close>

section \<open>Commands\<close>

datatype spawn_result = Spawned | Spawn_NotFound | Spawn_Failed string

type_synonym shell_command = "string \<times> string list"

definition loopback_text :: string where "loopback_text = ''127.0.0.1''"

fun public_tunnel_command_candidates :: "tunnel_provider \<Rightarrow> nat \<Rightarrow> shell_command list" where
  "public_tunnel_command_candidates Cloudflared port =
     [(''cloudflared'', [''tunnel'', ''--url'', ''http://127.0.0.1:'' @ dec_str port])]"
| "public_tunnel_command_candidates Localtunnel port =
     map (\<lambda>c. (c, [''--port'', dec_str port, ''--local-host'', loopback_text])) [''lt'', ''localtunnel'']"
| "public_tunnel_command_candidates Tmole port = [(''tmole'', [dec_str port])]"

text \<open>The first candidate that can be spawned; only a missing command leads to the next.\<close>

fun spawn_first :: "(shell_command \<Rightarrow> spawn_result) \<Rightarrow> string list \<Rightarrow> shell_command list \<Rightarrow> (string list + string) + shell_command" where
  "spawn_first spawn not_found [] = Inl (Inl not_found)"
| "spawn_first spawn not_found (c # cs) =
     (case spawn c of
        Spawned \<Rightarrow> Inr c
      | Spawn_NotFound \<Rightarrow> spawn_first spawn (not_found @ [fst c]) cs
      | Spawn_Failed e \<Rightarrow> Inl (Inr e))"

definition spawn_public_tunnel_process :: "(shell_command \<Rightarrow> spawn_result) \<Rightarrow> tunnel_provider \<Rightarrow> nat \<Rightarrow> any_error + shell_command" where
  "spawn_public_tunnel_process spawn provider port =
     (case spawn_first spawn [] (public_tunnel_command_candidates provider port) of
        Inr c \<Rightarrow> Inr c
      | Inl (Inl not_found) \<Rightarrow> Inl (Untyped (''could not find '' @ provider_label provider @ '' tunnel command ('' @
          join_with '', '' not_found @ '')''))
      | Inl (Inr e) \<Rightarrow> Inl (Untyped e))"

record router_command =
  ir_command :: string
  ir_args :: "string list"
  ir_expect_foreground :: bool

definition i2p_router_command_candidates :: "router_command list" where
  "i2p_router_command_candidates =
     [\<lparr>ir_command = ''i2pd'', ir_args = [], ir_expect_foreground = True\<rparr>,
      \<lparr>ir_command = ''i2prouter'', ir_args = [''start''], ir_expect_foreground = False\<rparr>]"

text \<open>What is kept of the router's process is whether it stays in the foreground.\<close>

definition spawn_i2p_router_process :: "(shell_command \<Rightarrow> spawn_result) \<Rightarrow> socket_addr \<Rightarrow> any_error + bool" where
  "spawn_i2p_router_process spawn sam_addr =
     (case spawn_first spawn [] (map (\<lambda>c. (ir_command c, ir_args c)) i2p_router_command_candidates) of
        Inr c \<Rightarrow> Inr (list_ex (\<lambda>r. ir_command r = fst c \<and> ir_expect_foreground r) i2p_router_command_candidates)
      | Inl (Inl not_found) \<Rightarrow> Inl (Untyped (''no SAM service on '' @ sock_str sam_addr @
          ''; install and start I2P/i2pd, or provide --i2p-sam for an existing SAM bridge (tried: '' @
          join_with '', '' not_found @ '')''))
      | Inl (Inr e) \<Rightarrow> Inl (Untyped e))"

text \<open>The configuration of Tor, and the files in its temporary directory.\<close>

definition torrc_contents :: "string \<Rightarrow> string \<Rightarrow> nat \<Rightarrow> string" where
  "torrc_contents data_dir hidden_service_dir local_port =
     ''DataDirectory '' @ data_dir @ nl @ ''SocksPort 0'' @ nl @ ''ControlPort 0'' @ nl @
     ''HiddenServiceDir '' @ hidden_service_dir @ nl @
     ''HiddenServicePort 80 127.0.0.1:'' @ dec_str local_port @ nl @ ''Log notice stdout'' @ nl"

record tor_process =
  tor_torrc :: "string \<times> string"
  tor_hidden_service_dir :: string

text \<open>\<open>made\<close> is the temporary directory or the error of making it or writing the file.\<close>

definition spawn_tor_onion_process :: "(shell_command \<Rightarrow> spawn_result) \<Rightarrow> any_error + string \<Rightarrow> nat \<Rightarrow> any_error + tor_process" where
  "spawn_tor_onion_process spawn made local_port =
     and_then made (\<lambda>dir.
       let data_dir = dir @ ''/data''; hidden_service_dir = dir @ ''/onion-service''; torrc = dir @ ''/torrc'' in
       case spawn (''tor'', [''-f'', torrc]) of
         Spawned \<Rightarrow> Inr \<lparr>tor_torrc = (torrc, torrc_contents data_dir hidden_service_dir local_port),
           tor_hidden_service_dir = hidden_service_dir\<rparr>
       | Spawn_NotFound \<Rightarrow> Inl (Untyped ''could not find tor command; install Tor or run without --tor'')
       | Spawn_Failed e \<Rightarrow> Inl (Untyped e))"

section \<open>The address in a tunnel's output\<close>

fun find_sub :: "string \<Rightarrow> string \<Rightarrow> nat option" where
  "find_sub p [] = (if p = [] then Some 0 else None)"
| "find_sub p (c # s) = (if starts_with p (c # s) then Some 0 else map_option Suc (find_sub p s))"

definition url_start :: "string \<Rightarrow> nat option" where
  "url_start token =
     or_else (find_sub ''https://'' token) (or_else (find_sub ''http://'' token)
       (or_else (find_sub ''wss://'' token) (find_sub ''ws://'' token)))"

definition url_quote :: "char \<Rightarrow> bool" where
  "url_quote c \<longleftrightarrow> code c \<in> {34, 39, 96, 60, 62, 44, 59, 40, 41, 91, 93, 123, 125}"

definition trim_url :: "string \<Rightarrow> string" where
  "trim_url s =
     (let raw = rev (dropWhile url_quote (rev (dropWhile url_quote s))) in
      rev (dropWhile (\<lambda>c. c = CHR ''.'') (rev raw)))"

definition token_url :: "'u web_url \<Rightarrow> string \<Rightarrow> string option" where
  "token_url wu token =
     (case url_start token of
        None \<Rightarrow> None
      | Some start \<Rightarrow>
          (case normalize_public_tunnel_url wu (trim_url (drop start token)) of Inl _ \<Rightarrow> None | Inr url \<Rightarrow> Some url))"

fun pick_url :: "'u web_url \<Rightarrow> string option \<Rightarrow> string list \<Rightarrow> string option" where
  "pick_url wu fallback [] = fallback"
| "pick_url wu fallback (token # tokens) =
     (case token_url wu token of
        None \<Rightarrow> pick_url wu fallback tokens
      | Some url \<Rightarrow> if starts_with ''wss://'' url then Some url else pick_url wu (Some url) tokens)"

definition extract_public_tunnel_url :: "'u web_url \<Rightarrow> string \<Rightarrow> string option" where
  "extract_public_tunnel_url wu line = pick_url wu None (split_whitespace line)"

text \<open>What the readers of the two output streams send on, for lines in their order.\<close>

definition tunnel_output_urls :: "'u web_url \<Rightarrow> string list \<Rightarrow> string list" where
  "tunnel_output_urls wu lines = List.map_filter (extract_public_tunnel_url wu) lines"

section \<open>Waiting for the processes\<close>

text \<open>The status of a process: success, and how it is written.\<close>

datatype child_status = Child_Running | Child_Exited bool string | Child_Failed string

datatype url_received = Url_Got string | Url_Empty | Url_Closed

text \<open>
  One turn of the wait for a tunnel: what the readers have sent, the process, what comes within a
  second after the process has exited, and the time.
\<close>

record tunnel_turn =
  tt_received :: url_received
  tt_child :: child_status
  tt_late :: "string option"
  tt_now :: nat

fun wait_for_public_tunnel_url :: "tunnel_provider \<Rightarrow> nat \<Rightarrow> tunnel_turn list \<Rightarrow> (any_error + string) option" where
  "wait_for_public_tunnel_url provider until [] = None"
| "wait_for_public_tunnel_url provider until (p # ps) =
     (case tt_received p of
        Url_Got url \<Rightarrow> Some (Inr url)
      | Url_Closed \<Rightarrow> Some (Inl (Untyped (provider_label provider @ '' did not report a public URL'')))
      | Url_Empty \<Rightarrow>
          (case tt_child p of
             Child_Failed e \<Rightarrow> Some (Inl (Untyped e))
           | Child_Exited _ status \<Rightarrow>
               Some (case tt_late p of
                 Some url \<Rightarrow> Inr url
               | None \<Rightarrow> Inl (Untyped (provider_label provider @ '' exited before reporting a public URL: '' @ status)))
           | Child_Running \<Rightarrow>
               if until \<le> tt_now p
               then Some (Inl (Untyped (provider_label provider @ '' did not report a public URL within 45 seconds'')))
               else wait_for_public_tunnel_url provider until ps))"

datatype file_read = Read_Text string | Read_NotFound | Read_Failed string

record tor_turn =
  ot_child :: child_status
  ot_hostname :: file_read
  ot_now :: nat

fun wait_for_tor_onion_hostname :: "nat \<Rightarrow> tor_turn list \<Rightarrow> (any_error + string) option" where
  "wait_for_tor_onion_hostname until [] = None"
| "wait_for_tor_onion_hostname until (p # ps) =
     (let rest = (if until \<le> ot_now p
        then Some (Inl (Untyped ''Tor did not create an onion hostname within 90 seconds''))
        else wait_for_tor_onion_hostname until ps) in
      case ot_child p of
        Child_Failed e \<Rightarrow> Some (Inl (Untyped e))
      | Child_Exited _ status \<Rightarrow> Some (Inl (Untyped (''Tor exited before publishing an onion hostname: '' @ status)))
      | Child_Running \<Rightarrow>
          (case ot_hostname p of
             Read_Text hostname \<Rightarrow> if trim hostname \<noteq> [] then Some (Inr (trim hostname)) else rest
           | Read_NotFound \<Rightarrow> rest
           | Read_Failed e \<Rightarrow> Some (Inl (Untyped e))))"

text \<open>The bridge answers when connecting to it succeeds within two seconds; no answer is a timeout.\<close>

definition i2p_sam_available :: "bytes option option \<Rightarrow> bool" where
  "i2p_sam_available answer = (case answer of None \<Rightarrow> False | Some connection \<Rightarrow> is_ok (snd (sam_connect connection)))"

record i2p_turn =
  it_answer :: "bytes option option"
  it_child :: child_status
  it_now :: nat

fun wait_for_i2p_sam :: "socket_addr \<Rightarrow> bool \<Rightarrow> nat \<Rightarrow> i2p_turn list \<Rightarrow> (any_error + unit) option" where
  "wait_for_i2p_sam sam_addr foreground until [] = None"
| "wait_for_i2p_sam sam_addr foreground until (p # ps) =
     (let rest = (if until \<le> it_now p
        then Some (Inl (Untyped (''I2P SAM '' @ sock_str sam_addr @ '' did not become available within 90 seconds'')))
        else wait_for_i2p_sam sam_addr foreground until ps) in
      if i2p_sam_available (it_answer p) then Some (Inr ())
      else
        case it_child p of
          Child_Failed e \<Rightarrow> Some (Inl (Untyped e))
        | Child_Exited success status \<Rightarrow>
            if \<not> success \<or> foreground
            then Some (Inl (Untyped (''I2P router command exited before SAM became available: '' @ status)))
            else rest
        | Child_Running \<Rightarrow> rest)"

section \<open>Starting\<close>

text \<open>
  A started transport: the address peers use and the local port its listener is bound to. The
  result is pending while a wait is. Errors of the URL rules are shown by \<open>url_text\<close>, errors of the
  bridge by \<open>sam_text\<close>.
\<close>

record running_transport =
  ru_url :: string
  ru_local_port :: nat

definition start_public_tunnel ::
  "(shell_command \<Rightarrow> spawn_result) \<Rightarrow> any_error + nat \<Rightarrow> nat \<Rightarrow> tunnel_turn list \<Rightarrow> tunnel_provider \<Rightarrow>
   (any_error + running_transport) option" where
  "start_public_tunnel spawn bound now turns provider =
     (case bound of
        Inl e \<Rightarrow> Some (Inl e)
      | Inr port \<Rightarrow>
          (case spawn_public_tunnel_process spawn provider port of
             Inl e \<Rightarrow> Some (Inl e)
           | Inr _ \<Rightarrow>
               map_option (\<lambda>r. and_then r (\<lambda>url. Inr \<lparr>ru_url = url, ru_local_port = port\<rparr>))
                 (wait_for_public_tunnel_url provider (now + 45000) turns)))"

definition start_tor_onion ::
  "'u web_url \<Rightarrow> (url_error \<Rightarrow> string) \<Rightarrow> (shell_command \<Rightarrow> spawn_result) \<Rightarrow> any_error + string \<Rightarrow> any_error + nat \<Rightarrow> nat \<Rightarrow>
   tor_turn list \<Rightarrow> (any_error + running_transport) option" where
  "start_tor_onion wu url_text spawn made bound now turns =
     (case bound of
        Inl e \<Rightarrow> Some (Inl e)
      | Inr port \<Rightarrow>
          (case spawn_tor_onion_process spawn made port of
             Inl e \<Rightarrow> Some (Inl e)
           | Inr _ \<Rightarrow>
               map_option (\<lambda>r. and_then r (\<lambda>hostname.
                   case normalize_tor_onion_url wu hostname of
                     Inl e \<Rightarrow> Inl (Untyped (url_text e))
                   | Inr url \<Rightarrow> Inr \<lparr>ru_url = url, ru_local_port = port\<rparr>))
                 (wait_for_tor_onion_hostname (now + 90000) turns)))"

record i2p_world =
  iw_spawn :: "shell_command \<Rightarrow> spawn_result"
  iw_first_answer :: "bytes option option"
  iw_turns :: "i2p_turn list"
  iw_now :: nat
  iw_bound :: "any_error + nat"
  iw_sha256 :: "bytes \<Rightarrow> bytes"
  iw_b64 :: "string \<Rightarrow> bytes option"
  iw_random :: bytes
  iw_connections :: "bytes option \<times> bytes option \<times> bytes option"
  iw_sam_text :: "sam_error \<Rightarrow> string"
  iw_url_text :: "url_error \<Rightarrow> string"

text \<open>After the bridge answers: the listener, the session, the forward, the address.\<close>

definition i2p_session_steps :: "'u web_url \<Rightarrow> i2p_world \<Rightarrow> any_error + running_transport" where
  "i2p_session_steps wu w =
     and_then (iw_bound w) (\<lambda>port.
     case iw_connections w of (c1, c2, c3) \<Rightarrow>
       (case snd (create_i2p_stream_session (iw_sha256 w) (iw_b64 w) (iw_random w) c1) of
          Inl e \<Rightarrow> Inl (Untyped (iw_sam_text w e))
        | Inr session \<Rightarrow>
            (case forward_i2p_to_listener c2 c3 session (of_nat port) of
               Inl e \<Rightarrow> Inl (Untyped (iw_sam_text w e))
             | Inr _ \<Rightarrow>
                 (case normalize_i2p_url wu (i2p_b32 session) of
                    Inl e \<Rightarrow> Inl (Untyped (iw_url_text w e))
                  | Inr url \<Rightarrow> Inr \<lparr>ru_url = url, ru_local_port = port\<rparr>))))"

definition start_i2p :: "'u web_url \<Rightarrow> i2p_world \<Rightarrow> socket_addr \<Rightarrow> (any_error + running_transport) option" where
  "start_i2p wu w sam_addr =
     (if i2p_sam_available (iw_first_answer w) then Some (i2p_session_steps wu w)
      else
        case spawn_i2p_router_process (iw_spawn w) sam_addr of
          Inl e \<Rightarrow> Some (Inl e)
        | Inr foreground \<Rightarrow>
            map_option (\<lambda>r. and_then r (\<lambda>_. i2p_session_steps wu w))
              (wait_for_i2p_sam sam_addr foreground (iw_now w + 90000) (iw_turns w)))"

section \<open>Every wait ends\<close>

lemma tunnel_wait_ends: "p \<in> set ps \<Longrightarrow> until \<le> tt_now p \<Longrightarrow> wait_for_public_tunnel_url provider until ps \<noteq> None"
  by (induction ps) (auto split: url_received.splits child_status.splits)

lemma tor_wait_ends: "p \<in> set ps \<Longrightarrow> until \<le> ot_now p \<Longrightarrow> wait_for_tor_onion_hostname until ps \<noteq> None"
  by (induction ps) (auto simp: Let_def split: file_read.splits child_status.splits)

lemma i2p_wait_ends: "p \<in> set ps \<Longrightarrow> until \<le> it_now p \<Longrightarrow> wait_for_i2p_sam sam_addr foreground until ps \<noteq> None"
  by (induction ps) (auto simp: Let_def split: child_status.splits)

lemma tunnel_wait_reported:
  "wait_for_public_tunnel_url provider until ps = Some (Inr url) \<Longrightarrow>
   \<exists>p \<in> set ps. tt_received p = Url_Got url \<or> tt_late p = Some url"
  by (induction ps) (auto split: url_received.splits child_status.splits option.splits if_splits)

lemma tor_wait_reported:
  "wait_for_tor_onion_hostname until ps = Some (Inr hostname) \<Longrightarrow>
   hostname \<noteq> [] \<and> (\<exists>p \<in> set ps. \<exists>text. ot_hostname p = Read_Text text \<and> hostname = trim text)"
  by (induction ps) (auto simp: Let_def split: file_read.splits child_status.splits if_splits)

lemma i2p_wait_reported:
  "wait_for_i2p_sam sam_addr foreground until ps = Some (Inr ()) \<Longrightarrow> \<exists>p \<in> set ps. i2p_sam_available (it_answer p)"
  by (induction ps) (auto simp: Let_def split: child_status.splits if_splits)


definition quiet_tunnel :: "tunnel_turn list" where
  "quiet_tunnel = [\<lparr>tt_received = Url_Empty, tt_child = Child_Running, tt_late = None, tt_now = 45250\<rparr>]"

definition named_onion :: "tor_turn list" where
  "named_onion = [\<lparr>ot_child = Child_Running, ot_hostname = Read_NotFound, ot_now = 90000\<rparr>]"

definition absent_bridge :: i2p_world where
  "absent_bridge = \<lparr>iw_spawn = \<lambda>_. Spawned, iw_first_answer = None,
     iw_turns = [\<lparr>it_answer = None, it_child = Child_Running, it_now = 90000\<rparr>], iw_now = 0, iw_bound = Inr 5000,
     iw_sha256 = \<lambda>_. [], iw_b64 = \<lambda>_. None, iw_random = [], iw_connections = (None, None, None),
     iw_sam_text = \<lambda>_. [], iw_url_text = \<lambda>_. []\<rparr>"


section \<open>Which address of a tunnel's output\<close>

lemma pick_url_choice:
  "pick_url wu fallback tokens =
   (let urls = List.map_filter (token_url wu) tokens in
    case find (starts_with ''wss://'') urls of
      Some url \<Rightarrow> Some url
    | None \<Rightarrow> if urls = [] then fallback else Some (last urls))"
proof (induction tokens arbitrary: fallback)
  case (Cons t ts)
  show ?case
  proof (cases "token_url wu t")
    case None
    with Cons show ?thesis by (simp add: List.map_filter_def)
  next
    case (Some url)
    with Cons [of "Some url"] show ?thesis
      by (auto simp: List.map_filter_def Let_def split: option.splits)
  qed
qed (simp add: List.map_filter_def)

text \<open>
  The address taken from a line of a tunnel command's output is the first secure one: of the
  addresses the words of the line yield after trimming and normalisation, in order, the first that
  is a TLS web socket, and when there is none the last of the others; a line with no address yields
  none.
\<close>

theorem tunnel_address_choice:
  "extract_public_tunnel_url wu line =
   (let urls = List.map_filter (token_url wu) (split_whitespace line) in
    case find (starts_with ''wss://'') urls of
      Some url \<Rightarrow> Some url
    | None \<Rightarrow> if urls = [] then None else Some (last urls))"
  by (simp add: extract_public_tunnel_url_def pick_url_choice)

end
