(* ===== verification/Cli_Send.thy ===== *)
theory Cli_Send
  imports Cli_Wait Discovery_Loop Tunnel_Transfer Libp2p_Send
begin

text \<open>
  The sending side of the command line (\<open>peerline-cli/src/main.rs\<close>): which transport a candidate
  is sent over, the race of the routes of one attempt, the retries with their delays and the errors
  that end them, and the rounds the user asks for. The network of an attempt is what the peers
  would answer on each transport; the transports themselves are the models of \<open>peerline-net\<close>. The
  lemmas show that routes switched off are not used, that a failed attempt has tried every route,
  that retries are bounded, and where the kind of an error is lost.
\<close>

section \<open>Labels\<close>

fun route_label :: "route_kind \<Rightarrow> string" where
  "route_label Rk_LanDirect = ''lan-direct''"
| "route_label Rk_PublicDirect = ''public-direct''"
| "route_label Rk_PublicTunnel = ''public-tunnel''"
| "route_label Rk_TorOnion = ''tor-onion''"
| "route_label Rk_I2p = ''i2p''"
| "route_label Rk_Libp2pQuic = ''libp2p-quic''"
| "route_label Rk_Libp2pDcutr = ''libp2p-dcutr''"
| "route_label Rk_WebRtcDirect = ''webrtc-direct''"
| "route_label Rk_WebRtcTurn = ''webrtc-turn''"
| "route_label Rk_Libp2pRelay = ''libp2p-relay''"

definition format_candidate_routes :: "candidate list \<Rightarrow> string" where
  "format_candidate_routes cands =
     (let routes = remdups_adj (sort (map (\<lambda>c. route_label (cd_route c)) cands))
      in if routes = [] then ''none'' else join_with '', '' routes)"

abbreviation route_allowed :: "'u discovery_config \<Rightarrow> route_kind \<Rightarrow> bool" where
  "route_allowed cfg r \<equiv> route_enabled cfg r"

section \<open>One candidate\<close>

record 'u send_plan =
  pl_name :: human_name
  pl_code :: human_code
  pl_source_id :: node_id
  pl_discovery :: "'u discovery_config"
  pl_retry_attempts :: nat

text \<open>
  What the network answers: the bytes of the peer at a socket, the messages of a websocket peer
  over each kind of tunnel (nothing when the connection fails), whether opening it takes too long, and the round trips of a
  libp2p peer. The texts are those of the errors.
\<close>

record ('u, 'w) send_net =
  nt_env :: session_env
  nt_url :: "'u web_url"
  nt_codec :: libp2p_codec
  nt_lookup :: "name_code \<Rightarrow> lookup_key"
  nt_dial :: "socket_addr \<Rightarrow> bytes option"
  nt_dial_ws :: "connection_route \<Rightarrow> string \<Rightarrow> ws_message list option"
  nt_late :: "string \<Rightarrow> bool"
  nt_trip :: "peer_id \<Rightarrow> multiaddr list \<Rightarrow> 'w trip"
  nt_world :: 'w
  nt_session_text :: "session_error \<Rightarrow> string"
  nt_ws_text :: "ws_error \<Rightarrow> string"
  nt_parse_text :: "string \<Rightarrow> string"

fun any_of_transfer :: "(session_error \<Rightarrow> string) \<Rightarrow> transfer_error \<Rightarrow> any_error" where
  "any_of_transfer msg (Plain e) = Untyped (msg e)"
| "any_of_transfer msg (Kinded k e) = Typed k (msg e)"

fun any_of_ws :: "(session_error \<Rightarrow> string) \<Rightarrow> (ws_error \<Rightarrow> string) \<Rightarrow> ws_error \<Rightarrow> any_error" where
  "any_of_ws msg wmsg (Ws_Transfer e) = any_of_transfer msg e"
| "any_of_ws msg wmsg e = Untyped (wmsg e)"

datatype send_call =
    Call_Direct socket_addr
  | Call_PublicTunnel string
  | Call_TorOnion string socket_addr
  | Call_I2p string socket_addr
  | Call_Libp2p peer_id "multiaddr list" connection_route

definition static_endpoint :: socket_addr where "static_endpoint = sock_new (V4 127 0 0 1) 0"

definition first_address :: "string \<Rightarrow> candidate \<Rightarrow> any_error + string" where
  "first_address missing c = (case cd_addresses c of [] \<Rightarrow> Inl (Untyped missing) | a # _ \<Rightarrow> Inr a)"

text \<open>The addresses, all of which must parse; the first that does not gives the error.\<close>

fun parse_all :: "('a \<Rightarrow> 'b option) \<Rightarrow> ('a \<Rightarrow> string) \<Rightarrow> 'a list \<Rightarrow> any_error + 'b list" where
  "parse_all p msg [] = Inr []"
| "parse_all p msg (x # xs) =
     (case p x of None \<Rightarrow> Inl (Untyped (msg x)) | Some y \<Rightarrow> and_then (parse_all p msg xs) (\<lambda>ys. Inr (y # ys)))"

definition candidate_call ::
  "libp2p_codec \<Rightarrow> (string \<Rightarrow> string) \<Rightarrow> 'u discovery_config \<Rightarrow> candidate \<Rightarrow> any_error + send_call" where
  "candidate_call lp parse_text cfg c =
     (if cd_route c = Rk_LanDirect \<or> cd_route c = Rk_PublicDirect then
        ok_or (map_option Call_Direct
                 (Option.bind (case cd_addresses c of [] \<Rightarrow> None | a # _ \<Rightarrow> Some a) parse_ip_endpoint))
          (Untyped ''direct candidate missing socket endpoint'')
      else if cd_route c = Rk_PublicTunnel then
        and_then (first_address ''public tunnel candidate missing URL'' c) (\<lambda>url. Inr (Call_PublicTunnel url))
      else if cd_route c = Rk_TorOnion then
        and_then (first_address ''Tor onion candidate missing URL'' c)
          (\<lambda>url. Inr (Call_TorOnion url (dc_tor_socks_proxy cfg)))
      else if cd_route c = Rk_I2p then
        and_then (first_address ''I2P candidate missing URL'' c) (\<lambda>url. Inr (Call_I2p url (dc_i2p_sam cfg)))
      else
        and_then (ok_or (peer_parse lp (cd_peer_id c)) (Untyped (parse_text (cd_peer_id c)))) (\<lambda>peer.
        and_then (parse_all (addr_parse lp) parse_text (cd_addresses c)) (\<lambda>addrs.
          if addrs = [] then Inl (Untyped ''libp2p candidate missing multiaddr'')
          else Inr (Call_Libp2p peer addrs (route_connection (cd_route c))))))"

definition fresh_conn :: "bytes \<Rightarrow> conn" where
  "fresh_conn incoming = \<lparr>cn_fs = [], cn_in = incoming, cn_out = [], cn_events = []\<rparr>"

definition plan_options :: "'u send_plan \<Rightarrow> socket_addr \<Rightarrow> human_name option \<Rightarrow> send_options" where
  "plan_options plan endpoint name =
     \<lparr>so_endpoint = endpoint, so_name = name, so_code = pl_code plan, so_source_id = pl_source_id plan\<rparr>"

definition ws_result ::
  "('u, 'w) send_net \<Rightarrow> ws_conn \<times> (ws_error + sent_transfer) \<Rightarrow> any_error + sent_transfer" where
  "ws_result net r = (case snd r of Inl e \<Rightarrow> Inl (any_of_ws (nt_session_text net) (nt_ws_text net) e) | Inr s \<Rightarrow> Inr s)"

definition direct_result ::
  "('u, 'w) send_net \<Rightarrow> send_options \<Rightarrow> archive \<Rightarrow> transfer_id \<Rightarrow> any_error + sent_transfer" where
  "direct_result net opts a tid =
     (case nt_dial net (so_endpoint opts) of
        None \<Rightarrow> Inl (Untyped (nt_session_text net (Sess_Io NotFound)))
      | Some incoming \<Rightarrow>
          (case snd (send_prebuilt_direct (nt_env net) opts a tid (fresh_conn incoming)) of
             Inl e \<Rightarrow> Inl (any_of_transfer (nt_session_text net) e)
           | Inr s \<Rightarrow> Inr s))"

definition run_call ::
  "('u, 'w) send_net \<Rightarrow> 'v send_plan \<Rightarrow> archive \<Rightarrow> transfer_id \<Rightarrow> send_call \<Rightarrow> any_error + sent_transfer" where
  "run_call net plan a tid call =
     (let opts = plan_options plan static_endpoint (Some (pl_name plan));
          wc = \<lparr>wc_base = fresh_conn [], wc_in = [], wc_out = []\<rparr>
      in case call of
        Call_Direct endpoint \<Rightarrow> direct_result net (plan_options plan endpoint (Some (pl_name plan))) a tid
      | Call_PublicTunnel url \<Rightarrow>
          ws_result net (send_prebuilt_public_tunnel (nt_url net) (nt_env net) (nt_dial_ws net PublicTunnel) (nt_late net url) opts a tid url wc)
      | Call_TorOnion url proxy \<Rightarrow>
          ws_result net (send_prebuilt_tor_onion (nt_url net) proxy (nt_env net) (nt_dial_ws net TorOnion) (nt_late net url) opts a tid url wc)
      | Call_I2p url sam \<Rightarrow>
          ws_result net (send_prebuilt_i2p (nt_url net) sam (nt_env net) (nt_dial_ws net I2p) (nt_late net url) opts a tid url wc)
      | Call_Libp2p peer addrs route \<Rightarrow>
          (case snd (send_prebuilt_libp2p (nt_env net) (nt_codec net) (nt_lookup net) (nt_trip net peer addrs)
                       \<lparr>lo_peer = peer, lo_addresses = addrs, lo_name = pl_name plan, lo_code = pl_code plan,
                        lo_source_id = pl_source_id plan, lo_route = route\<rparr> a tid (nt_world net, [])) of
             Inl e \<Rightarrow> Inl (any_of_transfer (nt_session_text net) e)
           | Inr s \<Rightarrow> Inr s))"

definition send_candidate ::
  "('u, 'w) send_net \<Rightarrow> 'v send_plan \<Rightarrow> archive \<Rightarrow> transfer_id \<Rightarrow> candidate \<Rightarrow> any_error + sent_transfer" where
  "send_candidate net plan a tid c =
     and_then (candidate_call (nt_codec net) (nt_parse_text net) (pl_discovery plan) c) (run_call net plan a tid)"

section \<open>One attempt\<close>

definition anonymous :: "route_kind \<Rightarrow> bool" where
  "anonymous r \<longleftrightarrow> r = Rk_TorOnion \<or> r = Rk_I2p"

definition tor_fallback_delay :: nat where "tor_fallback_delay = 3 * 1000"

definition i2p_fallback_delay :: nat where "i2p_fallback_delay = 3 * 1000"

text \<open>
  The candidates that are tried, each with the time it waits first: the anonymous networks wait
  when another route is there to attempt.
\<close>

definition queued_attempts :: "'u discovery_config \<Rightarrow> candidate list \<Rightarrow> (candidate \<times> nat) list" where
  "queued_attempts cfg cands =
     (let delayed = (\<exists>c \<in> set cands. \<not> anonymous (cd_route c) \<and> route_allowed cfg (cd_route c)) in
      map (\<lambda>c. (c, if delayed \<and> anonymous (cd_route c)
                   then (if cd_route c = Rk_I2p then i2p_fallback_delay else tor_fallback_delay) else 0))
        (filter (\<lambda>c. route_allowed cfg (cd_route c)) cands))"

text \<open>The transfers race: one of those still running ends, or the user's quit channel speaks.\<close>

datatype race_event = Race_Ends nat | Race_Quit "bool option"

fun race ::
  "string \<Rightarrow> (candidate \<times> (any_error + sent_transfer)) list \<Rightarrow> bool \<Rightarrow> any_error option \<Rightarrow> peerline_event list \<Rightarrow>
   race_event list \<Rightarrow> (bool \<times> peerline_event list \<times> (any_error + sent_transfer task_outcome)) option" where
  "race name [] q last_error out es =
     Some (q, out, Inl (Untyped (''discovered '' @ name @ '', but all routes failed: '' @
       (case last_error of Some e \<Rightarrow> any_text e | None \<Rightarrow> ''no usable endpoint''))))"
| "race name (p # ps) q last_error out [] = None"
| "race name (p # ps) q last_error out (Race_Ends i # es) =
     (if i < length (p # ps) then
        (case (p # ps) ! i of
           (c, Inr s) \<Rightarrow> Some (q, out, Inr (Completed s))
         | (c, Inl e) \<Rightarrow>
             race name (take i (p # ps) @ drop (Suc i) (p # ps)) q (Some e)
               (out @ [Message (name @ '' via '' @ route_label (cd_route c) @ '' failed: '' @ any_text e)]) es)
      else race name (p # ps) q last_error out es)"
| "race name (p # ps) q last_error out (Race_Quit v # es) =
     (if q \<and> v = Some True then Some (q, out, Inr Quit) else race name (p # ps) False last_error out es)"

definition named_send_attempt ::
  "('u, 'w) send_net \<Rightarrow> 'v send_plan \<Rightarrow> archive \<Rightarrow> transfer_id \<Rightarrow> candidate list wait_event list \<Rightarrow> race_event list \<Rightarrow>
   bool \<Rightarrow> (bool \<times> peerline_event list \<times> (any_error + sent_transfer task_outcome)) option" where
  "named_send_attempt net plan a tid found es q =
     (let name = name_str (pl_name plan) in
      case wait_with_quit q found of
        None \<Rightarrow> None
      | Some (q1, Inl e) \<Rightarrow> Some (q1, [], Inl e)
      | Some (q1, Inr Quit) \<Rightarrow> Some (q1, [], Inr Quit)
      | Some (q1, Inr (Completed cands)) \<Rightarrow>
          if cands = [] then
            let m = ''could not discover a route for '' @ name in Some (q1, [Message m], Inl (Untyped m))
          else
            let queue = map fst (queued_attempts (pl_discovery plan) cands) in
            race name (map (\<lambda>c. (c, send_candidate net plan a tid c)) queue) q1 None
              (Message (''discovered routes: '' @ format_candidate_routes cands) #
               map (\<lambda>c. Message (''trying '' @ cd_peer_id c @ '' via '' @ route_label (cd_route c))) queue) es)"

section \<open>Retries\<close>

definition fatal_phrases :: "string list" where
  "fatal_phrases =
     [''receiver name mismatch'', ''incompatible peerline protocol version'', ''authentication'', ''hash mismatch'',
      ''protocol version'']"

fun is_fatal_error :: "any_error \<Rightarrow> bool" where
  "is_fatal_error (Typed k _) = (k = Fatal)"
| "is_fatal_error (Untyped m) = list_ex (\<lambda>p. contains_sub p m) fatal_phrases"

definition retry_base_ms :: "nat \<Rightarrow> nat" where
  "retry_base_ms k = (if k \<le> 1 then 0 else if k = 2 then 500 else if k = 3 then 1000 else if k = 4 then 2000
     else if k = 5 then 4000 else 8000)"

text \<open>\<open>delta\<close> is the random draw, between minus and plus a fifth of the base.\<close>

definition retry_delay :: "(int \<Rightarrow> int) \<Rightarrow> nat \<Rightarrow> nat" where
  "retry_delay delta k =
     (let base = retry_base_ms k; jitter = int base div 5
      in if jitter \<le> 0 then base else nat (max 0 (int base + delta jitter)))"

type_synonym 'a retried = "(bool \<times> peerline_event list \<times> (any_error + 'a)) option"

fun retry_from ::
  "nat \<Rightarrow> (nat \<Rightarrow> int \<Rightarrow> int) \<Rightarrow> (nat \<Rightarrow> bool \<Rightarrow> 'a retried) \<Rightarrow> nat list \<Rightarrow> bool \<Rightarrow> any_error option \<Rightarrow>
   peerline_event list \<Rightarrow> 'a retried" where
  "retry_from tries delta attempt [] q last_error out =
     Some (q, out, Inl (case last_error of Some e \<Rightarrow> e | None \<Rightarrow> Untyped ''send failed without an error''))"
| "retry_from tries delta attempt (k # ks) q last_error out =
     (let out1 = out @ (if 1 < k then
                 [Message (''retrying attempt '' @ dec_str k @ ''/'' @ dec_str tries @ '' in '' @
                    format_duration (retry_delay (delta k) k))] else [])
      in case attempt k q of
        None \<Rightarrow> None
      | Some (q1, out2, Inr x) \<Rightarrow> Some (q1, out1 @ out2, Inr x)
      | Some (q1, out2, Inl e) \<Rightarrow>
          if is_fatal_error e then Some (q1, out1 @ out2, Inl e)
          else retry_from tries delta attempt ks q1 (Some e) (out1 @ out2))"

definition building_message :: peerline_event where
  "building_message = Message ''building archive from selected paths''"

text \<open>
  \<open>made\<close> is the archive \<open>create_archive\<close> makes of the paths, or its error; \<open>nets k\<close> is the network at
  attempt \<open>k\<close>.
\<close>

definition with_retries ::
  "(nat \<Rightarrow> int \<Rightarrow> int) \<Rightarrow> any_error + archive \<Rightarrow> nat \<Rightarrow> (archive \<Rightarrow> nat \<Rightarrow> bool \<Rightarrow> 'a retried) \<Rightarrow> bool \<Rightarrow> 'a retried" where
  "with_retries delta made attempts attempt q =
     (case made of
        Inl e \<Rightarrow> Some (q, [building_message], Inl e)
      | Inr a \<Rightarrow> retry_from attempts delta (attempt a) [1..<Suc attempts] q None [building_message])"

definition named_send_with_retries ::
  "(nat \<Rightarrow> ('u, 'w) send_net) \<Rightarrow> (nat \<Rightarrow> int \<Rightarrow> int) \<Rightarrow> (nat \<Rightarrow> candidate list wait_event list) \<Rightarrow> (nat \<Rightarrow> race_event list) \<Rightarrow>
   'v send_plan \<Rightarrow> any_error + archive \<Rightarrow> transfer_id \<Rightarrow> bool \<Rightarrow> sent_transfer task_outcome retried" where
  "named_send_with_retries nets delta found es plan made tid q =
     with_retries delta made (pl_retry_attempts plan)
       (\<lambda>a k q. named_send_attempt (nets k) plan a tid (found k) (es k) q) q"

definition probe_text :: "send_options \<Rightarrow> string" where
  "probe_text opts =
     ''could not find a peerline receiver on '' @ ip_str (sock_ip (so_endpoint opts)) @ '' starting at port '' @
     dec_str (unat (sock_port (so_endpoint opts)))"

definition send_to_target ::
  "('u, 'w) send_net \<Rightarrow> human_code \<Rightarrow> node_id \<Rightarrow> direct_target \<Rightarrow> archive \<Rightarrow> transfer_id \<Rightarrow> any_error + sent_transfer" where
  "send_to_target net hcode source target a tid =
     (case target of
        Target_Exact endpoint \<Rightarrow>
          direct_result net \<lparr>so_endpoint = endpoint, so_name = None, so_code = hcode, so_source_id = source\<rparr> a tid
      | Target_Ip ip \<Rightarrow>
          let opts = \<lparr>so_endpoint = sock_new ip default_direct_port, so_name = None, so_code = hcode, so_source_id = source\<rparr>
          in case snd (send_prebuilt_direct_probe (nt_env net) (nt_dial net) opts a tid (fresh_conn [])) of
               Inl None \<Rightarrow> Inl (Untyped (probe_text opts))
             | Inl (Some e) \<Rightarrow> Inl (any_of_transfer (nt_session_text net) e)
             | Inr s \<Rightarrow> Inr s)"

definition direct_send_with_retries ::
  "(nat \<Rightarrow> ('u, 'w) send_net) \<Rightarrow> (nat \<Rightarrow> int \<Rightarrow> int) \<Rightarrow> human_code \<Rightarrow> node_id \<Rightarrow> nat \<Rightarrow> direct_target \<Rightarrow> any_error + archive \<Rightarrow>
   transfer_id \<Rightarrow> bool \<Rightarrow> sent_transfer retried" where
  "direct_send_with_retries nets delta hcode source attempts target made tid q =
     with_retries delta made attempts (\<lambda>a k q. Some (q, [], send_to_target (nets k) hcode source target a tid)) q"

section \<open>Rounds\<close>

text \<open>
  A round is one run of the retries; \<open>presses\<close> is what the dashboard's channels deliver after it has
  failed. Without a dashboard there is one round. The last component is what was sent, or nothing
  when the user quit. A list of rounds that ends is a sender still waiting.
\<close>

definition round_events :: "bool \<Rightarrow> nat \<Rightarrow> peerline_event list" where
  "round_events ui n =
     (if ui \<and> 1 < n then [StageChanged Discovering, Message (''retrying send round '' @ dec_str n)] else [])"

definition failed_event :: "nat \<Rightarrow> any_error \<Rightarrow> peerline_event" where
  "failed_event attempts e =
     StageChanged (Failed (''failed after '' @ dec_str attempts @ '' attempt(s): '' @ any_text e @
       ''; press r to retry or q to quit''))"

fun send_rounds ::
  "bool \<Rightarrow> nat \<Rightarrow> nat \<Rightarrow> bool \<Rightarrow> bool \<Rightarrow> peerline_event list \<Rightarrow>
   ((bool \<Rightarrow> sent_transfer task_outcome retried) \<times> retry_event list) list \<Rightarrow>
   (peerline_event list \<times> (any_error + sent_transfer option)) option" where
  "send_rounds ui attempts n q r out [] = None"
| "send_rounds ui attempts n q r out ((attempt, presses) # rounds) =
     (let out1 = out @ round_events ui n in
      case attempt q of
        None \<Rightarrow> None
      | Some (q1, out2, Inr (Completed s)) \<Rightarrow> Some (out1 @ out2, Inr (Some s))
      | Some (q1, out2, Inr Quit) \<Rightarrow> Some (out1 @ out2, Inr None)
      | Some (q1, out2, Inl e) \<Rightarrow>
          if \<not> ui then Some (out1 @ out2, Inl e)
          else (case wait_for_retry_or_quit q1 r presses of
                  None \<Rightarrow> None
                | Some (q2, r2, Decide_Quit) \<Rightarrow> Some (out1 @ out2 @ [failed_event attempts e], Inl e)
                | Some (q2, r2, Decide_Retry) \<Rightarrow>
                    send_rounds ui attempts (Suc n) q2 r2 (out1 @ out2 @ [failed_event attempts e]) rounds))"

definition send_named_mode ::
  "(nat \<Rightarrow> nat \<Rightarrow> ('u, 'w) send_net) \<Rightarrow> (nat \<Rightarrow> nat \<Rightarrow> int \<Rightarrow> int) \<Rightarrow> (nat \<Rightarrow> nat \<Rightarrow> candidate list wait_event list) \<Rightarrow>
   (nat \<Rightarrow> nat \<Rightarrow> race_event list) \<Rightarrow> (nat \<Rightarrow> transfer_id) \<Rightarrow> (string list \<Rightarrow> any_error + archive) \<Rightarrow> 'v config_env \<Rightarrow> node_id \<Rightarrow>
   send_args \<Rightarrow> bool \<Rightarrow> retry_event list list \<Rightarrow>
   cli_error + (peerline_event list \<times> (any_error + sent_transfer option)) option" where
  "send_named_mode nets delta found es tids archive_of cv source a ui presses =
     and_then (resolve_named_send a) (\<lambda>(name, hcode, paths).
       let plan = \<lparr>pl_name = name, pl_code = hcode, pl_source_id = source, pl_discovery = send_discovery_config cv a,
                   pl_retry_attempts = sa_retry_attempts a\<rparr>
       in Inr (send_rounds ui (sa_retry_attempts a) 1 ui ui []
            (map (\<lambda>(n, ps). (\<lambda>q. named_send_with_retries (nets n) (delta n) (found n) (es n) plan (archive_of paths) (tids n) q, ps))
              (enumerate 1 presses))))"

text \<open>
  A direct round is the retries as one task that the user's quit may cut short; the events of a task
  cut short are left out.
\<close>

definition direct_round ::
  "sent_transfer retried \<Rightarrow> bool option list \<Rightarrow> bool \<Rightarrow> sent_transfer task_outcome retried" where
  "direct_round r quits q =
     (case r of
        None \<Rightarrow> map_option (\<lambda>(q1, x). (q1, [], x)) (wait_with_quit q (map Task_Quit quits))
      | Some (_, out, x) \<Rightarrow>
          map_option (\<lambda>(q1, y). (q1, if y = Inr Quit then [] else out, y)) (wait_with_quit q (map Task_Quit quits @ [Task_Ready x])))"

definition send_direct_mode ::
  "(nat \<Rightarrow> nat \<Rightarrow> ('u, 'w) send_net) \<Rightarrow> (nat \<Rightarrow> nat \<Rightarrow> int \<Rightarrow> int) \<Rightarrow> (nat \<Rightarrow> bool option list) \<Rightarrow> (nat \<Rightarrow> transfer_id) \<Rightarrow>
   (string list \<Rightarrow> any_error + archive) \<Rightarrow> string \<Rightarrow> node_id \<Rightarrow> direct_target \<Rightarrow> send_args \<Rightarrow> bool \<Rightarrow> retry_event list list \<Rightarrow>
   cli_error + (peerline_event list \<times> (any_error + sent_transfer option)) option" where
  "send_direct_mode nets delta quits tids archive_of prompt source target a ui presses =
     and_then (resolve_direct_send prompt a) (\<lambda>(hcode, paths).
       Inr (send_rounds ui (sa_retry_attempts a) 1 ui ui []
         (map (\<lambda>(n, ps). (direct_round (direct_send_with_retries (nets n) (delta n) hcode source (sa_retry_attempts a)
                   target (archive_of paths) (tids n) ui) (quits n), ps)) (enumerate 1 presses))))"

definition send_command ::
  "(nat \<Rightarrow> nat \<Rightarrow> ('u, 'w) send_net) \<Rightarrow> (nat \<Rightarrow> nat \<Rightarrow> int \<Rightarrow> int) \<Rightarrow> (nat \<Rightarrow> nat \<Rightarrow> candidate list wait_event list) \<Rightarrow>
   (nat \<Rightarrow> nat \<Rightarrow> race_event list) \<Rightarrow> (nat \<Rightarrow> bool option list) \<Rightarrow> (nat \<Rightarrow> transfer_id) \<Rightarrow> (string list \<Rightarrow> any_error + archive) \<Rightarrow>
   'v config_env \<Rightarrow> string \<Rightarrow> node_id \<Rightarrow> send_args \<Rightarrow> bool \<Rightarrow> retry_event list list \<Rightarrow>
   cli_error + (peerline_event list \<times> (any_error + sent_transfer option)) option" where
  "send_command nets delta found es quits tids archive_of cv prompt source a ui presses =
     (case direct_endpoint_arg a of
        Some target \<Rightarrow> send_direct_mode nets delta quits tids archive_of prompt source target a ui presses
      | None \<Rightarrow> send_named_mode nets delta found es tids archive_of cv source a ui presses)"

section \<open>What an attempt tries\<close>

lemma set_without: "i < length xs \<Longrightarrow> set xs = insert (xs ! i) (set (take i xs @ drop (Suc i) xs))"
  by (metis Un_insert_right id_take_nth_drop list.simps(15) set_append)

text \<open>What the sender says about a route that has failed.\<close>

definition failure_report :: "string \<Rightarrow> candidate \<Rightarrow> any_error \<Rightarrow> peerline_event" where
  "failure_report name c e = Message (name @ '' via '' @ route_label (cd_route c) @ '' failed: '' @ any_text e)"

definition all_failed_text :: "string \<Rightarrow> any_error option \<Rightarrow> string" where
  "all_failed_text name last_error =
     ''discovered '' @ name @ '', but all routes failed: '' @
     (case last_error of Some e \<Rightarrow> any_text e | None \<Rightarrow> ''no usable endpoint'')"

lemma race_result:
  assumes "race name ps q last_error out es = Some (q', out', r)"
  shows "set out \<subseteq> set out' \<and>
    (case r of
       Inr (Completed s) \<Rightarrow> \<exists>c. (c, Inr s) \<in> set ps
     | Inr Quit \<Rightarrow> q \<and> Race_Quit (Some True) \<in> set es
     | Inl e \<Rightarrow> (\<forall>c x. (c, x) \<in> set ps \<longrightarrow> (\<exists>e'. x = Inl e' \<and> failure_report name c e' \<in> set out')) \<and>
         (\<exists>l. e = Untyped (all_failed_text name l) \<and> (l = last_error \<and> ps = [] \<or> (\<exists>c e'. l = Some e' \<and> (c, Inl e') \<in> set ps))))"
  using assms
proof (induction name ps q last_error out es rule: race.induct)
  case (1 name q last_error out es)
  then show ?case by (auto simp: all_failed_text_def)
next
  case (2 name p ps q last_error out)
  then show ?case by simp
next
  case (3 name p ps q last_error out i es)
  show ?case
  proof (cases "i < length (p # ps)")
    case False
    with 3(2) "3.prems" show ?thesis by (simp split: sum.splits task_outcome.splits)
  next
    case True
    obtain c x where x: "(p # ps) ! i = (c, x)" by fastforce
    let ?rest = "take i (p # ps) @ drop (Suc i) (p # ps)"
    have all: "set (p # ps) = insert (c, x) (set ?rest)" using set_without [OF True] x by simp
    show ?thesis
    proof (cases x)
      case (Inr s)
      with "3.prems" True x have r: "r = Inr (Completed s)" "out' = out" by simp_all
      have "(c, Inr s) \<in> set (p # ps)" unfolding all using Inr by simp
      then show ?thesis unfolding r by auto
    next
      case (Inl e)
      let ?out = "out @ [Message (name @ '' via '' @ route_label (cd_route c) @ '' failed: '' @ any_text e)]"
      have go: "race name ?rest q (Some e) ?out es = Some (q', out', r)"
        using "3.prems" True x Inl by simp
      note ih = 3(1) [OF True x [symmetric] Inl go]
      have sub: "set ?out \<subseteq> set out'" using ih by blast
      show ?thesis
      proof (cases r)
        case (Inl e')
        from sub have rep: "failure_report name c e \<in> set out'" by (simp add: failure_report_def)
        from ih Inl obtain l where l: "e' = Untyped (all_failed_text name l)"
            "l = Some e \<and> ?rest = [] \<or> (\<exists>c e'. l = Some e' \<and> (c, Inl e') \<in> set ?rest)"
          and reps: "\<forall>c x. (c, x) \<in> set ?rest \<longrightarrow> (\<exists>e'. x = Inl e' \<and> failure_report name c e' \<in> set out')"
          by auto
        have "\<exists>c e'. l = Some e' \<and> (c, Inl e') \<in> set (p # ps)"
          unfolding all using l(2) \<open>x = Inl e\<close> by blast
        moreover have "\<forall>c x. (c, x) \<in> set (p # ps) \<longrightarrow> (\<exists>e'. x = Inl e' \<and> failure_report name c e' \<in> set out')"
          unfolding all using reps rep \<open>x = Inl e\<close> by blast
        ultimately show ?thesis using sub l(1) unfolding Inl by auto
      next
        case (Inr o')
        with ih sub show ?thesis unfolding all by (auto split: task_outcome.splits)
      qed
    qed
  qed
next
  case (4 name p ps q last_error out v es)
  then show ?case by (auto split: if_splits sum.splits task_outcome.splits)
qed

lemma queued_routes:
  "set (map fst (queued_attempts cfg cands)) = {c \<in> set cands. route_allowed cfg (cd_route c)}"
  by (auto simp: queued_attempts_def Let_def image_image)

text \<open>
  C14. An attempt to send gives every usable route its chance. It succeeds with what the transfer
  over one of the candidates found sent, on a route the configuration allows; the user's quit ends
  it; and when it fails after the search, every allowed candidate has been tried and has failed,
  and each failure was reported with its route.
\<close>

theorem attempt_tries_every_route:
  assumes "named_send_attempt net plan a tid found es q = Some (q', out, r)"
  shows "case r of
      Inr (Completed s) \<Rightarrow> \<exists>cands c. Task_Ready (Inr cands) \<in> set found \<and> c \<in> set cands \<and>
        route_enabled (pl_discovery plan) (cd_route c) \<and> send_candidate net plan a tid c = Inr s
    | Inr Quit \<Rightarrow> Task_Quit (Some True) \<in> set found \<or> Race_Quit (Some True) \<in> set es
    | Inl e \<Rightarrow> Task_Ready (Inl e) \<in> set found \<or>
        (\<exists>cands. Task_Ready (Inr cands) \<in> set found \<and>
           (\<forall>c. c \<in> set cands \<and> route_enabled (pl_discovery plan) (cd_route c) \<longrightarrow>
              (\<exists>e'. send_candidate net plan a tid c = Inl e' \<and> failure_report (name_str (pl_name plan)) c e' \<in> set out)))"
proof -
  let ?name = "name_str (pl_name plan)"
  obtain q1 w where w: "wait_with_quit q found = Some (q1, w)"
    using assms by (auto simp: named_send_attempt_def Let_def split: option.splits)
  from wait_with_quit_result [OF w] consider
      (quit) "w = Inr Quit" "Task_Quit (Some True) \<in> set found"
    | (failed) e where "w = Inl e" "Task_Ready (Inl e) \<in> set found"
    | (found) cands where "w = Inr (Completed cands)" "Task_Ready (Inr cands) \<in> set found"
  proof (elim disjE exE conjE, goal_cases)
    case (2 x)
    then show ?case by (cases x) auto
  qed blast
  then show ?thesis
  proof cases
    case quit
    with assms w show ?thesis by (auto simp: named_send_attempt_def Let_def)
  next
    case failed
    with assms w show ?thesis by (auto simp: named_send_attempt_def Let_def)
  next
    case (found cands)
    show ?thesis
    proof (cases "cands = []")
      case True
      with assms w found have "\<exists>e. r = Inl e" by (auto simp: named_send_attempt_def Let_def)
      with found(2) True show ?thesis by (auto intro!: exI [of _ "[]"])
    next
      case False
      let ?queue = "map fst (queued_attempts (pl_discovery plan) cands)"
      obtain out0 where "race ?name (map (\<lambda>c. (c, send_candidate net plan a tid c)) ?queue) q1 None out0 es = Some (q', out, r)"
        using assms w found False by (auto simp: named_send_attempt_def Let_def)
      note result = race_result [OF this]
      have mem: "(c, x) \<in> set (map (\<lambda>c. (c, send_candidate net plan a tid c)) ?queue) \<longleftrightarrow>
          c \<in> set cands \<and> route_enabled (pl_discovery plan) (cd_route c) \<and> x = send_candidate net plan a tid c" for c x
        using queued_routes [of "pl_discovery plan" cands] by auto
      show ?thesis
      proof (cases r)
        case (Inl e)
        with result mem have "\<forall>c. c \<in> set cands \<and> route_enabled (pl_discovery plan) (cd_route c) \<longrightarrow>
            (\<exists>e'. send_candidate net plan a tid c = Inl e' \<and> failure_report ?name c e' \<in> set out)" by (simp del: set_map)
        with found(2) show ?thesis unfolding Inl by auto
      next
        case (Inr o')
        show ?thesis
        proof (cases o')
          case (Completed s)
          with result Inr obtain c where "(c, Inr s) \<in> set (map (\<lambda>c. (c, send_candidate net plan a tid c)) ?queue)" by auto
          from this [unfolded mem] found(2) show ?thesis unfolding Inr Completed by (auto dest: sym)
        next
          case Quit
          with result Inr show ?thesis by simp
        qed
      qed
    qed
  qed
qed

section \<open>What is switched off\<close>

fun call_off :: "send_args \<Rightarrow> send_call \<Rightarrow> bool" where
  "call_off a (Call_TorOnion _ _) = sa_no_tor a"
| "call_off a (Call_I2p _ _) = sa_no_i2p a"
| "call_off a (Call_Libp2p _ _ r) =
     (sa_no_quic a \<and> r = Libp2pQuic \<or> sa_no_dcutr a \<and> r = Libp2pDcutr \<or> sa_no_turn a \<and> r = WebRtcTurn \<or>
      sa_no_relay_fallback a \<and> \<not> sa_allow_relay_fallback a \<and> r = Libp2pRelay)"
| "call_off a _ = False"

lemma candidate_call_kind:
  assumes "candidate_call lp msg cfg c = Inr call"
  shows "case call of
      Call_TorOnion _ _ \<Rightarrow> cd_route c = Rk_TorOnion
    | Call_I2p _ _ \<Rightarrow> cd_route c = Rk_I2p
    | Call_Libp2p _ _ r \<Rightarrow> r = route_connection (cd_route c)
    | _ \<Rightarrow> cd_route c \<in> {Rk_LanDirect, Rk_PublicDirect, Rk_PublicTunnel}"
proof -
  have ok: "ok_or x e = Inr y \<longleftrightarrow> x = Some y" for x e and y :: send_call by (cases x) simp_all
  show ?thesis
    using assms unfolding candidate_call_def by (auto simp: ok and_then_Inr split: if_split_asm)
qed

lemma candidate_call_route:
  assumes "candidate_call lp msg cfg c = Inr call" "cd_route c \<notin> switched_off a"
  shows "\<not> call_off a call"
  using candidate_call_kind [OF assms(1)] assms(2)
  by (cases call; cases "cd_route c") (simp_all add: switched_off_def split: if_split_asm)

lemma same_candidate:
  assumes "\<forall>call. \<not> call_off a call \<longrightarrow> run_call net plan ar tid call = run_call net' plan ar tid call"
    and "nt_codec net = nt_codec net'" "nt_parse_text net = nt_parse_text net'" "cd_route c \<notin> switched_off a"
  shows "send_candidate net plan ar tid c = send_candidate net' plan ar tid c"
proof (cases "candidate_call (nt_codec net') (nt_parse_text net') (pl_discovery plan) c")
  case (Inr call)
  with candidate_call_route [OF Inr assms(4)] assms(1-3) show ?thesis by (simp add: send_candidate_def)
qed (simp add: send_candidate_def assms(2,3))

lemma retry_from_cong:
  "(\<And>k q. attempt k q = attempt' k q) \<Longrightarrow> retry_from tries delta attempt ks q l out = retry_from tries delta attempt' ks q l out"
  by (induction tries delta attempt ks q l out rule: retry_from.induct)
    (auto simp: Let_def split: option.splits sum.splits)

text \<open>
  C15. What is switched off is not used. Two networks that differ only in what Tor does, when
  \<open>--no-tor\<close> is given, and likewise for I2P, QUIC, hole punching, TURN and the relays with their
  options, give a sender the same result with the same messages, whatever candidates are found and
  however many attempts it makes.
\<close>

theorem switched_off_transports_unused:
  assumes "pl_discovery plan = send_discovery_config cv a"
    and "\<And>k ar call. \<not> call_off a call \<Longrightarrow> run_call (nets k) plan ar tid call = run_call (nets' k) plan ar tid call"
    and "\<And>k. nt_codec (nets k) = nt_codec (nets' k)" "\<And>k. nt_parse_text (nets k) = nt_parse_text (nets' k)"
  shows "named_send_with_retries nets delta found es plan made tid q =
    named_send_with_retries nets' delta found es plan made tid q"
proof -
  have queue: "cd_route c \<notin> switched_off a" if "c \<in> set (map fst (queued_attempts (pl_discovery plan) cands))" for c cands
    using that switched_off_disabled [of "cd_route c" a cv] unfolding queued_routes assms(1) by blast
  have same: "map (\<lambda>c. (c, send_candidate (nets k) plan ar tid c)) (map fst (queued_attempts (pl_discovery plan) cands)) =
      map (\<lambda>c. (c, send_candidate (nets' k) plan ar tid c)) (map fst (queued_attempts (pl_discovery plan) cands))" for k ar cands
    using same_candidate [where net = "nets k" and net' = "nets' k" and a = a and plan = plan and ar = ar and tid = tid]
      queue assms(2-4) by (intro map_cong) simp_all
  have "named_send_attempt (nets k) plan ar tid f e q = named_send_attempt (nets' k) plan ar tid f e q" for k ar f e q
    unfolding named_send_attempt_def Let_def same ..
  then show ?thesis
    by (auto simp: named_send_with_retries_def with_retries_def intro!: retry_from_cong split: sum.splits)
qed

section \<open>How often it tries\<close>

lemma retry_from_result:
  assumes "retry_from tries delta attempt ks q l out = Some (q', out', r)" "ks \<noteq> []"
  shows "\<exists>js k rest. ks = js @ k # rest \<and> (\<exists>q0 q1 o1. attempt k q0 = Some (q1, o1, r)) \<and>
    (\<forall>j \<in> set js. \<exists>q0 q1 o1 e. attempt j q0 = Some (q1, o1, Inl e) \<and> \<not> is_fatal_error e) \<and>
    (\<forall>e. r = Inl e \<longrightarrow> is_fatal_error e \<or> rest = [])"
  using assms
proof (induction ks arbitrary: q l out)
  case (Cons k ks)
  obtain q1 o1 r1 where t: "attempt k q = Some (q1, o1, r1)" using Cons.prems(1) by (auto simp: Let_def split: option.splits)
  show ?case
  proof (cases "\<exists>e. r1 = Inl e \<and> \<not> is_fatal_error e \<and> ks \<noteq> []")
    case True
    then obtain e where e: "r1 = Inl e" "\<not> is_fatal_error e" "ks \<noteq> []" by blast
    from Cons.prems(1) t e(1,2) obtain out2 where
        "retry_from tries delta attempt ks q1 (Some e) out2 = Some (q', out', r)" by (auto simp: Let_def)
    from Cons.IH [OF this e(3)] obtain js k' rest where
        ih: "ks = js @ k' # rest" "\<exists>q0 q1 o1. attempt k' q0 = Some (q1, o1, r)"
          "\<forall>j \<in> set js. \<exists>q0 q1 o1 e. attempt j q0 = Some (q1, o1, Inl e) \<and> \<not> is_fatal_error e"
          "\<forall>e. r = Inl e \<longrightarrow> is_fatal_error e \<or> rest = []" by blast
    have "k # ks = (k # js) @ k' # rest" using ih(1) by simp
    moreover have "\<forall>j \<in> set (k # js). \<exists>q0 q1 o1 e. attempt j q0 = Some (q1, o1, Inl e) \<and> \<not> is_fatal_error e"
      using ih(3) t e(1,2) by auto
    ultimately show ?thesis using ih(2,4) by blast
  next
    case False
    then have "r1 = r" "\<forall>e. r = Inl e \<longrightarrow> is_fatal_error e \<or> ks = []"
      using Cons.prems(1) t by (auto simp: Let_def split: sum.splits if_splits)
    with t show ?thesis by (intro exI [of _ "[]"]) auto
  qed
qed simp

lemma retry_delay_bound:
  assumes draws: "\<And>j. \<bar>delta j\<bar> \<le> j \<or> j < 0" and k: "2 \<le> k"
  shows "400 \<le> retry_delay delta k \<and> retry_delay delta k \<le> 9600"
proof -
  have jitter: "400 \<le> nat (max 0 (base + delta (base div 5))) \<and> nat (max 0 (base + delta (base div 5))) \<le> 9600"
    if "500 \<le> base" "base \<le> 8000" for base :: int
  proof -
    have "0 \<le> base div 5" "5 * (base div 5) \<le> base" using that by simp_all
    with draws [of "base div 5"] that show ?thesis by linarith
  qed
  from k consider "k = 2" | "k = 3" | "k = 4" | "k = 5" | "6 \<le> k" by linarith
  then show ?thesis
    using jitter [of 500] jitter [of 1000] jitter [of 2000] jitter [of 4000] jitter [of 8000]
    by cases (simp_all add: retry_delay_def retry_base_ms_def)
qed


section \<open>The kind of an error\<close>

lemma contains_sub_mid: "contains_sub p y \<Longrightarrow> contains_sub p (x @ y @ z)"
  by (auto simp: contains_sub_iff) (metis append.assoc)

text \<open>
  C21. In a send by name the kind of an error is lost: what an attempt reports is the text of the last
  failure behind the peer's name, and it is taken for fatal by the words in that text alone. So a
  fatal error whose text has none of the phrases is tried again, although a direct send stops at it;
  and for a peer whose name contains the word authentication every failure is fatal.
\<close>

theorem named_send_loses_error_kind:
  assumes "named_send_attempt net plan a tid found es q = Some (q', out, Inl e)"
    and "wait_with_quit q found = Some (q1, Inr (Completed cands))" "cands \<noteq> []"
  shows "(\<exists>l. e = Untyped (all_failed_text (name_str (pl_name plan)) l) \<and>
      (is_fatal_error e \<longleftrightarrow> (\<exists>p \<in> set fatal_phrases. contains_sub p (all_failed_text (name_str (pl_name plan)) l))) \<and>
      (\<forall>e'. l = Some e' \<longrightarrow> (\<exists>c \<in> set cands. send_candidate net plan a tid c = Inl e'))) \<and>
    (contains_sub ''authentication'' (name_str (pl_name plan)) \<longrightarrow> is_fatal_error e)"
proof -
  let ?name = "name_str (pl_name plan)"
  let ?queue = "map fst (queued_attempts (pl_discovery plan) cands)"
  obtain out0 where "race ?name (map (\<lambda>c. (c, send_candidate net plan a tid c)) ?queue) q1 None out0 es = Some (q', out, Inl e)"
    using assms by (auto simp: named_send_attempt_def Let_def)
  note result = race_result [OF this]
  have mem: "c \<in> set ?queue \<and> send_candidate net plan a tid c = x"
    if "(c, x) \<in> set (map (\<lambda>c. (c, send_candidate net plan a tid c)) ?queue)" for c x
    using that by auto
  from result mem obtain l where l: "e = Untyped (all_failed_text ?name l)"
      "l = None \<or> (\<exists>c \<in> set ?queue. \<exists>e'. l = Some e' \<and> send_candidate net plan a tid c = Inl e')"
    by (simp del: set_map) blast
  have "set ?queue \<subseteq> set cands" unfolding queued_routes by blast
  with l(2) have "\<forall>e'. l = Some e' \<longrightarrow> (\<exists>c \<in> set cands. send_candidate net plan a tid c = Inl e')" by blast
  moreover have "is_fatal_error e" if "contains_sub ''authentication'' ?name"
  proof -
    have "contains_sub ''authentication'' (all_failed_text ?name l)"
      unfolding all_failed_text_def by (rule contains_sub_mid [OF that])
    then show ?thesis by (simp add: l(1) fatal_phrases_def)
  qed
  ultimately show ?thesis using l(1) by (auto simp: list_ex_iff)
qed

section \<open>Concrete runs\<close>

text \<open>A network in which nobody answers, and a candidate on each of two routes.\<close>

definition quiet_net :: "(unit, unit) send_net" where
  "quiet_net = \<lparr>nt_env = run_env,
     nt_url = \<lparr>wu_parse = \<lambda>_. None, wu_scheme = \<lambda>_. [], wu_host = \<lambda>_. None, wu_port = \<lambda>_. None,
       wu_set_scheme = \<lambda>_ _. None, wu_text = \<lambda>_. []\<rparr>,
     nt_codec = bare_codec, nt_lookup = \<lambda>_. LookupKey [], nt_dial = \<lambda>_. None, nt_dial_ws = \<lambda>_ _. None, nt_late = \<lambda>_. False,
     nt_trip = \<lambda>_ _ w _. (w, Inl (Plain Sess_RequestFailed)), nt_world = (), nt_session_text = \<lambda>_. ''refused'',
     nt_ws_text = \<lambda>_. ''no tunnel'', nt_parse_text = \<lambda>_. ''bad''\<rparr>"

definition cli_candidate :: candidate where
  "cli_candidate = \<lparr>cd_peer_id = ''p'', cd_addresses = [''1.2.3.4:5''], cd_route = Rk_PublicDirect\<rparr>"

definition cli_plan :: "'u config_env \<Rightarrow> send_args \<Rightarrow> 'u send_plan" where
  "cli_plan cv a = \<lparr>pl_name = HumanName ''authentication'', pl_code = HumanCode ''a-b-c'', pl_source_id = NodeId [1],
     pl_discovery = send_discovery_config cv a, pl_retry_attempts = 2\<rparr>"

definition cli_archive :: archive where
  "cli_archive = \<lparr>ar_manifest = run_manifest, ar_compression = CompressNone, ar_resource_id = ResourceId [7], ar_file = [1],
     ar_len = 1\<rparr>"

definition cli_env :: "unit config_env" where
  "cli_env = \<lparr>cv_codec = bare_codec, cv_ice_json = \<lambda>_. None, cv_mac = \<lambda>_ _. [], cv_now_secs = 0,
     cv_rendezvous = disabled_config, cv_env = \<lambda>_. None\<rparr>"

definition cli_send_args :: send_args where
  "cli_send_args = \<lparr>sa_args = [''authentication'', ''a-b-c'', ''x''], sa_name = None, sa_code = None, sa_compression = Arg_Auto,
     sa_allow_relay_fallback = False, sa_no_relay_fallback = True, sa_no_upnp = False, sa_no_nat_pmp_pcp = False,
     sa_no_quic = False, sa_no_dcutr = False, sa_no_turn = False, sa_no_tor = True, sa_no_i2p = False,
     sa_i2p_sam = static_endpoint, sa_tor_socks_proxy = static_endpoint, sa_retry_attempts = 2\<rparr>"

text \<open>Another network, in which Tor would answer.\<close>

definition tor_net :: "(unit, unit) send_net" where
  "tor_net = quiet_net\<lparr>nt_dial_ws := \<lambda>r _. if r = TorOnion then Some [] else None\<rparr>"

lemma tor_net_sel:
  "nt_env tor_net = nt_env quiet_net" "nt_url tor_net = nt_url quiet_net" "nt_codec tor_net = nt_codec quiet_net"
  "nt_lookup tor_net = nt_lookup quiet_net" "nt_dial tor_net = nt_dial quiet_net" "nt_late tor_net = nt_late quiet_net"
  "nt_trip tor_net = nt_trip quiet_net" "nt_world tor_net = nt_world quiet_net"
  "nt_session_text tor_net = nt_session_text quiet_net" "nt_ws_text tor_net = nt_ws_text quiet_net"
  "nt_parse_text tor_net = nt_parse_text quiet_net"
  "nt_dial_ws tor_net PublicTunnel = nt_dial_ws quiet_net PublicTunnel" "nt_dial_ws tor_net I2p = nt_dial_ws quiet_net I2p"
  by (simp_all add: tor_net_def quiet_net_def)

lemma cli_refused: "send_candidate quiet_net plan cli_archive tid cli_candidate = Inl (Untyped ''refused'')"
proof -
  have "parse_ip_endpoint ''1.2.3.4:5'' \<noteq> None" by code_simp
  then obtain s where "parse_ip_endpoint ''1.2.3.4:5'' = Some s" by blast
  then show ?thesis
    by (simp add: send_candidate_def candidate_call_def cli_candidate_def run_call_def direct_result_def quiet_net_def)
qed

lemma cli_attempt:
  "named_send_attempt quiet_net (cli_plan cli_env cli_send_args) cli_archive tid [Task_Ready (Inr [cli_candidate])] [Race_Ends 0] True =
     Some (True,
       [Message (''discovered routes: '' @ format_candidate_routes [cli_candidate]),
        Message (''trying '' @ cd_peer_id cli_candidate @ '' via '' @ route_label (cd_route cli_candidate)),
        failure_report ''authentication'' cli_candidate (Untyped ''refused'')],
       Inl (Untyped (all_failed_text ''authentication'' (Some (Untyped ''refused'')))))"
proof -
  have "map fst (queued_attempts (pl_discovery (cli_plan cli_env cli_send_args)) [cli_candidate]) = [cli_candidate]"
    by (simp add: queued_attempts_def cli_candidate_def)
  moreover have "name_str (pl_name (cli_plan cli_env cli_send_args)) = ''authentication''" by (simp add: cli_plan_def)
  ultimately show ?thesis
    by (simp add: named_send_attempt_def Let_def cli_refused failure_report_def all_failed_text_def)
qed

lemma attempt_tries_every_route_witness:
  "\<exists>e'. send_candidate quiet_net (cli_plan cli_env cli_send_args) cli_archive (TransferId [1]) cli_candidate = Inl e' \<and>
     route_enabled (pl_discovery (cli_plan cli_env cli_send_args)) (cd_route cli_candidate)"
proof -
  have on: "route_enabled (pl_discovery (cli_plan cli_env cli_send_args)) (cd_route cli_candidate)"
    by (simp add: cli_candidate_def)
  from attempt_tries_every_route [OF cli_attempt [of "TransferId [1]"]] on show ?thesis by auto
qed

lemma switched_off_transports_unused_witness:
  "named_send_with_retries (\<lambda>_. quiet_net) (\<lambda>_ _. 0) (\<lambda>_. [Task_Ready (Inr [cli_candidate])]) (\<lambda>_. [Race_Ends 0])
     (cli_plan cli_env cli_send_args) (Inr cli_archive) (TransferId [1]) True =
   named_send_with_retries (\<lambda>_. tor_net) (\<lambda>_ _. 0) (\<lambda>_. [Task_Ready (Inr [cli_candidate])]) (\<lambda>_. [Race_Ends 0])
     (cli_plan cli_env cli_send_args) (Inr cli_archive) (TransferId [1]) True \<and> quiet_net \<noteq> tor_net"
proof
  show "quiet_net \<noteq> tor_net"
    by (auto simp: tor_net_def quiet_net_def fun_eq_iff)
  show "named_send_with_retries (\<lambda>_. quiet_net) (\<lambda>_ _. 0) (\<lambda>_. [Task_Ready (Inr [cli_candidate])]) (\<lambda>_. [Race_Ends 0])
     (cli_plan cli_env cli_send_args) (Inr cli_archive) (TransferId [1]) True =
   named_send_with_retries (\<lambda>_. tor_net) (\<lambda>_ _. 0) (\<lambda>_. [Task_Ready (Inr [cli_candidate])]) (\<lambda>_. [Race_Ends 0])
     (cli_plan cli_env cli_send_args) (Inr cli_archive) (TransferId [1]) True"
  proof (rule switched_off_transports_unused [where cv = cli_env and a = cli_send_args])
    show "run_call quiet_net (cli_plan cli_env cli_send_args) ar (TransferId [1]) call =
        run_call tor_net (cli_plan cli_env cli_send_args) ar (TransferId [1]) call" if "\<not> call_off cli_send_args call" for ar call
    proof (cases call)
      case (Call_TorOnion url proxy)
      with that have False by (simp add: cli_send_args_def)
      then show ?thesis ..
    qed (unfold run_call_def direct_result_def ws_result_def tor_net_sel, simp_all)
  qed (simp_all add: cli_plan_def tor_net_sel)
qed


lemma named_send_loses_error_kind_witness:
  "is_fatal_error (Untyped (all_failed_text ''authentication'' (Some (Untyped ''refused'')))) \<and>
   \<not> is_fatal_error (Untyped ''refused'')"
proof
  show "\<not> is_fatal_error (Untyped ''refused'')" by code_simp
  have "contains_sub ''authentication'' (name_str (pl_name (cli_plan cli_env cli_send_args)))" by code_simp
  with named_send_loses_error_kind [OF cli_attempt [of "TransferId [1]"], of True "[cli_candidate]"]
  show "is_fatal_error (Untyped (all_failed_text ''authentication'' (Some (Untyped ''refused''))))" by simp
qed

end
