(* ===== verification/Cli_Recv.thy ===== *)
theory Cli_Recv
  imports Cli_Start Cli_Send
begin

text \<open>
  The receive command (\<open>recv\<close> and \<open>finish_recv\<close> in \<open>peerline-cli/src/main.rs\<close>): who it receives as,
  which transports it starts, and the rounds in which it receives one transfer after another until
  it is told to quit, falls idle or fails. What it prints and the events it sends to the dashboard
  are its output, in order. The receiving paths themselves are modelled in the theories of the
  transfers; here each is what it ends with. The lemmas say which failures stop a receiver and that
  every completed transfer is counted and reported once.
\<close>

section \<open>Output and surroundings\<close>

datatype recv_out = Print string | Emit peerline_event

datatype recv_end = Recv_Stopped | Recv_Failed any_error | Recv_Panicked

text \<open>An error with a context shows the context and keeps its kind.\<close>

fun with_context :: "string \<Rightarrow> any_error \<Rightarrow> any_error" where
  "with_context c (Untyped s) = Untyped c"
| "with_context c (Typed k s) = Typed k c"

datatype round_event = Round_Path "any_error + received_transfer" | Round_Quit "bool option" | Round_Signal

record recv_world =
  rw_saved_name :: "any_error + human_name option"
  rw_fresh_name :: human_name
  rw_fresh_code :: human_code
  rw_cli_text :: "cli_error \<Rightarrow> string"
  rw_node_id :: "any_error + unit"
  rw_bind :: "socket_addr \<Rightarrow> any_error + socket_addr"
  rw_current_dir :: "any_error + string"
  rw_terminal :: bool
  rw_tunnel :: "tunnel_provider \<Rightarrow> running_transport wait_event list"
  rw_tor :: "running_transport wait_event list"
  rw_i2p :: "socket_addr \<Rightarrow> running_transport wait_event list"
  rw_rounds :: "(nat \<times> (nat \<times> round_event) list) list"

definition finish_recv :: "recv_out list" where
  "finish_recv = [Emit Shutdown]"

section \<open>Starting the transports\<close>

definition local_text :: "running_transport \<Rightarrow> string" where
  "local_text r = ''127.0.0.1:'' @ dec_str (ru_local_port r)"

definition tunnel_line :: "tunnel_provider \<Rightarrow> running_transport \<Rightarrow> string" where
  "tunnel_line p r = ''public tunnel: '' @ provider_label p @ '' '' @ ru_url r @ '' (local '' @ local_text r @ '')''"

definition tor_line :: "running_transport \<Rightarrow> string" where
  "tor_line r = ''tor onion: '' @ ru_url r @ '' (local '' @ local_text r @ '')''"

definition i2p_line :: "socket_addr \<Rightarrow> running_transport \<Rightarrow> string" where
  "i2p_line sam r = ''i2p: '' @ ru_url r @ '' via SAM '' @ sock_str sam @ '' (local '' @ local_text r @ '')''"

text \<open>
  What starting a transport comes to: it is pending, the command is over, or it goes on with or
  without the transport. The flag is the quit receiver's.
\<close>

datatype 'a step = Pending | Over recv_end | Goes_On bool 'a

definition start_tunnel_step :: "recv_world \<Rightarrow> tunnel_provider option \<Rightarrow> bool \<Rightarrow> recv_out list \<times> running_transport option step" where
  "start_tunnel_step w provider q =
     (case provider of
        None \<Rightarrow> ([], Goes_On q None)
      | Some p \<Rightarrow>
          (case wait_with_quit q (rw_tunnel w p) of
             None \<Rightarrow> ([], Pending)
           | Some (q', Inl e) \<Rightarrow> ([], Over (Recv_Failed e))
           | Some (q', Inr Quit) \<Rightarrow> (finish_recv, Over Recv_Stopped)
           | Some (q', Inr (Completed r)) \<Rightarrow> ([Print (tunnel_line p r)], Goes_On q' (Some r))))"

text \<open>A transport that need not start: its failure is reported and the receiver goes on.\<close>

definition without :: "string \<Rightarrow> string \<Rightarrow> any_error \<Rightarrow> recv_out list" where
  "without what name e =
     (let message = what @ '' unavailable: '' @ any_text e @ ''; continuing without '' @ name in
      [Print message, Emit (Message message)])"

definition start_tor_step :: "recv_world \<Rightarrow> bool \<Rightarrow> bool \<Rightarrow> bool \<Rightarrow> recv_out list \<times> running_transport option step" where
  "start_tor_step w enabled required q =
     (if \<not> enabled then ([], Goes_On q None)
      else
        case wait_with_quit q (rw_tor w) of
          None \<Rightarrow> ([], Pending)
        | Some (q', Inr (Completed r)) \<Rightarrow> ([Print (tor_line r)], Goes_On q' (Some r))
        | Some (q', Inr Quit) \<Rightarrow> (finish_recv, Over Recv_Stopped)
        | Some (q', Inl e) \<Rightarrow>
            if required then (finish_recv, Over (Recv_Failed (with_context ''could not start required Tor onion listener'' e)))
            else (without ''Tor onion'' ''Tor'' e, Goes_On q' None))"

definition start_i2p_step :: "recv_world \<Rightarrow> bool \<Rightarrow> socket_addr \<Rightarrow> bool \<Rightarrow> recv_out list \<times> running_transport option step" where
  "start_i2p_step w enabled sam q =
     (if \<not> enabled then ([], Goes_On q None)
      else
        case wait_with_quit q (rw_i2p w sam) of
          None \<Rightarrow> ([], Pending)
        | Some (q', Inr (Completed r)) \<Rightarrow> ([Print (i2p_line sam r)], Goes_On q' (Some r))
        | Some (q', Inr Quit) \<Rightarrow> (finish_recv, Over Recv_Stopped)
        | Some (q', Inl e) \<Rightarrow> (without ''I2P'' ''I2P'' e, Goes_On q' None))"

text \<open>The next step, when this one goes on.\<close>

fun and_next :: "recv_out list \<times> 'a step \<Rightarrow> (bool \<Rightarrow> 'a \<Rightarrow> recv_out list \<times> 'b step) \<Rightarrow> recv_out list \<times> 'b step" where
  "and_next (out, Pending) f = (out, Pending)"
| "and_next (out, Over r) f = (out, Over r)"
| "and_next (out, Goes_On q x) f = (case f q x of (out', s) \<Rightarrow> (out @ out', s))"

definition recv_transports ::
  "recv_world \<Rightarrow> recv_args \<Rightarrow> 'u discovery_config \<Rightarrow> bool \<Rightarrow>
   recv_out list \<times> (running_transport option \<times> running_transport option \<times> running_transport option) step" where
  "recv_transports w a d q =
     and_next (start_tunnel_step w (recv_public_tunnel_provider a) q) (\<lambda>q tunnel.
     and_next (start_tor_step w (dc_enable_tor d) (ra_tor a) q) (\<lambda>q tor.
     and_next (start_i2p_step w (dc_enable_i2p d) (dc_i2p_sam d) q) (\<lambda>q i2p.
       ([], Goes_On q (tunnel, tor, i2p)))))"

section \<open>Rounds\<close>

text \<open>The paths of a round as one receiver: the first transfer ends it, or the failure of the last path.\<close>

fun join_paths :: "nat \<Rightarrow> (nat \<times> round_event) list \<Rightarrow> (nat \<times> received_transfer activity_event) list" where
  "join_paths n [] = []"
| "join_paths n ((t, e) # es) =
     (case e of
        Round_Path (Inr x) \<Rightarrow> if n = 0 then join_paths n es else [(t, Act_Done (Inr x))]
      | Round_Path (Inl err) \<Rightarrow>
          if n = 0 then join_paths n es
          else if n = 1 then [(t, Act_Done (Inl err))]
          else join_paths (n - 1) es
      | Round_Quit v \<Rightarrow> (t, Act_Quit v) # join_paths n es
      | Round_Signal \<Rightarrow> (t, Act_Signal) # join_paths n es)"

text \<open>The totals are machine words, which wrap.\<close>

record totals =
  to_transfers :: u64
  to_files :: u64
  to_bytes :: u64

definition no_transfers :: totals where
  "no_transfers = \<lparr>to_transfers = 0, to_files = 0, to_bytes = 0\<rparr>"

definition add_transfer :: "received_transfer \<Rightarrow> totals \<Rightarrow> totals" where
  "add_transfer x s =
     \<lparr>to_transfers = to_transfers s + 1, to_files = to_files s + of_nat (rt_files x), to_bytes = to_bytes s + rt_bytes x\<rparr>"

definition received_line :: "received_transfer \<Rightarrow> string" where
  "received_line x = ''received '' @ dec_str (rt_files x) @ '' file(s), '' @ dec_str (unat (rt_bytes x)) @ '' bytes from '' @ rt_peer x"

definition ready_message :: peerline_event where
  "ready_message = Message ''ready for the next transfer''"

definition idle_message :: "nat option \<Rightarrow> string" where
  "idle_message idle = (case idle of
     Some timeout \<Rightarrow> ''idle for '' @ format_duration timeout @ ''; exiting''
   | None \<Rightarrow> ''receiver idle timeout reached; exiting'')"

text \<open>
  Each round has the time it starts at and its events; a round that does not end, or is not there,
  is one the receiver is still in.
\<close>

fun recv_loop ::
  "nat option \<Rightarrow> bool \<Rightarrow> nat \<Rightarrow> bool \<Rightarrow> (nat \<times> (nat \<times> round_event) list) list \<Rightarrow> totals \<Rightarrow>
   recv_out list \<times> (recv_end \<times> totals) option" where
  "recv_loop idle tui n q [] s = ([], None)"
| "recv_loop idle tui n q ((start, es) # rounds) s =
     (case wait_for_recv_activity idle (restart idle start) q True (join_paths n es) of
        None \<Rightarrow> ([Emit ready_message], None)
      | Some (t, q', Inr (Recv_Completed x)) \<Rightarrow>
          (case recv_loop idle tui n q' rounds (add_transfer x s) of
             (out, r) \<Rightarrow> (Emit ready_message # (if tui then [] else [Print (received_line x)]) @
                Emit (StageChanged Discovering) # out, r))
      | Some (t, q', Inr Recv_Quit) \<Rightarrow> ([Emit ready_message], Some (Recv_Stopped, s))
      | Some (t, q', Inr Recv_IdleTimeout) \<Rightarrow>
          ([Emit ready_message, Emit (Message (idle_message idle)), Emit Shutdown], Some (Recv_Stopped, s))
      | Some (t, q', Inl e) \<Rightarrow>
          ([Emit ready_message, Emit (StageChanged (Failed (any_text e)))], Some (Recv_Failed e, s)))"

definition stopped_line :: "totals \<Rightarrow> string" where
  "stopped_line s = ''receiver stopped after '' @ dec_str (unat (to_transfers s)) @ '' transfer(s), '' @
     dec_str (unat (to_files s)) @ '' file(s), '' @ dec_str (unat (to_bytes s)) @ '' bytes''"

section \<open>The command\<close>

definition path_count :: "running_transport option \<times> running_transport option \<times> running_transport option \<Rightarrow> nat" where
  "path_count ts = (case ts of (tunnel, tor, i2p) \<Rightarrow>
     2 + (if tunnel \<noteq> None then 1 else 0) + (if i2p \<noteq> None then 1 else 0) + (if tor \<noteq> None then 1 else 0))"

definition recv_banner :: "'u discovery_config \<Rightarrow> tunnel_provider option \<Rightarrow> human_name \<Rightarrow> human_code \<Rightarrow> socket_addr \<Rightarrow> nat option \<Rightarrow> recv_out list" where
  "recv_banner d provider name hcode bound idle =
     [Print ''peerline recv'', Print (''name: '' @ name_str name), Print (''code: '' @ code_str hcode),
      Print (''direct: '' @ sock_str bound),
      Print (''waiting for transfers over '' @ recv_route_status d provider (dc_enable_tor d) (dc_enable_i2p d) @ ''...''),
      Print (case idle of
        Some timeout \<Rightarrow> ''idle timeout: '' @ format_duration timeout @ '' (change with --idle-timeout-minutes)''
      | None \<Rightarrow> ''idle timeout: disabled'')]"

text \<open>After the listener is bound: the transports, the rounds, the last line.\<close>

definition recv_running ::
  "recv_world \<Rightarrow> recv_args \<Rightarrow> 'u discovery_config \<Rightarrow> nat option \<Rightarrow> bool \<Rightarrow> recv_out list \<times> recv_end option" where
  "recv_running w a d idle tui =
     (case recv_transports w a d tui of
        (out, Pending) \<Rightarrow> (out, None)
      | (out, Over r) \<Rightarrow> (out, Some r)
      | (out, Goes_On q ts) \<Rightarrow>
          (case recv_loop idle tui (path_count ts) q (rw_rounds w) no_transfers of
             (out', None) \<Rightarrow> (out @ out', None)
           | (out', Some (Recv_Stopped, s)) \<Rightarrow> (out @ out' @ finish_recv @ [Print (stopped_line s)], Some Recv_Stopped)
           | (out', Some (r, s)) \<Rightarrow> (out @ out' @ finish_recv, Some r)))"

definition recv :: "'u config_env \<Rightarrow> recv_world \<Rightarrow> recv_args \<Rightarrow> recv_out list \<times> recv_end option" where
  "recv cv w a =
     (let provider = recv_public_tunnel_provider a; d = recv_discovery_config cv a in
      case rw_saved_name w of
        Inl e \<Rightarrow> ([], Some (Recv_Failed e))
      | Inr saved \<Rightarrow>
          (case resolve_recv_identity (rw_fresh_name w) (rw_fresh_code w) saved (ra_first a) (ra_second a) of
             Inl e \<Rightarrow> ([], Some (Recv_Failed (Untyped (rw_cli_text w e))))
           | Inr (name, hcode) \<Rightarrow>
               (case rw_node_id w of
                  Inl e \<Rightarrow> ([], Some (Recv_Failed e))
                | Inr _ \<Rightarrow>
                    (case recv_idle_timeout (ra_idle_timeout_minutes a) of
                       Idle_Panic \<Rightarrow> ([], Some Recv_Panicked)
                     | timeout \<Rightarrow>
                         let idle = (case timeout of Idle_After ms \<Rightarrow> Some ms | _ \<Rightarrow> None) in
                         (case rw_bind w (sock_new (V4 0 0 0 0) (ra_port a)) of
                            Inl e \<Rightarrow> ([], Some (Recv_Failed e))
                          | Inr bound \<Rightarrow>
                              (case rw_current_dir w of
                                 Inl e \<Rightarrow> ([], Some (Recv_Failed e))
                               | Inr _ \<Rightarrow>
                                   (case recv_running w a d idle (\<not> ra_no_tui a \<and> rw_terminal w) of
                                      (out, r) \<Rightarrow> (recv_banner d provider name hcode bound idle @ out, r))))))))"

section \<open>Every completed transfer counts once\<close>

lemma join_paths_done: "(t, Act_Done (Inr x)) \<in> set (join_paths n es) \<Longrightarrow> (t, Round_Path (Inr x)) \<in> set es"
  by (induction n es rule: join_paths.induct) (auto split: round_event.splits sum.splits if_splits)

lemma wait_completed:
  "wait_for_recv_activity idle until q a es = Some (t, q', Inr (Recv_Completed x)) \<Longrightarrow> (t, Act_Done (Inr x)) \<in> set es"
proof (induction idle until q a es rule: wait_for_recv_activity.induct)
  case (2 idle until q a u e es)
  show ?case
  proof (cases "fired until u")
    case None
    note go = 2(4) [simplified None wait_for_recv_activity.simps option.case]
    show ?thesis
    proof (cases e)
      case (Act_Done r)
      with go show ?thesis by (auto split: sum.splits)
    next
      case (Act_Quit v)
      with go 2(1) [OF None Act_Quit] show ?thesis by (auto split: if_splits)
    next
      case Act_Signal
      with go 2(2) [OF None Act_Signal] show ?thesis by auto
    next
      case Act_Closed
      with go 2(3) [OF None Act_Closed] show ?thesis by auto
    qed
  qed (use 2(4) in auto)
qed (auto split: option.splits)

text \<open>What the round's paths say to the receiver is what \<open>wait_for_receiver\<close> says of their results.\<close>

definition path_results :: "(nat \<times> round_event) list \<Rightarrow> (any_error + received_transfer) list" where
  "path_results es = List.map_filter (\<lambda>(t, e). case e of Round_Path r \<Rightarrow> Some r | _ \<Rightarrow> None) es"

lemma join_paths_receiver:
  assumes "0 < n"
  shows "(\<exists>t. (t, Act_Done r) \<in> set (join_paths n es)) \<longleftrightarrow> wait_for_receiver n last_error (path_results es) = Some r"
  using assms
proof (induction es arbitrary: n last_error)
  case (Cons te es)
  obtain t e where te: "te = (t, e)" by fastforce
  obtain m where n: "n = Suc m" using Cons.prems by (cases n) auto
  show ?case
  proof (cases e)
    case (Round_Path p)
    show ?thesis
    proof (cases p)
      case (Inl err)
      show ?thesis
      proof (cases "m = 0")
        case True
        with Inl Round_Path show ?thesis by (auto simp: te n path_results_def List.map_filter_def)
      next
        case False
        with Cons.IH [of m "Some err"] Inl Round_Path show ?thesis
          by (simp add: te n path_results_def List.map_filter_def)
      qed
    next
      case (Inr x)
      with Round_Path show ?thesis by (auto simp: te n path_results_def List.map_filter_def)
    qed
  next
    case (Round_Quit v)
    with Cons.IH [OF Cons.prems, of last_error] show ?thesis by (simp add: te path_results_def List.map_filter_def)
  next
    case Round_Signal
    with Cons.IH [OF Cons.prems, of last_error] show ?thesis by (simp add: te path_results_def List.map_filter_def)
  qed
next
  case Nil
  then show ?case by (cases n) (simp_all add: path_results_def List.map_filter_def)
qed

fun is_print :: "recv_out \<Rightarrow> bool" where
  "is_print (Print s) = True"
| "is_print (Emit e) = False"

lemma fold_add_transfer:
  "to_transfers (fold add_transfer xs s) = to_transfers s + of_nat (length xs)"
  "to_files (fold add_transfer xs s) = to_files s + of_nat (sum_list (map rt_files xs))"
  "to_bytes (fold add_transfer xs s) = to_bytes s + sum_list (map rt_bytes xs)"
  by (induction xs arbitrary: s) (simp_all add: add_transfer_def algebra_simps)

lemma recv_loop_counts:
  assumes "recv_loop idle tui n q rounds s = (out, r)"
  shows "\<exists>xs. length xs \<le> length rounds \<and>
    list_all2 (\<lambda>x (start, es). Round_Path (Inr x) \<in> snd ` set es) xs (take (length xs) rounds) \<and>
    filter is_print out = (if tui then [] else map (\<lambda>x. Print (received_line x)) xs) \<and>
    (\<forall>e s'. r = Some (e, s') \<longrightarrow> s' = fold add_transfer xs s)"
  using assms
proof (induction idle tui n q rounds s arbitrary: out r rule: recv_loop.induct)
  case (2 idle tui n q start es rounds s)
  let ?wait = "wait_for_recv_activity idle (restart idle start) q True (join_paths n es)"
  consider (more) t q' x where "?wait = Some (t, q', Inr (Recv_Completed x))"
    | (stop) "(\<nexists>t q' x. ?wait = Some (t, q', Inr (Recv_Completed x)))" by blast
  then show ?case
  proof cases
    case more
    obtain out' r' where rest: "recv_loop idle tui n q' rounds (add_transfer x s) = (out', r')" by fastforce
    with 2(2) more have out: "out = Emit ready_message # (if tui then [] else [Print (received_line x)]) @
        Emit (StageChanged Discovering) # out'" "r = r'" by auto
    obtain xs where xs: "length xs \<le> length rounds"
      "list_all2 (\<lambda>x (start, es). Round_Path (Inr x) \<in> snd ` set es) xs (take (length xs) rounds)"
      "filter is_print out' = (if tui then [] else map (\<lambda>x. Print (received_line x)) xs)"
      "\<forall>e s'. r' = Some (e, s') \<longrightarrow> s' = fold add_transfer xs (add_transfer x s)"
      using 2(1) [OF more refl refl refl refl rest] by blast
    have "Round_Path (Inr x) \<in> snd ` set es"
      using join_paths_done [OF wait_completed [OF more]] by force
    with xs out show ?thesis by (intro exI [of _ "x # xs"]) simp
  next
    case stop
    with 2(2) have "filter is_print out = [] \<and> (\<forall>e s'. r = Some (e, s') \<longrightarrow> s' = s)"
      by (auto split: option.splits sum.splits recv_outcome.splits prod.splits)
    then show ?thesis by (intro exI [of _ "[]"]) simp
  qed
qed simp


definition sample_received :: received_transfer where
  "sample_received = \<lparr>rt_peer = ''127.0.0.1:50001'', rt_files = 2, rt_bytes = 300\<rparr>"


section \<open>Which failures stop a receiver\<close>

text \<open>
  C18. A receiver stops for a transport only when it asked for it: starting the transports fails only
  when the public tunnel asked for could not start, or when Tor was required and could not, with
  the reason as the context; a failure of I2P, or of Tor that was not required, never stops it. When
  it goes on, the tunnel asked for and the Tor service required are running.
\<close>

theorem only_required_transports_stop_recv:
  assumes "recv_transports w a d q = (out, s)"
  shows "(\<forall>e. s = Over (Recv_Failed e) \<longrightarrow>
      (\<exists>p. recv_public_tunnel_provider a = Some p \<and> Task_Ready (Inl e) \<in> set (rw_tunnel w p)) \<or>
      ra_tor a \<and> dc_enable_tor d \<and>
        (\<exists>e0. Task_Ready (Inl e0) \<in> set (rw_tor w) \<and> e = with_context ''could not start required Tor onion listener'' e0)) \<and>
    (\<forall>q' tunnel tor i2p. s = Goes_On q' (tunnel, tor, i2p) \<longrightarrow>
      (tunnel \<noteq> None \<longleftrightarrow> recv_public_tunnel_provider a \<noteq> None) \<and> (ra_tor a \<and> dc_enable_tor d \<longrightarrow> tor \<noteq> None))"
proof -
  let ?t = "start_tunnel_step w (recv_public_tunnel_provider a) q"
  have fails: "Task_Ready (Inl e) \<in> set es" if "wait_with_quit q es = Some (q', Inl e)"
    for q q' e and es :: "running_transport wait_event list"
    using wait_with_quit_result [OF that] by (auto split: sum.splits) (metis sum.exhaust)
  have t_fail: "\<exists>p. recv_public_tunnel_provider a = Some p \<and> Task_Ready (Inl e) \<in> set (rw_tunnel w p)"
    if "snd ?t = Over (Recv_Failed e)" for e
    using that fails by (auto simp: start_tunnel_step_def split: option.splits sum.splits task_outcome.splits)
  have t_on: "tunnel \<noteq> None \<longleftrightarrow> recv_public_tunnel_provider a \<noteq> None" if "snd ?t = Goes_On q1 tunnel" for q1 tunnel
    using that by (auto simp: start_tunnel_step_def split: option.splits sum.splits task_outcome.splits)
  have o_fail: "ra_tor a \<and> dc_enable_tor d \<and>
      (\<exists>e0. Task_Ready (Inl e0) \<in> set (rw_tor w) \<and> e = with_context ''could not start required Tor onion listener'' e0)"
    if "snd (start_tor_step w (dc_enable_tor d) (ra_tor a) q1) = Over (Recv_Failed e)" for q1 e
    using that by (auto simp: start_tor_step_def split: if_splits option.splits sum.splits task_outcome.splits)
      (blast dest: fails)
  have o_on: "ra_tor a \<and> dc_enable_tor d \<longrightarrow> tor \<noteq> None"
    if "snd (start_tor_step w (dc_enable_tor d) (ra_tor a) q1) = Goes_On q2 tor" for q1 q2 tor
    using that by (auto simp: start_tor_step_def split: if_splits option.splits sum.splits task_outcome.splits)
  have i_fail: "snd (start_i2p_step w en sam q1) \<noteq> Over (Recv_Failed e)" for en sam q1 e
    by (auto simp: start_i2p_step_def split: option.splits sum.splits task_outcome.splits)
  obtain out1 s1 where t: "?t = (out1, s1)" by fastforce
  show ?thesis
  proof (cases s1)
    case (Goes_On q1 tunnel)
    obtain out2 s2 where o2: "start_tor_step w (dc_enable_tor d) (ra_tor a) q1 = (out2, s2)" by fastforce
    show ?thesis
    proof (cases s2)
      case on2: (Goes_On q2 tor)
      obtain out3 s3 where i3: "start_i2p_step w (dc_enable_i2p d) (dc_i2p_sam d) q2 = (out3, s3)" by fastforce
      have "s = (case s3 of Pending \<Rightarrow> Pending | Over r \<Rightarrow> Over r | Goes_On q3 i2p \<Rightarrow> Goes_On q3 (tunnel, tor, i2p))"
        using assms t Goes_On o2 on2 i3 by (cases s3) (auto simp: recv_transports_def)
      moreover have "s3 \<noteq> Over (Recv_Failed e)" for e using i_fail [of "dc_enable_i2p d" "dc_i2p_sam d" q2 e] i3 by simp
      moreover have "tunnel \<noteq> None \<longleftrightarrow> recv_public_tunnel_provider a \<noteq> None" using t_on [of q1 tunnel] t Goes_On by simp
      moreover have "ra_tor a \<and> dc_enable_tor d \<longrightarrow> tor \<noteq> None" using o_on [of q1 q2 tor] o2 on2 by simp
      ultimately show ?thesis by (cases s3) auto
    next
      case (Over r)
      with assms t Goes_On o2 o_fail [of q1] show ?thesis by (auto simp: recv_transports_def)
    qed (use assms t Goes_On o2 in \<open>auto simp: recv_transports_def\<close>)
  next
    case (Over r)
    with assms t t_fail show ?thesis by (auto simp: recv_transports_def)
  qed (use assms t in \<open>auto simp: recv_transports_def\<close>)
qed

definition tor_recv_args :: recv_args where
  "tor_recv_args = \<lparr>ra_first = None, ra_second = None, ra_port = 43117, ra_overwrite = False, ra_no_tui = True,
     ra_allow_relay_fallback = False, ra_no_relay_fallback = False, ra_no_upnp = False, ra_no_nat_pmp_pcp = False,
     ra_no_quic = False, ra_no_dcutr = False, ra_no_turn = False, ra_tor = True, ra_no_tor = False, ra_no_i2p = False,
     ra_i2p_sam = static_endpoint, ra_tunnel = None, ra_idle_timeout_minutes = 10\<rparr>"

definition torless_world :: recv_world where
  "torless_world = \<lparr>rw_saved_name = Inr None, rw_fresh_name = HumanName ''river-mango-42'',
     rw_fresh_code = HumanCode ''rose-lime-iris-jade-1234'', rw_cli_text = \<lambda>_. [], rw_node_id = Inr (), rw_bind = \<lambda>s. Inr s,
     rw_current_dir = Inr ''/tmp'', rw_terminal = False, rw_tunnel = \<lambda>_. [], rw_tor = [Task_Ready (Inl (Untyped ''no tor''))],
     rw_i2p = \<lambda>_. [], rw_rounds = []\<rparr>"

lemma only_required_transports_stop_recv_witness:
  "recv_transports torless_world tor_recv_args (recv_discovery_config cli_env tor_recv_args) False =
     (finish_recv, Over (Recv_Failed (Untyped ''could not start required Tor onion listener''))) \<and> ra_tor tor_recv_args"
proof -
  have "dc_enable_tor (recv_discovery_config cli_env tor_recv_args)"
    by (simp add: recv_discovery_config_def Let_def tor_recv_args_def)
  moreover have "recv_public_tunnel_provider tor_recv_args = None" "ra_tor tor_recv_args"
    "rw_tor torless_world = [Task_Ready (Inl (Untyped ''no tor''))]"
    by (simp_all add: recv_public_tunnel_provider_def tor_recv_args_def torless_world_def)
  ultimately have run: "recv_transports torless_world tor_recv_args (recv_discovery_config cli_env tor_recv_args) False =
      (finish_recv, Over (Recv_Failed (Untyped ''could not start required Tor onion listener'')))"
    by (simp add: recv_transports_def start_tunnel_step_def start_tor_step_def)
  from only_required_transports_stop_recv [OF run] \<open>recv_public_tunnel_provider tor_recv_args = None\<close> run
  show ?thesis by auto
qed

end
