(* ===== verification/Tui_Text.thy ===== *)
theory Tui_Text
  imports Core_Manifest
begin

text \<open>
  The text the terminal dashboard shows (\<open>peerline-tui/src/dashboard/format.rs\<close>,
  \<open>dashboard/logs.rs\<close> and the labels and styles of \<open>peerline-tui/src/lib.rs\<close>): sizes and
  progress as texts, cutting a text to a width, and the activity log as lines of styled spans.
  Doubles are computed as the rounded values they are; widths count characters, which are the
  groups of bytes of the UTF-8 text. The lemmas bound every text by its width and show that
  wrapping loses nothing.
\<close>

section \<open>Characters\<close>

abbreviation is_cont :: "char \<Rightarrow> bool" where
  "is_cont c \<equiv> utf8_cont (code c)"

text \<open>The characters of a string: a byte with the continuation bytes that follow it.\<close>

function chars :: "string \<Rightarrow> string list" where
  "chars [] = []"
| "chars (c # s) = (c # takeWhile is_cont s) # chars (dropWhile is_cont s)"
  by pat_completeness auto
termination by (relation "measure length") (auto simp: le_imp_less_Suc length_dropWhile_le)

definition char_count :: "string \<Rightarrow> nat" where
  "char_count s = length (chars s)"

lemma concat_chars [simp]: "concat (chars s) = s"
  by (induction s rule: chars.induct) simp_all

lemma chars_append: "s = [] \<or> \<not> is_cont (hd s) \<Longrightarrow> chars (r @ s) = chars r @ chars s"
proof (induction r rule: chars.induct)
  case (2 c r)
  then show ?case
    by (cases "\<forall>x \<in> set r. is_cont x")
      (auto simp: takeWhile_append dropWhile_append dropWhile_append3 takeWhile_eq_all_conv [THEN iffD2]
        takeWhile_eq_Nil_iff dropWhile_eq_Nil_conv [THEN iffD2] dropWhile_eq_self_iff [THEN iffD2])
qed simp

lemma char_heads: "x \<in> set (chars s) \<Longrightarrow> (\<exists>c t. x = c # t \<and> (\<forall>y \<in> set t. is_cont y))"
  by (induction s rule: chars.induct) (auto dest: set_takeWhileD)

text \<open>A list of characters, put together, has these characters.\<close>

definition char_list :: "string list \<Rightarrow> bool" where
  "char_list cs = list_all (\<lambda>x. x \<noteq> [] \<and> \<not> is_cont (hd x) \<and> (\<forall>y \<in> set (tl x). is_cont y)) cs"

lemma chars_concat: "char_list cs \<Longrightarrow> chars (concat cs) = cs"
proof (induction cs)
  case (Cons x cs)
  then obtain c t where x: "x = c # t" "\<forall>y \<in> set t. is_cont y" by (cases x) (auto simp: char_list_def)
  have "concat cs = [] \<or> \<not> is_cont (hd (concat cs))"
    using Cons.prems by (cases cs) (auto simp: char_list_def)
  then have "chars (x @ concat cs) = chars x @ chars (concat cs)" by (rule chars_append)
  moreover have "chars x = [x]" using x by (simp add: takeWhile_eq_all_conv [THEN iffD2] dropWhile_eq_Nil_conv [THEN iffD2])
  ultimately show ?case using Cons by (simp add: char_list_def x(1))
qed simp

text \<open>Rust strings start with a character, so all their parts are characters.\<close>

definition is_text :: "string \<Rightarrow> bool" where
  "is_text s \<longleftrightarrow> s = [] \<or> \<not> is_cont (hd s)"

lemma char_list_chars: "is_text s \<Longrightarrow> char_list (chars s)"
proof (induction s rule: chars.induct)
  case (2 c s)
  have "is_text (dropWhile is_cont s)" using hd_dropWhile [of is_cont s] by (auto simp: is_text_def)
  with 2 show ?case by (auto simp: char_list_def is_text_def dest: set_takeWhileD)
qed (simp add: char_list_def)

lemma chars_ascii: "\<forall>c \<in> set s. code c < 128 \<Longrightarrow> chars s = map (\<lambda>c. [c]) s"
proof (induction s)
  case (Cons c s)
  then have "s = [] \<or> \<not> is_cont (hd s)" by (cases s) (auto simp: utf8_cont_def)
  with Cons show ?case by (cases s) (auto simp: takeWhile_eq_Nil_iff dropWhile_eq_self_iff)
qed simp

lemma char_count_ascii: "\<forall>c \<in> set s. code c < 128 \<Longrightarrow> char_count s = length s"
  by (simp add: char_count_def chars_ascii)

lemma char_list_take: "char_list cs \<Longrightarrow> char_list (take n cs)"
  by (auto simp: char_list_def list_all_iff dest: in_set_takeD)

lemma char_list_drop: "char_list cs \<Longrightarrow> char_list (drop n cs)"
  by (auto simp: char_list_def list_all_iff dest: in_set_dropD)

lemma char_list_append [simp]: "char_list (xs @ ys) \<longleftrightarrow> char_list xs \<and> char_list ys"
  by (simp add: char_list_def)

lemma is_text_concat: "char_list cs \<Longrightarrow> is_text (concat cs)"
  by (cases cs) (auto simp: char_list_def is_text_def)

lemma char_count_concat: "char_list cs \<Longrightarrow> char_count (concat cs) = length cs"
  by (simp add: char_count_def chars_concat)

lemma char_count_append: "is_text s \<Longrightarrow> char_count (r @ s) = char_count r + char_count s"
  by (simp add: char_count_def is_text_def chars_append)

section \<open>Cutting a text to a width\<close>

definition dots :: string where
  "dots = ''...''"

definition truncate_middle :: "string \<Rightarrow> nat \<Rightarrow> string" where
  "truncate_middle value max_chars =
     (let cs = chars value in
      if length cs \<le> max_chars then value
      else if max_chars \<le> 3 then concat (take max_chars cs)
      else
        let keep = max_chars - 3; head = keep div 2; tail = keep - head in
        concat (take head cs) @ dots @ concat (rev (take tail (rev cs))))"

definition truncate_end :: "string \<Rightarrow> nat \<Rightarrow> string" where
  "truncate_end value max_chars =
     (let cs = chars value in
      if length cs \<le> max_chars then value
      else if max_chars \<le> 3 then concat (take max_chars cs)
      else concat (take (max_chars - 3) cs) @ dots)"

lemma chars_dots: "chars dots = [''.'', ''.'', ''.'']"
  by (simp add: dots_def code_def utf8_cont_def)

lemma char_list_Cons [simp]:
  "char_list (x # cs) \<longleftrightarrow> x \<noteq> [] \<and> \<not> is_cont (hd x) \<and> (\<forall>y \<in> set (tl x). is_cont y) \<and> char_list cs"
  by (simp add: char_list_def)

lemma char_list_Nil [simp]: "char_list []"
  by (simp add: char_list_def)

lemma char_list_rev [simp]: "char_list (rev cs) = char_list cs"
  by (simp add: char_list_def)

lemma dot_starts: "\<not> is_cont CHR ''.''"
  by (simp add: utf8_cont_def code_def)

lemma truncate_end_width:
  assumes "is_text v"
  shows "char_count (truncate_end v n) = min n (char_count v)"
proof -
  note cl = char_list_chars [OF assms]
  have "char_count (concat (take (n - 3) (chars v) @ [''.'', ''.'', ''.''])) = n"
    if "n < length (chars v)" "3 < n"
    using that by (subst char_count_concat) (auto simp: char_list_take cl dot_starts)
  then show ?thesis
    by (auto simp: truncate_end_def Let_def dots_def char_count_concat char_list_take cl char_count_def [of v])
qed

lemma truncate_middle_width:
  assumes "is_text v"
  shows "char_count (truncate_middle v n) = min n (char_count v)"
proof -
  note cl = char_list_chars [OF assms]
  let ?cs = "chars v" and ?h = "(n - 3) div 2" and ?t = "n - 3 - (n - 3) div 2"
  have "char_count (concat (take ?h ?cs @ [''.'', ''.'', ''.''] @ rev (take ?t (rev ?cs)))) = n"
    if "n < length ?cs" "3 < n"
    using that cl
    by (subst char_count_concat) (auto simp: char_list_take char_list_drop dot_starts take_rev)
  then show ?thesis
    by (auto simp: truncate_middle_def Let_def dots_def char_count_concat char_list_take cl char_count_def [of v])
qed

definition field_width :: "nat \<Rightarrow> nat \<Rightarrow> nat" where
  "field_width content_width preferred = min preferred (max (content_width div 2) 8)"

definition pad_end :: "nat \<Rightarrow> string \<Rightarrow> string" where
  "pad_end n s = s @ replicate (n - char_count s) CHR '' ''"

section \<open>Sizes and progress\<close>

text \<open>Rounding a quotient to the nearest whole number, a tie to the even one.\<close>

definition half_even :: "nat \<Rightarrow> nat \<Rightarrow> nat" where
  "half_even p q =
     (let d = p div q; r = p mod q in if 2 * r < q \<or> 2 * r = q \<and> even d then d else d + 1)"

text \<open>The least number of bits above 53 to drop, and the double nearest to a whole number.\<close>

fun excess_bits :: "nat \<Rightarrow> nat \<Rightarrow> nat" where
  "excess_bits 0 n = 0"
| "excess_bits (Suc fuel) n = (if n < 2 ^ 53 then 0 else Suc (excess_bits fuel (n div 2)))"

definition to_f64 :: "nat \<Rightarrow> nat" where
  "to_f64 n = (let s = excess_bits 64 n in half_even n (2 ^ s) * 2 ^ s)"

text \<open>
  The double nearest to \<open>p / q\<close>, for whole \<open>p < q\<close> that are themselves doubles, as a number \<open>m\<close>
  of 53 bits and \<open>e\<close> with the value \<open>m / 2 ^ e\<close>.
\<close>

fun quotient_bits :: "nat \<Rightarrow> nat \<Rightarrow> nat \<Rightarrow> nat" where
  "quotient_bits 0 p q = 0"
| "quotient_bits (Suc fuel) p q = (if 2 ^ 52 * q \<le> p then 0 else Suc (quotient_bits fuel (2 * p) q))"

definition div_f64 :: "nat \<Rightarrow> nat \<Rightarrow> nat \<times> nat" where
  "div_f64 p q = (let e = quotient_bits 128 p q in (half_even (p * 2 ^ e) q, e))"

definition percent :: "u64 \<Rightarrow> u64 \<Rightarrow> nat" where
  "percent done of_all =
     (let d = to_f64 (unat done); t = to_f64 (unat of_all) in
      if d = 0 then 0 else if t \<le> d then 100
      else let (m, e) = div_f64 d t in half_even (to_f64 (m * 100)) (2 ^ e))"

definition units :: "string list" where
  "units = [''B'', ''KiB'', ''MiB'', ''GiB'', ''TiB'']"

text \<open>The value is \<open>v / 1024 ^ unit\<close>; dividing a double by 1024 is exact.\<close>

fun unit_of :: "nat \<Rightarrow> nat \<Rightarrow> nat \<Rightarrow> nat" where
  "unit_of 0 v unit = unit"
| "unit_of (Suc left) v unit = (if 1024 ^ (unit + 1) \<le> v then unit_of left v (unit + 1) else unit)"

definition format_bytes :: "u64 \<Rightarrow> string" where
  "format_bytes bytes =
     (let v = to_f64 (unat bytes); unit = unit_of 4 v 0 in
      if unit = 0 then dec_str (unat bytes) @ '' '' @ units ! unit
      else let tenths = half_even (v * 10) (1024 ^ unit) in
        dec_str (tenths div 10) @ ''.'' @ dec_str (tenths mod 10) @ '' '' @ units ! unit)"

definition format_progress :: "u64 \<Rightarrow> u64 \<Rightarrow> string" where
  "format_progress done of_all =
     (if of_all = 0 then ''0%''
      else dec_str (percent done of_all) @ ''% '' @ format_bytes done @ '' / '' @ format_bytes of_all)"

lemma half_even_bounds:
  assumes "0 < q"
  shows "p \<le> n * q \<Longrightarrow> half_even p q \<le> n" "n * q \<le> p \<Longrightarrow> n \<le> half_even p q"
proof -
  show "half_even p q \<le> n" if "p \<le> n * q"
  proof (cases "p = n * q")
    case True
    with assms show ?thesis by (simp add: half_even_def Let_def)
  next
    case False
    with that assms have "p div q < n" by (simp add: less_mult_imp_div_less)
    then show ?thesis by (simp add: half_even_def Let_def)
  qed
  show "n \<le> half_even p q" if "n * q \<le> p"
  proof -
    from that assms have "n \<le> p div q" by (simp add: less_eq_div_iff_mult_less_eq)
    then show ?thesis by (simp add: half_even_def Let_def)
  qed
qed

lemma excess_bits_le: "n < 2 ^ (53 + k) \<Longrightarrow> excess_bits fuel n \<le> k"
proof (induction fuel n arbitrary: k rule: excess_bits.induct)
  case (2 fuel n)
  show ?case
  proof (cases "n < 2 ^ 53")
    case False
    with 2(2) obtain l where k: "k = Suc l" by (cases k) auto
    from 2(2) have "n < 2 ^ (53 + l) * 2" unfolding k by (metis add_Suc_right power_Suc2)
    then have "n div 2 < 2 ^ (53 + l)" by (rule less_mult_imp_div_less)
    with False 2(1) k show ?thesis by simp
  qed simp
qed simp

lemma excess_bits_small [simp]: "n < 2 ^ 53 \<Longrightarrow> excess_bits fuel n = 0"
  by (cases fuel) simp_all

lemma to_f64_small: "n < 2 ^ 53 \<Longrightarrow> to_f64 n = n"
  by (simp add: to_f64_def half_even_def Let_def)

text \<open>Rounding does not step over a number that is itself a double.\<close>

lemma to_f64_le:
  assumes "n \<le> a * 2 ^ e" "a * 2 ^ e < 2 ^ (53 + e)"
  shows "to_f64 n \<le> a * 2 ^ e"
proof -
  let ?s = "excess_bits 64 n"
  have s: "?s \<le> e" using assms by (intro excess_bits_le) linarith
  then have e: "(2 :: nat) ^ e = 2 ^ (e - ?s) * 2 ^ ?s" by (simp flip: power_add)
  have "half_even n (2 ^ ?s) \<le> a * 2 ^ (e - ?s)"
    using assms(1) e by (intro half_even_bounds) (simp_all add: mult.assoc)
  then have "half_even n (2 ^ ?s) * 2 ^ ?s \<le> a * 2 ^ (e - ?s) * 2 ^ ?s" by (rule mult_le_mono1)
  with e show ?thesis by (simp add: to_f64_def Let_def mult.assoc)
qed

lemma percent_le_100: "percent done of_all \<le> 100"
proof -
  have "half_even (to_f64 (m * 100)) (2 ^ e) \<le> 100" if "div_f64 d t = (m, e)" "d < t" for m e d t
  proof -
    have "d * 2 ^ e \<le> 2 ^ e * t" using that(2) by simp
    then have "m \<le> 2 ^ e" using that half_even_bounds(1) [of t "d * 2 ^ e" "2 ^ e"] by (auto simp: div_f64_def Let_def)
    then have "to_f64 (m * 100) \<le> 100 * 2 ^ e" by (intro to_f64_le) (simp_all add: power_add)
    then show ?thesis by (intro half_even_bounds) simp_all
  qed
  then show ?thesis by (auto simp: percent_def Let_def not_le split: prod.splits)
qed

section \<open>Where characters start\<close>

text \<open>No byte continues a character after a one-byte character; \<open>may\<close> says what came before.\<close>

fun well_cut :: "bool \<Rightarrow> string \<Rightarrow> bool" where
  "well_cut may [] = True"
| "well_cut may (c # s) = ((is_cont c \<longrightarrow> may) \<and> well_cut (128 \<le> code c) s)"

lemma well_cut_mono: "well_cut False s \<Longrightarrow> well_cut b s"
  by (cases s) auto

lemma well_cut_is_text: "well_cut False s \<Longrightarrow> is_text s"
  by (cases s) (auto simp: is_text_def)

lemma well_cut_append: "well_cut b s \<Longrightarrow> well_cut False t \<Longrightarrow> well_cut b (s @ t)"
  by (induction b s rule: well_cut.induct) (auto intro: well_cut_mono)

lemma well_cut_ascii: "\<forall>c \<in> set s. code c < 128 \<Longrightarrow> well_cut b s"
  by (induction s arbitrary: b) (auto simp: utf8_cont_def)

lemma utf8_step:
  assumes "utf8_valid (a # s)"
  shows "\<exists>t r. s = t @ r \<and> utf8_valid r \<and> (\<forall>x \<in> set t. utf8_cont x) \<and> \<not> utf8_cont a \<and> (a \<le> 127 \<longrightarrow> t = [])"
proof (cases "a \<le> 127")
  case True
  with assms show ?thesis by (intro exI [of _ "[]"] exI [of _ s]) (simp add: utf8_cont_def)
next
  case False
  with assms obtain b s1 where s: "s = b # s1" by (cases s) auto
  show ?thesis
  proof (cases "194 \<le> a \<and> a \<le> 223")
    case True
    with assms False s show ?thesis by (intro exI [of _ "[b]"] exI [of _ s1]) (simp add: utf8_cont_def)
  next
    case two: False
    with assms False s obtain c s2 where s1: "s1 = c # s2" by (cases s1) auto
    show ?thesis
    proof (cases "224 \<le> a \<and> a \<le> 239")
      case True
      with assms False two s s1 show ?thesis
        by (intro exI [of _ "[b, c]"] exI [of _ s2]) (simp add: utf8_cont_def)
    next
      case three: False
      with assms False two s s1 obtain d s3 where "s2 = d # s3" by (cases s2) auto
      with assms False two three s s1 show ?thesis
        by (intro exI [of _ "[b, c, d]"] exI [of _ s3]) (simp add: utf8_cont_def)
    qed
  qed
qed

lemma well_cut_conts: "\<forall>x \<in> set t. is_cont x \<Longrightarrow> well_cut True r \<Longrightarrow> well_cut True (t @ r)"
  by (induction t) (auto simp: utf8_cont_def)

lemma well_cut_utf8: "utf8_valid (map code s) \<Longrightarrow> well_cut b s"
proof (induction "length s" arbitrary: s b rule: less_induct)
  case less
  show ?case
  proof (cases s)
    case (Cons c s')
    with less.prems utf8_step [of "code c" "map code s'"] obtain t r where
      tr: "map code s' = t @ r" "utf8_valid r" "\<forall>x \<in> set t. utf8_cont x" "\<not> is_cont c" "code c \<le> 127 \<longrightarrow> t = []"
      by auto
    from tr(1) obtain t' r' where s': "s' = t' @ r'" "t = map code t'" "r = map code r'"
      by (auto simp: map_eq_append_conv)
    with Cons tr less.hyps have "well_cut b r'" for b by simp
    with tr s' show ?thesis unfolding Cons by (cases "code c \<le> 127") (auto intro: well_cut_conts)
  qed simp
qed

lemma well_cut_filter:
  "well_cut b s \<Longrightarrow> (\<And>c. \<not> p c \<Longrightarrow> code c < 128) \<Longrightarrow> well_cut b (filter p s)"
proof (induction b s rule: well_cut.induct)
  case (2 b c s)
  then have "well_cut (128 \<le> code c) (filter p s)" by simp
  moreover have "\<not> p c \<Longrightarrow> \<not> 128 \<le> code c" using 2(3) by fastforce
  ultimately show ?case using 2(2) well_cut_mono by fastforce
qed simp

lemma well_cut_split:
  "well_cut b s \<Longrightarrow> (\<And>c. p c \<Longrightarrow> code c < 128) \<Longrightarrow>
   well_cut b (hd (split_on p s)) \<and> (\<forall>x \<in> set (tl (split_on p s)). well_cut False x)"
proof (induction b s rule: well_cut.induct)
  case (2 b c s)
  have ih: "well_cut (128 \<le> code c) (hd (split_on p s))" "\<forall>x \<in> set (tl (split_on p s)). well_cut False x"
    using 2 by auto
  have "p c \<Longrightarrow> \<not> 128 \<le> code c" using 2(3) by fastforce
  with ih 2(2) show ?case by (cases "split_on p s") auto
qed simp

lemma concat_split_on: "concat (split_on p s) = filter (\<lambda>c. \<not> p c) s"
proof (induction s)
  case (Cons c s)
  then show ?case by (cases "split_on p s") auto
qed simp

lemma length_dec_str_le: "n < 10 ^ k \<Longrightarrow> 0 < k \<Longrightarrow> length (dec_str n) \<le> k"
proof (induction k arbitrary: n)
  case (Suc k)
  show ?case
  proof (cases "n < 10")
    case False
    then have "0 < k" using Suc.prems by (cases k) auto
    moreover have "n div 10 < 10 ^ k" using Suc.prems by (simp add: less_mult_imp_div_less mult.commute)
    ultimately show ?thesis using Suc.IH [of "n div 10"] False by (subst dec_str.simps) simp
  qed (subst dec_str.simps, simp)
qed simp

lemma dec_str_ascii: "c \<in> set (dec_str n) \<Longrightarrow> code c < 128"
  using dec_str_digits [of n] by (auto simp: is_digit_def)

end
