(* ===== verification/Tui_Logs.thy ===== *)
theory Tui_Logs
  imports Tui_Text
begin

text \<open>
  The activity log of the dashboard (\<open>peerline-tui/src/dashboard/logs.rs\<close>) and the labels and
  styles of \<open>peerline-tui/src/lib.rs\<close>: a log entry as the lines it is drawn in, the part of the log
  that is seen, and what the scroll keys ask for. Every drawn line fits its width, and the lines
  of an entry together hold its text.
\<close>

section \<open>Labels and styles\<close>

datatype colour = White | Green | Yellow | Red | Cyan | Blue | Gray | DarkGray

record style =
  st_fg :: "colour option"
  st_bold :: bool

definition plain_style :: style where
  "plain_style = \<lparr>st_fg = None, st_bold = False\<rparr>"

abbreviation fg :: "colour \<Rightarrow> style" where
  "fg c \<equiv> plain_style\<lparr>st_fg := Some c\<rparr>"

abbreviation bold :: "style \<Rightarrow> style" where
  "bold s \<equiv> s\<lparr>st_bold := True\<rparr>"

type_synonym text_span = "style \<times> string"
type_synonym text_line = "text_span list"

definition line_text :: "text_line \<Rightarrow> string" where
  "line_text l = concat (map snd l)"

fun connection_route_label :: "connection_route \<Rightarrow> string" where
  "connection_route_label LanDirect = ''lan-direct''"
| "connection_route_label PublicDirect = ''public-direct''"
| "connection_route_label PublicTunnel = ''public-tunnel''"
| "connection_route_label TorOnion = ''tor-onion''"
| "connection_route_label I2p = ''i2p''"
| "connection_route_label Libp2pQuic = ''libp2p-quic''"
| "connection_route_label Libp2pDcutr = ''libp2p-dcutr''"
| "connection_route_label Libp2pRelay = ''libp2p-relay''"
| "connection_route_label WebRtcDirect = ''webrtc-direct''"
| "connection_route_label WebRtcTurn = ''webrtc-turn''"

fun stage_label :: "transfer_stage \<Rightarrow> string" where
  "stage_label Discovering = ''discovering''"
| "stage_label (Connecting r) = ''connecting via '' @ connection_route_label r"
| "stage_label Authenticating = ''authenticating''"
| "stage_label ReceivingManifest = ''receiving manifest''"
| "stage_label Transferring = ''transferring''"
| "stage_label Verifying = ''verifying''"
| "stage_label Complete = ''complete''"
| "stage_label (Failed e) = ''failed: '' @ e"

fun stage_style :: "transfer_stage \<Rightarrow> style" where
  "stage_style Complete = bold (fg Green)"
| "stage_style (Failed e) = bold (fg Red)"
| "stage_style Authenticating = fg Yellow"
| "stage_style Verifying = fg Yellow"
| "stage_style Transferring = fg Green"
| "stage_style Discovering = fg Blue"
| "stage_style (Connecting r) = fg Cyan"
| "stage_style ReceivingManifest = fg Cyan"

definition label_span :: "string \<Rightarrow> text_span" where
  "label_span label = (bold (fg Gray), pad_end 8 label)"

section \<open>Log entries\<close>

datatype log_kind = Kind_Info | Kind_Success | Kind_Warn | Kind_Error | Kind_Status

record log_entry =
  le_elapsed :: nat
  le_kind :: log_kind
  le_source :: "string option"
  le_text :: string
  le_repeat_count :: nat

fun stage_kind :: "transfer_stage \<Rightarrow> log_kind" where
  "stage_kind Complete = Kind_Success"
| "stage_kind (Failed e) = Kind_Error"
| "stage_kind Authenticating = Kind_Warn"
| "stage_kind Verifying = Kind_Warn"
| "stage_kind Transferring = Kind_Success"
| "stage_kind Discovering = Kind_Status"
| "stage_kind (Connecting r) = Kind_Status"
| "stage_kind ReceivingManifest = Kind_Status"

fun log_level_kind :: "log_level \<Rightarrow> log_kind" where
  "log_level_kind LogError = Kind_Error"
| "log_level_kind LogWarn = Kind_Warn"
| "log_level_kind LogInfo = Kind_Info"
| "log_level_kind LogDebug = Kind_Status"
| "log_level_kind LogTrace = Kind_Status"

fun log_kind_label :: "log_kind \<Rightarrow> string" where
  "log_kind_label Kind_Info = ''info''"
| "log_kind_label Kind_Success = ''ok''"
| "log_kind_label Kind_Warn = ''warn''"
| "log_kind_label Kind_Error = ''error''"
| "log_kind_label Kind_Status = ''status''"

fun log_kind_style :: "log_kind \<Rightarrow> style" where
  "log_kind_style Kind_Info = fg White"
| "log_kind_style Kind_Success = fg Green"
| "log_kind_style Kind_Warn = fg Yellow"
| "log_kind_style Kind_Error = fg Red"
| "log_kind_style Kind_Status = fg Cyan"

definition log_source_label :: "string \<Rightarrow> string" where
  "log_source_label source =
     (case strip_prefix ''peerline_'' source of
        Some s \<Rightarrow> s
      | None \<Rightarrow> (case strip_prefix ''peerline::'' source of Some s \<Rightarrow> s | None \<Rightarrow> source))"

definition two_digits :: "nat \<Rightarrow> string" where
  "two_digits n = (if n < 10 then CHR ''0'' # dec_str n else dec_str n)"

definition format_elapsed :: "nat \<Rightarrow> string" where
  "format_elapsed elapsed =
     (let secs = elapsed div 1000; tenths = elapsed mod 1000 div 100 in
      if 60 \<le> secs then two_digits (secs div 60) @ '':'' @ two_digits (secs mod 60) @ ''.'' @ dec_str tenths
      else dec_str secs @ ''.'' @ dec_str tenths @ ''s'')"

definition log_entry_text :: "log_entry \<Rightarrow> string" where
  "log_entry_text entry =
     (if 1 < le_repeat_count entry then le_text entry @ '' (x'' @ dec_str (le_repeat_count entry) @ '')''
      else le_text entry)"

section \<open>Wrapping\<close>

text \<open>The characters of one logical line; \<open>current\<close> is the line being filled.\<close>

fun wrap_chars :: "nat \<Rightarrow> nat \<Rightarrow> string list \<Rightarrow> string list \<Rightarrow> string list list" where
  "wrap_chars next_width cont_width current [] = [current]"
| "wrap_chars next_width cont_width current (c # cs) =
     (if next_width \<le> length current then current # wrap_chars (max cont_width 1) cont_width [c] cs
      else wrap_chars next_width cont_width (current @ [c]) cs)"

fun wrap_logical :: "nat \<Rightarrow> nat \<Rightarrow> string list \<Rightarrow> string list" where
  "wrap_logical next_width cont_width [] = []"
| "wrap_logical next_width cont_width (l # ls) =
     (if l = [] then [[]] else map concat (wrap_chars next_width cont_width [] (chars l))) @
     wrap_logical (max cont_width 1) cont_width ls"

definition carriage_return :: char where
  "carriage_return = char_of (13 :: nat)"

definition line_feed :: char where
  "line_feed = char_of (10 :: nat)"

definition wrap_log_text :: "string \<Rightarrow> nat \<Rightarrow> nat \<Rightarrow> string list" where
  "wrap_log_text text first_width continuation_width =
     wrap_logical (max first_width 1) continuation_width
       (split_on (\<lambda>c. c = line_feed) (filter (\<lambda>c. c \<noteq> carriage_return) text))"

section \<open>The lines of an entry\<close>

definition elapsed_label :: "nat \<Rightarrow> nat \<Rightarrow> string" where
  "elapsed_label width elapsed = (if 24 \<le> width then ''['' @ format_elapsed elapsed @ ''] '' else [])"

definition kind_label :: "nat \<Rightarrow> log_kind \<Rightarrow> string" where
  "kind_label width kind = (if 10 \<le> width then ''['' @ log_kind_label kind @ ''] '' else [])"

text \<open>The spans before the text, and their width.\<close>

definition log_prefix :: "log_entry \<Rightarrow> nat \<Rightarrow> text_line \<times> nat" where
  "log_prefix entry width =
     (let elapsed = elapsed_label width (le_elapsed entry);
          kind = kind_label width (le_kind entry);
          prefix_width = (if 24 \<le> width then char_count elapsed else 0);
          spans = (if 24 \<le> width then [(fg DarkGray, elapsed)] else []);
          (spans, prefix_width) =
            (case le_source entry of
               Some source \<Rightarrow>
                 if 56 \<le> width then
                   let label = ''['' @ log_source_label source @ ''] '';
                       reserved_width = (if 10 \<le> width then char_count kind else 0) + 12 in
                   if prefix_width + char_count label + reserved_width \<le> width
                   then (spans @ [(fg Gray, label)], prefix_width + char_count label)
                   else (spans, prefix_width)
                 else (spans, prefix_width)
             | None \<Rightarrow> (spans, prefix_width)) in
      if 10 \<le> width then (spans @ [(log_kind_style (le_kind entry), kind)], prefix_width + char_count kind)
      else (spans, prefix_width))"

definition render_log_lines :: "log_entry \<Rightarrow> nat \<Rightarrow> text_line list" where
  "render_log_lines entry width =
     (let width = max width 1;
          (spans, prefix_width) = log_prefix entry width;
          text_style = log_kind_style (le_kind entry);
          first_width = max (width - prefix_width) 1;
          continuation_prefix = replicate (min prefix_width (width - 1)) CHR '' '';
          continuation_width = max (width - char_count continuation_prefix) 1;
          wrapped = wrap_log_text (log_entry_text entry) first_width continuation_width in
      case wrapped of
        [] \<Rightarrow> [spans @ [(text_style, [])]]
      | t # ts \<Rightarrow> (spans @ [(text_style, t)]) #
          map (\<lambda>t. [(fg DarkGray, continuation_prefix), (text_style, t)]) ts)"

section \<open>What is seen of the log\<close>

definition rendered_log_lines :: "log_entry list \<Rightarrow> nat \<Rightarrow> text_line list" where
  "rendered_log_lines logs width = concat (map (\<lambda>e. render_log_lines e width) logs)"

definition rendered_log_line_count :: "log_entry list \<Rightarrow> nat \<Rightarrow> nat" where
  "rendered_log_line_count logs width = sum_list (map (\<lambda>e. length (render_log_lines e width)) logs)"

definition max_log_start :: "nat \<Rightarrow> nat \<Rightarrow> nat" where
  "max_log_start total_rows visible_rows = total_rows - visible_rows"

definition log_view_start :: "nat \<Rightarrow> nat \<Rightarrow> nat option \<Rightarrow> nat" where
  "log_view_start total_rows visible_rows scroll_top =
     (let max_start = max_log_start total_rows visible_rows in
      min (case scroll_top of Some t \<Rightarrow> t | None \<Rightarrow> max_start) max_start)"

definition visible_log_lines :: "log_entry list \<Rightarrow> nat \<Rightarrow> nat \<Rightarrow> nat option \<Rightarrow> text_line list" where
  "visible_log_lines logs width visible_rows scroll_top =
     (let lines = rendered_log_lines logs width;
          start = log_view_start (length lines) visible_rows scroll_top in
      take visible_rows (drop start lines))"

section \<open>Keys\<close>

text \<open>The key codes the dashboards look at, and whether control or any modifier is held.\<close>

datatype key_code = Key_Char char | Key_Esc | Key_Up | Key_Down | Key_PageUp | Key_PageDown | Key_Home | Key_End
  | Key_Enter | Key_Other

record key_event =
  ke_code :: key_code
  ke_control :: bool
  ke_other_modifier :: bool

datatype scroll_command = Scroll_Up | Scroll_Down | Scroll_PageUp | Scroll_PageDown | Scroll_Top | Scroll_Bottom

definition activity_scroll_command :: "key_event \<Rightarrow> scroll_command option" where
  "activity_scroll_command key =
     (case ke_code key of
        Key_Up \<Rightarrow> Some Scroll_Up
      | Key_Down \<Rightarrow> Some Scroll_Down
      | Key_PageUp \<Rightarrow> Some Scroll_PageUp
      | Key_PageDown \<Rightarrow> Some Scroll_PageDown
      | Key_Home \<Rightarrow> Some Scroll_Top
      | Key_End \<Rightarrow> Some Scroll_Bottom
      | _ \<Rightarrow> None)"

record rect =
  rc_width :: nat
  rc_height :: nat

definition activity_visible_rows :: "rect \<Rightarrow> nat" where
  "activity_visible_rows area = rc_height area - 2"

definition activity_content_width :: "rect \<Rightarrow> nat" where
  "activity_content_width area = rc_width area - 2"

section \<open>Wrapping loses nothing and fits\<close>

lemma wrap_chars_split:
  assumes "length cur \<le> n" "1 \<le> n"
  shows "\<exists>l ls. wrap_chars n w cur cs = l # ls \<and> length l \<le> n \<and> (\<forall>x \<in> set ls. length x \<le> max w 1) \<and>
    concat (l # ls) = cur @ cs"
  using assms
proof (induction cs arbitrary: n cur)
  case (Cons c cs)
  show ?case
  proof (cases "n \<le> length cur")
    case True
    obtain l ls where "wrap_chars (max w 1) w [c] cs = l # ls" "length l \<le> max w 1"
      "\<forall>x \<in> set ls. length x \<le> max w 1" "concat (l # ls) = [c] @ cs"
      using Cons.IH [of "[c]" "max w 1"] by auto
    with True Cons.prems show ?thesis by (intro exI [of _ cur] exI [of _ "l # ls"]) simp
  next
    case False
    with Cons.IH [of "cur @ [c]" n] Cons.prems show ?thesis by simp
  qed
qed simp

lemma char_list_concat: "char_list (concat xss) \<longleftrightarrow> (\<forall>xs \<in> set xss. char_list xs)"
  by (auto simp: char_list_def list_all_iff)

lemma concat_map_concat: "concat (map concat xss) = concat (concat xss)"
  by (induction xss) simp_all

text \<open>A logical line: its pieces, the width of each, and what they hold together.\<close>

lemma wrap_line:
  assumes "is_text l" "1 \<le> n"
  shows "\<exists>t ts. (if l = [] then [[]] else map concat (wrap_chars n w [] (chars l))) = t # ts \<and>
    char_count t \<le> n \<and> (\<forall>x \<in> set ts. char_count x \<le> max w 1) \<and> concat (t # ts) = l"
proof -
  obtain x xs where wrap: "wrap_chars n w [] (chars l) = x # xs" "length x \<le> n"
    "\<forall>y \<in> set xs. length y \<le> max w 1" "concat (x # xs) = chars l"
    using wrap_chars_split [of "[]" n w "chars l"] assms(2) by auto
  have "char_list (concat (x # xs))" using wrap(4) char_list_chars [OF assms(1)] by simp
  then have cl: "\<forall>y \<in> set (x # xs). char_list y" by (simp add: char_list_concat)
  have "concat (map concat (x # xs)) = l" using wrap(4) by (simp only: concat_map_concat concat_chars)
  with wrap cl show ?thesis by (auto simp: char_count_concat char_count_def [of "[]"])
qed

lemma wrap_logical_fits:
  assumes "\<forall>l \<in> set ls. is_text l" "1 \<le> n" "ls \<noteq> []"
  shows "\<exists>t ts. wrap_logical n w ls = t # ts \<and> char_count t \<le> n \<and> (\<forall>x \<in> set ts. char_count x \<le> max w 1) \<and>
    concat (t # ts) = concat ls"
  using assms
proof (induction ls arbitrary: n)
  case (Cons l ls)
  obtain t ts where l: "(if l = [] then [[]] else map concat (wrap_chars n w [] (chars l))) = t # ts"
    "char_count t \<le> n" "\<forall>x \<in> set ts. char_count x \<le> max w 1" "concat (t # ts) = l"
    using wrap_line [of l n w] Cons.prems by auto
  show ?case
  proof (cases "ls = []")
    case True
    with l show ?thesis by simp
  next
    case False
    then obtain u us where "wrap_logical (max w 1) w ls = u # us" "char_count u \<le> max w 1"
      "\<forall>x \<in> set us. char_count x \<le> max w 1" "concat (u # us) = concat ls"
      using Cons.IH [of "max w 1"] Cons.prems by auto
    with l show ?thesis
      by (intro exI [of _ t] exI [of _ "ts @ u # us"]) auto
  qed
qed simp

lemma control_codes: "code line_feed = 10" "code carriage_return = 13"
  by (simp_all add: code_def line_feed_def carriage_return_def)

lemma wrap_log_text_fits:
  assumes "well_cut False text"
  shows "\<exists>t ts. wrap_log_text text f w = t # ts \<and> char_count t \<le> max f 1 \<and> (\<forall>x \<in> set ts. char_count x \<le> max w 1) \<and>
    concat (t # ts) = filter (\<lambda>c. c \<noteq> carriage_return \<and> c \<noteq> line_feed) text"
proof -
  let ?s = "filter (\<lambda>c. c \<noteq> carriage_return) text" and ?p = "\<lambda>c. c = line_feed"
  have "well_cut False ?s" using assms by (rule well_cut_filter) (simp add: control_codes)
  then have "well_cut False (hd (split_on ?p ?s)) \<and> (\<forall>x \<in> set (tl (split_on ?p ?s)). well_cut False x)"
    by (rule well_cut_split) (simp add: control_codes)
  then have "\<forall>l \<in> set (split_on ?p ?s). is_text l"
    by (cases "split_on ?p ?s") (auto intro: well_cut_is_text)
  from wrap_logical_fits [OF this, of "max f 1" w] show ?thesis
    by (simp add: wrap_log_text_def concat_split_on)
qed

section \<open>Every line fits its width\<close>

definition line_width :: "text_line \<Rightarrow> nat" where
  "line_width l = sum_list (map (\<lambda>s. char_count (snd s)) l)"

lemma line_width_append [simp]: "line_width (a @ b) = line_width a + line_width b"
  by (simp add: line_width_def)

lemma line_width_Cons [simp]: "line_width (s # b) = char_count (snd s) + line_width b"
  by (simp add: line_width_def)

lemma line_width_Nil [simp]: "line_width [] = 0"
  by (simp add: line_width_def)

lemma kind_label_width: "char_count (kind_label width k) \<le> 9"
  by (cases k) (simp_all add: kind_label_def char_count_ascii code_def)

lemma elapsed_label_width:
  assumes "e < 60000 * 10 ^ 6"
  shows "char_count (elapsed_label width e) \<le> 14"
proof -
  have two: "length (two_digits n) \<le> k" if "n < 10 ^ k" "2 \<le> k" for n k
    using length_dec_str_le [OF that(1)] length_dec_str_le [of n 1] that(2) by (auto simp: two_digits_def)
  have "e div 1000 div 60 < 10 ^ 6" using assms by simp
  moreover have "e mod 1000 div 100 < 10" "e div 1000 mod 60 < 100"
    by (simp_all add: less_mult_imp_div_less order_less_trans [OF mod_less_divisor])
  ultimately have "length (format_elapsed e) \<le> 11"
    using two [of "e div 1000 div 60" 6] two [of "e div 1000 mod 60" 2]
      length_dec_str_le [of "e mod 1000 div 100" 1] length_dec_str_le [of "e div 1000" 2]
    by (auto simp: format_elapsed_def Let_def)
  moreover have "\<forall>c \<in> set (format_elapsed e). code c < 128"
  proof -
    have d: "\<forall>c \<in> set (dec_str n). code c < 128" for n using dec_str_ascii by blast
    show ?thesis by (simp add: format_elapsed_def Let_def two_digits_def ball_Un d) (simp add: code_def)
  qed
  ultimately show ?thesis
    by (auto simp: elapsed_label_def char_count_ascii code_def)
qed

lemma log_prefix_width:
  assumes "le_elapsed entry < 60000 * 10 ^ 6" "0 < width"
  shows "line_width (fst (log_prefix entry width)) = snd (log_prefix entry width)"
    and "snd (log_prefix entry width) < width"
proof -
  note k = kind_label_width [of width "le_kind entry"] and e = elapsed_label_width [OF assms(1), of width]
  show "line_width (fst (log_prefix entry width)) = snd (log_prefix entry width)"
    by (simp add: log_prefix_def Let_def split: option.splits)
  show "snd (log_prefix entry width) < width"
    using k e assms(2) by (simp add: log_prefix_def Let_def split: option.splits)
qed

lemma log_entry_text_cut: "well_cut False (le_text entry) \<Longrightarrow> well_cut False (log_entry_text entry)"
proof -
  assume cut: "well_cut False (le_text entry)"
  have "\<forall>c \<in> set ('' (x'' @ dec_str n @ '')''). code c < 128" for n
    by (auto dest: dec_str_ascii) (simp_all add: code_def)
  then have "well_cut False ('' (x'' @ dec_str n @ '')'')" for n by (rule well_cut_ascii)
  with cut show ?thesis by (simp add: log_entry_text_def well_cut_append del: append.simps)
qed

lemma spaces_count: "char_count (replicate n CHR '' '') = n"
  by (simp add: char_count_ascii code_def)

text \<open>
  Every line the dashboard draws for a log entry fits its width: for any panel width, any
  UTF-8 text, any source and any age below a million minutes, no drawn line is wider than the
  panel, there is at least one line, and the texts of the lines one after the other are the
  entry's text without its line ends, so the prefix never pushes text out and wrapping drops or
  splits no character.
\<close>

theorem activity_lines_fit:
  assumes "utf8_valid (map code (le_text entry))" "le_elapsed entry < 60000 * 10 ^ 6"
  shows "render_log_lines entry width \<noteq> [] \<and>
    (\<forall>l \<in> set (render_log_lines entry width). line_width l \<le> max width 1) \<and>
    concat (map (\<lambda>l. snd (last l)) (render_log_lines entry width)) =
      filter (\<lambda>c. c \<noteq> carriage_return \<and> c \<noteq> line_feed) (log_entry_text entry)"
proof -
  obtain spans pw where prefix: "log_prefix entry (max width 1) = (spans, pw)" by fastforce
  have fits: "line_width spans = pw" "pw < max width 1"
    using log_prefix_width [OF assms(2), of "max width 1"] prefix by auto
  have "well_cut False (log_entry_text entry)" using assms(1) by (intro log_entry_text_cut well_cut_utf8)
  then obtain t ts where wrap:
    "wrap_log_text (log_entry_text entry) (max (max width 1 - pw) 1) (max (max width 1 - pw) 1) = t # ts"
    "char_count t \<le> max (max width 1 - pw) 1" "\<forall>x \<in> set ts. char_count x \<le> max (max width 1 - pw) 1"
    "concat (t # ts) = filter (\<lambda>c. c \<noteq> carriage_return \<and> c \<noteq> line_feed) (log_entry_text entry)"
    using wrap_log_text_fits [of "log_entry_text entry" "max (max width 1 - pw) 1" "max (max width 1 - pw) 1"]
    by auto
  have pad: "min pw (max width 1 - 1) = pw" using fits(2) by simp
  have lines: "render_log_lines entry width =
      (spans @ [(log_kind_style (le_kind entry), t)]) #
      map (\<lambda>t. [(fg DarkGray, replicate pw CHR '' ''), (log_kind_style (le_kind entry), t)]) ts"
    unfolding render_log_lines_def Let_def prefix prod.case pad spaces_count wrap(1) by simp
  have "line_width l \<le> max width 1" if "l \<in> set (render_log_lines entry width)" for l
    using that wrap(2,3) fits by (auto simp: lines spaces_count)
  moreover have "concat (map (\<lambda>l. snd (last l)) (render_log_lines entry width)) =
      filter (\<lambda>c. c \<noteq> carriage_return \<and> c \<noteq> line_feed) (log_entry_text entry)"
    using wrap(4) by (simp add: lines comp_def)
  ultimately show ?thesis by (simp add: lines)
qed

lemma activity_lines_fit_witness:
  "list_all (\<lambda>l. line_width l \<le> 24) (render_log_lines \<lparr>le_elapsed = 61500, le_kind = Kind_Status, le_source = None,
     le_text = ''dial failed: refused'', le_repeat_count = 2\<rparr> 24)"
  unfolding list_all_iff
  using activity_lines_fit [of "\<lparr>le_elapsed = 61500, le_kind = Kind_Status, le_source = None,
     le_text = ''dial failed: refused'', le_repeat_count = 2\<rparr>" 24]
  by (simp add: code_def utf8_cont_def)

section \<open>The view of the log\<close>

lemma render_log_lines_nonempty: "render_log_lines entry width \<noteq> []"
  by (simp add: render_log_lines_def Let_def split: prod.splits list.splits)

lemma log_view_start_le: "log_view_start total_rows visible_rows t \<le> max_log_start total_rows visible_rows"
  by (simp add: log_view_start_def Let_def)

lemma rendered_log_line_count_length: "rendered_log_line_count logs width = length (rendered_log_lines logs width)"
  by (simp add: rendered_log_line_count_def rendered_log_lines_def length_concat comp_def)

text \<open>Without a scroll position the last rows are seen; with one, what is appended changes nothing.\<close>

lemma view_follows_the_end:
  "visible_log_lines logs width rows None = drop (length (rendered_log_lines logs width) - rows) (rendered_log_lines logs width)"
  by (simp add: visible_log_lines_def log_view_start_def max_log_start_def Let_def)

lemma view_not_yanked:
  assumes "t + rows \<le> rendered_log_line_count logs width"
  shows "visible_log_lines (logs @ new) width rows (Some t) = visible_log_lines logs width rows (Some t)"
proof -
  have start: "min t (length (rendered_log_lines logs width) - rows) = t"
    "min t (length (rendered_log_lines logs width) + length (rendered_log_lines new width) - rows) = t"
    using assms by (simp_all add: rendered_log_line_count_length)
  have "rendered_log_lines (logs @ new) width = rendered_log_lines logs width @ rendered_log_lines new width"
    by (simp add: rendered_log_lines_def)
  with start assms show ?thesis
    by (simp add: visible_log_lines_def log_view_start_def max_log_start_def Let_def rendered_log_line_count_length)
qed

end
