(* ===== verification/Tui_Dashboard.thy ===== *)
theory Tui_Dashboard
  imports Tui_Logs Identity
begin

text \<open>
  The state of the terminal dashboard (\<open>peerline-tui/src/dashboard.rs\<close>) and the folded view of
  \<open>peerline-tui/src/lib.rs\<close>: what every event changes, the log that joins repeated entries, the
  scroll position, the keys, and the loop that takes events and keys until it leaves. Times are
  milliseconds; \<open>now\<close> is the time since the dashboard started. Drawing is the texts handed to the
  widgets; the widgets themselves and the terminal are not here.
\<close>

section \<open>State\<close>

definition max_logs :: nat where
  "max_logs = 64"

definition max_transfers :: nat where
  "max_transfers = 32"

definition log_coalesce_lookback :: nat where
  "log_coalesce_lookback = 24"

record recv_view =
  rv_name :: human_name
  rv_code :: human_code
  rv_bind :: string
  rv_route_status :: string
  rv_stage :: transfer_stage
  rv_progress :: "(u64 \<times> u64) option"

record send_view =
  sv_target_label :: string
  sv_target :: string
  sv_code :: human_code
  sv_route_status :: string
  sv_stage :: transfer_stage
  sv_progress :: "(u64 \<times> u64) option"

datatype dashboard_kind =
    Dash_Recv string string string
  | Dash_Send string string string

record transfer_row =
  tr_id :: transfer_id
  tr_peer :: string
  tr_files :: nat
  tr_bytes :: u64
  tr_progress :: "(u64 \<times> u64) option"
  tr_stage :: transfer_stage
  tr_status :: string
  tr_updated_at :: nat

record dashboard =
  da_kind :: dashboard_kind
  da_stage :: transfer_stage
  da_status :: string
  da_progress :: "(u64 \<times> u64) option"
  da_active_transfer :: "transfer_id option"
  da_transfers :: "transfer_row list"
  da_logs :: "log_entry list"
  da_log_scroll_top :: "nat option"
  da_retry_enabled :: bool

definition new_recv :: "recv_view \<Rightarrow> dashboard" where
  "new_recv view = \<lparr>da_kind = Dash_Recv (name_str (rv_name view)) (code_str (rv_code view)) (rv_bind view),
     da_stage = rv_stage view, da_status = rv_route_status view, da_progress = rv_progress view,
     da_active_transfer = None, da_transfers = [], da_logs = [], da_log_scroll_top = None, da_retry_enabled = False\<rparr>"

definition new_send :: "send_view \<Rightarrow> bool \<Rightarrow> dashboard" where
  "new_send view retry_enabled =
     \<lparr>da_kind = Dash_Send (sv_target_label view) (sv_target view) (code_str (sv_code view)),
     da_stage = sv_stage view, da_status = sv_route_status view, da_progress = sv_progress view,
     da_active_transfer = None, da_transfers = [], da_logs = [], da_log_scroll_top = None,
     da_retry_enabled = retry_enabled\<rparr>"

section \<open>The log\<close>

definition same_log :: "log_kind \<Rightarrow> string option \<Rightarrow> string \<Rightarrow> log_entry \<Rightarrow> bool" where
  "same_log kind source text e \<longleftrightarrow> le_kind e = kind \<and> le_source e = source \<and> le_text e = text"

text \<open>The latest of the last entries, counted from the end, that says the same.\<close>

definition repeated_log_index :: "log_entry list \<Rightarrow> log_kind \<Rightarrow> string option \<Rightarrow> string \<Rightarrow> nat option" where
  "repeated_log_index logs kind source text =
     (let recent = take log_coalesce_lookback (rev logs); i = length (takeWhile (\<lambda>e. \<not> same_log kind source text e) recent) in
      if i < length recent then Some (length logs - 1 - i) else None)"

definition push_entry :: "nat \<Rightarrow> log_kind \<Rightarrow> string \<Rightarrow> string option \<Rightarrow> log_entry list \<Rightarrow> log_entry list" where
  "push_entry now kind text source logs =
     (case repeated_log_index logs kind source text of
        Some i \<Rightarrow>
          let entry = logs ! i in
          take i logs @ drop (Suc i) logs @
            [entry\<lparr>le_elapsed := now, le_repeat_count := min (le_repeat_count entry + 1) (2 ^ 64 - 1)\<rparr>]
      | None \<Rightarrow>
          let logs = logs @ [\<lparr>le_elapsed = now, le_kind = kind, le_source = source, le_text = text, le_repeat_count = 1\<rparr>] in
          drop (length logs - max_logs) logs)"

definition push_log :: "nat \<Rightarrow> log_kind \<Rightarrow> string \<Rightarrow> string option \<Rightarrow> dashboard \<Rightarrow> dashboard" where
  "push_log now kind text source d = d\<lparr>da_logs := push_entry now kind text source (da_logs d)\<rparr>"

section \<open>Events\<close>

text \<open>\<open>transfer\<close> is the first row of the identifier; \<open>transfer_mut\<close> changes that row.\<close>

definition transfer :: "dashboard \<Rightarrow> transfer_id \<Rightarrow> transfer_row option" where
  "transfer d i = find (\<lambda>r. tr_id r = i) (da_transfers d)"

fun update_first :: "('a \<Rightarrow> bool) \<Rightarrow> ('a \<Rightarrow> 'a) \<Rightarrow> 'a list \<Rightarrow> 'a list" where
  "update_first p f [] = []"
| "update_first p f (x # xs) = (if p x then f x # xs else x # update_first p f xs)"

definition transfer_mut :: "transfer_id \<Rightarrow> (transfer_row \<Rightarrow> transfer_row) \<Rightarrow> dashboard \<Rightarrow> dashboard" where
  "transfer_mut i f d = d\<lparr>da_transfers := update_first (\<lambda>r. tr_id r = i) f (da_transfers d)\<rparr>"

fun ends_transfer :: "transfer_stage \<Rightarrow> bool" where
  "ends_transfer Complete = True"
| "ends_transfer (Failed e) = True"
| "ends_transfer s = False"

definition should_exit_after_stage :: "dashboard \<Rightarrow> transfer_stage \<Rightarrow> bool" where
  "should_exit_after_stage d stage = (case da_kind d of Dash_Recv _ _ _ \<Rightarrow> False | Dash_Send _ _ _ \<Rightarrow> stage = Complete)"

definition stage_changed :: "nat \<Rightarrow> transfer_stage \<Rightarrow> dashboard \<Rightarrow> dashboard \<times> bool" where
  "stage_changed now stage d =
     (let should_exit = should_exit_after_stage d stage;
          d = d\<lparr>da_stage := stage, da_status := stage_label stage\<rparr>;
          d = (case da_active_transfer d of
                 Some i \<Rightarrow>
                   let peer = map_option tr_peer (transfer d i);
                       d = transfer_mut i (\<lambda>row. row\<lparr>tr_stage := stage, tr_status := stage_label stage,
                             tr_updated_at := now, tr_progress := da_progress d\<rparr>) d in
                   push_log now (stage_kind stage) (stage_label stage) peer d
               | None \<Rightarrow> push_log now (stage_kind stage) (stage_label stage) None d) in
      if ends_transfer stage then (d\<lparr>da_active_transfer := None\<rparr>, should_exit) else (d, False))"

definition transfer_started :: "nat \<Rightarrow> transfer_id \<Rightarrow> string \<Rightarrow> nat \<Rightarrow> u64 \<Rightarrow> u64 \<Rightarrow> dashboard \<Rightarrow> dashboard" where
  "transfer_started now i peer files bytes resume_offset d =
     (let row = \<lparr>tr_id = i, tr_peer = peer, tr_files = files, tr_bytes = bytes, tr_progress = Some (resume_offset, bytes),
            tr_stage = da_stage d, tr_status = stage_label (da_stage d), tr_updated_at = now\<rparr>;
          rows = da_transfers d @ [row];
          message = (if 0 < resume_offset
            then ''resuming '' @ dec_str files @ '' file(s) from '' @ peer @ '' at '' @ format_bytes resume_offset @
              '' of '' @ format_bytes bytes
            else ''started '' @ dec_str files @ '' file(s) from '' @ peer @ '' ('' @ format_bytes bytes @ '')'') in
      push_log now Kind_Info message (Some peer)
        (d\<lparr>da_active_transfer := Some i, da_status := dec_str files @ '' file(s) from '' @ peer,
           da_progress := Some (resume_offset, bytes),
           da_transfers := (if max_transfers < length rows then tl rows else rows)\<rparr>))"

definition progressed :: "nat \<Rightarrow> transfer_id \<Rightarrow> u64 \<Rightarrow> u64 \<Rightarrow> dashboard \<Rightarrow> dashboard" where
  "progressed now i bytes_done bytes_total d =
     (transfer_mut i (\<lambda>row. row\<lparr>tr_progress := Some (bytes_done, bytes_total),
          tr_status := format_progress bytes_done bytes_total, tr_updated_at := now\<rparr>) d)
        \<lparr>da_status := format_progress bytes_done bytes_total, da_progress := Some (bytes_done, bytes_total)\<rparr>"

definition show_status :: "nat \<Rightarrow> string \<Rightarrow> dashboard \<Rightarrow> dashboard" where
  "show_status now message d =
     (case da_active_transfer d of
        Some i \<Rightarrow> (transfer_mut i (\<lambda>row. row\<lparr>tr_status := message, tr_updated_at := now\<rparr>) d)\<lparr>da_status := message\<rparr>
      | None \<Rightarrow> d\<lparr>da_status := message\<rparr>)"

definition told :: "nat \<Rightarrow> string \<Rightarrow> dashboard \<Rightarrow> dashboard" where
  "told now message d =
     (let peer = Option.bind (da_active_transfer d) (\<lambda>i. map_option tr_peer (transfer d i)) in
      show_status now message (push_log now Kind_Info message peer d))"

definition logged :: "nat \<Rightarrow> log_level \<Rightarrow> string \<Rightarrow> string \<Rightarrow> dashboard \<Rightarrow> dashboard" where
  "logged now level target message d =
     (let d = push_log now (log_level_kind level) message (Some target) d in
      if level = LogError \<or> level = LogWarn then show_status now message d else d)"

fun apply_event :: "nat \<Rightarrow> peerline_event \<Rightarrow> dashboard \<Rightarrow> dashboard \<times> bool" where
  "apply_event now Shutdown d = (d, True)"
| "apply_event now (StageChanged stage) d = stage_changed now stage d"
| "apply_event now (TransferStarted i peer files bytes resume_offset) d =
     (transfer_started now i peer files bytes resume_offset d, False)"
| "apply_event now (Progress i bytes_done bytes_total) d = (progressed now i bytes_done bytes_total d, False)"
| "apply_event now (Message message) d = (told now message d, False)"
| "apply_event now (Log level target message) d = (logged now level target message d, False)"

section \<open>What the keys do\<close>

definition retry_available :: "dashboard \<Rightarrow> bool" where
  "retry_available d \<longleftrightarrow> da_retry_enabled d \<and> (case da_kind d of Dash_Send _ _ _ \<Rightarrow> True | Dash_Recv _ _ _ \<Rightarrow> False) \<and>
     (case da_stage d of Failed _ \<Rightarrow> True | _ \<Rightarrow> False)"

definition is_quit_key :: "key_event \<Rightarrow> bool" where
  "is_quit_key key \<longleftrightarrow> ke_code key = Key_Char CHR ''q'' \<or> ke_code key = Key_Esc \<or>
     ke_code key = Key_Char CHR ''c'' \<and> ke_control key"

definition is_retry_key :: "key_event \<Rightarrow> bool" where
  "is_retry_key key \<longleftrightarrow> (ke_code key = Key_Char CHR ''r'' \<or> ke_code key = Key_Char CHR ''R'') \<and>
     \<not> ke_control key \<and> \<not> ke_other_modifier key"

definition scroll_to :: "scroll_command \<Rightarrow> nat \<Rightarrow> nat \<Rightarrow> nat \<Rightarrow> nat option" where
  "scroll_to command current page max_start =
     (case command of
        Scroll_Up \<Rightarrow> Some (current - 1)
      | Scroll_Down \<Rightarrow> let n = min (current + 1) max_start in if n < max_start then Some n else None
      | Scroll_PageUp \<Rightarrow> Some (current - page)
      | Scroll_PageDown \<Rightarrow> let n = min (current + page) max_start in if n < max_start then Some n else None
      | Scroll_Top \<Rightarrow> Some 0
      | Scroll_Bottom \<Rightarrow> None)"

definition handle_activity_scroll_key :: "key_event \<Rightarrow> rect \<Rightarrow> dashboard \<Rightarrow> dashboard \<times> bool" where
  "handle_activity_scroll_key key area d =
     (case activity_scroll_command key of
        None \<Rightarrow> (d, False)
      | Some command \<Rightarrow>
          let visible_rows = activity_visible_rows area;
              total_rows = rendered_log_line_count (da_logs d) (activity_content_width area);
              max_start = max_log_start total_rows visible_rows in
          if max_start = 0 then (d\<lparr>da_log_scroll_top := None\<rparr>, True)
          else
            let current = log_view_start total_rows visible_rows (da_log_scroll_top d);
                page = max (visible_rows - 1) 1 in
            (d\<lparr>da_log_scroll_top := scroll_to command current page max_start\<rparr>, True))"

definition visible_activity_lines :: "dashboard \<Rightarrow> rect \<Rightarrow> text_line list" where
  "visible_activity_lines d area =
     visible_log_lines (da_logs d) (activity_content_width area) (activity_visible_rows area) (da_log_scroll_top d)"

section \<open>The loop\<close>

datatype terminal_event = Term_Key key_event | Term_Resize | Term_Other

text \<open>
  What the loop waits for: an event, the end of the events (\<open>In_Event None\<close>), or a tick with what the
  terminal has read since, with the time and the log panel of the current layout. An error of the
  terminal ends the loop.
\<close>

datatype dash_input = In_Event nat "peerline_event option" | In_Tick nat rect "terminal_event list" | In_Io_Error

datatype signal = Signal_Quit | Signal_Retry

datatype run_end = Running | Left | Io_Failed

definition request_retry :: "nat \<Rightarrow> dashboard \<Rightarrow> dashboard" where
  "request_retry now d = (push_log now Kind_Status ''retry requested'' None d)\<lparr>da_status := ''retry requested''\<rparr>"

text \<open>\<open>quit\<close> and \<open>retry\<close> say whether the dashboard was given these channels.\<close>

fun read_terminal :: "bool \<Rightarrow> bool \<Rightarrow> nat \<Rightarrow> rect \<Rightarrow> terminal_event list \<Rightarrow> dashboard \<Rightarrow> dashboard \<times> signal list \<times> run_end" where
  "read_terminal quit retry now area [] d = (d, [], Running)"
| "read_terminal quit retry now area (Term_Key key # es) d =
     (if is_quit_key key then (d, if quit then [Signal_Quit] else [], Left)
      else if is_retry_key key \<and> retry_available d then
        let (d', out, r) = read_terminal quit retry now area es (request_retry now d) in
        (d', (if retry then [Signal_Retry] else []) @ out, r)
      else read_terminal quit retry now area es (fst (handle_activity_scroll_key key area d)))"
| "read_terminal quit retry now area (Term_Resize # es) d = read_terminal quit retry now area es d"
| "read_terminal quit retry now area (Term_Other # es) d = read_terminal quit retry now area es d"

fun run_dashboard :: "bool \<Rightarrow> bool \<Rightarrow> dash_input list \<Rightarrow> dashboard \<Rightarrow> dashboard \<times> signal list \<times> run_end" where
  "run_dashboard quit retry [] d = (d, [], Running)"
| "run_dashboard quit retry (In_Io_Error # ins) d = (d, [], Io_Failed)"
| "run_dashboard quit retry (In_Event now None # ins) d = (d, [], Left)"
| "run_dashboard quit retry (In_Event now (Some e) # ins) d =
     (case apply_event now e d of (d', should_exit) \<Rightarrow>
        if should_exit then (d', [], Left) else run_dashboard quit retry ins d')"
| "run_dashboard quit retry (In_Tick now area es # ins) d =
     (case read_terminal quit retry now area es d of (d', out, r) \<Rightarrow>
        if r = Running then (case run_dashboard quit retry ins d' of (d'', out', r') \<Rightarrow> (d'', out @ out', r'))
        else (d', out, r))"

text \<open>A receiver's dashboard and a sender's; the flags say which channels they were given.\<close>

definition run_recv_dashboard :: "recv_view \<Rightarrow> bool \<Rightarrow> dash_input list \<Rightarrow> dashboard \<times> signal list \<times> run_end" where
  "run_recv_dashboard view quit ins = run_dashboard quit False ins (new_recv view)"

definition run_send_dashboard :: "send_view \<Rightarrow> bool \<Rightarrow> bool \<Rightarrow> dash_input list \<Rightarrow> dashboard \<times> signal list \<times> run_end" where
  "run_send_dashboard view quit retry ins = run_dashboard quit retry ins (new_send view retry)"

section \<open>The log stays short and joins repetitions\<close>

definition log_key :: "log_entry \<Rightarrow> log_kind \<times> string option \<times> string" where
  "log_key e = (le_kind e, le_source e, le_text e)"

definition recent_logs :: "log_entry list \<Rightarrow> log_entry list" where
  "recent_logs logs = drop (length logs - log_coalesce_lookback) logs"

definition logs_ok :: "log_entry list \<Rightarrow> bool" where
  "logs_ok logs \<longleftrightarrow> length logs \<le> max_logs \<and> distinct (map log_key (recent_logs logs)) \<and>
     list_all (\<lambda>e. 1 \<le> le_repeat_count e \<and> le_repeat_count e < 2 ^ 64) logs"

lemma same_log_key: "same_log kind source text e \<longleftrightarrow> log_key e = (kind, source, text)"
  by (auto simp: same_log_def log_key_def)

text \<open>Which entry is repeated: the last that says the same, when it is recent.\<close>

lemma repeated_log_index_cases:
  "(repeated_log_index logs kind source text = None \<and> (\<forall>e \<in> set (recent_logs logs). \<not> same_log kind source text e)) \<or>
   (\<exists>a e b. logs = a @ e # b \<and> length b < log_coalesce_lookback \<and> same_log kind source text e \<and>
     (\<forall>x \<in> set b. \<not> same_log kind source text x) \<and> repeated_log_index logs kind source text = Some (length a))"
proof -
  let ?p = "\<lambda>e. \<not> same_log kind source text e" and ?recent = "take log_coalesce_lookback (rev logs)"
  let ?i = "length (takeWhile ?p ?recent)"
  have set: "set ?recent = set (recent_logs logs)" by (simp add: recent_logs_def take_rev)
  show ?thesis
  proof (cases "?i < length ?recent")
    case False
    then have "takeWhile ?p ?recent = ?recent" using length_takeWhile_le [of ?p ?recent] takeWhile_eq_take [of ?p ?recent]
      by (metis le_neq_implies_less take_all_iff linorder_not_le)
    then have "\<forall>e \<in> set ?recent. ?p e" by (simp add: takeWhile_eq_all_conv)
    moreover have "repeated_log_index logs kind source text = None"
      unfolding repeated_log_index_def Let_def using False by (rule if_not_P)
    ultimately show ?thesis unfolding set by blast
  next
    case True
    let ?b = "rev (takeWhile ?p ?recent)"
    obtain e c where dw: "dropWhile ?p ?recent = e # c" "same_log kind source text e"
      using True by (metis dropWhile_eq_Nil_conv hd_dropWhile list.exhaust_sel takeWhile_eq_all_conv nless_le)
    have rl: "rev logs = takeWhile ?p ?recent @ e # c @ drop log_coalesce_lookback (rev logs)"
      using takeWhile_dropWhile_id [of ?p ?recent] append_take_drop_id [of log_coalesce_lookback "rev logs"] dw(1)
      by (metis append.assoc append_Cons)
    from arg_cong [OF this, of rev] have logs: "logs = rev (c @ drop log_coalesce_lookback (rev logs)) @ e # ?b"
      by simp
    let ?a = "rev (c @ drop log_coalesce_lookback (rev logs))"
    have "length logs = length (?a @ e # ?b)" by (rule arg_cong [OF logs])
    then have "length logs = length ?a + Suc (length ?b)" unfolding length_append list.size(4) by linarith
    then have idx: "length logs - 1 - ?i = length ?a" unfolding length_rev [of "takeWhile ?p ?recent"] by linarith
    have found: "repeated_log_index logs kind source text = Some (length ?a)"
      unfolding repeated_log_index_def Let_def if_P [OF True] idx by (rule refl)
    have unlike: "\<forall>x \<in> set ?b. ?p x" by (auto dest: set_takeWhileD)
    have near: "length ?b < log_coalesce_lookback" using True by simp
    show ?thesis
      by (intro disjI2 exI [of _ ?a] exI [of _ e] exI [of _ ?b] conjI logs dw(2) found unlike near)
  qed
qed

lemma recent_logs_rev: "recent_logs logs = rev (take log_coalesce_lookback (rev logs))"
  by (simp add: recent_logs_def take_rev)

lemma distinct_recent: "distinct (map log_key (recent_logs logs)) \<longleftrightarrow> distinct (map log_key (take log_coalesce_lookback (rev logs)))"
  by (simp add: recent_logs_rev rev_map [symmetric])

lemma push_entry_repeated:
  assumes "repeated_log_index (a @ e # b) kind source text = Some (length a)"
  shows "push_entry now kind text source (a @ e # b) =
    a @ b @ [e\<lparr>le_elapsed := now, le_repeat_count := min (le_repeat_count e + 1) (2 ^ 64 - 1)\<rparr>]"
  using assms by (simp add: push_entry_def Let_def nth_append)

lemma push_entry_fresh:
  assumes "repeated_log_index logs kind source text = None"
  shows "push_entry now kind text source logs = drop (length logs + 1 - max_logs)
    (logs @ [\<lparr>le_elapsed = now, le_kind = kind, le_source = source, le_text = text, le_repeat_count = 1\<rparr>])"
  using assms by (simp add: push_entry_def Let_def)

lemma take_last_pushed:
  assumes "k + n \<le> length xs + 1 \<or> k = 0" "0 < n"
  shows "take n (rev (drop k (xs @ [x]))) = x # take (n - 1) (rev xs)"
proof -
  have "take n (rev (drop k (xs @ [x]))) = take n (take (length xs + 1 - k) (x # rev xs))"
    by (simp add: rev_drop del: drop_append take_Cons)
  also have "\<dots> = take n (x # rev xs)" using assms(1) by (auto simp: min_def)
  also have "\<dots> = x # take (n - 1) (rev xs)" using assms(2) by (cases n) simp_all
  finally show ?thesis .
qed

lemma push_entry_ok:
  assumes "logs_ok logs"
  shows "logs_ok (push_entry now kind msg source logs)"
proof -
  let ?n = "\<lparr>le_elapsed = now, le_kind = kind, le_source = source, le_text = msg, le_repeat_count = 1\<rparr>"
  from repeated_log_index_cases [of logs kind source msg] show ?thesis
  proof (elim disjE exE conjE)
    assume none: "repeated_log_index logs kind source msg = None"
      and fresh: "\<forall>e \<in> set (recent_logs logs). \<not> same_log kind source msg e"
    let ?k = "length logs + 1 - max_logs"
    have "length (push_entry now kind msg source logs) \<le> max_logs" by (simp add: push_entry_fresh [OF none])
    moreover have "list_all (\<lambda>e. 1 \<le> le_repeat_count e \<and> le_repeat_count e < 2 ^ 64) (push_entry now kind msg source logs)"
      using assms by (auto simp: push_entry_fresh [OF none] logs_ok_def list_all_iff dest!: in_set_dropD)
    moreover have "take log_coalesce_lookback (rev (drop ?k (logs @ [?n]))) = ?n # take (log_coalesce_lookback - 1) (rev logs)"
      by (rule take_last_pushed) (auto simp: log_coalesce_lookback_def max_logs_def)
    moreover have "set (take (log_coalesce_lookback - 1) (rev logs)) \<subseteq> set (recent_logs logs)"
      unfolding recent_logs_rev set_rev by (rule set_take_subset_set_take) simp
    moreover have "distinct (map log_key (take (log_coalesce_lookback - 1) (rev logs)))"
      using assms distinct_take [of "map log_key (take log_coalesce_lookback (rev logs))" "log_coalesce_lookback - 1"]
      by (simp add: logs_ok_def distinct_recent take_map)
    ultimately show ?thesis
      using fresh by (auto simp: logs_ok_def distinct_recent push_entry_fresh [OF none] same_log_key log_key_def)
  next
    fix a e b
    assume logs: "logs = a @ e # b" and b: "length b < log_coalesce_lookback" and same: "same_log kind source msg e"
      and rep: "repeated_log_index logs kind source msg = Some (length a)"
    let ?e = "e\<lparr>le_elapsed := now, le_repeat_count := min (le_repeat_count e + 1) (2 ^ 64 - 1)\<rparr>"
    have push: "push_entry now kind msg source logs = a @ b @ [?e]" using push_entry_repeated rep unfolding logs by blast
    obtain m where m: "log_coalesce_lookback = length b + Suc m" using b less_iff_Suc_add by auto
    have "distinct (map log_key (rev b @ e # take m (rev a)))"
      using assms by (simp add: logs_ok_def distinct_recent logs m)
    then have "distinct (map log_key (?e # rev b @ take m (rev a)))" by (auto simp: log_key_def)
    then have "distinct (map log_key (recent_logs (a @ b @ [?e])))" by (simp add: distinct_recent m)
    then show ?thesis using assms unfolding push by (auto simp: logs_ok_def logs)
  qed
qed

definition dash_ok :: "dashboard \<Rightarrow> bool" where
  "dash_ok d \<longleftrightarrow> logs_ok (da_logs d) \<and> length (da_transfers d) \<le> max_transfers"

lemma length_update_first [simp]: "length (update_first p f xs) = length xs"
  by (induction xs) simp_all

lemma push_log_sel [simp]:
  "da_logs (push_log now kind msg source d) = push_entry now kind msg source (da_logs d)"
  "da_transfers (push_log now kind msg source d) = da_transfers d" "da_kind (push_log now kind msg source d) = da_kind d"
  "da_stage (push_log now kind msg source d) = da_stage d" "da_progress (push_log now kind msg source d) = da_progress d"
  "da_active_transfer (push_log now kind msg source d) = da_active_transfer d"
  "da_retry_enabled (push_log now kind msg source d) = da_retry_enabled d"
  "da_log_scroll_top (push_log now kind msg source d) = da_log_scroll_top d"
  by (simp_all add: push_log_def)

lemma transfer_mut_sel [simp]:
  "da_logs (transfer_mut i f d) = da_logs d"
  "da_transfers (transfer_mut i f d) = update_first (\<lambda>r. tr_id r = i) f (da_transfers d)"
  "da_kind (transfer_mut i f d) = da_kind d" "da_stage (transfer_mut i f d) = da_stage d"
  "da_progress (transfer_mut i f d) = da_progress d" "da_active_transfer (transfer_mut i f d) = da_active_transfer d"
  "da_retry_enabled (transfer_mut i f d) = da_retry_enabled d"
  "da_log_scroll_top (transfer_mut i f d) = da_log_scroll_top d"
  by (simp_all add: transfer_mut_def)

lemma show_status_sel [simp]:
  "da_logs (show_status now msg d) = da_logs d" "da_kind (show_status now msg d) = da_kind d"
  "da_stage (show_status now msg d) = da_stage d" "da_progress (show_status now msg d) = da_progress d"
  "da_retry_enabled (show_status now msg d) = da_retry_enabled d"
  "da_active_transfer (show_status now msg d) = da_active_transfer d"
  "length (da_transfers (show_status now msg d)) = length (da_transfers d)"
  by (simp_all add: show_status_def split: option.splits)

lemmas event_defs = stage_changed_def transfer_started_def progressed_def told_def logged_def Let_def

lemma apply_event_kind [simp]:
  "da_kind (fst (apply_event now e d)) = da_kind d" "da_retry_enabled (fst (apply_event now e d)) = da_retry_enabled d"
  by (cases e; simp add: event_defs split: option.splits)+

lemma apply_event_ok:
  assumes "dash_ok d"
  shows "dash_ok (fst (apply_event now e d))"
proof -
  have logs: "logs_ok (push_entry now kind msg source (da_logs d))" for kind msg source
    using assms by (simp add: dash_ok_def push_entry_ok)
  show ?thesis
    using assms logs by (cases e) (auto simp: dash_ok_def event_defs max_transfers_def split: option.splits)
qed

lemma request_retry_ok: "dash_ok d \<Longrightarrow> dash_ok (request_retry now d)"
  by (simp add: dash_ok_def request_retry_def push_entry_ok)

lemma scroll_key_sel [simp]:
  "da_logs (fst (handle_activity_scroll_key key area d)) = da_logs d"
  "da_transfers (fst (handle_activity_scroll_key key area d)) = da_transfers d"
  "da_kind (fst (handle_activity_scroll_key key area d)) = da_kind d"
  "da_stage (fst (handle_activity_scroll_key key area d)) = da_stage d"
  "da_progress (fst (handle_activity_scroll_key key area d)) = da_progress d"
  "da_retry_enabled (fst (handle_activity_scroll_key key area d)) = da_retry_enabled d"
  by (simp_all add: handle_activity_scroll_key_def Let_def split: option.splits)

lemma read_terminal_ok:
  "dash_ok d \<Longrightarrow> dash_ok (fst (read_terminal quit retry now area es d))"
proof (induction quit retry now area es d rule: read_terminal.induct)
  case (2 quit retry now area key es d)
  have "dash_ok (fst (handle_activity_scroll_key key area d))" using 2(3) by (simp add: dash_ok_def)
  with 2 request_retry_ok show ?case by (auto split: prod.splits)
qed simp_all

lemma run_dashboard_ok:
  "dash_ok d \<Longrightarrow> dash_ok (fst (run_dashboard quit retry ins d))"
proof (induction quit retry ins d rule: run_dashboard.induct)
  case (4 quit retry now e ins d)
  with apply_event_ok [of d now e] show ?case by (auto split: prod.splits)
next
  case (5 quit retry now area es ins d)
  with read_terminal_ok [of d quit retry now area es] show ?case by (auto split: prod.splits)
qed simp_all

text \<open>
  C22. Whatever events and keys the dashboard gets, in any order and at any length, its memory stays
  bounded and its recent log has no repetition: it never holds more than 64 log entries and 32
  transfer rows, the last 24 entries all say something different (kind, source or text), and every
  entry counts how often it was repeated, from one up to the largest machine word.
\<close>

theorem dashboard_memory_bounded:
  "dash_ok (fst (run_recv_dashboard rview quit ins)) \<and> dash_ok (fst (run_send_dashboard sview quit retry ins))"
proof -
  have "dash_ok (new_recv rview)" "dash_ok (new_send sview retry)"
    by (simp_all add: dash_ok_def logs_ok_def recent_logs_def new_recv_def new_send_def)
  then show ?thesis by (simp add: run_recv_dashboard_def run_send_dashboard_def run_dashboard_ok)
qed

section \<open>How the dashboard is left\<close>

lemma retry_needs_failure:
  assumes "Signal_Retry \<in> set (fst (snd (read_terminal quit retry now area es d)))"
  shows "retry_available d"
  using assms
proof (induction quit retry now area es d rule: read_terminal.induct)
  case (2 quit retry now area key es d)
  then show ?case
    by (auto simp: retry_available_def split: if_splits prod.splits)
qed simp_all

lemma request_retry_sel [simp]:
  "da_kind (request_retry now d) = da_kind d" "da_stage (request_retry now d) = da_stage d"
  "da_progress (request_retry now d) = da_progress d" "da_retry_enabled (request_retry now d) = da_retry_enabled d"
  by (simp_all add: request_retry_def)

lemma read_terminal_sel [simp]:
  "da_kind (fst (read_terminal quit retry now area es d)) = da_kind d"
  "da_stage (fst (read_terminal quit retry now area es d)) = da_stage d"
  "da_retry_enabled (fst (read_terminal quit retry now area es d)) = da_retry_enabled d"
  by (induction quit retry now area es d rule: read_terminal.induct)
    (simp_all add: split_beta Let_def)

lemma read_terminal_left:
  assumes "read_terminal quit retry now area es d = (d', out, r)" "r \<noteq> Running"
  shows "r = Left \<and> (\<exists>key. Term_Key key \<in> set es \<and> is_quit_key key)"
  using assms
proof (induction quit retry now area es d arbitrary: d' out r rule: read_terminal.induct)
  case (2 quit retry now area key es d)
  then show ?case by (fastforce split: if_splits prod.splits)
qed auto

lemma read_terminal_quit:
  assumes "read_terminal quit retry now area es d = (d', out, r)"
  shows "\<exists>k. out = replicate k Signal_Retry @ (if quit \<and> r = Left then [Signal_Quit] else [])"
  using assms
proof (induction quit retry now area es d arbitrary: d' out r rule: read_terminal.induct)
  case (2 quit retry now area key es d)
  show ?case
  proof (cases "is_quit_key key")
    case True
    with 2(3) show ?thesis by (intro exI [of _ 0]) auto
  next
    case nq: False
    show ?thesis
    proof (cases "is_retry_key key \<and> retry_available d")
      case True
      obtain d1 o1 r1 where run: "read_terminal quit retry now area es (request_retry now d) = (d1, o1, r1)"
        using prod_cases3 by blast
      from 2(1) [OF nq True run] obtain k where
        "o1 = replicate k Signal_Retry @ (if quit \<and> r1 = Left then [Signal_Quit] else [])" by blast
      with nq True run 2(3) show ?thesis
        by (intro exI [of _ "if retry then Suc k else k"]) auto
    next
      case False
      with nq 2(2,3) show ?thesis by auto
    qed
  qed
qed auto

definition is_send :: "dashboard \<Rightarrow> bool" where
  "is_send d = (case da_kind d of Dash_Send _ _ _ \<Rightarrow> True | Dash_Recv _ _ _ \<Rightarrow> False)"

definition is_failed :: "transfer_stage \<Rightarrow> bool" where
  "is_failed s = (case s of Failed _ \<Rightarrow> True | _ \<Rightarrow> False)"

definition quit_pressed :: "dash_input list \<Rightarrow> bool" where
  "quit_pressed ins = list_ex (\<lambda>i. case i of
     In_Tick _ _ es \<Rightarrow> list_ex (\<lambda>t. case t of Term_Key key \<Rightarrow> is_quit_key key | _ \<Rightarrow> False) es | _ \<Rightarrow> False) ins"

definition saw_event :: "(peerline_event option \<Rightarrow> bool) \<Rightarrow> dash_input list \<Rightarrow> bool" where
  "saw_event p ins = list_ex (\<lambda>i. case i of In_Event _ e \<Rightarrow> p e | _ \<Rightarrow> False) ins"

text \<open>The event that leaves a dashboard: shutdown, the end of the events, or for a sender completion.\<close>

definition leaves :: "bool \<Rightarrow> peerline_event option \<Rightarrow> bool" where
  "leaves sender e \<longleftrightarrow> e = None \<or> e = Some Shutdown \<or> sender \<and> e = Some (StageChanged Complete)"

definition fails :: "peerline_event option \<Rightarrow> bool" where
  "fails e = (case e of Some (StageChanged s) \<Rightarrow> is_failed s | _ \<Rightarrow> False)"

lemma apply_event_exit: "snd (apply_event now e d) \<longleftrightarrow> leaves (is_send d) (Some e)"
proof (cases e)
  case (StageChanged s)
  then show ?thesis
    by (cases s) (auto simp: leaves_def is_send_def stage_changed_def should_exit_after_stage_def Let_def
        split: dashboard_kind.splits)
qed (simp_all add: leaves_def)

lemma apply_event_stage:
  "da_stage (fst (apply_event now e d)) = (case e of StageChanged s \<Rightarrow> s | _ \<Rightarrow> da_stage d)"
  by (cases e) (simp_all add: event_defs split: option.splits)

lemma is_send_kept [simp]:
  "is_send (fst (apply_event now e d)) = is_send d" "is_send (fst (read_terminal quit retry now area es d)) = is_send d"
  by (simp_all add: is_send_def)

lemma run_left:
  assumes "run_dashboard quit retry ins d = (d', out, r)"
  shows "r = Left \<longrightarrow> quit_pressed ins \<or> saw_event (leaves (is_send d)) ins"
  using assms
proof (induction quit retry ins d arbitrary: d' out r rule: run_dashboard.induct)
  case (4 quit retry now e ins d)
  obtain d1 b where ap: "apply_event now e d = (d1, b)" by fastforce
  have kept: "is_send d1 = is_send d" "b = leaves (is_send d) (Some e)"
    using is_send_kept(1) [of now e d] apply_event_exit [of now e d] ap by simp_all
  show ?case
  proof (cases b)
    case True
    with kept show ?thesis by (simp add: saw_event_def)
  next
    case False
    with 4(2) ap have "run_dashboard quit retry ins d1 = (d', out, r)" by simp
    from 4(1) [OF ap [symmetric] False this] kept show ?thesis by (auto simp: quit_pressed_def saw_event_def)
  qed
next
  case (5 quit retry now area es ins d)
  obtain d1 o1 r1 where read: "read_terminal quit retry now area es d = (d1, o1, r1)" using prod_cases3 by blast
  show ?case
  proof (cases "r1 = Running")
    case True
    obtain d2 o2 r2 where run: "run_dashboard quit retry ins d1 = (d2, o2, r2)" using prod_cases3 by blast
    have "is_send d1 = is_send d" using is_send_kept(2) [of quit retry now area es d] read by simp
    with 5 read True run show ?thesis by (auto simp: quit_pressed_def saw_event_def)
  next
    case False
    then obtain key where "Term_Key key \<in> set es" "is_quit_key key" using read_terminal_left [OF read] by blast
    then have "list_ex (\<lambda>t. case t of Term_Key key \<Rightarrow> is_quit_key key | _ \<Rightarrow> False) es"
      by (force simp: list_ex_iff)
    then show ?thesis by (simp add: quit_pressed_def)
  qed
qed (auto simp: saw_event_def leaves_def)

lemma run_signals:
  assumes "run_dashboard quit retry ins d = (d', out, r)"
  shows "(\<exists>k. out = replicate k Signal_Retry \<or> out = replicate k Signal_Retry @ [Signal_Quit] \<and> quit \<and> r = Left \<and> quit_pressed ins)
    \<and> (Signal_Retry \<in> set out \<longrightarrow> is_send d \<and> da_retry_enabled d \<and> (is_failed (da_stage d) \<or> saw_event fails ins))"
  using assms
proof (induction quit retry ins d arbitrary: d' out r rule: run_dashboard.induct)
  case (4 quit retry now e ins d)
  obtain d1 b where ap: "apply_event now e d = (d1, b)" by fastforce
  have kept: "is_send d1 = is_send d" "da_retry_enabled d1 = da_retry_enabled d"
    "is_failed (da_stage d1) \<longrightarrow> is_failed (da_stage d) \<or> fails (Some e)"
    using is_send_kept(1) [of now e d] apply_event_kind(2) [of now e d] apply_event_stage [of now e d] ap
    by (auto simp: fails_def split: peerline_event.splits)
  show ?case
  proof (cases b)
    case True
    with 4(2) ap show ?thesis by (auto intro: exI [of _ 0])
  next
    case False
    with 4(2) ap have "run_dashboard quit retry ins d1 = (d', out, r)" by simp
    from 4(1) [OF ap [symmetric] False this] kept show ?thesis
      by (auto simp: quit_pressed_def saw_event_def)
  qed
next
  case (5 quit retry now area es ins d)
  obtain d1 o1 r1 where read: "read_terminal quit retry now area es d = (d1, o1, r1)" using prod_cases3 by blast
  obtain j where o1: "o1 = replicate j Signal_Retry @ (if quit \<and> r1 = Left then [Signal_Quit] else [])"
    using read_terminal_quit [OF read] by blast
  have av: "Signal_Retry \<in> set o1 \<longrightarrow> is_send d \<and> da_retry_enabled d \<and> is_failed (da_stage d)"
    using retry_needs_failure [of quit retry now area es d] read
    by (auto simp: retry_available_def is_send_def is_failed_def)
  have kept: "is_send d1 = is_send d" "da_retry_enabled d1 = da_retry_enabled d" "da_stage d1 = da_stage d"
    using is_send_kept(2) [of quit retry now area es d] read_terminal_sel [of quit retry now area es d] read by simp_all
  show ?case
  proof (cases "r1 = Running")
    case True
    obtain d2 o2 r2 where run: "run_dashboard quit retry ins d1 = (d2, o2, r2)" using prod_cases3 by blast
    have eq: "out = o1 @ o2" "r = r2" using 5(2) read True run by simp_all
    have o1r: "o1 = replicate j Signal_Retry" using o1 True by simp
    from 5(1) [OF read [symmetric] refl True run] av kept o1r show ?thesis
      unfolding eq o1r
      by (elim conjE exE disjE) (auto simp: quit_pressed_def saw_event_def replicate_add [symmetric] append_assoc [symmetric]
          simp del: append_assoc intro: exI [of _ "j + k" for k])
  next
    case False
    with read_terminal_left [OF read] obtain key where key: "r1 = Left" "Term_Key key \<in> set es" "is_quit_key key" by blast
    then have "quit_pressed (In_Tick now area es # ins)" by (force simp: quit_pressed_def list_ex_iff)
    with 5(2) read False o1 av key(1) show ?thesis by (auto split: if_splits)
  qed
qed (auto intro: exI [of _ 0])

text \<open>
  C24. The dashboard is left, and signals the program, only for a reason: it ends without a terminal
  error only after a quit key, a shutdown, the end of the events, or for a sender a completed
  transfer, so a receiver's dashboard survives every failed and every completed transfer; quit is
  signalled at most once, last, and only for a quit key; a retry is signalled only by the dashboard
  of a sender that may retry, and only when a transfer has failed.
\<close>

theorem dashboard_signals_justified:
  assumes "run_dashboard quit retry ins d = (d', out, r)"
  shows "(r = Left \<longrightarrow> quit_pressed ins \<or> saw_event (leaves (is_send d)) ins) \<and>
    (\<exists>k. out = replicate k Signal_Retry \<or> out = replicate k Signal_Retry @ [Signal_Quit] \<and> quit \<and> r = Left \<and> quit_pressed ins) \<and>
    (Signal_Retry \<in> set out \<longrightarrow> is_send d \<and> da_retry_enabled d \<and> (is_failed (da_stage d) \<or> saw_event fails ins))"
  using run_left [OF assms] run_signals [OF assms] by blast

definition plain_key :: "key_code \<Rightarrow> key_event" where
  "plain_key c = \<lparr>ke_code = c, ke_control = False, ke_other_modifier = False\<rparr>"

definition sample_send :: dashboard where
  "sample_send = new_send \<lparr>sv_target_label = ''peer'', sv_target = ''river-mango-42'', sv_code = HumanCode ''rose-lime'',
     sv_route_status = ''ready'', sv_stage = Discovering, sv_progress = None\<rparr> True"

definition sample_area :: rect where
  "sample_area = \<lparr>rc_width = 80, rc_height = 6\<rparr>"

lemma sample_send_sel [simp]:
  "da_retry_enabled sample_send = True" "is_send sample_send = True" "da_stage sample_send = Discovering"
  "da_transfers sample_send = []" "da_logs sample_send = []"
  by (simp_all add: sample_send_def new_send_def is_send_def)

lemma dashboard_signals_justified_witness:
  "\<exists>d'. run_dashboard True True [In_Event 5 (Some (StageChanged (Failed ''dial''))),
     In_Tick 9 sample_area [Term_Key (plain_key (Key_Char CHR ''r'')), Term_Key (plain_key Key_Esc)]] sample_send =
       (d', [Signal_Retry, Signal_Quit], Left) \<and>
     saw_event fails [In_Event 5 (Some (StageChanged (Failed ''dial'')))]"
proof -
  let ?ins = "[In_Event 5 (Some (StageChanged (Failed ''dial''))),
     In_Tick 9 sample_area [Term_Key (plain_key (Key_Char CHR ''r'')), Term_Key (plain_key Key_Esc)]]"
  let ?d1 = "fst (apply_event 5 (StageChanged (Failed ''dial'')) sample_send)"
  have av: "retry_available ?d1"
    using apply_event_kind [of 5 "StageChanged (Failed ''dial'')" sample_send]
      apply_event_stage [of 5 "StageChanged (Failed ''dial'')" sample_send]
    by (simp add: retry_available_def sample_send_def new_send_def)
  have stay: "\<not> snd (apply_event 5 (StageChanged (Failed ''dial'')) sample_send)"
    unfolding apply_event_exit by (simp add: leaves_def)
  have run: "run_dashboard True True ?ins sample_send = (request_retry 9 ?d1, [Signal_Retry, Signal_Quit], Left)"
    using av stay by (simp add: split_beta is_quit_key_def is_retry_key_def plain_key_def del: apply_event.simps)
  from dashboard_signals_justified [OF run] have "saw_event fails ?ins" by (simp add: is_failed_def)
  then have "saw_event fails [In_Event 5 (Some (StageChanged (Failed ''dial'')))]" by (simp add: saw_event_def)
  with run show ?thesis by blast
qed

section \<open>The folded view\<close>

text \<open>
  What a view keeps of the events: its stage, its status and its progress. The flag says the
  events are over.
\<close>

fun apply_view_event ::
  "peerline_event \<Rightarrow> transfer_stage \<times> string \<times> (u64 \<times> u64) option \<Rightarrow> (transfer_stage \<times> string \<times> (u64 \<times> u64) option) \<times> bool" where
  "apply_view_event Shutdown v = (v, True)"
| "apply_view_event (StageChanged s) (stage, status, progress) = ((s, status, progress), ends_transfer s)"
| "apply_view_event (TransferStarted i peer files bytes resume_offset) (stage, status, progress) =
     ((stage, dec_str files @ '' file(s), '' @ dec_str (unat bytes) @ '' bytes'', Some (resume_offset, bytes)), False)"
| "apply_view_event (Progress i bytes_done bytes_total) (stage, status, progress) =
     ((stage, status, Some (bytes_done, bytes_total)), False)"
| "apply_view_event (Message message) (stage, status, progress) = ((stage, message, progress), False)"
| "apply_view_event (Log level target message) (stage, status, progress) =
     ((stage, if level = LogError \<or> level = LogWarn then message else status, progress), False)"

definition fold_view_events ::
  "peerline_event list \<Rightarrow> transfer_stage \<times> string \<times> (u64 \<times> u64) option \<Rightarrow> transfer_stage \<times> string \<times> (u64 \<times> u64) option" where
  "fold_view_events events v = fold (\<lambda>e v. fst (apply_view_event e v)) events v"

definition recv_from_events :: "human_name \<Rightarrow> human_code \<Rightarrow> string \<Rightarrow> peerline_event list \<Rightarrow> recv_view" where
  "recv_from_events name hcode bind events =
     (case fold_view_events events (Discovering, ''direct TCP ready; libp2p TCP/QUIC/WebRTC/relay ready'', None) of
        (stage, status, progress) \<Rightarrow>
          \<lparr>rv_name = name, rv_code = hcode, rv_bind = bind, rv_route_status = status, rv_stage = stage, rv_progress = progress\<rparr>)"

definition send_from_events :: "string \<Rightarrow> string \<Rightarrow> human_code \<Rightarrow> string \<Rightarrow> peerline_event list \<Rightarrow> send_view" where
  "send_from_events target_label target hcode route_status events =
     (case fold_view_events events (Discovering, route_status, None) of
        (stage, status, progress) \<Rightarrow>
          \<lparr>sv_target_label = target_label, sv_target = target, sv_code = hcode, sv_route_status = status,
           sv_stage = stage, sv_progress = progress\<rparr>)"

definition apply_events :: "(nat \<times> peerline_event) list \<Rightarrow> dashboard \<Rightarrow> dashboard" where
  "apply_events evs d = fold (\<lambda>(now, e) d. fst (apply_event now e d)) evs d"

lemma apply_event_refines:
  "(da_stage (fst (apply_event now e d)), da_progress (fst (apply_event now e d))) =
   (case fst (apply_view_event e (da_stage d, status, da_progress d)) of (stage, _, progress) \<Rightarrow> (stage, progress))"
  by (cases e) (simp_all add: event_defs split: option.splits)

lemma apply_events_refines:
  "(da_stage (apply_events evs d), da_progress (apply_events evs d)) =
   (case fold_view_events (map snd evs) (da_stage d, status, da_progress d) of (stage, _, progress) \<Rightarrow> (stage, progress))"
proof (induction evs arbitrary: d status)
  case (Cons te evs)
  obtain now e where te: "te = (now, e)" by fastforce
  obtain stage status' progress where v: "fst (apply_view_event e (da_stage d, status, da_progress d)) = (stage, status', progress)"
    using prod_cases3 by blast
  have "da_stage (fst (apply_event now e d)) = stage" "da_progress (fst (apply_event now e d)) = progress"
    using apply_event_refines [of now e d status] v by simp_all
  with Cons.IH [of "fst (apply_event now e d)" status'] show ?case
    by (simp add: te apply_events_def fold_view_events_def v)
qed (simp add: apply_events_def fold_view_events_def)

text \<open>
  The dashboard refines the folded view: for any events, at any times, a dashboard that started
  from the view of no events shows the stage and the progress of the view folded over the same
  events, for receivers and for senders. What the two keep of status texts differs.
\<close>

theorem dashboard_refines_view:
  "(let d = apply_events evs (new_recv (recv_from_events name hcode bind [])); v = recv_from_events name hcode bind (map snd evs) in
     da_stage d = rv_stage v \<and> da_progress d = rv_progress v) \<and>
   (let d = apply_events evs (new_send (send_from_events label target hcode status []) enabled);
        v = send_from_events label target hcode status (map snd evs) in
     da_stage d = sv_stage v \<and> da_progress d = sv_progress v)"
  using apply_events_refines [of evs "new_recv (recv_from_events name hcode bind [])"
      "''direct TCP ready; libp2p TCP/QUIC/WebRTC/relay ready''"]
    apply_events_refines [of evs "new_send (send_from_events label target hcode status []) enabled" status]
  by (simp add: Let_def recv_from_events_def send_from_events_def new_recv_def new_send_def fold_view_events_def
      split: prod.splits)

section \<open>A retried transfer\<close>

definition starts :: "peerline_event \<Rightarrow> bool" where
  "starts e = (case e of TransferStarted _ _ _ _ _ \<Rightarrow> True | _ \<Rightarrow> False)"

lemma update_first_append:
  "update_first p f (xs @ ys) = (if list_ex p xs then update_first p f xs @ ys else xs @ update_first p f ys)"
  by (induction xs) auto

lemma update_first_ids: "(\<And>r. tr_id (f r) = tr_id r) \<Longrightarrow> map tr_id (update_first p f xs) = map tr_id xs"
  by (induction xs) auto

lemma show_status_rows:
  "da_transfers (show_status now msg d) = da_transfers d \<or>
   (\<exists>i f. (\<forall>r. tr_id (f r) = tr_id r) \<and>
     da_transfers (show_status now msg d) = update_first (\<lambda>r. tr_id r = i) f (da_transfers d))"
proof (cases "da_active_transfer d")
  case (Some i)
  then show ?thesis
    by (intro disjI2 exI [of _ i] exI [of _ "\<lambda>row. row\<lparr>tr_status := msg, tr_updated_at := now\<rparr>"])
      (simp add: show_status_def)
qed (simp add: show_status_def)

text \<open>Only the first row of an identifier is ever changed, and no row changes its identifier.\<close>

lemma rows_after_event:
  assumes "\<not> starts e"
  shows "da_transfers (fst (apply_event now e d)) = da_transfers d \<or>
    (\<exists>i f. (\<forall>r. tr_id (f r) = tr_id r) \<and>
      da_transfers (fst (apply_event now e d)) = update_first (\<lambda>r. tr_id r = i) f (da_transfers d))"
proof (cases e)
  case (StageChanged s)
  then show ?thesis
    by (cases "da_active_transfer d") (simp add: event_defs, simp add: event_defs,
      intro disjI2 exI [of _ "the (da_active_transfer d)"]
        exI [of _ "\<lambda>row. row\<lparr>tr_stage := s, tr_status := stage_label s, tr_updated_at := now, tr_progress := da_progress d\<rparr>"],
      simp)
next
  case (Progress i n m)
  then show ?thesis
    by (intro disjI2 exI [of _ i]
        exI [of _ "\<lambda>row. row\<lparr>tr_progress := Some (n, m), tr_status := format_progress n m, tr_updated_at := now\<rparr>"])
      (simp add: event_defs)
next
  case (Message m)
  then obtain p where "fst (apply_event now e d) = show_status now m (push_log now Kind_Info m p d)"
    by (simp add: told_def Let_def)
  then show ?thesis using show_status_rows [of now m "push_log now Kind_Info m p d"] by simp
next
  case (Log l t m)
  then show ?thesis
    using show_status_rows [of now m "push_log now (log_level_kind l) m (Some t) d"] by (simp add: logged_def Let_def)
qed (use assms in \<open>simp_all add: starts_def\<close>)

lemma stale_row_kept:
  assumes "da_transfers d = xs @ [r]" "tr_id r \<in> tr_id ` set xs" "\<not> starts e"
  shows "\<exists>xs'. da_transfers (fst (apply_event now e d)) = xs' @ [r] \<and> tr_id ` set xs' = tr_id ` set xs \<and> length xs' = length xs"
proof -
  have "\<exists>xs'. update_first (\<lambda>r. tr_id r = i) f (xs @ [r]) = xs' @ [r] \<and> tr_id ` set xs' = tr_id ` set xs \<and> length xs' = length xs"
    if "\<And>r. tr_id (f r) = tr_id r" for i f
  proof (cases "list_ex (\<lambda>r. tr_id r = i) xs")
    case True
    have "tr_id ` set (update_first (\<lambda>r. tr_id r = i) f xs) = tr_id ` set xs"
      using update_first_ids [of f, OF that] by (metis list.set_map)
    with True show ?thesis by (simp add: update_first_append)
  next
    case False
    with assms(2) show ?thesis by (auto simp: update_first_append list_ex_iff)
  qed
  with rows_after_event [OF assms(3), of now d] assms(1) show ?thesis by metis
qed

text \<open>
  A transfer that starts a second time gets a row that is never updated: when a row of the same
  transfer is already shown, as after a retry or a resumed connection, which keep the transfer's
  identifier, then whatever events follow up to the next start, the new row keeps the stage, the
  status, the time and the progress it was added with, although the transfer moves on, completes or
  fails, because the dashboard looks rows up from the front and changes the old one.
\<close>

theorem restarted_transfer_row_is_stale:
  assumes "i \<in> tr_id ` set (da_transfers d)" "length (da_transfers d) < max_transfers"
    and "list_all (\<lambda>(now, e). \<not> starts e) evs"
  shows "last (da_transfers (apply_events evs (fst (apply_event now (TransferStarted i peer files bytes offset) d)))) =
    \<lparr>tr_id = i, tr_peer = peer, tr_files = files, tr_bytes = bytes, tr_progress = Some (offset, bytes),
     tr_stage = da_stage d, tr_status = stage_label (da_stage d), tr_updated_at = now\<rparr>"
proof -
  let ?r = "\<lparr>tr_id = i, tr_peer = peer, tr_files = files, tr_bytes = bytes, tr_progress = Some (offset, bytes),
     tr_stage = da_stage d, tr_status = stage_label (da_stage d), tr_updated_at = now\<rparr>"
  have "\<exists>xs. da_transfers (apply_events evs d') = xs @ [?r]"
    if "da_transfers d' = xs @ [?r]" "i \<in> tr_id ` set xs" for xs d'
    using that assms(3)
  proof (induction evs arbitrary: d' xs)
    case (Cons te evs)
    obtain t e where te: "te = (t, e)" by fastforce
    obtain ys where "da_transfers (fst (apply_event t e d')) = ys @ [?r]" "tr_id ` set ys = tr_id ` set xs"
      using stale_row_kept [of d' xs ?r e t] Cons.prems by (auto simp: te)
    with Cons.IH [of "fst (apply_event t e d')" ys] Cons.prems show ?case by (simp add: te apply_events_def)
  qed (simp add: apply_events_def)
  moreover have "da_transfers (fst (apply_event now (TransferStarted i peer files bytes offset) d)) = da_transfers d @ [?r]"
    using assms(2) by (simp add: transfer_started_def Let_def)
  ultimately obtain xs where
    "da_transfers (apply_events evs (fst (apply_event now (TransferStarted i peer files bytes offset) d))) = xs @ [?r]"
    using assms(1) by blast
  then show ?thesis by simp
qed

definition restarted_once :: dashboard where
  "restarted_once = apply_events [(1, StageChanged Transferring), (2, TransferStarted (TransferId [7]) ''peer'' 1 100 0),
     (3, StageChanged (Failed ''dial''))] sample_send"

lemma restarted_transfer_row_is_stale_witness:
  "tr_stage (last (da_transfers (apply_events [(9, StageChanged Complete)]
     (fst (apply_event 8 (TransferStarted (TransferId [7]) ''peer'' 1 100 40) restarted_once))))) \<noteq> Complete"
proof -
  have "TransferId [7] \<in> tr_id ` set (da_transfers restarted_once)" "length (da_transfers restarted_once) < max_transfers"
    by (simp_all add: restarted_once_def apply_events_def event_defs max_transfers_def split: option.splits)
  from restarted_transfer_row_is_stale [OF this, of "[(9, StageChanged Complete)]" 8 "''peer''" 1 100 40]
  show ?thesis
    by (simp add: starts_def restarted_once_def apply_events_def apply_event_stage del: apply_event.simps)
qed

section \<open>Reading the history\<close>

text \<open>
  Reading the activity log's history is not disturbed by new entries until the log is full: with
  a scroll position and a full panel of rows below it, a new entry that repeats no recent one leaves
  every visible line as it was when fewer than 64 entries are held; when 64 are held, the oldest
  entry goes, its lines go with it, and the reader's view moves on by as many lines.
\<close>

theorem history_view_until_full:
  assumes "repeated_log_index (da_logs d) kind source msg = None" "da_log_scroll_top d = Some t" "dash_ok d"
    and "t + activity_visible_rows area \<le> rendered_log_line_count (da_logs d) (activity_content_width area)"
  shows "if length (da_logs d) < max_logs
    then visible_activity_lines (push_log now kind msg source d) area = visible_activity_lines d area
    else t + length (render_log_lines (hd (da_logs d)) (activity_content_width area)) + activity_visible_rows area
           \<le> rendered_log_line_count (da_logs d) (activity_content_width area) \<longrightarrow>
         visible_activity_lines (push_log now kind msg source d) area =
         visible_activity_lines (d\<lparr>da_log_scroll_top := Some (t + length (render_log_lines (hd (da_logs d))
           (activity_content_width area)))\<rparr>) area"
proof (cases "length (da_logs d) < max_logs")
  case True
  then have "push_entry now kind msg source (da_logs d) = da_logs d @
      [\<lparr>le_elapsed = now, le_kind = kind, le_source = source, le_text = msg, le_repeat_count = 1\<rparr>]"
    using assms(1) by (simp add: push_entry_fresh)
  with True view_not_yanked [OF assms(4)] assms(2) show ?thesis by (simp add: visible_activity_lines_def)
next
  case False
  let ?w = "activity_content_width area" and ?rows = "activity_visible_rows area"
  let ?n = "\<lparr>le_elapsed = now, le_kind = kind, le_source = source, le_text = msg, le_repeat_count = 1\<rparr>"
  from False assms(3) have len: "length (da_logs d) = max_logs" by (simp add: dash_ok_def logs_ok_def)
  then obtain h ls where logs: "da_logs d = h # ls" by (cases "da_logs d") (auto simp: max_logs_def)
  have push: "push_entry now kind msg source (da_logs d) = ls @ [?n]"
    using assms(1) len by (simp add: push_entry_fresh logs)
  show ?thesis
  proof (simp only: False if_False, intro impI)
    assume room: "t + length (render_log_lines (hd (da_logs d)) ?w) + ?rows \<le> rendered_log_line_count (da_logs d) ?w"
    then have "t + ?rows \<le> rendered_log_line_count ls ?w" by (simp add: logs rendered_log_line_count_def)
    then have "visible_log_lines (ls @ [?n]) ?w ?rows (Some t) = visible_log_lines ls ?w ?rows (Some t)"
      by (rule view_not_yanked)
    also have "\<dots> = visible_log_lines (h # ls) ?w ?rows (Some (t + length (render_log_lines h ?w)))"
      using room \<open>t + ?rows \<le> rendered_log_line_count ls ?w\<close>
      by (simp add: logs visible_log_lines_def rendered_log_lines_def rendered_log_line_count_length log_view_start_def
          max_log_start_def Let_def)
    finally show "visible_activity_lines (push_log now kind msg source d) area =
        visible_activity_lines (d\<lparr>da_log_scroll_top := Some (t + length (render_log_lines (hd (da_logs d)) ?w))\<rparr>) area"
      using assms(2) by (simp add: visible_activity_lines_def push) (simp add: logs)
  qed
qed

definition sample_entry :: log_entry where
  "sample_entry = \<lparr>le_elapsed = 2, le_kind = Kind_Info, le_source = None, le_text = ''first'', le_repeat_count = 1\<rparr>"

definition one_row :: rect where
  "one_row = \<lparr>rc_width = 80, rc_height = 3\<rparr>"

lemma history_view_until_full_witness:
  "visible_activity_lines (push_log 7 Kind_Info ''next'' None (sample_send\<lparr>da_log_scroll_top := Some 0, da_logs := [sample_entry]\<rparr>))
     one_row =
   visible_activity_lines (sample_send\<lparr>da_log_scroll_top := Some 0, da_logs := [sample_entry]\<rparr>) one_row"
proof -
  let ?d = "sample_send\<lparr>da_log_scroll_top := Some 0, da_logs := [sample_entry]\<rparr>"
  have "repeated_log_index (da_logs ?d) Kind_Info None ''next'' = None"
    by (simp add: repeated_log_index_def same_log_def sample_entry_def log_coalesce_lookback_def)
  moreover have "dash_ok ?d"
    by (simp add: dash_ok_def logs_ok_def recent_logs_def max_logs_def log_coalesce_lookback_def sample_entry_def)
  moreover have "0 + activity_visible_rows one_row \<le> rendered_log_line_count (da_logs ?d) (activity_content_width one_row)"
    using render_log_lines_nonempty [of sample_entry "activity_content_width one_row"]
    by (simp add: activity_visible_rows_def one_row_def rendered_log_line_count_def Suc_le_eq)
  ultimately show ?thesis
    using history_view_until_full [of ?d Kind_Info None "''next''" 0 one_row 7] by (simp add: max_logs_def)
qed

end
