(* ===== verification/Cli_Terminal.thy ===== *)
theory Cli_Terminal
  imports Cli_Send Tui_Dashboard
begin

text \<open>
  The command line's terminal (\<open>peerline-cli/src/main/terminal.rs\<close>): how a trace event becomes a
  log event of the dashboards, which of them get it, when the trace is also written to the error
  stream, and what a sender's dashboard is started with. The subscriber itself and the channels
  are libraries.
\<close>

section \<open>Trace events\<close>

datatype trace_level = Trace_Error | Trace_Warn | Trace_Info | Trace_Debug | Trace_Trace

fun peerline_log_level :: "trace_level \<Rightarrow> log_level" where
  "peerline_log_level Trace_Error = LogError"
| "peerline_log_level Trace_Warn = LogWarn"
| "peerline_log_level Trace_Info = LogInfo"
| "peerline_log_level Trace_Debug = LogDebug"
| "peerline_log_level Trace_Trace = LogTrace"

record log_fields =
  lf_message :: "string option"
  lf_fields :: "string list"

definition record_value :: "string \<times> string \<Rightarrow> log_fields \<Rightarrow> log_fields" where
  "record_value f v =
     (if fst f = ''message'' then v\<lparr>lf_message := Some (snd f)\<rparr>
      else v\<lparr>lf_fields := lf_fields v @ [fst f @ ''='' @ snd f]\<rparr>)"

text \<open>The event of a trace with its name, level, target and fields, in their order.\<close>

definition log_event :: "string \<Rightarrow> trace_level \<Rightarrow> string \<Rightarrow> (string \<times> string) list \<Rightarrow> peerline_event" where
  "log_event name level target fs =
     (let v = fold record_value fs \<lparr>lf_message = None, lf_fields = []\<rparr>;
          message = (case lf_message v of Some m \<Rightarrow> m | None \<Rightarrow> name) in
      Log (peerline_log_level level) target
        (if lf_fields v = [] then message else message @ '' '' @ join_with '' '' (lf_fields v)))"

text \<open>
  The registered dashboards: each is its queue, or gone. A dashboard that is gone is forgotten when
  an event is next sent.
\<close>

type_synonym log_senders = "peerline_event list option list"

definition register_sender :: "log_senders \<Rightarrow> log_senders" where
  "register_sender ss = ss @ [Some []]"

definition send_log :: "peerline_event \<Rightarrow> log_senders \<Rightarrow> log_senders" where
  "send_log e ss = map (map_option (\<lambda>q. q @ [e])) (filter (\<lambda>s. s \<noteq> None) ss)"

text \<open>The trace goes to the error stream unless a dashboard owns the terminal that it is.\<close>

definition writes_stderr :: "bool \<Rightarrow> bool \<Rightarrow> bool" where
  "writes_stderr ui_active stderr_terminal \<longleftrightarrow> \<not> (ui_active \<and> stderr_terminal)"

section \<open>A sender's dashboard\<close>

record send_ui =
  ui_view :: "send_view option"
  ui_quit :: bool
  ui_retry :: bool

definition spawn_send_tui :: "bool \<Rightarrow> string \<Rightarrow> string \<Rightarrow> human_code \<Rightarrow> string \<Rightarrow> bool \<Rightarrow> send_ui" where
  "spawn_send_tui terminal target_label target hcode route_status retry_enabled =
     (if \<not> terminal then \<lparr>ui_view = None, ui_quit = False, ui_retry = False\<rparr>
      else \<lparr>ui_view = Some \<lparr>sv_target_label = target_label, sv_target = target, sv_code = hcode,
              sv_route_status = route_status, sv_stage = Discovering, sv_progress = None\<rparr>,
            ui_quit = True, ui_retry = retry_enabled\<rparr>)"

text \<open>What the two ways of sending show in it.\<close>

definition direct_ui :: "bool \<Rightarrow> direct_target \<Rightarrow> human_code \<Rightarrow> send_ui" where
  "direct_ui terminal target hcode =
     (case target of
        Target_Exact endpoint \<Rightarrow>
          spawn_send_tui terminal ''endpoint'' (sock_str endpoint) hcode (''dialing '' @ sock_str endpoint) True
      | Target_Ip ip \<Rightarrow>
          spawn_send_tui terminal ''ip'' (ip_str ip) hcode
            (''probing direct ports '' @ dec_str (unat default_direct_port) @ ''..'' @
             dec_str (unat (saturating_add default_direct_port (default_direct_port_window - 1)))) True)"

definition named_ui :: "bool \<Rightarrow> human_name \<Rightarrow> human_code \<Rightarrow> 'u discovery_config \<Rightarrow> send_ui" where
  "named_ui terminal name hcode d = spawn_send_tui terminal ''peer'' (name_str name) hcode (send_route_status d) True"

section \<open>Every dashboard that is there gets every event\<close>

lemma send_log_delivers:
  "send_log e ss = map (\<lambda>q. Some (q @ [e])) (List.map_filter id ss)"
  by (induction ss) (auto simp: send_log_def List.map_filter_def)

lemma record_value_fields:
  "lf_fields (fold record_value fs v) = lf_fields v @ map (\<lambda>(n, x). n @ ''='' @ x) (filter (\<lambda>(n, x). n \<noteq> ''message'') fs)"
  by (induction fs arbitrary: v) (auto simp: record_value_def)

lemma log_event_message:
  "''message'' \<notin> fst ` set fs \<Longrightarrow> log_event name level target ((''message'', m) # fs) =
     Log (peerline_log_level level) target
       (if fs = [] then m else m @ '' '' @ join_with '' '' (map (\<lambda>(n, x). n @ ''='' @ x) fs))"
proof -
  assume others: "''message'' \<notin> fst ` set fs"
  have "lf_message (fold record_value fs v) = lf_message v" for v
    using others by (induction fs arbitrary: v) (auto simp: record_value_def)
  moreover have "filter (\<lambda>(n, x). n \<noteq> ''message'') fs = fs"
    using others by (intro filter_True) force
  ultimately show ?thesis
    by (simp add: log_event_def record_value_fields record_value_def)
qed

end
