(* ===== verification/Cli_Doctor.thy ===== *)
theory Cli_Doctor
  imports Cli_Start Config
begin

text \<open>
  The doctor command (\<open>peerline-cli/src/main/doctor\<close>: \<open>model.rs\<close>, \<open>platform.rs\<close>, \<open>checks.rs\<close> and
  \<open>render.rs\<close>), for Unix: what it finds out about Tor, the I2P bridge, the DHT and the configuration,
  the plans it offers, and the report it prints. The machine is a record: its environment, which
  files there are, what running a command gives, how the bridge answers. The lemmas show that every problem comes with a plan, that
  the shell reads a shown command as the one that is run, and how far the report agrees with what a transfer does.
\<close>

section \<open>Commands as a shell shows them\<close>

definition plain_char :: "char \<Rightarrow> bool" where
  "plain_char c \<longleftrightarrow> is_alnum c \<or> c \<in> {CHR ''-'', CHR ''_'', CHR ''.'', CHR ''/'', CHR '':''}"

definition quote :: char where
  "quote = char_of (39 :: nat)"

definition backslash :: char where
  "backslash = char_of (92 :: nat)"

definition shell_quote :: "string \<Rightarrow> string" where
  "shell_quote s =
     (if list_all plain_char s then s
      else quote # concat (map (\<lambda>c. if c = quote then [quote, backslash, quote, quote] else [c]) s) @ [quote])"

definition shell_display :: "string \<Rightarrow> string list \<Rightarrow> string" where
  "shell_display program args = join_with '' '' (map shell_quote (program # args))"

record install_command =
  ic_display :: string
  ic_program :: "string option"
  ic_args :: "string list"

definition executable :: "string \<Rightarrow> string list \<Rightarrow> install_command" where
  "executable program args = \<lparr>ic_display = shell_display program args, ic_program = Some program, ic_args = args\<rparr>"

definition manual :: "string \<Rightarrow> install_command" where
  "manual display = \<lparr>ic_display = display, ic_program = None, ic_args = []\<rparr>"

section \<open>Text that may not be UTF-8\<close>

text \<open>
  \<open>String::from_utf8_lossy\<close>: the longest start of a character that is cut off, or one byte that
  starts none, becomes the replacement character. \<open>char_step\<close> is how many bytes the next piece has
  and whether it is a character.
\<close>

definition utf8_width :: "nat \<Rightarrow> nat" where
  "utf8_width a =
     (if a \<le> 127 then 1 else if 194 \<le> a \<and> a \<le> 223 then 2 else if 224 \<le> a \<and> a \<le> 239 then 3
      else if 240 \<le> a \<and> a \<le> 244 then 4 else 0)"

definition second_ok :: "nat \<Rightarrow> nat \<Rightarrow> bool" where
  "second_ok a b \<longleftrightarrow> utf8_cont b \<and> (a = 224 \<longrightarrow> 160 \<le> b) \<and> (a = 237 \<longrightarrow> b \<le> 159) \<and> (a = 240 \<longrightarrow> 144 \<le> b) \<and> (a = 244 \<longrightarrow> b \<le> 143)"

definition char_step :: "nat \<Rightarrow> nat list \<Rightarrow> nat \<times> bool" where
  "char_step a s =
     (let width = utf8_width a;
          k = (if width < 2 then 0 else
                case s of [] \<Rightarrow> 0 | b # s1 \<Rightarrow> if second_ok a b then 1 + length (takeWhile utf8_cont (take (width - 2) s1)) else 0)
      in (Suc k, Suc k = width))"

definition replacement :: string where
  "replacement = map char_of [239, 191, 189 :: nat]"

function utf8_lossy :: "string \<Rightarrow> string" where
  "utf8_lossy [] = []"
| "utf8_lossy (c # s) =
     (case char_step (code c) (map code s) of
        (n, ok) \<Rightarrow> (if ok then take n (c # s) else replacement) @ utf8_lossy (drop (n - 1) s))"
  by pat_completeness auto
termination by (relation "measure length") (auto simp: le_imp_less_Suc)

lemma char_step_valid:
  assumes "utf8_valid (a # s)"
  shows "0 < utf8_width a \<and> char_step a s = (utf8_width a, True) \<and> utf8_valid (drop (utf8_width a - 1) s)"
proof -
  consider "a \<le> 127" | b s1 where "194 \<le> a" "a \<le> 223" "s = b # s1" | b c s2 where "224 \<le> a" "a \<le> 239" "s = b # c # s2"
    | b c d s3 where "240 \<le> a" "a \<le> 244" "s = b # c # d # s3"
    using assms by (fastforce split: list.splits if_splits)
  then show ?thesis
  proof cases
    case 1
    then show ?thesis using assms by (simp add: char_step_def utf8_width_def)
  next
    case 2
    then show ?thesis using assms by (simp add: char_step_def utf8_width_def second_ok_def)
  next
    case 3
    then show ?thesis using assms by (simp add: char_step_def utf8_width_def second_ok_def)
  next
    case 4
    then show ?thesis using assms by (simp add: char_step_def utf8_width_def second_ok_def)
  qed
qed

lemma utf8_lossy_valid: "utf8_valid (map code s) \<Longrightarrow> utf8_lossy s = s"
proof (induction s rule: utf8_lossy.induct)
  case (2 c s)
  let ?n = "utf8_width (code c)"
  have v: "0 < ?n" "char_step (code c) (map code s) = (?n, True)" "utf8_valid (map code (drop (?n - 1) s))"
    using char_step_valid [of "code c" "map code s"] 2(2) by (simp_all add: drop_map)
  with 2(1) [OF v(2) [symmetric]] have "utf8_lossy (drop (?n - 1) s) = drop (?n - 1) s" by simp
  moreover have "take ?n (c # s) @ drop (?n - 1) s = c # s" using v(1) by (cases ?n) auto
  ultimately show ?case using v(2) by simp
qed simp

section \<open>The report\<close>

datatype platform = Macos | Linux | Windows | Other_Platform

datatype package_manager = Brew | AptGet | Dnf | Yum | Pacman | Zypper | Apk | Choco

fun manager_command :: "package_manager \<Rightarrow> string" where
  "manager_command Brew = ''brew''" | "manager_command AptGet = ''apt-get''" | "manager_command Dnf = ''dnf''"
| "manager_command Yum = ''yum''" | "manager_command Pacman = ''pacman''" | "manager_command Zypper = ''zypper''"
| "manager_command Apk = ''apk''" | "manager_command Choco = ''choco''"

fun manager_label :: "package_manager \<Rightarrow> string" where
  "manager_label Brew = ''Homebrew''" | "manager_label AptGet = ''apt-get''" | "manager_label Dnf = ''dnf''"
| "manager_label Yum = ''yum''" | "manager_label Pacman = ''pacman''" | "manager_label Zypper = ''zypper''"
| "manager_label Apk = ''apk''" | "manager_label Choco = ''Chocolatey''"

fun linux_family_hint :: "package_manager \<Rightarrow> string option" where
  "linux_family_hint AptGet = Some ''Debian/Ubuntu/Raspberry Pi OS''"
| "linux_family_hint Dnf = Some ''Fedora/RHEL/CentOS''"
| "linux_family_hint Yum = Some ''older RHEL/CentOS''"
| "linux_family_hint Pacman = Some ''Arch/Manjaro''"
| "linux_family_hint Zypper = Some ''openSUSE/SLES''"
| "linux_family_hint Apk = Some ''Alpine''"
| "linux_family_hint Brew = None"
| "linux_family_hint Choco = None"

record package_manager_report =
  pm_kind :: package_manager
  pm_command :: string
  pm_path :: string

datatype config_status = Config_Ready | Config_Missing | Config_Error

record config_report =
  cr_path :: "string option"
  cr_status :: config_status
  cr_saved_name :: "string option"
  cr_node_id_present :: bool
  cr_error :: "string option"

record install_plan =
  ip_summary :: string
  ip_commands :: "install_command list"
  ip_notes :: "string list"

datatype dependency_status = Dep_Ok | Dep_Missing | Dep_Broken

fun status_label :: "dependency_status \<Rightarrow> string" where
  "status_label Dep_Ok = ''ok''" | "status_label Dep_Missing = ''missing''" | "status_label Dep_Broken = ''broken''"

record dependency_report =
  dr_key :: string
  dr_label :: string
  dr_status :: dependency_status
  dr_detail :: string
  dr_command_path :: "string option"
  dr_version :: "string option"
  dr_install :: "install_plan option"

definition needs_action :: "dependency_report \<Rightarrow> bool" where
  "needs_action d \<longleftrightarrow> dr_status d = Dep_Missing \<or> dr_status d = Dep_Broken"

record doctor_report =
  do_os :: platform
  do_arch :: string
  do_package_manager :: "package_manager_report option"
  do_config :: config_report
  do_dependencies :: "dependency_report list"
  do_notes :: "string list"

definition actionable_dependencies :: "doctor_report \<Rightarrow> dependency_report list" where
  "actionable_dependencies r = filter needs_action (do_dependencies r)"

section \<open>The machine\<close>

text \<open>Running a command: no answer in time, no start, or its success with both outputs.\<close>

datatype version_run = Run_TimedOut | Run_Failed string | Run_Output bool bytes bytes

text \<open>
  The environment holds byte strings. The answer of the bridge is that of a connection to an address, if it comes in time. The configuration store is
  its file's path, or the error of finding the directory.
\<close>

record machine =
  mc_os :: string
  mc_arch :: string
  mc_env :: "string \<Rightarrow> string option"
  mc_is_file :: "string \<Rightarrow> bool"
  mc_run :: "string \<Rightarrow> version_run"
  mc_bridge :: "socket_addr \<Rightarrow> bytes option option"
  mc_config :: "string + string"
  mc_from_toml :: "string \<Rightarrow> config option"
  mc_config_error :: "config_error \<Rightarrow> string"
  mc_fs :: fs

definition path_display :: "string \<Rightarrow> string" where
  "path_display p = utf8_lossy p"

definition env_text :: "machine \<Rightarrow> string \<Rightarrow> string option" where
  "env_text w name = Option.bind (mc_env w name) to_str"

definition env_present :: "machine \<Rightarrow> string \<Rightarrow> bool" where
  "env_present w name \<longleftrightarrow> mc_env w name \<noteq> None"

definition current_platform :: "string \<Rightarrow> platform" where
  "current_platform os =
     (if os = ''macos'' then Macos else if os = ''linux'' then Linux else if os = ''windows'' then Windows else Other_Platform)"

fun platform_label :: "string \<Rightarrow> platform \<Rightarrow> string" where
  "platform_label os Macos = ''macOS''" | "platform_label os Linux = ''Linux''"
| "platform_label os Windows = ''Windows''" | "platform_label os Other_Platform = os"

section \<open>Commands and the package manager\<close>

definition command_candidates :: "string \<Rightarrow> string \<Rightarrow> string list" where
  "command_candidates directory command = [path_join directory command]"

definition command_path :: "machine \<Rightarrow> string \<Rightarrow> string option" where
  "command_path w command =
     (case mc_env w ''PATH'' of
        None \<Rightarrow> None
      | Some dirs \<Rightarrow>
          find (mc_is_file w) (concat (map (\<lambda>d. command_candidates d command) (split_on (\<lambda>c. c = CHR '':'') dirs))))"

fun package_manager_candidates :: "platform \<Rightarrow> package_manager list" where
  "package_manager_candidates Macos = [Brew]"
| "package_manager_candidates Windows = [Choco]"
| "package_manager_candidates Linux = [AptGet, Dnf, Yum, Pacman, Zypper, Apk, Brew]"
| "package_manager_candidates Other_Platform = [Brew]"

fun first_manager :: "machine \<Rightarrow> package_manager list \<Rightarrow> package_manager_report option" where
  "first_manager w [] = None"
| "first_manager w (k # ks) =
     (case command_path w (manager_command k) of
        Some p \<Rightarrow> Some \<lparr>pm_kind = k, pm_command = manager_command k, pm_path = path_display p\<rparr>
      | None \<Rightarrow> first_manager w ks)"

definition detect_package_manager :: "machine \<Rightarrow> platform \<Rightarrow> package_manager_report option" where
  "detect_package_manager w p = first_manager w (package_manager_candidates p)"

definition privileged_command :: "machine \<Rightarrow> string \<Rightarrow> string list \<Rightarrow> install_command" where
  "privileged_command w program args =
     (if command_path w ''sudo'' \<noteq> None then executable ''sudo'' (program # args) else executable program args)"

text \<open>The lines of a text, without their line ends.\<close>

definition strip_cr :: "string \<Rightarrow> string" where
  "strip_cr l = (if l \<noteq> [] \<and> code (last l) = 13 then butlast l else l)"

definition str_lines :: "string \<Rightarrow> string list" where
  "str_lines s =
     (let ps = split_on (\<lambda>c. code c = 10) s in map strip_cr (butlast ps) @ (if last ps = [] then [] else [last ps]))"

definition version_text :: "bytes \<Rightarrow> bytes \<Rightarrow> string" where
  "version_text out err =
     (let raw = utf8_lossy (bytes_str out) in if trim raw = [] then raw @ utf8_lossy (bytes_str err) else raw)"

definition command_version :: "machine \<Rightarrow> string \<Rightarrow> string + string" where
  "command_version w p =
     (case mc_run w p of
        Run_TimedOut \<Rightarrow> Inl ''timed out after 3s''
      | Run_Failed e \<Rightarrow> Inl e
      | Run_Output success out err \<Rightarrow>
          let first_line = find (\<lambda>l. trim l \<noteq> []) (str_lines (version_text out err)) in
          if success then Inr (trim (case first_line of Some l \<Rightarrow> l | None \<Rightarrow> ''version output unavailable''))
          else Inl (trim (case first_line of Some l \<Rightarrow> l | None \<Rightarrow> ''version command exited unsuccessfully'')))"

section \<open>Plans\<close>

definition plan :: "string \<Rightarrow> install_command list \<Rightarrow> string list \<Rightarrow> install_plan" where
  "plan summary cs notes = \<lparr>ip_summary = summary, ip_commands = cs, ip_notes = notes\<rparr>"

fun manual_tor_install_plan :: "platform \<Rightarrow> install_plan" where
  "manual_tor_install_plan Windows =
     plan ''install Tor with Chocolatey'' [manual ''choco install tor -y'']
       [''Install Chocolatey first, then rerun `peerline setup`.'']"
| "manual_tor_install_plan Macos =
     plan ''install Tor with Homebrew'' [manual ''brew install tor''] [''Install Homebrew first if `brew` is not on PATH.'']"
| "manual_tor_install_plan Linux =
     plan ''install Tor with your distro package manager''
       [manual ''sudo apt-get update && sudo apt-get install -y tor'', manual ''sudo dnf install -y tor'',
        manual ''sudo yum install -y tor'', manual ''sudo pacman -S --needed tor'', manual ''sudo zypper install -y tor'',
        manual ''sudo apk add tor'']
       [''Choose the command for your distro: apt-get for Debian/Ubuntu/Raspberry Pi OS, dnf/yum for Fedora/RHEL/CentOS, pacman for Arch/Manjaro, zypper for openSUSE/SLES, apk for Alpine.'',
        ''Rerun `peerline setup` after installing Tor.'']"
| "manual_tor_install_plan Other_Platform =
     plan ''install Tor with your OS package manager'' [manual ''install a package that provides `tor`'']
       [''Rerun `peerline setup` after the `tor` command is on PATH.'']"

fun manual_i2p_install_plan :: "platform \<Rightarrow> install_plan" where
  "manual_i2p_install_plan Macos =
     plan ''install/start i2pd and enable SAM'' [manual ''brew install i2pd'', manual ''brew services start i2pd'']
       [''Homebrew is optional; any I2P/i2pd install is fine if SAM is available.'',
        ''Rerun `peerline doctor` after SAM is reachable on 127.0.0.1:7656.'']"
| "manual_i2p_install_plan Linux =
     plan ''install/start i2pd with your distro tools and enable SAM''
       [manual ''sudo apt-get update && sudo apt-get install -y i2pd'', manual ''sudo dnf install -y i2pd'',
        manual ''sudo yum install -y i2pd'', manual ''sudo pacman -S --needed i2pd'', manual ''sudo zypper install -y i2pd'',
        manual ''sudo apk add i2pd'']
       [''Package names and service defaults vary by distro; start the router with your service manager if the package does not start it.'',
        ''Make sure SAM listens on 127.0.0.1:7656, then rerun `peerline doctor`.'']"
| "manual_i2p_install_plan Windows =
     plan ''install/start I2P or i2pd and enable SAM''
       [manual ''choco install i2pd -y'', manual ''install Java I2P from https://geti2p.net if preferred'']
       [''SAM availability depends on the router configuration; Peerline will not edit it.'',
        ''Use --i2p-sam if your SAM bridge is not 127.0.0.1:7656.'']"
| "manual_i2p_install_plan Other_Platform =
     plan ''install/start an I2P router and enable SAM''
       [manual ''install i2pd or Java I2P, start it, and enable SAM on 127.0.0.1:7656'']
       [''Rerun `peerline doctor` after the SAM bridge is reachable.'']"

definition family_note :: "package_manager_report \<Rightarrow> string list" where
  "family_note m =
     (case linux_family_hint (pm_kind m) of
        None \<Rightarrow> []
      | Some family \<Rightarrow> [pm_command m @ '' is the expected package manager for the '' @ family @ '' family.''])"

fun tor_commands :: "machine \<Rightarrow> package_manager \<Rightarrow> install_command list" where
  "tor_commands w Brew = [executable ''brew'' [''install'', ''tor'']]"
| "tor_commands w AptGet =
     [privileged_command w ''apt-get'' [''update''], privileged_command w ''apt-get'' [''install'', ''-y'', ''tor'']]"
| "tor_commands w Dnf = [privileged_command w ''dnf'' [''install'', ''-y'', ''tor'']]"
| "tor_commands w Yum = [privileged_command w ''yum'' [''install'', ''-y'', ''tor'']]"
| "tor_commands w Pacman = [privileged_command w ''pacman'' [''-S'', ''--needed'', ''--noconfirm'', ''tor'']]"
| "tor_commands w Zypper = [privileged_command w ''zypper'' [''install'', ''-y'', ''tor'']]"
| "tor_commands w Apk = [privileged_command w ''apk'' [''add'', ''tor'']]"
| "tor_commands w Choco = [executable ''choco'' [''install'', ''tor'', ''-y'']]"

definition tor_notes :: "machine \<Rightarrow> package_manager_report \<Rightarrow> string list" where
  "tor_notes w m =
     (if pm_kind m \<in> {AptGet, Dnf, Yum, Pacman, Zypper, Apk} \<and> command_path w ''sudo'' = None
      then [''Run from a root shell if the package manager reports a permission error.''] else []) @
     family_note m @
     (if pm_kind m = Choco then [''Run from an elevated Windows shell if Chocolatey asks for admin rights.''] else [])"

definition tor_install_plan :: "machine \<Rightarrow> platform \<Rightarrow> package_manager_report option \<Rightarrow> install_plan option" where
  "tor_install_plan w p pm =
     (case pm of
        None \<Rightarrow> Some (manual_tor_install_plan p)
      | Some m \<Rightarrow> Some (plan (''install Tor via '' @ manager_label (pm_kind m)) (tor_commands w (pm_kind m)) (tor_notes w m)))"

fun i2p_commands :: "package_manager \<Rightarrow> string list" where
  "i2p_commands Brew = [''brew install i2pd'', ''brew services start i2pd'']"
| "i2p_commands AptGet = [''sudo apt-get update'', ''sudo apt-get install -y i2pd'']"
| "i2p_commands Dnf = [''sudo dnf install -y i2pd'']"
| "i2p_commands Yum = [''sudo yum install -y i2pd'']"
| "i2p_commands Pacman = [''sudo pacman -S --needed i2pd'']"
| "i2p_commands Zypper = [''sudo zypper install -y i2pd'']"
| "i2p_commands Apk = [''sudo apk add i2pd'']"
| "i2p_commands Choco = [''choco install i2pd -y'']"

definition i2p_notes :: "string list" where
  "i2p_notes =
     [''I2P setup is not fully automatic: install/start i2pd or Java I2P, then make sure SAM listens on 127.0.0.1:7656.'',
      ''Java I2P does not enable SAM by default; enable it in the router console or clients.config before using Peerline I2P routes.'',
      ''Rerun `peerline doctor` after starting the SAM bridge.'']"

definition i2p_install_plan :: "platform \<Rightarrow> package_manager_report option \<Rightarrow> install_plan option" where
  "i2p_install_plan p pm =
     (case pm of
        None \<Rightarrow> Some (manual_i2p_install_plan p)
      | Some m \<Rightarrow> Some (plan ''install/start I2P manually and enable SAM'' (map manual (i2p_commands (pm_kind m)))
          (i2p_notes @ family_note m)))"

section \<open>The checks\<close>

definition i2p_sam_addr_from_env :: "machine \<Rightarrow> socket_addr" where
  "i2p_sam_addr_from_env w =
     (case Option.bind (env_text w ''PEERLINE_I2P_SAM'') parse_sock of Some a \<Rightarrow> a | None \<Rightarrow> sock_new (V4 127 0 0 1) 7656)"

text \<open>The answer is read up to the end of its first line, or of the connection.\<close>

definition probe_i2p_sam :: "machine \<Rightarrow> socket_addr \<Rightarrow> bool" where
  "probe_i2p_sam w addr =
     (case mc_bridge w addr of
        Some (Some input) \<Rightarrow>
          let line = fst (take_line input) in
          utf8_valid (map unat line) \<and> starts_with ''HELLO REPLY'' (bytes_str line) \<and> contains_sub ''RESULT=OK'' (bytes_str line)
      | _ \<Rightarrow> False)"

definition tor_report :: "machine \<Rightarrow> platform \<Rightarrow> package_manager_report option \<Rightarrow> dependency_report" where
  "tor_report w p pm =
     (let install = tor_install_plan w p pm; tor_disabled = env_present w ''PEERLINE_DISABLE_TOR'';
          report = (\<lambda>status detail found version install. \<lparr>dr_key = ''tor'', dr_label = ''Tor onion routing'', dr_status = status,
            dr_detail = detail, dr_command_path = found, dr_version = version, dr_install = install\<rparr>) in
      case command_path w ''tor'' of
        Some c \<Rightarrow>
          (case command_version w c of
             Inr version \<Rightarrow> report Dep_Ok
               (if tor_disabled then ''tor command is installed, but PEERLINE_DISABLE_TOR is set''
                else ''tor command is available for onion receive/send routes'') (Some (path_display c)) (Some version) None
           | Inl e \<Rightarrow> report Dep_Broken (''tor command was found but did not run cleanly: '' @ e) (Some (path_display c)) None install)
      | None \<Rightarrow> report Dep_Missing
          (if tor_disabled then ''tor command is missing; Tor routes are disabled by PEERLINE_DISABLE_TOR''
           else ''tor command is missing; Peerline will skip onion routes'') None None install)"

definition i2p_detail :: "bool \<Rightarrow> bool \<Rightarrow> bool \<Rightarrow> string \<Rightarrow> string" where
  "i2p_detail available found disabled sam =
     (if available then
        if disabled then ''SAM bridge is reachable at '' @ sam @ '', but PEERLINE_DISABLE_I2P is set''
        else ''SAM bridge is reachable at '' @ sam @ ''; Peerline will reuse it''
      else if found then
        if disabled then ''I2P router command is installed, but SAM '' @ sam @ '' is unavailable and PEERLINE_DISABLE_I2P is set''
        else ''I2P router command is installed, but SAM '' @ sam @ '' is not reachable; start/configure SAM or pass --i2p-sam''
      else
        if disabled then ''I2P router command is missing and SAM '' @ sam @ '' is unavailable; I2P routes are disabled by PEERLINE_DISABLE_I2P''
        else ''SAM '' @ sam @ '' is unavailable and no i2pd/i2prouter command was found'')"

definition i2p_report :: "machine \<Rightarrow> platform \<Rightarrow> package_manager_report option \<Rightarrow> dependency_report" where
  "i2p_report w p pm =
     (let sam_addr = i2p_sam_addr_from_env w; disabled = env_present w ''PEERLINE_DISABLE_I2P'';
          available = probe_i2p_sam w sam_addr;
          router = or_else (command_path w ''i2pd'') (command_path w ''i2prouter'') in
      \<lparr>dr_key = ''i2p'', dr_label = ''I2P SAM routing'',
       dr_status = (if available then Dep_Ok else if router \<noteq> None then Dep_Broken else Dep_Missing),
       dr_detail = i2p_detail available (router \<noteq> None) disabled (sock_str sam_addr),
       dr_command_path = map_option path_display router,
       dr_version = (if available then None else
         Option.bind router (\<lambda>c. case command_version w c of Inr v \<Rightarrow> Some v | Inl _ \<Rightarrow> None)),
       dr_install = (if available then None else i2p_install_plan p pm)\<rparr>)"

definition pkarr_mainline_report :: "machine \<Rightarrow> dependency_report" where
  "pkarr_mainline_report w =
     (let bootstrap = Option.bind (env_text w ''PEERLINE_PKARR_BOOTSTRAP'') (\<lambda>v. if trim v = [] then None else Some (trim v));
          detail = (case bootstrap of
              Some v \<Rightarrow> ''custom bootstrap via PEERLINE_PKARR_BOOTSTRAP ('' @ v @ '')''
            | None \<Rightarrow> ''default pkarr/mainline bootstrap network'') in
      \<lparr>dr_key = ''pkarr_mainline'', dr_label = ''pkarr/mainline discovery'', dr_status = Dep_Ok,
       dr_detail = ''built into peerline; no separate bt/mainline binary is required ('' @ detail @ '')'',
       dr_command_path = None, dr_version = None, dr_install = None\<rparr>)"

definition config_report :: "machine \<Rightarrow> config_report" where
  "config_report w =
     (case mc_config w of
        Inl e \<Rightarrow> \<lparr>cr_path = None, cr_status = Config_Error, cr_saved_name = None, cr_node_id_present = False, cr_error = Some e\<rparr>
      | Inr p \<Rightarrow>
          let store = \<lparr>store_path = components p\<rparr>; shown = Some (path_display p) in
          (case config_load (mc_from_toml w) store (mc_fs w) of
             Inr cfg \<Rightarrow> \<lparr>cr_path = shown,
               cr_status = (if fs_exists (store_path store) (mc_fs w) then Config_Ready else Config_Missing),
               cr_saved_name = map_option name_str (cfg_name cfg), cr_node_id_present = (cfg_node_id cfg \<noteq> None), cr_error = None\<rparr>
           | Inl e \<Rightarrow> \<lparr>cr_path = shown, cr_status = Config_Error, cr_saved_name = None, cr_node_id_present = False,
               cr_error = Some (mc_config_error w e)\<rparr>))"

definition setup_notes :: "platform \<Rightarrow> package_manager_report option \<Rightarrow> string list" where
  "setup_notes p pm =
     [''Tor is optional but strongly improves routing when direct and relay paths are blocked.'',
      ''I2P is optional; Peerline reuses an existing SAM bridge when available and otherwise only starts an installed router command for this receive session.'',
      ''Peerline does not manage I2P router configuration; enable SAM in your router and use --i2p-sam or PEERLINE_I2P_SAM for non-default bridges.'',
      ''pkarr/mainline discovery ships inside peerline, so setup only verifies it is configured.''] @
     (if p = Windows \<and> pm = None then [''Windows setup expects Chocolatey (`choco`) for dependency installation.''] else [])"

definition collect_report :: "machine \<Rightarrow> doctor_report" where
  "collect_report w =
     (let p = current_platform (mc_os w); pm = detect_package_manager w p in
      \<lparr>do_os = p, do_arch = mc_arch w, do_package_manager = pm, do_config = config_report w,
       do_dependencies = [tor_report w p pm, i2p_report w p pm, pkarr_mainline_report w], do_notes = setup_notes p pm\<rparr>)"

section \<open>The printed report\<close>

definition or_text :: "string option \<Rightarrow> string \<Rightarrow> string" where
  "or_text v default_text = (case v of Some s \<Rightarrow> s | None \<Rightarrow> default_text)"

fun format_config_line :: "config_report \<Rightarrow> string" where
  "format_config_line c =
     (case cr_status c of
        Config_Ready \<Rightarrow> ''config: ready at '' @ or_text (cr_path c) ''unknown'' @ '' (name: '' @
          or_text (cr_saved_name c) ''not set'' @ '', node id: '' @ (if cr_node_id_present c then ''present'' else ''not generated'') @ '')''
      | Config_Missing \<Rightarrow> ''config: missing; peerline will create '' @ or_text (cr_path c) ''a user config file'' @ '' when needed''
      | Config_Error \<Rightarrow> ''config: error at '' @ or_text (cr_path c) ''unknown'' @ '' ('' @
          or_text (cr_error c) ''could not read config'' @ '')'')"

definition spaces :: "nat \<Rightarrow> string" where
  "spaces n = replicate n CHR '' ''"

definition plan_lines :: "install_plan \<Rightarrow> string list" where
  "plan_lines p = (spaces 12 @ ''fix: '' @ ip_summary p) # map (\<lambda>c. spaces 17 @ ic_display c) (ip_commands p) @
     map (\<lambda>n. spaces 17 @ ''note: '' @ n) (ip_notes p)"

definition dependency_lines :: "dependency_report \<Rightarrow> string list" where
  "dependency_lines d =
     (let status = status_label (dr_status d) in
      [''  ['' @ status @ spaces (7 - length status) @ ''] '' @ dr_label d @ '' - '' @ dr_detail d] @
      (case dr_version d of Some v \<Rightarrow> [spaces 12 @ ''version: '' @ v] | None \<Rightarrow> []) @
      (case dr_command_path d of Some p \<Rightarrow> [spaces 12 @ ''path: '' @ p] | None \<Rightarrow> []) @
      (case dr_install d of Some p \<Rightarrow> plan_lines p | None \<Rightarrow> []))"

definition note_lines :: "string list \<Rightarrow> string list" where
  "note_lines notes = (if notes = [] then [] else [] # ''notes:'' # map (\<lambda>n. ''  - '' @ n) notes)"

definition render_human_report :: "machine \<Rightarrow> doctor_report \<Rightarrow> string" where
  "render_human_report w r =
     join_with nl
       ([''peerline doctor'', ''platform: '' @ platform_label (mc_os w) (do_os r) @ '' '' @ do_arch r,
         (case do_package_manager r of
            Some m \<Rightarrow> ''package manager: '' @ manager_label (pm_kind m) @ '' ('' @ pm_path m @ '')''
          | None \<Rightarrow> ''package manager: not detected''),
         format_config_line (do_config r), [], ''dependencies:''] @
        concat (map dependency_lines (do_dependencies r)) @
        note_lines (do_notes r) @
        (let n = length (actionable_dependencies r) in
         if n = 0 then [] else [[], ''next: run `peerline setup` to resolve '' @ dec_str n @ '' item(s)'']))"

section \<open>What a shell reads\<close>

text \<open>
  How a POSIX shell splits the texts shown: quotes take everything, a backslash the next character,
  blanks end a word; any other character that could mean something is refused.
\<close>

definition word_so_far :: "string option \<Rightarrow> string" where
  "word_so_far w = (case w of None \<Rightarrow> [] | Some x \<Rightarrow> x)"

fun read_words :: "bool \<Rightarrow> string option \<Rightarrow> string \<Rightarrow> string list option" where
  "read_words quoted w [] = (if quoted then None else Some (case w of None \<Rightarrow> [] | Some x \<Rightarrow> [x]))"
| "read_words quoted w (c # s) =
     (if quoted then if c = quote then read_words False w s else read_words True (Some (word_so_far w @ [c])) s
      else if c = CHR '' '' then
        (case w of None \<Rightarrow> read_words False None s | Some x \<Rightarrow> map_option ((#) x) (read_words False None s))
      else if c = quote then read_words True (Some (word_so_far w)) s
      else if c = backslash then
        (case s of [] \<Rightarrow> None | d # r \<Rightarrow> read_words False (Some (word_so_far w @ [d])) r)
      else if plain_char c then read_words False (Some (word_so_far w @ [c])) s
      else None)"

definition shell_words :: "string \<Rightarrow> string list option" where
  "shell_words s = read_words False None s"

lemma word_so_far_simps [simp]: "word_so_far None = []" "word_so_far (Some x) = x"
  by (simp_all add: word_so_far_def)

lemma special_chars [simp]: "backslash \<noteq> quote" "quote \<noteq> backslash" "\<not> plain_char quote" "\<not> plain_char backslash"
  "\<not> plain_char CHR '' ''" "quote \<noteq> CHR '' ''" "backslash \<noteq> CHR '' ''"
  unfolding quote_def backslash_def plain_char_def is_alnum_def is_lower_def is_upper_def is_digit_def code_def
  by code_simp+

lemma plain_char_not_special: "plain_char c \<Longrightarrow> c \<noteq> quote \<and> c \<noteq> backslash \<and> c \<noteq> CHR '' ''"
  using special_chars by blast

lemma read_plain: "list_all plain_char s \<Longrightarrow> s \<noteq> [] \<Longrightarrow> read_words False w (s @ r) = read_words False (Some (word_so_far w @ s)) r"
proof (induction s arbitrary: w)
  case (Cons c s)
  then show ?case using plain_char_not_special [of c] by (cases s) simp_all
qed simp

lemma read_quoted:
  "read_words True (Some x) (concat (map (\<lambda>c. if c = quote then [quote, backslash, quote, quote] else [c]) s) @ [quote] @ r) =
   read_words False (Some (x @ s)) r"
  by (induction s arbitrary: x) simp_all

lemma read_shell_quote: "s \<noteq> [] \<Longrightarrow> read_words False None (shell_quote s @ r) = read_words False (Some s) r"
  using read_plain [of s None r] read_quoted [of "[]" s r] by (simp add: shell_quote_def)

lemma read_rest: "\<forall>s \<in> set ss. s \<noteq> [] \<Longrightarrow>
  read_words False (Some x) (concat (map (\<lambda>y. '' '' @ y) (map shell_quote ss))) = Some (x # ss)"
  by (induction ss arbitrary: x) (simp_all add: read_shell_quote)

lemma shell_words_display:
  assumes "program \<noteq> []" and "\<forall>s \<in> set args. s \<noteq> []"
  shows "shell_words (shell_display program args) = Some (program # args)"
  by (simp only: shell_words_def shell_display_def join_with_def list.map list.case
      read_shell_quote [OF assms(1)] read_rest [OF assms(2)])

text \<open>An empty argument is lost when it is shown.\<close>

lemma empty_argument_not_shown: "shell_words (shell_display ''tor'' [[]]) = Some [''tor'']"
  by code_simp

section \<open>Every problem has a plan\<close>

lemma plan_sel [simp]: "ip_commands (plan summary cs notes) = cs"
  by (simp add: plan_def)

lemma executable_sel [simp]: "ic_program (executable p as) = Some p" "ic_args (executable p as) = as"
  "ic_display (executable p as) = shell_display p as"
  by (simp_all add: executable_def)

lemma manual_sel [simp]: "ic_program (manual d) = None" "ic_display (manual d) = d"
  by (simp_all add: manual_def)

lemma manual_plans: "ip_commands (manual_tor_install_plan p) \<noteq> []" "ip_commands (manual_i2p_install_plan p) \<noteq> []"
  "c \<in> set (ip_commands (manual_tor_install_plan p)) \<Longrightarrow> ic_program c = None"
  "c \<in> set (ip_commands (manual_i2p_install_plan p)) \<Longrightarrow> ic_program c = None"
  by (cases p; force)+

lemma tor_commands_form: "c \<in> set (tor_commands w k) \<Longrightarrow>
  (\<exists>as. (\<forall>s \<in> set as. s \<noteq> []) \<and> (c = privileged_command w (manager_command k) as \<or> c = executable (manager_command k) as))"
  by (cases k) force+

lemma commands_nonempty: "tor_commands w k \<noteq> []" "i2p_commands k \<noteq> []"
  by (cases k; simp)+

lemma tor_plan_commands: "tor_install_plan w p pm = Some pl \<Longrightarrow> ip_commands pl \<noteq> [] \<and>
  (\<forall>c \<in> set (ip_commands pl). ic_program c \<noteq> None \<longrightarrow> (\<exists>m. pm = Some m \<and> c \<in> set (tor_commands w (pm_kind m))))"
  by (auto simp: tor_install_plan_def manual_plans commands_nonempty split: option.splits)

lemma i2p_plan_commands: "i2p_install_plan p pm = Some pl \<Longrightarrow> ip_commands pl \<noteq> [] \<and>
  (\<forall>c \<in> set (ip_commands pl). ic_program c = None)"
  by (auto simp: i2p_install_plan_def manual_plans commands_nonempty split: option.splits)

lemma plans_made: "tor_install_plan w p pm \<noteq> None" "i2p_install_plan p pm \<noteq> None"
  by (simp_all add: tor_install_plan_def i2p_install_plan_def split: option.splits)

lemma tor_report_sel:
  "dr_key (tor_report w p pm) = ''tor''"
  "dr_install (tor_report w p pm) = (if needs_action (tor_report w p pm) then tor_install_plan w p pm else None)"
  by (auto simp: tor_report_def Let_def needs_action_def split: option.splits sum.splits)

lemma i2p_report_sel:
  "dr_key (i2p_report w p pm) = ''i2p''"
  "dr_install (i2p_report w p pm) = (if needs_action (i2p_report w p pm) then i2p_install_plan p pm else None)"
  by (auto simp: i2p_report_def Let_def needs_action_def)

lemma pkarr_report_sel: "dr_install (pkarr_mainline_report w) = None" "\<not> needs_action (pkarr_mainline_report w)"
  "dr_key (pkarr_mainline_report w) = ''pkarr_mainline''"
  by (simp_all add: pkarr_mainline_report_def needs_action_def Let_def)

text \<open>The commands of the package manager that was detected, with \<open>sudo\<close> before them where there is one.\<close>

definition manager_run :: "package_manager_report \<Rightarrow> string list \<Rightarrow> bool" where
  "manager_run m ws \<longleftrightarrow>
     (\<exists>as. ws = manager_command (pm_kind m) # as \<or> ws = ''sudo'' # manager_command (pm_kind m) # as)"

lemma tor_command_run:
  assumes "c \<in> set (tor_commands w k)"
  shows "\<exists>program. ic_program c = Some program \<and> shell_words (ic_display c) = Some (program # ic_args c) \<and>
    (\<exists>as. program # ic_args c = manager_command k # as \<or> program # ic_args c = ''sudo'' # manager_command k # as)"
proof -
  obtain as where as: "\<forall>s \<in> set as. s \<noteq> []"
      "c = privileged_command w (manager_command k) as \<or> c = executable (manager_command k) as"
    using tor_commands_form [OF assms] by blast
  have "privileged_command w (manager_command k) as = executable ''sudo'' (manager_command k # as) \<or>
      privileged_command w (manager_command k) as = executable (manager_command k) as"
    by (cases "command_path w ''sudo'' = None") (simp_all add: privileged_command_def)
  with as(2) have "c = executable ''sudo'' (manager_command k # as) \<or> c = executable (manager_command k) as" by blast
  moreover have "manager_command k \<noteq> []" by (cases k) simp_all
  ultimately show ?thesis
    using shell_words_display [of "''sudo''" "manager_command k # as"] shell_words_display [of "manager_command k" as] as(1) by auto
qed

text \<open>
  The doctor offers a plan, with at least one command, for exactly the dependencies that need
  action, and what it offers to run is honest: the shell reads the shown text as the
  program and arguments that would be run, and these are the detected package manager's, called directly or through
  \<open>sudo\<close>, for Tor only. Nothing about I2P is ever run.
\<close>

theorem doctor_plans_every_problem:
  assumes "d \<in> set (do_dependencies (collect_report w))"
  shows "(needs_action d \<longleftrightarrow> dr_install d \<noteq> None) \<and>
    (\<forall>pl. dr_install d = Some pl \<longrightarrow> ip_commands pl \<noteq> [] \<and>
      (\<forall>c \<in> set (ip_commands pl). \<forall>program. ic_program c = Some program \<longrightarrow>
         dr_key d = ''tor'' \<and> shell_words (ic_display c) = Some (program # ic_args c) \<and>
         (\<exists>m. do_package_manager (collect_report w) = Some m \<and> manager_run m (program # ic_args c))))"
proof -
  let ?p = "current_platform (mc_os w)" let ?pm = "detect_package_manager w ?p"
  have pm: "do_package_manager (collect_report w) = ?pm" by (simp add: collect_report_def Let_def)
  consider "d = tor_report w ?p ?pm" | "d = i2p_report w ?p ?pm" | "d = pkarr_mainline_report w"
    using assms by (auto simp: collect_report_def Let_def)
  then show ?thesis
  proof cases
    case 1
    show ?thesis unfolding pm
    proof (intro conjI allI impI ballI)
      show "needs_action d \<longleftrightarrow> dr_install d \<noteq> None" by (simp add: 1 tor_report_sel plans_made del: not_None_eq)
    next
      fix pl assume "dr_install d = Some pl"
      then have pl: "tor_install_plan w ?p ?pm = Some pl" by (auto simp: 1 tor_report_sel split: if_splits)
      then show "ip_commands pl \<noteq> []" by (simp add: tor_plan_commands)
      fix c program assume c: "c \<in> set (ip_commands pl)" "ic_program c = Some program"
      then obtain m where m: "?pm = Some m" "c \<in> set (tor_commands w (pm_kind m))" using tor_plan_commands [OF pl] by auto
      with tor_command_run [OF m(2)] c(2) show "shell_words (ic_display c) = Some (program # ic_args c)"
        and "\<exists>m. ?pm = Some m \<and> manager_run m (program # ic_args c)"
        by (auto simp: manager_run_def)
    qed (simp add: 1 tor_report_sel)
  next
    case 2
    then show ?thesis using i2p_plan_commands [of ?p ?pm] plans_made(2) [of ?p ?pm]
      by (auto simp: i2p_report_sel split: if_splits)
  next
    case 3
    then show ?thesis by (simp add: pkarr_report_sel)
  qed
qed

definition sample_machine :: machine where
  "sample_machine = \<lparr>mc_os = ''linux'', mc_arch = ''x86_64'',
     mc_env = (\<lambda>n. if n = ''PATH'' then Some ''/bin'' else if n = ''PEERLINE_DISABLE_TOR'' then Some ''0'' else None),
     mc_is_file = (\<lambda>p. p = ''/bin/apt-get''), mc_run = (\<lambda>_. Run_TimedOut), mc_bridge = (\<lambda>_. Some None),
     mc_config = Inl ''no home'', mc_from_toml = (\<lambda>_. None), mc_config_error = (\<lambda>_. []), mc_fs = []\<rparr>"

lemma sample_paths:
  "command_path sample_machine ''apt-get'' = Some ''/bin/apt-get''" "command_path sample_machine ''tor'' = None"
  "command_path sample_machine ''sudo'' = None"
  by (simp_all add: command_path_def sample_machine_def command_candidates_def path_join_def is_absolute_def starts_with_def
      ends_with_def)

lemma tor_missing: "command_path w ''tor'' = None \<Longrightarrow> needs_action (tor_report w p pm)"
  by (simp add: needs_action_def tor_report_def Let_def)

lemma doctor_plans_every_problem_witness:
  "\<exists>pl. dr_install (hd (do_dependencies (collect_report sample_machine))) = Some pl \<and> ip_commands pl \<noteq> []"
proof -
  have "hd (do_dependencies (collect_report sample_machine)) \<in> set (do_dependencies (collect_report sample_machine))"
    by (simp add: collect_report_def Let_def)
  moreover have "needs_action (hd (do_dependencies (collect_report sample_machine)))"
    by (simp add: collect_report_def Let_def tor_missing [OF sample_paths(2)])
  ultimately show ?thesis using doctor_plans_every_problem by blast
qed

section \<open>The report and what a transfer does\<close>

lemma trim_end_starts:
  assumes "starts_with p (trim_line_end l)"
  shows "starts_with p l"
proof -
  have "l = trim_line_end l @ rev (takeWhile (\<lambda>c. code c = 13 \<or> code c = 10) (rev l))"
    unfolding trim_line_end_def by (metis rev_append rev_rev_ident takeWhile_dropWhile_id)
  moreover have "length p \<le> length (trim_line_end l)"
    using assms unfolding starts_with_def by (metis length_take min.absorb_iff2 min.commute)
  ultimately show ?thesis
    using assms unfolding starts_with_def by (metis append_Nil2 diff_is_0_eq take0 take_append)
qed

lemma contains_trimmed: "contains_sub p (trim_line_end l) \<Longrightarrow> contains_sub p l"
proof -
  assume "contains_sub p (trim_line_end l)"
  then obtain a b where "trim_line_end l = a @ p @ b" by (auto simp: contains_sub_iff)
  moreover have "l = trim_line_end l @ rev (takeWhile (\<lambda>c. code c = 13 \<or> code c = 10) (rev l))"
    unfolding trim_line_end_def by (metis rev_append rev_rev_ident takeWhile_dropWhile_id)
  ultimately show ?thesis unfolding contains_sub_iff by (metis append_assoc)
qed

lemma split_ws_parts: "split_ws p s \<noteq> [] \<and> prefix (hd (split_ws p s)) s \<and> (\<forall>t \<in> set (split_ws p s). sublist t s)"
proof (induction p s rule: split_ws.induct)
  case (1 p s)
  show ?case
  proof (cases s)
    case Nil
    then show ?thesis by (subst (1 2 3) split_ws.simps) simp
  next
    case (Cons c r)
    let ?n = "ws_len (map code s)"
    have tail: "sublist t s" if "sublist t (drop k s)" for t k
      using that by (metis append_take_drop_id sublist_append sublist_appendI sublist_order.order_trans sublist_append_leftI)
    consider "p c" | "\<not> p c" "0 < ?n" | "\<not> p c" "?n = 0" by blast
    then show ?thesis
    proof cases
      case 1
      then have "split_ws p s = [] # split_ws p r" by (subst split_ws.simps) (simp add: Cons Let_def)
      then show ?thesis using "1.IH"(1) [OF Cons refl 1] tail [of _ 1] Cons by simp
    next
      case 2
      then have "split_ws p s = [] # split_ws p (drop ?n s)" by (subst split_ws.simps) (simp add: Cons Let_def)
      then show ?thesis using "1.IH"(2) [OF Cons refl 2] tail [of _ ?n] by simp
    next
      case 3
      obtain x xs where x: "split_ws p r = x # xs" "prefix x r" "\<forall>t \<in> set (x # xs). sublist t r"
        using "1.IH"(3) [OF Cons refl 3(1)] 3(2) by (cases "split_ws p r") auto
      then have "split_ws p s = (c # x) # xs" using 3 by (subst split_ws.simps) (simp add: Cons Let_def)
      then show ?thesis using x tail [of _ 1] Cons by (auto intro: prefix_imp_sublist)
    qed
  qed
qed

lemma sublist_contains: "sublist t s \<Longrightarrow> contains_sub t s"
  by (auto simp: sublist_def contains_sub_iff)

lemma sam_ok_contains:
  assumes "sam_field (parse_sam_fields l) ''RESULT'' = Some ''OK''"
  shows "contains_sub ''RESULT=OK'' l"
proof -
  have "(''RESULT'', ''OK'') \<in> set (parse_sam_fields l)" using assms by (simp add: sam_field_def map_of_SomeD)
  then obtain t where t: "t \<in> set (split_whitespace l)" "split_once (CHR ''='') t = Some (''RESULT'', ''OK'')"
    by (auto simp: parse_sam_fields_def List.map_filter_def)
  then have e: "CHR ''='' \<in> set t" "takeWhile (\<lambda>x. x \<noteq> CHR ''='') t = ''RESULT''"
      "tl (dropWhile (\<lambda>x. x \<noteq> CHR ''='') t) = ''OK''"
    by (auto simp: split_once_def split: if_splits)
  obtain y ys where d: "dropWhile (\<lambda>x. x \<noteq> CHR ''='') t = y # ys"
    using e(1) by (cases "dropWhile (\<lambda>x. x \<noteq> CHR ''='') t") auto
  then have "y = CHR ''=''" using hd_dropWhile [of "\<lambda>x. x \<noteq> CHR ''=''" t] by simp
  with d e(3) have "dropWhile (\<lambda>x. x \<noteq> CHR ''='') t = CHR ''='' # ''OK''" by simp
  with e(2) have "t = ''RESULT=OK''" using takeWhile_dropWhile_id [of "\<lambda>x. x \<noteq> CHR ''=''" t] by simp
  moreover have "t \<in> set (split_ws (\<lambda>_. False) l)" using t(1) by (simp add: split_whitespace_def)
  ultimately show ?thesis using split_ws_parts [of "\<lambda>_. False" l] sublist_contains by blast
qed

lemma command_ok_accepts:
  assumes "is_ok (snd (command_ok command expected s))" and "take_line (sc_input s) = (line, rest)"
  shows "utf8_valid (map unat line) \<and> starts_with expected (trim_line_end (bytes_str line)) \<and>
    sam_field (parse_sam_fields (trim_line_end (bytes_str line))) ''RESULT'' = Some ''OK''"
  using assms
  by (simp add: command_ok_def sam_bind_def sam_write_all_def sam_read_line_def sam_fail_def Let_def
      split: if_splits del: map_map)

lemma client_answer_probed:
  assumes "i2p_sam_available (mc_bridge w a)"
  shows "probe_i2p_sam w a"
proof -
  obtain input where i: "mc_bridge w a = Some (Some input)"
    using assms by (auto simp: i2p_sam_available_def sam_connect_def split: option.splits)
  obtain line rest where l: "take_line input = (line, rest)" by fastforce
  have "is_ok (snd (sam_hello \<lparr>sc_input = input, sc_output = [], sc_taken = False\<rparr>))"
    using assms i by (simp add: i2p_sam_available_def sam_connect_def)
  from command_ok_accepts [OF this [unfolded sam_hello_def]] l
  have "utf8_valid (map unat line)" "starts_with ''HELLO REPLY'' (trim_line_end (bytes_str line))"
      "sam_field (parse_sam_fields (trim_line_end (bytes_str line))) ''RESULT'' = Some ''OK''"
    by (simp_all del: map_map)
  then show ?thesis
    by (simp add: probe_i2p_sam_def i l trim_end_starts contains_trimmed [OF sam_ok_contains] del: map_map)
qed

text \<open>
  The doctor looks where the discovery defaults look: at the bridge they name, and a bridge that the
  client of the bridge accepts is never reported as missing; a transport that the defaults leave off is
  reported as switched off.
\<close>

theorem doctor_finds_what_transfers_use:
  assumes "cv_env cv = env_text w"
  shows "i2p_sam_addr_from_env w = dc_i2p_sam (default_discovery_config cv) \<and>
    (i2p_sam_available (mc_bridge w (dc_i2p_sam (default_discovery_config cv))) \<longrightarrow> dr_status (i2p_report w p pm) = Dep_Ok) \<and>
    (\<not> dc_enable_tor (default_discovery_config cv) \<longrightarrow> env_present w ''PEERLINE_DISABLE_TOR'') \<and>
    (\<not> dc_enable_i2p (default_discovery_config cv) \<longrightarrow> env_present w ''PEERLINE_DISABLE_I2P'')"
proof -
  have a: "i2p_sam_addr_from_env w = dc_i2p_sam (default_discovery_config cv)"
    by (simp add: i2p_sam_addr_from_env_def default_discovery_config_def Let_def assms split: option.splits)
  moreover have "env_flag (env_text w) n \<Longrightarrow> env_present w n" for n
    by (cases "mc_env w n") (simp_all add: env_flag_def env_present_def env_text_def)
  ultimately show ?thesis
    using client_answer_probed [of w "i2p_sam_addr_from_env w"]
    by (simp add: default_discovery_config_def i2p_report_def Let_def assms)
qed

text \<open>
  The converse fails: a switch set to \<open>0\<close> leaves Tor on for transfers, and the doctor reports that
  the variable disables it.
\<close>

theorem doctor_misreads_switch:
  assumes "cv_env cv = env_text w" and "mc_env w ''PEERLINE_DISABLE_TOR'' = Some ''0''" and "command_path w ''tor'' = None"
  shows "dc_enable_tor (default_discovery_config cv) \<and>
    dr_detail (tor_report w p pm) = ''tor command is missing; Tor routes are disabled by PEERLINE_DISABLE_TOR''"
proof -
  have "\<not> env_flag (env_text w) ''PEERLINE_DISABLE_TOR''"
    using assms(2) by (simp add: env_flag_def env_text_def to_str_def code_def to_lower_def lower_char_def is_upper_def)
  then show ?thesis
    using assms(2,3) by (simp add: default_discovery_config_def Let_def assms(1) tor_report_def env_present_def)
qed

text \<open>An answer that is no success for the client of the bridge is one for the doctor.\<close>

theorem probe_accepts_refused:
  assumes "mc_bridge w a = Some (Some (str_bytes ''HELLO REPLY RESULT=OKAY''))"
  shows "probe_i2p_sam w a \<and> \<not> i2p_sam_available (mc_bridge w a)"
proof -
  let ?i = "str_bytes ''HELLO REPLY RESULT=OKAY''"
  have "take_line ?i = (?i, [])" "utf8_valid (map unat ?i)" by code_simp+
  moreover have "bytes_str ?i = ''HELLO REPLY RESULT=OKAY''" by simp
  ultimately have "utf8_valid (map unat (fst (take_line ?i))) \<and> starts_with ''HELLO REPLY'' (bytes_str (fst (take_line ?i))) \<and>
      contains_sub ''RESULT=OK'' (bytes_str (fst (take_line ?i)))" by (simp add: starts_with_def del: map_map)
  moreover have "\<not> is_ok (snd (sam_connect (Some ?i)))" by code_simp
  ultimately show ?thesis by (simp add: assms probe_i2p_sam_def i2p_sam_available_def Let_def del: map_map)
qed

section \<open>Versions and the printed report\<close>

lemma strip_cr_set: "set (strip_cr l) \<subseteq> set l"
  by (auto simp: strip_cr_def dest: in_set_butlastD)

lemma str_lines_no_lf:
  assumes "l \<in> set (str_lines s)" and "c \<in> set l"
  shows "code c \<noteq> 10"
proof -
  let ?ps = "split_on (\<lambda>c. code c = 10) s"
  have l: "last ?ps \<in> set ?ps" by (rule last_in_set) simp
  from assms(1) consider q where "q \<in> set (butlast ?ps)" "l = strip_cr q" | "l = last ?ps"
    by (auto simp: str_lines_def Let_def split: if_splits)
  then obtain q where "q \<in> set ?ps" "set l \<subseteq> set q"
    by cases (use l strip_cr_set in \<open>blast dest: in_set_butlastD\<close>)+
  with assms(2) show ?thesis using split_on_no_sep [of c q "\<lambda>c. code c = 10" s] by auto
qed

text \<open>
  A version, and the reason a command is broken, is one line that is not blank, whatever the
  command wrote; a command counts as installed only if it exited with success.
\<close>

theorem version_is_one_line:
  assumes "command_version w p = Inr v"
  shows "v \<noteq> []" and "\<forall>c \<in> set v. code c \<noteq> 10" and "\<exists>out err. mc_run w p = Run_Output True out err"
proof -
  obtain out err where run: "mc_run w p = Run_Output True out err"
      and v: "v = trim (case find (\<lambda>l. trim l \<noteq> []) (str_lines (version_text out err)) of
        Some l \<Rightarrow> l | None \<Rightarrow> ''version output unavailable'')"
    using assms by (auto simp: command_version_def Let_def split: version_run.splits if_splits)
  show "\<exists>out err. mc_run w p = Run_Output True out err" using run by blast
  have fixed: "trim ''version output unavailable'' = ''version output unavailable''" by code_simp
  show "\<forall>c \<in> set v. code c \<noteq> 10"
  proof (cases "find (\<lambda>l. trim l \<noteq> []) (str_lines (version_text out err))")
    case None
    then show ?thesis unfolding v by (simp add: fixed code_def)
  next
    case (Some l)
    then have "l \<in> set (str_lines (version_text out err))" by (auto simp: find_Some_iff)
    with Some show ?thesis using str_lines_no_lf set_trim [of l] by (auto simp: v)
  qed
  show "v \<noteq> []"
  proof (cases "find (\<lambda>l. trim l \<noteq> []) (str_lines (version_text out err))")
    case None
    then show ?thesis unfolding v by (simp add: fixed)
  next
    case (Some l)
    then have "trim l \<noteq> []" by (auto simp: find_Some_iff)
    with Some show ?thesis unfolding v by simp
  qed
qed

lemma contains_join: "x \<in> set xs \<Longrightarrow> contains_sub x (join_with sep xs)"
proof -
  assume "x \<in> set xs"
  then obtain ys zs where xs: "xs = ys @ x # zs" by (auto simp: in_set_conv_decomp)
  have "join_with sep xs = (case ys of [] \<Rightarrow> [] | y # r \<Rightarrow> y @ concat (map ((@) sep) r) @ sep) @ x @ concat (map ((@) sep) zs)"
    by (cases ys) (simp_all add: xs join_with_def)
  then show ?thesis unfolding contains_sub_iff by blast
qed

lemma contains_sub_trans: "contains_sub a b \<Longrightarrow> contains_sub b c \<Longrightarrow> contains_sub a c"
  unfolding contains_sub_iff by (metis append_assoc)

text \<open>The report shows every command of every plan, and says how many dependencies need action.\<close>

theorem report_shows_every_fix:
  assumes "d \<in> set (do_dependencies r)" and "dr_install d = Some pl" and "c \<in> set (ip_commands pl)"
  shows "contains_sub (ic_display c) (render_human_report w r)"
proof -
  have "spaces 17 @ ic_display c \<in> set (dependency_lines d)"
    using assms(2,3) by (auto simp: dependency_lines_def plan_lines_def Let_def)
  with assms(1) have "contains_sub (spaces 17 @ ic_display c) (render_human_report w r)"
    unfolding render_human_report_def by (intro contains_join) auto
  moreover have "contains_sub (ic_display c) (spaces 17 @ ic_display c)"
    unfolding contains_sub_iff by (metis append_Nil2)
  ultimately show ?thesis by (rule contains_sub_trans [rotated])
qed

section \<open>The theorems at work\<close>

definition doctor_env :: "machine \<Rightarrow> unit config_env" where
  "doctor_env w = \<lparr>cv_codec = bare_codec, cv_ice_json = \<lambda>_. None, cv_mac = \<lambda>_ _. [], cv_now_secs = 0,
     cv_rendezvous = disabled_config, cv_env = env_text w\<rparr>"

lemma doctor_finds_what_transfers_use_witness:
  "i2p_sam_addr_from_env sample_machine = dc_i2p_sam (default_discovery_config (doctor_env sample_machine))"
  using doctor_finds_what_transfers_use [of "doctor_env sample_machine" sample_machine] by (simp add: doctor_env_def)

lemma doctor_misreads_switch_witness:
  "dc_enable_tor (default_discovery_config (doctor_env sample_machine)) \<and>
   dr_detail (tor_report sample_machine Linux None) = ''tor command is missing; Tor routes are disabled by PEERLINE_DISABLE_TOR''"
proof (rule doctor_misreads_switch)
  show "command_path sample_machine ''tor'' = None" by (rule sample_paths)
qed (simp_all add: doctor_env_def sample_machine_def)

lemma version_is_one_line_witness:
  "command_version (sample_machine\<lparr>mc_run := \<lambda>_. Run_Output True (str_bytes ''Tor 0.4'') []\<rparr>) ''tor'' = Inr ''Tor 0.4''
   \<and> ''Tor 0.4'' \<noteq> []"
proof -
  have run: "command_version (sample_machine\<lparr>mc_run := \<lambda>_. Run_Output True (str_bytes ''Tor 0.4'') []\<rparr>) ''tor'' = Inr ''Tor 0.4''"
  proof -
    have "str_lines (version_text (str_bytes ''Tor 0.4'') []) = [''Tor 0.4'']" by code_simp
    moreover have "trim ''Tor 0.4'' = ''Tor 0.4''" by code_simp
    ultimately show ?thesis by (simp add: command_version_def Let_def)
  qed
  from version_is_one_line(1) [OF run] run show ?thesis by simp
qed

lemma report_shows_every_fix_witness:
  "contains_sub ''apk add tor'' (render_human_report sample_machine (collect_report sample_machine
     \<lparr>do_dependencies := [(pkarr_mainline_report sample_machine)\<lparr>dr_install := Some (plan [] [manual ''apk add tor''] [])\<rparr>]\<rparr>))"
  using report_shows_every_fix [of "(pkarr_mainline_report sample_machine)\<lparr>dr_install := Some (plan [] [manual ''apk add tor''] [])\<rparr>"
      "collect_report sample_machine
     \<lparr>do_dependencies := [(pkarr_mainline_report sample_machine)\<lparr>dr_install := Some (plan [] [manual ''apk add tor''] [])\<rparr>]\<rparr>"
      "plan [] [manual ''apk add tor''] []" "manual ''apk add tor''" sample_machine] by simp

lemma probe_accepts_refused_witness:
  "let w = sample_machine\<lparr>mc_bridge := \<lambda>_. Some (Some (str_bytes ''HELLO REPLY RESULT=OKAY''))\<rparr> in
   probe_i2p_sam w (sock_new (V4 127 0 0 1) 7656)"
  by (simp add: Let_def probe_accepts_refused)

end
