(* ===== verification/Tui_Screen.thy ===== *)
theory Tui_Screen
  imports Tui_Dashboard
begin

text \<open>
  What the dashboard draws (\<open>draw\<close> and the functions below it in \<open>peerline-tui/src/dashboard.rs\<close>):
  the texts and styles handed to the terminal's widgets for the header, the table of transfers,
  the activity log and the footer. How the terminal library splits an area is a parameter. The
  lemmas say that the pairing code is shown in full and that what is cut fits its column.
\<close>

section \<open>Counting\<close>

definition active_transfer_count :: "dashboard \<Rightarrow> nat" where
  "active_transfer_count d = length (filter (\<lambda>r. \<not> ends_transfer (tr_stage r)) (da_transfers d))"

definition complete_transfer_count :: "dashboard \<Rightarrow> nat" where
  "complete_transfer_count d = length (filter (\<lambda>r. tr_stage r = Complete) (da_transfers d))"

definition failed_transfer_count :: "dashboard \<Rightarrow> nat" where
  "failed_transfer_count d = length (filter (\<lambda>r. is_failed (tr_stage r)) (da_transfers d))"

section \<open>The header\<close>

definition title :: "dashboard \<Rightarrow> string" where
  "title d = (case da_kind d of Dash_Recv _ _ _ \<Rightarrow> ''Peerline receive'' | Dash_Send _ _ _ \<Rightarrow> ''Peerline send'')"

definition summary_line :: "dashboard \<Rightarrow> nat \<Rightarrow> text_line" where
  "summary_line d width =
     [(fg Gray, truncate_end (''transfers '' @ dec_str (length (da_transfers d)) @ '' | active '' @
        dec_str (active_transfer_count d) @ '' | done '' @ dec_str (complete_transfer_count d) @ '' | failed '' @
        dec_str (failed_transfer_count d)) (width - 2))]"

definition identity_line :: "dashboard \<Rightarrow> nat \<Rightarrow> text_line" where
  "identity_line d width =
     (let content_width = width - 2 in
      case da_kind d of
        Dash_Recv name _ bind \<Rightarrow>
          [label_span ''name'', (bold plain_style, truncate_middle name (field_width content_width 28)),
           (plain_style, ''  ''), label_span ''listen'',
           (fg Cyan, truncate_middle bind (field_width content_width 24))]
      | Dash_Send target_label target _ \<Rightarrow>
          [label_span target_label, (bold plain_style, truncate_middle target (field_width content_width 36))])"

fun kind_code :: "dashboard_kind \<Rightarrow> string" where
  "kind_code (Dash_Recv name c bind) = c"
| "kind_code (Dash_Send target_label target c) = c"

definition code_line :: "dashboard \<Rightarrow> text_line" where
  "code_line d = [label_span ''code'', (fg Yellow, kind_code (da_kind d))]"

definition state_line :: "dashboard \<Rightarrow> nat \<Rightarrow> text_line" where
  "state_line d width =
     (let stage = stage_label (da_stage d);
          status = (if da_status d = stage then [] else '' | '' @ da_status d);
          prefix_width = 8 + char_count stage;
          status_width = max (width - prefix_width) 1 in
      [label_span ''state'', (stage_style (da_stage d), stage), (fg White, truncate_end status status_width)])"

section \<open>Panels\<close>

text \<open>A panel's text, lines, or a table with its header, its rows and the widths of its columns.\<close>

datatype body = Body_Note style string | Body_Lines "text_line list"
  | Body_Table "string list" "(style \<times> string list) list" "nat list"

definition draw_header :: "dashboard \<Rightarrow> rect \<Rightarrow> string \<times> body" where
  "draw_header d area = (title d, Body_Lines
     [summary_line d (rc_width area), identity_line d (rc_width area), code_line d, state_line d (rc_width area)])"

definition transfer_style :: "transfer_stage \<Rightarrow> bool \<Rightarrow> style" where
  "transfer_style stage active = (if active then bold (stage_style stage) else stage_style stage)"

definition peer_width :: "nat \<Rightarrow> nat" where
  "peer_width inner_width = (if 96 \<le> inner_width then 24 else 18)"

definition status_width :: "nat \<Rightarrow> nat" where
  "status_width inner_width = max (inner_width - (peer_width inner_width + 5 + 10 + 14 + 12 + 5)) 10"

definition transfer_cells :: "nat \<Rightarrow> transfer_row \<Rightarrow> string list" where
  "transfer_cells inner_width row =
     [truncate_middle (tr_peer row) (peer_width inner_width),
      dec_str (tr_files row),
      format_bytes (tr_bytes row),
      (case tr_progress row of None \<Rightarrow> ''0%'' | Some (done, of_all) \<Rightarrow> truncate_end (format_progress done of_all) 14),
      truncate_end (stage_label (tr_stage row)) 12,
      truncate_end (tr_status row) (status_width inner_width)]"

definition draw_transfers :: "dashboard \<Rightarrow> rect \<Rightarrow> string \<times> body" where
  "draw_transfers d area =
     (''Transfers'',
      if da_transfers d = [] then Body_Note (fg DarkGray) ''waiting for the first peer''
      else
        let inner_width = rc_width area - 2 in
        Body_Table [''peer'', ''files'', ''bytes'', ''progress'', ''stage'', ''status'']
          (map (\<lambda>row. (transfer_style (tr_stage row) (da_active_transfer d = Some (tr_id row)), transfer_cells inner_width row))
             (rev (da_transfers d)))
          [peer_width inner_width, 5, 10, 14, 12, 10])"

definition draw_logs :: "dashboard \<Rightarrow> rect \<Rightarrow> string \<times> body" where
  "draw_logs d area =
     (if da_log_scroll_top d = None then ''Activity'' else ''Activity (history)'',
      if da_logs d = [] then Body_Note (fg DarkGray) ''waiting for events''
      else Body_Lines (visible_activity_lines d area))"

definition draw_footer :: "dashboard \<Rightarrow> rect \<Rightarrow> text_line" where
  "draw_footer d area =
     (let retry = (if retry_available d then ''r retry  '' else []);
          controls = (if da_log_scroll_top d = None then retry @ ''quit  logs Up/Down PgUp/PgDn Home/End  ''
            else retry @ ''quit  logs Up/Down PgUp/PgDn Home/End  history  '');
          fixed_width = char_count ''q/Esc'' + char_count controls;
          summary = truncate_end (''transfers '' @ dec_str (length (da_transfers d)) @ ''  active '' @
            dec_str (active_transfer_count d) @ ''  done '' @ dec_str (complete_transfer_count d) @ ''  failed '' @
            dec_str (failed_transfer_count d) @ ''  logs '' @ dec_str (length (da_logs d))) (rc_width area - fixed_width) in
      [(bold (fg Yellow), ''q/Esc''), (fg Gray, controls), (fg DarkGray, summary)])"

datatype layout_constraint = Constraint_Length nat | Constraint_Min nat | Constraint_Ratio nat nat

record dashboard_areas =
  dl_header :: rect
  dl_transfers :: rect
  dl_logs :: rect
  dl_footer :: rect

definition dashboard_layout :: "(layout_constraint list \<Rightarrow> rect \<Rightarrow> rect list) \<Rightarrow> rect \<Rightarrow> dashboard_areas" where
  "dashboard_layout split area =
     (let chunks = split [Constraint_Length 6, Constraint_Min 8, Constraint_Length 1] area;
          body = split [Constraint_Ratio 6 11, Constraint_Ratio 5 11] (chunks ! 1) in
      \<lparr>dl_header = chunks ! 0, dl_transfers = body ! 0, dl_logs = body ! 1, dl_footer = chunks ! 2\<rparr>)"

definition draw :: "(layout_constraint list \<Rightarrow> rect \<Rightarrow> rect list) \<Rightarrow> dashboard \<Rightarrow> rect \<Rightarrow> (string \<times> body) list \<times> text_line" where
  "draw split d area =
     (let l = dashboard_layout split area in
      ([draw_header d (dl_header l), draw_transfers d (dl_transfers l), draw_logs d (dl_logs l)], draw_footer d (dl_footer l)))"

section \<open>What fits\<close>

lemma ascii_is_text: "\<forall>c \<in> set s. code c < 128 \<Longrightarrow> is_text s"
  by (cases s) (auto simp: is_text_def utf8_cont_def)

lemma is_text_append: "is_text s \<Longrightarrow> s \<noteq> [] \<Longrightarrow> is_text (s @ t)"
  by (cases s) (auto simp: is_text_def)

lemma dec_str_is_text: "is_text (dec_str n @ t)"
  by (intro is_text_append ascii_is_text) (auto dest: dec_str_ascii)

lemma format_progress_is_text: "is_text (format_progress done of_all)"
  by (auto simp: format_progress_def dec_str_is_text) (simp add: is_text_def utf8_cont_def code_def)

lemma stage_label_is_text: "is_text (stage_label s)"
proof (cases s)
  case (Connecting r)
  then show ?thesis by (simp add: is_text_def utf8_cont_def code_def)
qed (simp_all add: is_text_def utf8_cont_def code_def)

lemma transfer_counts:
  "active_transfer_count d + complete_transfer_count d + failed_transfer_count d = length (da_transfers d)"
proof -
  have "length (filter (\<lambda>r. \<not> ends_transfer (tr_stage r)) rs) + length (filter (\<lambda>r. tr_stage r = Complete) rs) +
      length (filter (\<lambda>r. is_failed (tr_stage r)) rs) = length rs" for rs
  proof (induction rs)
    case (Cons r rs)
    then show ?case by (cases "tr_stage r") (simp_all add: is_failed_def)
  qed simp
  then show ?thesis by (simp add: active_transfer_count_def complete_transfer_count_def failed_transfer_count_def)
qed

text \<open>
  The screen shows what it must and no more than fits: the pairing code is drawn in full behind
  its label, whatever the width; the rows counted as active, done and failed are all the rows; the
  cells of a row that may be long (peer, progress, stage, status) fit their columns for UTF-8 texts;
  and on a terminal wide enough the columns with their gaps fill the panel exactly.
\<close>

theorem screen_fits:
  assumes "is_text (tr_peer row)" "is_text (tr_status row)"
  shows "line_text (code_line d) = ''code    '' @ kind_code (da_kind d) \<and>
    active_transfer_count d + complete_transfer_count d + failed_transfer_count d = length (da_transfers d) \<and>
    (case transfer_cells w row of
       [peer, files, bytes, progress, stage, status] \<Rightarrow>
         char_count peer \<le> peer_width w \<and> char_count progress \<le> 14 \<and> char_count stage \<le> 12 \<and>
         char_count status \<le> status_width w
     | _ \<Rightarrow> False) \<and>
    (74 \<le> w \<longrightarrow> peer_width w + 5 + 10 + 14 + 12 + status_width w + 5 = w)"
proof -
  have "char_count ''code'' = 4" "char_count ''0%'' = 2" by (simp_all add: char_count_ascii code_def)
  then show ?thesis
    using assms transfer_counts [of d]
    by (auto simp: line_text_def code_line_def label_span_def pad_end_def transfer_cells_def truncate_middle_width
        truncate_end_width format_progress_is_text stage_label_is_text peer_width_def status_width_def numeral_eq_Suc
        split: option.splits)
qed

definition sample_row :: transfer_row where
  "sample_row = \<lparr>tr_id = TransferId [7], tr_peer = ''/ip4/203.0.113.7/udp/43117/quic-v1'', tr_files = 2, tr_bytes = 300,
     tr_progress = Some (200, 300), tr_stage = Transferring, tr_status = ''67% 200 B / 300 B'', tr_updated_at = 5\<rparr>"

lemma screen_fits_witness:
  "line_text (code_line sample_send) = ''code    rose-lime'' \<and>
   char_count (truncate_middle (tr_peer sample_row) (peer_width 80)) \<le> 18 \<and>
   peer_width 80 + 5 + 10 + 14 + 12 + status_width 80 + 5 = 80"
proof -
  have "is_text (tr_peer sample_row)" "is_text (tr_status sample_row)"
    by (simp_all add: sample_row_def is_text_def utf8_cont_def code_def)
  from screen_fits [OF this, of sample_send 80] show ?thesis
    by (simp add: transfer_cells_def sample_send_def new_send_def peer_width_def)
qed

end
