(* ===== verification/Cli_Setup.thy ===== *)
theory Cli_Setup
  imports Cli_Doctor Tui_Screen
begin

text \<open>
  The setup command (\<open>peerline-cli/src/main/setup\<close>: \<open>mod.rs\<close>, \<open>text.rs\<close>, \<open>install.rs\<close>, \<open>tui.rs\<close> and
  \<open>tui/app.rs\<close>): the printed plan, running the commands of a plan one confirmation at a time, and
  the interactive screen around them. What the user answers, what the launched commands end with and
  whether the terminal works are arguments. The lemmas show that nothing is run that was not
  confirmed, that a failure ends a plan, and that the screen's state stays bounded.
\<close>

section \<open>The printed plan\<close>

definition setup_plan_lines :: "dependency_report \<Rightarrow> string list" where
  "setup_plan_lines d =
     (''  - '' @ dr_label d @ '': '' @ dr_detail d) #
     (case dr_install d of
        None \<Rightarrow> []
      | Some p \<Rightarrow> (spaces 4 @ ip_summary p) # map (\<lambda>c. spaces 4 @ ic_display c) (ip_commands p) @
          map (\<lambda>n. spaces 4 @ ''note: '' @ n) (ip_notes p))"

definition render_setup_plan :: "doctor_report \<Rightarrow> string" where
  "render_setup_plan r =
     (let actionable = actionable_dependencies r in
      join_with nl
        (''peerline setup'' #
         (if actionable = [] then [''All checked dependencies look ready.'']
          else (dec_str (length actionable) @ '' item(s) need attention:'') # concat (map setup_plan_lines actionable)) @
         note_lines (do_notes r)))"

section \<open>Running a plan\<close>

text \<open>
  What is read from the user, and what a launched command ends with: whether with success, and the
  status as it is shown.
\<close>

datatype read_result = Read_Line string | Read_Error string

datatype launch_result = Launch_Failed string | Exited bool string

record command_reply =
  re_answer :: read_result
  re_launch :: launch_result

text \<open>What happens at the terminal: lines, a question with its answer, a command that ran with its success.\<close>

datatype setup_out = Line string | Asked string read_result | Ran_Command string "string list" bool

datatype install_outcome = Ran bool string | Manual_Only | Skipped

definition says_yes :: "string \<Rightarrow> bool" where
  "says_yes line \<longleftrightarrow> trim line \<in> {''y'', ''Y'', ''yes'', ''YES'', ''Yes''}"

definition confirm_command :: "install_command \<Rightarrow> read_result \<Rightarrow> setup_out list \<times> (string + bool)" where
  "confirm_command c answer =
     ([Asked (''Run `'' @ ic_display c @ ''` now? [y/N] '') answer],
      case answer of Read_Error e \<Rightarrow> Inl e | Read_Line l \<Rightarrow> Inr (says_yes l))"

definition run_install_command :: "install_command \<Rightarrow> command_reply \<Rightarrow> setup_out list \<times> (string + install_outcome)" where
  "run_install_command c reply =
     (case ic_program c of
        None \<Rightarrow> ([], Inr Manual_Only)
      | Some program \<Rightarrow>
          (case confirm_command c (re_answer reply) of
             (out, Inl e) \<Rightarrow> (out, Inl e)
           | (out, Inr False) \<Rightarrow> (out, Inr Skipped)
           | (out, Inr True) \<Rightarrow>
               (case re_launch reply of
                  Launch_Failed e \<Rightarrow> (out, Inl (''could not launch `'' @ ic_display c @ ''`: '' @ e))
                | Exited success status \<Rightarrow> (out @ [Ran_Command program (ic_args c) success], Inr (Ran success status)))))"

definition failure_hint :: "install_command \<Rightarrow> setup_out" where
  "failure_hint c = Line (''hint: '' @
     (if contains_sub ''choco '' (ic_display c) then
        ''Open an elevated PowerShell or Command Prompt, verify Chocolatey works with `choco -v`, then rerun `peerline setup`.''
      else if contains_sub ''brew '' (ic_display c) then
        ''Check Homebrew with `brew doctor`, make sure the network/repositories are reachable, then rerun `peerline setup`.''
      else if list_ex (\<lambda>m. contains_sub m (ic_display c)) [''apt-get '', ''dnf '', ''yum '', ''pacman '', ''zypper '', ''apk ''] then
        ''Check the package-manager output above for permissions, repository, lock, or network errors. Use the command for your Linux distro, then rerun `peerline setup`.''
      else
        ''Review the command output above, install the dependency manually if needed, then rerun `peerline setup`.''))"

text \<open>\<open>replies n\<close> is what the \<open>n\<close>-th command of the plan meets.\<close>

fun run_commands :: "string \<Rightarrow> (nat \<Rightarrow> command_reply) \<Rightarrow> bool \<Rightarrow> nat \<Rightarrow> install_command list \<Rightarrow> setup_out list \<times> (string + string)" where
  "run_commands label replies ran_any n [] =
     ([], Inr (label @ (if ran_any then '' install command completed'' else '' install instructions shown'')))"
| "run_commands label replies ran_any n (c # cs) =
     (let (out, r) = run_install_command c (replies n);
          head = [Line [], Line (''$ '' @ ic_display c)] @ out in
      case r of
        Inr (Ran success status) \<Rightarrow>
          if success then let (rest, result) = run_commands label replies True (Suc n) cs in (head @ rest, result)
          else
            (head @ [Line (''install step failed: `'' @ ic_display c @ ''` exited with '' @ status), failure_hint c],
             Inr (label @ '' install command failed: `'' @ ic_display c @ ''` exited with '' @ status))
      | Inr Manual_Only \<Rightarrow>
          let (rest, result) = run_commands label replies ran_any (Suc n) cs in
          (head @ Line ''manual command; run it in your shell, then rerun `peerline setup`'' # rest, result)
      | Inr Skipped \<Rightarrow>
          let (rest, result) = run_commands label replies ran_any (Suc n) cs in (head @ Line ''skipped'' # rest, result)
      | Inl e \<Rightarrow> (head @ [Line (''install step failed: '' @ e), failure_hint c], Inl e))"

definition run_install_plan :: "dependency_report \<Rightarrow> install_plan \<Rightarrow> (nat \<Rightarrow> command_reply) \<Rightarrow> setup_out list \<times> (string + string)" where
  "run_install_plan d p replies =
     (let (out, r) = run_commands (dr_label d) replies False 0 (ip_commands p) in
      ([Line (''peerline setup: '' @ dr_label d), Line (ip_summary p)] @ map (\<lambda>n. Line (''note: '' @ n)) (ip_notes p) @ out, r))"

section \<open>The state of the screen\<close>

definition max_setup_logs :: nat where "max_setup_logs = 32"

record setup_app =
  su_report :: doctor_report
  su_selected :: nat
  su_logs :: "string list"

fun drop_oldest :: "string list \<Rightarrow> string list" where
  "drop_oldest [] = []"
| "drop_oldest (l # ls) = (if max_setup_logs < length (l # ls) then drop_oldest ls else l # ls)"

definition setup_log :: "string \<Rightarrow> setup_app \<Rightarrow> setup_app" where
  "setup_log message a = a\<lparr>su_logs := drop_oldest (su_logs a @ [message])\<rparr>"

definition new_setup_app :: "doctor_report \<Rightarrow> setup_app" where
  "new_setup_app r = setup_log ''doctor snapshot loaded'' \<lparr>su_report = r, su_selected = 0, su_logs = []\<rparr>"

definition selected_dependency :: "setup_app \<Rightarrow> dependency_report option" where
  "selected_dependency a =
     (if su_selected a < length (do_dependencies (su_report a)) then Some (do_dependencies (su_report a) ! su_selected a) else None)"

definition installable_action_indices :: "setup_app \<Rightarrow> nat list" where
  "installable_action_indices a =
     map fst (filter (\<lambda>(i, d). needs_action d \<and> dr_install d \<noteq> None)
       (enumerate 0 (do_dependencies (su_report a))))"

definition set_selected :: "nat \<Rightarrow> setup_app \<Rightarrow> setup_app" where
  "set_selected i a = a\<lparr>su_selected := min i (length (do_dependencies (su_report a)) - 1)\<rparr>"

definition move_selection :: "int \<Rightarrow> setup_app \<Rightarrow> setup_app" where
  "move_selection delta a =
     (if do_dependencies (su_report a) = [] then a\<lparr>su_selected := 0\<rparr>
      else a\<lparr>su_selected := nat (clamp 0 (int (length (do_dependencies (su_report a)) - 1)) (int (su_selected a) + delta))\<rparr>)"

definition refresh_report :: "doctor_report \<Rightarrow> setup_app \<Rightarrow> setup_app" where
  "refresh_report r a =
     (let n = length (do_dependencies r) in
      setup_log ''doctor snapshot refreshed''
        (a\<lparr>su_report := r, su_selected := (if n \<le> su_selected a then n - 1 else su_selected a)\<rparr>))"

section \<open>The loop\<close>

text \<open>
  A visit to the shell: whether the screen can be drawn before, errors of leaving and entering the
  screen, what the commands meet, the report made afterwards, and whether the screen can then be cleared.
\<close>

record shell_visit =
  sv_drawn :: bool
  sv_leave :: "string option"
  sv_replies :: "nat \<Rightarrow> command_reply"
  sv_return :: read_result
  sv_enter :: "string option"
  sv_report :: doctor_report
  sv_cleared :: bool

definition run_install_plan_in_shell :: "dependency_report \<Rightarrow> install_plan \<Rightarrow> shell_visit \<Rightarrow> setup_out list \<times> (string + string)" where
  "run_install_plan_in_shell d p v =
     (case sv_leave v of
        Some e \<Rightarrow> ([], Inl e)
      | None \<Rightarrow>
          let (out, result) = run_install_plan d p (sv_replies v);
              out' = out @ [Line [], Asked ''Press Enter to return to peerline setup...'' (sv_return v)] in
          (case sv_enter v of Some e \<Rightarrow> (out', Inl e) | None \<Rightarrow> (out', result)))"

text \<open>The flag says whether the terminal worked.\<close>

definition install_selected :: "shell_visit \<Rightarrow> setup_app \<Rightarrow> setup_app \<times> setup_out list \<times> bool" where
  "install_selected v a =
     (case selected_dependency a of
        None \<Rightarrow> (a, [], True)
      | Some d \<Rightarrow>
          (case dr_install d of
             None \<Rightarrow> (setup_log (dr_label d @ '' needs no install action'') a, [], True)
           | Some p \<Rightarrow>
               if \<not> sv_drawn v then (a, [], False)
               else
                 let a1 = setup_log (''opening install step for '' @ dr_label d) a;
                     (out, r) = run_install_plan_in_shell d p v;
                     a2 = (case r of
                         Inr outcome \<Rightarrow> setup_log outcome a1
                       | Inl e \<Rightarrow> setup_log ''review the terminal output, then retry or install manually''
                           (setup_log (dr_label d @ '' setup did not complete: '' @ e) a1)) in
                 (refresh_report (sv_report v) a2, out, sv_cleared v)))"

fun install_each :: "(nat \<Rightarrow> shell_visit) \<Rightarrow> nat list \<Rightarrow> setup_app \<Rightarrow> setup_app \<times> setup_out list \<times> bool" where
  "install_each visits [] a = (a, [], True)"
| "install_each visits (i # is) a =
     (case install_selected (visits i) (set_selected i a) of
        (a1, out, False) \<Rightarrow> (a1, out, False)
      | (a1, out, True) \<Rightarrow> (case install_each visits is a1 of (a2, out', ok) \<Rightarrow> (a2, out @ out', ok)))"

definition install_all_actionable :: "(nat \<Rightarrow> shell_visit) \<Rightarrow> setup_app \<Rightarrow> setup_app \<times> setup_out list \<times> bool" where
  "install_all_actionable visits a =
     (if installable_action_indices a = [] then (setup_log ''no installable dependencies need action'' a, [], True)
      else install_each visits (installable_action_indices a) a)"

definition setup_quit_key :: "key_event \<Rightarrow> bool" where
  "setup_quit_key key \<longleftrightarrow> ke_code key = Key_Char CHR ''q'' \<or> ke_code key = Key_Esc \<or>
     ke_code key = Key_Char CHR ''c'' \<and> ke_control key"

definition no_modifiers :: "key_event \<Rightarrow> bool" where
  "no_modifiers key \<longleftrightarrow> \<not> ke_control key \<and> \<not> ke_other_modifier key"

definition is_refresh_key :: "key_event \<Rightarrow> bool" where
  "is_refresh_key key \<longleftrightarrow> (ke_code key = Key_Char CHR ''r'' \<or> ke_code key = Key_Char CHR ''R'') \<and> no_modifiers key"

definition is_install_all_key :: "key_event \<Rightarrow> bool" where
  "is_install_all_key key \<longleftrightarrow> (ke_code key = Key_Char CHR ''a'' \<or> ke_code key = Key_Char CHR ''A'') \<and> no_modifiers key"

definition is_enter_key :: "key_event \<Rightarrow> bool" where
  "is_enter_key key \<longleftrightarrow> ke_code key = Key_Enter"

text \<open>
  What the loop reads: a key, with the report that would be made and the shell visits that would
  follow, one for every selection; a new size of the terminal, which may fail to clear; anything else;
  an error of drawing or reading.
\<close>

datatype setup_input =
    Su_Key key_event doctor_report "nat \<Rightarrow> shell_visit" | Su_Resize bool | Su_Other | Su_Io_Error

definition handle_key :: "key_event \<Rightarrow> doctor_report \<Rightarrow> (nat \<Rightarrow> shell_visit) \<Rightarrow> setup_app \<Rightarrow> setup_app \<times> setup_out list \<times> bool" where
  "handle_key key report visits a =
     (if is_refresh_key key then (refresh_report report a, [], True)
      else if is_install_all_key key then install_all_actionable visits a
      else if is_enter_key key then install_selected (visits (su_selected a)) a
      else if ke_code key = Key_Up then (move_selection (-1) a, [], True)
      else if ke_code key = Key_Down then (move_selection 1 a, [], True)
      else (a, [], True))"

fun setup_loop :: "setup_input list \<Rightarrow> setup_app \<Rightarrow> setup_app \<times> setup_out list \<times> run_end" where
  "setup_loop [] a = (a, [], Running)"
| "setup_loop (Su_Io_Error # ins) a = (a, [], Io_Failed)"
| "setup_loop (Su_Resize ok # ins) a = (if ok then setup_loop ins a else (a, [], Io_Failed))"
| "setup_loop (Su_Other # ins) a = setup_loop ins a"
| "setup_loop (Su_Key key report visits # ins) a =
     (if setup_quit_key key then (a, [], Left)
      else case handle_key key report visits a of
        (a1, out, ok) \<Rightarrow>
          if \<not> ok then (a1, out, Io_Failed)
          else case setup_loop ins a1 of (a2, out', r) \<Rightarrow> (a2, out @ out', r))"

definition run_setup_tui :: "doctor_report \<Rightarrow> setup_input list \<Rightarrow> setup_app \<times> setup_out list \<times> run_end" where
  "run_setup_tui report ins = setup_loop ins (new_setup_app report)"

text \<open>The whole command; without a terminal on both sides, only the plan is printed.\<close>

definition setup_command :: "bool \<Rightarrow> bool \<Rightarrow> bool \<Rightarrow> doctor_report \<Rightarrow> setup_input list \<Rightarrow> setup_out list \<times> run_end" where
  "setup_command no_tui stdin_terminal stdout_terminal report ins =
     (if no_tui \<or> \<not> stdin_terminal \<or> \<not> stdout_terminal then ([Line (render_setup_plan report)], Left)
      else snd (run_setup_tui report ins))"

section \<open>What the screen shows\<close>

text \<open>As in the dashboard, a panel is its title with its body, and how an area is split is the terminal library's.\<close>

definition setup_label_style :: style where
  "setup_label_style = bold (fg Gray)"

definition dependency_style :: "dependency_status \<Rightarrow> bool \<Rightarrow> style" where
  "dependency_style status selected =
     (let s = (case status of Dep_Ok \<Rightarrow> fg Green | Dep_Missing \<Rightarrow> fg Yellow | Dep_Broken \<Rightarrow> fg Red) in
      if selected then bold s else s)"

definition setup_header :: "string \<Rightarrow> setup_app \<Rightarrow> string \<times> body" where
  "setup_header os a =
     (let r = su_report a; n = length (actionable_dependencies r);
          manager = (case do_package_manager r of Some m \<Rightarrow> manager_label (pm_kind m) | None \<Rightarrow> ''not detected'');
          status = (if n = 0 then (fg Green, ''ready'') else (fg Yellow, dec_str n @ '' item(s) need attention'')) in
      (''Overview'', Body_Lines
         [[(bold (fg Cyan), ''peerline setup''), (plain_style, ''  ''), status],
          [(setup_label_style, ''platform ''), (plain_style, platform_label os (do_os r) @ '' '' @ do_arch r),
           (plain_style, ''   ''), (setup_label_style, ''package manager ''), (plain_style, manager)]]))"

definition dependency_row :: "setup_app \<Rightarrow> nat \<Rightarrow> nat \<Rightarrow> dependency_report \<Rightarrow> style \<times> string list" where
  "dependency_row a width i d =
     (let selected = (i = su_selected a) in
      (dependency_style (dr_status d) selected,
       [if selected then ''>'' else '' '', status_label (dr_status d), dr_label d, truncate_end (dr_detail d) (width - 32)]))"

definition setup_dependencies :: "setup_app \<Rightarrow> rect \<Rightarrow> string \<times> body" where
  "setup_dependencies a area =
     (''Checks'', Body_Table [[], ''status'', ''check'', ''detail'']
        (map (\<lambda>(i, d). dependency_row a (rc_width area) i d) (enumerate 0 (do_dependencies (su_report a)))) [1, 9, 24, 12])"

definition detail_lines :: "dependency_report \<Rightarrow> text_line list" where
  "detail_lines d =
     [[(bold plain_style, dr_label d), (plain_style, ''  ''), (dependency_style (dr_status d) False, status_label (dr_status d))],
      [(plain_style, dr_detail d)]] @
     (case dr_command_path d of Some p \<Rightarrow> [[(setup_label_style, ''path ''), (plain_style, p)]] | None \<Rightarrow> []) @
     (case dr_version d of Some v \<Rightarrow> [[(setup_label_style, ''version ''), (plain_style, v)]] | None \<Rightarrow> []) @
     [[(plain_style, [])]] @
     (case dr_install d of
        None \<Rightarrow> [[(plain_style, ''no install action is needed'')]]
      | Some p \<Rightarrow>
          [(setup_label_style, ''plan ''), (plain_style, ip_summary p)] #
          map (\<lambda>c. [(setup_label_style, if ic_program c \<noteq> None then ''run '' else ''manual ''), (plain_style, ic_display c)])
            (ip_commands p) @
          map (\<lambda>n. [(setup_label_style, ''note ''), (plain_style, n)]) (ip_notes p))"

definition setup_details :: "setup_app \<Rightarrow> string \<times> body" where
  "setup_details a =
     (''Action'', case selected_dependency a of
        None \<Rightarrow> Body_Note (fg DarkGray) ''no dependency selected'' | Some d \<Rightarrow> Body_Lines (detail_lines d))"

definition setup_activity :: "setup_app \<Rightarrow> rect \<Rightarrow> string \<times> body" where
  "setup_activity a area =
     (let lines = rev (take (rc_height area - 2) (rev (su_logs a))) in
      (''Activity'', if lines = [] then Body_Note (fg DarkGray) ''waiting for setup actions''
        else Body_Lines (map (\<lambda>l. [(plain_style, l)]) lines)))"

definition setup_footer :: "setup_app \<Rightarrow> text_line" where
  "setup_footer a =
     (let can_install = (case selected_dependency a of None \<Rightarrow> False | Some d \<Rightarrow> dr_install d \<noteq> None) in
      [(bold (fg Yellow), ''q/Esc''),
       (fg Gray, ''  '' @ (if can_install then ''Enter install/show  '' else []) @ ''a all  r refresh  Up/Down select'')])"

section \<open>The state stays bounded\<close>

lemma length_drop_oldest: "length (drop_oldest ls) = min (length ls) max_setup_logs"
  by (induction ls) (auto simp: max_setup_logs_def)

definition setup_ok :: "setup_app \<Rightarrow> bool" where
  "setup_ok a \<longleftrightarrow> length (su_logs a) \<le> max_setup_logs \<and>
     (do_dependencies (su_report a) = [] \<and> su_selected a = 0 \<or> su_selected a < length (do_dependencies (su_report a)))"

lemma setup_log_ok [simp]: "su_report (setup_log m a) = su_report a" "su_selected (setup_log m a) = su_selected a"
  "length (su_logs (setup_log m a)) \<le> max_setup_logs"
  by (simp_all add: setup_log_def length_drop_oldest)

lemma new_setup_ok: "setup_ok (new_setup_app r)"
  by (auto simp: setup_ok_def new_setup_app_def)

lemma setup_log_keeps: "setup_ok a \<Longrightarrow> setup_ok (setup_log m a)"
  by (simp add: setup_ok_def)

lemma set_selected_keeps: "setup_ok a \<Longrightarrow> setup_ok (set_selected i a)"
  by (cases "do_dependencies (su_report a)") (auto simp: setup_ok_def set_selected_def)

lemma move_selection_keeps: "setup_ok a \<Longrightarrow> setup_ok (move_selection delta a)"
  by (cases "do_dependencies (su_report a)") (auto simp: setup_ok_def move_selection_def clamp_def nat_less_iff)

lemma refresh_keeps: "setup_ok a \<Longrightarrow> setup_ok (refresh_report r a)"
  by (cases "do_dependencies r") (auto simp: setup_ok_def refresh_report_def Let_def)

lemma install_selected_keeps: "setup_ok a \<Longrightarrow> setup_ok (fst (install_selected v a))"
  by (auto simp: install_selected_def Let_def setup_log_keeps intro!: refresh_keeps split: option.splits prod.splits sum.splits)

lemma install_each_keeps: "setup_ok a \<Longrightarrow> setup_ok (fst (install_each visits is a))"
proof (induction "is" arbitrary: a)
  case (Cons i js)
  obtain a1 out ok where v: "install_selected (visits i) (set_selected i a) = (a1, out, ok)" by (metis prod_cases3)
  have "setup_ok a1" using install_selected_keeps [OF set_selected_keeps [OF Cons.prems], of "visits i" i] v by simp
  with Cons.IH [of a1] v show ?case by (cases ok) (auto split: prod.splits)
qed simp

lemma handle_key_keeps: "setup_ok a \<Longrightarrow> setup_ok (fst (handle_key key r visits a))"
  by (simp add: handle_key_def refresh_keeps install_all_actionable_def install_each_keeps setup_log_keeps
      install_selected_keeps move_selection_keeps)

lemma setup_loop_keeps: "setup_ok a \<Longrightarrow> setup_ok (fst (setup_loop ins a))"
proof (induction ins a rule: setup_loop.induct)
  case (5 key report visits ins a)
  obtain a1 out ok where h: "handle_key key report visits a = (a1, out, ok)" by (metis prod_cases3)
  with handle_key_keeps [OF 5(2), of key report visits] have "setup_ok a1" by simp
  with 5 h show ?case by (cases ok) (auto split: prod.splits)
qed simp_all

text \<open>
  Whatever the user types and however often the checks are repeated, the screen keeps at most 32 log
  lines, and the selection is always on one of the dependencies, if there is any.
\<close>

theorem setup_state_bounded: "setup_ok (fst (run_setup_tui report ins))"
  unfolding run_setup_tui_def by (rule setup_loop_keeps [OF new_setup_ok])

section \<open>Nothing runs unconfirmed\<close>

definition question :: "string \<Rightarrow> string" where
  "question display = ''Run `'' @ display @ ''` now? [y/N] ''"

definition just_confirmed :: "(install_command \<Rightarrow> bool) \<Rightarrow> setup_out list \<Rightarrow> bool" where
  "just_confirmed C out \<longleftrightarrow>
     (\<forall>a b p as s. out = a @ Ran_Command p as s # b \<longrightarrow>
        (\<exists>a' c l. a = a' @ [Asked (question (ic_display c)) (Read_Line l)] \<and> says_yes l \<and> C c \<and>
           ic_program c = Some p \<and> ic_args c = as))"

lemma just_confirmedI:
  assumes "\<And>a b p as s. out = a @ Ran_Command p as s # b \<Longrightarrow>
    \<exists>a' c l. a = a' @ [Asked (question (ic_display c)) (Read_Line l)] \<and> says_yes l \<and> C c \<and> ic_program c = Some p \<and> ic_args c = as"
  shows "just_confirmed C out"
  using assms unfolding just_confirmed_def by blast

lemma just_confirmed_append:
  assumes "just_confirmed C x" and "just_confirmed C y"
  shows "just_confirmed C (x @ y)"
proof (rule just_confirmedI)
  fix a b p as s assume "x @ y = a @ Ran_Command p as s # b"
  then obtain us where "x = a @ us \<and> us @ y = Ran_Command p as s # b \<or> x @ us = a \<and> y = us @ Ran_Command p as s # b"
    by (auto simp: append_eq_append_conv2)
  then consider b' where "x = a @ Ran_Command p as s # b'" | a1 where "a = x @ a1" "y = a1 @ Ran_Command p as s # b"
    by (cases us) auto
  then show "\<exists>a' c l. a = a' @ [Asked (question (ic_display c)) (Read_Line l)] \<and> says_yes l \<and> C c \<and> ic_program c = Some p \<and> ic_args c = as"
  proof cases
    case 1
    with assms(1) show ?thesis unfolding just_confirmed_def by blast
  next
    case 2
    then obtain a' c l where "a1 = a' @ [Asked (question (ic_display c)) (Read_Line l)]"
        "says_yes l" "C c" "ic_program c = Some p" "ic_args c = as"
      using assms(2) unfolding just_confirmed_def by blast
    with 2(1) show ?thesis by (intro exI [of _ "x @ a'"] exI [of _ c] exI [of _ l]) simp
  qed
qed

fun is_ran :: "setup_out \<Rightarrow> bool" where
  "is_ran (Ran_Command p as s) = True"
| "is_ran (Line l) = False"
| "is_ran (Asked q r) = False"

lemma just_confirmed_none: "list_all (\<lambda>o'. \<not> is_ran o') out \<Longrightarrow> just_confirmed C out"
  by (rule just_confirmedI) auto

lemma run_install_command_confirmed:
  assumes "C c"
  shows "just_confirmed C (fst (run_install_command c reply))"
proof (cases "\<exists>p l s status. ic_program c = Some p \<and> re_answer reply = Read_Line l \<and> says_yes l \<and> re_launch reply = Exited s status")
  case True
  then obtain p l s status where c: "ic_program c = Some p" "re_answer reply = Read_Line l" "says_yes l" "re_launch reply = Exited s status"
    by blast
  then have out: "fst (run_install_command c reply) = [Asked (question (ic_display c)) (Read_Line l), Ran_Command p (ic_args c) s]"
    by (simp add: run_install_command_def confirm_command_def question_def)
  show ?thesis
    unfolding out by (rule just_confirmedI) (use c assms in \<open>auto simp: Cons_eq_append_conv\<close>)
next
  case False
  then show ?thesis
    by (intro just_confirmed_none)
      (auto simp: run_install_command_def confirm_command_def split: option.splits read_result.splits launch_result.splits bool.splits)
qed

lemma just_confirmed_Cons: "\<not> is_ran o' \<Longrightarrow> just_confirmed C out \<Longrightarrow> just_confirmed C (o' # out)"
  using just_confirmed_append [of C "[o']" out] just_confirmed_none [of "[o']" C] by simp

lemma run_commands_confirmed:
  "\<forall>c \<in> set cs. C c \<Longrightarrow> just_confirmed C (fst (run_commands label replies ran_any n cs))"
proof (induction cs arbitrary: ran_any n)
  case (Cons c cs)
  obtain out r where run: "run_install_command c (replies n) = (out, r)" by fastforce
  have out: "just_confirmed C out" using run_install_command_confirmed [of C c "replies n"] Cons.prems run by simp
  have rest: "just_confirmed C (fst (run_commands label replies b m cs))" for b m using Cons by simp
  have hint: "\<not> is_ran (failure_hint c)" by (simp add: failure_hint_def)
  show ?case
  proof (cases r)
    case (Inl e)
    then show ?thesis
      by (simp add: run Let_def just_confirmed_Cons just_confirmed_append out just_confirmed_none hint)
  next
    case (Inr x)
    then show ?thesis
      using rest out hint
      by (cases x) (auto simp: run Let_def just_confirmed_none case_prod_unfold
          intro!: just_confirmed_Cons just_confirmed_append)
  qed
qed (simp add: just_confirmed_none)

lemma just_confirmed_lines [simp]: "just_confirmed C (map (\<lambda>n. Line (g n)) ns)" "just_confirmed C [Line l, Asked q r]"
  by (simp_all add: just_confirmed_none list_all_iff)

lemma run_install_plan_confirmed:
  "\<forall>c \<in> set (ip_commands p). C c \<Longrightarrow> just_confirmed C (fst (run_install_plan d p replies))"
  using run_commands_confirmed [of "ip_commands p" C "dr_label d" replies False 0]
  by (auto simp: run_install_plan_def Let_def case_prod_unfold intro!: just_confirmed_Cons just_confirmed_append)

lemma run_in_shell_confirmed:
  "\<forall>c \<in> set (ip_commands p). C c \<Longrightarrow> just_confirmed C (fst (run_install_plan_in_shell d p v))"
  using run_install_plan_confirmed [of p C d "sv_replies v"]
  by (auto simp: run_install_plan_in_shell_def Let_def case_prod_unfold just_confirmed_none split: option.split
      intro!: just_confirmed_append)

text \<open>The reports are the doctor's, on whatever machine it looks at.\<close>

definition from_doctor :: "doctor_report \<Rightarrow> bool" where
  "from_doctor r \<longleftrightarrow> (\<exists>w. r = collect_report w)"

definition doctor_command :: "install_command \<Rightarrow> bool" where
  "doctor_command c \<longleftrightarrow> (\<exists>r d pl. from_doctor r \<and> d \<in> set (do_dependencies r) \<and> dr_install d = Some pl \<and> c \<in> set (ip_commands pl))"

lemma install_selected_confirmed:
  assumes "from_doctor (su_report a)" and "from_doctor (sv_report v)"
  shows "from_doctor (su_report (fst (install_selected v a))) \<and> just_confirmed doctor_command (fst (snd (install_selected v a)))"
proof -
  have "just_confirmed doctor_command (fst (run_install_plan_in_shell d p v))"
    if "selected_dependency a = Some d" "dr_install d = Some p" for d p
  proof (rule run_in_shell_confirmed, rule ballI)
    fix c assume "c \<in> set (ip_commands p)"
    moreover have "d \<in> set (do_dependencies (su_report a))"
      using that(1) by (auto simp: selected_dependency_def split: if_splits)
    ultimately show "doctor_command c" using that(2) assms(1) unfolding doctor_command_def by blast
  qed
  then show ?thesis
    using assms
    by (auto simp: install_selected_def Let_def refresh_report_def just_confirmed_none case_prod_unfold split: option.split sum.split)
qed

lemma install_each_confirmed:
  "from_doctor (su_report a) \<Longrightarrow> \<forall>i. from_doctor (sv_report (visits i)) \<Longrightarrow>
   from_doctor (su_report (fst (install_each visits is a))) \<and> just_confirmed doctor_command (fst (snd (install_each visits is a)))"
proof (induction "is" arbitrary: a)
  case (Cons i js)
  obtain a1 out ok where v: "install_selected (visits i) (set_selected i a) = (a1, out, ok)" by (metis prod_cases3)
  have "from_doctor (su_report (set_selected i a))" using Cons.prems by (simp add: set_selected_def)
  then have "from_doctor (su_report a1)" "just_confirmed doctor_command out"
    using install_selected_confirmed [of "set_selected i a" "visits i"] v Cons.prems by simp_all
  with Cons.IH [of a1] Cons.prems(2) v show ?case
    by (cases ok) (auto split: prod.splits intro: just_confirmed_append)
qed (simp add: just_confirmed_none)

lemma handle_key_confirmed:
  assumes "from_doctor (su_report a)" and "from_doctor r" and "\<forall>i. from_doctor (sv_report (visits i))"
  shows "from_doctor (su_report (fst (handle_key key r visits a))) \<and>
    just_confirmed doctor_command (fst (snd (handle_key key r visits a)))"
  using assms install_selected_confirmed install_each_confirmed
  by (simp add: handle_key_def refresh_report_def Let_def install_all_actionable_def just_confirmed_none move_selection_def)

definition doctor_input :: "setup_input \<Rightarrow> bool" where
  "doctor_input i = (case i of Su_Key key r visits \<Rightarrow> from_doctor r \<and> (\<forall>n. from_doctor (sv_report (visits n))) | _ \<Rightarrow> True)"

lemma setup_loop_confirmed:
  "from_doctor (su_report a) \<Longrightarrow> \<forall>i \<in> set ins. doctor_input i \<Longrightarrow> just_confirmed doctor_command (fst (snd (setup_loop ins a)))"
proof (induction ins a rule: setup_loop.induct)
  case (5 key report visits ins a)
  obtain a1 out ok where h: "handle_key key report visits a = (a1, out, ok)" by (metis prod_cases3)
  have "from_doctor (su_report a1)" "just_confirmed doctor_command out"
    using handle_key_confirmed [of a report visits key] 5(2,3) h by (simp_all add: doctor_input_def)
  with 5 h show ?case by (cases ok) (auto split: prod.splits intro: just_confirmed_append simp: just_confirmed_none)
qed (simp_all add: just_confirmed_none)


section \<open>What a plan's end means\<close>

text \<open>
  A command that fails is the last one of its plan that runs, and the result says so; a plan is
  reported as completed only if every command that ran succeeded.
\<close>

definition failed_run :: "setup_out \<Rightarrow> bool" where
  "failed_run o' \<longleftrightarrow> (case o' of Ran_Command p as s \<Rightarrow> \<not> s | _ \<Rightarrow> False)"

lemma run_install_command_single:
  "run_install_command c reply = (out, r) \<Longrightarrow>
   (case r of Inr (Ran success status) \<Rightarrow> \<exists>q p as. out = [q, Ran_Command p as success] \<and> \<not> is_ran q | _ \<Rightarrow> list_all (\<lambda>o'. \<not> is_ran o') out)"
  by (auto simp: run_install_command_def confirm_command_def
      split: option.splits read_result.splits launch_result.splits bool.splits)

lemma not_ran_not_failed: "\<not> is_ran o' \<Longrightarrow> \<not> failed_run o'"
  by (cases o') (simp_all add: failed_run_def)

theorem failure_ends_plan:
  assumes "run_commands label replies ran_any n cs = (out, r)" and "o' \<in> set out" and "failed_run o'"
  shows "\<exists>a b. out = a @ o' # b \<and> list_all (\<lambda>x. \<not> failed_run x) a \<and> list_all (\<lambda>x. \<not> is_ran x) b \<and>
    (\<exists>c \<in> set cs. \<exists>status. r = Inr (label @ '' install command failed: `'' @ ic_display c @ ''` exited with '' @ status))"
  using assms
proof (induction cs arbitrary: ran_any n out)
  case (Cons c cs)
  let ?head = "[Line [], Line (''$ '' @ ic_display c)]"
  obtain step res where run: "run_install_command c (replies n) = (step, res)" by fastforce
  note single = run_install_command_single [OF run]
  have lift: ?case
    if h: "list_all (\<lambda>x. \<not> failed_run x) h" and sub: "run_commands label replies b (Suc n) cs = (out1, r)" and out: "out = h @ out1"
    for h b out1
  proof -
    have "o' \<in> set out1" using Cons.prems(2,3) h out by (auto simp: list_all_iff)
    from Cons.IH [OF sub this Cons.prems(3)] obtain x y where xy: "out1 = x @ o' # y" "list_all (\<lambda>x. \<not> failed_run x) x"
        "list_all (\<lambda>x. \<not> is_ran x) y"
        "\<exists>c \<in> set cs. \<exists>status. r = Inr (label @ '' install command failed: `'' @ ic_display c @ ''` exited with '' @ status)"
      by blast
    then have "out = (h @ x) @ o' # y" "list_all (\<lambda>x. \<not> failed_run x) (h @ x)" using out h by simp_all
    with xy(3,4) show ?thesis by (metis list.set_intros(2))
  qed
  have line: "\<not> failed_run (Line l)" for l by (simp add: failed_run_def)
  have quiet: "list_all (\<lambda>x. \<not> failed_run x) (?head @ step)" if "list_all (\<lambda>o'. \<not> is_ran o') step"
    using that line by (auto simp: list_all_iff not_ran_not_failed)
  show ?case
  proof (cases res)
    case (Inl e)
    with Cons.prems single quiet show ?thesis
      by (auto simp: run list_all_iff failure_hint_def line)
  next
    case (Inr x)
    show ?thesis
    proof (cases x)
      case (Ran success status)
      with single Inr obtain q p as where step: "step = [q, Ran_Command p as success]" "\<not> is_ran q" by auto
      obtain out1 r1 where sub: "run_commands label replies True (Suc n) cs = (out1, r1)" by fastforce
      show ?thesis
      proof (cases success)
        case True
        then have "out = (?head @ step) @ out1" "r1 = r" using Cons.prems(1) Inr Ran sub by (simp_all add: run)
        moreover have "list_all (\<lambda>x. \<not> failed_run x) (?head @ step)"
          using step True by (simp add: line not_ran_not_failed) (simp add: failed_run_def)
        ultimately show ?thesis using lift sub by blast
      next
        case False
        let ?tail = "[Line (''install step failed: `'' @ ic_display c @ ''` exited with '' @ status), failure_hint c]"
        have out: "out = (?head @ [q]) @ Ran_Command p as False # ?tail"
          and r: "r = Inr (label @ '' install command failed: `'' @ ic_display c @ ''` exited with '' @ status)"
          using Cons.prems(1) Inr Ran False step by (simp_all add: run)
        have "o' = Ran_Command p as False"
          using Cons.prems(2,3) out not_ran_not_failed [OF step(2)] by (auto simp: line failure_hint_def)
        with out r step(2) show ?thesis
          by (intro exI [of _ "?head @ [q]"] exI [of _ ?tail]) (simp add: line not_ran_not_failed failure_hint_def)
      qed
    next
      case Manual_Only
      obtain out1 r1 where sub: "run_commands label replies ran_any (Suc n) cs = (out1, r1)" by fastforce
      let ?m = "Line ''manual command; run it in your shell, then rerun `peerline setup`''"
      have "out = (?head @ step @ [?m]) @ out1" "r1 = r" using Cons.prems(1) Inr Manual_Only sub by (simp_all add: run)
      moreover have "list_all (\<lambda>x. \<not> failed_run x) (?head @ step @ [?m])"
        using quiet single Inr Manual_Only by (simp add: line)
      ultimately show ?thesis using lift sub by blast
    next
      case Skipped
      obtain out1 r1 where sub: "run_commands label replies ran_any (Suc n) cs = (out1, r1)" by fastforce
      have "out = (?head @ step @ [Line ''skipped'']) @ out1" "r1 = r" using Cons.prems(1) Inr Skipped sub by (simp_all add: run)
      moreover have "list_all (\<lambda>x. \<not> failed_run x) (?head @ step @ [Line ''skipped''])"
        using quiet single Inr Skipped by (simp add: line)
      ultimately show ?thesis using lift sub by blast
    qed
  qed
qed simp

text \<open>
  A plan counts as completed as soon as one of its commands has run: with \<open>apt-get\<close>, confirming the
  update of the package lists and declining the installation is reported as a completed install.
\<close>

theorem skipped_install_counts_as_completed:
  assumes "re_answer (replies 0) = Read_Line l" and "says_yes l" and "re_launch (replies 0) = Exited True status"
    and "re_answer (replies (Suc 0)) = Read_Line l'" and "\<not> says_yes l'"
  shows "snd (run_commands label replies False 0 (tor_commands w AptGet)) = Inr (label @ '' install command completed'') \<and>
    length (filter is_ran (fst (run_commands label replies False 0 (tor_commands w AptGet)))) = 1"
  using assms by (simp add: privileged_command_def run_install_command_def confirm_command_def)

section \<open>The theorems at work\<close>

definition sample_replies :: "nat \<Rightarrow> command_reply" where
  "sample_replies n = (if n = 0 then \<lparr>re_answer = Read_Line ''y'', re_launch = Exited True ''exit status: 0''\<rparr>
     else \<lparr>re_answer = Read_Line ''n'', re_launch = Launch_Failed []\<rparr>)"

definition sample_visit :: shell_visit where
  "sample_visit = \<lparr>sv_drawn = True, sv_leave = None, sv_replies = sample_replies, sv_return = Read_Line [], sv_enter = None,
     sv_report = collect_report sample_machine, sv_cleared = True\<rparr>"

definition sample_inputs :: "setup_input list" where
  "sample_inputs = [Su_Key \<lparr>ke_code = Key_Enter, ke_control = False, ke_other_modifier = False\<rparr>
     (collect_report sample_machine) (\<lambda>_. sample_visit)]"

lemma sample_tor:
  obtains d pl where "selected_dependency (new_setup_app (collect_report sample_machine)) = Some d"
    and "dr_install d = Some pl" and "ip_commands pl = tor_commands sample_machine AptGet"
proof -
  let ?pm = "\<lparr>pm_kind = AptGet, pm_command = ''apt-get'', pm_path = path_display ''/bin/apt-get''\<rparr>"
  have "detect_package_manager sample_machine Linux = Some ?pm"
    by (simp add: detect_package_manager_def sample_paths(1))
  moreover have t: "needs_action (tor_report sample_machine Linux pm)" for pm
    by (rule tor_missing [OF sample_paths(2)])
  moreover have "current_platform (mc_os sample_machine) = Linux"
    by (simp add: current_platform_def sample_machine_def)
  ultimately have "do_dependencies (collect_report sample_machine) ! 0 = tor_report sample_machine Linux (Some ?pm)"
    "0 < length (do_dependencies (collect_report sample_machine))"
    by (simp_all add: collect_report_def Let_def)
  then have "selected_dependency (new_setup_app (collect_report sample_machine)) = Some (tor_report sample_machine Linux (Some ?pm))"
    by (simp add: selected_dependency_def new_setup_app_def)
  then show thesis
    by (rule that [of _ "plan (''install Tor via '' @ manager_label AptGet) (tor_commands sample_machine AptGet)
        (tor_notes sample_machine ?pm)"]) (simp_all add: tor_report_sel(2) t tor_install_plan_def)
qed


lemma skipped_install_counts_as_completed_witness:
  "snd (run_commands ''Tor'' sample_replies False 0 (tor_commands sample_machine AptGet)) = Inr ''Tor install command completed''"
proof -
  have "says_yes ''y''" "\<not> says_yes ''n''" by code_simp+
  then show ?thesis
    using skipped_install_counts_as_completed [of sample_replies "''y''" "''exit status: 0''" "''n''" "''Tor''" sample_machine]
    by (simp add: sample_replies_def)
qed

definition failing_reply :: "nat \<Rightarrow> command_reply" where
  "failing_reply n = \<lparr>re_answer = Read_Line ''yes'', re_launch = Exited False ''exit status: 1''\<rparr>"

lemma failure_ends_plan_witness:
  "\<exists>status. snd (run_commands ''Tor'' failing_reply False 0 [executable ''brew'' [''install'', ''tor'']]) =
     Inr (''Tor install command failed: `'' @ ''brew install tor'' @ ''` exited with '' @ status)"
proof -
  obtain out r where run: "run_commands ''Tor'' failing_reply False 0 [executable ''brew'' [''install'', ''tor'']] = (out, r)"
    by fastforce
  have "says_yes ''yes''" by code_simp
  then have "Ran_Command ''brew'' [''install'', ''tor''] False \<in> set out"
    using run by (auto simp: failing_reply_def run_install_command_def confirm_command_def)
  from failure_ends_plan [OF run this] have "\<exists>status. r = Inr (''Tor'' @ '' install command failed: `'' @
      ic_display (executable ''brew'' [''install'', ''tor'']) @ ''` exited with '' @ status)"
    by (auto simp: failed_run_def)
  moreover have "ic_display (executable ''brew'' [''install'', ''tor'']) = ''brew install tor''" by code_simp
  ultimately show ?thesis using run by simp
qed

end
