(* ===== verification/Spec2Isabelle.thy ===== *)
theory Spec2Isabelle
  imports Config Archive_Roundtrip Direct_Receive Rendezvous_Link Port_Mapping I2p_Address Tunnel_Transfer
    Descriptor_Publish Opaque Cli_Recv Cli_Terminal Cli_Setup
begin

text \<open>
  A verification development for peerline, a program that sends files between two machines that
  know a name and a code and nothing else of each other.

  \<^bold>\<open>The program and its parts.\<close> A receiver announces itself under a lookup key derived from its name
  and code: in a private libp2p DHT, in the Mainline DHT, at a rendezvous service. A sender derives the
  same key, collects the descriptors it finds, ranks the endpoints they name and tries them one
  after the other: a direct TCP connection, a libp2p stream, a websocket behind a tunnel, a Tor
  or an I2P address. Over whichever answers, both run an OPAQUE login with the code as password,
  key a ratcheting cipher from it and from a transcript of the handshake, exchange a manifest and an archive, resume
  an archive that was cut off, and unpack it below the destination. The command line drives one
  side or the other, a dashboard shows it.

  \<^bold>\<open>Conventions.\<close> \<open>Prelude\<close> fixes them: machine integers are words of their width, and wrap as the release
  profile does; byte vectors are lists of bytes; strings are lists of their UTF-8 bytes; a
  \<open>Result\<close> is a sum whose left side is the error, every early return a branch; durations
  are in milliseconds. \<open>Net_Addr\<close>, \<open>Multiaddr\<close>, \<open>Std_Parse\<close> and \<open>Fs\<close> hold what the program uses
  of \<open>std::net\<close>, the multiaddress library, number parsing, and \<open>std::path\<close> with \<open>std::fs\<close>; a disk
  is a map from paths to directories, files and links. Third-party crates (the ciphers and hashes, OPAQUE,
  postcard, serde_json, zstd, LZMA, libp2p, the websocket, DHT and HTTP clients) are records of functions passed as
  arguments; a theorem that relies on one states the law it uses as a hypothesis, and its witness
  instantiates the record. Where two parties of the program meet an interface, the contract is a
  locale, interpreted on the model's own definitions. Logging lines are omitted.

  \<^bold>\<open>Theories, in the order of the code's crates.\<close>

  \<^item> \<open>peerline-core\<close>: \<open>Identity\<close> (\<open>identity.rs\<close>: names, codes, lookup keys and the parsing of typed
    codes), \<open>Core_Manifest\<close> (\<open>manifest.rs\<close>, \<open>event.rs\<close>: the types that travel), \<open>Core_Path\<close> (\<open>path.rs\<close>:
    which relative paths are accepted, and which name a clashing file gets), \<open>Config\<close> (\<open>config.rs\<close>: load and
    save over the disk model).
  \<^item> \<open>peerline-transfer\<close>: \<open>Scan\<close> (\<open>scan.rs\<close>), \<open>Compression\<close> (\<open>compression.rs\<close>), \<open>Archive_Format\<close>,
    \<open>Archive_Create\<close> and \<open>Archive_Unpack\<close> (\<open>archive.rs\<close>: framing, the sending half, the receiving half);
    \<open>Unpack_Safety\<close> shows which paths any run may touch and what an accepted archive has
    written, \<open>Archive_Roundtrip\<close> that unpacking what was created restores the sources.
  \<^item> \<open>peerline-crypto\<close>: \<open>Crypto\<close> (\<open>aead.rs\<close>, \<open>transcript.rs\<close>, \<open>handshake.rs\<close>), \<open>Opaque\<close> (\<open>opaque.rs\<close>, with the
    proof that it gives the sessions the login they assume).
  \<^item> \<open>peerline-net\<close>, the sessions: \<open>Protocol\<close> (\<open>protocol.rs\<close>, the codec of \<open>libp2p_transfer\<close>), \<open>Resume\<close> (\<open>resume.rs\<close>: the
    partial archives on disk), \<open>Direct_Net\<close>, \<open>Direct_Session\<close>, \<open>Direct_Receive\<close> and
    \<open>Port_Mapping\<close> (\<open>direct.rs\<close>: addresses, both roles over TCP, the accept loop, the life of a gateway mapping),
    \<open>Tunnel_Url\<close> and \<open>Tunnel_Transfer\<close> (\<open>tunnel.rs\<close>), \<open>I2p_Sam\<close> and \<open>I2p_Address\<close> (\<open>tunnel/i2p.rs\<close>),
    \<open>Libp2p_Send\<close>, \<open>Libp2p_Receive\<close> and \<open>Libp2p_Honest\<close> (\<open>libp2p_transfer\<close>: the sender, the sessions of
    the receiver, the two together).
  \<^item> \<open>peerline-net\<close>, finding each other: \<open>Discovery_Config\<close>, \<open>Endpoints\<close>, \<open>Snapshot\<close>, \<open>Discovery_Loop\<close> and
    \<open>Descriptor_Publish\<close> (\<open>discovery.rs\<close> and its directory, with the swarm loop of the libp2p receiver), \<open>Pkarr\<close> (\<open>pkarr.rs\<close>: the
    Mainline announcement and its publisher), \<open>Rendezvous_Client\<close> and \<open>Rendezvous_Guard\<close> (\<open>rendezvous.rs\<close>: requests,
    and the keepalive as an inductive step relation).
  \<^item> The rendezvous service: \<open>Rendezvous_Model\<close> (the shared crate), \<open>Rendezvous_Service\<close> (the router and the shard
    handlers, SQL statements as list operations), \<open>Rendezvous_Registry\<close> (the invariant of a shard and its refinement
    of a finite map), \<open>Rendezvous_Link\<close> (client and service joined).
  \<^item> \<open>peerline-cli\<close>: \<open>Cli_Args\<close>, \<open>Cli_Send\<close>, \<open>Cli_Start\<close>, \<open>Cli_Recv\<close> (\<open>main.rs\<close>, \<open>main/i2p.rs\<close>: the options, which transports a
    send tries and how often, how a receiver brings up its tunnels, the receive command), \<open>Cli_Wait\<close> (\<open>main/wait.rs\<close>),
    \<open>Cli_Terminal\<close> (\<open>main/terminal.rs\<close>: trace events as log lines),
    \<open>Cli_Doctor\<close> (\<open>main/doctor\<close>: the checks, the plans, the report) and \<open>Cli_Setup\<close> (\<open>main/setup\<close>: running a plan, the
    interactive screen).
  \<^item> \<open>peerline-tui\<close>: \<open>Tui_Text\<close> (\<open>dashboard/format.rs\<close>), \<open>Tui_Logs\<close> (\<open>dashboard/logs.rs\<close>), \<open>Tui_Dashboard\<close> (the state, every event, keys, and
    its refinement of a folded view), \<open>Tui_Screen\<close> (the texts of every widget).

  \<^bold>\<open>What the theorems show.\<close> For the payload: an archive unpacks to its sources, touches nothing
  outside its destination, overwrites nothing unless told to, and clashing sources are never
  accepted. For the sessions, over each of the three transports: a peer without the code changes nothing on the
  receiver's disk, the sender sends exactly the bytes the receiver lacks, a completed transfer
  is the archive that was announced, and an honest pair completes, resumed or not. For
  discovery: the descriptor is one and the same wherever it is published, the search ends when
  it has candidates, only addresses of the local network count as local, an announcement decodes
  to what it was made from, and what a client publishes at the service another discovers. For
  the service: the table invariant, refinement of a map, authentication before any change, the
  rate limit. For the command line: every route is tried before a send gives up, switched-off
  transports are never used, retries and waits are bounded or are shown to hang, every transfer is
  counted, starting a transport ends within its time limit, and setup
  launches nothing the user has not just confirmed as shown. For the dashboard: bounded memory, and every
  stop or retry signal has the key press that asked for it. Error properties state the code's
  own failures too: which error kinds are lost, which rows go stale, which request stops a receiver.

  \<^bold>\<open>Bounds and fuel.\<close> Loops recurse on the bytes, messages or events still to come, with a
  measure where that is not structural. A select loop takes the list of events it sees, and its end
  means it is still waiting, a result of its own. Fuel appears in four places, with enough of it by
  construction: draining base32 bits (3 steps: at most twelve bits are pending, five leave
  at a time), the bit lengths of a quotient and of its excess in the formatted rates (128 and
  64: the operands have 64 bits), and the unit of a size (4: there are five units).

  \<^bold>\<open>Not modelled.\<close> The protocol of the OPAQUE crate is a parameter. Building a swarm, dialling, TLS and the Workers runtime belong to their libraries; the events
  they deliver are the arguments of the loops. The option parser, the password prompt, the
  subscriber of the trace, killing a child process, the JSON form of the report, laying out and painting a terminal have no logic of this program.
  On Windows the doctor looks for commands with the extensions of that system; the paths here are Unix paths.
  Test fixtures are left out.
\<close>

end
